(* ===== verification/Mesh_Prelude.thy ===== *)
theory Mesh_Prelude
  imports Main "HOL-Library.List_Lexorder" "HOL-Library.Char_ord" "HOL-Library.Option_ord"
begin

text \<open>
  What every component of the mesh shares.

  The services keep their durable state in SQLite and their live state in JavaScript maps.
  A table is the list of its rows in insertion order, and a statement of the code is one of
  the \<open>sql_*\<close> functions below: the predicate is the \<open>WHERE\<close> clause, the function the
  \<open>SET\<close> clause, and \<open>sql_changes\<close> is the \<open>changes\<close> count that the code decides on.
  \<open>sql_unique key t\<close> is a \<open>PRIMARY KEY\<close> or \<open>UNIQUE\<close> index, \<open>sql_unique_where\<close> a partial
  one (\<open>CREATE UNIQUE INDEX ... WHERE\<close>).

  A \<open>DATETIME\<close> column holds \<open>YYYY-MM-DD HH:MM:SS\<close>, whose text order is the order of time; it
  is the number of seconds since the epoch here (\<open>secs\<close>). \<open>Date.now()\<close> is in milliseconds
  (\<open>millis\<close>), and \<open>datetime('now')\<close> is \<open>sql_now\<close> of it.

  \<open>ORDER BY\<close> is a stable sort on the key. SQLite leaves the order of rows with equal keys open;
  no theorem of the development depends on it.

  The locale \<open>machine\<close> is the interface by which a component's operations, collected in one
  step function, lift an invariant from one operation to every run.
\<close>

section \<open>Time and optional values\<close>

type_synonym millis = int
type_synonym secs = int

definition sql_now :: "millis \<Rightarrow> secs" where
  "sql_now now_ms = now_ms div 1000"

lemma sql_now_mono: "a \<le> b \<Longrightarrow> sql_now a \<le> sql_now b"
  by (simp add: sql_now_def zdiv_mono1)

text \<open>The \<open>??\<close> operator: the value, or the default where it is null.\<close>

fun coalesce :: "'a option \<Rightarrow> 'a \<Rightarrow> 'a" where
  "coalesce None d = d"
| "coalesce (Some a) d = a"

lemma coalesce_eq: "coalesce x d = (case x of None \<Rightarrow> d | Some a \<Rightarrow> a)"
  by (cases x) auto

text \<open>A name in single quotes, as the messages of the code print it.\<close>

definition quoted :: "string \<Rightarrow> string" where
  "quoted s = CHR 0x27 # s @ [CHR 0x27]"

section \<open>Tables\<close>

named_theorems sql_simps "what a statement does to the rows, the keys and the change count"
named_theorems mesh_inv "an operation keeps a component's invariant"

definition sql_where :: "('r \<Rightarrow> bool) \<Rightarrow> 'r list \<Rightarrow> 'r list" where
  "sql_where P t = filter P t"

text \<open>\<open>.get()\<close>: the first row that matches.\<close>

definition sql_get :: "('r \<Rightarrow> bool) \<Rightarrow> 'r list \<Rightarrow> 'r option" where
  "sql_get P t = find P t"

definition sql_exists :: "('r \<Rightarrow> bool) \<Rightarrow> 'r list \<Rightarrow> bool" where
  "sql_exists P t = list_ex P t"

definition sql_update :: "('r \<Rightarrow> bool) \<Rightarrow> ('r \<Rightarrow> 'r) \<Rightarrow> 'r list \<Rightarrow> 'r list" where
  "sql_update P f t = map (\<lambda>r. if P r then f r else r) t"

definition sql_delete :: "('r \<Rightarrow> bool) \<Rightarrow> 'r list \<Rightarrow> 'r list" where
  "sql_delete P t = filter (\<lambda>r. \<not> P r) t"

definition sql_changes :: "('r \<Rightarrow> bool) \<Rightarrow> 'r list \<Rightarrow> nat" where
  "sql_changes P t = length (filter P t)"

text \<open>\<open>INSERT ... ON CONFLICT DO NOTHING\<close>; the flag says whether a row was written.\<close>

definition sql_insert_ignore :: "('r \<Rightarrow> 'k) \<Rightarrow> 'r \<Rightarrow> 'r list \<Rightarrow> 'r list" where
  "sql_insert_ignore key r t = (if sql_exists (\<lambda>x. key x = key r) t then t else t @ [r])"

text \<open>\<open>INSERT ... ON CONFLICT(key) DO UPDATE SET\<close>.\<close>

definition sql_upsert :: "('r \<Rightarrow> 'k) \<Rightarrow> 'r \<Rightarrow> ('r \<Rightarrow> 'r) \<Rightarrow> 'r list \<Rightarrow> 'r list" where
  "sql_upsert key r f t =
     (if sql_exists (\<lambda>x. key x = key r) t then sql_update (\<lambda>x. key x = key r) f t else t @ [r])"

definition sql_unique :: "('r \<Rightarrow> 'k) \<Rightarrow> 'r list \<Rightarrow> bool" where
  "sql_unique key t = distinct (map key t)"

definition sql_unique_where :: "('r \<Rightarrow> bool) \<Rightarrow> ('r \<Rightarrow> 'k) \<Rightarrow> 'r list \<Rightarrow> bool" where
  "sql_unique_where P key t = distinct (map key (filter P t))"

definition order_asc :: "('r \<Rightarrow> 'k::linorder) \<Rightarrow> 'r list \<Rightarrow> 'r list" where
  "order_asc key t = sort_key key t"

definition order_desc :: "('r \<Rightarrow> 'k::linorder) \<Rightarrow> 'r list \<Rightarrow> 'r list" where
  "order_desc key t = rev (sort_key key (rev t))"

subsection \<open>Reading\<close>

lemma sql_exists_iff [sql_simps]: "sql_exists P t \<longleftrightarrow> (\<exists>r\<in>set t. P r)"
  by (simp add: sql_exists_def list_ex_iff)

lemma sql_get_None_iff [sql_simps]: "sql_get P t = None \<longleftrightarrow> (\<forall>r\<in>set t. \<not> P r)"
  by (auto simp: sql_get_def find_None_iff)

lemma sql_get_SomeD: "sql_get P t = Some r \<Longrightarrow> r \<in> set t \<and> P r"
  by (auto simp: sql_get_def find_Some_iff)

lemma sql_get_Nil [simp]: "sql_get P [] = None"
  by (simp add: sql_get_def)

lemma sql_get_Cons [simp]: "sql_get P (r # t) = (if P r then Some r else sql_get P t)"
  by (simp add: sql_get_def)

lemma sql_get_append:
  "sql_get P (t @ u) = (case sql_get P t of None \<Rightarrow> sql_get P u | Some r \<Rightarrow> Some r)"
  by (induction t) auto

lemma sql_get_cong: "(\<And>r. r \<in> set t \<Longrightarrow> P r = Q r) \<Longrightarrow> sql_get P t = sql_get Q t"
  by (induction t) auto

lemma set_sql_where [sql_simps]: "set (sql_where P t) = {r \<in> set t. P r}"
  by (simp add: sql_where_def)

lemma set_order [sql_simps]: "set (order_asc key t) = set t" "set (order_desc k2 t) = set t"
  by (simp_all add: order_asc_def order_desc_def)

lemma length_order [simp]: "length (order_asc key t) = length t" "length (order_desc k2 t) = length t"
  by (simp_all add: order_asc_def order_desc_def)

lemma sorted_order_asc: "sorted (map key (order_asc key t))"
  by (simp add: order_asc_def)

lemma distinct_order [simp]:
  "distinct (order_asc key t) = distinct t" "distinct (order_desc k2 t) = distinct t"
  by (simp_all add: order_asc_def order_desc_def)

text \<open>With a unique key, the row found is the row meant.\<close>

lemma sql_unique_eqD:
  "sql_unique key t \<Longrightarrow> r \<in> set t \<Longrightarrow> r' \<in> set t \<Longrightarrow> key r = key r' \<Longrightarrow> r = r'"
  by (auto simp: sql_unique_def distinct_map inj_on_def)

lemma sql_unique_whereD:
  "sql_unique_where P key t \<Longrightarrow> r \<in> set t \<Longrightarrow> r' \<in> set t \<Longrightarrow> P r \<Longrightarrow> P r' \<Longrightarrow> key r = key r' \<Longrightarrow> r = r'"
  by (auto simp: sql_unique_where_def distinct_map inj_on_def)

lemma sql_get_unique:
  assumes "r \<in> set t" "P r" "\<And>x. x \<in> set t \<Longrightarrow> P x \<Longrightarrow> x = r"
  shows "sql_get P t = Some r"
proof (cases "sql_get P t")
  case None
  with assms(1,2) show ?thesis by (simp add: sql_get_None_iff)
next
  case (Some x)
  then have "x \<in> set t" "P x" by (simp_all add: sql_get_SomeD)
  then have "x = r" by (rule assms(3))
  with Some show ?thesis by simp
qed

lemma sql_get_key:
  "sql_unique key t \<Longrightarrow> r \<in> set t \<Longrightarrow> sql_get (\<lambda>x. key x = key r) t = Some r"
  by (rule sql_get_unique) (auto dest: sql_unique_eqD)

lemma sql_get_key_iff:
  assumes "sql_unique key t"
  shows "sql_get (\<lambda>x. key x = k) t = Some r \<longleftrightarrow> r \<in> set t \<and> key r = k"
proof
  assume "r \<in> set t \<and> key r = k"
  with sql_get_key [OF assms, of r] show "sql_get (\<lambda>x. key x = k) t = Some r" by simp
qed (rule sql_get_SomeD)

subsection \<open>Writing\<close>

lemma set_sql_update: "set (sql_update P f t) = (\<lambda>r. if P r then f r else r) ` set t"
  by (simp only: sql_update_def list.set_map)

lemma in_sql_update:
  "x \<in> set (sql_update P f t) \<longleftrightarrow> (\<exists>r\<in>set t. x = (if P r then f r else r))"
  by (simp only: set_sql_update image_iff)

lemma bex_sql_update [sql_simps]:
  "(\<exists>x\<in>set (sql_update P f t). Q x) \<longleftrightarrow> (\<exists>r\<in>set t. Q (if P r then f r else r))"
  by (simp only: set_sql_update bex_simps)

lemma ball_sql_update [sql_simps]:
  "(\<forall>x\<in>set (sql_update P f t). Q x) \<longleftrightarrow> (\<forall>r\<in>set t. Q (if P r then f r else r))"
  by (simp only: set_sql_update ball_simps)

lemma length_sql_update [simp]: "length (sql_update P f t) = length t"
  by (simp add: sql_update_def)

lemma map_key_sql_update:
  "(\<And>r. r \<in> set t \<Longrightarrow> P r \<Longrightarrow> key (f r) = key r) \<Longrightarrow> map key (sql_update P f t) = map key t"
  by (auto simp: sql_update_def)

lemma image_key_sql_update:
  "(\<And>r. r \<in> set t \<Longrightarrow> P r \<Longrightarrow> key (f r) = key r) \<Longrightarrow> key ` set (sql_update P f t) = key ` set t"
  using map_key_sql_update [of t P key f] by (metis list.set_map)

lemma sql_unique_update:
  "(\<And>r. r \<in> set t \<Longrightarrow> P r \<Longrightarrow> key (f r) = key r) \<Longrightarrow> sql_unique key (sql_update P f t) = sql_unique key t"
  by (simp add: sql_unique_def map_key_sql_update)

lemma sql_exists_update: "(\<And>r. P (f r) = P r) \<Longrightarrow> sql_exists P (sql_update Q f t) = sql_exists P t"
  by (induction t) (simp_all add: sql_exists_def sql_update_def)

lemma sql_update_none: "(\<And>r. r \<in> set t \<Longrightarrow> \<not> P r) \<Longrightarrow> sql_update P f t = t"
  by (simp add: sql_update_def map_idI)

lemma set_sql_delete [sql_simps]: "set (sql_delete P t) = {r \<in> set t. \<not> P r}"
  by (auto simp: sql_delete_def)

lemma sql_unique_delete: "sql_unique key t \<Longrightarrow> sql_unique key (sql_delete P t)"
  by (auto simp: sql_unique_def sql_delete_def distinct_map intro: inj_on_subset)

lemma sql_changes_zero [sql_simps]: "sql_changes P t = 0 \<longleftrightarrow> (\<forall>r\<in>set t. \<not> P r)"
  by (simp add: sql_changes_def filter_empty_conv)

lemma sql_changes_pos [sql_simps]: "0 < sql_changes P t \<longleftrightarrow> (\<exists>r\<in>set t. P r)"
  by (auto simp: sql_changes_def filter_empty_conv)

lemma sql_unique_append [sql_simps]:
  "sql_unique key (t @ [r]) \<longleftrightarrow> sql_unique key t \<and> key r \<notin> key ` set t"
  by (auto simp: sql_unique_def)

lemma sql_unique_Nil [simp]: "sql_unique key []"
  by (simp add: sql_unique_def)

lemma sql_unique_single [simp]: "sql_unique key [r]"
  by (simp add: sql_unique_def)

lemma sql_unique_where_append [sql_simps]:
  "sql_unique_where P key (t @ [r]) \<longleftrightarrow>
     sql_unique_where P key t \<and> (P r \<longrightarrow> (\<forall>x\<in>set t. P x \<longrightarrow> key x \<noteq> key r))"
proof (cases "P r")
  case True
  have "key r \<in> key ` {x \<in> set t. P x} \<longleftrightarrow> (\<exists>x\<in>set t. P x \<and> key x = key r)"
    by (auto intro: rev_image_eqI)
  with True show ?thesis by (auto simp: sql_unique_where_def)
next
  case False
  then show ?thesis by (simp add: sql_unique_where_def)
qed

lemma sql_unique_where_delete: "sql_unique_where P key t \<Longrightarrow> sql_unique_where P key (sql_delete Q t)"
  by (induction t) (auto simp: sql_unique_where_def sql_delete_def)

text \<open>
  An update keeps a partial unique index where the rows it turns on are not matched by any
  other row the index covers.
\<close>

lemma sql_unique_where_update:
  assumes "sql_unique_where P key t"
    and "\<And>r. r \<in> set t \<Longrightarrow> Q r \<Longrightarrow> P (f r) \<Longrightarrow> P r \<and> key (f r) = key r"
  shows "sql_unique_where P key (sql_update Q f t)"
  using assms
proof (induction t)
  case Nil
  then show ?case by (simp add: sql_unique_where_def sql_update_def)
next
  case (Cons a t)
  have IH: "sql_unique_where P key (sql_update Q f t)"
    using Cons by (auto simp: sql_unique_where_def split: if_splits)
  have "\<And>x. x \<in> set (sql_update Q f t) \<Longrightarrow> P x \<Longrightarrow> key x \<in> key ` {y \<in> set t. P y}"
    using Cons.prems(2) by (fastforce simp: in_sql_update)
  moreover have "P a \<Longrightarrow> key a \<notin> key ` {y \<in> set t. P y}"
    using Cons.prems(1) by (auto simp: sql_unique_where_def)
  moreover have "Q a \<Longrightarrow> P (f a) \<Longrightarrow> P a \<and> key (f a) = key a"
    using Cons.prems(2) by simp
  ultimately show ?case
    using IH by (auto simp: sql_unique_where_def sql_update_def)
qed

text \<open>Over distinct rows a partial index is a statement about pairs of rows.\<close>

lemma sql_unique_distinct: "sql_unique key t \<Longrightarrow> distinct t"
  by (auto simp: sql_unique_def distinct_map)

lemma sql_unique_where_iff:
  "distinct t \<Longrightarrow> sql_unique_where P key t \<longleftrightarrow>
     (\<forall>r\<in>set t. \<forall>r'\<in>set t. P r \<longrightarrow> P r' \<longrightarrow> key r = key r' \<longrightarrow> r = r')"
  by (auto simp: sql_unique_where_def distinct_map inj_on_def)

lemma image_key_insert_ignore:
  "key ` set (sql_insert_ignore key r t) = insert (key r) (key ` set t)"
  by (auto simp: sql_insert_ignore_def sql_exists_iff intro: rev_image_eqI)

lemma image_key_delete: "key ` set (sql_delete (\<lambda>x. key x = k) t) = key ` set t - {k}"
  by (auto simp: sql_delete_def)

lemma sql_insert_ignore_unique: "sql_unique key t \<Longrightarrow> sql_unique key (sql_insert_ignore key r t)"
  by (auto simp: sql_insert_ignore_def sql_simps)

lemma set_sql_insert_ignore [sql_simps]:
  "set (sql_insert_ignore key r t) = (if \<exists>x\<in>set t. key x = key r then set t else insert r (set t))"
  by (auto simp: sql_insert_ignore_def sql_simps)

lemma sql_upsert_unique:
  "sql_unique key t \<Longrightarrow> (\<And>x. key x = key r \<Longrightarrow> key (f x) = key x) \<Longrightarrow> sql_unique key (sql_upsert key r f t)"
  using sql_unique_update [of t "\<lambda>x. key x = key r" key f] by (auto simp: sql_upsert_def sql_simps)

text \<open>Looking up by key after a write.\<close>

lemma sql_get_update_key:
  assumes "\<And>x. P x \<Longrightarrow> key (f x) = key x"
  shows "sql_get (\<lambda>x. key x = k) (sql_update P f t) =
     map_option (\<lambda>x. if P x then f x else x) (sql_get (\<lambda>x. key x = k) t)"
  by (induction t) (auto simp: sql_update_def assms)

lemma sql_get_delete_key:
  "sql_get (\<lambda>x. key x = k) (sql_delete (\<lambda>x. key x = k') t) =
     (if k = k' then None else sql_get (\<lambda>x. key x = k) t)"
  by (induction t) (auto simp: sql_delete_def)

lemma sql_get_upsert:
  assumes "\<And>x. key x = key r \<Longrightarrow> key (f x) = key x"
  shows "sql_get (\<lambda>x. key x = k) (sql_upsert key r f t) =
     (if k = key r then Some (case sql_get (\<lambda>x. key x = k) t of None \<Rightarrow> r | Some x \<Rightarrow> f x)
      else sql_get (\<lambda>x. key x = k) t)"
proof (cases "sql_get (\<lambda>x. key x = key r) t")
  case None
  then have "\<not> sql_exists (\<lambda>x. key x = key r) t" by (simp add: sql_simps)
  with None show ?thesis
    by (auto simp: sql_upsert_def sql_get_append split: option.split)
next
  case (Some x)
  then have x: "x \<in> set t" "key x = key r" by (auto dest: sql_get_SomeD)
  then have "sql_exists (\<lambda>x. key x = key r) t" by (auto simp: sql_simps)
  moreover have "map_option (\<lambda>x. if key x = key r then f x else x) (sql_get (\<lambda>x. key x = k) t) =
      sql_get (\<lambda>x. key x = k) t" if "k \<noteq> key r"
    using that by (cases "sql_get (\<lambda>x. key x = k) t") (auto dest: sql_get_SomeD)
  ultimately show ?thesis
    using Some x by (simp add: sql_upsert_def sql_get_update_key assms)
qed

section \<open>Runs of operations\<close>

text \<open>
  A component is a state with operations. Its invariant is kept by every operation; the locale
  lifts that to every run from a state that has it, and to facts an operation can only establish,
  never undo.
\<close>

locale machine =
  fixes step :: "'s \<Rightarrow> 'op \<Rightarrow> 's"
    and invar :: "'s \<Rightarrow> bool"
  assumes invar_step: "invar s \<Longrightarrow> invar (step s op)"
begin

lemma run_invar: "invar s \<Longrightarrow> invar (foldl step s ops)"
  by (induction ops arbitrary: s) (auto intro: invar_step)

lemma run_stable:
  assumes keep: "\<And>s op. invar s \<Longrightarrow> Q s \<Longrightarrow> Q (step s op)"
    and start: "invar s" "Q s"
  shows "Q (foldl step s ops)"
  using start
proof (induction ops arbitrary: s)
  case Nil
  then show ?case by simp
next
  case (Cons op ops)
  then show ?case using keep invar_step by simp
qed

end

end
