(* ===== verification/Store_Schema.thy ===== *)
theory Store_Schema
  imports Mesh_Prelude
begin

text \<open>
  The tables of \<open>agents.db\<close> (\<open>packages/store/src/schema/agents.ts\<close> and the \<open>migrate\<close> functions
  of \<open>tenants.ts\<close>, \<open>groups.ts\<close>, \<open>grants.ts\<close> and \<open>ownership.ts\<close>): one record per table, one
  field per column, in the order of the \<open>CREATE TABLE\<close>, and the database as the record of its
  tables. A nullable column is an \<open>option\<close>.

  Text is the UTF-8 bytes that SQLite stores, so \<open>ORDER BY\<close> on a text column (binary collation)
  is the lexicographic order of \<open>List_Lexorder\<close>.

  The database that a fresh migration leaves is \<open>agents_db_init\<close>: the tables empty but for the
  seeded types, the default tenant, the default group and its one egress rule. The \<open>ALTER TABLE\<close>
  shims for databases of earlier builds are not modelled.
\<close>

section \<open>Rows\<close>

record agent_row =
  ag_identity :: string
  ag_description :: "string option"
  ag_last_seen :: "secs option"
  ag_type :: "string option"
  ag_created_at :: "secs option"
  ag_deleted_at :: "secs option"
  ag_can_proxy :: int
  ag_tenant :: string
  ag_last_send_at :: "secs option"

record agent_type_row =
  ty_type :: string
  ty_description :: "string option"
  ty_requires_key :: int
  ty_created_at :: secs

datatype key_status = Pending | Approved | Denied | Revoked

record key_row =
  k_fingerprint :: string
  k_identity :: string
  k_public_key :: string
  k_status :: key_status
  k_proposed_at :: secs
  k_decided_at :: "secs option"
  k_decided_by :: "string option"

datatype key_action = AProposed | AApproved | ADenied | ARevoked | ASuperseded

record key_event_row =
  ke_id :: string
  ke_identity :: string
  ke_fingerprint :: string
  ke_action :: key_action
  ke_reason :: "string option"
  ke_actor :: "string option"
  ke_occurred_at :: secs

record source_row =
  so_identity :: string
  so_observed :: string
  so_first_seen :: secs
  so_last_seen :: secs
  so_requests :: int

record upload_nonce_row =
  un_nonce :: string
  un_identity :: string
  un_blob_key :: string
  un_size :: int
  un_sha256 :: string
  un_issued_at :: secs
  un_expires_at :: secs

record tenant_row =
  te_id :: string
  te_name :: string
  te_created_at :: secs
  te_deleted_at :: "secs option"

record group_row =
  gr_tenant :: string
  gr_group_id :: string
  gr_description :: "string option"
  gr_created_at :: secs
  gr_created_by :: string

record member_row =
  gm_tenant :: string
  gm_identity :: string
  gm_group_id :: string
  gm_moved_at :: secs
  gm_moved_by :: string

record egress_row =
  eg_tenant :: string
  eg_from_group :: string
  eg_to_group :: string
  eg_granted_at :: secs
  eg_granted_by :: string

record grant_row =
  rg_tenant :: string
  rg_subject :: string
  rg_capability :: string
  rg_scope :: string
  rg_granted_by :: string
  rg_granted_at :: secs

record owner_row =
  ow_tenant :: string
  ow_identity :: string
  ow_owner :: string
  ow_granted_at :: secs
  ow_granted_by :: string

record pairing_row =
  pc_code :: string
  pc_tenant :: string
  pc_identity :: string
  pc_issued_by :: string
  pc_issued_at :: secs
  pc_expires_at :: secs
  pc_redeemed_at :: "secs option"
  pc_redeemed_from :: "string option"

section \<open>The database\<close>

record agents_db =
  db_agents :: "agent_row list"
  db_types :: "agent_type_row list"
  db_keys :: "key_row list"
  db_key_events :: "key_event_row list"
  db_sources :: "source_row list"
  db_upload_nonces :: "upload_nonce_row list"
  db_tenants :: "tenant_row list"
  db_groups :: "group_row list"
  db_members :: "member_row list"
  db_egress :: "egress_row list"
  db_grants :: "grant_row list"
  db_owners :: "owner_row list"
  db_pairing :: "pairing_row list"

definition DEFAULT_TENANT :: string where
  "DEFAULT_TENANT = ''default''"

definition DEFAULT_GROUP :: string where
  "DEFAULT_GROUP = ''default''"

text \<open>The display name of the default tenant, the UTF-8 bytes of U+D50C U+B7AB U+D3FC.\<close>

definition DEFAULT_TENANT_NAME :: string where
  "DEFAULT_TENANT_NAME =
     [CHR 0xED, CHR 0x94, CHR 0x8C, CHR 0xEB, CHR 0x9E, CHR 0xAB, CHR 0xED, CHR 0x8F, CHR 0xBC]"

definition SEEDED_TYPES :: "(string \<times> string \<times> int) list" where
  "SEEDED_TYPES =
     [(''ai-claude'', ''Claude runtime'', 1),
      (''ai-codex'', ''Codex runtime'', 1),
      (''ai-antigravity'', ''Antigravity (agy) CLI runtime'', 1),
      (''service'', ''Baseline service'', 0),
      (''human'', ''Person, authenticated by web session rather than by key'', 0)]"

definition agents_migrate :: "secs \<Rightarrow> agents_db \<Rightarrow> agents_db" where
  "agents_migrate t db =
     db\<lparr>db_tenants := sql_insert_ignore te_id
          \<lparr>te_id = DEFAULT_TENANT, te_name = DEFAULT_TENANT_NAME, te_created_at = t, te_deleted_at = None\<rparr>
          (db_tenants db),
        db_types := foldl (\<lambda>ts (ty, d, rk). sql_insert_ignore ty_type
          \<lparr>ty_type = ty, ty_description = Some d, ty_requires_key = rk, ty_created_at = t\<rparr> ts)
          (db_types db) SEEDED_TYPES\<rparr>"

definition groups_migrate :: "secs \<Rightarrow> agents_db \<Rightarrow> agents_db" where
  "groups_migrate t db =
     db\<lparr>db_groups := sql_insert_ignore (\<lambda>g. (gr_tenant g, gr_group_id g))
          \<lparr>gr_tenant = DEFAULT_TENANT, gr_group_id = DEFAULT_GROUP,
           gr_description = Some ''Everything that has not been placed anywhere else'',
           gr_created_at = t, gr_created_by = ''seed''\<rparr> (db_groups db),
        db_egress := sql_insert_ignore (\<lambda>e. (eg_tenant e, eg_from_group e, eg_to_group e))
          \<lparr>eg_tenant = DEFAULT_TENANT, eg_from_group = DEFAULT_GROUP, eg_to_group = DEFAULT_GROUP,
           eg_granted_at = t, eg_granted_by = ''seed''\<rparr> (db_egress db)\<rparr>"

definition agents_db_empty :: agents_db where
  "agents_db_empty =
     \<lparr>db_agents = [], db_types = [], db_keys = [], db_key_events = [], db_sources = [],
      db_upload_nonces = [], db_tenants = [], db_groups = [], db_members = [], db_egress = [],
      db_grants = [], db_owners = [], db_pairing = []\<rparr>"

definition agents_db_init :: "secs \<Rightarrow> agents_db" where
  "agents_db_init t = groups_migrate t (agents_migrate t agents_db_empty)"

lemma agents_db_init_tables [simp]:
  "db_agents (agents_db_init t) = []" "db_keys (agents_db_init t) = []"
  "db_key_events (agents_db_init t) = []" "db_members (agents_db_init t) = []"
  "db_sources (agents_db_init t) = []" "db_upload_nonces (agents_db_init t) = []"
  "db_grants (agents_db_init t) = []" "db_owners (agents_db_init t) = []"
  "db_pairing (agents_db_init t) = []"
  by (simp_all add: agents_db_init_def groups_migrate_def agents_migrate_def agents_db_empty_def)

text \<open>The primary keys of the identity tables, as SQLite enforces them.\<close>

definition agents_pk :: "agents_db \<Rightarrow> bool" where
  "agents_pk db \<longleftrightarrow> sql_unique ag_identity (db_agents db) \<and> sql_unique ty_type (db_types db)"

definition agent_at :: "agents_db \<Rightarrow> string \<Rightarrow> agent_row option" where
  "agent_at db i = sql_get (\<lambda>a. ag_identity a = i) (db_agents db)"

lemma agent_at_Some_iff:
  "agents_pk db \<Longrightarrow> agent_at db i = Some a \<longleftrightarrow> a \<in> set (db_agents db) \<and> ag_identity a = i"
  by (simp add: agent_at_def agents_pk_def sql_get_key_iff)

end
