(* ===== verification/Store_Tenants.thy ===== *)
theory Store_Tenants
  imports Store_Schema
begin

text \<open>
  \<open>packages/store/src/tenants.ts\<close>: which tenant an identity belongs to, and the list of the
  tenants, from which a row is only ever hidden.
\<close>

definition tenantOf :: "agents_db \<Rightarrow> string \<Rightarrow> string" where
  "tenantOf db identity =
     (case sql_get (\<lambda>a. ag_identity a = identity) (db_agents db) of
        None \<Rightarrow> DEFAULT_TENANT
      | Some row \<Rightarrow> ag_tenant row)"

text \<open>\<open>ORDER BY (id = 'default') DESC, name\<close>: the default tenant first, the rest by name.\<close>

definition listTenants :: "agents_db \<Rightarrow> bool \<Rightarrow> tenant_row list" where
  "listTenants db includeDeleted =
     (let rows = (if includeDeleted then db_tenants db
                  else sql_where (\<lambda>t. te_deleted_at t = None) (db_tenants db));
          by_name = order_asc te_name rows
      in filter (\<lambda>t. te_id t = DEFAULT_TENANT) by_name @ filter (\<lambda>t. te_id t \<noteq> DEFAULT_TENANT) by_name)"

definition getTenant :: "agents_db \<Rightarrow> string \<Rightarrow> tenant_row option" where
  "getTenant db i = sql_get (\<lambda>t. te_id t = i) (db_tenants db)"

definition tenantIsOpen :: "agents_db \<Rightarrow> string \<Rightarrow> bool" where
  "tenantIsOpen db i =
     (case getTenant db i of None \<Rightarrow> False | Some row \<Rightarrow> te_deleted_at row = None)"

definition createTenant :: "secs \<Rightarrow> agents_db \<Rightarrow> string \<Rightarrow> string \<Rightarrow> bool \<times> agents_db" where
  "createTenant t db i name =
     (\<not> sql_exists (\<lambda>x. te_id x = i) (db_tenants db),
      db\<lparr>db_tenants := sql_insert_ignore te_id
           \<lparr>te_id = i, te_name = name, te_created_at = t, te_deleted_at = None\<rparr> (db_tenants db)\<rparr>)"

definition renameTenant :: "agents_db \<Rightarrow> string \<Rightarrow> string \<Rightarrow> bool \<times> agents_db" where
  "renameTenant db i name =
     (sql_changes (\<lambda>x. te_id x = i) (db_tenants db) > 0,
      db\<lparr>db_tenants := sql_update (\<lambda>x. te_id x = i) (\<lambda>x. x\<lparr>te_name := name\<rparr>) (db_tenants db)\<rparr>)"

definition deleteTenant :: "secs \<Rightarrow> agents_db \<Rightarrow> string \<Rightarrow> bool \<times> agents_db" where
  "deleteTenant t db i =
     (if i = DEFAULT_TENANT then (False, db)
      else (let P = (\<lambda>x. te_id x = i \<and> te_deleted_at x = None)
            in (sql_changes P (db_tenants db) > 0,
                db\<lparr>db_tenants := sql_update P (\<lambda>x. x\<lparr>te_deleted_at := Some t\<rparr>) (db_tenants db)\<rparr>)))"

definition restoreTenant :: "agents_db \<Rightarrow> string \<Rightarrow> bool \<times> agents_db" where
  "restoreTenant db i =
     (let P = (\<lambda>x. te_id x = i \<and> te_deleted_at x \<noteq> None)
      in (sql_changes P (db_tenants db) > 0,
          db\<lparr>db_tenants := sql_update P (\<lambda>x. x\<lparr>te_deleted_at := None\<rparr>) (db_tenants db)\<rparr>))"

subsection \<open>The tenant table as a machine\<close>

datatype tenant_op =
    TCreate secs string string
  | TRename string string
  | TDelete secs string
  | TRestore string

fun tenant_step :: "agents_db \<Rightarrow> tenant_op \<Rightarrow> agents_db" where
  "tenant_step db (TCreate t i n) = snd (createTenant t db i n)"
| "tenant_step db (TRename i n) = snd (renameTenant db i n)"
| "tenant_step db (TDelete t i) = snd (deleteTenant t db i)"
| "tenant_step db (TRestore i) = snd (restoreTenant db i)"

lemmas tenant_defs =
  createTenant_def renameTenant_def deleteTenant_def restoreTenant_def Let_def

text \<open>Ids stay unique and the default tenant stays on offer.\<close>

definition tenants_ok :: "agents_db \<Rightarrow> bool" where
  "tenants_ok db \<longleftrightarrow> sql_unique te_id (db_tenants db) \<and> tenantIsOpen db DEFAULT_TENANT"

lemma tenantIsOpen_iff:
  "sql_unique te_id (db_tenants db) \<Longrightarrow>
   tenantIsOpen db i \<longleftrightarrow> (\<exists>r\<in>set (db_tenants db). te_id r = i \<and> te_deleted_at r = None)"
  by (auto simp: tenantIsOpen_def getTenant_def sql_simps
        split: option.splits dest!: sql_get_SomeD dest: sql_unique_eqD)

lemma tenants_ok_iff:
  "tenants_ok db \<longleftrightarrow> sql_unique te_id (db_tenants db) \<and>
     (\<exists>r\<in>set (db_tenants db). te_id r = DEFAULT_TENANT \<and> te_deleted_at r = None)"
  by (auto simp: tenants_ok_def tenantIsOpen_iff)

lemma tenant_step_keys:
  "sql_unique te_id (db_tenants db) \<Longrightarrow> sql_unique te_id (db_tenants (tenant_step db op))"
  by (cases op) (simp_all add: tenant_defs sql_unique_update sql_insert_ignore_unique)

lemma tenant_step_ok [mesh_inv]: "tenants_ok db \<Longrightarrow> tenants_ok (tenant_step db op)"
  using tenant_step_keys [of db op]
  by (cases op) (auto simp: tenants_ok_iff tenant_defs sql_simps intro!: rev_bexI)

interpretation tenants: machine tenant_step tenants_ok
  by unfold_locales (rule tenant_step_ok)

lemma tenants_ok_init: "tenants_ok (agents_db_init t)"
  by (simp add: tenants_ok_iff agents_db_init_def groups_migrate_def agents_migrate_def
      agents_db_empty_def sql_insert_ignore_def sql_simps)

text \<open>No operation forgets an id: traffic and accounts go on resolving.\<close>

lemma tenant_step_keeps_ids:
  "te_id ` set (db_tenants db) \<subseteq> te_id ` set (db_tenants (tenant_step db op))"
  by (cases op) (auto simp: tenant_defs sql_simps image_key_sql_update)

lemma createTenant_open:
  assumes "tenants_ok db"
  shows "fst (createTenant t db i n) \<longleftrightarrow> getTenant db i = None"
    and "fst (createTenant t db i n) \<Longrightarrow> tenantIsOpen (snd (createTenant t db i n)) i"
  using assms
  by (auto simp: createTenant_def getTenant_def sql_simps tenantIsOpen_def sql_insert_ignore_def
      sql_get_append split: option.splits dest: sql_get_SomeD)

end
