(* ===== verification/Store_Agents.thy ===== *)
theory Store_Agents
  imports Store_Tenants
begin

text \<open>
  The identity registry: the type registry of \<open>packages/store/src/schema/agents.ts\<close>, who may
  speak for whom (\<open>entitlement.ts\<close>), and where an identity has been seen (\<open>sources.ts\<close>).

  The lemmas show that a type is removed only when no identity carries it, so that the join of
  \<open>mayProxy\<close> goes on finding the types that identities name; that an entitlement is exactly the
  two conditions of the specification; and that an observation is remembered.
\<close>

section \<open>The type registry\<close>

definition listTypes :: "agents_db \<Rightarrow> agent_type_row list" where
  "listTypes db = order_asc ty_type (db_types db)"

definition getType :: "agents_db \<Rightarrow> string \<Rightarrow> agent_type_row option" where
  "getType db ty = sql_get (\<lambda>t. ty_type t = ty) (db_types db)"

definition addType ::
  "secs \<Rightarrow> agents_db \<Rightarrow> string \<Rightarrow> string option \<Rightarrow> int \<Rightarrow> agent_type_row option \<times> agents_db" where
  "addType t db ty description requiresKey =
     (if sql_exists (\<lambda>x. ty_type x = ty) (db_types db) then (None, db)
      else (let db' = db\<lparr>db_types := sql_insert_ignore ty_type
                  \<lparr>ty_type = ty, ty_description = description, ty_requires_key = requiresKey,
                   ty_created_at = t\<rparr> (db_types db)\<rparr>
            in (getType db' ty, db')))"

definition identitiesOfType :: "agents_db \<Rightarrow> string \<Rightarrow> string list" where
  "identitiesOfType db ty = map ag_identity (sql_where (\<lambda>a. ag_type a = Some ty) (db_agents db))"

definition removeType :: "agents_db \<Rightarrow> string \<Rightarrow> (bool \<times> string list) \<times> agents_db" where
  "removeType db ty =
     (let inUseBy = identitiesOfType db ty
      in if inUseBy \<noteq> [] then ((False, inUseBy), db)
         else ((sql_changes (\<lambda>x. ty_type x = ty) (db_types db) > 0, []),
               db\<lparr>db_types := sql_delete (\<lambda>x. ty_type x = ty) (db_types db)\<rparr>))"

section \<open>Entitlement\<close>

datatype refusal = NotAProxy | UnknownIdentity | DeletedIdentity | SelfSigning

datatype entitlement = Entitled | Refused refusal

definition canProxy :: "agents_db \<Rightarrow> string \<Rightarrow> bool" where
  "canProxy db identity =
     (case sql_get (\<lambda>a. ag_identity a = identity \<and> ag_deleted_at a = None) (db_agents db) of
        None \<Rightarrow> False
      | Some row \<Rightarrow> ag_can_proxy row = 1)"

text \<open>The left join: the \<open>requires_key\<close> of an agent's type, null where no type row matches.\<close>

definition joined_requires_key :: "agents_db \<Rightarrow> agent_row \<Rightarrow> int option" where
  "joined_requires_key db a =
     (case ag_type a of
        None \<Rightarrow> None
      | Some ty \<Rightarrow> map_option ty_requires_key (getType db ty))"

definition mayProxy :: "agents_db \<Rightarrow> string \<Rightarrow> string \<Rightarrow> entitlement" where
  "mayProxy db proxy subject =
     (if proxy = subject then Entitled
      else if \<not> canProxy db proxy then Refused NotAProxy
      else (case sql_get (\<lambda>a. ag_identity a = subject) (db_agents db) of
              None \<Rightarrow> Refused UnknownIdentity
            | Some row \<Rightarrow>
                if ag_deleted_at row \<noteq> None then Refused DeletedIdentity
                else if joined_requires_key db row \<noteq> Some 0 then Refused SelfSigning
                else Entitled))"

fun refusalMessage :: "string \<Rightarrow> refusal \<Rightarrow> string" where
  "refusalMessage subject NotAProxy = ''not entitled to act for '' @ quoted subject"
| "refusalMessage subject UnknownIdentity =
     ''cannot act for '' @ quoted subject @ '': no such identity''"
| "refusalMessage subject DeletedIdentity =
     ''cannot act for '' @ quoted subject @ '': identity has been deleted''"
| "refusalMessage subject SelfSigning =
     ''cannot act for '' @ quoted subject @ '': that identity holds its own key and signs for itself''"

section \<open>Sources\<close>

definition recordSource :: "secs \<Rightarrow> agents_db \<Rightarrow> string \<Rightarrow> string option \<Rightarrow> agents_db" where
  "recordSource t db identity observed =
     (case observed of
        None \<Rightarrow> db
      | Some o' \<Rightarrow>
          if o' = [] then db
          else db\<lparr>db_sources := sql_upsert (\<lambda>s. (so_identity s, so_observed s))
                 \<lparr>so_identity = identity, so_observed = o', so_first_seen = t, so_last_seen = t,
                  so_requests = 1\<rparr>
                 (\<lambda>s. s\<lparr>so_last_seen := t, so_requests := so_requests s + 1\<rparr>)
                 (db_sources db)\<rparr>)"

definition seenBefore ::
  "agents_db \<Rightarrow> string \<Rightarrow> string option \<Rightarrow> (string option \<Rightarrow> string option) \<Rightarrow> bool" where
  "seenBefore db identity observed grp =
     (case observed of
        None \<Rightarrow> True
      | Some o' \<Rightarrow>
          if o' = [] then True
          else (let rows = sql_where (\<lambda>s. so_identity s = identity) (db_sources db)
                in if rows = [] then True
                   else list_ex (\<lambda>r. grp (Some (so_observed r)) = grp observed) rows))"

definition lastSendAt :: "agents_db \<Rightarrow> string \<Rightarrow> secs option" where
  "lastSendAt db identity =
     (case sql_get (\<lambda>a. ag_identity a = identity) (db_agents db) of
        None \<Rightarrow> None
      | Some row \<Rightarrow> ag_last_send_at row)"

definition markSend :: "secs \<Rightarrow> agents_db \<Rightarrow> string \<Rightarrow> agents_db" where
  "markSend t db identity =
     db\<lparr>db_agents := sql_update (\<lambda>a. ag_identity a = identity)
          (\<lambda>a. a\<lparr>ag_last_send_at := Some t\<rparr>) (db_agents db)\<rparr>"

section \<open>What they guarantee\<close>

text \<open>Every type an identity carries is registered.\<close>

definition types_resolve :: "agents_db \<Rightarrow> bool" where
  "types_resolve db \<longleftrightarrow>
     (\<forall>a\<in>set (db_agents db). case ag_type a of None \<Rightarrow> True | Some ty \<Rightarrow> getType db ty \<noteq> None)"

lemma getType_None_iff: "getType db ty = None \<longleftrightarrow> (\<forall>t\<in>set (db_types db). ty_type t \<noteq> ty)"
  by (simp add: getType_def sql_simps)

lemma removeType_resolves:
  "types_resolve db \<Longrightarrow> types_resolve (snd (removeType db ty))"
  by (fastforce simp: types_resolve_def removeType_def identitiesOfType_def getType_None_iff
      sql_simps sql_where_def filter_empty_conv Let_def split: option.splits)

lemma removeType_refused_iff:
  "snd (fst (removeType db ty)) \<noteq> [] \<longleftrightarrow> (\<exists>a\<in>set (db_agents db). ag_type a = Some ty)"
  by (auto simp: removeType_def identitiesOfType_def sql_where_def filter_empty_conv Let_def)

lemma addType_resolves: "types_resolve db \<Longrightarrow> types_resolve (snd (addType t db ty d rk))"
  by (fastforce simp: types_resolve_def addType_def getType_None_iff sql_simps Let_def
      split: option.splits)

lemma canProxy_iff:
  "agents_pk db \<Longrightarrow>
   canProxy db i \<longleftrightarrow>
     (\<exists>a\<in>set (db_agents db). ag_identity a = i \<and> ag_deleted_at a = None \<and> ag_can_proxy a = 1)"
  by (auto simp: canProxy_def agents_pk_def sql_simps split: option.splits
      dest!: sql_get_SomeD dest: sql_unique_eqD)

lemma getType_Some_iff:
  "agents_pk db \<Longrightarrow> getType db ty = Some t \<longleftrightarrow> t \<in> set (db_types db) \<and> ty_type t = ty"
  by (simp add: getType_def agents_pk_def sql_get_key_iff)

text \<open>The subject half of the rule: a live identity of a registered type that needs no key.\<close>

definition proxyable :: "agents_db \<Rightarrow> string \<Rightarrow> bool" where
  "proxyable db i \<longleftrightarrow>
     (\<exists>a\<in>set (db_agents db). ag_identity a = i \<and> ag_deleted_at a = None \<and>
        (\<exists>t\<in>set (db_types db). ag_type a = Some (ty_type t) \<and> ty_requires_key t = 0))"

lemma joined_requires_key_iff:
  "agents_pk db \<Longrightarrow>
   joined_requires_key db a = Some k \<longleftrightarrow>
     (\<exists>t\<in>set (db_types db). ag_type a = Some (ty_type t) \<and> ty_requires_key t = k)"
  by (auto simp: joined_requires_key_def getType_Some_iff split: option.splits)

lemma mayProxy_Entitled:
  assumes "agents_pk db"
  shows "mayProxy db p s = Entitled \<longleftrightarrow> p = s \<or> canProxy db p \<and> proxyable db s"
proof -
  have key: "sql_get (\<lambda>a. ag_identity a = s) (db_agents db) = Some a \<longleftrightarrow>
      a \<in> set (db_agents db) \<and> ag_identity a = s" for a
    using assms by (simp add: agents_pk_def sql_get_key_iff)
  have uniq: "a = b"
    if "a \<in> set (db_agents db)" "b \<in> set (db_agents db)" "ag_identity a = ag_identity b" for a b
    using assms that unfolding agents_pk_def by (blast dest: sql_unique_eqD)
  show ?thesis
  proof (cases "sql_get (\<lambda>a. ag_identity a = s) (db_agents db)")
    case None
    then have "\<not> proxyable db s" by (auto simp: proxyable_def sql_simps)
    with None show ?thesis by (simp add: mayProxy_def)
  next
    case (Some a)
    then have a: "a \<in> set (db_agents db)" "ag_identity a = s" by (simp_all add: key)
    then have "proxyable db s \<longleftrightarrow> ag_deleted_at a = None \<and> joined_requires_key db a = Some 0"
      using assms uniq by (auto simp: proxyable_def joined_requires_key_iff)
    with Some show ?thesis by (auto simp: mayProxy_def)
  qed
qed

lemma recordSource_simps [simp]:
  "db_agents (recordSource t db i ob) = db_agents db" "db_types (recordSource t db i ob) = db_types db"
  "db_keys (recordSource t db i ob) = db_keys db" "db_members (recordSource t db i ob) = db_members db"
  "db_egress (recordSource t db i ob) = db_egress db"
  "db_key_events (recordSource t db i ob) = db_key_events db"
  by (simp_all add: recordSource_def split: option.split)

lemma recordSource_seen:
  "ob \<noteq> None \<Longrightarrow> seenBefore (recordSource t db i ob) i ob g"
  by (auto simp: recordSource_def seenBefore_def sql_where_def sql_upsert_def sql_exists_iff
      list_ex_iff Let_def in_sql_update split: option.splits intro!: rev_bexI)

text \<open>One row per address, however often it is seen.\<close>

lemma recordSource_unique:
  "sql_unique (\<lambda>s. (so_identity s, so_observed s)) (db_sources db) \<Longrightarrow>
   sql_unique (\<lambda>s. (so_identity s, so_observed s)) (db_sources (recordSource t db i ob))"
  by (auto simp: recordSource_def split: option.split intro!: sql_upsert_unique)

lemma markSend_simps [simp]:
  "db_types (markSend t db i) = db_types db" "db_keys (markSend t db i) = db_keys db"
  "db_members (markSend t db i) = db_members db" "db_egress (markSend t db i) = db_egress db"
  "db_sources (markSend t db i) = db_sources db"
  by (simp_all add: markSend_def)

lemma markSend_pk [mesh_inv]: "agents_pk db \<Longrightarrow> agents_pk (markSend t db i)"
  by (simp add: agents_pk_def markSend_def sql_unique_update)

lemma lastSendAt_markSend:
  "(\<exists>a\<in>set (db_agents db). ag_identity a = i) \<Longrightarrow> lastSendAt (markSend t db i) i = Some t"
  by (auto simp: lastSendAt_def markSend_def in_sql_update sql_simps
      split: option.splits dest!: sql_get_SomeD)

end
