(* ===== verification/Store_Groups.thy ===== *)
theory Store_Groups
  imports Store_Agents
begin

text \<open>
  \<open>packages/store/src/groups.ts\<close>: one group per identity, and directional egress rules between
  groups, deny by default.

  A rule is looked up by the pair of groups, so \<open>maySend\<close> is membership of a relation on groups
  (\<open>egress_rel\<close>), and writing or withdrawing a rule changes that relation at one pair. The locale
  \<open>send_policy\<close> states what a caller of the policy may rely on.
\<close>

section \<open>Operations\<close>

definition createGroup ::
  "secs \<Rightarrow> agents_db \<Rightarrow> string option \<Rightarrow> string \<Rightarrow> string option \<Rightarrow> string \<Rightarrow> bool \<times> agents_db" where
  "createGroup t db tenant groupId description createdBy =
     (let tn = coalesce tenant DEFAULT_TENANT
      in (\<not> sql_exists (\<lambda>g. (gr_tenant g, gr_group_id g) = (tn, groupId)) (db_groups db),
          db\<lparr>db_groups := sql_insert_ignore (\<lambda>g. (gr_tenant g, gr_group_id g))
               \<lparr>gr_tenant = tn, gr_group_id = groupId, gr_description = description,
                gr_created_at = t, gr_created_by = createdBy\<rparr> (db_groups db)\<rparr>))"

definition listGroups :: "agents_db \<Rightarrow> string \<Rightarrow> group_row list" where
  "listGroups db tenant = order_asc gr_group_id (sql_where (\<lambda>g. gr_tenant g = tenant) (db_groups db))"

definition groupOf :: "agents_db \<Rightarrow> string \<Rightarrow> string \<Rightarrow> string" where
  "groupOf db identity tenant =
     (case sql_get (\<lambda>m. gm_tenant m = tenant \<and> gm_identity m = identity) (db_members db) of
        None \<Rightarrow> DEFAULT_GROUP
      | Some row \<Rightarrow> gm_group_id row)"

definition placedIn :: "agents_db \<Rightarrow> string \<Rightarrow> string \<Rightarrow> string list" where
  "placedIn db groupId tenant =
     map gm_identity (order_asc gm_identity
       (sql_where (\<lambda>m. gm_tenant m = tenant \<and> gm_group_id m = groupId) (db_members db)))"

text \<open>The left join of \<open>membersOf\<close>: the live agents of the tenant that no membership row names.\<close>

definition unplaced :: "agents_db \<Rightarrow> string \<Rightarrow> string list" where
  "unplaced db tenant =
     map ag_identity (sql_where
       (\<lambda>a. ag_tenant a = tenant \<and> ag_deleted_at a = None \<and>
            \<not> sql_exists (\<lambda>m. gm_tenant m = ag_tenant a \<and> gm_identity m = ag_identity a) (db_members db))
       (db_agents db))"

definition membersOf :: "agents_db \<Rightarrow> string \<Rightarrow> string \<Rightarrow> string list" where
  "membersOf db groupId tenant =
     (let placed = placedIn db groupId tenant
      in if groupId \<noteq> DEFAULT_GROUP then placed
         else sort (placed @ unplaced db tenant))"

definition moveTo ::
  "secs \<Rightarrow> agents_db \<Rightarrow> string option \<Rightarrow> string \<Rightarrow> string \<Rightarrow> string \<Rightarrow> agents_db" where
  "moveTo t db tenant identity groupId movedBy =
     (let tn = coalesce tenant DEFAULT_TENANT
      in db\<lparr>db_members := sql_upsert (\<lambda>m. (gm_tenant m, gm_identity m))
              \<lparr>gm_tenant = tn, gm_identity = identity, gm_group_id = groupId, gm_moved_at = t,
               gm_moved_by = movedBy\<rparr>
              (\<lambda>m. m\<lparr>gm_group_id := groupId, gm_moved_at := t, gm_moved_by := movedBy\<rparr>)
              (db_members db)\<rparr>)"

definition allowEgress ::
  "secs \<Rightarrow> agents_db \<Rightarrow> string option \<Rightarrow> string \<Rightarrow> string \<Rightarrow> string \<Rightarrow> agents_db" where
  "allowEgress t db tenant fromGroup toGroup grantedBy =
     db\<lparr>db_egress := sql_insert_ignore (\<lambda>e. (eg_tenant e, eg_from_group e, eg_to_group e))
          \<lparr>eg_tenant = coalesce tenant DEFAULT_TENANT, eg_from_group = fromGroup,
           eg_to_group = toGroup, eg_granted_at = t, eg_granted_by = grantedBy\<rparr> (db_egress db)\<rparr>"

definition revokeEgress ::
  "agents_db \<Rightarrow> string option \<Rightarrow> string \<Rightarrow> string \<Rightarrow> bool \<times> agents_db" where
  "revokeEgress db tenant fromGroup toGroup =
     (let P = (\<lambda>e. eg_tenant e = coalesce tenant DEFAULT_TENANT \<and> eg_from_group e = fromGroup \<and>
                   eg_to_group e = toGroup)
      in (sql_changes P (db_egress db) > 0, db\<lparr>db_egress := sql_delete P (db_egress db)\<rparr>))"

definition listEgress :: "agents_db \<Rightarrow> string \<Rightarrow> egress_row list" where
  "listEgress db tenant =
     order_asc eg_from_group (order_asc eg_to_group (sql_where (\<lambda>e. eg_tenant e = tenant) (db_egress db)))"

record send_verdict =
  sv_ok :: bool
  sv_fromGroup :: string
  sv_toGroup :: string

definition maySend :: "agents_db \<Rightarrow> string \<Rightarrow> string \<Rightarrow> string \<Rightarrow> send_verdict" where
  "maySend db from_id to_id tenant =
     (let fromGroup = groupOf db from_id tenant;
          toGroup = groupOf db to_id tenant;
          allowed = sql_exists (\<lambda>e. eg_tenant e = tenant \<and> eg_from_group e = fromGroup \<and>
                                    eg_to_group e = toGroup) (db_egress db)
      in \<lparr>sv_ok = allowed, sv_fromGroup = fromGroup, sv_toGroup = toGroup\<rparr>)"

section \<open>Membership\<close>

text \<open>The key of \<open>agent_group_members\<close>: one group per identity.\<close>

definition one_group :: "agents_db \<Rightarrow> bool" where
  "one_group db \<longleftrightarrow> sql_unique (\<lambda>m. (gm_tenant m, gm_identity m)) (db_members db)"

lemma one_group_init: "one_group (agents_db_init t)"
  by (simp add: one_group_def)

lemma one_group_moveTo [mesh_inv]: "one_group db \<Longrightarrow> one_group (moveTo t db tn i g b)"
  by (simp add: one_group_def moveTo_def Let_def sql_upsert_unique)

lemma groupOf_eq:
  assumes "one_group db" "m \<in> set (db_members db)"
  shows "groupOf db (gm_identity m) (gm_tenant m) = gm_group_id m"
proof -
  have "sql_get (\<lambda>x. gm_tenant x = gm_tenant m \<and> gm_identity x = gm_identity m) (db_members db) = Some m"
    using sql_get_key [of "\<lambda>m. (gm_tenant m, gm_identity m)" "db_members db" m] assms
    by (simp add: one_group_def)
  then show ?thesis by (simp add: groupOf_def)
qed

lemma groupOf_unplaced:
  "\<not> sql_exists (\<lambda>m. gm_tenant m = tn \<and> gm_identity m = i) (db_members db) \<Longrightarrow>
   groupOf db i tn = DEFAULT_GROUP"
  by (auto simp: groupOf_def sql_simps split: option.split dest!: sql_get_SomeD)

lemma in_placedIn:
  assumes "one_group db"
  shows "i \<in> set (placedIn db g tn) \<longleftrightarrow>
     sql_exists (\<lambda>m. gm_tenant m = tn \<and> gm_identity m = i) (db_members db) \<and> groupOf db i tn = g"
  using groupOf_eq [OF assms] by (auto simp: placedIn_def sql_simps intro!: rev_image_eqI)

lemma in_unplaced:
  "i \<in> set (unplaced db tn) \<longleftrightarrow>
     (\<exists>a\<in>set (db_agents db). ag_identity a = i \<and> ag_tenant a = tn \<and> ag_deleted_at a = None) \<and>
     \<not> sql_exists (\<lambda>m. gm_tenant m = tn \<and> gm_identity m = i) (db_members db)"
  by (auto simp: unplaced_def sql_simps)

text \<open>\<open>membersOf\<close> and \<open>groupOf\<close> give one answer to the question which group an identity is in.\<close>

lemma in_membersOf:
  assumes "one_group db"
  shows "i \<in> set (membersOf db g tn) \<longleftrightarrow>
     groupOf db i tn = g \<and>
     (sql_exists (\<lambda>m. gm_tenant m = tn \<and> gm_identity m = i) (db_members db) \<or>
      (\<exists>a\<in>set (db_agents db). ag_identity a = i \<and> ag_tenant a = tn \<and> ag_deleted_at a = None))"
proof (cases "sql_exists (\<lambda>m. gm_tenant m = tn \<and> gm_identity m = i) (db_members db)")
  case True
  with assms show ?thesis by (auto simp: membersOf_def Let_def in_placedIn in_unplaced)
next
  case False
  then have "groupOf db i tn = DEFAULT_GROUP" by (rule groupOf_unplaced)
  with assms False show ?thesis by (auto simp: membersOf_def Let_def in_placedIn in_unplaced)
qed

lemma distinct_placedIn: "one_group db \<Longrightarrow> distinct (placedIn db g tn)"
proof -
  assume "one_group db"
  then have "distinct (db_members db)" and inj: "inj_on (\<lambda>m. (gm_tenant m, gm_identity m)) (set (db_members db))"
    by (simp_all add: one_group_def sql_unique_def distinct_map)
  moreover have "inj_on gm_identity (set (sql_where (\<lambda>m. gm_tenant m = tn \<and> gm_group_id m = g) (db_members db)))"
    using inj by (auto simp: inj_on_def sql_simps)
  ultimately show ?thesis
    by (simp add: placedIn_def distinct_map sql_simps sql_where_def)
qed

lemma distinct_membersOf:
  assumes "one_group db" "agents_pk db"
  shows "distinct (membersOf db g tn)"
proof -
  have "distinct (unplaced db tn)"
    using assms(2)
    by (auto simp: unplaced_def agents_pk_def sql_unique_def sql_where_def distinct_map intro: inj_on_subset)
  with assms(1) show ?thesis
    by (auto simp: membersOf_def Let_def distinct_placedIn in_placedIn in_unplaced)
qed

lemma groupOf_key:
  "groupOf db i tn =
     (case sql_get (\<lambda>m. (gm_tenant m, gm_identity m) = (tn, i)) (db_members db) of
        None \<Rightarrow> DEFAULT_GROUP | Some row \<Rightarrow> gm_group_id row)"
  by (simp add: groupOf_def)

lemma members_moveTo:
  "db_members (moveTo t db tn i g b) =
     sql_upsert (\<lambda>m. (gm_tenant m, gm_identity m))
       \<lparr>gm_tenant = coalesce tn DEFAULT_TENANT, gm_identity = i, gm_group_id = g, gm_moved_at = t,
        gm_moved_by = b\<rparr>
       (\<lambda>m. m\<lparr>gm_group_id := g, gm_moved_at := t, gm_moved_by := b\<rparr>) (db_members db)"
  by (simp add: moveTo_def Let_def)

lemma groupOf_moveTo:
  "groupOf (moveTo t db tn i g b) j tn' =
     (if tn' = coalesce tn DEFAULT_TENANT \<and> j = i then g else groupOf db j tn')"
  unfolding groupOf_key members_moveTo
  by (subst sql_get_upsert) (auto split: option.split)

section \<open>Egress\<close>

definition egress_rel :: "agents_db \<Rightarrow> string \<Rightarrow> (string \<times> string) set" where
  "egress_rel db tn = {(f, t). \<exists>e\<in>set (db_egress db). eg_tenant e = tn \<and> eg_from_group e = f \<and> eg_to_group e = t}"

lemma maySend_iff:
  "sv_ok (maySend db i j tn) \<longleftrightarrow> (groupOf db i tn, groupOf db j tn) \<in> egress_rel db tn"
  by (auto simp: maySend_def egress_rel_def sql_simps Let_def)

lemma maySend_groups [simp]:
  "sv_fromGroup (maySend db i j tn) = groupOf db i tn" "sv_toGroup (maySend db i j tn) = groupOf db j tn"
  by (simp_all add: maySend_def Let_def)

lemma egress_rel_allow:
  "egress_rel (allowEgress t db tn f g b) tn' =
     (if tn' = coalesce tn DEFAULT_TENANT then insert (f, g) (egress_rel db tn') else egress_rel db tn')"
  by (auto simp: egress_rel_def allowEgress_def sql_simps)

lemma egress_rel_revoke:
  "egress_rel (snd (revokeEgress db tn f g)) tn' =
     (if tn' = coalesce tn DEFAULT_TENANT then egress_rel db tn' - {(f, g)} else egress_rel db tn')"
  by (auto simp: egress_rel_def revokeEgress_def sql_simps Let_def)

lemma groupOf_frame [simp]:
  "groupOf (allowEgress t db tn f g b) i tn' = groupOf db i tn'"
  "groupOf (snd (revokeEgress db tn f g)) i tn' = groupOf db i tn'"
  by (simp_all add: groupOf_def allowEgress_def revokeEgress_def Let_def)

lemma egress_rel_moveTo [simp]: "egress_rel (moveTo t db tn i g b) tn' = egress_rel db tn'"
  by (simp add: egress_rel_def moveTo_def Let_def)

lemma egress_rel_init: "egress_rel (agents_db_init t) tn =
    (if tn = DEFAULT_TENANT then {(DEFAULT_GROUP, DEFAULT_GROUP)} else {})"
  by (auto simp: egress_rel_def agents_db_init_def groups_migrate_def agents_migrate_def
      agents_db_empty_def sql_insert_ignore_def sql_exists_def)

subsection \<open>The policy as its caller sees it\<close>

text \<open>
  What \<open>mesh.send\<close> relies on: a decision that depends on the groups of the two ends alone, a
  grant that opens exactly one pair and a withdrawal that closes it.
\<close>

locale send_policy =
  fixes ok :: "'d \<Rightarrow> 'i \<Rightarrow> 'i \<Rightarrow> bool"
    and grp :: "'d \<Rightarrow> 'i \<Rightarrow> 'g"
    and allow :: "'d \<Rightarrow> 'g \<Rightarrow> 'g \<Rightarrow> 'd"
    and withdraw :: "'d \<Rightarrow> 'g \<Rightarrow> 'g \<Rightarrow> 'd"
  assumes grp_allow: "grp (allow d f g) i = grp d i"
    and grp_withdraw: "grp (withdraw d f g) i = grp d i"
    and ok_allow: "ok (allow d f g) i j \<longleftrightarrow> ok d i j \<or> grp d i = f \<and> grp d j = g"
    and ok_withdraw: "ok (withdraw d f g) i j \<longleftrightarrow> ok d i j \<and> \<not> (grp d i = f \<and> grp d j = g)"
begin

lemma allow_withdraw: "\<not> ok d i j \<Longrightarrow> \<not> ok (withdraw (allow d f g) f g) i j"
  by (simp add: ok_allow ok_withdraw grp_allow)

lemma one_way:
  "f \<noteq> g \<Longrightarrow> grp d i = f \<Longrightarrow> grp d j = g \<Longrightarrow> ok (allow d f g) j i = ok d j i"
  by (auto simp: ok_allow)

end

interpretation egress: send_policy
  "\<lambda>db i j. sv_ok (maySend db i j DEFAULT_TENANT)" "\<lambda>db i. groupOf db i DEFAULT_TENANT"
  "\<lambda>db f g. allowEgress t db None f g b" "\<lambda>db f g. snd (revokeEgress db None f g)" for t b
  by unfold_locales (auto simp: maySend_iff egress_rel_allow egress_rel_revoke)

end
