(* ===== verification/Store_Grants.thy ===== *)
theory Store_Grants
  imports Store_Schema
begin

text \<open>
  \<open>packages/store/src/grants.ts\<close>: who may do what, scoped. The list of capabilities and the
  tenant-wide scope come from the package \<open>@agent-mesh/contracts\<close> and are the parameters \<open>caps\<close>
  and \<open>wide\<close>.
\<close>

datatype grant_error = UnknownCapability string

definition grant_cap ::
  "string list \<Rightarrow> string \<Rightarrow> secs \<Rightarrow> agents_db \<Rightarrow> string option \<Rightarrow> string \<Rightarrow> string \<Rightarrow> string option \<Rightarrow> string \<Rightarrow>
   grant_error + agents_db" where
  "grant_cap caps wide t db tenant subject capability scope grantedBy =
     (if capability \<notin> set caps then Inl (UnknownCapability capability)
      else Inr (db\<lparr>db_grants := sql_insert_ignore
                    (\<lambda>g. (rg_tenant g, rg_subject g, rg_capability g, rg_scope g))
                    \<lparr>rg_tenant = coalesce tenant DEFAULT_TENANT, rg_subject = subject,
                     rg_capability = capability, rg_scope = coalesce scope wide,
                     rg_granted_by = grantedBy, rg_granted_at = t\<rparr> (db_grants db)\<rparr>))"

definition revoke_cap ::
  "string \<Rightarrow> agents_db \<Rightarrow> string option \<Rightarrow> string \<Rightarrow> string \<Rightarrow> string option \<Rightarrow> bool \<times> agents_db" where
  "revoke_cap wide db tenant subject capability scope =
     (let P = (\<lambda>g. rg_tenant g = coalesce tenant DEFAULT_TENANT \<and> rg_subject g = subject \<and>
                   rg_capability g = capability \<and> rg_scope g = coalesce scope wide)
      in (sql_changes P (db_grants db) > 0, db\<lparr>db_grants := sql_delete P (db_grants db)\<rparr>))"

definition has_cap :: "string \<Rightarrow> agents_db \<Rightarrow> string \<Rightarrow> string \<Rightarrow> string \<Rightarrow> string \<Rightarrow> bool" where
  "has_cap wide db subject capability scope tenant =
     sql_exists (\<lambda>g. rg_tenant g = tenant \<and> rg_subject g = subject \<and> rg_capability g = capability \<and>
                     (rg_scope g = wide \<or> rg_scope g = scope)) (db_grants db)"

definition hasAny :: "agents_db \<Rightarrow> string \<Rightarrow> string \<Rightarrow> string \<Rightarrow> bool" where
  "hasAny db subject capability tenant =
     sql_exists (\<lambda>g. rg_tenant g = tenant \<and> rg_subject g = subject \<and> rg_capability g = capability)
       (db_grants db)"

definition listFor :: "agents_db \<Rightarrow> string \<Rightarrow> string \<Rightarrow> grant_row list" where
  "listFor db subject tenant =
     order_asc rg_capability (order_asc rg_scope
       (sql_where (\<lambda>g. rg_tenant g = tenant \<and> rg_subject g = subject) (db_grants db)))"

definition subjectsWith :: "agents_db \<Rightarrow> string \<Rightarrow> string \<Rightarrow> (string \<times> string) list" where
  "subjectsWith db capability tenant =
     map (\<lambda>g. (rg_subject g, rg_scope g)) (order_asc rg_subject (order_asc rg_scope
       (sql_where (\<lambda>g. rg_tenant g = tenant \<and> rg_capability g = capability) (db_grants db))))"

text \<open>The grants as a relation, and the two writes on it.\<close>

definition grants_rel :: "agents_db \<Rightarrow> (string \<times> string \<times> string \<times> string) set" where
  "grants_rel db = (\<lambda>g. (rg_tenant g, rg_subject g, rg_capability g, rg_scope g)) ` set (db_grants db)"

lemma has_cap_iff:
  "has_cap wide db s c sc tn \<longleftrightarrow> (tn, s, c, wide) \<in> grants_rel db \<or> (tn, s, c, sc) \<in> grants_rel db"
  by (auto simp: has_cap_def grants_rel_def sql_simps intro!: rev_image_eqI)

lemma hasAny_iff: "hasAny db s c tn \<longleftrightarrow> (\<exists>sc. (tn, s, c, sc) \<in> grants_rel db)"
  by (auto simp: hasAny_def grants_rel_def sql_simps intro!: rev_image_eqI)

lemma grants_rel_grant:
  "grant_cap caps wide t db tn s c sc b = Inr db' \<Longrightarrow>
   grants_rel db' = insert (coalesce tn DEFAULT_TENANT, s, c, coalesce sc wide) (grants_rel db)"
  by (clarsimp simp: grant_cap_def grants_rel_def image_key_insert_ignore split: if_splits)

lemma grants_rel_revoke:
  "grants_rel (snd (revoke_cap wide db tn s c sc)) =
     grants_rel db - {(coalesce tn DEFAULT_TENANT, s, c, coalesce sc wide)}"
  by (auto simp: revoke_cap_def grants_rel_def sql_simps Let_def)

text \<open>Every stored grant is for a capability the contract knows.\<close>

definition grants_known :: "string list \<Rightarrow> agents_db \<Rightarrow> bool" where
  "grants_known caps db \<longleftrightarrow> (\<forall>g\<in>set (db_grants db). rg_capability g \<in> set caps)"

lemma grant_known [mesh_inv]:
  "grants_known caps db \<Longrightarrow> grant_cap caps wide t db tn s c sc b = Inr db' \<Longrightarrow> grants_known caps db'"
  by (auto simp: grants_known_def grant_cap_def sql_simps split: if_splits)

end
