(* ===== verification/Store_Ownership.thy ===== *)
theory Store_Ownership
  imports Store_Schema "HOL-Library.Word"
begin

text \<open>
  \<open>packages/store/src/ownership.ts\<close>: who answers for an identity, and the pairing code by which a
  person in a browser proves it.

  \<open>crypto.getRandomValues(new Uint32Array(1))\<close> is one \<open>32 word\<close> of the sequence \<open>draws\<close>, and
  \<open>Math.floor(u / 2 ** 32 * 32)\<close> the exact quotient (both factors are powers of two). A code that
  collides with an existing one is refused by the primary key, the left value of the sum.

  The lemmas: a code is spent by the statement that records the owner, so it is redeemed once in
  any run; an owner comes from a redeemed code that names the identity or from an assignment, and
  from nowhere else.
\<close>

section \<open>Pairing codes\<close>

definition CODE_ALPHABET :: string where
  "CODE_ALPHABET = ''ABCDEFGHJKLMNPQRSTUVWXYZ23456789''"

definition CODE_GROUPS :: nat where
  "CODE_GROUPS = 3"

definition CODE_GROUP_LEN :: nat where
  "CODE_GROUP_LEN = 4"

definition code_char :: "32 word \<Rightarrow> char" where
  "code_char u = CODE_ALPHABET ! nat (uint u * int (length CODE_ALPHABET) div 2 ^ 32)"

fun join_dash :: "string list \<Rightarrow> string" where
  "join_dash [] = []"
| "join_dash [g] = g"
| "join_dash (g # gs) = g @ ''-'' @ join_dash gs"

definition generateCode :: "(nat \<Rightarrow> 32 word) \<Rightarrow> string" where
  "generateCode draws =
     join_dash (map (\<lambda>g. map (\<lambda>i. code_char (draws (g * CODE_GROUP_LEN + i))) [0..<CODE_GROUP_LEN])
       [0..<CODE_GROUPS])"

datatype issue_error = CodeTaken

definition issueCode ::
  "secs \<Rightarrow> (nat \<Rightarrow> 32 word) \<Rightarrow> agents_db \<Rightarrow> string option \<Rightarrow> string \<Rightarrow> string \<Rightarrow> int \<Rightarrow>
   issue_error + (pairing_row option \<times> agents_db)" where
  "issueCode t draws db tenant identity issuedBy ttlSeconds =
     (let code = generateCode draws;
          row = \<lparr>pc_code = code, pc_tenant = coalesce tenant DEFAULT_TENANT, pc_identity = identity,
                 pc_issued_by = issuedBy, pc_issued_at = t, pc_expires_at = t + ttlSeconds,
                 pc_redeemed_at = None, pc_redeemed_from = None\<rparr>
      in if sql_exists (\<lambda>p. pc_code p = code) (db_pairing db) then Inl CodeTaken
         else (let db' = db\<lparr>db_pairing := db_pairing db @ [row]\<rparr>
               in Inr (sql_get (\<lambda>p. pc_code p = code) (db_pairing db'), db')))"

datatype redeem_refusal = RdUnknown | RdExpired | RdAlreadyRedeemed

datatype redeem_outcome = Redeemed string string | RedeemRefused redeem_refusal

text \<open>The \<open>WHERE\<close> of the statement that spends a code.\<close>

definition spendable :: "secs \<Rightarrow> string \<Rightarrow> pairing_row \<Rightarrow> bool" where
  "spendable t code p \<longleftrightarrow> pc_code p = code \<and> pc_redeemed_at p = None \<and> pc_expires_at p > t"

definition owner_key :: "owner_row \<Rightarrow> string \<times> string \<times> string" where
  "owner_key o' = (ow_tenant o', ow_identity o', ow_owner o')"

definition redeem ::
  "secs \<Rightarrow> agents_db \<Rightarrow> string \<Rightarrow> string \<Rightarrow> string option \<Rightarrow> redeem_outcome \<times> agents_db" where
  "redeem t db code owner observedFrom =
     (let db1 = db\<lparr>db_pairing := sql_update (spendable t code)
            (\<lambda>p. p\<lparr>pc_redeemed_at := Some t, pc_redeemed_from := observedFrom\<rparr>) (db_pairing db)\<rparr>
      in if sql_changes (spendable t code) (db_pairing db) = 0 then
           (case sql_get (\<lambda>p. pc_code p = code) (db_pairing db1) of
              None \<Rightarrow> (RedeemRefused RdUnknown, db1)
            | Some row \<Rightarrow>
                (RedeemRefused (if pc_redeemed_at row \<noteq> None then RdAlreadyRedeemed else RdExpired), db1))
         else
           (case sql_get (\<lambda>p. pc_code p = code) (db_pairing db1) of
              None \<Rightarrow> (RedeemRefused RdUnknown, db1)
            | Some row \<Rightarrow>
                (Redeemed (pc_identity row) owner,
                 db1\<lparr>db_owners := sql_insert_ignore owner_key
                   \<lparr>ow_tenant = pc_tenant row, ow_identity = pc_identity row, ow_owner = owner,
                    ow_granted_at = t, ow_granted_by = ''pairing:'' @ pc_issued_by row\<rparr>
                   (db_owners db1)\<rparr>)))"

section \<open>Owners\<close>

definition owners :: "agents_db \<Rightarrow> string \<Rightarrow> string \<Rightarrow> owner_row list" where
  "owners db identity tenant =
     order_asc ow_granted_at (sql_where (\<lambda>o'. ow_tenant o' = tenant \<and> ow_identity o' = identity) (db_owners db))"

definition ownedBy :: "agents_db \<Rightarrow> string \<Rightarrow> string \<Rightarrow> string list" where
  "ownedBy db owner tenant =
     map ow_identity (order_asc ow_identity
       (sql_where (\<lambda>o'. ow_tenant o' = tenant \<and> ow_owner o' = owner) (db_owners db)))"

definition isOwner :: "agents_db \<Rightarrow> string \<Rightarrow> string \<Rightarrow> string \<Rightarrow> bool" where
  "isOwner db owner identity tenant =
     sql_exists (\<lambda>o'. ow_tenant o' = tenant \<and> ow_identity o' = identity \<and> ow_owner o' = owner) (db_owners db)"

definition assign :: "secs \<Rightarrow> agents_db \<Rightarrow> string option \<Rightarrow> string \<Rightarrow> string \<Rightarrow> string \<Rightarrow> agents_db" where
  "assign t db tenant identity owner grantedBy =
     db\<lparr>db_owners := sql_insert_ignore owner_key
          \<lparr>ow_tenant = coalesce tenant DEFAULT_TENANT, ow_identity = identity, ow_owner = owner,
           ow_granted_at = t, ow_granted_by = grantedBy\<rparr> (db_owners db)\<rparr>"

definition unassign :: "agents_db \<Rightarrow> string option \<Rightarrow> string \<Rightarrow> string \<Rightarrow> bool \<times> agents_db" where
  "unassign db tenant identity owner =
     (let P = (\<lambda>o'. ow_tenant o' = coalesce tenant DEFAULT_TENANT \<and> ow_identity o' = identity \<and>
                    ow_owner o' = owner)
      in (sql_changes P (db_owners db) > 0, db\<lparr>db_owners := sql_delete P (db_owners db)\<rparr>))"

section \<open>The operations as one machine\<close>

datatype own_op =
    OIssue secs "nat \<Rightarrow> 32 word" "string option" string string int
  | ORedeem secs string string "string option"
  | OAssign secs "string option" string string string
  | OUnassign "string option" string string

fun own_step :: "agents_db \<Rightarrow> own_op \<Rightarrow> agents_db" where
  "own_step db (OIssue t dr tn i by' ttl) =
     (case issueCode t dr db tn i by' ttl of Inl _ \<Rightarrow> db | Inr (_, db') \<Rightarrow> db')"
| "own_step db (ORedeem t code owner from') = snd (redeem t db code owner from')"
| "own_step db (OAssign t tn i owner by') = assign t db tn i owner by'"
| "own_step db (OUnassign tn i owner) = snd (unassign db tn i owner)"

definition pairing_ok :: "agents_db \<Rightarrow> bool" where
  "pairing_ok db \<longleftrightarrow> sql_unique pc_code (db_pairing db)"

lemma pairing_redeem:
  "db_pairing (snd (redeem t db code owner from')) =
     sql_update (spendable t code)
       (\<lambda>p. p\<lparr>pc_redeemed_at := Some t, pc_redeemed_from := from'\<rparr>) (db_pairing db)"
  by (auto simp: redeem_def Let_def split: option.splits)

lemma pairing_issue:
  "db_pairing (own_step db (OIssue t dr tn i by' ttl)) =
     sql_insert_ignore pc_code
       \<lparr>pc_code = generateCode dr, pc_tenant = coalesce tn DEFAULT_TENANT, pc_identity = i,
        pc_issued_by = by', pc_issued_at = t, pc_expires_at = t + ttl, pc_redeemed_at = None,
        pc_redeemed_from = None\<rparr> (db_pairing db)"
  by (auto simp: issueCode_def Let_def sql_insert_ignore_def)

lemma pairing_frame [simp]:
  "db_pairing (assign t db tn i ow b) = db_pairing db"
  "db_pairing (snd (unassign db tn i ow)) = db_pairing db"
  by (simp_all add: assign_def unassign_def Let_def)

lemma own_step_pairing_ok: "pairing_ok db \<Longrightarrow> pairing_ok (own_step db op)"
  by (cases op)
    (auto simp: pairing_ok_def pairing_redeem pairing_issue sql_insert_ignore_unique sql_unique_update
      simp del: own_step.simps(1))

interpretation ownership: machine own_step pairing_ok
  by unfold_locales (rule own_step_pairing_ok)

definition own_run :: "secs \<Rightarrow> own_op list \<Rightarrow> agents_db" where
  "own_run t ops = foldl own_step (agents_db_init t) ops"

lemma own_run_ok: "pairing_ok (own_run t ops)"
  unfolding own_run_def by (rule ownership.run_invar) (simp add: pairing_ok_def)

section \<open>A code is spent once\<close>

definition spent :: "agents_db \<Rightarrow> string \<Rightarrow> bool" where
  "spent db code \<longleftrightarrow> (\<exists>p. sql_get (\<lambda>p. pc_code p = code) (db_pairing db) = Some p \<and> pc_redeemed_at p \<noteq> None)"

lemma spent_insert:
  "spent db code \<Longrightarrow> db_pairing db' = sql_insert_ignore pc_code r (db_pairing db) \<Longrightarrow> spent db' code"
  by (auto simp: spent_def sql_insert_ignore_def sql_get_append)

lemma spent_update:
  "spent db code \<Longrightarrow> db_pairing db' = sql_update (spendable t c)
      (\<lambda>p. p\<lparr>pc_redeemed_at := Some t, pc_redeemed_from := f\<rparr>) (db_pairing db) \<Longrightarrow> spent db' code"
  unfolding spent_def
  by (elim exE conjE, rule_tac x = "if spendable t c p
      then p\<lparr>pc_redeemed_at := Some t, pc_redeemed_from := f\<rparr> else p" in exI)
    (simp add: sql_get_update_key)

lemma spent_step: "spent db code \<Longrightarrow> spent (own_step db op) code"
proof (cases op)
  case (OIssue t dr tn i by' ttl)
  then show "spent db code \<Longrightarrow> ?thesis" using spent_insert [OF _ pairing_issue] by blast
next
  case (ORedeem t c owner from')
  then show "spent db code \<Longrightarrow> ?thesis" using spent_update [OF _ pairing_redeem] by simp
qed (simp_all add: spent_def)

lemma not_spendable: 
  assumes "pairing_ok db" "sql_get (\<lambda>p. pc_code p = code) (db_pairing db) = Some p" "pc_redeemed_at p \<noteq> None"
  shows "\<not> (\<exists>r\<in>set (db_pairing db). spendable t code r)"
  using assms by (auto simp: spendable_def pairing_ok_def sql_get_key_iff dest: sql_unique_eqD)

lemma redeem_spent:
  assumes "pairing_ok db" "spent db code"
  shows "fst (redeem t db code owner from') = RedeemRefused RdAlreadyRedeemed"
proof -
  from assms(2) obtain p where p: "sql_get (\<lambda>p. pc_code p = code) (db_pairing db) = Some p" "pc_redeemed_at p \<noteq> None"
    by (auto simp: spent_def)
  note ns = not_spendable [OF assms(1) p, of t]
  then have "sql_update (spendable t code) f (db_pairing db) = db_pairing db" for f
    by (intro sql_update_none) blast
  moreover have "sql_changes (spendable t code) (db_pairing db) = 0"
    using ns by (auto simp: sql_changes_zero)
  ultimately show ?thesis using p by (simp add: redeem_def)
qed

lemma redeemed_spent:
  assumes "redeem t db code owner from' = (Redeemed i ow, db')" "pairing_ok db"
  shows "spent db' code"
proof -
  from assms(1) have "sql_changes (spendable t code) (db_pairing db) \<noteq> 0"
    by (auto simp: redeem_def Let_def split: if_splits option.splits)
  then obtain p where p: "p \<in> set (db_pairing db)" "spendable t code p"
    by (auto simp: sql_simps)
  then have "sql_get (\<lambda>x. pc_code x = code) (db_pairing db) = Some p"
    using assms(2) by (simp add: pairing_ok_def sql_get_key_iff spendable_def)
  moreover have "db_pairing db' = sql_update (spendable t code)
      (\<lambda>p. p\<lparr>pc_redeemed_at := Some t, pc_redeemed_from := from'\<rparr>) (db_pairing db)"
    using pairing_redeem [of t db code owner from'] assms(1) by simp
  ultimately show ?thesis using p by (simp add: spent_def sql_get_update_key)
qed

text \<open>
  C39: A pairing code is single use. Once a redemption has succeeded, then after any further issues,
  redemptions, assignments and removals, every attempt to redeem the same code is refused as
  already redeemed, by whichever owner and at whatever time.
\<close>
theorem pairing_code_single_use:
  assumes "redeem t (own_run t0 ops) code owner from' = (Redeemed i ow, db')"
  shows "fst (redeem t' (foldl own_step db' later) code owner' from'') = RedeemRefused RdAlreadyRedeemed"
proof -
  have db': "db' = own_run t0 (ops @ [ORedeem t code owner from'])"
    using assms by (simp add: own_run_def)
  have "spent (foldl own_step db' later) code"
    using ownership.run_stable [of "\<lambda>db. spent db code" db' later] own_run_ok [of t0] spent_step
      redeemed_spent [OF assms own_run_ok] unfolding db' by blast
  moreover have "pairing_ok (foldl own_step db' later)"
    unfolding db' by (rule ownership.run_invar) (rule own_run_ok)
  ultimately show ?thesis by (rule redeem_spent [rotated])
qed

lemma pairing_code_single_use_witness:
  "\<exists>i ow db'. redeem 50 (own_run 0 [OIssue 10 (\<lambda>n. 0) None ''codex'' ''op'' 900]) ''AAAA-AAAA-AAAA'' ''kim'' None
      = (Redeemed i ow, db') \<and> isOwner db' ''kim'' ''codex'' ''default'' \<and>
    fst (redeem 60 (foldl own_step db' [OUnassign None ''codex'' ''kim'']) ''AAAA-AAAA-AAAA'' ''lee'' None) =
      RedeemRefused RdAlreadyRedeemed"
proof -
  let ?db = "own_run 0 [OIssue 10 (\<lambda>n. 0) None ''codex'' ''op'' 900]"
  let ?r = "redeem 50 ?db ''AAAA-AAAA-AAAA'' ''kim'' None"
  have r: "fst ?r = Redeemed ''codex'' ''kim''" and o': "isOwner (snd ?r) ''kim'' ''codex'' ''default''"
    by code_simp+
  have e: "?r = (Redeemed ''codex'' ''kim'', snd ?r)"
    by (metis r prod.collapse)
  show ?thesis
    using pairing_code_single_use [OF e, of 60 "[OUnassign None ''codex'' ''kim'']" "''lee''" None] e o' by blast
qed

section \<open>Where ownership comes from\<close>

lemma isOwner_insert:
  "isOwner (db\<lparr>db_owners := sql_insert_ignore owner_key r (db_owners db')\<rparr>) ow i tn \<longleftrightarrow>
     isOwner db' ow i tn \<or> owner_key r = (tn, i, ow)"
  by (auto simp: isOwner_def sql_simps owner_key_def split: if_splits)

lemma isOwner_assign: "isOwner (assign t db tn i ow b) ow' i' tn' \<longleftrightarrow>
    isOwner db ow' i' tn' \<or> (coalesce tn DEFAULT_TENANT, i, ow) = (tn', i', ow')"
  by (simp add: assign_def isOwner_insert owner_key_def)

text \<open>
  Ownership appears only by proof or by assignment. If an operation makes somebody an owner who
  was not one, it was either an assignment of exactly that tenant, identity and owner, or the
  redemption, by that owner, of a code that names that identity and tenant, was unspent, and had
  not expired.
\<close>
theorem ownership_provenance:
  assumes "isOwner (own_step (own_run t0 ops) op) ow i tn" "\<not> isOwner (own_run t0 ops) ow i tn"
  shows "(\<exists>t tn' b. op = OAssign t tn' i ow b \<and> coalesce tn' DEFAULT_TENANT = tn) \<or>
     (\<exists>t code from' p. op = ORedeem t code ow from' \<and> p \<in> set (db_pairing (own_run t0 ops)) \<and>
        pc_code p = code \<and> pc_identity p = i \<and> pc_tenant p = tn \<and>
        pc_redeemed_at p = None \<and> t < pc_expires_at p)"
proof (cases op)
  case (OIssue t dr tn' i' by' ttl)
  then have False
    using assms by (auto simp: issueCode_def Let_def isOwner_def split: if_splits)
  then show ?thesis ..
next
  case (OAssign t tn' i' ow' b)
  then show ?thesis using assms by (simp add: isOwner_assign)
next
  case (OUnassign tn' i' ow')
  then have False
    using assms by (auto simp: unassign_def Let_def isOwner_def sql_simps)
  then show ?thesis ..
next
  case (ORedeem t code ow' from')
  let ?db = "own_run t0 ops"
  let ?u = "sql_update (spendable t code) (\<lambda>p. p\<lparr>pc_redeemed_at := Some t, pc_redeemed_from := from'\<rparr>) (db_pairing ?db)"
  have ch: "sql_changes (spendable t code) (db_pairing ?db) \<noteq> 0"
    using assms ORedeem by (auto simp: redeem_def Let_def isOwner_def split: if_splits option.splits)
  then obtain p where p: "p \<in> set (db_pairing ?db)" "spendable t code p"
    by (auto simp: sql_simps)
  then have "sql_get (\<lambda>x. pc_code x = code) (db_pairing ?db) = Some p"
    using own_run_ok [of t0 ops] by (simp add: pairing_ok_def sql_get_key_iff spendable_def)
  then have "sql_get (\<lambda>x. pc_code x = code) ?u = Some (p\<lparr>pc_redeemed_at := Some t, pc_redeemed_from := from'\<rparr>)"
    using p by (simp add: sql_get_update_key)
  then have "db_owners (snd (redeem t ?db code ow' from')) = sql_insert_ignore owner_key
      \<lparr>ow_tenant = pc_tenant p, ow_identity = pc_identity p, ow_owner = ow', ow_granted_at = t,
       ow_granted_by = ''pairing:'' @ pc_issued_by p\<rparr> (db_owners ?db)"
    using ch by (simp add: redeem_def)
  then have "(pc_tenant p, pc_identity p, ow') = (tn, i, ow)"
    using assms ORedeem by (auto simp: isOwner_def sql_simps owner_key_def split: if_splits)
  then show ?thesis using ORedeem p by (auto simp: spendable_def)
qed

lemma ownership_provenance_witness:
  "\<exists>p\<in>set (db_pairing (own_run 0 [OIssue 10 (\<lambda>n. 0) None ''codex'' ''op'' 900])).
     pc_identity p = ''codex'' \<and> 50 < pc_expires_at p"
proof -
  have "isOwner (own_step (own_run 0 [OIssue 10 (\<lambda>n. 0) None ''codex'' ''op'' 900])
      (ORedeem 50 ''AAAA-AAAA-AAAA'' ''kim'' None)) ''kim'' ''codex'' ''default''"
    "\<not> isOwner (own_run 0 [OIssue 10 (\<lambda>n. 0) None ''codex'' ''op'' 900]) ''kim'' ''codex'' ''default''"
    by code_simp+
  from ownership_provenance [OF this] show ?thesis by auto
qed

section \<open>The shape of a code\<close>

lemma code_char_in: "code_char u \<in> set CODE_ALPHABET"
proof -
  have "0 \<le> uint u" "uint u < 2 ^ 32" using uint_lt2p [of u] by simp_all
  then have "nat (uint u * 32 div 2 ^ 32) < 32" by (simp add: nat_less_iff)
  then have "nat (uint u * int (length CODE_ALPHABET) div 2 ^ 32) < length CODE_ALPHABET"
    by (simp add: CODE_ALPHABET_def)
  then show ?thesis unfolding code_char_def by (rule nth_mem)
qed

text \<open>Three groups of four letters that cannot be misread, with a dash between them.\<close>

lemma generateCode_shape:
  "length (generateCode draws) = 14 \<and> set (generateCode draws) \<subseteq> insert (CHR ''-'') (set CODE_ALPHABET)"
  using code_char_in by (auto simp: generateCode_def CODE_GROUPS_def CODE_GROUP_LEN_def upt_rec)

end
