(* ===== verification/Js_Text.thy ===== *)
theory Js_Text
  imports Mesh_Prelude
begin

text \<open>
  What the services use of JavaScript's strings: white space, \<open>trim\<close>, \<open>split\<close>, \<open>join\<close>, lower case,
  \<open>parseInt(s, 10)\<close> and the decimal text of an integer. A character is a UTF-16 unit below 256.
\<close>

definition js_space :: "char \<Rightarrow> bool" where
  "js_space c \<longleftrightarrow> (of_char c :: nat) \<in> {9, 10, 11, 12, 13, 32, 160}"

definition trim :: "string \<Rightarrow> string" where
  "trim s = rev (dropWhile js_space (rev (dropWhile js_space s)))"

fun split_on :: "char \<Rightarrow> string \<Rightarrow> string list" where
  "split_on c [] = [[]]"
| "split_on c (x # s) =
     (if x = c then [] # split_on c s
      else (case split_on c s of [] \<Rightarrow> [[x]] | p # ps \<Rightarrow> (x # p) # ps))"

fun join_with :: "string \<Rightarrow> string list \<Rightarrow> string" where
  "join_with sep [] = []"
| "join_with sep [p] = p"
| "join_with sep (p # ps) = p @ sep @ join_with sep ps"

definition lower_char :: "char \<Rightarrow> char" where
  "lower_char c =
     (let n = of_char c :: nat
      in if 65 \<le> n \<and> n \<le> 90 \<or> 192 \<le> n \<and> n \<le> 222 \<and> n \<noteq> 215 then char_of (n + 32) else c)"

definition toLowerCase :: "string \<Rightarrow> string" where
  "toLowerCase s = map lower_char s"

section \<open>Numbers\<close>

definition digit_of :: "char \<Rightarrow> int option" where
  "digit_of c = (let n = of_char c :: nat in if 48 \<le> n \<and> n \<le> 57 then Some (int n - 48) else None)"

definition is_digit :: "char \<Rightarrow> bool" where
  "is_digit c \<longleftrightarrow> digit_of c \<noteq> None"

fun digits_value :: "int \<Rightarrow> string \<Rightarrow> int" where
  "digits_value acc [] = acc"
| "digits_value acc (c # s) =
     (case digit_of c of None \<Rightarrow> acc | Some d \<Rightarrow> digits_value (10 * acc + d) s)"

definition parse_digits :: "string \<Rightarrow> int option" where
  "parse_digits s = (case s of [] \<Rightarrow> None | c # _ \<Rightarrow> if is_digit c then Some (digits_value 0 s) else None)"

text \<open>White space, a sign, and the longest run of digits; \<open>None\<close> is \<open>NaN\<close>.\<close>

definition parseInt :: "string \<Rightarrow> int option" where
  "parseInt s =
     (case dropWhile js_space s of
        [] \<Rightarrow> None
      | c # s' \<Rightarrow> if c = CHR ''-'' then map_option uminus (parse_digits s')
                  else if c = CHR ''+'' then parse_digits s'
                  else parse_digits (c # s'))"

text \<open>The decimal digits of a number that is not negative.\<close>

function digits_text :: "int \<Rightarrow> string" where
  "digits_text i = (if i < 10 then [char_of (48 + i)] else digits_text (i div 10) @ [char_of (48 + i mod 10)])"
  by pat_completeness auto
termination by (relation "measure nat") auto

declare digits_text.simps [simp del]

definition int_text :: "int \<Rightarrow> string" where
  "int_text i = (if i < 0 then ''-'' @ digits_text (- i) else digits_text i)"

section \<open>Splitting\<close>

lemma split_on_not_Nil [simp]: "split_on c s \<noteq> []"
  by (cases s) (auto split: list.split)

lemma split_on_append: "split_on c (a @ c # b) = split_on c a @ split_on c b"
proof (induction a)
  case (Cons x a)
  then show ?case by (cases "split_on c a") (auto split: list.splits)
qed simp

lemma digits_value_append:
  "digits_value acc (s @ [c]) = (case digit_of c of
     None \<Rightarrow> digits_value acc s
   | Some d \<Rightarrow> if list_all is_digit s then 10 * digits_value acc s + d else digits_value acc s)"
  by (induction s arbitrary: acc) (auto simp: is_digit_def split: option.splits)

lemma digit_of_char: "n < 10 \<Longrightarrow> digit_of (char_of (48 + n)) = Some (int n)"
  by (simp add: digit_of_def)

lemma char_of_int: "0 \<le> j \<Longrightarrow> char_of (j :: int) = (char_of (nat j) :: char)"
proof -
  assume "0 \<le> j"
  then obtain n where "j = int n" by (metis nonneg_int_cases)
  then show ?thesis by simp
qed

lemma digit_of_int: "0 \<le> j \<Longrightarrow> j < 10 \<Longrightarrow> digit_of (char_of (48 + j)) = Some j"
  using digit_of_char [of "nat j"] char_of_int [of "48 + j"] by (simp add: nat_add_distrib)

lemma digits_text_digits: "0 \<le> i \<Longrightarrow> list_all is_digit (digits_text i) \<and> digits_text i \<noteq> []"
proof (induction i rule: digits_text.induct)
  case (1 i)
  then show ?case by (cases "i < 10") (simp_all add: digits_text.simps [of i] is_digit_def digit_of_int)
qed

lemma digits_value_text: "0 \<le> i \<Longrightarrow> digits_value 0 (digits_text i) = i"
proof (induction i rule: digits_text.induct)
  case (1 i)
  then show ?case
    using digits_text_digits [of "i div 10"]
    by (cases "i < 10") (simp_all add: digits_text.simps [of i] digits_value_append digit_of_int)
qed

text \<open>Reading the text of a number gives the number.\<close>

lemma parse_digits_text: "0 \<le> i \<Longrightarrow> parse_digits (digits_text i) = Some i"
  using digits_text_digits [of i] digits_value_text [of i]
  by (auto simp: parse_digits_def split: list.split)

lemma digit_plain: "is_digit c \<Longrightarrow> \<not> js_space c \<and> c \<noteq> CHR ''-'' \<and> c \<noteq> CHR ''+''"
  by (auto simp: is_digit_def digit_of_def js_space_def Let_def split: if_splits)

lemma parseInt_text: "parseInt (int_text i) = Some i"
proof (cases "i < 0")
  case True
  then show ?thesis using parse_digits_text [of "- i"] by (simp add: parseInt_def int_text_def js_space_def)
next
  case False
  then obtain c s where "digits_text i = c # s" "is_digit c"
    using digits_text_digits [of i] by (cases "digits_text i") auto
  then show ?thesis using parse_digits_text [of i] False digit_plain [of c] by (simp add: parseInt_def int_text_def)
qed

lemma int_text_inj: "int_text i = int_text j \<longleftrightarrow> i = j"
  by (metis parseInt_text option.inject)

end
