(* ===== verification/Hub_RawParams.thy ===== *)
theory Hub_RawParams
  imports Js_Text
begin

text \<open>
  \<open>packages/hub/src/raw-params.ts\<close>: finding the text of the \<open>params\<close> member that a signature covers.

  A position \<open>i\<close> of the scanned text is the rest of the text from \<open>i\<close> on, so \<open>text.slice(i, j)\<close> is
  \<open>between\<close> of the two rests, and an index past the end is the empty rest. A character is a UTF-16
  unit below 256; the scan treats all others as it treats letters.

  The lemmas are over JSON texts in any layout: \<open>object_text\<close> assembles an object from members with
  arbitrary white space, arbitrarily spelled keys and values. They show what the scan returns for
  every such text, and where that is not the member that \<open>JSON.parse\<close> gives the method.
\<close>

section \<open>The scan\<close>

definition quote :: char where "quote = CHR 0x22"
definition backslash :: char where "backslash = CHR 0x5C"

definition open_bracket :: "char \<Rightarrow> bool" where
  "open_bracket c \<longleftrightarrow> c = CHR ''{'' \<or> c = CHR ''[''"

definition close_bracket :: "char \<Rightarrow> bool" where
  "close_bracket c \<longleftrightarrow> c = CHR ''}'' \<or> c = CHR '']''"

definition between :: "string \<Rightarrow> string \<Rightarrow> string" where
  "between from_i to_j = take (length from_i - length to_j) from_i"

text \<open>From just after the open_bracket quote to just after the closing one.\<close>

function skipString_body :: "string \<Rightarrow> string" where
  "skipString_body [] = []"
| "skipString_body (c # s) =
     (if c = backslash then skipString_body (drop 1 s)
      else if c = quote then s else skipString_body s)"
  by pat_completeness auto
termination by (relation "measure length") auto

definition skipString :: "string \<Rightarrow> string" where
  "skipString s = skipString_body (drop 1 s)"

lemma skipString_body_le: "length (skipString_body s) \<le> length s"
  by (induction s rule: skipString_body.induct) auto

function skip_nested :: "int \<Rightarrow> string \<Rightarrow> string" where
  "skip_nested depth [] = []"
| "skip_nested depth (c # s) =
     (if c = quote then skip_nested depth (skipString_body s)
      else if open_bracket c then skip_nested (depth + 1) s
      else if close_bracket c then (if depth - 1 = 0 then s else skip_nested (depth - 1) s)
      else skip_nested depth s)"
  by pat_completeness auto
termination
  by (relation "measure (\<lambda>(d, s). length s)") (auto simp: skipString_body_le le_imp_less_Suc)

definition literal_end :: "char \<Rightarrow> bool" where
  "literal_end c \<longleftrightarrow> c \<in> set [CHR '','', CHR ''}'', CHR '']'', CHR '' '', CHR 0x09, CHR 0x0A, CHR 0x0D]"

definition skipValue :: "string \<Rightarrow> string" where
  "skipValue s =
     (case s of
        [] \<Rightarrow> []
      | c # _ \<Rightarrow>
          if c = quote then skipString s
          else if open_bracket c then skip_nested 0 s
          else dropWhile (\<lambda>x. \<not> literal_end x) s)"

definition PARAMS_KEY :: string where
  "PARAMS_KEY = quote # ''params'' @ [quote]"

function raw_scan :: "int \<Rightarrow> string \<Rightarrow> string option" where
  "raw_scan depth [] = None"
| "raw_scan depth (c # s) =
     (if c = quote then
        (let i = skipString (c # s);
             j = dropWhile js_space i
         in if depth = 1 \<and> between (c # s) i = PARAMS_KEY \<and> take 1 j = '':'' then
              (let v = dropWhile js_space (drop 1 j);
                   e = skipValue v
               in if length e < length v then Some (between v e) else None)
            else raw_scan depth i)
      else if open_bracket c then raw_scan (depth + 1) s
      else if close_bracket c then raw_scan (depth - 1) s
      else raw_scan depth s)"
  by pat_completeness auto
termination
  by (relation "measure (\<lambda>(d, s). length s)") (auto simp: skipString_def skipString_body_le le_imp_less_Suc)

definition rawParams :: "string \<Rightarrow> string option" where
  "rawParams doc = raw_scan 0 doc"

section \<open>JSON texts\<close>

text \<open>The inside of a string: no bare quote, and a backslash takes the next character with it.\<close>

fun string_body :: "string \<Rightarrow> bool" where
  "string_body [] \<longleftrightarrow> True"
| "string_body (c # s) \<longleftrightarrow>
     (if c = backslash then (case s of [] \<Rightarrow> False | _ # s' \<Rightarrow> string_body s')
      else c \<noteq> quote \<and> string_body s)"

definition string_text :: "string \<Rightarrow> string" where
  "string_text body = quote # body @ [quote]"

text \<open>The inside of a pair of brackets, as far as the scan sees it.\<close>

inductive nested_text :: "string \<Rightarrow> bool" where
  nt_nil: "nested_text []"
| nt_char: "c \<noteq> quote \<Longrightarrow> \<not> open_bracket c \<Longrightarrow> \<not> close_bracket c \<Longrightarrow> nested_text s \<Longrightarrow> nested_text (c # s)"
| nt_string: "string_body b \<Longrightarrow> nested_text s \<Longrightarrow> nested_text (string_text b @ s)"
| nt_group: "open_bracket a \<Longrightarrow> close_bracket z \<Longrightarrow> nested_text b \<Longrightarrow> nested_text s \<Longrightarrow> nested_text (a # b @ z # s)"

inductive value_text :: "string \<Rightarrow> bool" where
  vt_string: "string_body b \<Longrightarrow> value_text (string_text b)"
| vt_group: "open_bracket a \<Longrightarrow> close_bracket z \<Longrightarrow> nested_text b \<Longrightarrow> value_text (a # b @ [z])"
| vt_literal: "s \<noteq> [] \<Longrightarrow> \<forall>c\<in>set s. \<not> literal_end c \<and> \<not> js_space c \<and> c \<noteq> quote \<and> \<not> open_bracket c \<Longrightarrow> value_text s"

definition json_space :: "string \<Rightarrow> bool" where
  "json_space w \<longleftrightarrow> set w \<subseteq> {CHR '' '', CHR 0x09, CHR 0x0A, CHR 0x0D}"

record member_text =
  mt_before :: string
  mt_key :: string
  mt_colon_left :: string
  mt_colon_right :: string
  mt_value :: string
  mt_after :: string

definition member_ok :: "member_text \<Rightarrow> bool" where
  "member_ok m \<longleftrightarrow> json_space (mt_before m) \<and> json_space (mt_colon_left m) \<and> json_space (mt_colon_right m) \<and>
     json_space (mt_after m) \<and> string_body (mt_key m) \<and> value_text (mt_value m)"

definition member_string :: "member_text \<Rightarrow> string" where
  "member_string m = mt_before m @ string_text (mt_key m) @ mt_colon_left m @ '':'' @ mt_colon_right m @
     mt_value m @ mt_after m"

fun members_string :: "member_text list \<Rightarrow> string" where
  "members_string [] = ''}''"
| "members_string [m] = member_string m @ ''}''"
| "members_string (m # ms) = member_string m @ '','' @ members_string ms"

definition object_text :: "string \<Rightarrow> member_text list \<Rightarrow> string \<Rightarrow> string" where
  "object_text w ms w' = w @ ''{'' @ members_string ms @ w'"

section \<open>Skipping\<close>

lemma special_distinct [simp]:
  "quote \<noteq> backslash" "\<not> open_bracket quote" "\<not> close_bracket quote" "\<not> close_bracket (CHR ''{'')" "\<not> close_bracket (CHR ''['')"
  "CHR '':'' \<noteq> quote" "CHR '','' \<noteq> quote" "CHR ''}'' \<noteq> quote" "CHR ''{'' \<noteq> quote"
  "quote \<noteq> CHR '':''" "quote \<noteq> CHR '',''" "quote \<noteq> CHR ''}''" "quote \<noteq> CHR ''{''" "open_bracket (CHR ''{'')"
  "\<not> open_bracket (CHR '':'')" "\<not> open_bracket (CHR '','')" "\<not> open_bracket (CHR ''}'')" "\<not> close_bracket (CHR '':'')"
  "\<not> close_bracket (CHR '','')" "close_bracket (CHR ''}'')" "\<not> js_space (CHR '':'')" "\<not> js_space (CHR '','')"
  "\<not> js_space (CHR ''}'')" "\<not> js_space quote"
  by (simp_all add: quote_def backslash_def open_bracket_def close_bracket_def js_space_def)

lemma special_distinct2 [simp]:
  "c = CHR ''{'' \<or> c = CHR ''['' \<Longrightarrow> c \<noteq> quote" "open_bracket c \<Longrightarrow> c \<noteq> quote" "close_bracket c \<Longrightarrow> c \<noteq> quote"
  "close_bracket c \<Longrightarrow> \<not> open_bracket c"
  by (auto simp: quote_def open_bracket_def close_bracket_def)

lemma skip_body: "string_body b \<Longrightarrow> skipString_body (b @ quote # s) = s"
  by (induction b rule: string_body.induct) (auto split: list.splits if_splits)

lemma skip_string: "string_body b \<Longrightarrow> skipString (string_text b @ s) = s"
  by (simp add: skipString_def string_text_def skip_body)

lemma between_append [simp]: "between (a @ s) s = a"
  by (simp add: between_def)

lemma skip_nested_text:
  assumes "nested_text b" "0 < d"
  shows "skip_nested d (b @ s) = skip_nested d s"
  using assms
proof (induction b arbitrary: d s rule: nested_text.induct)
  case (nt_string b t)
  then show ?case by (simp add: string_text_def skip_body)
qed simp_all

lemma skip_group:
  "open_bracket a \<Longrightarrow> close_bracket z \<Longrightarrow> nested_text b \<Longrightarrow> skip_nested 0 (a # b @ z # s) = s"
  by (simp add: skip_nested_text)

text \<open>After a value comes white space, a comma or a closing bracket.\<close>

definition value_follows :: "string \<Rightarrow> bool" where
  "value_follows s \<longleftrightarrow> s \<noteq> [] \<and> literal_end (hd s)"

lemma skipValue_text:
  assumes "value_text v" "value_follows s"
  shows "skipValue (v @ s) = s"
  using assms
proof (cases rule: value_text.cases)
  case (vt_string b)
  then show ?thesis using skip_string [of b s] by (simp add: skipValue_def string_text_def)
next
  case (vt_group a z b)
  then show ?thesis using skip_group [of a z b s] by (simp add: skipValue_def)
next
  case vt_literal
  then obtain c t where "v = c # t" by (cases v) auto
  moreover have "dropWhile (\<lambda>x. \<not> literal_end x) (v @ s) = s"
    using vt_literal assms(2) by (cases s) (auto simp: dropWhile_append value_follows_def)
  ultimately show ?thesis using vt_literal by (auto simp: skipValue_def)
qed

section \<open>Scanning\<close>

lemma json_space_js: "json_space w \<Longrightarrow> c \<in> set w \<Longrightarrow> js_space c"
  by (auto simp: json_space_def js_space_def)

lemma json_space_plain: "json_space w \<Longrightarrow> c \<in> set w \<Longrightarrow> c \<noteq> quote \<and> \<not> open_bracket c \<and> \<not> close_bracket c"
  by (auto simp: json_space_def quote_def open_bracket_def close_bracket_def)

lemma scan_plain:
  "\<forall>c\<in>set w. c \<noteq> quote \<and> \<not> open_bracket c \<and> \<not> close_bracket c \<Longrightarrow> raw_scan d (w @ s) = raw_scan d s"
  by (induction w) auto

lemma scan_space: "json_space w \<Longrightarrow> raw_scan d (w @ s) = raw_scan d s"
  using json_space_plain by (intro scan_plain) blast

lemma drop_space: "json_space w \<Longrightarrow> s \<noteq> [] \<Longrightarrow> \<not> js_space (hd s) \<Longrightarrow> dropWhile js_space (w @ s) = s"
  using json_space_js by (cases s) (auto simp: dropWhile_append)

lemma scan_string:
  assumes "string_body b"
  shows "raw_scan d (string_text b @ s) =
     (let j = dropWhile js_space s
      in if d = 1 \<and> b = ''params'' \<and> take 1 j = '':'' then
           (let v = dropWhile js_space (drop 1 j); e = skipValue v
            in if length e < length v then Some (between v e) else None)
         else raw_scan d s)"
proof -
  have "between (quote # b @ quote # s) s = quote # b @ [quote]"
    using between_append [of "string_text b" s] by (simp add: string_text_def)
  then have "between (quote # b @ quote # s) s = PARAMS_KEY \<longleftrightarrow> b = ''params''"
    by (simp add: PARAMS_KEY_def)
  then show ?thesis
    using skip_string [OF assms, of s] by (simp add: string_text_def Let_def)
qed

lemma scan_nested: "nested_text b \<Longrightarrow> 1 < d \<Longrightarrow> raw_scan d (b @ s) = raw_scan d s"
proof (induction b arbitrary: d s rule: nested_text.induct)
  case (nt_string b t)
  then show ?case by (simp add: scan_string)
qed simp_all

lemma scan_value:
  assumes "value_text v" "take 1 (dropWhile js_space s) \<noteq> '':''"
  shows "raw_scan 1 (v @ s) = raw_scan 1 s"
  using assms
proof (cases rule: value_text.cases)
  case (vt_string b)
  then show ?thesis using assms(2) by (simp add: scan_string)
next
  case (vt_group a z b)
  then show ?thesis by (simp add: scan_nested)
next
  case vt_literal
  then have "\<forall>c\<in>set v. c \<noteq> quote \<and> \<not> open_bracket c \<and> \<not> close_bracket c"
    by (auto simp: literal_end_def close_bracket_def)
  then show ?thesis by (rule scan_plain)
qed

lemma value_starts: "value_text v \<Longrightarrow> v \<noteq> [] \<and> \<not> js_space (hd v)"
proof (induction v rule: value_text.induct)
  case (vt_literal s)
  then show ?case by (cases s) auto
qed (auto simp: string_text_def js_space_def open_bracket_def quote_def)

section \<open>Members\<close>

text \<open>The text after a member: its separator and the members that follow, or the closing brace.\<close>

definition member_follows :: "string \<Rightarrow> bool" where
  "member_follows s \<longleftrightarrow> s \<noteq> [] \<and> (hd s = CHR '','' \<or> hd s = CHR ''}'')"

lemma after_value:
  assumes "json_space w" "member_follows s"
  shows "value_follows (w @ s)" "take 1 (dropWhile js_space (w @ s)) \<noteq> '':''"
proof -
  have "\<not> js_space (hd s)" using assms(2) by (auto simp: member_follows_def)
  then have "dropWhile js_space (w @ s) = s"
    using assms by (intro drop_space) (auto simp: member_follows_def)
  then show "take 1 (dropWhile js_space (w @ s)) \<noteq> '':''"
    using assms(2) by (cases s) (auto simp: member_follows_def)
  show "value_follows (w @ s)"
    using assms by (cases w) (auto simp: value_follows_def member_follows_def literal_end_def json_space_def)
qed

lemma scan_member:
  assumes m: "member_ok m" and s: "member_follows s"
  shows "raw_scan 1 (member_string m @ s) =
     (if mt_key m = ''params'' then Some (mt_value m) else raw_scan 1 s)"
proof -
  note ok = m [unfolded member_ok_def]
  let ?v = "mt_value m @ mt_after m @ s"
  let ?r = "mt_colon_left m @ '':'' @ mt_colon_right m @ ?v"
  have colon: "dropWhile js_space ?r = '':'' @ mt_colon_right m @ ?v"
    using ok by (intro drop_space) auto
  have val: "dropWhile js_space (mt_colon_right m @ ?v) = ?v"
    using ok value_starts [of "mt_value m"] by (intro drop_space) auto
  have follows: "value_follows (mt_after m @ s)" "take 1 (dropWhile js_space (mt_after m @ s)) \<noteq> '':''"
    using after_value [OF _ s, of "mt_after m"] ok by simp_all
  have skip: "skipValue ?v = mt_after m @ s"
    using ok follows(1) by (intro skipValue_text) auto
  have "raw_scan 1 (member_string m @ s) = raw_scan 1 (string_text (mt_key m) @ ?r)"
    using ok by (simp add: member_string_def scan_space)
  also have "\<dots> = (if mt_key m = ''params'' then Some (mt_value m) else raw_scan 1 ?r)"
    using ok colon val skip value_starts [of "mt_value m"] by (simp add: scan_string)
  also have "raw_scan 1 ?r = raw_scan 1 s"
    using ok follows(2) by (simp add: scan_space scan_value)
  finally show ?thesis .
qed

lemma scan_members:
  "\<forall>m\<in>set ms. member_ok m \<Longrightarrow>
   raw_scan 1 (members_string ms @ s) =
     (case find (\<lambda>m. mt_key m = ''params'') ms of None \<Rightarrow> raw_scan 0 s | Some m \<Rightarrow> Some (mt_value m))"
proof (induction ms rule: members_string.induct)
  case 1
  then show ?case by simp
next
  case (2 m)
  then show ?case using scan_member [of m "''}'' @ s"] by (simp add: member_follows_def)
next
  case (3 m m' ms)
  then show ?case
    using scan_member [of m "'','' @ members_string (m' # ms) @ s"] by (simp add: member_follows_def)
qed

lemma scan_object:
  assumes "json_space w" "json_space w'" "\<forall>m\<in>set ms. member_ok m"
  shows "rawParams (object_text w ms w') = map_option mt_value (find (\<lambda>m. mt_key m = ''params'') ms)"
  using assms scan_space [OF assms(2), of 0 "[]"]
  by (simp add: rawParams_def object_text_def scan_space scan_members split: option.split)

text \<open>
  The scan returns the signed member byte for byte. For every JSON object text, in any layout,
  with any strings and nested values around it, the result is the exact text of the value of the
  first member whose key is spelled params, and null when there is none; a params inside a string
  value or at a greater depth is never taken for it.
\<close>
theorem rawParams_exact:
  assumes "json_space w" "json_space w'" "\<forall>m\<in>set ms. member_ok m"
  shows "rawParams (object_text w ms w') = map_option mt_value (find (\<lambda>m. mt_key m = ''params'') ms)"
  using assms by (rule scan_object)

section \<open>What the method receives\<close>

text \<open>
  \<open>JSON.parse\<close> decodes a key and lets a later member replace an earlier one with the same decoded
  key. An escape beyond the characters of the model, or a malformed one, decodes to \<open>None\<close>.
\<close>

definition hex_value :: "char \<Rightarrow> nat option" where
  "hex_value c =
     (let n = of_char c :: nat
      in if 48 \<le> n \<and> n \<le> 57 then Some (n - 48)
         else if 65 \<le> n \<and> n \<le> 70 then Some (n - 55)
         else if 97 \<le> n \<and> n \<le> 102 then Some (n - 87)
         else None)"

definition simple_escape :: "char \<Rightarrow> char option" where
  "simple_escape c = map_of
     [(quote, quote), (backslash, backslash), (CHR ''/'', CHR ''/''), (CHR ''b'', CHR 0x08),
      (CHR ''f'', CHR 0x0C), (CHR ''n'', CHR 0x0A), (CHR ''r'', CHR 0x0D), (CHR ''t'', CHR 0x09)] c"

fun json_decode :: "string \<Rightarrow> string option" where
  "json_decode [] = Some []"
| "json_decode (c # s) =
     (if c \<noteq> backslash then map_option ((#) c) (json_decode s)
      else (case s of
              [] \<Rightarrow> None
            | e # s' \<Rightarrow>
                if e = CHR ''u'' then
                  (case s' of
                     a # b # x # y # s'' \<Rightarrow>
                       (case (hex_value a, hex_value b, hex_value x, hex_value y) of
                          (Some 0, Some 0, Some h, Some l) \<Rightarrow>
                            map_option ((#) (char_of (16 * h + l))) (json_decode s'')
                        | _ \<Rightarrow> None)
                   | _ \<Rightarrow> None)
                else (case simple_escape e of None \<Rightarrow> None | Some d \<Rightarrow> map_option ((#) d) (json_decode s'))))"

definition names_params :: "member_text \<Rightarrow> bool" where
  "names_params m \<longleftrightarrow> json_decode (mt_key m) = Some ''params''"

definition executed_params :: "member_text list \<Rightarrow> string option" where
  "executed_params ms = map_option mt_value (find names_params (rev ms))"

lemma find_at_most_one:
  assumes "\<And>x y. x \<in> set xs \<Longrightarrow> y \<in> set xs \<Longrightarrow> P x \<Longrightarrow> P y \<Longrightarrow> x = y"
  shows "find P (rev xs) = find P xs"
proof (cases "find P xs")
  case None
  then have "find P (rev xs) = None" by (simp add: find_None_iff)
  with None show ?thesis by simp
next
  case (Some x)
  then have "x \<in> set xs" "P x" by (auto simp: find_Some_iff)
  with assms have "sql_get P (rev xs) = Some x" by (intro sql_get_unique) auto
  with Some show ?thesis by (simp add: sql_get_def)
qed

text \<open>
  C38: For a request that names its parameters once and plainly, the bytes that are signed are the
  bytes that are executed: if no two members decode to the key params and the one that does is
  spelled without escapes, the scan returns the text of the very member that parsing hands to the
  method.
\<close>
theorem signed_params_are_executed:
  assumes "json_space w" "json_space w'" "\<forall>m\<in>set ms. member_ok m"
    and "\<forall>m\<in>set ms. \<forall>m'\<in>set ms. names_params m \<longrightarrow> names_params m' \<longrightarrow> m = m'"
    and "\<forall>m\<in>set ms. names_params m \<longrightarrow> mt_key m = ''params''"
  shows "rawParams (object_text w ms w') = executed_params ms"
proof -
  have plain: "names_params m" if "mt_key m = ''params''" for m
    using that by (simp add: names_params_def backslash_def)
  have "find (\<lambda>m. mt_key m = ''params'') ms = find names_params ms"
    using assms(5) plain by (intro find_cong) auto
  also have "\<dots> = find names_params (rev ms)"
    using assms(4) by (intro find_at_most_one [symmetric]) blast
  finally show ?thesis
    using scan_object [OF assms(1-3)] by (simp add: executed_params_def)
qed

definition plain_member :: "string \<Rightarrow> string \<Rightarrow> member_text" where
  "plain_member k v = \<lparr>mt_before = '' '', mt_key = k, mt_colon_left = [], mt_colon_right = '' '',
     mt_value = v, mt_after = []\<rparr>"

lemma literal_value:
  "v \<noteq> [] \<Longrightarrow> list_all (\<lambda>c. \<not> literal_end c \<and> \<not> js_space c \<and> c \<noteq> quote \<and> \<not> open_bracket c) v \<Longrightarrow> value_text v"
  by (rule vt_literal) (simp_all add: list_all_iff)

lemma signed_params_are_executed_witness:
  "rawParams (object_text [] [plain_member ''id'' ''7'', plain_member ''params'' ''null''] []) = Some ''null''"
proof -
  have v: "value_text ''7''" "value_text ''null''"
    by (rule literal_value, simp, code_simp)+
  have "rawParams (object_text [] [plain_member ''id'' ''7'', plain_member ''params'' ''null''] []) =
      executed_params [plain_member ''id'' ''7'', plain_member ''params'' ''null'']"
    by (rule signed_params_are_executed)
      (simp_all add: json_space_def member_ok_def plain_member_def names_params_def backslash_def quote_def v)
  also have "\<dots> = Some ''null''" by code_simp
  finally show ?thesis .
qed

lemma rawParams_exact_witness:
  "rawParams (object_text [] [plain_member ''a'' (string_text ''params''), plain_member ''params'' ''1''] []) = Some ''1''"
proof -
  have v: "value_text (string_text ''params'')" "value_text ''1''"
    by (rule vt_string, code_simp, rule literal_value, simp, code_simp)
  have "rawParams (object_text [] [plain_member ''a'' (string_text ''params''), plain_member ''params'' ''1''] []) =
      map_option mt_value (find (\<lambda>m. mt_key m = ''params'')
        [plain_member ''a'' (string_text ''params''), plain_member ''params'' ''1''])"
    by (rule rawParams_exact)
      (simp_all add: json_space_def member_ok_def plain_member_def backslash_def quote_def v)
  then show ?thesis by (simp add: plain_member_def)
qed

text \<open>
  A request can be signed over one set of parameters and executed with another. There is a
  well-formed object text whose scan returns the first of two params members while parsing hands
  the last to the method, and one where an escaped spelling of the key is executed and the scan
  finds no parameters at all, so that the empty object is what is signed.
\<close>
theorem signed_params_can_differ_from_executed:
  "(\<exists>ms. list_all member_ok ms \<and> rawParams (object_text [] ms []) = Some ''1'' \<and>
        executed_params ms = Some ''2'') \<and>
   (\<exists>ms. list_all member_ok ms \<and> rawParams (object_text [] ms []) = None \<and>
        executed_params ms = Some ''2'')"
proof -
  have v: "value_text ''1''" "value_text ''2''"
    by (rule literal_value, simp, code_simp)+
  let ?twice = "[plain_member ''params'' ''1'', plain_member ''params'' ''2'']"
  let ?escaped = "[plain_member ([CHR ''p'', CHR ''a'', CHR ''r'', backslash] @ ''u0061ms'') ''2'']"
  have "list_all member_ok ?twice" "list_all member_ok ?escaped"
    by (simp_all add: json_space_def member_ok_def plain_member_def backslash_def quote_def v)
  moreover have "rawParams (object_text [] ?twice []) = Some ''1''" "executed_params ?twice = Some ''2''"
    "rawParams (object_text [] ?escaped []) = None" "executed_params ?escaped = Some ''2''"
    by code_simp+
  ultimately show ?thesis by blast
qed

end
