(* ===== verification/Json_Rpc.thy ===== *)
theory Json_Rpc
  imports Hub_RawParams "HOL-Library.AList"
begin

text \<open>
  JSON values as the hub's JavaScript sees them, \<open>JSON.parse\<close> and \<open>JSON.stringify\<close>, and the framing of
  \<open>packages/hub/src/jsonrpc.ts\<close>.

  A text is its UTF-8 bytes. A number is \<open>JInt\<close> where it is an integer and \<open>JReal\<close> with its text
  otherwise; rounding to a double is not modelled. An object is an association list in the order of
  its members, with the last value of a repeated key. A member that is not there, and any member of
  a value that is no object, is \<open>None\<close>, which is \<open>undefined\<close>.

  The parser runs on fuel, the number of characters it is given: every recursive call has consumed one.
\<close>

datatype json =
    JNull
  | JBool bool
  | JInt int
  | JReal string
  | JStr string
  | JArr "json list"
  | JObj "(string \<times> json) list"

section \<open>Values\<close>

fun jget :: "json \<Rightarrow> string \<Rightarrow> json option" where
  "jget (JObj ms) k = map_of ms k"
| "jget _ k = None"

text \<open>\<open>x ?? d\<close>, and whether \<open>x\<close> is null or undefined.\<close>

fun nullish :: "json option \<Rightarrow> bool" where
  "nullish (Some JNull) = True"
| "nullish None = True"
| "nullish _ = False"

definition or_else :: "json option \<Rightarrow> json \<Rightarrow> json" where
  "or_else x d = (if nullish x then d else the x)"

fun truthy :: "json option \<Rightarrow> bool" where
  "truthy None = False"
| "truthy (Some JNull) = False"
| "truthy (Some (JBool b)) = b"
| "truthy (Some (JInt i)) = (i \<noteq> 0)"
| "truthy (Some (JStr s)) = (s \<noteq> [])"
| "truthy (Some _) = True"

text \<open>\<open>typeof x === "string"\<close>, and non-empty as well, the check \<open>!x || typeof x !== "string"\<close>.\<close>

fun as_string :: "json option \<Rightarrow> string option" where
  "as_string (Some (JStr s)) = Some s"
| "as_string _ = None"

definition given_string :: "json option \<Rightarrow> string option" where
  "given_string x = (case as_string x of Some [] \<Rightarrow> None | r \<Rightarrow> r)"

fun as_array :: "json option \<Rightarrow> json list option" where
  "as_array (Some (JArr xs)) = Some xs"
| "as_array _ = None"

fun as_integer :: "json option \<Rightarrow> int option" where
  "as_integer (Some (JInt i)) = Some i"
| "as_integer _ = None"

fun is_object :: "json \<Rightarrow> bool" where
  "is_object (JObj _) = True"
| "is_object (JArr _) = True"
| "is_object _ = False"

text \<open>\<open>String(x)\<close>; an array joins its elements, in which null is empty.\<close>

fun js_String :: "json \<Rightarrow> string" where
  "js_String JNull = ''null''"
| "js_String (JBool b) = (if b then ''true'' else ''false'')"
| "js_String (JInt i) = int_text i"
| "js_String (JReal s) = s"
| "js_String (JStr s) = s"
| "js_String (JArr xs) = join_with '','' (map (\<lambda>x. if x = JNull then [] else js_String x) xs)"
| "js_String (JObj ms) = ''[object Object]''"

text \<open>
  A parameter of a statement, for a column of type text: null or undefined is null, a number or
  boolean takes the column's affinity, an object or an array cannot be bound and throws.
\<close>

fun sql_bind :: "json option \<Rightarrow> string option option" where
  "sql_bind None = Some None"
| "sql_bind (Some JNull) = Some None"
| "sql_bind (Some (JBool b)) = Some (Some (if b then ''1'' else ''0''))"
| "sql_bind (Some (JInt i)) = Some (Some (int_text i))"
| "sql_bind (Some (JReal s)) = Some (Some s)"
| "sql_bind (Some (JStr s)) = Some (Some s)"
| "sql_bind (Some (JArr xs)) = None"
| "sql_bind (Some (JObj ms)) = None"

section \<open>Text of a value\<close>

definition hex_digit :: "nat \<Rightarrow> char" where
  "hex_digit n = (if n < 10 then char_of (48 + n) else char_of (87 + n))"

definition escape_char :: "char \<Rightarrow> string" where
  "escape_char c =
     (let n = of_char c :: nat
      in if c = quote then [backslash, quote]
         else if c = backslash then [backslash, backslash]
         else if n = 8 then [backslash, CHR ''b''] else if n = 9 then [backslash, CHR ''t'']
         else if n = 10 then [backslash, CHR ''n''] else if n = 12 then [backslash, CHR ''f'']
         else if n = 13 then [backslash, CHR ''r'']
         else if n < 32 then [backslash, CHR ''u'', CHR ''0'', CHR ''0'', hex_digit (n div 16), hex_digit (n mod 16)]
         else [c])"

definition string_literal :: "string \<Rightarrow> string" where
  "string_literal s = quote # concat (map escape_char s) @ [quote]"

fun json_text :: "json \<Rightarrow> string" where
  "json_text JNull = ''null''"
| "json_text (JBool b) = (if b then ''true'' else ''false'')"
| "json_text (JInt i) = int_text i"
| "json_text (JReal s) = s"
| "json_text (JStr s) = string_literal s"
| "json_text (JArr xs) = ''['' @ join_with '','' (map json_text xs) @ '']''"
| "json_text (JObj ms) =
     ''{'' @ join_with '','' (map (\<lambda>m. string_literal (fst m) @ '':'' @ json_text (snd m)) ms) @ ''}''"

section \<open>Parsing\<close>

definition json_ws :: "char \<Rightarrow> bool" where
  "json_ws c \<longleftrightarrow> (of_char c :: nat) \<in> {9, 10, 13, 32}"

definition utf8 :: "nat \<Rightarrow> string" where
  "utf8 n =
     (if n < 0x80 then [char_of n]
      else if n < 0x800 then [char_of (0xC0 + n div 64), char_of (0x80 + n mod 64)]
      else if n < 0x10000 then
        [char_of (0xE0 + n div 4096), char_of (0x80 + n div 64 mod 64), char_of (0x80 + n mod 64)]
      else [char_of (0xF0 + n div 262144), char_of (0x80 + n div 4096 mod 64),
            char_of (0x80 + n div 64 mod 64), char_of (0x80 + n mod 64)])"

definition hex4 :: "char \<Rightarrow> char \<Rightarrow> char \<Rightarrow> char \<Rightarrow> nat option" where
  "hex4 a b c d =
     (case (hex_value a, hex_value b, hex_value c, hex_value d) of
        (Some a', Some b', Some c', Some d') \<Rightarrow> Some (a' * 4096 + b' * 256 + c' * 16 + d')
      | _ \<Rightarrow> None)"

text \<open>The low half of a surrogate pair at the front of a text, and what follows it.\<close>

fun low_surrogate :: "string \<Rightarrow> (nat \<times> string) option" where
  "low_surrogate (s # u # a # b # c # d # r) =
     (if s = backslash \<and> u = CHR ''u'' then
        (case hex4 a b c d of
           Some n \<Rightarrow> if 0xDC00 \<le> n \<and> n < 0xE000 then Some (n, r) else None
         | None \<Rightarrow> None)
      else None)"
| "low_surrogate _ = None"

text \<open>One character of a string literal, decoded; \<open>None\<close> where the text is no literal.\<close>

fun literal_char :: "string \<Rightarrow> (string \<times> string) option" where
  "literal_char [] = None"
| "literal_char (c # s) =
     (if (of_char c :: nat) < 32 then None
      else if c \<noteq> backslash then Some ([c], s)
      else (case s of
              [] \<Rightarrow> None
            | e # s1 \<Rightarrow>
                if e = CHR ''u'' then
                  (case s1 of
                     w # x # y # z # s2 \<Rightarrow>
                       (case hex4 w x y z of
                          None \<Rightarrow> None
                        | Some n \<Rightarrow>
                            if 0xD800 \<le> n \<and> n < 0xDC00 then
                              (case low_surrogate s2 of
                                 Some (l, s3) \<Rightarrow> Some (utf8 (0x10000 + (n - 0xD800) * 1024 + (l - 0xDC00)), s3)
                               | None \<Rightarrow> Some (utf8 n, s2))
                            else Some (utf8 n, s2))
                   | _ \<Rightarrow> None)
                else map_option (\<lambda>d. ([d], s1)) (simple_escape e)))"

fun literal_rest :: "nat \<Rightarrow> string \<Rightarrow> (string \<times> string) option" where
  "literal_rest 0 s = None"
| "literal_rest (Suc n) s =
     (case s of
        [] \<Rightarrow> None
      | c # r \<Rightarrow>
          if c = quote then Some ([], r)
          else (case literal_char s of
                  None \<Rightarrow> None
                | Some (d, r') \<Rightarrow> map_option (\<lambda>(t, u). (d @ t, u)) (literal_rest n r')))"

subsection \<open>Numbers\<close>

definition number_char :: "char \<Rightarrow> bool" where
  "number_char c \<longleftrightarrow> is_digit c \<or> c \<in> {CHR ''-'', CHR ''+'', CHR ''.'', CHR ''e'', CHR ''E''}"

text \<open>Digits of the integer part, digits of the fraction, the exponent; \<open>None\<close> is a syntax error.\<close>

definition number_parts :: "string \<Rightarrow> (string \<times> string \<times> int) option" where
  "number_parts s =
     (let ip = takeWhile is_digit s; r1 = dropWhile is_digit s;
          dot = (r1 \<noteq> [] \<and> hd r1 = CHR ''.'');
          fp = (if dot then takeWhile is_digit (tl r1) else []);
          r2 = (if dot then dropWhile is_digit (tl r1) else r1)
      in if ip = [] \<or> (length ip > 1 \<and> hd ip = CHR ''0'') \<or> (dot \<and> fp = []) then None
         else (case r2 of
                 [] \<Rightarrow> Some (ip, fp, 0)
               | e # r3 \<Rightarrow>
                   if e = CHR ''e'' \<or> e = CHR ''E'' then
                     (let neg = (r3 \<noteq> [] \<and> hd r3 = CHR ''-'');
                          ds = (if r3 \<noteq> [] \<and> hd r3 \<in> {CHR ''-'', CHR ''+''} then tl r3 else r3)
                      in if ds = [] \<or> \<not> list_all is_digit ds then None
                         else Some (ip, fp, if neg then - digits_value 0 ds else digits_value 0 ds))
                   else None))"

text \<open>A decimal that is no integer, as \<open>String\<close> prints it: \<open>k\<close> digits, the point after \<open>n\<close> of them.\<close>

definition real_text :: "string \<Rightarrow> int \<Rightarrow> string" where
  "real_text ds n =
     (if 0 < n then take (nat n) ds @ ''.'' @ drop (nat n) ds
      else if - 6 < n then ''0.'' @ replicate (nat (- n)) (CHR ''0'') @ ds
      else take 1 ds @ (if length ds > 1 then ''.'' @ drop 1 ds else []) @ ''e-'' @ int_text (1 - n))"

definition number_value :: "bool \<Rightarrow> string \<times> string \<times> int \<Rightarrow> json" where
  "number_value neg p =
     (case p of (ip, fp, e) \<Rightarrow>
        (let ds = rev (dropWhile (\<lambda>c. c = CHR ''0'') (rev (ip @ fp)));
             e' = e - int (length fp) + int (length (ip @ fp) - length ds);
             ds' = dropWhile (\<lambda>c. c = CHR ''0'') ds;
             n = int (length ds') + e'
         in if ds' = [] \<or> n < - 330 then JInt 0
            else if n > 309 then JReal (if neg then ''-Infinity'' else ''Infinity'')
            else if 0 \<le> e' then JInt ((if neg then - 1 else 1) * digits_value 0 ds' * 10 ^ nat e')
            else JReal ((if neg then ''-'' else []) @ real_text ds' n)))"

definition number_of :: "string \<Rightarrow> json option" where
  "number_of t =
     (if t \<noteq> [] \<and> hd t = CHR ''-'' then map_option (number_value True) (number_parts (tl t))
      else map_option (number_value False) (number_parts t))"

subsection \<open>Values\<close>

definition json_keyword :: "string \<Rightarrow> (json \<times> string) option" where
  "json_keyword s =
     (if take 4 s = ''null'' then Some (JNull, drop 4 s)
      else if take 4 s = ''true'' then Some (JBool True, drop 4 s)
      else if take 5 s = ''false'' then Some (JBool False, drop 5 s)
      else None)"

fun json_value :: "nat \<Rightarrow> string \<Rightarrow> (json \<times> string) option"
  and json_elems :: "nat \<Rightarrow> json list \<Rightarrow> string \<Rightarrow> (json \<times> string) option"
  and json_members :: "nat \<Rightarrow> (string \<times> json) list \<Rightarrow> string \<Rightarrow> (json \<times> string) option" where
  "json_value 0 s = None"
| "json_value (Suc n) s =
     (case dropWhile json_ws s of
        [] \<Rightarrow> None
      | c # r \<Rightarrow>
          if c = quote then map_option (\<lambda>(t, u). (JStr t, u)) (literal_rest (Suc (length r)) r)
          else if c = CHR ''['' then
            (case dropWhile json_ws r of
               [] \<Rightarrow> None
             | d # u \<Rightarrow> if d = CHR '']'' then Some (JArr [], u) else json_elems n [] r)
          else if c = CHR ''{'' then
            (case dropWhile json_ws r of
               [] \<Rightarrow> None
             | d # u \<Rightarrow> if d = CHR ''}'' then Some (JObj [], u) else json_members n [] r)
          else if number_char c then
            map_option (\<lambda>v. (v, dropWhile number_char (c # r))) (number_of (takeWhile number_char (c # r)))
          else json_keyword (c # r))"
| "json_elems 0 acc s = None"
| "json_elems (Suc n) acc s =
     (case json_value n s of
        None \<Rightarrow> None
      | Some (v, r) \<Rightarrow>
          (case dropWhile json_ws r of
             [] \<Rightarrow> None
           | d # u \<Rightarrow> if d = CHR '']'' then Some (JArr (acc @ [v]), u)
                      else if d = CHR '','' then json_elems n (acc @ [v]) u else None))"
| "json_members 0 acc s = None"
| "json_members (Suc n) acc s =
     (case dropWhile json_ws s of
        [] \<Rightarrow> None
      | q # r0 \<Rightarrow>
          if q \<noteq> quote then None
          else (case literal_rest (Suc (length r0)) r0 of
                  None \<Rightarrow> None
                | Some (k, r1) \<Rightarrow>
                    (case dropWhile json_ws r1 of
                       [] \<Rightarrow> None
                     | col # r2 \<Rightarrow>
                         if col \<noteq> CHR '':'' then None
                         else (case json_value n r2 of
                                 None \<Rightarrow> None
                               | Some (v, r3) \<Rightarrow>
                                   (case dropWhile json_ws r3 of
                                      [] \<Rightarrow> None
                                    | d # u \<Rightarrow>
                                        if d = CHR ''}'' then Some (JObj (AList.update k v acc), u)
                                        else if d = CHR '','' then json_members n (AList.update k v acc) u
                                        else None)))))"

definition json_parse :: "string \<Rightarrow> json option" where
  "json_parse s =
     (case json_value (Suc (length s)) s of
        Some (v, r) \<Rightarrow> if dropWhile json_ws r = [] then Some v else None
      | None \<Rightarrow> None)"

section \<open>Frames\<close>

text \<open>
  A frame is the value that \<open>JSON.stringify\<close> prints. The id is whatever the request had under that key.
\<close>

definition rpcResult :: "json option \<Rightarrow> json \<Rightarrow> json" where
  "rpcResult i result = JObj [(''jsonrpc'', JStr ''2.0''), (''result'', result), (''id'', or_else i JNull)]"

definition rpcErrorData :: "json option \<Rightarrow> int \<Rightarrow> string \<Rightarrow> json option \<Rightarrow> json" where
  "rpcErrorData i c message data =
     JObj [(''jsonrpc'', JStr ''2.0''),
           (''error'', JObj ([(''code'', JInt c), (''message'', JStr message)] @
              (case data of None \<Rightarrow> [] | Some d \<Rightarrow> [(''data'', d)]))),
           (''id'', or_else i JNull)]"

definition rpcError :: "json option \<Rightarrow> int \<Rightarrow> string \<Rightarrow> json" where
  "rpcError i c message = rpcErrorData i c message None"

definition rpcNotification :: "string \<Rightarrow> json \<Rightarrow> json" where
  "rpcNotification method params = JObj [(''jsonrpc'', JStr ''2.0''), (''method'', JStr method), (''params'', params)]"

definition PARSE_ERROR :: int where "PARSE_ERROR = - 32700"
definition INVALID_REQUEST :: int where "INVALID_REQUEST = - 32600"
definition METHOD_NOT_FOUND :: int where "METHOD_NOT_FOUND = - 32601"
definition INVALID_PARAMS :: int where "INVALID_PARAMS = - 32602"
definition DUPLICATE_IDENTITY :: int where "DUPLICATE_IDENTITY = - 32010"
definition IDENTITY_NOT_REGISTERED :: int where "IDENTITY_NOT_REGISTERED = - 32011"
definition NOT_ENTITLED :: int where "NOT_ENTITLED = - 32013"
definition SERVER_ERROR :: int where "SERVER_ERROR = - 32000"

text \<open>What \<open>ws.send\<close> reports: the bytes written, \<open>- 1\<close> when buffered, \<open>0\<close> when dropped; or it throws.\<close>

datatype send_report = Wrote int | SendThrew string

text \<open>\<open>sendFrame\<close>: a throw passes through it.\<close>

fun sendFrame :: "send_report \<Rightarrow> bool option" where
  "sendFrame (Wrote n) = Some (n \<noteq> 0)"
| "sendFrame (SendThrew e) = None"

section \<open>Reading a frame\<close>

definition frame_error :: "json \<Rightarrow> int option" where
  "frame_error f = Option.bind (jget f ''error'') (\<lambda>e. as_integer (jget e ''code''))"

lemma frame_error_simps [simp]:
  "frame_error (rpcResult i r) = None" "frame_error (rpcErrorData i c m d) = Some c"
  "frame_error (rpcError i c m) = Some c"
  by (simp_all add: frame_error_def rpcResult_def rpcErrorData_def rpcError_def)

lemma rpcResult_result [simp]: "jget (rpcResult i r) ''result'' = Some r"
  by (simp add: rpcResult_def)

lemma rpcError_result [simp]: "jget (rpcErrorData i c m d) ''result'' = None" "jget (rpcError i c m) ''result'' = None"
  by (simp_all add: rpcErrorData_def rpcError_def)

lemma as_string_Some_iff [simp]: "as_string x = Some s \<longleftrightarrow> x = Some (JStr s)"
  by (cases x rule: as_string.cases) auto

lemma given_string_Some_iff [simp]: "given_string x = Some s \<longleftrightarrow> x = Some (JStr s) \<and> s \<noteq> []"
  by (cases x rule: as_string.cases) (auto simp: given_string_def split: list.split)

lemma given_string_None [simp]: "given_string None = None"
  by (simp add: given_string_def)

lemma given_string_JStr [simp]: "given_string (Some (JStr s)) = (if s = [] then None else Some s)"
  by (simp add: given_string_def split: list.split)

end
