(* ===== verification/Hub_Limits.thy ===== *)
theory Hub_Limits
  imports Js_Text Complex_Main "HOL-Library.AList"
begin

text \<open>
  \<open>packages/hub/src/ratelimit.ts\<close>, the token buckets, and \<open>packages/hub/src/refusals.ts\<close>, the
  refusal counters.

  Numbers of tokens are JavaScript doubles in the code and rationals here. The clock of the class
  (\<open>now: () => number\<close>) is the first argument of each operation, in milliseconds.

  The lemmas are about \<open>level\<close>, the tokens a key would find at a time: a sweep leaves every level as
  it is, and granted costs plus level never grow faster than the refill.
\<close>

section \<open>Buckets\<close>

record bucket =
  bk_tokens :: rat
  bk_updatedAt :: millis

record limiter =
  rl_name :: string
  rl_capacity :: rat
  rl_refillPerSecond :: rat
  rl_buckets :: "(string \<times> bucket) list"
  rl_refusals :: nat

record decision =
  dc_ok :: bool
  dc_retryAfter :: int
  dc_remaining :: int

definition limiter_new :: "string \<Rightarrow> rat \<Rightarrow> rat \<Rightarrow> limiter" where
  "limiter_new name capacity refill =
     \<lparr>rl_name = name, rl_capacity = capacity, rl_refillPerSecond = refill, rl_buckets = [], rl_refusals = 0\<rparr>"

definition refilled :: "millis \<Rightarrow> limiter \<Rightarrow> string \<Rightarrow> bucket" where
  "refilled t l key =
     (let b = coalesce (map_of (rl_buckets l) key) \<lparr>bk_tokens = rl_capacity l, bk_updatedAt = t\<rparr>;
          elapsed = max 0 (of_int (t - bk_updatedAt b) / 1000)
      in \<lparr>bk_tokens = min (rl_capacity l) (bk_tokens b + elapsed * rl_refillPerSecond l), bk_updatedAt = t\<rparr>)"

definition take_token :: "millis \<Rightarrow> limiter \<Rightarrow> string \<Rightarrow> rat \<Rightarrow> decision \<times> limiter" where
  "take_token t l key cost =
     (let b = refilled t l key
      in if bk_tokens b \<ge> cost then
           (let b' = b\<lparr>bk_tokens := bk_tokens b - cost\<rparr>
            in (\<lparr>dc_ok = True, dc_retryAfter = 0, dc_remaining = \<lfloor>bk_tokens b'\<rfloor>\<rparr>,
                l\<lparr>rl_buckets := AList.update key b' (rl_buckets l)\<rparr>))
         else
           (let deficit = cost - bk_tokens b
            in (\<lparr>dc_ok = False, dc_retryAfter = max 1 \<lceil>deficit / rl_refillPerSecond l\<rceil>, dc_remaining = 0\<rparr>,
                l\<lparr>rl_buckets := AList.update key b (rl_buckets l), rl_refusals := rl_refusals l + 1\<rparr>)))"

definition limiter_stats :: "limiter \<Rightarrow> string \<times> nat \<times> nat \<times> rat \<times> rat" where
  "limiter_stats l =
     (rl_name l, rl_refusals l, length (rl_buckets l), rl_capacity l, rl_refillPerSecond l)"

definition bucket_full :: "millis \<Rightarrow> limiter \<Rightarrow> bucket \<Rightarrow> bool" where
  "bucket_full t l b \<longleftrightarrow> of_int (t - bk_updatedAt b) > rl_capacity l / rl_refillPerSecond l * 1000"

definition sweep_buckets :: "millis \<Rightarrow> limiter \<Rightarrow> nat \<times> limiter" where
  "sweep_buckets t l =
     (length (filter (\<lambda>(key, b). bucket_full t l b) (rl_buckets l)),
      l\<lparr>rl_buckets := filter (\<lambda>(key, b). \<not> bucket_full t l b) (rl_buckets l)\<rparr>)"

definition limiter_size :: "limiter \<Rightarrow> nat" where
  "limiter_size l = length (rl_buckets l)"

definition limit_int :: "string option \<Rightarrow> int \<Rightarrow> int" where
  "limit_int v fallback =
     (case parseInt (coalesce v []) of None \<Rightarrow> fallback | Some n \<Rightarrow> if n > 0 then n else fallback)"

definition PROVISION_LIMIT :: "(string \<Rightarrow> string option) \<Rightarrow> limiter" where
  "PROVISION_LIMIT env = limiter_new ''provision''
     (of_int (limit_int (env ''AGENT_MESH_PROVISION_BURST'') 300))
     (of_int (limit_int (env ''AGENT_MESH_PROVISION_PER_MINUTE'') 600) / 60)"

definition SIGNED_LIMIT :: "(string \<Rightarrow> string option) \<Rightarrow> limiter" where
  "SIGNED_LIMIT env = limiter_new ''signed''
     (of_int (limit_int (env ''AGENT_MESH_SIGNED_BURST'') 600))
     (of_int (limit_int (env ''AGENT_MESH_SIGNED_PER_MINUTE'') 3000) / 60)"

section \<open>Refusal counters\<close>

datatype refusal_kind = SignatureRefusal | EgressRefusal

text \<open>The key joins the kind and the reason with a NUL, which no reason contains; it is the pair here.\<close>

type_synonym refusal_counts = "((refusal_kind \<times> string) \<times> nat) list"

definition recordRefusal :: "refusal_counts \<Rightarrow> refusal_kind \<Rightarrow> string \<Rightarrow> refusal_counts" where
  "recordRefusal counts kind reason =
     AList.update (kind, reason) (coalesce (map_of counts (kind, reason)) 0 + 1) counts"

text \<open>Most frequent first, and by reason where the counts are equal (\<open>localeCompare\<close> as byte order).\<close>

definition refusalCounts :: "refusal_counts \<Rightarrow> ((refusal_kind \<times> string) \<times> nat) list" where
  "refusalCounts counts = order_asc (\<lambda>(_, n). - int n) (order_asc (\<lambda>((_, r), _). r) counts)"

lemma recordRefusal_count:
  "map_of (recordRefusal counts k r) k' =
     (if k' = (k, r) then Some (coalesce (map_of counts k') 0 + 1) else map_of counts k')"
  by (simp add: recordRefusal_def update_conv')

section \<open>What a key can spend\<close>

definition limiter_ok :: "limiter \<Rightarrow> bool" where
  "limiter_ok l \<longleftrightarrow> 0 \<le> rl_capacity l \<and> 0 < rl_refillPerSecond l \<and> distinct (map fst (rl_buckets l)) \<and>
     (\<forall>(key, b)\<in>set (rl_buckets l). 0 \<le> bk_tokens b \<and> bk_tokens b \<le> rl_capacity l)"

definition limiter_by :: "millis \<Rightarrow> limiter \<Rightarrow> bool" where
  "limiter_by t l \<longleftrightarrow> (\<forall>(key, b)\<in>set (rl_buckets l). bk_updatedAt b \<le> t)"

definition level :: "millis \<Rightarrow> limiter \<Rightarrow> string \<Rightarrow> rat" where
  "level t l key = bk_tokens (refilled t l key)"

lemma take_token_ok_iff: "dc_ok (fst (take_token t l key cost)) \<longleftrightarrow> cost \<le> level t l key"
  by (simp add: take_token_def level_def Let_def)

lemma level_none: "map_of (rl_buckets l) key = None \<Longrightarrow> level t l key = rl_capacity l"
  by (simp add: level_def refilled_def Let_def)

lemma level_some:
  "map_of (rl_buckets l) key = Some b \<Longrightarrow>
   level t l key = min (rl_capacity l)
     (bk_tokens b + max 0 (of_int (t - bk_updatedAt b) / 1000) * rl_refillPerSecond l)"
  by (simp add: level_def refilled_def Let_def)

text \<open>The refill between two times.\<close>

definition refill_over :: "limiter \<Rightarrow> millis \<Rightarrow> millis \<Rightarrow> rat" where
  "refill_over l a b = of_int (b - a) / 1000 * rl_refillPerSecond l"

lemma refill_over_add: "refill_over l a b + refill_over l b c = refill_over l a c"
  by (simp add: refill_over_def field_simps)

lemma refill_over_nonneg: "limiter_ok l \<Longrightarrow> a \<le> b \<Longrightarrow> 0 \<le> refill_over l a b"
  unfolding refill_over_def by (intro mult_nonneg_nonneg) (simp_all add: limiter_ok_def)

lemma level_some_by:
  "map_of (rl_buckets l) key = Some b \<Longrightarrow> bk_updatedAt b \<le> t \<Longrightarrow>
   level t l key = min (rl_capacity l) (bk_tokens b + refill_over l (bk_updatedAt b) t)"
  by (simp add: level_some refill_over_def max_def)

lemma limiter_entry:
  "limiter_ok l \<Longrightarrow> map_of (rl_buckets l) key = Some b \<Longrightarrow> 0 \<le> bk_tokens b \<and> bk_tokens b \<le> rl_capacity l"
  by (auto simp: limiter_ok_def dest!: map_of_SomeD)

lemma limiter_entry_by:
  "limiter_by t l \<Longrightarrow> map_of (rl_buckets l) key = Some b \<Longrightarrow> bk_updatedAt b \<le> t"
  by (auto simp: limiter_by_def dest!: map_of_SomeD)

lemma level_range: "limiter_ok l \<Longrightarrow> 0 \<le> level t l key \<and> level t l key \<le> rl_capacity l"
proof (cases "map_of (rl_buckets l) key")
  case None
  then show "limiter_ok l \<Longrightarrow> ?thesis" by (simp add: level_none limiter_ok_def)
next
  case (Some b)
  assume l: "limiter_ok l"
  have "0 \<le> max 0 (of_int (t - bk_updatedAt b) / 1000) * rl_refillPerSecond l"
    using l by (intro mult_nonneg_nonneg) (auto simp: limiter_ok_def)
  then show ?thesis using l limiter_entry [OF l Some] by (simp add: level_some [OF Some] limiter_ok_def)
qed

text \<open>What a take leaves, for the key and for every other key.\<close>

definition spent_of :: "millis \<Rightarrow> limiter \<Rightarrow> string \<Rightarrow> rat \<Rightarrow> rat" where
  "spent_of t l key cost = (if cost \<le> level t l key then cost else 0)"

lemma take_token_frame [simp]:
  "rl_capacity (snd (take_token t l key cost)) = rl_capacity l"
  "rl_refillPerSecond (snd (take_token t l key cost)) = rl_refillPerSecond l"
  by (simp_all add: take_token_def Let_def)

lemma take_token_buckets:
  "rl_buckets (snd (take_token t l key cost)) =
     AList.update key \<lparr>bk_tokens = level t l key - spent_of t l key cost, bk_updatedAt = t\<rparr> (rl_buckets l)"
  by (simp add: take_token_def level_def spent_of_def refilled_def Let_def)

lemma level_cong:
  "map_of (rl_buckets l') key = map_of (rl_buckets l) key \<Longrightarrow> rl_capacity l' = rl_capacity l \<Longrightarrow>
   rl_refillPerSecond l' = rl_refillPerSecond l \<Longrightarrow> level t l' key = level t l key"
  by (simp add: level_def refilled_def)

lemma level_other: "key' \<noteq> key \<Longrightarrow> level t' (snd (take_token t l key cost)) key' = level t' l key'"
  by (rule level_cong) (simp_all add: take_token_buckets update_conv')

lemma level_after_take:
  assumes "limiter_ok l" "t \<le> t'" "0 \<le> cost"
  shows "level t' (snd (take_token t l key cost)) key =
     min (rl_capacity l) (level t l key - spent_of t l key cost + of_int (t' - t) / 1000 * rl_refillPerSecond l)"
  using assms by (subst level_some [of _ _ "\<lparr>bk_tokens = level t l key - spent_of t l key cost, bk_updatedAt = t\<rparr>"])
    (simp_all add: take_token_buckets update_conv')

lemma set_alist_update_sub: "set (AList.update k v xs) \<subseteq> insert (k, v) (set xs)"
  by (induction xs) auto

lemma take_token_ok:
  assumes "limiter_ok l" "0 \<le> cost"
  shows "limiter_ok (snd (take_token t l key cost))"
proof -
  have "0 \<le> level t l key - spent_of t l key cost" "level t l key - spent_of t l key cost \<le> rl_capacity l"
    using level_range [OF assms(1), of t key] assms(2) by (auto simp: spent_of_def)
  with assms(1) show ?thesis
    using set_alist_update_sub [of key "\<lparr>bk_tokens = level t l key - spent_of t l key cost, bk_updatedAt = t\<rparr>" "rl_buckets l"]
    by (fastforce simp: limiter_ok_def take_token_buckets distinct_update)
qed

lemma take_token_by: "limiter_by t l \<Longrightarrow> limiter_by t (snd (take_token t l key cost))"
  using set_alist_update_sub [of key "\<lparr>bk_tokens = level t l key - spent_of t l key cost, bk_updatedAt = t\<rparr>" "rl_buckets l"]
  by (fastforce simp: limiter_by_def take_token_buckets)

subsection \<open>The sweep\<close>

lemma sweep_frame [simp]:
  "rl_capacity (snd (sweep_buckets t l)) = rl_capacity l"
  "rl_refillPerSecond (snd (sweep_buckets t l)) = rl_refillPerSecond l"
  by (simp_all add: sweep_buckets_def)

lemma map_of_filter_entry:
  "distinct (map fst xs) \<Longrightarrow>
   map_of (filter (\<lambda>(_, v). P v) xs) k = (case map_of xs k of None \<Rightarrow> None | Some v \<Rightarrow> if P v then Some v else None)"
  by (induction xs) (force simp: image_iff dest: map_of_SomeD split: option.split)+

lemma level_sweep:
  assumes l: "limiter_ok l" and t: "t \<le> t'"
  shows "level t' (snd (sweep_buckets t l)) key = level t' l key"
proof (cases "map_of (rl_buckets l) key")
  case None
  then show ?thesis
    using l by (intro level_cong) (simp_all add: sweep_buckets_def limiter_ok_def map_of_filter_entry)
next
  case (Some b)
  show ?thesis
  proof (cases "bucket_full t l b")
    case False
    with Some l show ?thesis
      by (intro level_cong) (simp_all add: sweep_buckets_def limiter_ok_def map_of_filter_entry)
  next
    case True
    let ?c = "rl_capacity l" and ?r = "rl_refillPerSecond l"
    have "?c / ?r * 1000 < of_int (t' - bk_updatedAt b)"
      using True t by (simp add: bucket_full_def)
    then have "?c < of_int (t' - bk_updatedAt b) / 1000 * ?r"
      using l by (simp add: limiter_ok_def field_simps)
    moreover have "of_int (t' - bk_updatedAt b) / 1000 * ?r \<le> max 0 (of_int (t' - bk_updatedAt b) / 1000) * ?r"
      using l by (intro mult_right_mono) (simp_all add: limiter_ok_def)
    moreover have "0 \<le> bk_tokens b" using limiter_entry [OF l Some] by simp
    ultimately have "?c \<le> bk_tokens b + max 0 (of_int (t' - bk_updatedAt b) / 1000) * ?r" by linarith
    then have "level t' l key = ?c" by (simp add: level_some [OF Some])
    moreover have "map_of (rl_buckets (snd (sweep_buckets t l))) key = None"
      using Some True l by (simp add: sweep_buckets_def limiter_ok_def map_of_filter_entry)
    ultimately show ?thesis by (simp add: level_none)
  qed
qed

lemma sweep_ok: "limiter_ok l \<Longrightarrow> limiter_ok (snd (sweep_buckets t l))"
  by (auto simp: limiter_ok_def sweep_buckets_def distinct_map intro: inj_on_subset)

lemma sweep_by: "limiter_by t l \<Longrightarrow> limiter_by t (snd (sweep_buckets t l))"
  by (auto simp: limiter_by_def sweep_buckets_def)

section \<open>Runs\<close>

datatype limit_event = LTake millis string rat | LSweep millis

fun limit_time :: "limit_event \<Rightarrow> millis" where
  "limit_time (LTake t key cost) = t"
| "limit_time (LSweep t) = t"

fun limit_cost :: "limit_event \<Rightarrow> rat" where
  "limit_cost (LTake t key cost) = cost"
| "limit_cost (LSweep t) = 0"

fun limit_step :: "limiter \<Rightarrow> limit_event \<Rightarrow> limiter" where
  "limit_step l (LTake t key cost) = snd (take_token t l key cost)"
| "limit_step l (LSweep t) = snd (sweep_buckets t l)"

fun granted :: "string \<Rightarrow> limiter \<Rightarrow> limit_event list \<Rightarrow> rat" where
  "granted key l [] = 0"
| "granted key l (e # es) =
     (case e of
        LTake t k cost \<Rightarrow> if k = key \<and> dc_ok (fst (take_token t l k cost)) then cost else 0
      | LSweep t \<Rightarrow> 0) + granted key (limit_step l e) es"

lemma limit_step_frame [simp]:
  "rl_capacity (limit_step l e) = rl_capacity l" "rl_refillPerSecond (limit_step l e) = rl_refillPerSecond l"
  by (cases e; simp)+

lemma limit_step_ok: "limiter_ok l \<Longrightarrow> 0 \<le> limit_cost e \<Longrightarrow> limiter_ok (limit_step l e)"
  by (cases e) (auto simp: take_token_ok sweep_ok)

lemma limiter_by_later: "limiter_by t l \<Longrightarrow> t \<le> t' \<Longrightarrow> limiter_by t' l"
  by (auto simp: limiter_by_def)

lemma limit_step_by: "limiter_by (limit_time e) l \<Longrightarrow> limiter_by (limit_time e) (limit_step l e)"
  by (cases e) (auto simp: take_token_by sweep_by)

lemma level_growth:
  assumes l: "limiter_ok l" "limiter_by t l" and t: "t \<le> t'"
  shows "level t' l key \<le> level t l key + refill_over l t t'"
proof (cases "map_of (rl_buckets l) key")
  case None
  then show ?thesis using refill_over_nonneg [OF l(1) t] by (simp add: level_none)
next
  case (Some b)
  have u: "bk_updatedAt b \<le> t" using limiter_entry_by [OF l(2) Some] .
  show ?thesis
    using refill_over_nonneg [OF l(1) t] refill_over_add [of l "bk_updatedAt b" t t']
    unfolding level_some_by [OF Some u] level_some_by [OF Some order_trans [OF u t]] by linarith
qed

lemma granted_level:
  assumes "limiter_ok l" "limiter_by t0 l" "sorted (t0 # map limit_time es)" "\<forall>e\<in>set es. 0 \<le> limit_cost e"
  shows "granted key l es + level (last (t0 # map limit_time es)) (foldl limit_step l es) key \<le>
     level t0 l key + refill_over l t0 (last (t0 # map limit_time es))"
  using assms
proof (induction es arbitrary: l t0)
  case Nil
  then show ?case by (simp add: refill_over_def)
next
  case (Cons e es)
  let ?t = "limit_time e" and ?l = "limit_step l e" and ?last = "last (t0 # map limit_time (e # es))"
  have t: "t0 \<le> ?t" using Cons.prems(3) by simp
  have by': "limiter_by ?t l" using Cons.prems(2) t by (rule limiter_by_later)
  have last': "?last = last (?t # map limit_time es)" by simp
  have step: "granted key l [e] + level ?t ?l key \<le> level ?t l key"
  proof (cases e)
    case (LTake t k cost)
    then have "0 \<le> cost" using Cons.prems(4) by simp
    have "level t ?l key = (if k = key then level t l key - spent_of t l key cost else level t l key)"
      using LTake level_after_take [OF Cons.prems(1) order_refl \<open>0 \<le> cost\<close>, of t key] level_other [of key k]
        level_range [OF Cons.prems(1), of t key] \<open>0 \<le> cost\<close> by (auto simp: spent_of_def min_def)
    then show ?thesis using LTake by (simp add: take_token_ok_iff spent_of_def)
  next
    case (LSweep t)
    then show ?thesis using level_sweep [OF Cons.prems(1), of t t] by simp
  qed
  have "refill_over ?l a b = refill_over l a b" for a b by (simp add: refill_over_def)
  then have "granted key ?l es + level ?last (foldl limit_step ?l es) key \<le> level ?t ?l key + refill_over l ?t ?last"
    using Cons.IH [of ?l ?t] Cons.prems limit_step_ok [of l e] limit_step_by [OF by']
    unfolding last' by simp
  moreover have "level ?t l key \<le> level t0 l key + refill_over l t0 ?t"
    using Cons.prems(1,2) t by (rule level_growth)
  moreover have "refill_over l t0 ?t + refill_over l ?t ?last = refill_over l t0 ?last"
    by (rule refill_over_add)
  moreover have "granted key l (e # es) = granted key l [e] + granted key ?l es" by simp
  ultimately have "granted key l (e # es) + level ?last (foldl limit_step ?l es) key \<le>
      level t0 l key + refill_over l t0 ?last"
    using step by linarith
  then show ?case by (simp only: foldl_Cons)
qed

lemma limiter_new_ok: "0 \<le> c \<Longrightarrow> 0 < r \<Longrightarrow> limiter_ok (limiter_new name c r) \<and> limiter_by t (limiter_new name c r)"
  by (simp add: limiter_ok_def limiter_by_def limiter_new_def)

text \<open>
  C40: The limit is a limit. From an empty limiter, over any sequence of requests and sweeps by any
  keys at times that do not go back, what one key is granted is at most the burst capacity plus the
  refill over the time from the first event to the last.
\<close>
theorem rate_limit_bound:
  assumes "0 \<le> capacity" "0 < refill" "sorted (t0 # map limit_time es)" "\<forall>e\<in>set es. 0 \<le> limit_cost e"
  shows "granted key (limiter_new name capacity refill) es \<le>
     capacity + of_int (last (t0 # map limit_time es) - t0) / 1000 * refill"
proof -
  let ?l = "limiter_new name capacity refill"
  have "limiter_ok (foldl limit_step ?l es)"
    using assms(4) limiter_new_ok [OF assms(1,2), of name] by (induction es rule: rev_induct) (auto simp: limit_step_ok)
  then have "0 \<le> level (last (t0 # map limit_time es)) (foldl limit_step ?l es) key" by (simp add: level_range)
  moreover have "level t0 ?l key = capacity"
    "refill_over ?l t0 (last (t0 # map limit_time es)) = of_int (last (t0 # map limit_time es) - t0) / 1000 * refill"
    by (simp_all add: level_none limiter_new_def refill_over_def)
  ultimately show ?thesis
    using granted_level [OF _ _ assms(3,4), of ?l key] limiter_new_ok [OF assms(1,2), of name t0] by linarith
qed

lemma rate_limit_bound_witness:
  "granted ''a'' (limiter_new ''signed'' 2 1)
     [LTake 0 ''a'' 1, LTake 0 ''a'' 1, LTake 0 ''a'' 1, LTake 10 ''b'' 1, LSweep 500, LTake 1000 ''a'' 1] \<le> 3"
  using rate_limit_bound [of 2 1 0
      "[LTake 0 ''a'' 1, LTake 0 ''a'' 1, LTake 0 ''a'' 1, LTake 10 ''b'' 1, LSweep 500, LTake 1000 ''a'' 1]" "''a''" "''signed''"]
  by simp

text \<open>
  Dropping idle buckets is invisible to callers. A limiter answers every later request, of any
  key and cost, the same whether or not a sweep has run before it.
\<close>
theorem limiter_sweep_invisible:
  assumes "limiter_ok l" "t \<le> t'"
  shows "fst (take_token t' (snd (sweep_buckets t l)) key cost) = fst (take_token t' l key cost)"
  using level_sweep [OF assms, of key] by (simp add: take_token_def level_def Let_def)

lemma limiter_sweep_invisible_witness:
  "fst (take_token 9000 (snd (sweep_buckets 9000 (snd (take_token 0 (limiter_new ''p'' 2 1) ''a'' 1)))) ''a'' 1) =
   fst (take_token 9000 (snd (take_token 0 (limiter_new ''p'' 2 1) ''a'' 1)) ''a'' 1)"
  by (rule limiter_sweep_invisible) (simp_all add: take_token_ok limiter_new_ok)

text \<open>
  The time a refusal names is long enough. A refused caller who waits the whole seconds of
  \<open>retryAfter\<close>, and whose cost does not exceed the capacity, is granted its request when no one else
  spends the key meanwhile.
\<close>
theorem retry_after_suffices:
  assumes "limiter_ok l" "cost \<le> rl_capacity l" "0 \<le> cost"
    and "take_token t l key cost = (d, l')" "\<not> dc_ok d" "t + 1000 * dc_retryAfter d \<le> t'"
  shows "dc_ok (fst (take_token t' l' key cost))"
proof -
  let ?r = "rl_refillPerSecond l"
  have r: "0 < ?r" using assms(1) by (simp add: limiter_ok_def)
  have lt: "level t l key < cost"
    using assms(4,5) take_token_ok_iff [of t l key cost] by simp
  have d: "dc_retryAfter d = max 1 \<lceil>(cost - level t l key) / ?r\<rceil>"
    using assms(4) lt by (auto simp: take_token_def Let_def level_def)
  then have pos: "t \<le> t'" using assms(6) by simp
  have "(cost - level t l key) / ?r \<le> of_int (dc_retryAfter d)"
    unfolding d by (meson le_of_int_ceiling max.cobounded2 of_int_le_iff order_trans)
  also have "of_int (dc_retryAfter d) \<le> (of_int (t' - t) / 1000 :: rat)"
    using assms(6) by (simp add: le_divide_eq)
  finally have "cost - level t l key \<le> of_int (t' - t) / 1000 * ?r"
    using r by (simp add: pos_divide_le_eq)
  moreover have "level t' l' key = min (rl_capacity l) (level t l key + of_int (t' - t) / 1000 * ?r)"
    using level_after_take [OF assms(1) pos assms(3), of key] lt assms(4) by (simp add: spent_of_def)
  ultimately show ?thesis using assms(2) by (simp add: take_token_ok_iff)
qed

lemma retry_after_suffices_witness:
  "dc_ok (fst (take_token 1000 (snd (take_token 0 (snd (take_token 0 (limiter_new ''p'' 1 1) ''a'' 1)) ''a'' 1)) ''a'' 1))"
proof -
  let ?l = "snd (take_token 0 (limiter_new ''p'' 1 1) ''a'' 1)"
  have e: "take_token 0 ?l ''a'' 1 =
      (\<lparr>dc_ok = False, dc_retryAfter = 1, dc_remaining = 0\<rparr>, snd (take_token 0 ?l ''a'' 1))"
    by (simp add: take_token_def refilled_def limiter_new_def Let_def)
  have l: "limiter_ok ?l" by (simp add: take_token_ok limiter_new_ok)
  show ?thesis
    by (rule retry_after_suffices [OF l _ _ e]) (simp_all add: limiter_new_def)
qed

end
