(* ===== verification/Hub_Observed.thy ===== *)
theory Hub_Observed
  imports Js_Text Store_Agents
begin

text \<open>
  Where a request came from: \<open>packages/hub/src/observed.ts\<close>, \<open>observed-config.ts\<close> and the dormancy
  check of \<open>dormancy.ts\<close>.

  The regular expressions are written out: \<open>bracketed\<close> is \<open>[...]\<close> with an optional port,
  \<open>mapped_v4\<close> an IPv4 address in IPv6 form, \<open>v4_prefix\<close> the first three parts of a dotted quad. A
  \<open>Set\<close> of addresses is the list of its members.

  The lemmas: what a peer writes to the left of the chain never changes the observation, a peer
  that is no trusted proxy is observed as itself, and a trusted proxy is never the answer.
\<close>

section \<open>Addresses\<close>

datatype observed_mode = ObsSocket | ObsForwarded

record observed_config =
  oc_mode :: observed_mode
  oc_trustedProxies :: "string list"

definition all_digits :: "string \<Rightarrow> bool" where
  "all_digits s \<longleftrightarrow> s \<noteq> [] \<and> list_all is_digit s"

definition bracketed :: "string \<Rightarrow> string option" where
  "bracketed s =
     (case s of
        [] \<Rightarrow> None
      | c # t \<Rightarrow>
          if c \<noteq> CHR ''['' then None
          else (let inner = takeWhile (\<lambda>x. x \<noteq> CHR '']'') t;
                    rest = dropWhile (\<lambda>x. x \<noteq> CHR '']'') t
                in if inner = [] \<or> rest = [] then None
                   else (case tl rest of
                           [] \<Rightarrow> Some inner
                         | p # port \<Rightarrow> if p = CHR '':'' \<and> all_digits port then Some inner else None)))"

definition octet :: "string \<Rightarrow> bool" where
  "octet s \<longleftrightarrow> all_digits s \<and> length s \<le> 3"

definition dotted_quad :: "string \<Rightarrow> bool" where
  "dotted_quad s \<longleftrightarrow> (let ps = split_on (CHR ''.'') s in length ps = 4 \<and> list_all octet ps)"

definition mapped_v4 :: "string \<Rightarrow> string option" where
  "mapped_v4 s =
     (if toLowerCase (take 7 s) = ''::ffff:'' \<and> dotted_quad (drop 7 s) then Some (drop 7 s) else None)"

definition normalizeAddress :: "string option \<Rightarrow> string option" where
  "normalizeAddress raw =
     (case raw of
        None \<Rightarrow> None
      | Some r \<Rightarrow>
          (let s = trim r
           in if s = [] then None
              else (let s1 = (case bracketed s of
                                Some inner \<Rightarrow> inner
                              | None \<Rightarrow> if length (filter (\<lambda>c. c = CHR '':'') s) = 1 \<and> CHR ''.'' \<in> set s
                                        then hd (split_on (CHR '':'') s) else s);
                        s2 = coalesce (mapped_v4 s1) s1;
                        l = toLowerCase s2
                    in if l = [] then None else Some l)))"

text \<open>The normalised non-empty entries of a comma-separated list, in order.\<close>

definition addresses :: "string \<Rightarrow> string list" where
  "addresses s = List.map_filter (\<lambda>p. normalizeAddress (Some p)) (split_on (CHR '','') s)"

definition readObservedConfig :: "(string \<Rightarrow> string option) \<Rightarrow> observed_config" where
  "readObservedConfig env =
     (let raw = trim (coalesce (env ''AGENT_MESH_TRUSTED_PROXIES'') [])
      in if raw = [] then \<lparr>oc_mode = ObsSocket, oc_trustedProxies = []\<rparr>
         else (let trusted = remdups (List.map_filter (\<lambda>p. normalizeAddress (Some (trim p))) (split_on (CHR '','') raw))
               in if trusted = [] then \<lparr>oc_mode = ObsSocket, oc_trustedProxies = []\<rparr>
                  else \<lparr>oc_mode = ObsForwarded, oc_trustedProxies = trusted\<rparr>))"

section \<open>The observation\<close>

definition observedSource :: "observed_config \<Rightarrow> string option \<Rightarrow> string option \<Rightarrow> string option" where
  "observedSource config socketAddress forwardedFor =
     (let socket = normalizeAddress socketAddress
      in if oc_mode config = ObsSocket then socket
         else (case socket of
                 None \<Rightarrow> None
               | Some peer \<Rightarrow>
                   if peer \<notin> set (oc_trustedProxies config) then socket
                   else find (\<lambda>hop. hop \<notin> set (oc_trustedProxies config))
                          (rev (addresses (coalesce forwardedFor [])))))"

definition v4_prefix :: "string \<Rightarrow> string option" where
  "v4_prefix a =
     (if dotted_quad a then Some (join_with ''.'' (take 3 (split_on (CHR ''.'') a)) @ ''.0/24'') else None)"

text \<open>The text before the first double colon.\<close>

fun before_double_colon :: "string \<Rightarrow> string" where
  "before_double_colon (a # b # s) =
     (if a = CHR '':'' \<and> b = CHR '':'' then [] else a # before_double_colon (b # s))"
| "before_double_colon s = s"

definition prefixOf :: "string option \<Rightarrow> string option" where
  "prefixOf address =
     (case normalizeAddress address of
        None \<Rightarrow> None
      | Some a \<Rightarrow>
          (case v4_prefix a of
             Some p \<Rightarrow> Some p
           | None \<Rightarrow>
               if CHR '':'' \<in> set a then
                 (let groups = filter (\<lambda>g. g \<noteq> []) (split_on (CHR '':'') (before_double_colon a))
                  in if length groups \<ge> 3 then Some (join_with '':'' (take 3 groups) @ ''::/48'')
                     else Some (join_with '':'' (take 3 (groups @ [''0'', ''0'', ''0''])) @ ''::/48''))
               else Some a))"

section \<open>Dormancy\<close>

text \<open>\<open>AGENT_MESH_DORMANCY_SECONDS\<close>; \<open>None\<close> is \<open>NaN\<close>, which no comparison holds of.\<close>

definition DORMANCY_SECONDS :: "(string \<Rightarrow> string option) \<Rightarrow> int option" where
  "DORMANCY_SECONDS env = parseInt (coalesce (env ''AGENT_MESH_DORMANCY_SECONDS'') ''10800'')"

record dormancy_refusal =
  dr_idle_seconds :: int
  dr_dormancy_seconds :: "int option"
  dr_observed_prefix :: "string option"

definition SOURCE_CHANGED :: int where
  "SOURCE_CHANGED = -32017"

definition checkDormantSource ::
  "int option \<Rightarrow> millis \<Rightarrow> agents_db \<Rightarrow> string \<Rightarrow> string \<Rightarrow> string option \<Rightarrow> dormancy_refusal option" where
  "checkDormantSource dormancy now_ms db from_id sentBy observed =
     (if (case dormancy of None \<Rightarrow> False | Some d \<Rightarrow> d \<le> 0) then None
      else if sentBy \<noteq> from_id then None
      else if observed = None \<or> observed = Some [] then None
      else (case lastSendAt db from_id of
              None \<Rightarrow> None
            | Some l \<Rightarrow>
                (let idle_ms = now_ms - 1000 * l
                 in if (case dormancy of None \<Rightarrow> False | Some d \<Rightarrow> idle_ms < 1000 * d) then None
                    else if seenBefore db from_id observed prefixOf then None
                    else Some \<lparr>dr_idle_seconds = idle_ms div 1000, dr_dormancy_seconds = dormancy,
                               dr_observed_prefix = prefixOf observed\<rparr>)))"

definition dormancy_message :: "dormancy_refusal \<Rightarrow> string" where
  "dormancy_message r =
     ''this identity has not sent for '' @ int_text (dr_idle_seconds r) @
     ''s and this request came from a network it has not been seen on; an operator must review it''"

section \<open>What a peer can forge\<close>

lemma map_filter_append: "List.map_filter f (xs @ ys) = List.map_filter f xs @ List.map_filter f ys"
  by (induction xs) (auto simp: List.map_filter_simps split: option.split)

lemma addresses_append: "addresses (a @ CHR '','' # b) = addresses a @ addresses b"
  by (simp add: addresses_def split_on_append map_filter_append)

lemma find_append_Some: "find P xs = Some x \<Longrightarrow> find P (xs @ ys) = Some x"
  by (induction xs) auto

text \<open>
  Entries prepended to the forwarding header change nothing. Whatever a client writes before the
  entries that the proxies append, the observed source is the one the appended entries give.
\<close>
theorem forged_entries_ignored:
  assumes "observedSource config socket (Some appended) = Some source"
  shows "observedSource config socket (Some (forged @ '','' @ appended)) = Some source"
  using assms by (auto simp: observedSource_def Let_def addresses_append find_append_Some
      split: option.splits if_splits)

lemma forged_entries_ignored_witness:
  "observedSource \<lparr>oc_mode = ObsForwarded, oc_trustedProxies = [''10.0.0.1'']\<rparr> (Some ''::ffff:10.0.0.1'')
     (Some (''127.0.0.1'' @ '','' @ '' 203.0.113.9, 10.0.0.1'')) = Some ''203.0.113.9''"
  by (rule forged_entries_ignored) code_simp

text \<open>
  A proxy's address never stands for a client, and a stranger's header is never read. With
  trusted proxies configured the observed source is never one of them; and where the socket's peer
  is not one of them, or none are configured, the observation is the peer itself, whatever the
  header says.
\<close>
theorem observation_is_evidence:
  "(oc_mode config = ObsForwarded \<longrightarrow> observedSource config socket header \<notin> Some ` set (oc_trustedProxies config)) \<and>
   (oc_mode config = ObsSocket \<or> normalizeAddress socket \<notin> Some ` set (oc_trustedProxies config) \<longrightarrow>
      observedSource config socket header = normalizeAddress socket)"
  by (auto simp: observedSource_def Let_def find_Some_iff split: option.splits if_splits
      dest: nth_mem) 

lemma observation_is_evidence_witness:
  "observedSource \<lparr>oc_mode = ObsForwarded, oc_trustedProxies = [''10.0.0.1'']\<rparr> (Some ''198.51.100.7:4411'')
     (Some ''127.0.0.1'') = Some ''198.51.100.7''"
proof -
  have n: "normalizeAddress (Some ''198.51.100.7:4411'') = Some ''198.51.100.7''" by code_simp
  show ?thesis
    using observation_is_evidence [of "\<lparr>oc_mode = ObsForwarded, oc_trustedProxies = [''10.0.0.1'']\<rparr>"
        "Some ''198.51.100.7:4411''" "Some ''127.0.0.1''"] n by simp
qed

section \<open>When a dormant sender is refused\<close>

lemma seenBefore_iff:
  "observed \<noteq> None \<Longrightarrow> observed \<noteq> Some [] \<Longrightarrow>
   seenBefore db i observed g \<longleftrightarrow>
     (\<forall>s\<in>set (db_sources db). so_identity s \<noteq> i) \<or>
     (\<exists>s\<in>set (db_sources db). so_identity s = i \<and> g (Some (so_observed s)) = g observed)"
  by (auto simp: seenBefore_def Let_def sql_where_def filter_empty_conv list_ex_iff split: option.splits)

lemma dormant_refusal_all:
  "checkDormantSource (Some d) now_ms db from_id sentBy observed \<noteq> None \<longleftrightarrow>
     0 < d \<and> sentBy = from_id \<and> observed \<notin> {None, Some []} \<and>
     (\<exists>l. lastSendAt db from_id = Some l \<and> 1000 * d \<le> now_ms - 1000 * l) \<and>
     (\<exists>s\<in>set (db_sources db). so_identity s = from_id) \<and>
     (\<forall>s\<in>set (db_sources db). so_identity s = from_id \<longrightarrow> prefixOf (Some (so_observed s)) \<noteq> prefixOf observed)"
  by (auto simp: checkDormantSource_def Let_def seenBefore_iff split: option.splits)

text \<open>
  The dormancy check refuses in exactly the stated case: the window is on, the sender signs for
  itself, its address was observed, it has sent before and not within the window, it has been seen
  somewhere, and nowhere that it has been seen has the network prefix of this request.
\<close>
theorem dormant_refusal_iff:
  "checkDormantSource (Some d) now_ms db from_id sentBy observed \<noteq> None \<longleftrightarrow>
     0 < d \<and> sentBy = from_id \<and> observed \<notin> {None, Some []} \<and>
     (\<exists>l. lastSendAt db from_id = Some l \<and> 1000 * d \<le> now_ms - 1000 * l) \<and>
     {s \<in> set (db_sources db). so_identity s = from_id} \<noteq> {} \<and>
     prefixOf observed \<notin> (\<lambda>s. prefixOf (Some (so_observed s))) ` {s \<in> set (db_sources db). so_identity s = from_id}"
  unfolding dormant_refusal_all by (fastforce simp: image_iff)

text \<open>A place is refused at most until it has been recorded.\<close>

lemma recorded_place_not_refused:
  "checkDormantSource dormancy now_ms (recordSource t db from_id observed) from_id sentBy observed = None"
  using recordSource_seen [of observed t db from_id prefixOf]
  by (cases "observed = None") (auto simp: checkDormantSource_def Let_def split: option.split)

text \<open>Addresses of one /24 network are one place; an address that is neither form is itself.\<close>

lemma prefixOf_v4:
  "normalizeAddress x = Some a \<Longrightarrow> dotted_quad a \<Longrightarrow>
   prefixOf x = Some (join_with ''.'' (take 3 (split_on (CHR ''.'') a)) @ ''.0/24'')"
  by (simp add: prefixOf_def v4_prefix_def)

lemma prefixOf_other:
  "normalizeAddress x = Some a \<Longrightarrow> \<not> dotted_quad a \<Longrightarrow> CHR '':'' \<notin> set a \<Longrightarrow> prefixOf x = Some a"
  by (simp add: prefixOf_def v4_prefix_def)

end
