(* ===== verification/Hub_Presence.thy ===== *)
theory Hub_Presence
  imports Store_Agents "HOL-Library.AList"
begin

text \<open>
  Who is connected: \<open>packages/hub/src/connection-ownership.ts\<close>, \<open>presence.ts\<close>, \<open>heartbeat.ts\<close> and
  the close handler of \<open>main.ts\<close>.

  A socket is a number, its object identity. The maps of the two modules are one record;
  \<open>onlineAgents\<close>, which the heartbeat iterates, is an association list in insertion order, the
  others are partial maps. A \<open>WeakMap\<close> forgets only sockets that nothing can ask about again.

  The lemmas: proxy routes never outlive their socket, under any operations; while each socket
  speaks for one identity, the maps agree, so an identity has one owner and a closed socket is in
  none of them; and what happens when a socket connects twice.
\<close>

type_synonym socket = nat

record presence =
  ps_online :: "(string \<times> socket) list"
  ps_wsIdentities :: "socket \<rightharpoonup> string"
  ps_proxyMap :: "string \<rightharpoonup> socket"
  ps_wsProxies :: "socket \<rightharpoonup> string list"
  ps_nextGeneration :: nat
  ps_generations :: "socket \<rightharpoonup> nat"
  ps_identities :: "socket \<rightharpoonup> string"
  ps_owners :: "string \<rightharpoonup> socket"

definition presence_new :: presence where
  "presence_new = \<lparr>ps_online = [], ps_wsIdentities = Map.empty, ps_proxyMap = Map.empty,
     ps_wsProxies = Map.empty, ps_nextGeneration = 0, ps_generations = Map.empty,
     ps_identities = Map.empty, ps_owners = Map.empty\<rparr>"

section \<open>Ownership\<close>

definition generationOf :: "presence \<Rightarrow> socket \<Rightarrow> nat \<times> presence" where
  "generationOf p socket =
     (case ps_generations p socket of
        Some known \<Rightarrow> (known, p)
      | None \<Rightarrow>
          (let generation = ps_nextGeneration p + 1
           in (generation, p\<lparr>ps_nextGeneration := generation,
                             ps_generations := (ps_generations p)(socket \<mapsto> generation)\<rparr>)))"

datatype ownership = Granted nat | Conflict nat nat

definition claim_identity :: "presence \<Rightarrow> string \<Rightarrow> socket \<Rightarrow> ownership \<times> presence" where
  "claim_identity p identity socket =
     (let (contenderGeneration, p1) = generationOf p socket
      in case ps_owners p1 identity of
           Some incumbent \<Rightarrow>
             if incumbent \<noteq> socket then
               (let (incumbentGeneration, p2) = generationOf p1 incumbent
                in (Conflict incumbentGeneration contenderGeneration, p2))
             else (Granted contenderGeneration,
                   p1\<lparr>ps_owners := (ps_owners p1)(identity \<mapsto> socket),
                      ps_identities := (ps_identities p1)(socket \<mapsto> identity)\<rparr>)
         | None \<Rightarrow>
             (Granted contenderGeneration,
              p1\<lparr>ps_owners := (ps_owners p1)(identity \<mapsto> socket),
                 ps_identities := (ps_identities p1)(socket \<mapsto> identity)\<rparr>))"

text \<open>An identity of length zero is falsy; \<open>release\<close> treats it as absent.\<close>

definition release :: "presence \<Rightarrow> socket \<Rightarrow> (string \<times> bool) option \<times> presence" where
  "release p socket =
     (case ps_identities p socket of
        None \<Rightarrow> (None, p)
      | Some identity \<Rightarrow>
          if identity = [] then (None, p)
          else (let wasOwner = (ps_owners p identity = Some socket)
                in (Some (identity, wasOwner),
                    p\<lparr>ps_owners := (if wasOwner then (ps_owners p)(identity := None) else ps_owners p),
                      ps_identities := (ps_identities p)(socket := None)\<rparr>)))"

definition owner :: "presence \<Rightarrow> string \<Rightarrow> socket option" where
  "owner p identity = ps_owners p identity"

definition online_socket :: "presence \<Rightarrow> string \<Rightarrow> socket option" where
  "online_socket p identity = map_of (ps_online p) identity"

section \<open>Leaving\<close>

text \<open>The proxied identities that still route to the socket are withdrawn, and its set forgotten.\<close>

definition withdraw_proxies :: "presence \<Rightarrow> socket \<Rightarrow> presence" where
  "withdraw_proxies p ws =
     (case ps_wsProxies p ws of
        None \<Rightarrow> p
      | Some proxied \<Rightarrow>
          p\<lparr>ps_proxyMap := foldl (\<lambda>m pid. if m pid = Some ws then m(pid := None) else m) (ps_proxyMap p) proxied,
            ps_wsProxies := (ps_wsProxies p)(ws := None)\<rparr>)"

text \<open>\<open>released?.wasOwner && onlineAgents.get(identity) === ws\<close>.\<close>

definition leave_online :: "presence \<Rightarrow> socket \<Rightarrow> string \<Rightarrow> presence" where
  "leave_online p ws identity =
     (let (released, p1) = release p ws
      in if map_option snd released = Some True \<and> online_socket p1 identity = Some ws
         then p1\<lparr>ps_online := AList.delete identity (ps_online p1)\<rparr> else p1)"

definition dropConnection :: "presence \<Rightarrow> socket \<Rightarrow> string \<Rightarrow> presence" where
  "dropConnection p ws identity =
     (let p' = withdraw_proxies (leave_online p ws identity) ws
      in p'\<lparr>ps_wsIdentities := (ps_wsIdentities p')(ws := None)\<rparr>)"

text \<open>\<open>UPDATE agents SET last_seen = datetime('now') WHERE identity = ?\<close>.\<close>

definition stmtUpdateLastSeen :: "secs \<Rightarrow> agents_db \<Rightarrow> string \<Rightarrow> agents_db" where
  "stmtUpdateLastSeen t db identity =
     db\<lparr>db_agents := sql_update (\<lambda>a. ag_identity a = identity) (\<lambda>a. a\<lparr>ag_last_seen := Some t\<rparr>) (db_agents db)\<rparr>"

text \<open>The \<open>close\<close> handler of the server, with the heartbeat's waiting set as its third component.\<close>

definition on_close ::
  "secs \<Rightarrow> presence \<times> socket set \<times> agents_db \<Rightarrow> socket \<Rightarrow> presence \<times> socket set \<times> agents_db" where
  "on_close t s ws =
     (case s of (p, awaiting, db) \<Rightarrow>
        (let awaiting1 = awaiting - {ws}
         in case ps_wsIdentities p ws of
              None \<Rightarrow> (p, awaiting1, db)
            | Some identity \<Rightarrow>
                if identity = [] then (p, awaiting1, db)
                else (dropConnection p ws identity, awaiting1, stmtUpdateLastSeen t db identity)))"

section \<open>Connecting\<close>

text \<open>The bookkeeping of \<open>performConnect\<close> after a granted claim.\<close>

definition go_online :: "presence \<Rightarrow> string \<Rightarrow> socket \<Rightarrow> presence" where
  "go_online p identity ws =
     p\<lparr>ps_online := AList.update identity ws (ps_online p),
       ps_wsIdentities := (ps_wsIdentities p)(ws \<mapsto> identity)\<rparr>"

definition grant_proxies :: "presence \<Rightarrow> socket \<Rightarrow> string list \<Rightarrow> presence" where
  "grant_proxies p ws granted =
     (let proxiedSet = coalesce (ps_wsProxies p ws) []
      in p\<lparr>ps_proxyMap := foldl (\<lambda>m pid. m(pid \<mapsto> ws)) (ps_proxyMap p) granted,
           ps_wsProxies := (ps_wsProxies p)(ws \<mapsto> foldl (\<lambda>s pid. if pid \<in> set s then s else s @ [pid]) proxiedSet granted)\<rparr>)"

text \<open>A connect without \<open>proxy_for\<close> leaves the socket's set alone.\<close>

definition declare_proxies :: "presence \<Rightarrow> socket \<Rightarrow> string list option \<Rightarrow> presence" where
  "declare_proxies p ws granted = (case granted of None \<Rightarrow> p | Some g \<Rightarrow> grant_proxies p ws g)"

section \<open>Liveness\<close>

definition alive :: "socket set \<Rightarrow> socket \<Rightarrow> socket set" where
  "alive awaiting socket = awaiting - {socket}"

text \<open>
  One entry of a sweep. \<open>close\<close> may run the close handler at once; the socket has left every map by
  then, so the handler forgets it once more and does nothing else.
\<close>

record sweep_state =
  sw_presence :: presence
  sw_awaiting :: "socket set"
  sw_db :: agents_db
  sw_pinged :: "string list"
  sw_dropped :: "string list"

definition sweep_entry :: "secs \<Rightarrow> sweep_state \<Rightarrow> string \<times> socket \<Rightarrow> sweep_state" where
  "sweep_entry t s e =
     (case e of (identity, socket) \<Rightarrow>
        if socket \<in> sw_awaiting s then
          s\<lparr>sw_db := stmtUpdateLastSeen t (sw_db s) identity,
            sw_presence := dropConnection (sw_presence s) socket identity,
            sw_awaiting := sw_awaiting s - {socket},
            sw_dropped := sw_dropped s @ [identity]\<rparr>
        else
          s\<lparr>sw_awaiting := insert socket (sw_awaiting s), sw_pinged := sw_pinged s @ [identity]\<rparr>)"

definition heartbeat_sweep :: "secs \<Rightarrow> presence \<Rightarrow> socket set \<Rightarrow> agents_db \<Rightarrow> sweep_state" where
  "heartbeat_sweep t p awaiting db =
     foldl (sweep_entry t)
       \<lparr>sw_presence = p, sw_awaiting = awaiting, sw_db = db, sw_pinged = [], sw_dropped = []\<rparr> (ps_online p)"

section \<open>Every operation\<close>

datatype presence_op =
    PConnect string socket "string list option"
  | PClose socket
  | PDrop socket string

fun presence_step :: "presence \<Rightarrow> presence_op \<Rightarrow> presence" where
  "presence_step p (PConnect identity ws granted) =
     (case claim_identity p identity ws of
        (Conflict _ _, p') \<Rightarrow> p'
      | (Granted _, p') \<Rightarrow> declare_proxies (go_online p' identity ws) ws granted)"
| "presence_step p (PClose ws) =
     (case ps_wsIdentities p ws of
        None \<Rightarrow> p | Some identity \<Rightarrow> if identity = [] then p else dropConnection p ws identity)"
| "presence_step p (PDrop ws identity) = dropConnection p ws identity"

lemma on_close_presence: "fst (on_close t (p, aw, db) ws) = presence_step p (PClose ws)"
  by (simp add: on_close_def split: option.split)

subsection \<open>Proxy routes\<close>

definition proxies_ok :: "presence \<Rightarrow> bool" where
  "proxies_ok p \<longleftrightarrow> (\<forall>pid ws. ps_proxyMap p pid = Some ws \<longrightarrow>
     (case ps_wsProxies p ws of None \<Rightarrow> False | Some s \<Rightarrow> pid \<in> set s))"

lemma generationOf_frame [simp]:
  "ps_online (snd (generationOf p s)) = ps_online p" "ps_owners (snd (generationOf p s)) = ps_owners p"
  "ps_identities (snd (generationOf p s)) = ps_identities p"
  "ps_wsIdentities (snd (generationOf p s)) = ps_wsIdentities p"
  "ps_proxyMap (snd (generationOf p s)) = ps_proxyMap p"
  "ps_wsProxies (snd (generationOf p s)) = ps_wsProxies p"
  by (simp_all add: generationOf_def Let_def split: option.split)

lemma claim_frame [simp]:
  "ps_online (snd (claim_identity p i s)) = ps_online p"
  "ps_wsIdentities (snd (claim_identity p i s)) = ps_wsIdentities p"
  "ps_proxyMap (snd (claim_identity p i s)) = ps_proxyMap p"
  "ps_wsProxies (snd (claim_identity p i s)) = ps_wsProxies p"
  by (simp_all add: claim_identity_def Let_def case_prod_beta split: option.split)

lemma claim_granted_iff:
  "(\<exists>g. fst (claim_identity p i s) = Granted g) \<longleftrightarrow> ps_owners p i = None \<or> ps_owners p i = Some s"
  by (auto simp: claim_identity_def Let_def case_prod_beta split: option.split)

lemma claim_maps:
  "ps_owners (snd (claim_identity p i s)) =
     (if ps_owners p i = None \<or> ps_owners p i = Some s then (ps_owners p)(i \<mapsto> s) else ps_owners p)"
  "ps_identities (snd (claim_identity p i s)) =
     (if ps_owners p i = None \<or> ps_owners p i = Some s then (ps_identities p)(s \<mapsto> i) else ps_identities p)"
  by (auto simp: claim_identity_def Let_def case_prod_beta split: option.split)

lemma foldl_upd:
  "foldl (\<lambda>m x. m(x \<mapsto> w)) m xs = (\<lambda>pid. if pid \<in> set xs then Some w else m pid)"
  by (induction xs arbitrary: m) (auto simp: fun_eq_iff)

lemma set_add_all: "set (foldl (\<lambda>s pid. if pid \<in> set s then s else s @ [pid]) s xs) = set s \<union> set xs"
  by (induction xs arbitrary: s) auto

lemma grant_proxies_ok: "proxies_ok p \<Longrightarrow> proxies_ok (grant_proxies p ws granted)"
  unfolding proxies_ok_def
proof (intro allI impI)
  fix pid w
  assume p: "\<forall>pid ws. ps_proxyMap p pid = Some ws \<longrightarrow> (case ps_wsProxies p ws of None \<Rightarrow> False | Some s \<Rightarrow> pid \<in> set s)"
    and w: "ps_proxyMap (grant_proxies p ws granted) pid = Some w"
  show "case ps_wsProxies (grant_proxies p ws granted) w of None \<Rightarrow> False | Some s \<Rightarrow> pid \<in> set s"
  proof (cases "pid \<in> set granted")
    case True
    with w show ?thesis by (auto simp: grant_proxies_def Let_def foldl_upd set_add_all)
  next
    case False
    with w have "ps_proxyMap p pid = Some w" by (simp add: grant_proxies_def Let_def foldl_upd)
    with p have "case ps_wsProxies p w of None \<Rightarrow> False | Some s \<Rightarrow> pid \<in> set s" by blast
    then show ?thesis by (auto simp: grant_proxies_def Let_def set_add_all split: option.splits)
  qed
qed

lemma declare_proxies_ok: "proxies_ok p \<Longrightarrow> proxies_ok (declare_proxies p ws granted)"
  by (simp add: declare_proxies_def grant_proxies_ok split: option.split)

lemma foldl_withdraw:
  "foldl (\<lambda>m pid. if m pid = Some ws then m(pid := None) else m) m xs =
     (\<lambda>pid. if pid \<in> set xs \<and> m pid = Some ws then None else m pid)"
  by (induction xs arbitrary: m) (auto simp: fun_eq_iff)

lemma withdraw_proxies_map:
  "proxies_ok p \<Longrightarrow>
   ps_proxyMap (withdraw_proxies p ws) = (\<lambda>pid. if ps_proxyMap p pid = Some ws then None else ps_proxyMap p pid)"
  by (force simp: withdraw_proxies_def foldl_withdraw proxies_ok_def fun_eq_iff split: option.split)

lemma withdraw_proxies_frame [simp]:
  "ps_online (withdraw_proxies p ws) = ps_online p" "ps_owners (withdraw_proxies p ws) = ps_owners p"
  "ps_identities (withdraw_proxies p ws) = ps_identities p"
  "ps_wsIdentities (withdraw_proxies p ws) = ps_wsIdentities p"
  by (simp_all add: withdraw_proxies_def split: option.split)

lemma withdraw_proxies_ok: "proxies_ok p \<Longrightarrow> proxies_ok (withdraw_proxies p ws)"
proof -
  assume p: "proxies_ok p"
  have "ps_wsProxies (withdraw_proxies p ws) w = ps_wsProxies p w" if "w \<noteq> ws" for w
    using that by (simp add: withdraw_proxies_def split: option.split)
  then show ?thesis
    using p unfolding proxies_ok_def withdraw_proxies_map [OF p] by (metis option.distinct(1))
qed

lemma release_frame [simp]:
  "ps_online (snd (release p s)) = ps_online p" "ps_wsIdentities (snd (release p s)) = ps_wsIdentities p"
  "ps_proxyMap (snd (release p s)) = ps_proxyMap p" "ps_wsProxies (snd (release p s)) = ps_wsProxies p"
  by (simp_all add: release_def Let_def split: option.split)

lemma leave_online_frame [simp]:
  "ps_wsIdentities (leave_online p ws i) = ps_wsIdentities p"
  "ps_proxyMap (leave_online p ws i) = ps_proxyMap p" "ps_wsProxies (leave_online p ws i) = ps_wsProxies p"
  "ps_owners (leave_online p ws i) = ps_owners (snd (release p ws))"
  "ps_identities (leave_online p ws i) = ps_identities (snd (release p ws))"
  by (simp_all add: leave_online_def Let_def case_prod_beta)

lemma leave_online_proxies [simp]: "proxies_ok (leave_online p ws i) = proxies_ok p"
  by (simp add: proxies_ok_def)

lemma drop_proxyMap:
  "proxies_ok p \<Longrightarrow>
   ps_proxyMap (dropConnection p ws i) = (\<lambda>pid. if ps_proxyMap p pid = Some ws then None else ps_proxyMap p pid)"
  by (auto simp: dropConnection_def Let_def withdraw_proxies_map)

lemma drop_proxies_ok: "proxies_ok p \<Longrightarrow> proxies_ok (dropConnection p ws i)"
  using withdraw_proxies_ok [of "leave_online p ws i" ws]
  by (simp add: dropConnection_def Let_def proxies_ok_def)

lemma presence_step_proxies: "proxies_ok p \<Longrightarrow> proxies_ok (presence_step p op)"
proof (cases op)
  case (PConnect i ws g)
  assume p: "proxies_ok p"
  have "proxies_ok (go_online (snd (claim_identity p i ws)) i ws)" "proxies_ok (snd (claim_identity p i ws))"
    using p by (simp_all add: proxies_ok_def go_online_def)
  then show ?thesis
    unfolding PConnect by (auto simp: case_prod_beta declare_proxies_ok split: ownership.split)
qed (auto simp: drop_proxies_ok split: option.split)

interpretation presence: machine presence_step proxies_ok
  by unfold_locales (rule presence_step_proxies)

definition presence_run :: "presence_op list \<Rightarrow> presence" where
  "presence_run ops = foldl presence_step presence_new ops"

lemma presence_run_proxies: "proxies_ok (presence_run ops)"
  unfolding presence_run_def by (rule presence.run_invar) (simp add: proxies_ok_def presence_new_def)

text \<open>
  No proxy route outlives its socket. After any sequence of connects, closes and drops, dropping
  a socket leaves no proxied identity routed to it, and leaves every route to another socket as it
  was, including one that took the identity over meanwhile.
\<close>
theorem drop_withdraws_proxy_routes:
  "ps_proxyMap (presence_run (ops @ [PDrop ws i])) =
     (\<lambda>pid. if ps_proxyMap (presence_run ops) pid = Some ws then None else ps_proxyMap (presence_run ops) pid)"
  using drop_proxyMap [OF presence_run_proxies] by (simp add: presence_run_def)

subsection \<open>One identity per socket\<close>

text \<open>
  The states that arise while every socket speaks for one identity, and is dropped under it. The
  identity of a connect is a non-empty string, which \<open>performConnect\<close> checks.
\<close>

inductive wire :: "presence \<Rightarrow> bool" where
  wire_new: "wire presence_new"
| wire_connect: "wire p \<Longrightarrow> i \<noteq> [] \<Longrightarrow> ps_wsIdentities p ws = None \<or> ps_wsIdentities p ws = Some i \<Longrightarrow>
    wire (presence_step p (PConnect i ws granted))"
| wire_close: "wire p \<Longrightarrow> wire (presence_step p (PClose ws))"
| wire_drop: "wire p \<Longrightarrow> ps_wsIdentities p ws = None \<or> ps_wsIdentities p ws = Some i \<Longrightarrow>
    wire (presence_step p (PDrop ws i))"

definition wired :: "presence \<Rightarrow> bool" where
  "wired p \<longleftrightarrow> ps_wsIdentities p = ps_identities p \<and> online_socket p = ps_owners p \<and>
     distinct (map fst (ps_online p)) \<and>
     (\<forall>i w. ps_owners p i = Some w \<longleftrightarrow> ps_identities p w = Some i) \<and>
     (\<forall>w. ps_identities p w \<noteq> Some []) \<and>
     (\<forall>w. ps_wsProxies p w \<noteq> None \<longrightarrow> ps_identities p w \<noteq> None)"

lemma wiredI:
  assumes "ps_wsIdentities p = ps_identities p" "online_socket p = ps_owners p" "distinct (map fst (ps_online p))"
    and "\<And>i w. ps_owners p i = Some w \<longleftrightarrow> ps_identities p w = Some i"
    and "\<And>w. ps_identities p w \<noteq> Some []" "\<And>w. ps_wsProxies p w \<noteq> None \<Longrightarrow> ps_identities p w \<noteq> None"
  shows "wired p"
  unfolding wired_def using assms by (intro conjI allI impI)

lemma online_socket_eq: "online_socket p = map_of (ps_online p)"
  by (simp add: fun_eq_iff online_socket_def)

lemma connect_cases:
  "presence_step p (PConnect i ws g) =
     (if ps_owners p i = None \<or> ps_owners p i = Some ws
      then declare_proxies (go_online (snd (claim_identity p i ws)) i ws) ws g
      else snd (claim_identity p i ws))"
proof (cases "fst (claim_identity p i ws)")
  case (Granted n)
  then show ?thesis using claim_granted_iff [of p i ws] by (auto simp: case_prod_beta)
next
  case (Conflict a b)
  then show ?thesis using claim_granted_iff [of p i ws] by (auto simp: case_prod_beta)
qed

lemma declare_proxies_frame [simp]:
  "ps_online (declare_proxies p ws g) = ps_online p" "ps_owners (declare_proxies p ws g) = ps_owners p"
  "ps_identities (declare_proxies p ws g) = ps_identities p"
  "ps_wsIdentities (declare_proxies p ws g) = ps_wsIdentities p"
  "ps_wsProxies (declare_proxies p ws g) w = None \<longleftrightarrow> ps_wsProxies p w = None \<and> (w \<noteq> ws \<or> g = None)"
  by (auto simp: declare_proxies_def grant_proxies_def Let_def split: option.split)

lemma wired_connect:
  assumes "wired p" "i \<noteq> []" "ps_wsIdentities p ws = None \<or> ps_wsIdentities p ws = Some i"
  shows "wired (presence_step p (PConnect i ws g))"
proof (cases "ps_owners p i = None \<or> ps_owners p i = Some ws")
  case False
  have "presence_step p (PConnect i ws g) = snd (claim_identity p i ws)"
    unfolding connect_cases by (simp only: if_not_P [OF False])
  moreover have "ps_owners (snd (claim_identity p i ws)) = ps_owners p"
    "ps_identities (snd (claim_identity p i ws)) = ps_identities p"
    by (simp_all only: claim_maps if_not_P [OF False])
  ultimately show ?thesis
    using assms(1) by (simp add: wired_def online_socket_eq del: presence_step.simps)
next
  case True
  let ?p = "presence_step p (PConnect i ws g)"
  have w: "ps_wsIdentities p = ps_identities p" "map_of (ps_online p) = ps_owners p"
    "distinct (map fst (ps_online p))" "\<And>w. ps_identities p w \<noteq> Some []"
    "\<And>j w. ps_owners p j = Some w \<longleftrightarrow> ps_identities p w = Some j"
    "\<And>w. ps_wsProxies p w \<noteq> None \<Longrightarrow> ps_identities p w \<noteq> None"
    using assms(1) by (simp_all add: wired_def online_socket_eq)
  have s: "?p = declare_proxies (go_online (snd (claim_identity p i ws)) i ws) ws g"
    unfolding connect_cases by (rule if_P [OF True])
  have c: "ps_owners (snd (claim_identity p i ws)) = (ps_owners p)(i \<mapsto> ws)"
    "ps_identities (snd (claim_identity p i ws)) = (ps_identities p)(ws \<mapsto> i)"
    by (simp_all only: claim_maps if_P [OF True])
  have e: "ps_wsIdentities ?p = (ps_identities p)(ws \<mapsto> i)" "ps_identities ?p = (ps_identities p)(ws \<mapsto> i)"
    "ps_owners ?p = (ps_owners p)(i \<mapsto> ws)" "ps_online ?p = AList.update i ws (ps_online p)"
    "\<And>w. ps_wsProxies ?p w = None \<longleftrightarrow> ps_wsProxies p w = None \<and> (w \<noteq> ws \<or> g = None)"
    unfolding s by (simp_all add: go_online_def c w(1))
  have own: "ps_identities p ws = None \<or> ps_identities p ws = Some i" using assms(3) w(1) by simp
  have only: "w = ws" if "ps_identities p w = Some i" for w
    using True w(5) that by (metis option.distinct(1) option.inject)
  have m: "((ps_owners p)(i \<mapsto> ws)) j = Some w \<longleftrightarrow> ((ps_identities p)(ws \<mapsto> i)) w = Some j" for j w
  proof (cases "w = ws")
    case True
    then show ?thesis using w(5) [of j ws] own by (cases "j = i") auto
  next
    case False
    then show ?thesis using w(5) [of j w] only [of w] by (cases "j = i") auto
  qed
  show ?thesis
  proof (rule wiredI)
    show "online_socket ?p = ps_owners ?p" unfolding online_socket_eq e by (simp only: update_conv' w(2))
    show "distinct (map fst (ps_online ?p))" unfolding e using w(3) by (rule distinct_update)
    show "ps_identities ?p w \<noteq> Some []" for w unfolding e using w(4) assms(2) by simp
    show "ps_wsProxies ?p w' \<noteq> None \<Longrightarrow> ps_identities ?p w' \<noteq> None" for w'
      using w(6) [of w'] unfolding e by (cases "w' = ws") simp_all
    show "ps_owners ?p j = Some w' \<longleftrightarrow> ps_identities ?p w' = Some j" for j w' unfolding e by (rule m)
  qed (simp only: e)
qed

lemma drop_none:
  assumes "wired p" "ps_wsIdentities p ws = None"
  shows "dropConnection p ws i = p"
proof -
  have n: "ps_identities p ws = None" "ps_wsProxies p ws = None" using assms by (auto simp: wired_def)
  have "(ps_wsIdentities p)(ws := None) = ps_wsIdentities p" using assms(2) by auto
  with n show ?thesis
    by (simp add: dropConnection_def leave_online_def withdraw_proxies_def release_def)
qed

lemma release_own:
  "ps_identities p ws = Some i \<Longrightarrow> i \<noteq> [] \<Longrightarrow> ps_owners p i = Some ws \<Longrightarrow>
   release p ws = (Some (i, True),
     p\<lparr>ps_owners := (ps_owners p)(i := None), ps_identities := (ps_identities p)(ws := None)\<rparr>)"
  by (simp add: release_def)

lemma drop_own:
  assumes "wired p" "ps_wsIdentities p ws = Some i"
  shows "ps_owners (dropConnection p ws i) = (ps_owners p)(i := None)"
    "ps_identities (dropConnection p ws i) = (ps_identities p)(ws := None)"
    "ps_wsIdentities (dropConnection p ws i) = (ps_wsIdentities p)(ws := None)"
    "ps_online (dropConnection p ws i) = AList.delete i (ps_online p)"
    "ps_wsProxies (dropConnection p ws i) = (ps_wsProxies p)(ws := None)"
proof -
  have o': "ps_identities p ws = Some i" "i \<noteq> []" "ps_owners p i = Some ws" "online_socket p i = Some ws"
    using assms by (auto simp: wired_def)
  note r = release_own [OF o'(1-3)]
  have on: "ps_online (leave_online p ws i) = AList.delete i (ps_online p)"
    using o'(4) unfolding leave_online_def r Let_def prod.case by (simp add: online_socket_def)
  show "ps_owners (dropConnection p ws i) = (ps_owners p)(i := None)"
    "ps_identities (dropConnection p ws i) = (ps_identities p)(ws := None)"
    "ps_wsIdentities (dropConnection p ws i) = (ps_wsIdentities p)(ws := None)"
    "ps_online (dropConnection p ws i) = AList.delete i (ps_online p)"
    "ps_wsProxies (dropConnection p ws i) = (ps_wsProxies p)(ws := None)"
    using on by (auto simp: dropConnection_def Let_def r withdraw_proxies_def fun_eq_iff split: option.split)
qed

lemma wired_drop:
  assumes "wired p" "ps_wsIdentities p ws = None \<or> ps_wsIdentities p ws = Some i"
  shows "wired (dropConnection p ws i)"
proof (cases "ps_wsIdentities p ws")
  case None
  then show ?thesis using assms drop_none by simp
next
  case (Some j)
  with assms have i: "ps_wsIdentities p ws = Some i" by simp
  note d = drop_own [OF assms(1) i]
  have o1: "ps_owners p j = Some w \<longleftrightarrow> ps_identities p w = Some j" for j w
    using assms(1) by (simp add: wired_def)
  have o2: "ps_identities p ws = Some i" using assms(1) i by (simp add: wired_def)
  have only: "w = ws" if "ps_identities p w = Some i" for w
    using o1 o2 that by (metis option.inject)
  have w: "ps_wsIdentities p = ps_identities p" "map_of (ps_online p) = ps_owners p"
    "distinct (map fst (ps_online p))" "\<And>w. ps_identities p w \<noteq> Some []"
    "\<And>w. ps_wsProxies p w \<noteq> None \<Longrightarrow> ps_identities p w \<noteq> None"
    using assms(1) by (simp_all add: wired_def online_socket_eq)
  show ?thesis
  proof (rule wiredI)
    show "online_socket (dropConnection p ws i) = ps_owners (dropConnection p ws i)"
      by (simp add: online_socket_eq d(1,4) delete_conv' w(2))
    show "distinct (map fst (ps_online (dropConnection p ws i)))"
      unfolding d using w(3) by (rule distinct_delete)
    show "ps_identities (dropConnection p ws i) w' \<noteq> Some []" for w' unfolding d using w(4) by simp
    show "ps_wsProxies (dropConnection p ws i) w' \<noteq> None \<Longrightarrow> ps_identities (dropConnection p ws i) w' \<noteq> None" for w'
      using w(5) [of w'] unfolding d by (cases "w' = ws") simp_all
    show "ps_owners (dropConnection p ws i) j = Some w' \<longleftrightarrow> ps_identities (dropConnection p ws i) w' = Some j" for j w'
    proof (cases "w' = ws")
      case True
      have "j \<noteq> i \<Longrightarrow> ps_owners p j \<noteq> Some ws" unfolding o1 o2 by simp
      then show ?thesis unfolding d True by auto
    next
      case False
      have "ps_identities p w' \<noteq> Some i" using only False by blast
      then show ?thesis using False unfolding d by (cases "j = i") (simp_all add: o1)
    qed
  qed (simp only: d w(1))
qed

lemma wire_wired: "wire p \<Longrightarrow> wired p"
proof (induction rule: wire.induct)
  case wire_new
  then show ?case by (simp add: wired_def presence_new_def online_socket_def fun_eq_iff)
next
  case (wire_connect p i ws granted)
  then show ?case using wired_connect by blast
next
  case (wire_close p ws)
  then show ?case using wired_drop by (auto split: option.split)
next
  case (wire_drop p ws i)
  then show ?case using wired_drop by simp
qed

lemma wire_proxies: "wire p \<Longrightarrow> proxies_ok p"
proof (induction rule: wire.induct)
  case wire_new
  then show ?case by (simp add: proxies_ok_def presence_new_def)
qed (rule presence_step_proxies, assumption)+

text \<open>
  While sockets speak for one identity each, a closed socket is nowhere. After the close handler
  has run the socket owns no identity, is online for none, is named by no map and carries no proxy
  route; every other identity is online where it was.
\<close>
theorem closed_socket_leaves_nothing:
  assumes "wire p"
  shows "owner (presence_step p (PClose ws)) i \<noteq> Some ws \<and>
     online_socket (presence_step p (PClose ws)) i = (if online_socket p i = Some ws then None else online_socket p i) \<and>
     ps_wsIdentities (presence_step p (PClose ws)) ws = None \<and>
     ps_proxyMap (presence_step p (PClose ws)) pid \<noteq> Some ws"
proof (cases "ps_wsIdentities p ws")
  case None
  have "ps_wsProxies p ws = None" using wire_wired [OF assms] None by (auto simp: wired_def)
  then have "ps_proxyMap p pid \<noteq> Some ws"
    using wire_proxies [OF assms, unfolded proxies_ok_def, rule_format, of pid ws] by auto
  moreover have "ps_owners p i \<noteq> Some ws" using wire_wired [OF assms] None by (auto simp: wired_def)
  ultimately show ?thesis using None wire_wired [OF assms] by (simp add: owner_def wired_def)
next
  case (Some j)
  note w = wire_wired [OF assms]
  have j: "j \<noteq> []" "\<And>k. ps_owners p k = Some ws \<longleftrightarrow> k = j" "\<And>k. online_socket p k = ps_owners p k"
    using w Some by (auto simp: wired_def)
  have "online_socket (dropConnection p ws j) i = ((ps_owners p)(j := None)) i"
    using j(3) by (simp add: online_socket_def drop_own(4) [OF w Some] delete_conv')
  then show ?thesis
    using Some j drop_own(1,3) [OF w Some] drop_proxyMap [OF wire_proxies [OF assms], of ws j]
    by (auto simp: owner_def)
qed

lemma closed_socket_leaves_nothing_witness:
  "online_socket (presence_step (presence_step presence_new (PConnect ''http'' 3 (Some [''kim'']))) (PClose 3)) ''http'' \<noteq> Some 3"
proof -
  have "wire (presence_step presence_new (PConnect ''http'' 3 (Some [''kim''])))"
    by (rule wire_connect [OF wire_new]) (simp_all add: presence_new_def)
  from closed_socket_leaves_nothing [OF this, of 3 "''http''"] show ?thesis by (simp split: if_splits)
qed

text \<open>
  A live owner is never evicted. While an identity is owned by a socket, a connect of it on any
  other socket is refused and changes nothing but the counter of connection generations.
\<close>
theorem incumbent_is_never_evicted:
  assumes "owner p i = Some ws" "ws' \<noteq> ws"
  shows "fst (claim_identity p i ws') =
       Conflict (fst (generationOf (snd (generationOf p ws')) ws)) (fst (generationOf p ws')) \<and>
     ps_online (presence_step p (PConnect i ws' g)) = ps_online p \<and>
     ps_owners (presence_step p (PConnect i ws' g)) = ps_owners p \<and>
     ps_identities (presence_step p (PConnect i ws' g)) = ps_identities p \<and>
     ps_wsIdentities (presence_step p (PConnect i ws' g)) = ps_wsIdentities p \<and>
     ps_proxyMap (presence_step p (PConnect i ws' g)) = ps_proxyMap p"
  using assms unfolding connect_cases
  by (simp add: owner_def claim_maps) (simp add: claim_identity_def case_prod_beta Let_def)

lemma incumbent_is_never_evicted_witness:
  "ps_owners (presence_step (presence_run [PConnect ''codex'' 1 None]) (PConnect ''codex'' 2 None)) =
   ps_owners (presence_run [PConnect ''codex'' 1 None])"
proof -
  have "owner (presence_run [PConnect ''codex'' 1 None]) ''codex'' = Some 1" by code_simp
  from incumbent_is_never_evicted [OF this, of 2 None] show ?thesis by simp
qed

subsection \<open>One sweep of the heartbeat\<close>

lemma wired_online:
  assumes "wired p" "(i, w) \<in> set (ps_online p)"
  shows "online_socket p i = Some w" "ps_wsIdentities p w = Some i"
proof -
  have "distinct (map fst (ps_online p))" using assms(1) by (simp add: wired_def)
  from map_of_is_SomeI [OF this assms(2)] show o': "online_socket p i = Some w"
    by (simp add: online_socket_def)
  have "ps_owners p i = Some w" using assms(1) o' by (simp add: wired_def)
  then show "ps_wsIdentities p w = Some i" using assms(1) by (simp add: wired_def)
qed

lemma wired_online_sockets: "wired p \<Longrightarrow> distinct (map snd (ps_online p))"
proof -
  assume p: "wired p"
  then have "distinct (ps_online p)" by (simp add: wired_def distinct_map)
  moreover have "inj_on snd (set (ps_online p))"
  proof (rule inj_onI)
    fix x y
    assume "x \<in> set (ps_online p)" "y \<in> set (ps_online p)" "snd x = snd y"
    then show "x = y"
      using wired_online(2) [OF p] by (metis option.inject prod.collapse)
  qed
  ultimately show ?thesis by (simp add: distinct_map)
qed

lemma online_after_drop:
  assumes "wired p" "ps_wsIdentities p w = Some i"
  shows "online_socket (dropConnection p w i) j = (if j = i then None else online_socket p j)"
  by (simp add: online_socket_def drop_own(4) [OF assms] delete_conv')

lemma sweep_entries:
  assumes "wired (sw_presence s)" "distinct (map snd es)" "distinct (map fst es)"
    and "\<And>i w. (i, w) \<in> set es \<Longrightarrow> online_socket (sw_presence s) i = Some w"
    and "\<And>i w. (i, w) \<in> set es \<Longrightarrow> w \<in> sw_awaiting s \<longleftrightarrow> w \<in> aw"
  shows "sw_dropped (foldl (sweep_entry t) s es) = sw_dropped s @ map fst (filter (\<lambda>(i, w). w \<in> aw) es) \<and>
    sw_pinged (foldl (sweep_entry t) s es) = sw_pinged s @ map fst (filter (\<lambda>(i, w). w \<notin> aw) es) \<and>
    online_socket (sw_presence (foldl (sweep_entry t) s es)) j =
       (if \<exists>w. (j, w) \<in> set es \<and> w \<in> aw then None else online_socket (sw_presence s) j) \<and>
    sw_awaiting (foldl (sweep_entry t) s es) =
       (sw_awaiting s - {w \<in> snd ` set es. w \<in> aw}) \<union> {w \<in> snd ` set es. w \<notin> aw}"
  using assms
proof (induction es arbitrary: s)
  case (Cons e es)
  obtain i w where e: "e = (i, w)" by force
  let ?s = "sweep_entry t s e"
  have on: "online_socket (sw_presence s) i = Some w" using Cons.prems(4) e by simp
  have id: "ps_wsIdentities (sw_presence s) w = Some i" using Cons.prems(1) on by (auto simp: wired_def)
  have aw: "w \<in> sw_awaiting s \<longleftrightarrow> w \<in> aw" by (rule Cons.prems(5) [of i]) (simp add: e)
  have new: "i \<notin> fst ` set es" "w \<notin> snd ` set es" using Cons.prems(2,3) e by simp_all
  have p: "sw_presence ?s = (if w \<in> aw then dropConnection (sw_presence s) w i else sw_presence s)"
    "sw_awaiting ?s = (if w \<in> aw then sw_awaiting s - {w} else insert w (sw_awaiting s))"
    "sw_dropped ?s = (if w \<in> aw then sw_dropped s @ [i] else sw_dropped s)"
    "sw_pinged ?s = (if w \<in> aw then sw_pinged s else sw_pinged s @ [i])"
    using aw by (simp_all add: sweep_entry_def e)
  have w1: "wired (sw_presence ?s)" using Cons.prems(1) wired_drop [OF Cons.prems(1), of w i] id by (simp add: p(1))
  have on1: "online_socket (sw_presence ?s) j = (if j = i \<and> w \<in> aw then None else online_socket (sw_presence s) j)" for j
    using online_after_drop [OF Cons.prems(1) id] by (simp add: p(1))
  have d: "distinct (map snd es)" "distinct (map fst es)" using Cons.prems(2,3) by simp_all
  have on2: "online_socket (sw_presence ?s) k = Some v" if "(k, v) \<in> set es" for k v
    using that new(1) Cons.prems(4) [of k v] by (force simp: on1)
  have aw2: "v \<in> sw_awaiting ?s \<longleftrightarrow> v \<in> aw" if "(k, v) \<in> set es" for k v
    using that new(2) Cons.prems(5) [of k v] by (force simp: p(2))
  have H: "sw_dropped (foldl (sweep_entry t) ?s es) = sw_dropped ?s @ map fst (filter (\<lambda>(i, w). w \<in> aw) es) \<and>
    sw_pinged (foldl (sweep_entry t) ?s es) = sw_pinged ?s @ map fst (filter (\<lambda>(i, w). w \<notin> aw) es) \<and>
    online_socket (sw_presence (foldl (sweep_entry t) ?s es)) j =
       (if \<exists>w. (j, w) \<in> set es \<and> w \<in> aw then None else online_socket (sw_presence ?s) j) \<and>
    sw_awaiting (foldl (sweep_entry t) ?s es) =
       (sw_awaiting ?s - {w \<in> snd ` set es. w \<in> aw}) \<union> {w \<in> snd ` set es. w \<notin> aw}"
    by (rule Cons.IH [OF w1 d]) (erule on2, erule aw2)
  note IH = H [THEN conjunct1] H [THEN conjunct2, THEN conjunct1]
    H [THEN conjunct2, THEN conjunct2, THEN conjunct1] H [THEN conjunct2, THEN conjunct2, THEN conjunct2]
  have "sw_dropped (foldl (sweep_entry t) s (e # es)) = sw_dropped s @ map fst (filter (\<lambda>(i, w). w \<in> aw) (e # es))"
    using IH(1) p(3) by (simp add: e)
  moreover have "sw_pinged (foldl (sweep_entry t) s (e # es)) = sw_pinged s @ map fst (filter (\<lambda>(i, w). w \<notin> aw) (e # es))"
    using IH(2) p(4) by (simp add: e)
  moreover have "online_socket (sw_presence (foldl (sweep_entry t) s (e # es))) j =
     (if \<exists>w. (j, w) \<in> set (e # es) \<and> w \<in> aw then None else online_socket (sw_presence s) j)"
    using IH(3) on1 [of j] by (auto simp: e)
  moreover have "sw_awaiting (foldl (sweep_entry t) s (e # es)) =
     (sw_awaiting s - {w \<in> snd ` set (e # es). w \<in> aw}) \<union> {w \<in> snd ` set (e # es). w \<notin> aw}"
    using IH(4) p(2) new(2) by (auto simp: e)
  ultimately show ?case by blast
qed simp

text \<open>
  A heartbeat sweep drops exactly the silent. Of the identities online when it starts, those
  whose socket was pinged before and has not been heard from are dropped, in order, and are online no
  more; every other one is pinged, stays online, and is the one that the next sweep will judge.
\<close>
theorem heartbeat_sweep_exact:
  assumes "wire p"
  shows "sw_dropped (heartbeat_sweep t p awaiting db) = map fst (filter (\<lambda>(i, w). w \<in> awaiting) (ps_online p)) \<and>
     sw_pinged (heartbeat_sweep t p awaiting db) = map fst (filter (\<lambda>(i, w). w \<notin> awaiting) (ps_online p)) \<and>
     online_socket (sw_presence (heartbeat_sweep t p awaiting db)) i =
       (case online_socket p i of None \<Rightarrow> None | Some w \<Rightarrow> if w \<in> awaiting then None else Some w) \<and>
     sw_awaiting (heartbeat_sweep t p awaiting db) \<inter> snd ` set (ps_online p) =
       {w \<in> snd ` set (ps_online p). w \<notin> awaiting}"
proof -
  have w: "wired p" using assms by (rule wire_wired)
  let ?s = "\<lparr>sw_presence = p, sw_awaiting = awaiting, sw_db = db, sw_pinged = [], sw_dropped = []\<rparr>"
  have d: "distinct (map snd (ps_online p))" "distinct (map fst (ps_online p))"
    using wired_online_sockets [OF w] w by (simp_all add: wired_def)
  have "wired (sw_presence ?s)" using w by simp
  note S = sweep_entries [OF this d, of awaiting t i, simplified, OF wired_online(1) [OF w]]
  have "(\<exists>v. (i, v) \<in> set (ps_online p) \<and> v \<in> awaiting) \<longleftrightarrow> (\<exists>v. online_socket p i = Some v \<and> v \<in> awaiting)"
    using d(2) by (auto simp: online_socket_eq)
  then have "online_socket (sw_presence (heartbeat_sweep t p awaiting db)) i =
       (case online_socket p i of None \<Rightarrow> None | Some w \<Rightarrow> if w \<in> awaiting then None else Some w)"
    using S unfolding heartbeat_sweep_def by (auto split: option.split)
  moreover have "sw_awaiting (heartbeat_sweep t p awaiting db) =
      (awaiting - {w \<in> snd ` set (ps_online p). w \<in> awaiting}) \<union> {w \<in> snd ` set (ps_online p). w \<notin> awaiting}"
    using S unfolding heartbeat_sweep_def by blast
  ultimately show ?thesis
    using S unfolding heartbeat_sweep_def by blast
qed

lemma heartbeat_sweep_exact_witness:
  "sw_dropped (heartbeat_sweep 5 (presence_step (presence_step presence_new (PConnect ''a'' 1 None)) (PConnect ''b'' 2 None))
     {1} (agents_db_init 0)) = [''a'']"
proof -
  have "wire (presence_step (presence_step presence_new (PConnect ''a'' 1 None)) (PConnect ''b'' 2 None))"
  proof (rule wire_connect [OF wire_connect [OF wire_new]])
    show "ps_wsIdentities (presence_step presence_new (PConnect ''a'' 1 None)) 2 = None \<or>
        ps_wsIdentities (presence_step presence_new (PConnect ''a'' 1 None)) 2 = Some ''b''"
      by (rule disjI1) code_simp
  qed (simp_all add: presence_new_def)
  from heartbeat_sweep_exact [OF this, of 5 "{1}" "agents_db_init 0"]
  have "sw_dropped (heartbeat_sweep 5 (presence_step (presence_step presence_new (PConnect ''a'' 1 None)) (PConnect ''b'' 2 None))
     {1} (agents_db_init 0)) = map fst (filter (\<lambda>(i, w). w \<in> {1})
       (ps_online (presence_step (presence_step presence_new (PConnect ''a'' 1 None)) (PConnect ''b'' 2 None))))"
    by blast
  also have "\<dots> = [''a'']" by code_simp
  finally show ?thesis .
qed

subsection \<open>A socket that connects twice\<close>

definition stranded :: "presence \<Rightarrow> string \<Rightarrow> socket \<Rightarrow> bool" where
  "stranded p i ws \<longleftrightarrow> ps_owners p i = Some ws \<and> ps_identities p ws = None"

lemma stranded_drop: "stranded p i ws \<Longrightarrow> stranded (dropConnection p ws' j) i ws"
  by (auto simp: stranded_def dropConnection_def Let_def release_def split: option.split)

lemma stranded_step:
  assumes "stranded p i ws" "\<And>j g. op \<noteq> PConnect j ws g"
  shows "stranded (presence_step p op) i ws"
proof (cases op)
  case (PConnect j w g)
  with assms show ?thesis
    unfolding PConnect connect_cases by (auto simp: stranded_def go_online_def claim_maps)
qed (use assms(1) in \<open>auto simp: stranded_drop split: option.split\<close>)

lemma stranded_run:
  "stranded p i ws \<Longrightarrow> list_all (\<lambda>op. case op of PConnect j w g \<Rightarrow> w \<noteq> ws | _ \<Rightarrow> True) ops \<Longrightarrow>
   stranded (foldl presence_step p ops) i ws"
proof (induction ops arbitrary: p)
  case (Cons op ops)
  then show ?case using stranded_step [of p i ws op] by (auto split: presence_op.splits)
qed simp

text \<open>
  A socket that connects under a second identity strands the first. Nothing in the dispatch
  refuses the second connect; when the socket closes, only its last identity is released, and from
  then on, through any closes, heartbeat drops and connects of other sockets, the first identity is
  owned by the closed socket and every connect of it is refused as a duplicate.
\<close>
theorem second_connect_strands_first_identity:
  assumes "ps_owners p a = None" "ps_owners p b = None" "a \<noteq> b" "a \<noteq> []" "b \<noteq> []"
    and "list_all (\<lambda>op. case op of PConnect j w g \<Rightarrow> w \<noteq> ws | _ \<Rightarrow> True) ops" "ws' \<noteq> ws"
  shows "\<exists>g g'. fst (claim_identity (foldl presence_step p ([PConnect a ws None, PConnect b ws None, PClose ws] @ ops)) a ws')
     = Conflict g g'"
proof -
  let ?p1 = "presence_step p (PConnect a ws None)"
  let ?p2 = "presence_step ?p1 (PConnect b ws None)"
  have 1: "ps_owners ?p1 = (ps_owners p)(a \<mapsto> ws)"
    using assms(1) unfolding connect_cases by (simp add: go_online_def claim_maps)
  have 2: "ps_owners ?p2 = (ps_owners p)(a \<mapsto> ws, b \<mapsto> ws)" "ps_identities ?p2 ws = Some b"
    "ps_wsIdentities ?p2 ws = Some b"
    using assms(2,3) unfolding connect_cases [of ?p1] by (simp_all add: go_online_def claim_maps 1 del: presence_step.simps)
  have "stranded (presence_step ?p2 (PClose ws)) a ws"
    using 2 assms(3,5) by (simp add: stranded_def dropConnection_def release_def Let_def)
  then have "stranded (foldl presence_step p ([PConnect a ws None, PConnect b ws None, PClose ws] @ ops)) a ws"
    using stranded_run [OF _ assms(6)] by simp
  then have "ps_owners (foldl presence_step p ([PConnect a ws None, PConnect b ws None, PClose ws] @ ops)) a = Some ws"
    by (simp add: stranded_def del: foldl_append)
  then show ?thesis
    using assms(7) by (simp add: claim_identity_def Let_def case_prod_beta del: foldl_append)
qed

lemma second_connect_strands_first_identity_witness:
  "\<exists>g g'. fst (claim_identity (foldl presence_step presence_new
     ([PConnect ''a'' 1 None, PConnect ''b'' 1 None, PClose 1] @ [PDrop 1 ''a'', PDrop 1 ''a''])) ''a'' 2) = Conflict g g'"
  by (rule second_connect_strands_first_identity) (simp_all add: presence_new_def)

end
