(* ===== verification/Hub_Db.thy ===== *)
theory Hub_Db
  imports Js_Text
begin

text \<open>
  The tables of \<open>hub.db\<close> (\<open>packages/store/src/schema/hub.ts\<close>), the prepared statements over them
  (\<open>createMailboxStatements\<close> there, \<open>packages/hub/src/db.ts\<close>), and the sender's view of its outbox
  (\<open>packages/store/src/outbox.ts\<close>).

  Every statement is a function of the time of \<open>datetime('now')\<close>. A statement that a constraint
  refuses throws in the code and is \<open>None\<close> here.
\<close>

section \<open>Tables\<close>

datatype message_status = MPending | MDelivered

text \<open>As the column has it.\<close>

fun status_text :: "message_status \<Rightarrow> string" where
  "status_text MPending = ''pending''"
| "status_text MDelivered = ''delivered''"

datatype channel = Mesh | Mailbox

record message_row =
  ms_id :: string
  ms_from_agent :: string
  ms_to_agent :: string
  ms_sent_by :: "string option"
  ms_content :: string
  ms_reply_to :: "string option"
  ms_status :: message_status
  ms_ts :: secs
  ms_leased_until :: "secs option"
  ms_via :: "channel option"

record stats_row =
  st_message_id :: string
  st_tenant :: string
  st_to_agent :: string
  st_from_agent :: string
  st_via :: channel
  st_ts :: secs

record idempotency_row =
  id_sent_by :: string
  id_client_message_id :: string
  id_request_digest :: string
  id_message_id :: string
  id_status :: message_status
  id_created_at :: secs

record hub_db =
  hb_messages :: "message_row list"
  hb_stats :: "stats_row list"
  hb_idempotency :: "idempotency_row list"

definition hub_db_init :: hub_db where
  "hub_db_init = \<lparr>hb_messages = [], hb_stats = [], hb_idempotency = []\<rparr>"

text \<open>\<open>PRIMARY KEY\<close> of the three tables.\<close>

definition idem_key :: "idempotency_row \<Rightarrow> string \<times> string" where
  "idem_key r = (id_sent_by r, id_client_message_id r)"

definition hub_pk :: "hub_db \<Rightarrow> bool" where
  "hub_pk db \<longleftrightarrow> sql_unique ms_id (hb_messages db) \<and> sql_unique st_message_id (hb_stats db) \<and>
     sql_unique idem_key (hb_idempotency db)"

section \<open>Statements\<close>

definition stmtInsertMessage ::
  "secs \<Rightarrow> hub_db \<Rightarrow> string \<Rightarrow> string \<Rightarrow> string \<Rightarrow> string option \<Rightarrow> string \<Rightarrow> string option \<Rightarrow>
   message_status \<Rightarrow> channel \<Rightarrow> hub_db option" where
  "stmtInsertMessage t db mid from_id to_id sentBy content replyTo status via =
     (if sql_exists (\<lambda>m. ms_id m = mid) (hb_messages db) then None
      else Some (db\<lparr>hb_messages := hb_messages db @
        [\<lparr>ms_id = mid, ms_from_agent = from_id, ms_to_agent = to_id, ms_sent_by = sentBy, ms_content = content,
          ms_reply_to = replyTo, ms_status = status, ms_ts = t, ms_leased_until = None, ms_via = Some via\<rparr>]\<rparr>))"

definition stmtInsertMessageStats ::
  "secs \<Rightarrow> hub_db \<Rightarrow> string \<Rightarrow> string \<Rightarrow> string \<Rightarrow> string \<Rightarrow> channel \<Rightarrow> hub_db option" where
  "stmtInsertMessageStats t db mid tenant to_id from_id via =
     (if sql_exists (\<lambda>s. st_message_id s = mid) (hb_stats db) then None
      else Some (db\<lparr>hb_stats := hb_stats db @
        [\<lparr>st_message_id = mid, st_tenant = tenant, st_to_agent = to_id, st_from_agent = from_id,
          st_via = via, st_ts = t\<rparr>]\<rparr>))"

definition stmtInsertIdempotency ::
  "secs \<Rightarrow> hub_db \<Rightarrow> string \<Rightarrow> string \<Rightarrow> string \<Rightarrow> string \<Rightarrow> message_status \<Rightarrow> hub_db option" where
  "stmtInsertIdempotency t db sentBy clientMessageId digest mid status =
     (if sql_exists (\<lambda>r. idem_key r = (sentBy, clientMessageId)) (hb_idempotency db) then None
      else Some (db\<lparr>hb_idempotency := hb_idempotency db @
        [\<lparr>id_sent_by = sentBy, id_client_message_id = clientMessageId, id_request_digest = digest,
          id_message_id = mid, id_status = status, id_created_at = t\<rparr>]\<rparr>))"

definition stmtSelectIdempotency :: "hub_db \<Rightarrow> string \<Rightarrow> string \<Rightarrow> idempotency_row option" where
  "stmtSelectIdempotency db sentBy clientMessageId =
     sql_get (\<lambda>r. idem_key r = (sentBy, clientMessageId)) (hb_idempotency db)"

definition stmtMessageVia :: "hub_db \<Rightarrow> string \<Rightarrow> channel option" where
  "stmtMessageVia db mid = Option.bind (sql_get (\<lambda>m. ms_id m = mid) (hb_messages db)) ms_via"

definition stmtUpdateMessageStatus :: "hub_db \<Rightarrow> message_status \<Rightarrow> string \<Rightarrow> hub_db" where
  "stmtUpdateMessageStatus db status mid =
     db\<lparr>hb_messages := sql_update (\<lambda>m. ms_id m = mid) (\<lambda>m. m\<lparr>ms_status := status\<rparr>) (hb_messages db)\<rparr>"

definition stmtFetchMessages :: "hub_db \<Rightarrow> string \<Rightarrow> string \<Rightarrow> nat \<Rightarrow> message_row list" where
  "stmtFetchMessages db a b limit =
     take limit (order_desc ms_ts (sql_where
       (\<lambda>m. (ms_from_agent m = a \<and> ms_to_agent m = b) \<or> (ms_from_agent m = b \<and> ms_to_agent m = a))
       (hb_messages db)))"

definition stmtPendingMessages :: "hub_db \<Rightarrow> string \<Rightarrow> message_row list" where
  "stmtPendingMessages db identity =
     order_asc ms_ts (sql_where (\<lambda>m. ms_to_agent m = identity \<and> ms_status m = MPending) (hb_messages db))"

text \<open>Pending, and never leased or leased until before now: comparing with null is not true.\<close>

definition free_at :: "secs \<Rightarrow> message_row \<Rightarrow> bool" where
  "free_at t m \<longleftrightarrow> ms_status m = MPending \<and>
     (case ms_leased_until m of None \<Rightarrow> True | Some l \<Rightarrow> l < t)"

definition leasable :: "secs \<Rightarrow> string \<Rightarrow> message_row \<Rightarrow> bool" where
  "leasable t identity m \<longleftrightarrow> ms_to_agent m = identity \<and> free_at t m"

definition stmtLeasableMessages :: "secs \<Rightarrow> hub_db \<Rightarrow> string \<Rightarrow> nat \<Rightarrow> message_row list" where
  "stmtLeasableMessages t db identity limit =
     take limit (order_asc ms_ts (sql_where (leasable t identity) (hb_messages db)))"

text \<open>\<open>'+' || n || ' seconds'\<close> is no modifier for a negative number, and \<open>datetime\<close> of it null.\<close>

definition lease_end :: "secs \<Rightarrow> int \<Rightarrow> secs option" where
  "lease_end t leaseSeconds = (if leaseSeconds < 0 then None else Some (t + leaseSeconds))"

definition stmtLeaseMessage :: "secs \<Rightarrow> hub_db \<Rightarrow> string \<Rightarrow> int \<Rightarrow> hub_db" where
  "stmtLeaseMessage t db mid leaseSeconds =
     db\<lparr>hb_messages := sql_update (\<lambda>m. ms_id m = mid)
          (\<lambda>m. m\<lparr>ms_leased_until := lease_end t leaseSeconds\<rparr>) (hb_messages db)\<rparr>"

definition ackable :: "string \<Rightarrow> string \<Rightarrow> message_row \<Rightarrow> bool" where
  "ackable mid identity m \<longleftrightarrow> ms_id m = mid \<and> ms_to_agent m = identity \<and> ms_status m = MPending"

definition stmtAckMessage :: "hub_db \<Rightarrow> string \<Rightarrow> string \<Rightarrow> nat \<times> hub_db" where
  "stmtAckMessage db mid identity =
     (sql_changes (ackable mid identity) (hb_messages db),
      db\<lparr>hb_messages := sql_update (ackable mid identity)
           (\<lambda>m. m\<lparr>ms_status := MDelivered, ms_leased_until := None\<rparr>) (hb_messages db)\<rparr>)"

definition stmtMessageById :: "hub_db \<Rightarrow> string \<Rightarrow> message_row option" where
  "stmtMessageById db mid = sql_get (\<lambda>m. ms_id m = mid) (hb_messages db)"

definition stmtCountLeasable :: "secs \<Rightarrow> hub_db \<Rightarrow> string \<Rightarrow> nat" where
  "stmtCountLeasable t db identity = length (sql_where (leasable t identity) (hb_messages db))"

section \<open>The outbox\<close>

record recallable_message =
  rc_id :: string
  rc_to :: string
  rc_ts :: secs
  rc_size :: nat

text \<open>SQLite's \<open>length\<close> of a text counts characters: the bytes of UTF-8 that start one.\<close>

definition sql_length :: "string \<Rightarrow> nat" where
  "sql_length s = length (filter (\<lambda>c. \<not> (128 \<le> (of_char c :: nat) \<and> (of_char c :: nat) < 192)) s)"

definition listRecallable :: "secs \<Rightarrow> hub_db \<Rightarrow> string \<Rightarrow> nat \<Rightarrow> recallable_message list" where
  "listRecallable t db sender limit =
     map (\<lambda>m. \<lparr>rc_id = ms_id m, rc_to = ms_to_agent m, rc_ts = ms_ts m, rc_size = sql_length (ms_content m)\<rparr>)
       (take limit (order_desc ms_ts (sql_where (\<lambda>m. ms_from_agent m = sender \<and> free_at t m) (hb_messages db))))"

datatype recall_outcome = Recalled | AlreadyDelivered | RecallNotFound

definition recallable :: "secs \<Rightarrow> string \<Rightarrow> string \<Rightarrow> message_row \<Rightarrow> bool" where
  "recallable t sender mid m \<longleftrightarrow> ms_id m = mid \<and> ms_from_agent m = sender \<and> free_at t m"

definition recall :: "secs \<Rightarrow> hub_db \<Rightarrow> string \<Rightarrow> string \<Rightarrow> recall_outcome \<times> hub_db" where
  "recall t db sender messageId =
     (let db' = db\<lparr>hb_messages := sql_delete (recallable t sender messageId) (hb_messages db)\<rparr>
      in if sql_changes (recallable t sender messageId) (hb_messages db) > 0 then (Recalled, db')
         else if sql_exists (\<lambda>m. ms_id m = messageId \<and> ms_from_agent m = sender) (hb_messages db')
              then (AlreadyDelivered, db') else (RecallNotFound, db'))"

section \<open>Facts about the statements\<close>

lemma message_at_iff:
  "hub_pk db \<Longrightarrow> stmtMessageById db mid = Some m \<longleftrightarrow> m \<in> set (hb_messages db) \<and> ms_id m = mid"
  by (simp add: stmtMessageById_def hub_pk_def sql_get_key_iff)

lemma hub_pk_status [simp]: "hub_pk (stmtUpdateMessageStatus db st mid) = hub_pk db"
  by (simp add: hub_pk_def stmtUpdateMessageStatus_def sql_unique_update)

lemma hub_pk_lease [simp]: "hub_pk (stmtLeaseMessage t db mid n) = hub_pk db"
  by (simp add: hub_pk_def stmtLeaseMessage_def sql_unique_update)

lemma hub_pk_ack [simp]: "hub_pk (snd (stmtAckMessage db mid i)) = hub_pk db"
  by (simp add: hub_pk_def stmtAckMessage_def sql_unique_update)

lemma hub_pk_recall: "hub_pk db \<Longrightarrow> hub_pk (snd (recall t db s mid))"
  by (auto simp: hub_pk_def recall_def Let_def sql_unique_delete)

lemma hub_pk_insert:
  "hub_pk db \<Longrightarrow> stmtInsertMessage t db mid f to_id sb c r st v = Some db' \<Longrightarrow> hub_pk db'"
  "hub_pk db \<Longrightarrow> stmtInsertMessageStats t db mid tn to_id f v = Some db' \<Longrightarrow> hub_pk db'"
  "hub_pk db \<Longrightarrow> stmtInsertIdempotency t db sid cm dg mid st = Some db' \<Longrightarrow> hub_pk db'"
  by (auto simp: stmtInsertMessage_def stmtInsertMessageStats_def stmtInsertIdempotency_def hub_pk_def
      sql_simps idem_key_def split: if_splits)

text \<open>What one statement does to the row with a given id.\<close>

lemma byId_status:
  "stmtMessageById (stmtUpdateMessageStatus db st mid) x =
     map_option (\<lambda>m. if ms_id m = mid then m\<lparr>ms_status := st\<rparr> else m) (stmtMessageById db x)"
  by (simp add: stmtMessageById_def stmtUpdateMessageStatus_def sql_get_update_key)

lemma byId_lease:
  "stmtMessageById (stmtLeaseMessage t db mid n) x =
     map_option (\<lambda>m. if ms_id m = mid then m\<lparr>ms_leased_until := lease_end t n\<rparr> else m) (stmtMessageById db x)"
  by (simp add: stmtMessageById_def stmtLeaseMessage_def sql_get_update_key)

lemma byId_ack:
  "stmtMessageById (snd (stmtAckMessage db mid i)) x =
     map_option (\<lambda>m. if ackable mid i m then m\<lparr>ms_status := MDelivered, ms_leased_until := None\<rparr> else m)
       (stmtMessageById db x)"
  by (simp add: stmtMessageById_def stmtAckMessage_def sql_get_update_key ackable_def)

lemma byId_id: "stmtMessageById db x = Some m \<Longrightarrow> ms_id m = x"
  by (auto simp: stmtMessageById_def dest: sql_get_SomeD)

lemma ack_changes: "hub_pk db \<Longrightarrow>
   fst (stmtAckMessage db mid i) > 0 \<longleftrightarrow> (\<exists>m. stmtMessageById db mid = Some m \<and> ackable mid i m)"
  by (auto simp: stmtAckMessage_def sql_simps message_at_iff ackable_def)

text \<open>
  A recall withdraws exactly one waiting message of the sender's own. It succeeds if and only if
  the message exists, is from that sender, is pending and is under no live lease; then that row and
  no other is gone. Otherwise nothing changes, and a message of somebody else is reported as absent.
\<close>
theorem recall_exact:
  assumes "hub_pk db"
  shows "(fst (recall t db s mid) = Recalled \<longleftrightarrow>
      (\<exists>m. stmtMessageById db mid = Some m \<and> ms_from_agent m = s \<and> free_at t m)) \<and>
    (\<forall>x. stmtMessageById (snd (recall t db s mid)) x =
      (if x = mid \<and> fst (recall t db s mid) = Recalled then None else stmtMessageById db x)) \<and>
    (fst (recall t db s mid) = RecallNotFound \<longleftrightarrow>
      (\<forall>m. stmtMessageById db mid = Some m \<longrightarrow> ms_from_agent m \<noteq> s))"
proof -
  have R: "sql_changes (recallable t s mid) (hb_messages db) > 0 \<longleftrightarrow>
      (\<exists>m. stmtMessageById db mid = Some m \<and> ms_from_agent m = s \<and> free_at t m)"
    using assms by (auto simp: sql_simps recallable_def message_at_iff)
  have "sql_get (\<lambda>m. ms_id m = x) (sql_delete (recallable t s mid) (hb_messages db)) =
      (if x = mid \<and> sql_changes (recallable t s mid) (hb_messages db) > 0 then None
       else sql_get (\<lambda>m. ms_id m = x) (hb_messages db))" for x
  proof (cases "sql_changes (recallable t s mid) (hb_messages db) > 0")
    case False
    then have "sql_delete (recallable t s mid) (hb_messages db) = hb_messages db"
      by (auto simp: sql_simps sql_delete_def)
    with False show ?thesis by simp
  next
    case True
    then obtain m where m: "m \<in> set (hb_messages db)" "recallable t s mid m" by (auto simp: sql_simps)
    have "recallable t s mid x \<longleftrightarrow> ms_id x = mid" if "x \<in> set (hb_messages db)" for x
      using assms m that by (auto simp: hub_pk_def recallable_def dest: sql_unique_eqD)
    then have "sql_delete (recallable t s mid) (hb_messages db) = sql_delete (\<lambda>m. ms_id m = mid) (hb_messages db)"
      by (auto simp: sql_delete_def intro: filter_cong)
    with True show ?thesis by (simp add: sql_get_delete_key)
  qed
  then have D: "stmtMessageById (snd (recall t db s mid)) x =
      (if x = mid \<and> sql_changes (recallable t s mid) (hb_messages db) > 0 then None else stmtMessageById db x)" for x
    by (simp add: stmtMessageById_def recall_def Let_def)
  have N: "fst (recall t db s mid) = Recalled \<longleftrightarrow> sql_changes (recallable t s mid) (hb_messages db) > 0"
    by (simp add: recall_def Let_def)
  have O: "fst (recall t db s mid) = RecallNotFound \<longleftrightarrow> (\<forall>m. stmtMessageById db mid = Some m \<longrightarrow> ms_from_agent m \<noteq> s)"
  proof (cases "sql_changes (recallable t s mid) (hb_messages db) > 0")
    case True
    with R N show ?thesis by auto
  next
    case False
    then have "sql_delete (recallable t s mid) (hb_messages db) = hb_messages db"
      by (auto simp: sql_simps sql_delete_def)
    with False assms show ?thesis
      by (auto simp: recall_def Let_def sql_simps message_at_iff)
  qed
  show ?thesis using R D N O by auto
qed

lemma recall_exact_witness:
  "fst (recall 100 (hub_db_init\<lparr>hb_messages := [\<lparr>ms_id = ''m1'', ms_from_agent = ''kim'', ms_to_agent = ''lee'',
     ms_sent_by = None, ms_content = ''x'', ms_reply_to = None, ms_status = MPending, ms_ts = 1,
     ms_leased_until = Some 400, ms_via = None\<rparr>]\<rparr>) ''kim'' ''m1'') \<noteq> Recalled"
proof -
  have "hub_pk (hub_db_init\<lparr>hb_messages := [\<lparr>ms_id = ''m1'', ms_from_agent = ''kim'', ms_to_agent = ''lee'',
     ms_sent_by = None, ms_content = ''x'', ms_reply_to = None, ms_status = MPending, ms_ts = 1,
     ms_leased_until = Some 400, ms_via = None\<rparr>]\<rparr>)"
    by (simp add: hub_pk_def hub_db_init_def)
  from recall_exact [OF this, of 100 "''kim''" "''m1''"] show ?thesis
    by (simp add: stmtMessageById_def free_at_def)
qed

end
