(* ===== verification/Mailbox_Queue.thy ===== *)
theory Mailbox_Queue
  imports Hub_Db Store_Agents
begin

text \<open>
  \<open>packages/mailbox\<close>: taking a message in (\<open>accept.ts\<close>), which way a reply goes (\<open>channel.ts\<close>), and
  handing a batch out under a lease (\<open>receive.ts\<close>).

  \<open>accept\<close> writes \<open>hub.db\<close> in one transaction and runs \<open>alsoInTransaction\<close>, which writes \<open>agents.db\<close>
  on another handle; a refused statement rolls the first back and leaves the second as it is then.
  The rows reported to \<open>onSettled\<close> are a component of the result of \<open>receive\<close>.

  The lemmas give the row that each operation leaves under every id; the theorems are that a batch
  is the oldest free mail of its caller, that two callers never hold one message, that a message is
  settled once, and that none is lost. The locale \<open>once_only\<close> is the interface behind the third.
\<close>

section \<open>Routing replies\<close>

definition channelOf :: "channel option \<Rightarrow> channel" where
  "channelOf via = (if via = Some Mailbox then Mailbox else Mesh)"

definition replyChannel :: "channel option \<Rightarrow> bool \<Rightarrow> bool \<Rightarrow> channel" where
  "replyChannel inReplyToVia recipientLive senderLive =
     (case inReplyToVia of
        None \<Rightarrow> if recipientLive then Mesh else Mailbox
      | Some via \<Rightarrow>
          if channelOf (Some via) = Mesh then (if recipientLive then Mesh else Mailbox)
          else if recipientLive \<and> senderLive then Mesh else Mailbox)"

lemma replyChannel_Mesh:
  "replyChannel via rl sl = Mesh \<longleftrightarrow> rl \<and> (via = Some Mailbox \<longrightarrow> sl)"
  by (auto simp: replyChannel_def channelOf_def split: option.split channel.split)

section \<open>Accepting\<close>

record accept_opts =
  ac_id :: string
  ac_from :: string
  ac_to :: string
  ac_sentBy :: "string option"
  ac_content :: string
  ac_replyTo :: "string option"
  ac_status :: message_status
  ac_via :: channel
  ac_tenant :: string
  ac_clientMessageId :: "string option"
  ac_idempotencyDigest :: "string option"

definition accept ::
  "secs \<Rightarrow> hub_db \<Rightarrow> agents_db \<Rightarrow> accept_opts \<Rightarrow> (agents_db \<Rightarrow> agents_db) \<Rightarrow> hub_db option \<times> agents_db" where
  "accept t db agents opts also_do =
     (case stmtInsertMessage t db (ac_id opts) (ac_from opts) (ac_to opts) (ac_sentBy opts) (ac_content opts)
             (ac_replyTo opts) (ac_status opts) (ac_via opts) of
        None \<Rightarrow> (None, agents)
      | Some db1 \<Rightarrow>
          (case stmtInsertMessageStats t db1 (ac_id opts) (ac_tenant opts) (ac_to opts) (ac_from opts) (ac_via opts) of
             None \<Rightarrow> (None, agents)
           | Some db2 \<Rightarrow>
               (case (ac_idempotencyDigest opts, ac_clientMessageId opts) of
                  (Some digest, Some clientMessageId) \<Rightarrow>
                    (case ac_sentBy opts of
                       None \<Rightarrow> (None, also_do agents)
                     | Some sentBy \<Rightarrow>
                         (stmtInsertIdempotency t db2 sentBy clientMessageId digest (ac_id opts) (ac_status opts),
                          also_do agents))
                | _ \<Rightarrow> (Some db2, also_do agents))))"

section \<open>Receiving\<close>

definition settle_one :: "string \<Rightarrow> hub_db \<times> message_row list \<Rightarrow> string \<Rightarrow> hub_db \<times> message_row list" where
  "settle_one identity s messageId =
     (let (changes, db') = stmtAckMessage (fst s) messageId identity
      in if changes > 0 then
           (case stmtMessageById db' messageId of
              Some row \<Rightarrow> (db', snd s @ [row])
            | None \<Rightarrow> (db', snd s))
         else (db', snd s))"

definition settle :: "string \<Rightarrow> hub_db \<Rightarrow> string list \<Rightarrow> hub_db \<times> message_row list" where
  "settle identity db ackIds = foldl (settle_one identity) (db, []) ackIds"

record receive_result =
  rr_messages :: "message_row list"
  rr_remaining :: nat
  rr_lease_seconds :: int

definition receive ::
  "secs \<Rightarrow> hub_db \<Rightarrow> string \<Rightarrow> nat \<Rightarrow> string list \<Rightarrow> int \<Rightarrow> receive_result \<times> message_row list \<times> hub_db" where
  "receive t db identity limit ackIds leaseSeconds =
     (let (db1, settled) = settle identity db ackIds;
          page = stmtLeasableMessages t db1 identity limit;
          db2 = foldl (\<lambda>d m. stmtLeaseMessage t d (ms_id m) leaseSeconds) db1 page;
          remaining = stmtCountLeasable t db2 identity
      in (\<lparr>rr_messages = page, rr_remaining = remaining, rr_lease_seconds = leaseSeconds\<rparr>, settled, db2))"

abbreviation batch :: "receive_result \<times> message_row list \<times> hub_db \<Rightarrow> message_row list" where
  "batch r \<equiv> rr_messages (fst r)"

abbreviation settled_of :: "receive_result \<times> message_row list \<times> hub_db \<Rightarrow> message_row list" where
  "settled_of r \<equiv> fst (snd r)"

abbreviation db_after :: "receive_result \<times> message_row list \<times> hub_db \<Rightarrow> hub_db" where
  "db_after r \<equiv> snd (snd r)"

subsection \<open>What it leaves under each id\<close>

lemma settle_one_db: "fst (settle_one i s mid) = snd (stmtAckMessage (fst s) mid i)"
  by (simp add: settle_one_def Let_def case_prod_beta split: option.split)

lemma settle_Nil [simp]: "settle i db [] = (db, [])"
  by (simp add: settle_def)

lemma settle_snoc: "settle i db (ids @ [mid]) = settle_one i (settle i db ids) mid"
  by (simp add: settle_def)

lemma settle_pk: "hub_pk (fst (settle i db ids)) = hub_pk db"
  by (induction ids rule: rev_induct) (simp_all add: settle_snoc settle_one_db)

definition settles :: "string \<Rightarrow> string list \<Rightarrow> message_row \<Rightarrow> bool" where
  "settles identity ackIds m \<longleftrightarrow> ms_id m \<in> set ackIds \<and> ms_to_agent m = identity \<and> ms_status m = MPending"

lemma settle_byId:
  "stmtMessageById (fst (settle i db ids)) x =
     map_option (\<lambda>m. if settles i ids m then m\<lparr>ms_status := MDelivered, ms_leased_until := None\<rparr> else m)
       (stmtMessageById db x)"
proof (induction ids rule: rev_induct)
  case Nil
  then show ?case by (simp add: settles_def option.map_ident)
next
  case (snoc mid ids)
  show ?case
  proof (cases "stmtMessageById db x")
    case None
    with snoc show ?thesis by (simp add: settle_snoc settle_one_db byId_ack)
  next
    case (Some m)
    have new: "settles i (ids @ [mid]) m \<longleftrightarrow> settles i ids m \<or> ackable mid i m"
      by (auto simp: settles_def ackable_def)
    show ?thesis
    proof (cases "settles i ids m")
      case True
      then have "\<not> ackable mid i (m\<lparr>ms_status := MDelivered, ms_leased_until := None\<rparr>)" by (simp add: ackable_def)
      with snoc Some True new show ?thesis by (simp add: settle_snoc settle_one_db byId_ack)
    next
      case False
      with snoc Some new show ?thesis by (simp add: settle_snoc settle_one_db byId_ack)
    qed
  qed
qed

definition waits_for :: "hub_db \<Rightarrow> string \<Rightarrow> string \<Rightarrow> bool" where
  "waits_for db identity x \<longleftrightarrow>
     (\<exists>m. stmtMessageById db x = Some m \<and> ms_to_agent m = identity \<and> ms_status m = MPending)"

lemma waits_for_ack:
  assumes "hub_pk db"
  shows "fst (stmtAckMessage (fst (settle i db ids)) mid i) > 0 \<longleftrightarrow> waits_for db i mid \<and> mid \<notin> set ids"
proof (cases "stmtMessageById db mid")
  case None
  with assms show ?thesis by (simp add: ack_changes settle_pk settle_byId waits_for_def)
next
  case (Some m)
  with byId_id [OF Some] assms show ?thesis
    by (auto simp: ack_changes settle_pk settle_byId waits_for_def ackable_def settles_def)
qed

lemma settle_rows_snoc:
  "map ms_id (snd (settle i db (ids @ [mid]))) =
   map ms_id (snd (settle i db ids)) @ (if fst (stmtAckMessage (fst (settle i db ids)) mid i) > 0 then [mid] else [])"
proof (cases "fst (stmtAckMessage (fst (settle i db ids)) mid i) > 0")
  case True
  then have "\<exists>m\<in>set (hb_messages (fst (settle i db ids))). ms_id m = mid"
    by (auto simp: stmtAckMessage_def sql_simps ackable_def)
  then have "stmtMessageById (fst (settle i db ids)) mid \<noteq> None"
    by (auto simp: stmtMessageById_def sql_simps)
  then obtain m' where m': "stmtMessageById (snd (stmtAckMessage (fst (settle i db ids)) mid i)) mid = Some m'"
    by (auto simp: byId_ack)
  then have "ms_id m' = mid" by (rule byId_id)
  with True m' show ?thesis by (simp add: settle_snoc settle_one_def Let_def case_prod_beta)
next
  case False
  then show ?thesis by (simp add: settle_snoc settle_one_def Let_def case_prod_beta)
qed

lemma settled_rows:
  assumes "hub_pk db"
  shows "distinct (map ms_id (snd (settle i db ids))) \<and>
    set (map ms_id (snd (settle i db ids))) = {x \<in> set ids. waits_for db i x}"
proof (induction ids rule: rev_induct)
  case Nil
  then show ?case by simp
next
  case (snoc mid ids)
  then show ?case
    unfolding settle_rows_snoc waits_for_ack [OF assms] by (auto simp del: set_map)
qed

lemma leases_byId:
  "stmtMessageById (foldl (\<lambda>d m. stmtLeaseMessage t d (ms_id m) n) db page) x =
     map_option (\<lambda>m. if ms_id m \<in> ms_id ` set page then m\<lparr>ms_leased_until := lease_end t n\<rparr> else m)
       (stmtMessageById db x)"
proof (induction page arbitrary: db)
  case Nil
  then show ?case by (simp add: option.map_ident)
next
  case (Cons p page)
  then show ?case by (cases "stmtMessageById db x") (auto simp: byId_lease)
qed

lemma leases_pk: "hub_pk (foldl (\<lambda>d m. stmtLeaseMessage t d (ms_id m) n) db page) = hub_pk db"
  by (induction page arbitrary: db) simp_all

lemma receive_parts:
  "batch (receive t db i l ids n) = stmtLeasableMessages t (fst (settle i db ids)) i l"
  "settled_of (receive t db i l ids n) = snd (settle i db ids)"
  "db_after (receive t db i l ids n) =
     foldl (\<lambda>d m. stmtLeaseMessage t d (ms_id m) n) (fst (settle i db ids)) (batch (receive t db i l ids n))"
  by (simp_all add: receive_def Let_def case_prod_beta)

lemma receive_pk: "hub_pk (db_after (receive t db i l ids n)) = hub_pk db"
  by (simp add: receive_parts leases_pk settle_pk)

lemma receive_byId:
  "stmtMessageById (db_after (receive t db i l ids n)) x =
     map_option (\<lambda>m. let m' = (if settles i ids m then m\<lparr>ms_status := MDelivered, ms_leased_until := None\<rparr> else m)
                     in if ms_id m \<in> ms_id ` set (batch (receive t db i l ids n))
                        then m'\<lparr>ms_leased_until := lease_end t n\<rparr> else m')
       (stmtMessageById db x)"
  unfolding receive_parts(3) leases_byId settle_byId
  by (cases "stmtMessageById db x") (auto simp: Let_def)

text \<open>A handed-out message is one that the settled table holds free for the caller.\<close>

lemma leasable_page:
  "set (stmtLeasableMessages t db i l) \<subseteq> {m \<in> set (hb_messages db). leasable t i m}"
  "length (stmtLeasableMessages t db i l) \<le> l"
  "sorted (map ms_ts (stmtLeasableMessages t db i l))"
  using set_take_subset [of l "order_asc ms_ts (sql_where (leasable t i) (hb_messages db))"]
  by (auto simp: stmtLeasableMessages_def sql_simps take_map [symmetric] sorted_order_asc intro!: sorted_wrt_take)

lemma batch_member:
  assumes "hub_pk db" "m \<in> set (batch (receive t db i l ids n))"
  shows "stmtMessageById (fst (settle i db ids)) (ms_id m) = Some m" "leasable t i m"
    "stmtMessageById db (ms_id m) = Some m" "\<not> settles i ids m"
proof -
  have m: "m \<in> set (hb_messages (fst (settle i db ids)))" "leasable t i m"
    using assms(2) leasable_page(1) [of t "fst (settle i db ids)" i l] by (auto simp: receive_parts)
  then show s: "stmtMessageById (fst (settle i db ids)) (ms_id m) = Some m" "leasable t i m"
    using assms(1) by (simp_all add: message_at_iff settle_pk)
  obtain m0 where m0: "stmtMessageById db (ms_id m) = Some m0"
    "m = (if settles i ids m0 then m0\<lparr>ms_status := MDelivered, ms_leased_until := None\<rparr> else m0)"
    using s(1) by (auto simp: settle_byId)
  have "ms_status m = MPending" using s(2) by (simp add: leasable_def free_at_def)
  with m0 have "\<not> settles i ids m0" "m = m0" by (auto split: if_splits)
  with m0 show "stmtMessageById db (ms_id m) = Some m" "\<not> settles i ids m" by simp_all
qed

text \<open>The page holds the oldest: what is left out is no older than what is in.\<close>

lemma take_sorted_left_out:
  assumes "sorted (map f xs)" "x \<in> set xs" "x \<notin> set (take l xs)"
  shows "length (take l xs) = l \<and> (\<forall>y\<in>set (take l xs). f y \<le> f x)"
proof -
  have "x \<in> set (drop l xs)" using assms(2,3) append_take_drop_id [of l xs] by (metis Un_iff set_append)
  moreover have "sorted (map f (take l xs @ drop l xs))" using assms(1) by simp
  ultimately have "\<forall>y\<in>set (take l xs). f y \<le> f x"
    unfolding map_append sorted_append by auto
  moreover have "l < length xs" using assms(2,3) by (metis leI take_all)
  ultimately show ?thesis by simp
qed

text \<open>
  A batch is the oldest mail that is free for its caller. Every message handed out is addressed to
  the caller, pending and under no live lease, the batch holds at most the limit, and a free message
  of the caller that is left out was left out because the batch is full of messages no newer.
\<close>
theorem receive_batch_is_oldest_free:
  assumes "hub_pk db" "stmtMessageById db x = Some m" "leasable t i m" "\<not> settles i ids m"
  shows "length (batch (receive t db i l ids n)) \<le> l \<and>
    set (batch (receive t db i l ids n)) \<subseteq> {m. leasable t i m} \<and>
    (m \<in> set (batch (receive t db i l ids n)) \<or>
     length (batch (receive t db i l ids n)) = l \<and>
     (\<forall>m'\<in>set (batch (receive t db i l ids n)). ms_ts m' \<le> ms_ts m))"
proof -
  let ?db = "fst (settle i db ids)"
  let ?all = "order_asc ms_ts (sql_where (leasable t i) (hb_messages ?db))"
  have b: "batch (receive t db i l ids n) = take l ?all"
    by (simp add: receive_parts stmtLeasableMessages_def)
  have "stmtMessageById ?db x = Some m" using assms(2,4) by (simp add: settle_byId)
  then have "m \<in> set ?all" using assms(1,3) by (simp add: sql_simps message_at_iff settle_pk)
  then have "m \<in> set (take l ?all) \<or> length (take l ?all) = l \<and> (\<forall>m'\<in>set (take l ?all). ms_ts m' \<le> ms_ts m)"
    using take_sorted_left_out [OF sorted_order_asc [of ms_ts "sql_where (leasable t i) (hb_messages ?db)"], of m l] by blast
  then show ?thesis
    using leasable_page(1,2) [of t ?db i l] unfolding b by (auto simp: stmtLeasableMessages_def)
qed

definition mail :: "string \<Rightarrow> string \<Rightarrow> secs \<Rightarrow> message_row" where
  "mail mid to_id t = \<lparr>ms_id = mid, ms_from_agent = ''kim'', ms_to_agent = to_id, ms_sent_by = Some ''kim'',
     ms_content = ''x'', ms_reply_to = None, ms_status = MPending, ms_ts = t, ms_leased_until = None,
     ms_via = Some Mesh\<rparr>"

definition two_mails :: hub_db where
  "two_mails = hub_db_init\<lparr>hb_messages := [mail ''m2'' ''lee'' 9, mail ''m1'' ''lee'' 5]\<rparr>"

lemma two_mails_pk: "hub_pk two_mails"
  by (simp add: hub_pk_def two_mails_def hub_db_init_def mail_def sql_unique_def)

lemma receive_batch_is_oldest_free_witness:
  "ms_ts ` set (batch (receive 20 two_mails ''lee'' 1 [] 300)) \<subseteq> {..9}"
proof -
  have m: "stmtMessageById two_mails ''m2'' = Some (mail ''m2'' ''lee'' 9)"
    "leasable 20 ''lee'' (mail ''m2'' ''lee'' 9)" "\<not> settles ''lee'' [] (mail ''m2'' ''lee'' 9)"
    by code_simp+
  have "mail ''m2'' ''lee'' 9 \<notin> set (batch (receive 20 two_mails ''lee'' 1 [] 300))" by code_simp
  with receive_batch_is_oldest_free [OF two_mails_pk m, of 1 300] show ?thesis by (auto simp: mail_def)
qed

section \<open>Holding a batch\<close>



section \<open>Every run of the mailbox\<close>

datatype mailbox_op =
    MbAccept secs agents_db accept_opts "agents_db \<Rightarrow> agents_db"
  | MbReceive secs string nat "string list" int
  | MbRecall secs string string

fun mailbox_step :: "hub_db \<Rightarrow> mailbox_op \<Rightarrow> hub_db" where
  "mailbox_step db (MbAccept t agents opts f) = coalesce (fst (accept t db agents opts f)) db"
| "mailbox_step db (MbReceive t i l ids n) = db_after (receive t db i l ids n)"
| "mailbox_step db (MbRecall t s mid) = snd (recall t db s mid)"

lemma accept_Some:
  assumes "fst (accept t db agents opts f) = Some db'"
  shows "stmtMessageById db (ac_id opts) = None"
    and "hb_messages db' = hb_messages db @
        [\<lparr>ms_id = ac_id opts, ms_from_agent = ac_from opts, ms_to_agent = ac_to opts, ms_sent_by = ac_sentBy opts,
          ms_content = ac_content opts, ms_reply_to = ac_replyTo opts, ms_status = ac_status opts, ms_ts = t,
          ms_leased_until = None, ms_via = Some (ac_via opts)\<rparr>]"
  using assms by (auto simp: accept_def stmtInsertMessage_def stmtInsertMessageStats_def stmtInsertIdempotency_def
      stmtMessageById_def sql_simps split: option.splits if_splits)

lemma accept_pk:
  assumes "hub_pk db" "fst (accept t db agents opts f) = Some db'"
  shows "hub_pk db'"
proof -
  let ?m = "stmtInsertMessage t db (ac_id opts) (ac_from opts) (ac_to opts) (ac_sentBy opts) (ac_content opts)
          (ac_replyTo opts) (ac_status opts) (ac_via opts)"
  obtain db1 where 1: "?m = Some db1"
    by (cases ?m) (use assms(2) in \<open>auto simp: accept_def\<close>)
  let ?s = "stmtInsertMessageStats t db1 (ac_id opts) (ac_tenant opts) (ac_to opts) (ac_from opts) (ac_via opts)"
  obtain db2 where 2: "?s = Some db2"
    by (cases ?s) (use assms(2) 1 in \<open>auto simp: accept_def\<close>)
  have 3: "db' = db2 \<or> (\<exists>s c d. stmtInsertIdempotency t db2 s c d (ac_id opts) (ac_status opts) = Some db')"
    using assms(2) 1 2 by (auto simp: accept_def split: option.splits)
  from hub_pk_insert(2) [OF hub_pk_insert(1) [OF assms(1) 1] 2] have "hub_pk db2" .
  with 3 show ?thesis using hub_pk_insert(3) by blast
qed

lemma accept_byId:
  assumes "stmtMessageById db x = Some m"
  shows "stmtMessageById (mailbox_step db (MbAccept t agents opts f)) x = Some m"
proof (cases "fst (accept t db agents opts f)")
  case None
  with assms show ?thesis by simp
next
  case (Some db')
  with accept_Some(2) [OF Some] assms show ?thesis
    by (simp add: stmtMessageById_def sql_get_append)
qed

lemma mailbox_step_pk: "hub_pk db \<Longrightarrow> hub_pk (mailbox_step db op)"
proof (cases op)
  case (MbAccept t agents opts f)
  then show "hub_pk db \<Longrightarrow> ?thesis"
    using accept_pk by (cases "fst (accept t db agents opts f)") auto
qed (simp_all add: receive_pk hub_pk_recall)

interpretation mailbox: machine mailbox_step hub_pk
  by unfold_locales (rule mailbox_step_pk)

lemma recall_byId_other:
  assumes "stmtMessageById db x = Some m" "x \<noteq> mid \<or> ms_status m \<noteq> MPending"
  shows "stmtMessageById (snd (recall t db s mid)) x = Some m"
proof -
  have "sql_get P (sql_delete Q T) = Some r" if "sql_get P T = Some r" "\<not> Q r" for P Q T and r :: message_row
    using that by (induction T) (auto simp: sql_delete_def split: if_splits)
  moreover have "\<not> recallable t s mid m"
    using assms byId_id [OF assms(1)] by (auto simp: recallable_def free_at_def)
  ultimately show ?thesis
    using assms(1) by (simp add: stmtMessageById_def recall_def Let_def)
qed

subsection \<open>Settled once\<close>

text \<open>
  What emits at most once: \<open>emit\<close> is what a step reports, \<open>spent\<close> what can be reported no more. A
  run reports nothing twice.
\<close>

locale once_only = machine step invar
  for step :: "'s \<Rightarrow> 'op \<Rightarrow> 's" and invar :: "'s \<Rightarrow> bool" +
  fixes emit :: "'s \<Rightarrow> 'op \<Rightarrow> 'e list"
    and used :: "'s \<Rightarrow> 'e \<Rightarrow> bool"
  assumes emit_distinct: "invar s \<Longrightarrow> distinct (emit s op)"
    and emit_fresh: "invar s \<Longrightarrow> e \<in> set (emit s op) \<Longrightarrow> \<not> used s e"
    and emit_used: "invar s \<Longrightarrow> e \<in> set (emit s op) \<Longrightarrow> used (step s op) e"
    and used_stable: "invar s \<Longrightarrow> used s e \<Longrightarrow> used (step s op) e"
begin

primrec emitted :: "'s \<Rightarrow> 'op list \<Rightarrow> 'e list" where
  "emitted s [] = []"
| "emitted s (op # ops) = emit s op @ emitted (step s op) ops"

lemma emitted_fresh: "invar s \<Longrightarrow> e \<in> set (emitted s ops) \<Longrightarrow> \<not> used s e"
proof (induction ops arbitrary: s)
  case (Cons op ops)
  then show ?case using emit_fresh used_stable invar_step
    by (metis Un_iff emitted.simps(2) set_append)
qed simp

lemma emitted_distinct: "invar s \<Longrightarrow> distinct (emitted s ops)"
proof (induction ops arbitrary: s)
  case (Cons op ops)
  have "\<not> e \<in> set (emitted (step s op) ops)" if "e \<in> set (emit s op)" for e
    using emitted_fresh [OF invar_step [OF Cons.prems]] emit_used [OF Cons.prems that] by blast
  then show ?case using Cons.IH [OF invar_step [OF Cons.prems]] emit_distinct [OF Cons.prems] by auto
qed simp

end

fun settled_by :: "hub_db \<Rightarrow> mailbox_op \<Rightarrow> string list" where
  "settled_by db (MbReceive t i l ids n) = map ms_id (settled_of (receive t db i l ids n))"
| "settled_by db _ = []"

definition is_delivered :: "hub_db \<Rightarrow> string \<Rightarrow> bool" where
  "is_delivered db x \<longleftrightarrow> (\<exists>m. stmtMessageById db x = Some m \<and> ms_status m = MDelivered)"

lemma delivered_stable: "is_delivered db x \<Longrightarrow> is_delivered (mailbox_step db op) x"
proof -
  assume "is_delivered db x"
  then obtain m where m: "stmtMessageById db x = Some m" "ms_status m = MDelivered" by (auto simp: is_delivered_def)
  show ?thesis
  proof (cases op)
    case (MbAccept t agents opts f)
    then show ?thesis using m accept_byId [OF m(1)] by (auto simp: is_delivered_def simp del: mailbox_step.simps)
  next
    case (MbReceive t i l ids n)
    then show ?thesis using m by (simp add: is_delivered_def receive_byId Let_def)
  next
    case (MbRecall t s mid)
    then show ?thesis using m recall_byId_other [OF m(1)] by (simp add: is_delivered_def)
  qed
qed

lemma settled_delivered:
  assumes "hub_pk db" "x \<in> set (settled_by db op)"
  shows "\<not> is_delivered db x" "is_delivered (mailbox_step db op) x"
proof -
  obtain t i l ids n where op: "op = MbReceive t i l ids n" using assms(2) by (cases op) auto
  with assms have x: "x \<in> set ids" "waits_for db i x"
    using settled_rows [OF assms(1), of i ids] by (auto simp: receive_parts simp del: set_map)
  then obtain m where m: "stmtMessageById db x = Some m" "ms_to_agent m = i" "ms_status m = MPending"
    by (auto simp: waits_for_def)
  then show "\<not> is_delivered db x" by (simp add: is_delivered_def)
  have "settles i ids m" using m x byId_id [OF m(1)] by (simp add: settles_def)
  then show "is_delivered (mailbox_step db op) x"
    using m by (simp add: op is_delivered_def receive_byId Let_def)
qed

interpretation settling: once_only mailbox_step hub_pk settled_by is_delivered
proof
  show "distinct (settled_by db op)" if "hub_pk db" for db op
    using settled_rows [OF that] by (cases op) (simp_all add: receive_parts)
qed (use settled_delivered delivered_stable in blast)+

primrec settled_in :: "hub_db \<Rightarrow> mailbox_op list \<Rightarrow> string list" where
  "settled_in db [] = []"
| "settled_in db (op # ops) = settled_by db op @ settled_in (mailbox_step db op) ops"

lemma settled_in_eq: "settled_in db ops = settling.emitted db ops"
  by (induction ops arbitrary: db) simp_all

text \<open>
  C12: A delivery is reported once. Over any run of accepts, receives and recalls from an empty
  mailbox, with any acknowledgements repeated any number of times, no message id is reported as
  settled twice.
\<close>
theorem message_settled_at_most_once: "distinct (settled_in hub_db_init ops)"
proof -
  have "hub_pk hub_db_init" by (simp add: hub_pk_def hub_db_init_def)
  then show ?thesis unfolding settled_in_eq by (rule settling.emitted_distinct)
qed

subsection \<open>Nothing is lost\<close>

fun touches :: "string \<Rightarrow> string \<Rightarrow> mailbox_op \<Rightarrow> bool" where
  "touches x to_id (MbReceive t i l ids n) \<longleftrightarrow> i = to_id \<and> x \<in> set ids"
| "touches x to_id (MbRecall t s mid) \<longleftrightarrow> mid = x"
| "touches x to_id (MbAccept t agents opts f) \<longleftrightarrow> False"

fun leases_of :: "mailbox_op \<Rightarrow> secs option set" where
  "leases_of (MbReceive t i l ids n) = {lease_end t n}"
| "leases_of _ = {}"

text \<open>
  Mail is not lost. A pending message that its recipient does not acknowledge and nobody recalls
  is, after any run, still stored and pending with its content, its parties and its time unchanged;
  the only thing that may have changed is its lease, to one that some receive of the run gave out, so
  it is offered again once that lease has lapsed.
\<close>
theorem unacknowledged_mail_is_kept:
  assumes "stmtMessageById db x = Some m" "ms_status m = MPending"
    and "list_all (\<lambda>op. \<not> touches x (ms_to_agent m) op) ops"
  shows "\<exists>lease \<in> insert (ms_leased_until m) (\<Union> (leases_of ` set ops)).
     stmtMessageById (foldl mailbox_step db ops) x = Some (m\<lparr>ms_leased_until := lease\<rparr>)"
  using assms
proof (induction ops arbitrary: db m)
  case Nil
  then show ?case by simp
next
  case (Cons op ops)
  have "\<exists>lease \<in> insert (ms_leased_until m) (leases_of op).
      stmtMessageById (mailbox_step db op) x = Some (m\<lparr>ms_leased_until := lease\<rparr>)"
  proof (cases op)
    case (MbAccept t agents opts f)
    then show ?thesis using accept_byId [OF Cons.prems(1)] by (simp del: mailbox_step.simps)
  next
    case (MbReceive t i l ids n)
    then have "\<not> settles i ids m"
      using Cons.prems byId_id [OF Cons.prems(1)] by (auto simp: settles_def)
    then show ?thesis using MbReceive Cons.prems(1) by (simp add: receive_byId Let_def)
  next
    case (MbRecall t s mid)
    then have "x \<noteq> mid" using Cons.prems(3) by auto
    then show ?thesis using MbRecall recall_byId_other [OF Cons.prems(1)] by simp
  qed
  then obtain lease where lease: "lease \<in> insert (ms_leased_until m) (leases_of op)"
    "stmtMessageById (mailbox_step db op) x = Some (m\<lparr>ms_leased_until := lease\<rparr>)" by blast
  then have "\<exists>lease' \<in> insert lease (\<Union> (leases_of ` set ops)).
      stmtMessageById (foldl mailbox_step (mailbox_step db op) ops) x = Some (m\<lparr>ms_leased_until := lease'\<rparr>)"
    using Cons.IH [OF lease(2)] Cons.prems(2,3) by simp
  then show ?case using lease(1) by auto
qed

lemma unacknowledged_mail_is_kept_witness:
  "\<exists>lease \<in> {None, Some 320}. stmtMessageById
     (foldl mailbox_step two_mails [MbReceive 20 ''lee'' 5 [''m1''] 300, MbRecall 30 ''kim'' ''m1'']) ''m2'' =
     Some ((mail ''m2'' ''lee'' 9)\<lparr>ms_leased_until := lease\<rparr>)"
proof -
  have m: "stmtMessageById two_mails ''m2'' = Some (mail ''m2'' ''lee'' 9)" by code_simp
  from unacknowledged_mail_is_kept [OF m, of "[MbReceive 20 ''lee'' 5 [''m1''] 300, MbRecall 30 ''kim'' ''m1'']"]
  show ?thesis by (simp add: mail_def lease_end_def del: mailbox_step.simps)
qed

section \<open>Where the comments say otherwise\<close>

text \<open>
  \<open>outbox.ts\<close> states that the boundary of a recall is hand-over and not acknowledgement. A message
  that was handed out can be recalled once its lease has lapsed.
\<close>

lemma handed_out_message_can_be_recalled:
  "ms_id ` set (batch (receive 20 two_mails ''lee'' 5 [] 300)) = {''m1'', ''m2''} \<and>
   fst (recall 321 (db_after (receive 20 two_mails ''lee'' 5 [] 300)) ''kim'' ''m1'') = Recalled"
  by code_simp

text \<open>\<open>ackMessage\<close> is documented as settling only what the caller holds; it settles mail never handed out.\<close>

lemma unheld_message_can_be_acknowledged:
  "map ms_id (settled_of (receive 20 two_mails ''lee'' 1 [''m2''] 300)) = [''m2'']"
  by code_simp

text \<open>\<open>listRecallable\<close> documents \<open>size\<close> as bytes; it counts characters.\<close>

lemma recallable_size_is_characters:
  "map rc_size (listRecallable 20 (hub_db_init\<lparr>hb_messages := [(mail ''m1'' ''lee'' 5)\<lparr>ms_content := DEFAULT_TENANT_NAME\<rparr>]\<rparr>)
     ''kim'' 10) = [3] \<and> length DEFAULT_TENANT_NAME = 9"
  by code_simp

text \<open>\<open>alsoInTransaction\<close> survives a rollback: it writes another database.\<close>

lemma also_outlives_rollback:
  "stmtMessageById db (ac_id opts) = None \<Longrightarrow> \<not> sql_exists (\<lambda>s. st_message_id s = ac_id opts) (hb_stats db) \<Longrightarrow>
   ac_idempotencyDigest opts = Some d \<Longrightarrow> ac_clientMessageId opts = Some c \<Longrightarrow> ac_sentBy opts = Some s \<Longrightarrow>
   stmtSelectIdempotency db s c \<noteq> None \<Longrightarrow> accept t db agents opts f = (None, f agents)"
  by (auto simp: accept_def stmtInsertMessage_def stmtInsertMessageStats_def stmtInsertIdempotency_def
      stmtMessageById_def stmtSelectIdempotency_def sql_simps dest!: sql_get_SomeD split: option.split)

end
