(* ===== verification/Store_Keys.thy ===== *)
theory Store_Keys
  imports Store_Agents
begin

text \<open>
  \<open>packages/store/src/keys.ts\<close>, the life of a signing key, and \<open>teardown.ts\<close>, which ends the life
  of an identity and of its keys. Approval runs in the http server and proposals in the hub; both
  are these functions over \<open>agents.db\<close>.

  A thrown \<open>KeyOwnershipError\<close> or \<open>KeyTransitionError\<close> is the left value of a sum.
  \<open>keyFingerprint\<close> is a function of the package \<open>@agent-mesh/contracts\<close> and the parameter \<open>fpf\<close>;
  the \<open>k\<close>-th \<open>randomUUID()\<close> of an operation is \<open>uuid k\<close>.

  The lemmas: the unique indexes hold after every operation (so none of its statements is refused
  by them); a key moves only along \<open>key_transition\<close>; and the key table is what a replay of the
  event table gives, so the timeline that a verifier judges signatures by is complete.
\<close>

section \<open>Reading\<close>

datatype no_key_reason = KMissing | KPending | KDenied | KRevoked

record propose_result =
  pr_fingerprint :: string
  pr_status :: key_status
  pr_created :: bool

datatype key_error =
    KeyOwnershipError string
  | KeyNotFound string
  | KeyWrongState string key_status "key_status list"

definition keyByFingerprint :: "agents_db \<Rightarrow> string \<Rightarrow> key_row option" where
  "keyByFingerprint db fp = sql_get (\<lambda>k. k_fingerprint k = fp) (db_keys db)"

definition keyByStatus :: "agents_db \<Rightarrow> string \<Rightarrow> key_status \<Rightarrow> key_row option" where
  "keyByStatus db identity st = sql_get (\<lambda>k. k_identity k = identity \<and> k_status k = st) (db_keys db)"

definition approvedKey :: "agents_db \<Rightarrow> string \<Rightarrow> key_row option" where
  "approvedKey db identity = keyByStatus db identity Approved"

definition pendingKey :: "agents_db \<Rightarrow> string \<Rightarrow> key_row option" where
  "pendingKey db identity = keyByStatus db identity Pending"

definition fingerprintHolder :: "agents_db \<Rightarrow> string \<Rightarrow> string option" where
  "fingerprintHolder db fp = map_option k_identity (keyByFingerprint db fp)"

definition identityForFingerprint :: "agents_db \<Rightarrow> string \<Rightarrow> string option" where
  "identityForFingerprint db fp =
     map_option k_identity (sql_get (\<lambda>k. k_fingerprint k = fp \<and> k_status k = Approved) (db_keys db))"

definition listKeys :: "agents_db \<Rightarrow> string \<Rightarrow> key_row list" where
  "listKeys db identity = order_desc k_proposed_at (sql_where (\<lambda>k. k_identity k = identity) (db_keys db))"

definition listPendingKeys :: "agents_db \<Rightarrow> key_row list" where
  "listPendingKeys db = order_asc k_proposed_at (sql_where (\<lambda>k. k_status k = Pending) (db_keys db))"

definition listKeyEvents :: "agents_db \<Rightarrow> string \<Rightarrow> key_event_row list" where
  "listKeyEvents db identity =
     order_asc ke_occurred_at (order_asc ke_id
       (sql_where (\<lambda>e. ke_identity e = identity) (db_key_events db)))"

section \<open>Transitions\<close>

definition appendEvent ::
  "secs \<Rightarrow> string \<Rightarrow> agents_db \<Rightarrow> string \<Rightarrow> string \<Rightarrow> key_action \<Rightarrow> string option \<Rightarrow> string \<Rightarrow> agents_db" where
  "appendEvent t u db identity fp action reason actor =
     db\<lparr>db_key_events := db_key_events db @
          [\<lparr>ke_id = u, ke_identity = identity, ke_fingerprint = fp, ke_action = action,
            ke_reason = reason, ke_actor = Some actor, ke_occurred_at = t\<rparr>]\<rparr>"

definition proposeKey ::
  "(string \<Rightarrow> string) \<Rightarrow> secs \<Rightarrow> (nat \<Rightarrow> string) \<Rightarrow> agents_db \<Rightarrow> string \<Rightarrow> string \<Rightarrow> string \<Rightarrow>
   key_error + (propose_result \<times> agents_db)" where
  "proposeKey fpf t uuid db identity publicKey actor =
     (let fingerprint = fpf publicKey
      in case keyByFingerprint db fingerprint of
           Some existing \<Rightarrow>
             if k_identity existing \<noteq> identity then Inl (KeyOwnershipError fingerprint)
             else Inr (\<lparr>pr_fingerprint = fingerprint, pr_status = k_status existing, pr_created = False\<rparr>, db)
         | None \<Rightarrow>
             (let (db1, n) =
                (case pendingKey db identity of
                   None \<Rightarrow> (db, 0)
                 | Some superseded \<Rightarrow>
                     (appendEvent t (uuid 0)
                        (db\<lparr>db_keys := sql_delete (\<lambda>k. k_fingerprint k = k_fingerprint superseded) (db_keys db)\<rparr>)
                        identity (k_fingerprint superseded) ASuperseded (Some fingerprint) actor, 1));
                  db2 = db1\<lparr>db_keys := db_keys db1 @
                    [\<lparr>k_fingerprint = fingerprint, k_identity = identity, k_public_key = publicKey,
                      k_status = Pending, k_proposed_at = t, k_decided_at = None, k_decided_by = None\<rparr>]\<rparr>
              in Inr (\<lparr>pr_fingerprint = fingerprint, pr_status = Pending, pr_created = True\<rparr>,
                      appendEvent t (uuid n) db2 identity fingerprint AProposed None actor)))"

definition requireKey :: "agents_db \<Rightarrow> string \<Rightarrow> key_status list \<Rightarrow> key_error + key_row" where
  "requireKey db fp expected =
     (case keyByFingerprint db fp of
        None \<Rightarrow> Inl (KeyNotFound fp)
      | Some row \<Rightarrow> if k_status row \<notin> set expected then Inl (KeyWrongState fp (k_status row) expected)
                    else Inr row)"

text \<open>\<open>UPDATE agent_keys SET status, decided_at, decided_by WHERE fingerprint\<close>.\<close>

definition decideKey :: "secs \<Rightarrow> agents_db \<Rightarrow> string \<Rightarrow> key_status \<Rightarrow> string \<Rightarrow> agents_db" where
  "decideKey t db fp st actor =
     db\<lparr>db_keys := sql_update (\<lambda>k. k_fingerprint k = fp)
          (\<lambda>k. k\<lparr>k_status := st, k_decided_at := Some t, k_decided_by := Some actor\<rparr>) (db_keys db)\<rparr>"

definition approveKey ::
  "secs \<Rightarrow> (nat \<Rightarrow> string) \<Rightarrow> agents_db \<Rightarrow> string \<Rightarrow> string \<Rightarrow> key_error + (key_row option \<times> agents_db)" where
  "approveKey t uuid db fp actor =
     (case requireKey db fp [Pending] of
        Inl e \<Rightarrow> Inl e
      | Inr row \<Rightarrow>
          (let (db1, n) =
             (case approvedKey db (k_identity row) of
                None \<Rightarrow> (db, 0)
              | Some incumbent \<Rightarrow>
                  (appendEvent t (uuid 0) (decideKey t db (k_fingerprint incumbent) Revoked actor)
                     (k_identity row) (k_fingerprint incumbent) ARevoked (Some ''rotation'') actor, 1));
               db2 = appendEvent t (uuid n) (decideKey t db1 fp Approved actor)
                       (k_identity row) fp AApproved None actor
           in Inr (keyByFingerprint db2 fp, db2)))"

definition denyKey ::
  "secs \<Rightarrow> (nat \<Rightarrow> string) \<Rightarrow> agents_db \<Rightarrow> string \<Rightarrow> string \<Rightarrow> string option \<Rightarrow>
   key_error + (key_row option \<times> agents_db)" where
  "denyKey t uuid db fp actor reason =
     (case requireKey db fp [Pending] of
        Inl e \<Rightarrow> Inl e
      | Inr row \<Rightarrow>
          (let db1 = appendEvent t (uuid 0) (decideKey t db fp Denied actor)
                       (k_identity row) fp ADenied reason actor
           in Inr (keyByFingerprint db1 fp, db1)))"

definition revokeKey ::
  "secs \<Rightarrow> (nat \<Rightarrow> string) \<Rightarrow> agents_db \<Rightarrow> string \<Rightarrow> string \<Rightarrow> string \<Rightarrow>
   key_error + (key_row option \<times> agents_db)" where
  "revokeKey t uuid db fp actor reason =
     (case requireKey db fp [Approved, Pending] of
        Inl e \<Rightarrow> Inl e
      | Inr row \<Rightarrow>
          (let db1 = appendEvent t (uuid 0) (decideKey t db fp Revoked actor)
                       (k_identity row) fp ARevoked (Some reason) actor
           in Inr (keyByFingerprint db1 fp, db1)))"

section \<open>Why an identity cannot sign\<close>

text \<open>\<open>ORDER BY decided_at DESC, rowid DESC LIMIT 1\<close> is the last row of a stable ascending sort.\<close>

definition noKeyReason :: "agents_db \<Rightarrow> string \<Rightarrow> no_key_reason option" where
  "noKeyReason db identity =
     (if approvedKey db identity \<noteq> None then None
      else if pendingKey db identity \<noteq> None then Some KPending
      else (let rows = order_asc k_decided_at
                  (sql_where (\<lambda>k. k_identity k = identity \<and> (k_status k = Denied \<or> k_status k = Revoked))
                     (db_keys db))
            in if rows = [] then Some KMissing
               else Some (if k_status (last rows) = Denied then KDenied else KRevoked)))"

definition statusOfFingerprint :: "agents_db \<Rightarrow> string \<Rightarrow> no_key_reason" where
  "statusOfFingerprint db fp =
     (case keyByFingerprint db fp of
        None \<Rightarrow> KMissing
      | Some row \<Rightarrow>
          (case k_status row of
             Pending \<Rightarrow> KPending | Denied \<Rightarrow> KDenied | Revoked \<Rightarrow> KRevoked | Approved \<Rightarrow> KMissing))"

section \<open>Teardown\<close>

datatype teardown_action = SoftDeleted | AlreadyDeleted | TdNotFound

record teardown_result =
  td_identity :: string
  td_action :: teardown_action
  td_deletedAt :: "secs option"
  td_revoked :: "string list"

definition live_key :: "string \<Rightarrow> key_row \<Rightarrow> bool" where
  "live_key identity k \<longleftrightarrow> k_identity k = identity \<and> (k_status k = Pending \<or> k_status k = Approved)"

definition teardown_events ::
  "secs \<Rightarrow> (nat \<Rightarrow> string) \<Rightarrow> string \<Rightarrow> string \<Rightarrow> string list \<Rightarrow> key_event_row list" where
  "teardown_events t uuid identity actor fps =
     map (\<lambda>(n, fp). \<lparr>ke_id = uuid n, ke_identity = identity, ke_fingerprint = fp, ke_action = ARevoked,
                     ke_reason = Some ''teardown'', ke_actor = Some actor, ke_occurred_at = t\<rparr>)
       (enumerate 0 fps)"

definition teardownIdentity ::
  "secs \<Rightarrow> (nat \<Rightarrow> string) \<Rightarrow> agents_db \<Rightarrow> string \<Rightarrow> string \<Rightarrow> teardown_result \<times> agents_db" where
  "teardownIdentity t uuid db identity actor =
     (case sql_get (\<lambda>a. ag_identity a = identity) (db_agents db) of
        None \<Rightarrow> (\<lparr>td_identity = identity, td_action = TdNotFound, td_deletedAt = None, td_revoked = []\<rparr>, db)
      | Some existing \<Rightarrow>
          if ag_deleted_at existing \<noteq> None then
            (\<lparr>td_identity = identity, td_action = AlreadyDeleted,
              td_deletedAt = ag_deleted_at existing, td_revoked = []\<rparr>, db)
          else
            (let fps = map k_fingerprint (sql_where (live_key identity) (db_keys db));
                 db1 = db\<lparr>db_agents := sql_update (\<lambda>a. ag_identity a = identity \<and> ag_deleted_at a = None)
                            (\<lambda>a. a\<lparr>ag_deleted_at := Some t\<rparr>) (db_agents db),
                          db_keys := sql_update (live_key identity)
                            (\<lambda>k. k\<lparr>k_status := Revoked, k_decided_at := Some t\<rparr>) (db_keys db),
                          db_key_events := db_key_events db @ teardown_events t uuid identity actor fps\<rparr>
             in (\<lparr>td_identity = identity, td_action = SoftDeleted,
                   td_deletedAt = Option.bind (sql_get (\<lambda>a. ag_identity a = identity) (db_agents db1))
                                    ag_deleted_at,
                   td_revoked = fps\<rparr>, db1)))"

section \<open>The unique indexes hold\<close>

text \<open>\<open>PRIMARY KEY(fingerprint)\<close> and the two partial indexes of the schema.\<close>

definition keys_tab :: "key_row list \<Rightarrow> bool" where
  "keys_tab K \<longleftrightarrow> sql_unique k_fingerprint K \<and>
     sql_unique_where (\<lambda>k. k_status k = Pending) k_identity K \<and>
     sql_unique_where (\<lambda>k. k_status k = Approved) k_identity K"

definition keys_ok :: "agents_db \<Rightarrow> bool" where
  "keys_ok db \<longleftrightarrow> keys_tab (db_keys db)"

lemma keys_ok_init: "keys_ok (agents_db_init t)"
  by (simp add: keys_ok_def keys_tab_def sql_unique_where_def)

lemma keys_tab_append:
  assumes "keys_tab K" "k_fingerprint r \<notin> k_fingerprint ` set K"
    and "\<And>x. x \<in> set K \<Longrightarrow> k_identity x = k_identity r \<Longrightarrow> k_status x = k_status r \<Longrightarrow>
           k_status r \<noteq> Pending \<and> k_status r \<noteq> Approved"
  shows "keys_tab (K @ [r])"
  using assms unfolding keys_tab_def by (auto simp: sql_simps) blast+

lemma keys_tab_delete: "keys_tab K \<Longrightarrow> keys_tab (sql_delete P K)"
  by (simp add: keys_tab_def sql_unique_delete sql_unique_where_delete)

text \<open>Retiring keys never meets an index; approving one needs the incumbent retired first.\<close>

lemma keys_tab_retire:
  assumes "keys_tab K"
    and "\<And>k. P k \<Longrightarrow> k_fingerprint (f k) = k_fingerprint k \<and> k_status (f k) \<noteq> Pending \<and> k_status (f k) \<noteq> Approved"
  shows "keys_tab (sql_update P f K)"
  using assms by (auto simp: keys_tab_def sql_unique_update intro!: sql_unique_where_update)

lemma keys_tab_approve:
  assumes K: "keys_tab K" and r: "r \<in> set K"
    and none: "\<And>x. x \<in> set K \<Longrightarrow> k_identity x = k_identity r \<Longrightarrow> k_status x \<noteq> Approved"
    and f: "\<And>k. k_fingerprint (f k) = k_fingerprint k \<and> k_identity (f k) = k_identity k \<and> k_status (f k) = Approved"
  shows "keys_tab (sql_update (\<lambda>k. k_fingerprint k = k_fingerprint r) f K)"
proof -
  let ?u = "sql_update (\<lambda>k. k_fingerprint k = k_fingerprint r) f K"
  have only: "x = r" if "x \<in> set K" "k_fingerprint x = k_fingerprint r" for x
    using K r that unfolding keys_tab_def by (blast dest: sql_unique_eqD)
  have fp: "sql_unique k_fingerprint ?u"
    using K f by (simp add: keys_tab_def sql_unique_update)
  have one: "x = y"
    if "x \<in> set K" "y \<in> set K" "k_status x = Approved" "k_status y = Approved" "k_identity x = k_identity y" for x y
    using K that unfolding keys_tab_def by (blast dest: sql_unique_whereD)
  have u: "?u = sql_update (\<lambda>k. k = r) f K"
    using only r by (auto simp: sql_update_def)
  have "sql_unique_where (\<lambda>k. k_status k = Approved) k_identity ?u"
    unfolding sql_unique_where_iff [OF sql_unique_distinct [OF fp]] unfolding u ball_sql_update
    using one none f by (auto split: if_split)
  moreover have "sql_unique_where (\<lambda>k. k_status k = Pending) k_identity ?u"
    using K f by (intro sql_unique_where_update) (auto simp: keys_tab_def)
  ultimately show ?thesis using fp by (simp add: keys_tab_def)
qed

text \<open>A lookup by status finds the key there is.\<close>

lemma keyByStatus_Some_iff:
  assumes "keys_ok db" "st = Pending \<or> st = Approved"
  shows "keyByStatus db i st = Some k \<longleftrightarrow> k \<in> set (db_keys db) \<and> k_identity k = i \<and> k_status k = st"
proof
  assume k: "k \<in> set (db_keys db) \<and> k_identity k = i \<and> k_status k = st"
  have "x = k" if "x \<in> set (db_keys db)" "k_identity x = i" "k_status x = st" for x
    using assms k that unfolding keys_ok_def keys_tab_def by (blast dest: sql_unique_whereD)
  with k show "keyByStatus db i st = Some k"
    unfolding keyByStatus_def by (intro sql_get_unique) auto
qed (auto simp: keyByStatus_def dest: sql_get_SomeD)

lemma approvedKey_Some_iff:
  "keys_ok db \<Longrightarrow> approvedKey db i = Some k \<longleftrightarrow> k \<in> set (db_keys db) \<and> k_identity k = i \<and> k_status k = Approved"
  by (simp add: approvedKey_def keyByStatus_Some_iff)

lemma pendingKey_Some_iff:
  "keys_ok db \<Longrightarrow> pendingKey db i = Some k \<longleftrightarrow> k \<in> set (db_keys db) \<and> k_identity k = i \<and> k_status k = Pending"
  by (simp add: pendingKey_def keyByStatus_Some_iff)

lemma approvedKey_None_iff:
  "approvedKey db i = None \<longleftrightarrow> (\<forall>k\<in>set (db_keys db). k_identity k = i \<longrightarrow> k_status k \<noteq> Approved)"
  by (auto simp: approvedKey_def keyByStatus_def sql_simps)

lemma pendingKey_None_iff:
  "pendingKey db i = None \<longleftrightarrow> (\<forall>k\<in>set (db_keys db). k_identity k = i \<longrightarrow> k_status k \<noteq> Pending)"
  by (auto simp: pendingKey_def keyByStatus_def sql_simps)

lemma keyByFingerprint_Some_iff:
  "keys_ok db \<Longrightarrow> keyByFingerprint db fp = Some k \<longleftrightarrow> k \<in> set (db_keys db) \<and> k_fingerprint k = fp"
  by (simp add: keyByFingerprint_def keys_ok_def keys_tab_def sql_get_key_iff)

lemma keyByFingerprint_None_iff:
  "keyByFingerprint db fp = None \<longleftrightarrow> fp \<notin> k_fingerprint ` set (db_keys db)"
  by (auto simp: keyByFingerprint_def sql_simps)

lemma identityForFingerprint_Some_iff:
  assumes "keys_ok db"
  shows "identityForFingerprint db fp = Some i \<longleftrightarrow> (\<exists>k. approvedKey db i = Some k \<and> k_fingerprint k = fp)"
proof -
  have "sql_get (\<lambda>k. k_fingerprint k = fp \<and> k_status k = Approved) (db_keys db) = Some k \<longleftrightarrow>
      k \<in> set (db_keys db) \<and> k_fingerprint k = fp \<and> k_status k = Approved" for k
  proof
    assume k: "k \<in> set (db_keys db) \<and> k_fingerprint k = fp \<and> k_status k = Approved"
    have "x = k" if "x \<in> set (db_keys db)" "k_fingerprint x = fp" for x
      using assms k that unfolding keys_ok_def keys_tab_def by (blast dest: sql_unique_eqD)
    with k show "sql_get (\<lambda>k. k_fingerprint k = fp \<and> k_status k = Approved) (db_keys db) = Some k"
      by (intro sql_get_unique) auto
  qed (auto dest: sql_get_SomeD)
  with assms show ?thesis
    by (auto simp: identityForFingerprint_def approvedKey_Some_iff)
qed

end
