(* ===== verification/Store_Verify.thy ===== *)
theory Store_Verify
  imports Store_Keys "HOL-Library.AList"
begin

text \<open>
  \<open>packages/store/src/verify.ts\<close>: checking a signature against the key an identity has approved, and
  the window of nonces that makes a signed request usable once.

  The Ed25519 check of \<open>node:crypto\<close> is the parameter \<open>vp_ed25519\<close>, from a raw key, a message and a
  signature to the verdict, \<open>None\<close> where it throws; \<open>parsePublicKey\<close> of \<open>@agent-mesh/contracts\<close> is
  \<open>vp_parsePublicKey\<close>, \<open>None\<close> where it throws. The SPKI prefix is what \<open>createPublicKey\<close> wraps the raw
  key in, part of the parameter. \<open>Buffer.from(s, 'base64url')\<close> is \<open>base64url_decode\<close>: it reads both
  alphabets, skips other characters, stops at the first \<open>=\<close>, and drops a last partial byte.

  A JavaScript \<open>Map\<close> keeps insertion order and is an association list. The locale \<open>replay_guard\<close> is
  what a caller of the nonce window relies on; the freshness gate is its client.
\<close>

section \<open>Signatures\<close>

definition base64url_value :: "char \<Rightarrow> nat option" where
  "base64url_value c =
     (let n = of_char c :: nat
      in if 65 \<le> n \<and> n \<le> 90 then Some (n - 65)
         else if 97 \<le> n \<and> n \<le> 122 then Some (n - 71)
         else if 48 \<le> n \<and> n \<le> 57 then Some (n + 4)
         else if n = 45 \<or> n = 43 then Some 62
         else if n = 95 \<or> n = 47 then Some 63
         else None)"

fun base64_bytes :: "nat list \<Rightarrow> string" where
  "base64_bytes (a # b # c # d # vs) =
     char_of (a * 4 + b div 16) # char_of ((b mod 16) * 16 + c div 4) # char_of ((c mod 4) * 64 + d)
       # base64_bytes vs"
| "base64_bytes [a, b, c] = [char_of (a * 4 + b div 16), char_of ((b mod 16) * 16 + c div 4)]"
| "base64_bytes [a, b] = [char_of (a * 4 + b div 16)]"
| "base64_bytes [a] = []"
| "base64_bytes [] = []"

definition base64url_decode :: "string \<Rightarrow> string" where
  "base64url_decode s = base64_bytes (List.map_filter base64url_value (takeWhile (\<lambda>c. c \<noteq> CHR ''='') s))"

record verify_params =
  vp_parsePublicKey :: "string \<Rightarrow> string option"
  vp_ed25519 :: "string \<Rightarrow> string \<Rightarrow> string \<Rightarrow> bool option"

definition verifySignature :: "verify_params \<Rightarrow> string \<Rightarrow> string \<Rightarrow> string \<Rightarrow> bool" where
  "verifySignature vp publicKey preimage signature =
     (let sig = base64url_decode signature
      in if length sig \<noteq> 64 then False
         else (case vp_parsePublicKey vp publicKey of
                 None \<Rightarrow> False
               | Some raw \<Rightarrow> coalesce (vp_ed25519 vp raw preimage sig) False))"

datatype verify_outcome = VerifyOk string | NoApprovedKey "no_key_reason option" | WrongKey | BadSignature

definition verifyForIdentity ::
  "verify_params \<Rightarrow> agents_db \<Rightarrow> string \<Rightarrow> string \<Rightarrow> string \<Rightarrow> string \<Rightarrow> verify_outcome" where
  "verifyForIdentity vp db identity kid preimage signature =
     (case approvedKey db identity of
        None \<Rightarrow> NoApprovedKey (noKeyReason db identity)
      | Some key \<Rightarrow>
          if k_fingerprint key \<noteq> kid then WrongKey
          else if \<not> verifySignature vp (k_public_key key) preimage signature then BadSignature
          else VerifyOk (k_fingerprint key))"

lemma verifyForIdentity_ok_iff:
  "verifyForIdentity vp db i kid pre sig = VerifyOk fp \<longleftrightarrow>
     (\<exists>k. approvedKey db i = Some k \<and> k_fingerprint k = kid \<and> fp = kid \<and>
          verifySignature vp (k_public_key k) pre sig)"
  by (auto simp: verifyForIdentity_def split: option.split)

text \<open>The reason given with a refusal is never null where there is no approved key.\<close>

lemma noKeyReason_given: "approvedKey db i = None \<Longrightarrow> noKeyReason db i \<noteq> None"
  by (simp add: noKeyReason_def Let_def)

section \<open>The nonce window\<close>

record nonce_window =
  nw_windowSeconds :: int
  nw_seen :: "(string \<times> (string \<times> int) list) list"

definition nonce_window_new :: "int \<Rightarrow> nonce_window" where
  "nonce_window_new w = \<lparr>nw_windowSeconds = w, nw_seen = []\<rparr>"

definition claim :: "nonce_window \<Rightarrow> string \<Rightarrow> string \<Rightarrow> int \<Rightarrow> bool \<times> nonce_window" where
  "claim w identity nonce nowSeconds =
     (case map_of (nw_seen w) identity of
        None \<Rightarrow> (True, w\<lparr>nw_seen := AList.update identity [(nonce, nowSeconds)] (nw_seen w)\<rparr>)
      | Some forIdentity \<Rightarrow>
          if map_of forIdentity nonce \<noteq> None then (False, w)
          else (True, w\<lparr>nw_seen := AList.update identity (AList.update nonce nowSeconds forIdentity) (nw_seen w)\<rparr>))"

definition sweep_nonces :: "nonce_window \<Rightarrow> int \<Rightarrow> nonce_window" where
  "sweep_nonces w nowSeconds =
     (let cutoff = nowSeconds - nw_windowSeconds w
      in w\<lparr>nw_seen := filter (\<lambda>(_, nonces). nonces \<noteq> [])
             (map (\<lambda>(identity, nonces). (identity, filter (\<lambda>(_, at). \<not> at < cutoff) nonces)) (nw_seen w))\<rparr>)"

definition identityCount :: "nonce_window \<Rightarrow> nat" where
  "identityCount w = length (nw_seen w)"

definition nonce_size :: "nonce_window \<Rightarrow> nat" where
  "nonce_size w = sum_list (map (\<lambda>(_, nonces). length nonces) (nw_seen w))"

subsection \<open>The representation\<close>

definition nw_ok :: "nonce_window \<Rightarrow> bool" where
  "nw_ok w \<longleftrightarrow> distinct (map fst (nw_seen w)) \<and> (\<forall>(i, ns)\<in>set (nw_seen w). distinct (map fst ns))"

definition remembered :: "nonce_window \<Rightarrow> string \<Rightarrow> string \<Rightarrow> int option" where
  "remembered w i n = Option.bind (map_of (nw_seen w) i) (\<lambda>ns. map_of ns n)"

lemma nw_ok_entry: "nw_ok w \<Longrightarrow> map_of (nw_seen w) i = Some ns \<Longrightarrow> distinct (map fst ns)"
  by (auto simp: nw_ok_def dest!: map_of_SomeD)

lemma set_alist_update: "set (AList.update k v xs) \<subseteq> insert (k, v) (set xs)"
  by (induction xs) auto

lemma nw_ok_claim: "nw_ok w \<Longrightarrow> nw_ok (snd (claim w i n t))"
proof -
  assume w: "nw_ok w"
  have "nw_ok (w\<lparr>nw_seen := AList.update i ns (nw_seen w)\<rparr>)" if "distinct (map fst ns)" for ns
    using w that set_alist_update [of i ns "nw_seen w"]
    by (fastforce simp: nw_ok_def distinct_update)
  then show ?thesis
    using w nw_ok_entry [OF w, of i] by (auto simp: claim_def distinct_update split: option.split)
qed

lemma distinct_map_fst_filter: "distinct (map fst xs) \<Longrightarrow> distinct (map fst (filter P xs))"
  by (auto simp: distinct_map intro: inj_on_subset)

lemma map_of_filter_value:
  "distinct (map fst xs) \<Longrightarrow>
   map_of (filter (\<lambda>(_, v). P v) xs) k = (case map_of xs k of None \<Rightarrow> None | Some v \<Rightarrow> if P v then Some v else None)"
  by (induction xs) (force simp: image_iff dest: map_of_SomeD split: option.split)+

lemma nw_ok_sweep: "nw_ok w \<Longrightarrow> nw_ok (sweep_nonces w t)"
proof -
  assume w: "nw_ok w"
  let ?g = "\<lambda>(i, ns). (i, filter (\<lambda>(_, at). \<not> at < t - nw_windowSeconds w) ns)"
  have "map fst (map ?g (nw_seen w)) = map fst (nw_seen w)" by (auto simp: case_prod_beta)
  then have "distinct (map fst (map ?g (nw_seen w)))" using w by (simp only: nw_ok_def)
  then show ?thesis
    using w by (auto simp: nw_ok_def sweep_nonces_def Let_def distinct_map_fst_filter)
qed

lemma remembered_claim:
  "remembered (snd (claim w i n t)) i' n' =
     (if i' = i \<and> n' = n \<and> remembered w i n = None then Some t else remembered w i' n')"
  by (auto simp: claim_def remembered_def update_conv' split: option.splits)

lemma claim_new_iff: "fst (claim w i n t) \<longleftrightarrow> remembered w i n = None"
  by (auto simp: claim_def remembered_def split: option.splits)

lemma map_of_map_value: "map_of (map (\<lambda>(k, v). (k, f v)) xs) k = map_option f (map_of xs k)"
  by (induction xs) auto

lemma remembered_sweep:
  assumes "nw_ok w"
  shows "remembered (sweep_nonces w t) i n =
     (case remembered w i n of None \<Rightarrow> None
      | Some at \<Rightarrow> if at < t - nw_windowSeconds w then None else Some at)"
proof -
  let ?f = "filter (\<lambda>(_::string, at). \<not> at < t - nw_windowSeconds w)"
  let ?m = "map (\<lambda>(i::string, ns). (i, ?f ns)) (nw_seen w)"
  have "map fst ?m = map fst (nw_seen w)" by (auto simp: case_prod_beta)
  then have d: "distinct (map fst ?m)" using assms by (simp only: nw_ok_def)
  show ?thesis
  proof (cases "map_of (nw_seen w) i")
    case None
    then show ?thesis
      using d by (simp add: remembered_def sweep_nonces_def Let_def map_of_filter_value map_of_map_value)
  next
    case (Some ns)
    then show ?thesis
      using d nw_ok_entry [OF assms Some] map_of_filter_value [of ns "\<lambda>at. \<not> at < t - nw_windowSeconds w" n]
      by (auto simp: remembered_def sweep_nonces_def Let_def map_of_filter_value map_of_map_value
          filter_empty_conv split: option.splits)
  qed
qed

lemma window_seconds_frame [simp]:
  "nw_windowSeconds (snd (claim w i n t)) = nw_windowSeconds w"
  "nw_windowSeconds (sweep_nonces w t) = nw_windowSeconds w"
  by (simp_all add: claim_def sweep_nonces_def Let_def split: option.split)

text \<open>An identity is held only while it has a nonce, and a fresh window holds nothing.\<close>

lemma identityCount_le_size:
  assumes "\<forall>(i, ns)\<in>set (nw_seen w). ns \<noteq> []"
  shows "identityCount w \<le> nonce_size w"
proof -
  have "(\<forall>(i, ns)\<in>set xs. ns \<noteq> []) \<Longrightarrow> length xs \<le> sum_list (map (\<lambda>(_, ns). length ns) xs)"
    for xs :: "(string \<times> (string \<times> int) list) list"
  proof (induction xs)
    case (Cons p xs)
    then show ?case by (cases p; cases "snd p") auto
  qed simp
  with assms show ?thesis unfolding identityCount_def nonce_size_def by blast
qed

lemma sweep_no_empty: "\<forall>(i, ns)\<in>set (nw_seen (sweep_nonces w t)). ns \<noteq> []"
  by (auto simp: sweep_nonces_def Let_def)

section \<open>Replay\<close>

text \<open>
  What a freshness gate relies on. \<open>mem\<close> is what the window remembers; a claim is granted exactly
  when nothing is remembered, and remembers; a sweep forgets only what has left the window.
\<close>

locale replay_guard =
  fixes mem :: "'w \<Rightarrow> string \<Rightarrow> string \<Rightarrow> int option"
    and clm :: "'w \<Rightarrow> string \<Rightarrow> string \<Rightarrow> int \<Rightarrow> bool \<times> 'w"
    and swp :: "'w \<Rightarrow> int \<Rightarrow> 'w"
    and width :: "'w \<Rightarrow> int"
    and ok :: "'w \<Rightarrow> bool"
  assumes ok_clm: "ok w \<Longrightarrow> ok (snd (clm w i n at))"
    and ok_swp: "ok w \<Longrightarrow> ok (swp w now)"
    and width_clm: "width (snd (clm w i n at)) = width w"
    and width_swp: "width (swp w now) = width w"
    and granted: "ok w \<Longrightarrow> fst (clm w i n at) \<longleftrightarrow> mem w i n = None"
    and remembers: "ok w \<Longrightarrow> mem (snd (clm w i n at)) i' n' =
          (if i' = i \<and> n' = n \<and> mem w i n = None then Some at else mem w i' n')"
    and forgets: "ok w \<Longrightarrow> mem w i n = Some at \<Longrightarrow> now - width w \<le> at \<Longrightarrow> mem (swp w now) i n = Some at"
begin

text \<open>The gate: freshness first, then the claim, on the time the request was signed.\<close>

definition gate :: "int \<Rightarrow> 'w \<Rightarrow> string \<Rightarrow> string \<Rightarrow> int \<Rightarrow> bool \<times> 'w" where
  "gate now w i n iat = (if \<bar>now - iat\<bar> > width w then (False, w) else clm w i n iat)"

text \<open>Refused for good: remembered, or too old for the clock that the next event reads.\<close>

definition dead :: "int \<Rightarrow> 'w \<Rightarrow> string \<Rightarrow> string \<Rightarrow> int \<Rightarrow> bool" where
  "dead now w i n iat \<longleftrightarrow> mem w i n = Some iat \<or> iat < now - width w"

lemma dead_refused: "ok w \<Longrightarrow> dead now w i n iat \<Longrightarrow> \<not> fst (gate now w i n iat)"
  by (auto simp: gate_def dead_def granted)

lemma admitted_dead: "ok w \<Longrightarrow> fst (gate now w i n iat) \<Longrightarrow> dead now (snd (gate now w i n iat)) i n iat"
  by (auto simp: gate_def dead_def granted remembers split: if_splits)

lemma dead_gate: "ok w \<Longrightarrow> dead now w i n iat \<Longrightarrow> dead now (snd (gate now w i' n' iat')) i n iat"
  by (auto simp: gate_def dead_def remembers width_clm)

lemma dead_sweep: "ok w \<Longrightarrow> dead now w i n iat \<Longrightarrow> dead now (swp w now) i n iat"
  by (auto simp: dead_def width_swp intro: forgets)

lemma dead_later: "dead now w i n iat \<Longrightarrow> now \<le> now' \<Longrightarrow> dead now' w i n iat"
  by (auto simp: dead_def)

lemma ok_gate: "ok w \<Longrightarrow> ok (snd (gate now w i n iat))"
  by (simp add: gate_def ok_clm)

end

interpretation nonces: replay_guard remembered claim sweep_nonces nw_windowSeconds nw_ok
  by unfold_locales
    (auto simp: nw_ok_claim nw_ok_sweep claim_new_iff remembered_claim remembered_sweep)

text \<open>The events of a process that holds one window: requests and sweeps, each at a clock reading.\<close>

datatype gate_event = GateAdmit int string string int | GateSweep int

fun gate_time :: "gate_event \<Rightarrow> int" where
  "gate_time (GateAdmit now i n iat) = now"
| "gate_time (GateSweep now) = now"

fun fresh_claim :: "int \<Rightarrow> nonce_window \<Rightarrow> string \<Rightarrow> string \<Rightarrow> int \<Rightarrow> bool \<times> nonce_window" where
  "fresh_claim now w i n iat = (if \<bar>now - iat\<bar> > nw_windowSeconds w then (False, w) else claim w i n iat)"

fun gate_step :: "nonce_window \<Rightarrow> gate_event \<Rightarrow> nonce_window" where
  "gate_step w (GateAdmit now i n iat) = snd (fresh_claim now w i n iat)"
| "gate_step w (GateSweep now) = sweep_nonces w now"

lemma fresh_claim_gate: "fresh_claim now w i n iat = nonces.gate now w i n iat"
  by (simp add: nonces.gate_def)

interpretation gate_machine: machine gate_step nw_ok
proof
  fix w op
  assume "nw_ok w"
  then show "nw_ok (gate_step w op)"
    by (cases op) (simp_all add: fresh_claim_gate nonces.ok_gate nw_ok_sweep del: fresh_claim.simps)
qed

lemma dead_run:
  assumes "nw_ok w" "nonces.dead now w i n iat" "sorted (now # map gate_time evs)"
  shows "nonces.dead (last (now # map gate_time evs)) (foldl gate_step w evs) i n iat"
  using assms
proof (induction evs arbitrary: w now)
  case (Cons e evs)
  have le: "now \<le> gate_time e" using Cons.prems(3) by simp
  have d: "nonces.dead (gate_time e) w i n iat" using Cons.prems(2) le by (rule nonces.dead_later)
  have "nonces.dead (gate_time e) (gate_step w e) i n iat"
    using d Cons.prems(1) by (cases e)
      (simp_all add: fresh_claim_gate nonces.dead_gate nonces.dead_sweep del: fresh_claim.simps)
  moreover have "nw_ok (gate_step w e)" using Cons.prems(1) by (rule gate_machine.invar_step)
  moreover have "sorted (gate_time e # map gate_time evs)" using Cons.prems(3) by simp
  ultimately show ?case using Cons.IH by fastforce
qed simp

text \<open>
  C8: A signed request is admitted at most once. In a process that holds one nonce window, once a
  request with a given identity, nonce and signing time has passed the freshness check and the
  claim, then whatever requests and sweeps follow, at clock readings that do not go back, the same
  request is refused, although a sweep may have forgotten its nonce.
\<close>
theorem signed_request_admitted_once:
  assumes "fst (fresh_claim now (foldl gate_step (nonce_window_new width) before) i n iat)"
    and "sorted (now # map gate_time between @ [now'])"
  shows "\<not> fst (fresh_claim now'
     (foldl gate_step (nonce_window_new width) (before @ [GateAdmit now i n iat] @ between)) i n iat)"
proof -
  let ?w = "foldl gate_step (nonce_window_new width) before"
  let ?w1 = "gate_step ?w (GateAdmit now i n iat)"
  have ok: "nw_ok ?w" by (rule gate_machine.run_invar) (simp add: nw_ok_def nonce_window_new_def)
  have d: "nonces.dead now ?w1 i n iat"
    using nonces.admitted_dead [OF ok] assms(1) by (simp add: fresh_claim_gate del: fresh_claim.simps)
  have ok1: "nw_ok ?w1" using ok by (rule gate_machine.invar_step)
  have s: "sorted (now # map gate_time between)" and le: "last (now # map gate_time between) \<le> now'"
    using assms(2) by (auto simp: sorted_append last_map)
  have "nonces.dead now' (foldl gate_step ?w1 between) i n iat"
    using dead_run [OF ok1 d s] le by (rule nonces.dead_later)
  moreover have "nw_ok (foldl gate_step ?w1 between)" using ok1 by (rule gate_machine.run_invar)
  ultimately show ?thesis
    using nonces.dead_refused by (simp add: fresh_claim_gate del: fresh_claim.simps)
qed

lemma signed_request_admitted_once_witness:
  "\<not> fst (fresh_claim 1241 (foldl gate_step (nonce_window_new 120)
     ([] @ [GateAdmit 1000 ''codex'' ''n'' 1060] @ [GateSweep 1181, GateAdmit 1200 ''agy'' ''n'' 1190])) ''codex'' ''n'' 1060)"
  by (rule signed_request_admitted_once) code_simp+

end
