(* ===== verification/Store_Nonces.thy ===== *)
theory Store_Nonces
  imports Store_Schema
begin

text \<open>
  \<open>packages/store/src/nonces.ts\<close>: the upload grants that the hub issues and the http server checks.
  The lifetime \<open>UPLOAD_NONCE_TTL_SECONDS\<close> is a constant of the package \<open>@agent-mesh/contracts\<close> and
  the parameter \<open>ttl\<close>; the \<open>randomUUID()\<close> of a grant is the parameter \<open>nonce\<close>, and \<open>None\<close> the primary
  key's refusal of one that is taken. \<open>strftime\<close> renders the instant that the column holds, which
  stays a number of seconds here.

  The lemmas: a grant authorises exactly the upload it names, for its lifetime; and the sweep that
  reclaims rows takes no authority away.
\<close>

datatype grant_refusal = GUnknown | GExpired | GWrongIdentity | GWrongBlob | GWrongSize

datatype grant_check = GrantOk upload_nonce_row | GrantRefused grant_refusal

definition issueGrant ::
  "int \<Rightarrow> secs \<Rightarrow> string \<Rightarrow> agents_db \<Rightarrow> string \<Rightarrow> string \<Rightarrow> string \<Rightarrow> int \<Rightarrow>
   (upload_nonce_row \<times> agents_db) option" where
  "issueGrant ttl t nonce db identity blobKey sha256 sz =
     (let row = \<lparr>un_nonce = nonce, un_identity = identity, un_blob_key = blobKey, un_size = sz,
                 un_sha256 = sha256, un_issued_at = t, un_expires_at = t + ttl\<rparr>
      in if sql_exists (\<lambda>r. un_nonce r = nonce) (db_upload_nonces db) then None
         else Some (row, db\<lparr>db_upload_nonces := db_upload_nonces db @ [row]\<rparr>))"

definition checkGrant :: "secs \<Rightarrow> agents_db \<Rightarrow> string \<Rightarrow> string \<Rightarrow> string \<Rightarrow> int \<Rightarrow> grant_check" where
  "checkGrant t db nonce identity blobKey sz =
     (case sql_get (\<lambda>r. un_nonce r = nonce) (db_upload_nonces db) of
        None \<Rightarrow> GrantRefused GUnknown
      | Some row \<Rightarrow>
          if un_expires_at row < t then GrantRefused GExpired
          else if un_identity row \<noteq> identity then GrantRefused GWrongIdentity
          else if un_blob_key row \<noteq> blobKey then GrantRefused GWrongBlob
          else if un_size row \<noteq> sz then GrantRefused GWrongSize
          else GrantOk row)"

definition sweepExpired :: "secs \<Rightarrow> agents_db \<Rightarrow> nat \<times> agents_db" where
  "sweepExpired t db =
     (sql_changes (\<lambda>r. un_expires_at r < t) (db_upload_nonces db),
      db\<lparr>db_upload_nonces := sql_delete (\<lambda>r. un_expires_at r < t) (db_upload_nonces db)\<rparr>)"

section \<open>What a grant is worth\<close>

datatype grant_op = GIssue int secs string string string string int | GSweep secs

fun grant_step :: "agents_db \<Rightarrow> grant_op \<Rightarrow> agents_db" where
  "grant_step db (GIssue ttl t n i b h s) =
     (case issueGrant ttl t n db i b h s of None \<Rightarrow> db | Some (_, db') \<Rightarrow> db')"
| "grant_step db (GSweep t) = snd (sweepExpired t db)"

definition nonces_ok :: "agents_db \<Rightarrow> bool" where
  "nonces_ok db \<longleftrightarrow> sql_unique un_nonce (db_upload_nonces db)"

lemma grant_step_ok: "nonces_ok db \<Longrightarrow> nonces_ok (grant_step db op)"
  by (cases op) (auto simp: nonces_ok_def issueGrant_def sweepExpired_def Let_def sql_simps sql_unique_delete
      split: option.splits if_splits)

interpretation upload_grants: machine grant_step nonces_ok
  by unfold_locales (rule grant_step_ok)

definition grant_run :: "secs \<Rightarrow> grant_op list \<Rightarrow> agents_db" where
  "grant_run t ops = foldl grant_step (agents_db_init t) ops"

lemma grant_run_ok: "nonces_ok (grant_run t ops)"
  unfolding grant_run_def by (rule upload_grants.run_invar) (simp add: nonces_ok_def)

lemma grant_run_snoc: "grant_run t (ops @ [op]) = grant_step (grant_run t ops) op"
  by (simp add: grant_run_def)

lemma checkGrant_ok_iff:
  assumes "nonces_ok db"
  shows "checkGrant t db n i b s = GrantOk g \<longleftrightarrow>
     g \<in> set (db_upload_nonces db) \<and> un_nonce g = n \<and> un_identity g = i \<and> un_blob_key g = b \<and>
     un_size g = s \<and> t \<le> un_expires_at g"
proof -
  have k: "sql_get (\<lambda>r. un_nonce r = n) (db_upload_nonces db) = Some g \<longleftrightarrow>
      g \<in> set (db_upload_nonces db) \<and> un_nonce g = n" for g
    using assms by (simp add: nonces_ok_def sql_get_key_iff)
  have "checkGrant t db n i b s = GrantOk g \<longleftrightarrow> sql_get (\<lambda>r. un_nonce r = n) (db_upload_nonces db) = Some g \<and>
      un_identity g = i \<and> un_blob_key g = b \<and> un_size g = s \<and> t \<le> un_expires_at g"
    by (auto simp: checkGrant_def split: option.split)
  then show ?thesis unfolding k by blast
qed

text \<open>Every row of the table was issued, with the expiry that its issue gave it.\<close>

lemma grant_rows_issued:
  "g \<in> set (db_upload_nonces (grant_run t0 ops)) \<Longrightarrow>
   \<exists>ttl. GIssue ttl (un_issued_at g) (un_nonce g) (un_identity g) (un_blob_key g) (un_sha256 g) (un_size g)
      \<in> set ops \<and> un_expires_at g = un_issued_at g + ttl"
proof (induction ops rule: rev_induct)
  case Nil
  then show ?case by (simp add: grant_run_def)
next
  case (snoc op ops)
  show ?case
  proof (cases "g \<in> set (db_upload_nonces (grant_run t0 ops))")
    case True
    with snoc show ?thesis by auto
  next
    case False
    with snoc.prems obtain ttl t n i b h s where
      "op = GIssue ttl t n i b h s" "g = \<lparr>un_nonce = n, un_identity = i, un_blob_key = b, un_size = s,
         un_sha256 = h, un_issued_at = t, un_expires_at = t + ttl\<rparr>"
      by (cases op) (auto simp: grant_run_snoc issueGrant_def sweepExpired_def Let_def sql_simps
          split: option.splits if_splits)
    then show ?thesis by auto
  qed
qed

text \<open>
  An upload grant authorises only the upload it was issued for. If a check passes, then a grant
  with that nonce was issued to that identity for that blob key and that size, and it is no older
  than the lifetime it was issued with.
\<close>
theorem upload_grant_soundness:
  assumes "checkGrant t (grant_run t0 ops) n i b s = GrantOk g"
  shows "\<exists>ttl t'. GIssue ttl t' n i b (un_sha256 g) s \<in> set ops \<and> t \<le> t' + ttl"
proof -
  have g: "g \<in> set (db_upload_nonces (grant_run t0 ops))" "un_nonce g = n" "un_identity g = i"
    "un_blob_key g = b" "un_size g = s" "t \<le> un_expires_at g"
    using assms by (simp_all add: checkGrant_ok_iff [OF grant_run_ok])
  from grant_rows_issued [OF g(1)] g(2-6) show ?thesis by metis
qed

lemma upload_grant_soundness_witness:
  "\<exists>ttl t'. GIssue ttl t' ''n1'' ''codex'' ''blob/a'' ''h'' 12
     \<in> set [GIssue 600 1000 ''n1'' ''codex'' ''blob/a'' ''h'' 12, GSweep 1500] \<and> 1600 \<le> t' + ttl"
proof -
  let ?c = "checkGrant 1600 (grant_run 0 [GIssue 600 1000 ''n1'' ''codex'' ''blob/a'' ''h'' 12, GSweep 1500])
      ''n1'' ''codex'' ''blob/a'' 12"
  have "?c = GrantOk \<lparr>un_nonce = ''n1'', un_identity = ''codex'', un_blob_key = ''blob/a'', un_size = 12,
       un_sha256 = ''h'', un_issued_at = 1000, un_expires_at = 1600\<rparr>"
    by code_simp
  from upload_grant_soundness [OF this] show ?thesis by simp
qed

text \<open>
  Sweeping expired grants changes no authorisation. A sweep that has run by the time of the
  check decides no upload: a check accepts after the sweep exactly what it accepts without it.
\<close>
theorem sweeping_grants_is_invisible:
  assumes "t' \<le> t"
  shows "checkGrant t (snd (sweepExpired t' (grant_run t0 ops))) n i b s = GrantOk g \<longleftrightarrow>
         checkGrant t (grant_run t0 ops) n i b s = GrantOk g"
proof -
  have "nonces_ok (snd (sweepExpired t' (grant_run t0 ops)))"
    using grant_step_ok [OF grant_run_ok, of t0 ops "GSweep t'"] by simp
  from checkGrant_ok_iff [OF this] checkGrant_ok_iff [OF grant_run_ok] assms show ?thesis
    by (auto simp: sweepExpired_def sql_simps)
qed

lemma sweeping_grants_is_invisible_witness:
  "checkGrant 1600 (snd (sweepExpired 1600 (grant_run 0 [GIssue 600 1000 ''n1'' ''codex'' ''blob/a'' ''h'' 12])))
     ''n1'' ''codex'' ''blob/a'' 12 =
   GrantOk \<lparr>un_nonce = ''n1'', un_identity = ''codex'', un_blob_key = ''blob/a'', un_size = 12,
       un_sha256 = ''h'', un_issued_at = 1000, un_expires_at = 1600\<rparr>"
  by (rule iffD2 [OF sweeping_grants_is_invisible]) code_simp+

end
