(* ===== verification/Hub_State.thy ===== *)
theory Hub_State
  imports Json_Rpc Hub_Limits Hub_Observed Hub_Presence Mailbox_Queue Store_Verify Store_Nonces Store_Groups
begin

text \<open>
  What a request handler of the hub works on: the tables of \<open>packages/store/src/schema/audit.ts\<close> and
  \<open>self-reminder.ts\<close>, the state of the hub process, and the environment of one request.

  The environment holds what a handler asks of the world: the clock, random ids, the observed address
  of a socket, what \<open>ws.send\<close> reports, whether a store accepts a write, the hash and signature
  primitives, the constants and functions of the \<open>contracts\<close> package, and the sizes of stored blobs.
  Ids that are drawn repeatedly are indexed by the number of rows already written, so that a run
  determines them.

  A frame is recorded in \<open>h_out\<close> when it is handed to \<open>ws.send\<close>, whatever that reports; the
  answer to the request itself is the handler's result. \<open>h_closing\<close> records the closes that a handler
  asks for. Log lines are not state.

  Writes to \<open>agents.db\<close> are taken to succeed; those to \<open>hub.db\<close>, \<open>audit.db\<close> and the reminder
  store fail as the environment says, and on a constraint.
\<close>

section \<open>Timestamps\<close>

definition pad :: "nat \<Rightarrow> int \<Rightarrow> string" where
  "pad n i = (let s = int_text i in replicate (n - length s) (CHR ''0'') @ s)"

text \<open>Year, month and day of a day number counted from 1970-01-01.\<close>

definition civil_date :: "int \<Rightarrow> int \<times> int \<times> int" where
  "civil_date days =
     (let z = days + 719468; era = z div 146097; doe = z mod 146097;
          yoe = (doe - doe div 1460 + doe div 36524 - doe div 146096) div 365;
          doy = doe - (365 * yoe + yoe div 4 - yoe div 100);
          mp = (5 * doy + 2) div 153; d = doy - (153 * mp + 2) div 5 + 1;
          m = (if mp < 10 then mp + 3 else mp - 9)
      in (yoe + era * 400 + (if m \<le> 2 then 1 else 0), m, d))"

definition date_text :: "secs \<Rightarrow> string" where
  "date_text s = (case civil_date (s div 86400) of (y, m, d) \<Rightarrow> pad 4 y @ ''-'' @ pad 2 m @ ''-'' @ pad 2 d)"

definition time_text :: "secs \<Rightarrow> string" where
  "time_text s = (let r = s mod 86400 in pad 2 (r div 3600) @ '':'' @ pad 2 (r div 60 mod 60) @ '':'' @ pad 2 (r mod 60))"

text \<open>\<open>toISOString\<close>, and the text of a \<open>DATETIME\<close> column.\<close>

definition iso_text :: "millis \<Rightarrow> string" where
  "iso_text ms = date_text (ms div 1000) @ ''T'' @ time_text (ms div 1000) @ ''.'' @ pad 3 (ms mod 1000) @ ''Z''"

definition sql_time :: "secs \<Rightarrow> string" where
  "sql_time s = date_text s @ '' '' @ time_text s"

section \<open>Tables\<close>

record audit_event_row =
  ae_event_id :: string
  ae_schema_version :: int
  ae_event_type :: string
  ae_occurred_at :: string
  ae_correlation_id :: "string option"
  ae_causation_event_id :: "string option"
  ae_producer_id :: "string option"
  ae_identity :: string
  ae_recorded_by_kind :: string
  ae_recorded_by_id :: "string option"
  ae_payload :: string
  ae_payload_digest :: string
  ae_attestation :: "string option"
  ae_stored_at :: millis

record audit_blob_row =
  ab_event_id :: string
  ab_blob_key :: string
  ab_sha256 :: string
  ab_size :: int
  ab_name :: "string option"

record audit_db =
  au_events :: "audit_event_row list"
  au_blobs :: "audit_blob_row list"

definition audit_db_init :: audit_db where
  "audit_db_init = \<lparr>au_events = [], au_blobs = []\<rparr>"

definition audit_pk :: "audit_db \<Rightarrow> bool" where
  "audit_pk db \<longleftrightarrow> sql_unique ae_event_id (au_events db) \<and>
     sql_unique (\<lambda>b. (ab_event_id b, ab_blob_key b)) (au_blobs db)"

datatype reminder_status = RActive | RFiring | RPaused | RFired | RCancelled | RExhausted | RDead

record reminder_row =
  re_id :: string
  re_agent_id :: string
  re_type :: string
  re_schedule_spec :: string
  re_payload :: string
  re_context :: "string option"
  re_idempotency_key :: "string option"
  re_status :: reminder_status
  re_next_fire_at :: "secs option"
  re_fire_count :: nat
  re_last_fired_at :: "secs option"
  re_created_at :: secs
  re_updated_at :: secs
  re_created_by :: string

record reminder_log_row =
  rl_reminder_id :: string
  rl_agent_id :: string
  rl_scheduled_at :: secs
  rl_fired_at :: secs
  rl_delivery_status :: string
  rl_hub_msg_id :: "string option"
  rl_error :: "string option"

record reminder_decision_row =
  rd_reminder_id :: string
  rd_scheduled_at :: secs
  rd_decision :: string
  rd_approval_ref :: string
  rd_decided_at :: millis
  rd_decided_by :: "string option"

record reminder_db =
  rm_reminders :: "reminder_row list"
  rm_log :: "reminder_log_row list"
  rm_health :: "(string \<times> string) list"
  rm_events :: "(string \<times> json \<times> secs) list"
  rm_decisions :: "reminder_decision_row list"

definition reminder_db_init :: reminder_db where
  "reminder_db_init = \<lparr>rm_reminders = [], rm_log = [], rm_health = [], rm_events = [], rm_decisions = []\<rparr>"

text \<open>The primary key, and the partial unique index over active rows that carry a key.\<close>

definition keyed_active :: "reminder_row \<Rightarrow> bool" where
  "keyed_active r \<longleftrightarrow> re_status r = RActive \<and> re_idempotency_key r \<noteq> None"

definition reminder_pk :: "reminder_db \<Rightarrow> bool" where
  "reminder_pk db \<longleftrightarrow> sql_unique re_id (rm_reminders db) \<and>
     sql_unique_where keyed_active (\<lambda>r. (re_agent_id r, re_idempotency_key r)) (rm_reminders db)"

section \<open>The environment of a request\<close>

record contracts =
  ct_freshness :: int
  ct_preimage :: "string \<Rightarrow> string \<Rightarrow> string \<Rightarrow> int \<Rightarrow> string \<Rightarrow> string"
  ct_SEND_CONFLICT :: int
  ct_EGRESS_DENIED :: int
  ct_SERVER_ERROR :: int
  ct_max_receive_batch :: nat
  ct_max_attachments :: nat
  ct_max_blob_bytes :: int
  ct_max_attachments_bytes :: int
  ct_audit_capability :: "(string \<times> json) list"
  ct_schema_version :: int
  ct_deriveBlobKey :: "string \<Rightarrow> string \<Rightarrow> string"
  ct_scheduleError :: "string \<Rightarrow> string \<Rightarrow> string option"
  ct_grant_ttl :: int

record env =
  en_contracts :: contracts
  en_now :: millis
  en_observed :: "socket \<Rightarrow> string option"
  en_msg_id :: string
  en_event_id :: "nat \<Rightarrow> string"
  en_grant_nonce :: "nat \<Rightarrow> string"
  en_send :: "nat \<Rightarrow> socket \<Rightarrow> json \<Rightarrow> send_report"
  en_sha256 :: "string \<Rightarrow> string"
  en_verify :: verify_params
  en_dormancy :: "int option"
  en_lease_seconds :: int
  en_blob :: "string \<Rightarrow> int option"
  en_blob_base_url :: string
  en_date :: "string \<Rightarrow> millis option"
  en_hub_error :: "string option"
  en_audit_read_error :: "string option"
  en_audit_error :: "string option"
  en_reminder_error :: "string option"

abbreviation now_secs :: "env \<Rightarrow> secs" where
  "now_secs env \<equiv> sql_now (en_now env)"

section \<open>The hub process\<close>

record hub =
  h_agents :: agents_db
  h_hub :: hub_db
  h_audit :: audit_db
  h_reminders :: reminder_db
  h_presence :: presence
  h_nonces :: nonce_window
  h_refusals :: refusal_counts
  h_out :: "(socket \<times> json) list"
  h_closing :: "(socket \<times> int \<times> string) list"

definition hub_init :: "secs \<Rightarrow> int \<Rightarrow> hub" where
  "hub_init t freshness =
     \<lparr>h_agents = agents_db_init t, h_hub = hub_db_init, h_audit = audit_db_init, h_reminders = reminder_db_init,
      h_presence = presence_new, h_nonces = nonce_window_new freshness, h_refusals = [], h_out = [], h_closing = []\<rparr>"

text \<open>A handler answers with a frame, or throws.\<close>

datatype reply = Reply json | Thrown string

fun reply_frame :: "reply \<Rightarrow> json option" where
  "reply_frame (Reply f) = Some f"
| "reply_frame (Thrown e) = None"

text \<open>\<open>ws.send\<close> of one frame: what it reports, and the frame in the record of what was handed over.\<close>

definition ws_send :: "env \<Rightarrow> hub \<Rightarrow> socket \<Rightarrow> json \<Rightarrow> send_report \<times> hub" where
  "ws_send env h ws frame = (en_send env (length (h_out h)) ws frame, h\<lparr>h_out := h_out h @ [(ws, frame)]\<rparr>)"

definition ws_close :: "hub \<Rightarrow> socket \<Rightarrow> int \<Rightarrow> string \<Rightarrow> hub" where
  "ws_close h ws c reason = h\<lparr>h_closing := h_closing h @ [(ws, c, reason)]\<rparr>"

text \<open>\<open>onlineAgents.get(i) ?? proxyMap.get(i)\<close>.\<close>

definition live_socket :: "presence \<Rightarrow> string \<Rightarrow> socket option" where
  "live_socket p i = (case online_socket p i of Some ws \<Rightarrow> Some ws | None \<Rightarrow> ps_proxyMap p i)"

lemma ws_send_frame [simp]:
  "fst (ws_send env h ws f) = en_send env (length (h_out h)) ws f"
  "snd (ws_send env h ws f) = h\<lparr>h_out := h_out h @ [(ws, f)]\<rparr>"
  by (simp_all add: ws_send_def)

section \<open>A concrete environment\<close>

text \<open>
  For examples: the clock stands at 1000 s, every send writes its frame, no store fails, no blob is
  stored, and the primitives are simple functions. No lemma about the handlers refers to it.
\<close>

definition plain_contracts :: contracts where
  "plain_contracts =
     \<lparr>ct_freshness = 120, ct_preimage = (\<lambda>m k n iat p. m @ k @ n @ int_text iat @ p), ct_SEND_CONFLICT = - 32030,
      ct_EGRESS_DENIED = - 32016, ct_SERVER_ERROR = - 32000, ct_max_receive_batch = 100, ct_max_attachments = 8,
      ct_max_blob_bytes = 1000, ct_max_attachments_bytes = 4000, ct_audit_capability = [(''version'', JInt 1)],
      ct_schema_version = 1, ct_deriveBlobKey = (\<lambda>d n. d), ct_scheduleError = (\<lambda>ty s. None), ct_grant_ttl = 600\<rparr>"

definition plain_env :: env where
  "plain_env =
     \<lparr>en_contracts = plain_contracts, en_now = 1000000, en_observed = (\<lambda>ws. None), en_msg_id = ''msg_1'',
      en_event_id = (\<lambda>n. ''evt_'' @ int_text (int n)), en_grant_nonce = (\<lambda>n. ''grant_'' @ int_text (int n)),
      en_send = (\<lambda>n ws f. Wrote 10), en_sha256 = (\<lambda>s. ''#'' @ s),
      en_verify = \<lparr>vp_parsePublicKey = Some, vp_ed25519 = (\<lambda>k m s. Some True)\<rparr>, en_dormancy = Some 10800,
      en_lease_seconds = 300, en_blob = (\<lambda>k. None), en_blob_base_url = ''http://127.0.0.1:3000'',
      en_date = (\<lambda>s. Some 2000000), en_hub_error = None, en_audit_read_error = None, en_audit_error = None,
      en_reminder_error = None\<rparr>"

section \<open>Dates\<close>

lemma civil_date_epoch: "civil_date 0 = (1970, 1, 1)" "civil_date 19782 = (2024, 2, 29)"
  by code_simp+

lemma iso_text_example: "iso_text 1709210096789 = ''2024-02-29T12:34:56.789Z''"
  by code_simp

end
