(* ===== verification/Hub_Signature.thy ===== *)
theory Hub_Signature
  imports Hub_State
begin

text \<open>
  The signature gate of the JSON-RPC surface, \<open>packages/hub/src/signature.ts\<close>.

  The pre-image encoder, the freshness window and the Ed25519 primitive are parameters of the
  environment; the nonce window, the refusal counters and the key store are the models of
  \<open>Store_Verify\<close>, \<open>Hub_Limits\<close> and \<open>Store_Keys\<close>. The lemmas give the gate exactly, on both verdicts, and
  what it leaves behind.
\<close>

definition SIGNATURE_INVALID :: int where "SIGNATURE_INVALID = - 32012"
definition KEY_NOT_APPROVED :: int where "KEY_NOT_APPROVED = - 32014"

datatype signature_refusal =
    Unsigned | Malformed | Stale | ReplayedNonce | KeyNotApproved | SignedWithWrongKey | InvalidSignature

fun refusal_label :: "signature_refusal \<Rightarrow> string" where
  "refusal_label Unsigned = ''unsigned''"
| "refusal_label Malformed = ''malformed''"
| "refusal_label Stale = ''stale''"
| "refusal_label ReplayedNonce = ''replayed-nonce''"
| "refusal_label KeyNotApproved = ''key-not-approved''"
| "refusal_label SignedWithWrongKey = ''wrong-key''"
| "refusal_label InvalidSignature = ''invalid''"

datatype signature_verdict =
    SigOk bool
  | SigRefused int string signature_refusal "json option"

definition requiresKey :: "agents_db \<Rightarrow> string \<Rightarrow> bool" where
  "requiresKey db identity =
     (case sql_get (\<lambda>a. ag_identity a = identity) (db_agents db) of
        None \<Rightarrow> False
      | Some agent \<Rightarrow>
          (case ag_type agent of
             None \<Rightarrow> False
           | Some ty \<Rightarrow>
               if ty = [] then False
               else (case getType db ty of None \<Rightarrow> False | Some r \<Rightarrow> ty_requires_key r = 1)))"

text \<open>The fields of a well-formed envelope: kid, nonce, iat and value.\<close>

definition sig_fields :: "json option \<Rightarrow> (string \<times> string \<times> int \<times> string) option" where
  "sig_fields sig =
     (let f = (\<lambda>k. Option.bind sig (\<lambda>s. jget s k))
      in case (as_string (f ''alg''), as_string (f ''kid''), as_string (f ''nonce''), as_integer (f ''iat''),
               as_string (f ''value'')) of
           (Some alg, Some kid, Some nonce, Some iat, Some v) \<Rightarrow>
             if alg = ''ed25519'' then Some (kid, nonce, iat, v) else None
         | _ \<Rightarrow> None)"

fun key_status_json :: "no_key_reason option \<Rightarrow> json" where
  "key_status_json None = JNull"
| "key_status_json (Some KMissing) = JStr ''missing''"
| "key_status_json (Some KPending) = JStr ''pending''"
| "key_status_json (Some KDenied) = JStr ''denied''"
| "key_status_json (Some KRevoked) = JStr ''revoked''"

definition signed_bytes :: "string \<Rightarrow> string" where
  "signed_bytes raw = coalesce (rawParams raw) ''{}''"

definition verifyRequestInner ::
  "env \<Rightarrow> agents_db \<Rightarrow> nonce_window \<Rightarrow> string \<Rightarrow> string \<Rightarrow> json option \<Rightarrow> string \<Rightarrow>
   signature_verdict \<times> nonce_window" where
  "verifyRequestInner env db w identity method sig raw =
     (if \<not> truthy sig then
        (if \<not> requiresKey db identity then (SigOk False, w)
         else (SigRefused SIGNATURE_INVALID
                 (''identity '' @ quoted identity @ '' requires a signature on every request'') Unsigned None, w))
      else (case sig_fields sig of
              None \<Rightarrow> (SigRefused SIGNATURE_INVALID ''malformed sig'' Malformed None, w)
            | Some (kid, nonce, iat, v) \<Rightarrow>
                (let freshness = ct_freshness (en_contracts env)
                 in if \<bar>now_secs env - iat\<bar> > freshness then
                      (SigRefused SIGNATURE_INVALID
                         (''iat outside the '' @ utf8 0xB1 @ int_text freshness @ ''s freshness window'') Stale None, w)
                    else (case claim w identity nonce iat of
                            (False, w') \<Rightarrow>
                              (SigRefused SIGNATURE_INVALID ''nonce already seen in this window'' ReplayedNonce None, w')
                          | (True, w') \<Rightarrow>
                              (let preimage = ct_preimage (en_contracts env) method kid nonce iat (signed_bytes raw)
                               in case verifyForIdentity (en_verify env) db identity kid preimage v of
                                    VerifyOk _ \<Rightarrow> (SigOk True, w')
                                  | NoApprovedKey status \<Rightarrow>
                                      (SigRefused KEY_NOT_APPROVED
                                         (''identity '' @ quoted identity @ '' has no approved signing key'') KeyNotApproved
                                         (Some (JObj [(''code'', JStr ''KEY_NOT_APPROVED''), (''identity'', JStr identity),
                                                      (''key_status'', key_status_json status)])), w')
                                  | WrongKey \<Rightarrow>
                                      (SigRefused SIGNATURE_INVALID
                                         ''signed with a key that is not this identity's approved key''
                                         SignedWithWrongKey None, w')
                                  | BadSignature \<Rightarrow>
                                      (SigRefused SIGNATURE_INVALID ''signature does not verify''
                                         InvalidSignature None, w'))))))"

definition verifyRequest ::
  "env \<Rightarrow> hub \<Rightarrow> string \<Rightarrow> string \<Rightarrow> json option \<Rightarrow> string \<Rightarrow> signature_verdict \<times> hub" where
  "verifyRequest env h identity method sig raw =
     (case verifyRequestInner env (h_agents h) (h_nonces h) identity method sig raw of
        (SigOk signed, w) \<Rightarrow> (SigOk signed, h\<lparr>h_nonces := w\<rparr>)
      | (SigRefused c m r d, w) \<Rightarrow>
          (SigRefused c m r d,
           h\<lparr>h_nonces := w, h_refusals := recordRefusal (h_refusals h) SignatureRefusal (refusal_label r)\<rparr>))"

definition sweepExpiredNonces :: "hub \<Rightarrow> secs \<Rightarrow> hub" where
  "sweepExpiredNonces h now = h\<lparr>h_nonces := sweep_nonces (h_nonces h) now\<rparr>"

section \<open>The gate\<close>

text \<open>A signature that the identity's approved key made over the request.\<close>

definition key_signed :: "env \<Rightarrow> agents_db \<Rightarrow> string \<Rightarrow> string \<Rightarrow> json option \<Rightarrow> string \<Rightarrow> bool" where
  "key_signed env db identity method sig raw \<longleftrightarrow>
     (case (sig_fields sig, approvedKey db identity) of
        (Some (kid, nonce, iat, v), Some key) \<Rightarrow>
          k_fingerprint key = kid \<and> \<bar>now_secs env - iat\<bar> \<le> ct_freshness (en_contracts env) \<and>
          verifySignature (en_verify env) (k_public_key key)
            (ct_preimage (en_contracts env) method kid nonce iat (signed_bytes raw)) v
      | _ \<Rightarrow> False)"

definition spent_nonce :: "nonce_window \<Rightarrow> string \<Rightarrow> json option \<Rightarrow> bool" where
  "spent_nonce w identity sig \<longleftrightarrow>
     (case sig_fields sig of None \<Rightarrow> False | Some (kid, nonce, iat, v) \<Rightarrow> remembered w identity nonce \<noteq> None)"

lemma claimD:
  "claim w i n t = (True, w') \<Longrightarrow> remembered w i n = None"
  "claim w i n t = (False, w') \<Longrightarrow> remembered w i n \<noteq> None"
  using claim_new_iff [of w i n t] by auto

lemma inner_signed_iff:
  "fst (verifyRequestInner env db w i m sig raw) = SigOk True \<longleftrightarrow>
     truthy sig \<and> key_signed env db i m sig raw \<and> \<not> spent_nonce w i sig"
  by (auto simp: verifyRequestInner_def Let_def key_signed_def spent_nonce_def verifyForIdentity_def
      split: option.splits prod.splits bool.splits if_splits dest: claimD)

lemma inner_unsigned_iff:
  "fst (verifyRequestInner env db w i m sig raw) = SigOk False \<longleftrightarrow> \<not> truthy sig \<and> \<not> requiresKey db i"
  by (auto simp: verifyRequestInner_def Let_def verifyForIdentity_def
      split: option.splits prod.splits bool.splits if_splits)

lemma verifyRequest_fst: "fst (verifyRequest env h i m sig raw) =
    fst (verifyRequestInner env (h_agents h) (h_nonces h) i m sig raw)"
  by (auto simp: verifyRequest_def split: prod.split signature_verdict.split)

lemma verifyRequest_frame [simp]:
  "h_agents (snd (verifyRequest env h i m sig raw)) = h_agents h"
  "h_hub (snd (verifyRequest env h i m sig raw)) = h_hub h"
  "h_audit (snd (verifyRequest env h i m sig raw)) = h_audit h"
  "h_reminders (snd (verifyRequest env h i m sig raw)) = h_reminders h"
  "h_presence (snd (verifyRequest env h i m sig raw)) = h_presence h"
  "h_out (snd (verifyRequest env h i m sig raw)) = h_out h"
  "h_closing (snd (verifyRequest env h i m sig raw)) = h_closing h"
  by (auto simp: verifyRequest_def split: prod.split signature_verdict.split)

lemma KEY_NOT_APPROVED_reason:
  assumes "fst (verifyRequest env h i m sig raw) = SigRefused KEY_NOT_APPROVED msg r d"
  shows "approvedKey (h_agents h) i = None \<and> r = KeyNotApproved"
  using assms unfolding verifyRequest_fst
  by (auto simp: verifyRequestInner_def Let_def verifyForIdentity_def KEY_NOT_APPROVED_def SIGNATURE_INVALID_def
      split: option.splits prod.splits bool.splits if_splits)

text \<open>
  C20: There is no unsigned path for an identity whose type requires a key, and no way round the
  approved key. The gate passes a request exactly in two cases: it carries no signature and the
  identity's type does not require one; or it carries a well-formed and fresh signature that the
  approved key of that identity, named by its fingerprint, made over the method and the bytes of the
  parameters, under a nonce that the window does not remember.
\<close>
theorem signature_gate_exact:
  "fst (verifyRequest env h i m sig raw) = SigOk signed \<longleftrightarrow>
     (if signed then truthy sig \<and> key_signed env (h_agents h) i m sig raw \<and> \<not> spent_nonce (h_nonces h) i sig
      else \<not> truthy sig \<and> \<not> requiresKey (h_agents h) i)"
  unfolding verifyRequest_fst by (cases signed) (simp_all add: inner_signed_iff inner_unsigned_iff)

section \<open>What a verdict leaves behind\<close>

lemma verifyRequest_nonces:
  "h_nonces (snd (verifyRequest env h i m sig raw)) =
     snd (verifyRequestInner env (h_agents h) (h_nonces h) i m sig raw)"
  by (auto simp: verifyRequest_def split: prod.split signature_verdict.split)

lemma inner_nonces:
  "snd (verifyRequestInner env db w i m sig raw) =
     (if truthy sig then
        (case sig_fields sig of
           None \<Rightarrow> w
         | Some (kid, nonce, iat, v) \<Rightarrow>
             if \<bar>now_secs env - iat\<bar> > ct_freshness (en_contracts env) then w else snd (claim w i nonce iat))
      else w)"
  by (auto simp: verifyRequestInner_def Let_def verifyForIdentity_def
      split: option.splits prod.splits bool.splits if_splits)

text \<open>An envelope, well-formed.\<close>

definition plain_sig :: "string \<Rightarrow> int \<Rightarrow> json" where
  "plain_sig nonce iat = JObj [(''alg'', JStr ''ed25519''), (''kid'', JStr ''fp''), (''nonce'', JStr nonce),
     (''iat'', JInt iat), (''value'', JStr ''AA'')]"

text \<open>
  A nonce is spent whether or not the signature verifies, and every refusal is counted once.
  After a request with a well-formed and fresh signature its nonce is remembered for the identity, so
  no later request with it passes, whatever the first one's fate; and the gate adds one to exactly the
  counter of the reason it refused for, and nothing where it passed.
\<close>
theorem nonce_spent_and_refusal_counted:
  "(truthy sig \<and> sig_fields sig = Some (kid, nonce, iat, v) \<and> \<bar>now_secs env - iat\<bar> \<le> ct_freshness (en_contracts env) \<longrightarrow>
      remembered (h_nonces (snd (verifyRequest env h i m sig raw))) i nonce \<noteq> None) \<and>
   h_refusals (snd (verifyRequest env h i m sig raw)) =
     (case fst (verifyRequest env h i m sig raw) of
        SigOk _ \<Rightarrow> h_refusals h
      | SigRefused c msg r d \<Rightarrow> recordRefusal (h_refusals h) SignatureRefusal (refusal_label r))"
proof -
  have "h_refusals (snd (verifyRequest env h i m sig raw)) =
     (case fst (verifyRequest env h i m sig raw) of
        SigOk _ \<Rightarrow> h_refusals h
      | SigRefused c msg r d \<Rightarrow> recordRefusal (h_refusals h) SignatureRefusal (refusal_label r))"
    by (auto simp: verifyRequest_def split: prod.split signature_verdict.split)
  then show ?thesis by (auto simp: verifyRequest_nonces inner_nonces remembered_claim)
qed

lemma nonce_spent_and_refusal_counted_witness:
  "remembered (h_nonces (snd (verifyRequest plain_env (hub_init 0 120) ''kim'' ''mesh.send'' (Some (plain_sig ''n1'' 1000)) ''{}'')))
     ''kim'' ''n1'' \<noteq> None"
proof -
  have "truthy (Some (plain_sig ''n1'' 1000))" by (simp add: plain_sig_def)
  moreover have "sig_fields (Some (plain_sig ''n1'' 1000)) = Some (''fp'', ''n1'', 1000, ''AA'')"
    by (simp add: plain_sig_def sig_fields_def)
  moreover have "\<bar>now_secs plain_env - 1000\<bar> \<le> ct_freshness (en_contracts plain_env)" by code_simp
  ultimately show ?thesis using nonce_spent_and_refusal_counted by blast
qed

end
