(* ===== verification/Hub_Audit.thy ===== *)
theory Hub_Audit
  imports Hub_State
begin

text \<open>
  The audit record: \<open>packages/hub/src/rpc/audit.ts\<close>, \<open>blobs.ts\<close> and the audit statements of \<open>db.ts\<close>.

  An event and its references to blobs are written in one transaction, so \<open>audit_write\<close> either gives
  a new store or the text of what the driver throws. \<open>recordMeshEvent\<close> and \<open>recordIdentityEvent\<close> swallow
  that, the append handler turns it into an error by the words it contains.

  The lemmas: what an append adds and where each field of it comes from, that the record only grows,
  that it is written whole or not at all, and which upload grants a prepare call issues.
\<close>

section \<open>Statements\<close>

definition stmtInsertAuditEvent :: "audit_db \<Rightarrow> audit_event_row \<Rightarrow> audit_db option" where
  "stmtInsertAuditEvent db row =
     (if sql_exists (\<lambda>e. ae_event_id e = ae_event_id row) (au_events db) then None
      else Some (db\<lparr>au_events := au_events db @ [row]\<rparr>))"

definition stmtInsertAuditBlob :: "audit_db \<Rightarrow> audit_blob_row \<Rightarrow> audit_db option" where
  "stmtInsertAuditBlob db row =
     (if sql_exists (\<lambda>b. (ab_event_id b, ab_blob_key b) = (ab_event_id row, ab_blob_key row)) (au_blobs db) then None
      else Some (db\<lparr>au_blobs := au_blobs db @ [row]\<rparr>))"

definition stmtSelectAuditEvent :: "audit_db \<Rightarrow> string \<Rightarrow> audit_event_row option" where
  "stmtSelectAuditEvent db eventId = sql_get (\<lambda>e. ae_event_id e = eventId) (au_events db)"

primrec insert_blobs :: "audit_db \<Rightarrow> audit_blob_row list \<Rightarrow> audit_db option" where
  "insert_blobs db [] = Some db"
| "insert_blobs db (r # rs) = Option.bind (stmtInsertAuditBlob db r) (\<lambda>db'. insert_blobs db' rs)"

text \<open>The transaction: the text of the error, or the store with the event and every reference.\<close>

definition audit_write :: "env \<Rightarrow> audit_db \<Rightarrow> audit_event_row \<Rightarrow> audit_blob_row list \<Rightarrow> string + audit_db" where
  "audit_write env db row refs =
     (case en_audit_error env of
        Some e \<Rightarrow> Inl e
      | None \<Rightarrow>
          (case stmtInsertAuditEvent db row of
             None \<Rightarrow> Inl ''UNIQUE constraint failed: audit_events.event_id''
           | Some db1 \<Rightarrow>
               (case insert_blobs db1 refs of
                  None \<Rightarrow> Inl ''UNIQUE constraint failed: audit_event_blobs.event_id, audit_event_blobs.blob_key''
                | Some db2 \<Rightarrow> Inr db2)))"

section \<open>Events the hub records itself\<close>

record mesh_event =
  mv_messageId :: string
  mv_from :: string
  mv_to :: string
  mv_sentBy :: string
  mv_content :: string
  mv_replyTo :: json
  mv_senderSig :: "json option"
  mv_senderParams :: string

datatype mesh_event_type = EvSent | EvDelivered | EvPending | EvRecalled

fun event_type_text :: "mesh_event_type \<Rightarrow> string" where
  "event_type_text EvSent = ''mesh.message.sent''"
| "event_type_text EvDelivered = ''mesh.message.delivered''"
| "event_type_text EvPending = ''mesh.message.pending''"
| "event_type_text EvRecalled = ''mesh.message.recalled''"

definition mesh_payload :: "env \<Rightarrow> string \<Rightarrow> mesh_event_type \<Rightarrow> mesh_event \<Rightarrow> json" where
  "mesh_payload env eventId ty f =
     JObj [(''schema_version'', JInt 1), (''event_id'', JStr eventId), (''event_type'', JStr (event_type_text ty)),
           (''occurred_at'', JStr (iso_text (en_now env))), (''correlation_id'', JStr (mv_messageId f)),
           (''message'', JObj [(''id'', JStr (mv_messageId f)), (''from'', JStr (mv_from f)), (''to'', JStr (mv_to f)),
              (''sent_by'', JStr (mv_sentBy f)), (''content'', JStr (mv_content f)), (''reply_to'', mv_replyTo f)])]"

definition mesh_event_row :: "env \<Rightarrow> string \<Rightarrow> mesh_event_type \<Rightarrow> mesh_event \<Rightarrow> audit_event_row" where
  "mesh_event_row env eventId ty f =
     (let payload = json_text (mesh_payload env eventId ty f)
      in \<lparr>ae_event_id = eventId, ae_schema_version = 1, ae_event_type = event_type_text ty,
          ae_occurred_at = iso_text (en_now env), ae_correlation_id = Some (mv_messageId f),
          ae_causation_event_id = None, ae_producer_id = None, ae_identity = mv_from f,
          ae_recorded_by_kind = ''hub'', ae_recorded_by_id = None, ae_payload = payload,
          ae_payload_digest = en_sha256 env payload,
          ae_attestation = (if truthy (mv_senderSig f)
             then Some (json_text (JObj [(''covers'', JStr ''mesh.send.params''), (''params'', JStr (mv_senderParams f)),
                                         (''sig'', the (mv_senderSig f))]))
             else None),
          ae_stored_at = en_now env\<rparr>)"

definition next_event_id :: "env \<Rightarrow> audit_db \<Rightarrow> string" where
  "next_event_id env db = ''evt_'' @ en_event_id env (length (au_events db))"

definition recordMeshEvent :: "env \<Rightarrow> mesh_event_type \<Rightarrow> mesh_event \<Rightarrow> audit_db \<Rightarrow> audit_db" where
  "recordMeshEvent env ty f db =
     (case audit_write env db (mesh_event_row env (next_event_id env db) ty f) [] of
        Inl e \<Rightarrow> db
      | Inr db' \<Rightarrow> db')"

definition nullable :: "string option \<Rightarrow> json" where
  "nullable x = (case x of None \<Rightarrow> JNull | Some s \<Rightarrow> JStr s)"

definition recordDelivered :: "env \<Rightarrow> message_row \<Rightarrow> audit_db \<Rightarrow> audit_db" where
  "recordDelivered env row =
     recordMeshEvent env EvDelivered
       \<lparr>mv_messageId = ms_id row, mv_from = ms_from_agent row, mv_to = ms_to_agent row,
        mv_sentBy = coalesce (ms_sent_by row) (ms_from_agent row), mv_content = ms_content row,
        mv_replyTo = nullable (ms_reply_to row), mv_senderSig = None, mv_senderParams = ''{}''\<rparr>"

definition recordRecalled :: "env \<Rightarrow> message_row \<Rightarrow> json option \<Rightarrow> audit_db \<Rightarrow> audit_db" where
  "recordRecalled env row senderSig =
     recordMeshEvent env EvRecalled
       \<lparr>mv_messageId = ms_id row, mv_from = ms_from_agent row, mv_to = ms_to_agent row,
        mv_sentBy = coalesce (ms_sent_by row) (ms_from_agent row), mv_content = [], mv_replyTo = JNull,
        mv_senderSig = senderSig, mv_senderParams = ''{}''\<rparr>"

text \<open>The one identity event of the code is a change of type.\<close>

definition identity_event_row :: "env \<Rightarrow> string \<Rightarrow> string \<Rightarrow> json \<Rightarrow> string option \<Rightarrow> audit_event_row" where
  "identity_event_row env eventId identity change actor =
     (let payload = json_text (JObj
            [(''schema_version'', JInt 1), (''event_id'', JStr eventId), (''event_type'', JStr ''mesh.identity.type_changed''),
             (''occurred_at'', JStr (iso_text (en_now env))), (''correlation_id'', JStr identity),
             (''identity'', JStr identity), (''actor'', nullable actor), (''change'', change)])
      in \<lparr>ae_event_id = eventId, ae_schema_version = 1, ae_event_type = ''mesh.identity.type_changed'',
          ae_occurred_at = iso_text (en_now env), ae_correlation_id = Some identity,
          ae_causation_event_id = None, ae_producer_id = None, ae_identity = identity,
          ae_recorded_by_kind = ''hub'', ae_recorded_by_id = None, ae_payload = payload,
          ae_payload_digest = en_sha256 env payload, ae_attestation = None, ae_stored_at = en_now env\<rparr>)"

definition recordIdentityEvent :: "env \<Rightarrow> string \<Rightarrow> json \<Rightarrow> string option \<Rightarrow> audit_db \<Rightarrow> audit_db" where
  "recordIdentityEvent env identity change actor db =
     (case audit_write env db (identity_event_row env (next_event_id env db) identity change actor) [] of
        Inl e \<Rightarrow> db
      | Inr db' \<Rightarrow> db')"

section \<open>Preparing blobs\<close>

definition is_lower_hex :: "char \<Rightarrow> bool" where
  "is_lower_hex c \<longleftrightarrow> (let n = of_char c :: nat in 48 \<le> n \<and> n \<le> 57 \<or> 97 \<le> n \<and> n \<le> 102)"

definition sha256_hex :: "string \<Rightarrow> bool" where
  "sha256_hex s \<longleftrightarrow> length s = 64 \<and> list_all is_lower_hex s"

text \<open>The identity a socket speaks for; an empty one is none.\<close>

definition identity_of :: "presence \<Rightarrow> socket \<Rightarrow> string option" where
  "identity_of p ws = (case ps_wsIdentities p ws of Some [] \<Rightarrow> None | r \<Rightarrow> r)"

lemma identity_of_Some_iff: "identity_of p ws = Some i \<longleftrightarrow> ps_wsIdentities p ws = Some i \<and> i \<noteq> []"
  by (auto simp: identity_of_def split: option.split list.split)

record blob_request =
  bq_sha256 :: string
  bq_size :: int
  bq_name :: string

text \<open>One entry: what is wrong with it, or its digest, size and name.\<close>

definition blob_entry :: "contracts \<Rightarrow> json \<Rightarrow> string + blob_request" where
  "blob_entry ct entry =
     (if \<not> is_object entry then Inl ''each blob must be an object''
      else (case as_string (jget entry ''sha256'') of
              None \<Rightarrow> Inl ''blob.sha256 must be 64 lowercase hex characters''
            | Some sha256 \<Rightarrow>
                if \<not> sha256_hex sha256 then Inl ''blob.sha256 must be 64 lowercase hex characters''
                else (case as_integer (jget entry ''size'') of
                        None \<Rightarrow> Inl ''blob.size must be a non-negative integer''
                      | Some sz \<Rightarrow>
                          if sz < 0 then Inl ''blob.size must be a non-negative integer''
                          else if sz > ct_max_blob_bytes ct then
                            Inl (''blob '' @ sha256 @ '' is '' @ int_text sz @ '' bytes, over max_blob_bytes '' @
                                 int_text (ct_max_blob_bytes ct))
                          else (case given_string (jget entry ''name'') of
                                  None \<Rightarrow> Inl (''blob.name is required '' @ utf8 0x2014 @ '' the storage key derives from it'')
                                | Some name \<Rightarrow> Inr \<lparr>bq_sha256 = sha256, bq_size = sz, bq_name = name\<rparr>))))"

primrec blob_entries :: "contracts \<Rightarrow> json list \<Rightarrow> string + blob_request list" where
  "blob_entries ct [] = Inr []"
| "blob_entries ct (e # es) =
     (case blob_entry ct e of
        Inl m \<Rightarrow> Inl m
      | Inr b \<Rightarrow> (case blob_entries ct es of Inl m \<Rightarrow> Inl m | Inr bs \<Rightarrow> Inr (b # bs)))"

text \<open>\<open>blobStat(key)\<close> finds a file of the declared size.\<close>

definition blob_present :: "env \<Rightarrow> string \<Rightarrow> int \<Rightarrow> bool" where
  "blob_present env key sz \<longleftrightarrow> en_blob env key = Some sz"

text \<open>
  The answer for one blob, and a grant where it is missing; \<open>None\<close> is the throw of an insert that
  the primary key refuses.
\<close>

definition prepare_one :: "env \<Rightarrow> string \<Rightarrow> agents_db \<Rightarrow> blob_request \<Rightarrow> (json \<times> agents_db) option" where
  "prepare_one env identity db b =
     (let key = ct_deriveBlobKey (en_contracts env) (bq_sha256 b) (bq_name b)
      in if blob_present env key (bq_size b)
         then Some (JObj [(''sha256'', JStr (bq_sha256 b)), (''blob_key'', JStr key), (''status'', JStr ''present'')], db)
         else (case issueGrant (ct_grant_ttl (en_contracts env)) (now_secs env)
                      (en_grant_nonce env (length (db_upload_nonces db))) db identity key (bq_sha256 b) (bq_size b) of
                 None \<Rightarrow> None
               | Some (grant, db') \<Rightarrow>
                   Some (JObj [(''sha256'', JStr (bq_sha256 b)), (''blob_key'', JStr key), (''status'', JStr ''missing''),
                     (''upload'', JObj [(''method'', JStr ''PUT''),
                        (''url'', JStr (en_blob_base_url env @ ''/api/v1/audit/blobs/'' @ key)),
                        (''nonce'', JStr (un_nonce grant)),
                        (''expires_at'', JStr (date_text (un_expires_at grant) @ ''T'' @ time_text (un_expires_at grant) @ ''Z''))])],
                     db')))"

primrec prepare_all ::
  "env \<Rightarrow> string \<Rightarrow> agents_db \<Rightarrow> blob_request list \<Rightarrow> json list option \<times> agents_db" where
  "prepare_all env identity db [] = (Some [], db)"
| "prepare_all env identity db (b # bs) =
     (case prepare_one env identity db b of
        None \<Rightarrow> (None, db)
      | Some (j, db') \<Rightarrow>
          (case prepare_all env identity db' bs of (r, db'') \<Rightarrow> (map_option ((#) j) r, db'')))"

definition handlePrepareBlobs :: "env \<Rightarrow> hub \<Rightarrow> socket \<Rightarrow> json \<Rightarrow> json option \<Rightarrow> reply \<times> hub" where
  "handlePrepareBlobs env h ws params i =
     (let ct = en_contracts env
      in case identity_of (h_presence h) ws of
           None \<Rightarrow> (Reply (rpcError i INVALID_REQUEST ''Not connected. Call mesh.connect first.''), h)
         | Some identity \<Rightarrow>
             (case given_string (jget params ''event_id'') of
                None \<Rightarrow> (Reply (rpcError i INVALID_PARAMS ''params.event_id is required''), h)
              | Some eventId \<Rightarrow>
                  (case as_array (jget params ''blobs'') of
                     None \<Rightarrow> (Reply (rpcError i INVALID_PARAMS ''params.blobs must be an array''), h)
                   | Some requested \<Rightarrow>
                       if length requested > ct_max_attachments ct then
                         (Reply (rpcError i INVALID_PARAMS
                            (''too many attachments: '' @ int_text (int (length requested)) @ '' > '' @
                             int_text (int (ct_max_attachments ct)))), h)
                       else (case blob_entries ct requested of
                               Inl m \<Rightarrow> (Reply (rpcError i INVALID_PARAMS m), h)
                             | Inr blobs \<Rightarrow>
                                 (let total = sum_list (map bq_size blobs)
                                  in if total > ct_max_attachments_bytes ct then
                                       (Reply (rpcError i INVALID_PARAMS
                                          (''declared attachments total '' @ int_text total @ '' bytes, over '' @
                                           ''max_attachments_bytes_per_event '' @ int_text (ct_max_attachments_bytes ct))), h)
                                     else (case prepare_all env identity (h_agents h) blobs of
                                             (None, db) \<Rightarrow> (Thrown ''UNIQUE constraint failed: upload_nonces.nonce'', h\<lparr>h_agents := db\<rparr>)
                                           | (Some rs, db) \<Rightarrow>
                                               (Reply (rpcResult i (JObj [(''blobs'', JArr rs)])), h\<lparr>h_agents := db\<rparr>)))))))"

section \<open>Appending\<close>

definition AUDIT_MISSING_BLOBS :: int where "AUDIT_MISSING_BLOBS = - 32040"
definition AUDIT_EVENT_CONFLICT :: int where "AUDIT_EVENT_CONFLICT = - 32041"
definition AUDIT_BUSY :: int where "AUDIT_BUSY = - 32043"
definition AUDIT_STORAGE_EXHAUSTED :: int where "AUDIT_STORAGE_EXHAUSTED = - 32044"

text \<open>The length of a string in UTF-16 units.\<close>

definition js_length :: "string \<Rightarrow> nat" where
  "js_length s = sum_list (map (\<lambda>c. let n = of_char c :: nat
     in if 128 \<le> n \<and> n < 192 then 0 else if 240 \<le> n then 2 else 1) s)"

text \<open>A pattern of lower-case letters found anywhere in the text, whatever its case.\<close>

fun occurs_in :: "string \<Rightarrow> string \<Rightarrow> bool" where
  "occurs_in pat [] = (pat = [])"
| "occurs_in pat (c # s) = (take (length pat) (c # s) = pat \<or> occurs_in pat s)"

definition mentions :: "string list \<Rightarrow> string \<Rightarrow> bool" where
  "mentions pats s = list_ex (\<lambda>p. occurs_in p (toLowerCase s)) pats"

record blob_ref =
  br_blobKey :: string
  br_sha256 :: string
  br_size :: int
  br_name :: string

text \<open>
  The attachments of an event: the first malformed one ends the loop; otherwise those on disk with
  the declared size, and the digests of those that are not.
\<close>

primrec check_attachments :: "env \<Rightarrow> json list \<Rightarrow> string + blob_ref list \<times> string list" where
  "check_attachments env [] = Inr ([], [])"
| "check_attachments env (entry # es) =
     (if \<not> is_object entry then Inl ''each attachment must be an object''
      else (case (jget entry ''sha256'', jget entry ''size'', jget entry ''name'') of
              (Some (JStr sha256), Some sz, Some (JStr name)) \<Rightarrow>
                if (case sz of JInt _ \<Rightarrow> False | JReal _ \<Rightarrow> False | _ \<Rightarrow> True)
                then Inl ''attachment requires sha256, size and name''
                else (case check_attachments env es of
                        Inl m \<Rightarrow> Inl m
                      | Inr (refs, missing) \<Rightarrow>
                          (let key = ct_deriveBlobKey (en_contracts env) sha256 name
                           in case as_integer (Some sz) of
                                None \<Rightarrow> Inr (refs, sha256 # missing)
                              | Some n \<Rightarrow>
                                  if blob_present env key n
                                  then Inr (\<lparr>br_blobKey = key, br_sha256 = sha256, br_size = n, br_name = name\<rparr> # refs, missing)
                                  else Inr (refs, sha256 # missing)))
            | _ \<Rightarrow> Inl ''attachment requires sha256, size and name''))"

text \<open>The columns a caller may fill; \<open>None\<close> where one of them cannot be bound.\<close>

definition bound_columns :: "json \<Rightarrow> (string option \<times> string option \<times> string option) option" where
  "bound_columns params =
     (case (sql_bind (jget params ''correlation_id''), sql_bind (jget params ''causation_event_id''),
            sql_bind (jget params ''producer_id'')) of
        (Some c, Some u, Some p) \<Rightarrow> Some (c, u, p)
      | _ \<Rightarrow> None)"

definition append_result :: "bool \<Rightarrow> string \<Rightarrow> string \<Rightarrow> nat \<Rightarrow> millis \<Rightarrow> json" where
  "append_result duplicate eventId identity verified storedAt =
     JObj [(''ok'', JBool True), (''committed'', JBool True), (''duplicate'', JBool duplicate),
           (''event_id'', JStr eventId), (''identity'', JStr identity),
           (''attachments_verified'', JInt (int verified)), (''stored_at'', JStr (iso_text storedAt))]"

text \<open>What a failed transaction is answered, by the words of its error.\<close>

definition append_failure :: "contracts \<Rightarrow> json option \<Rightarrow> string \<Rightarrow> json" where
  "append_failure ct i message =
     (if mentions [''disk'', ''full'', ''no space''] message then
        rpcErrorData i AUDIT_STORAGE_EXHAUSTED ''audit storage is exhausted''
          (Some (JObj [(''code'', JStr ''AUDIT_STORAGE_EXHAUSTED'')]))
      else if mentions [''locked'', ''busy''] message then
        rpcErrorData i AUDIT_BUSY ''audit store is busy''
          (Some (JObj [(''code'', JStr ''AUDIT_BUSY''), (''retry_after_ms'', JInt 250)]))
      else rpcErrorData i (ct_SERVER_ERROR ct) (''audit append failed: '' @ message)
             (Some (JObj [(''code'', JStr ''AUDIT_APPEND_FAILED'')])))"

definition append_row ::
  "env \<Rightarrow> string \<Rightarrow> json \<Rightarrow> int \<Rightarrow> string \<Rightarrow> string \<Rightarrow> string \<Rightarrow> string option \<times> string option \<times> string option \<Rightarrow>
   string \<Rightarrow> json option \<Rightarrow> audit_event_row" where
  "append_row env identity params version eventId eventType occurredAt cols payload sig =
     (case cols of (correlation, causation, producer) \<Rightarrow>
        \<lparr>ae_event_id = eventId, ae_schema_version = version, ae_event_type = eventType, ae_occurred_at = occurredAt,
         ae_correlation_id = correlation, ae_causation_event_id = causation, ae_producer_id = producer,
         ae_identity = identity, ae_recorded_by_kind = ''adapter'', ae_recorded_by_id = Some identity,
         ae_payload = payload, ae_payload_digest = en_sha256 env payload,
         ae_attestation = (if truthy sig
            then Some (json_text (JObj [(''covers'', JStr ''mesh.audit.append.params''), (''sig'', the sig)])) else None),
         ae_stored_at = en_now env\<rparr>)"

definition append_write ::
  "env \<Rightarrow> audit_db \<Rightarrow> string \<Rightarrow> json \<Rightarrow> int \<Rightarrow> string \<Rightarrow> string \<Rightarrow> string \<Rightarrow> string \<Rightarrow> json option \<Rightarrow> blob_ref list \<Rightarrow>
   string + audit_db" where
  "append_write env db identity params version eventId eventType occurredAt payload sig refs =
     (case bound_columns params of
        None \<Rightarrow> Inl ''Binding expected string, TypedArray, boolean, number, bigint or null''
      | Some cols \<Rightarrow>
          audit_write env db (append_row env identity params version eventId eventType occurredAt cols payload sig)
            (map (\<lambda>r. \<lparr>ab_event_id = eventId, ab_blob_key = br_blobKey r, ab_sha256 = br_sha256 r,
                       ab_size = br_size r, ab_name = Some (br_name r)\<rparr>) refs))"

text \<open>The checks on the fields, in the order of the code: version, event id, type and time, attachments.\<close>

definition append_fields ::
  "contracts \<Rightarrow> json \<Rightarrow> string + int \<times> string \<times> string \<times> string \<times> json list" where
  "append_fields ct params =
     (case as_integer (jget params ''schema_version'') of
        None \<Rightarrow> Inl ''params.schema_version must be a positive integer''
      | Some version \<Rightarrow>
          if version < 1 then Inl ''params.schema_version must be a positive integer''
          else if version > ct_schema_version ct then
            Inl (''schema_version '' @ int_text version @ '' is newer than this hub understands (max '' @
                 int_text (ct_schema_version ct) @ '')'')
          else (case given_string (jget params ''event_id'') of
                  None \<Rightarrow> Inl ''params.event_id is required''
                | Some eventId \<Rightarrow>
                    (case given_string (jget params ''event_type'') of
                       None \<Rightarrow> Inl ''params.event_type is required''
                     | Some eventType \<Rightarrow>
                         (case given_string (jget params ''occurred_at'') of
                            None \<Rightarrow> Inl ''params.occurred_at is required''
                          | Some occurredAt \<Rightarrow>
                              if (case jget params ''producer_id'' of
                                    None \<Rightarrow> False
                                  | Some (JStr p) \<Rightarrow> js_length p > 64
                                  | Some _ \<Rightarrow> True)
                              then Inl ''params.producer_id must be a string of at most 64 chars''
                              else (case as_array (Some (or_else (jget params ''attachments'') (JArr []))) of
                                      None \<Rightarrow> Inl ''params.attachments must be an array''
                                    | Some attachments \<Rightarrow>
                                        if length attachments > ct_max_attachments ct then Inl ''too many attachments''
                                        else Inr (version, eventId, eventType, occurredAt, attachments))))))"

text \<open>The handler from the digest of the received bytes on.\<close>

definition append_event ::
  "env \<Rightarrow> hub \<Rightarrow> string \<Rightarrow> json \<Rightarrow> json option \<Rightarrow> string \<Rightarrow> json option \<Rightarrow>
   int \<times> string \<times> string \<times> string \<times> json list \<Rightarrow> json \<times> hub" where
  "append_event env h identity params i raw sig fs =
     (case fs of (version, eventId, eventType, occurredAt, attachments) \<Rightarrow>
       (let ct = en_contracts env; payload = coalesce (rawParams raw) ''{}''
        in case en_audit_read_error env of
             Some message \<Rightarrow>
               (rpcErrorData i (ct_SERVER_ERROR ct) (''audit append failed: '' @ message)
                  (Some (JObj [(''code'', JStr ''AUDIT_APPEND_FAILED'')])), h)
           | None \<Rightarrow>
               (case stmtSelectAuditEvent (h_audit h) eventId of
                  Some existing \<Rightarrow>
                    if ae_payload_digest existing = en_sha256 env payload then
                      (rpcResult i (append_result True eventId identity (length attachments) (ae_stored_at existing)), h)
                    else
                      (rpcErrorData i AUDIT_EVENT_CONFLICT
                         (''event_id '' @ quoted eventId @ '' already exists with a different payload'')
                         (Some (JObj [(''code'', JStr ''AUDIT_EVENT_CONFLICT''), (''event_id'', JStr eventId)])), h)
                | None \<Rightarrow>
                    (case check_attachments env attachments of
                       Inl m \<Rightarrow> (rpcError i INVALID_PARAMS m, h)
                     | Inr (refs, missing) \<Rightarrow>
                         if missing \<noteq> [] then
                           (rpcErrorData i AUDIT_MISSING_BLOBS ''referenced blobs are not present''
                              (Some (JObj [(''code'', JStr ''AUDIT_MISSING_BLOBS''),
                                           (''missing_sha256'', JArr (map JStr missing))])), h)
                         else (case append_write env (h_audit h) identity params version eventId eventType
                                      occurredAt payload sig refs of
                                 Inl message \<Rightarrow> (append_failure ct i message, h)
                               | Inr db \<Rightarrow>
                                   (rpcResult i (append_result False eventId identity (length refs) (en_now env)),
                                    h\<lparr>h_audit := db\<rparr>))))))"

definition handleAuditAppend ::
  "env \<Rightarrow> hub \<Rightarrow> socket \<Rightarrow> json \<Rightarrow> json option \<Rightarrow> string \<Rightarrow> json option \<Rightarrow> json \<times> hub" where
  "handleAuditAppend env h ws params i raw sig =
     (case identity_of (h_presence h) ws of
        None \<Rightarrow> (rpcError i INVALID_REQUEST ''Not connected. Call mesh.connect first.'', h)
      | Some identity \<Rightarrow>
          (case append_fields (en_contracts env) params of
             Inl m \<Rightarrow> (rpcError i INVALID_PARAMS m, h)
           | Inr fs \<Rightarrow> append_event env h identity params i raw sig fs))"

section \<open>The record\<close>

lemma insert_blobs_Some:
  "insert_blobs db rs = Some db' \<Longrightarrow> db' = db\<lparr>au_blobs := au_blobs db @ rs\<rparr>"
proof (induction rs arbitrary: db)
  case (Cons r rs)
  then show ?case by (fastforce simp: stmtInsertAuditBlob_def bind_eq_Some_conv split: if_splits)
qed simp

lemma audit_write_Inr:
  assumes "audit_write env db row refs = Inr db'"
  shows "db' = \<lparr>au_events = au_events db @ [row], au_blobs = au_blobs db @ refs\<rparr>"
    and "stmtSelectAuditEvent db (ae_event_id row) = None"
  using assms
  by (auto simp: audit_write_def stmtInsertAuditEvent_def stmtSelectAuditEvent_def sql_simps
      split: option.splits if_splits dest!: insert_blobs_Some)

lemma audit_write_plain:
  "en_audit_error env = None \<Longrightarrow> stmtSelectAuditEvent db (ae_event_id row) = None \<Longrightarrow>
   audit_write env db row [] = Inr (db\<lparr>au_events := au_events db @ [row]\<rparr>)"
  by (auto simp: audit_write_def stmtInsertAuditEvent_def stmtSelectAuditEvent_def sql_simps)

lemma check_attachments_present:
  "check_attachments env es = Inr (refs, missing) \<Longrightarrow> r \<in> set refs \<Longrightarrow> blob_present env (br_blobKey r) (br_size r)"
proof (induction es arbitrary: refs missing)
  case (Cons e es)
  then show ?case
    by (auto simp: Let_def split: if_splits option.splits json.splits sum.splits prod.splits)
qed simp

text \<open>What the second half of the handler comes to: a refusal, a known event, or a new one.\<close>

definition appended :: "audit_db \<Rightarrow> audit_event_row \<Rightarrow> blob_ref list \<Rightarrow> audit_db" where
  "appended db row refs =
     \<lparr>au_events = au_events db @ [row],
      au_blobs = au_blobs db @ map (\<lambda>r. \<lparr>ab_event_id = ae_event_id row, ab_blob_key = br_blobKey r,
        ab_sha256 = br_sha256 r, ab_size = br_size r, ab_name = Some (br_name r)\<rparr>) refs\<rparr>"

lemma append_write_Inr:
  assumes "append_write env db identity params version eventId eventType occurredAt payload sig refs = Inr db'"
  obtains cols where
    "db' = appended db (append_row env identity params version eventId eventType occurredAt cols payload sig) refs"
  using assms
  by (auto simp: append_write_def appended_def append_row_def split: option.splits prod.splits dest!: audit_write_Inr(1))

lemma append_event_cases:
  assumes "append_event env h identity params i raw sig (version, eventId, eventType, occurredAt, attachments) = (f, h')"
  obtains (refused) "h' = h" "jget f ''result'' = None"
      "map_option ae_payload_digest (stmtSelectAuditEvent (h_audit h) eventId) \<noteq>
         Some (en_sha256 env (coalesce (rawParams raw) ''{}'')) \<or> en_audit_read_error env \<noteq> None"
  | (duplicate) existing where
      "h' = h" "stmtSelectAuditEvent (h_audit h) eventId = Some existing"
      "ae_payload_digest existing = en_sha256 env (coalesce (rawParams raw) ''{}'')"
      "f = rpcResult i (append_result True eventId identity (length attachments) (ae_stored_at existing))"
  | (stored) refs cols where
      "stmtSelectAuditEvent (h_audit h) eventId = None" "check_attachments env attachments = Inr (refs, [])"
      "h' = h\<lparr>h_audit := appended (h_audit h) (append_row env identity params version eventId eventType occurredAt
         cols (coalesce (rawParams raw) ''{}'') sig) refs\<rparr>"
      "f = rpcResult i (append_result False eventId identity (length refs) (en_now env))"
proof (cases "en_audit_read_error env")
  case (Some message)
  with assms show thesis by (intro refused) (auto simp: append_event_def Let_def)
next
  case None
  note h2 = assms [unfolded append_event_def Let_def prod.case None option.case]
  show thesis
  proof (cases "stmtSelectAuditEvent (h_audit h) eventId")
    case (Some existing)
    with h2 show ?thesis
      by (cases "ae_payload_digest existing = en_sha256 env (coalesce (rawParams raw) ''{}'')")
        (auto intro: refused duplicate)
  next
    case new: None
    note h3 = h2 [unfolded new option.case]
    note no = refused [unfolded new]
    show ?thesis
    proof (cases "check_attachments env attachments")
      case (Inl m)
      with h3 show ?thesis by (intro no) auto
    next
      case (Inr p)
      obtain refs missing where p: "p = (refs, missing)" by (cases p)
      note h4 = h3 [unfolded Inr p sum.case prod.case]
      show ?thesis
      proof (cases "missing = []")
        case False
        with h4 show ?thesis by (intro no) auto
      next
        case True
        show ?thesis
        proof (cases "append_write env (h_audit h) identity params version eventId eventType occurredAt
            (coalesce (rawParams raw) ''{}'') sig refs")
          case (Inl m)
          with h4 True show ?thesis by (intro no) (auto simp: append_failure_def)
        next
          case w: (Inr db)
          with h4 True stored [OF new Inr [unfolded p True]] show ?thesis by (auto elim: append_write_Inr)
        qed
      qed
    qed
  qed
qed

lemma select_appended:
  "stmtSelectAuditEvent db eid = None \<Longrightarrow> ae_event_id row = eid \<Longrightarrow>
   stmtSelectAuditEvent (appended db row refs) eid = Some row"
  by (simp add: stmtSelectAuditEvent_def appended_def sql_get_append)

lemma append_row_fields [simp]:
  "ae_event_id (append_row env identity params version eid ty occ cols payload sig) = eid"
  "ae_identity (append_row env identity params version eid ty occ cols payload sig) = identity"
  "ae_recorded_by_kind (append_row env identity params version eid ty occ cols payload sig) = ''adapter''"
  "ae_recorded_by_id (append_row env identity params version eid ty occ cols payload sig) = Some identity"
  "ae_payload (append_row env identity params version eid ty occ cols payload sig) = payload"
  "ae_payload_digest (append_row env identity params version eid ty occ cols payload sig) = en_sha256 env payload"
  "ae_attestation (append_row env identity params version eid ty occ cols payload sig) =
     (if truthy sig
      then Some (json_text (JObj [(''covers'', JStr ''mesh.audit.append.params''), (''sig'', the sig)])) else None)"
  by (simp_all add: append_row_def split: prod.split)

text \<open>
  A client cannot write the trust metadata of its own record, and an event is recorded whole or
  not at all. An append call changes nothing, or adds exactly one event under an id that was free and
  with it all of its references: the identity of the event and of its recorder is the one the socket
  speaks for, the payload is the bytes that arrived and the digest is theirs, the attestation is the
  envelope of this request, and every referenced blob is on disk with its declared size.
\<close>
theorem audit_record_comes_from_the_hub:
  "snd (handleAuditAppend env h ws params i raw sig) = h \<or>
   (\<exists>row refs. snd (handleAuditAppend env h ws params i raw sig) = h\<lparr>h_audit := appended (h_audit h) row refs\<rparr> \<and>
      stmtSelectAuditEvent (h_audit h) (ae_event_id row) = None \<and>
      identity_of (h_presence h) ws = Some (ae_identity row) \<and>
      ae_recorded_by_kind row = ''adapter'' \<and> ae_recorded_by_id row = Some (ae_identity row) \<and>
      ae_payload row = coalesce (rawParams raw) ''{}'' \<and> ae_payload_digest row = en_sha256 env (ae_payload row) \<and>
      ae_attestation row = (if truthy sig
        then Some (json_text (JObj [(''covers'', JStr ''mesh.audit.append.params''), (''sig'', the sig)])) else None) \<and>
      list_all (\<lambda>r. blob_present env (br_blobKey r) (br_size r)) refs)"
proof (cases "identity_of (h_presence h) ws")
  case None
  then show ?thesis by (simp add: handleAuditAppend_def)
next
  case identity: (Some identity)
  show ?thesis
  proof (cases "append_fields (en_contracts env) params")
    case (Inl m)
    with identity show ?thesis by (simp add: handleAuditAppend_def)
  next
    case (Inr fs)
    obtain version eid ty occ atts where fs: "fs = (version, eid, ty, occ, atts)" by (cases fs)
    obtain f h' where e: "append_event env h identity params i raw sig fs = (f, h')" by force
    then have h': "snd (handleAuditAppend env h ws params i raw sig) = h'"
      using identity Inr by (simp add: handleAuditAppend_def)
    from e [unfolded fs] show ?thesis
    proof (cases rule: append_event_cases)
      case (stored refs cols)
      have "list_all (\<lambda>r. blob_present env (br_blobKey r) (br_size r)) refs"
        using check_attachments_present [OF stored(2)] by (simp add: list_all_iff)
      then show ?thesis unfolding h' stored(3)
        by (intro disjI2 exI [of _ "append_row env identity params version eid ty occ cols
              (coalesce (rawParams raw) ''{}'') sig"] exI [of _ refs]) (simp add: identity stored(1))
    qed (simp_all add: h')
  qed
qed

text \<open>
  An acknowledgement means stored, and only stored. For a well-formed append by a connected
  caller, on a store that can be read, the answer is a result if and only if afterwards the store
  holds the event under its id with the digest of these very bytes: a retry of a stored event is
  acknowledged again, a different payload under a taken id never is, and neither is a failed write.
\<close>
theorem audit_ack_means_stored:
  assumes "identity_of (h_presence h) ws = Some identity" "en_audit_read_error env = None"
    and "append_fields (en_contracts env) params = Inr (version, eventId, eventType, occurredAt, attachments)"
  shows "jget (fst (handleAuditAppend env h ws params i raw sig)) ''result'' \<noteq> None \<longleftrightarrow>
     map_option ae_payload_digest
       (stmtSelectAuditEvent (h_audit (snd (handleAuditAppend env h ws params i raw sig))) eventId) =
     Some (en_sha256 env (coalesce (rawParams raw) ''{}''))"
proof -
  obtain f h' where e: "append_event env h identity params i raw sig
      (version, eventId, eventType, occurredAt, attachments) = (f, h')" by force
  then have r: "handleAuditAppend env h ws params i raw sig = (f, h')"
    using assms by (simp add: handleAuditAppend_def)
  from e show ?thesis
    by (cases rule: append_event_cases) (simp_all add: r assms(2) select_appended)
qed

definition connected_hub :: "string \<Rightarrow> hub" where
  "connected_hub i = (hub_init 0 120)\<lparr>h_presence := presence_new\<lparr>ps_wsIdentities := [1 \<mapsto> i]\<rparr>\<rparr>"

definition plain_append :: json where
  "plain_append = JObj [(''schema_version'', JInt 1), (''event_id'', JStr ''e1''), (''event_type'', JStr ''turn''),
     (''occurred_at'', JStr ''2026-01-01T00:00:00Z'')]"

lemma audit_ack_means_stored_witness:
  "map_option ae_payload_digest (stmtSelectAuditEvent
     (h_audit (snd (handleAuditAppend plain_env (connected_hub ''kim'') 1 plain_append None [] None))) ''e1'') = Some ''#{}''"
proof -
  have a: "identity_of (h_presence (connected_hub ''kim'')) 1 = Some ''kim''" "en_audit_read_error plain_env = None"
    "append_fields (en_contracts plain_env) plain_append = Inr (1, ''e1'', ''turn'', ''2026-01-01T00:00:00Z'', [])"
    by code_simp+
  have "jget (fst (handleAuditAppend plain_env (connected_hub ''kim'') 1 plain_append None [] None)) ''result'' \<noteq> None"
    by code_simp
  with audit_ack_means_stored [OF a, of None "[]" None]
  have "map_option ae_payload_digest (stmtSelectAuditEvent
     (h_audit (snd (handleAuditAppend plain_env (connected_hub ''kim'') 1 plain_append None [] None))) ''e1'') =
     Some (en_sha256 plain_env (coalesce (rawParams []) ''{}''))" by blast
  moreover have "en_sha256 plain_env (coalesce (rawParams []) ''{}'') = ''#{}''" by code_simp
  ultimately show ?thesis by simp
qed

section \<open>Upload grants\<close>

text \<open>What a grant permits, and what each missing blob of a call asks for.\<close>

definition permits :: "upload_nonce_row \<Rightarrow> string \<times> string \<times> int \<times> secs" where
  "permits g = (un_identity g, un_blob_key g, un_size g, un_expires_at g)"

definition blob_key :: "env \<Rightarrow> blob_request \<Rightarrow> string" where
  "blob_key env b = ct_deriveBlobKey (en_contracts env) (bq_sha256 b) (bq_name b)"

definition wanted :: "env \<Rightarrow> string \<Rightarrow> blob_request list \<Rightarrow> (string \<times> string \<times> int \<times> secs) list" where
  "wanted env identity bs =
     map (\<lambda>b. (identity, blob_key env b, bq_size b, now_secs env + ct_grant_ttl (en_contracts env)))
       (filter (\<lambda>b. \<not> blob_present env (blob_key env b) (bq_size b)) bs)"

lemma prepare_one_grants:
  assumes "prepare_one env identity db b = Some (j, db')"
  obtains gs where "db' = db\<lparr>db_upload_nonces := db_upload_nonces db @ gs\<rparr>" "nonces_ok db \<longrightarrow> nonces_ok db'"
    "map permits gs = wanted env identity [b]"
proof (cases "blob_present env (blob_key env b) (bq_size b)")
  case True
  with assms show thesis
    by (intro that [of "[]"]) (auto simp: prepare_one_def blob_key_def wanted_def Let_def)
next
  case False
  with assms obtain g where g: "issueGrant (ct_grant_ttl (en_contracts env)) (now_secs env)
      (en_grant_nonce env (length (db_upload_nonces db))) db identity (blob_key env b) (bq_sha256 b) (bq_size b) =
      Some (g, db')"
    by (auto simp: prepare_one_def blob_key_def Let_def split: option.splits)
  then have db': "nonces_ok db \<Longrightarrow> nonces_ok db'"
    using grant_step_ok [of db "GIssue (ct_grant_ttl (en_contracts env)) (now_secs env)
      (en_grant_nonce env (length (db_upload_nonces db))) identity (blob_key env b) (bq_sha256 b) (bq_size b)"] by simp
  show thesis
    by (rule that [of "[g]"])
      (use g db' False in \<open>auto simp: issueGrant_def Let_def wanted_def permits_def split: if_splits\<close>)
qed

lemma prepare_all_grants:
  assumes "prepare_all env identity db bs = (Some js, db')"
  obtains gs where "db' = db\<lparr>db_upload_nonces := db_upload_nonces db @ gs\<rparr>" "nonces_ok db \<longrightarrow> nonces_ok db'"
    "map permits gs = wanted env identity bs"
  using assms
proof (induction bs arbitrary: db js thesis)
  case Nil
  then show ?case by (auto simp: wanted_def)
next
  case (Cons b bs)
  from Cons.prems(2) obtain j db1 js' where one: "prepare_one env identity db b = Some (j, db1)"
    and rest: "prepare_all env identity db1 bs = (Some js', db')"
    by (auto split: option.splits prod.splits)
  from one obtain gs where gs: "db1 = db\<lparr>db_upload_nonces := db_upload_nonces db @ gs\<rparr>"
    "nonces_ok db \<longrightarrow> nonces_ok db1" "map permits gs = wanted env identity [b]" by (rule prepare_one_grants)
  obtain gs' where gs': "db' = db1\<lparr>db_upload_nonces := db_upload_nonces db1 @ gs'\<rparr>"
    "nonces_ok db1 \<longrightarrow> nonces_ok db'" "map permits gs' = wanted env identity bs"
    using Cons.IH [OF _ rest] by blast
  show ?case
    by (rule Cons.prems(1) [of "gs @ gs'"]) (use gs gs' in \<open>auto simp: wanted_def\<close>)
qed

lemma prepare_all_length:
  "prepare_all env identity db bs = (Some js, db') \<Longrightarrow> length js = length bs"
  by (induction bs arbitrary: db js) (auto split: option.splits prod.splits)

lemma permits_ok:
  assumes "nonces_ok db" "g \<in> set (db_upload_nonces db)" "permits g = (i, k, sz, e)" "t \<le> e"
  shows "checkGrant t db (un_nonce g) i k sz = GrantOk g"
  using assms by (auto simp: checkGrant_ok_iff permits_def)

lemma prepare_blobs_result:
  assumes "handlePrepareBlobs env h ws params i = (Reply f, h')" "jget f ''result'' \<noteq> None"
  obtains identity bs js db where "identity_of (h_presence h) ws = Some identity"
    "blob_entries (en_contracts env) (the (as_array (jget params ''blobs''))) = Inr bs"
    "prepare_all env identity (h_agents h) bs = (Some js, db)" "h' = h\<lparr>h_agents := db\<rparr>"
proof -
  note h = assms(1) [unfolded handlePrepareBlobs_def Let_def]
  obtain identity where a: "identity_of (h_presence h) ws = Some identity"
    using h assms(2) by (cases "identity_of (h_presence h) ws") auto
  note h1 = h [unfolded a option.case]
  obtain e where b: "given_string (jget params ''event_id'') = Some e"
    using h1 assms(2) by (cases "given_string (jget params ''event_id'')") auto
  note h2 = h1 [unfolded b option.case]
  obtain rs where c: "as_array (jget params ''blobs'') = Some rs"
    using h2 assms(2) by (cases "as_array (jget params ''blobs'')") auto
  note h3 = h2 [unfolded c option.case]
  have d: "\<not> length rs > ct_max_attachments (en_contracts env)"
    using h3 assms(2) by (auto split: if_splits)
  note h4 = h3 [unfolded if_not_P [OF d]]
  obtain bs where b': "blob_entries (en_contracts env) rs = Inr bs"
    using h4 assms(2) by (cases "blob_entries (en_contracts env) rs") auto
  note h5 = h4 [unfolded b' sum.case]
  have t: "\<not> sum_list (map bq_size bs) > ct_max_attachments_bytes (en_contracts env)"
    using h5 assms(2) by (auto split: if_splits)
  note h6 = h5 [unfolded if_not_P [OF t]]
  obtain r db where p: "prepare_all env identity (h_agents h) bs = (r, db)" by force
  show thesis
  proof (cases r)
    case None
    with h6 p show ?thesis by simp
  next
    case (Some js)
    with h6 p have "h' = h\<lparr>h_agents := db\<rparr>" by simp
    with a b' p Some c show ?thesis by (intro that) simp_all
  qed
qed

text \<open>
  Every upload that a prepare call asks for will be accepted, and the call authorises nothing
  else. A prepare call that is answered with a result leaves the grants it found and adds exactly one
  for each requested blob that is not on disk with its declared size, each for the caller, the key
  derived from the blob and that size, and each passes the upload check until its lifetime has run.
\<close>
theorem prepare_issues_usable_grants:
  assumes "handlePrepareBlobs env h ws params i = (Reply f, h')" "jget f ''result'' \<noteq> None"
    and "nonces_ok (h_agents h)"
  shows "\<exists>identity bs gs. identity_of (h_presence h) ws = Some identity \<and>
     blob_entries (en_contracts env) (the (as_array (jget params ''blobs''))) = Inr bs \<and>
     h' = h\<lparr>h_agents := (h_agents h)\<lparr>db_upload_nonces := db_upload_nonces (h_agents h) @ gs\<rparr>\<rparr> \<and>
     map permits gs = wanted env identity bs \<and>
     list_all (\<lambda>g. checkGrant (un_expires_at g) (h_agents h') (un_nonce g) (un_identity g) (un_blob_key g)
       (un_size g) = GrantOk g) gs"
proof -
  obtain identity bs js db where p: "identity_of (h_presence h) ws = Some identity"
    "blob_entries (en_contracts env) (the (as_array (jget params ''blobs''))) = Inr bs"
    "prepare_all env identity (h_agents h) bs = (Some js, db)" "h' = h\<lparr>h_agents := db\<rparr>"
    using assms(1,2) by (rule prepare_blobs_result)
  from p(3) obtain gs where gs: "db = (h_agents h)\<lparr>db_upload_nonces := db_upload_nonces (h_agents h) @ gs\<rparr>"
    "nonces_ok (h_agents h) \<longrightarrow> nonces_ok db" "map permits gs = wanted env identity bs"
    by (rule prepare_all_grants)
  have "list_all (\<lambda>g. checkGrant (un_expires_at g) db (un_nonce g) (un_identity g) (un_blob_key g) (un_size g) = GrantOk g) gs"
    using gs(1,2) assms(3) by (auto simp: list_all_iff permits_def intro!: permits_ok)
  with p gs show ?thesis by auto
qed

definition plain_prepare :: json where
  "plain_prepare = JObj [(''event_id'', JStr ''e1''), (''blobs'', JArr
     [JObj [(''sha256'', JStr (replicate 64 (CHR ''a''))), (''size'', JInt 5), (''name'', JStr ''x.png'')]])]"

lemma prepare_issues_usable_grants_witness:
  "\<exists>g. db_upload_nonces (h_agents (snd (handlePrepareBlobs plain_env (connected_hub ''kim'') 1 plain_prepare None))) = [g] \<and>
     un_identity g = ''kim'' \<and> un_size g = 5"
proof -
  let ?r = "handlePrepareBlobs plain_env (connected_hub ''kim'') 1 plain_prepare None"
  have "reply_frame (fst ?r) \<noteq> None" by code_simp
  then obtain f where f: "?r = (Reply f, snd ?r)" by (cases ?r; cases "fst ?r") auto
  have "Option.bind (reply_frame (fst ?r)) (\<lambda>f. jget f ''result'') \<noteq> None" by code_simp
  with f have res: "jget f ''result'' \<noteq> None" by (cases ?r) auto
  have ok: "nonces_ok (h_agents (connected_hub ''kim''))" by (simp add: connected_hub_def hub_init_def nonces_ok_def)
  obtain identity bs gs where r: "identity_of (h_presence (connected_hub ''kim'')) 1 = Some identity"
    "blob_entries (en_contracts plain_env) (the (as_array (jget plain_prepare ''blobs''))) = Inr bs"
    "snd ?r = (connected_hub ''kim'')\<lparr>h_agents := (h_agents (connected_hub ''kim''))\<lparr>db_upload_nonces :=
       db_upload_nonces (h_agents (connected_hub ''kim'')) @ gs\<rparr>\<rparr>" "map permits gs = wanted plain_env identity bs"
    using prepare_issues_usable_grants [OF f res ok] by blast
  have "identity = ''kim''" using r(1) by (simp add: connected_hub_def identity_of_def)
  moreover have "blob_entries (en_contracts plain_env) (the (as_array (jget plain_prepare ''blobs''))) =
      Inr [\<lparr>bq_sha256 = replicate 64 (CHR ''a''), bq_size = 5, bq_name = ''x.png''\<rparr>]" by code_simp
  ultimately show ?thesis
    using r(2-4) by (auto simp: wanted_def blob_present_def plain_env_def permits_def connected_hub_def hub_init_def)
qed

section \<open>The audit trail is append-only\<close>

definition audit_extends :: "audit_db \<Rightarrow> audit_db \<Rightarrow> bool" where
  "audit_extends a b \<longleftrightarrow>
     (\<exists>es bs. au_events b = au_events a @ es \<and> au_blobs b = au_blobs a @ bs) \<and> (audit_pk a \<longrightarrow> audit_pk b)"

lemma audit_extends_refl [simp]: "audit_extends a a"
  by (auto simp: audit_extends_def)

lemma audit_extends_trans [trans]: "audit_extends a b \<Longrightarrow> audit_extends b c \<Longrightarrow> audit_extends a c"
  by (fastforce simp: audit_extends_def)

lemma insert_blobs_pk: "audit_pk db \<Longrightarrow> insert_blobs db rs = Some db' \<Longrightarrow> audit_pk db'"
proof (induction rs arbitrary: db)
  case (Cons r rs)
  then obtain db1 where db1: "stmtInsertAuditBlob db r = Some db1" "insert_blobs db1 rs = Some db'"
    by (auto simp: bind_eq_Some_conv)
  from db1(1) Cons.prems(1) have "audit_pk db1"
    by (fastforce simp: stmtInsertAuditBlob_def audit_pk_def sql_simps split: if_splits)
  with Cons.IH db1(2) show ?case by blast
qed simp

lemma audit_write_extends:
  assumes "audit_write env db row refs = Inr db'"
  shows "audit_extends db db'"
proof -
  from assms obtain db1 where db1: "stmtInsertAuditEvent db row = Some db1" "insert_blobs db1 refs = Some db'"
    by (auto simp: audit_write_def split: option.splits)
  from db1(1) have "audit_pk db \<Longrightarrow> audit_pk db1"
    by (fastforce simp: stmtInsertAuditEvent_def audit_pk_def sql_simps split: if_splits)
  with db1(2) insert_blobs_pk audit_write_Inr(1) [OF assms] show ?thesis by (auto simp: audit_extends_def)
qed

lemma recordMeshEvent_extends [simp]: "audit_extends a (recordMeshEvent env ty ev a)"
  by (auto simp: recordMeshEvent_def audit_write_extends split: sum.split)

lemma recordDelivered_extends [simp]: "audit_extends a (recordDelivered env m a)"
  by (simp add: recordDelivered_def)

lemma recordDelivered_fold_extends [simp]: "audit_extends a (foldl (\<lambda>a m. recordDelivered env m a) a ms)"
proof (induction ms arbitrary: a)
  case (Cons m ms)
  from audit_extends_trans [OF recordDelivered_extends Cons] show ?case by simp
qed simp

lemma append_event_snd:
  "snd (append_event env h identity params i raw sig fs) = h \<or>
   (\<exists>db'. audit_extends (h_audit h) db' \<and> snd (append_event env h identity params i raw sig fs) = h\<lparr>h_audit := db'\<rparr>)"
proof -
  obtain version eventId eventType occurredAt attachments
    where fs: "fs = (version, eventId, eventType, occurredAt, attachments)" by (cases fs)
  let ?f = "fst (append_event env h identity params i raw sig fs)"
  let ?h = "snd (append_event env h identity params i raw sig fs)"
  show ?thesis
  proof (cases "en_audit_read_error env = None \<and> stmtSelectAuditEvent (h_audit h) eventId = None")
    case False
    then show ?thesis by (auto simp: append_event_def fs Let_def split: option.split)
  next
    case True
    note e = True [THEN conjunct1] and n = True [THEN conjunct2]
    show ?thesis
    proof (cases "check_attachments env attachments")
      case (Inl m)
      then show ?thesis by (simp add: append_event_def fs Let_def e n)
    next
      case (Inr p)
      obtain refs missing where p: "p = (refs, missing)" by (cases p)
      show ?thesis
      proof (cases "append_write env (h_audit h) identity params version eventId eventType occurredAt
            (coalesce (rawParams raw) ''{}'') sig refs")
        case (Inl m)
        then show ?thesis by (simp add: append_event_def fs Let_def e n Inr p)
      next
        case w: (Inr db)
        then have "audit_extends (h_audit h) db"
          by (auto simp: append_write_def audit_write_extends split: option.splits prod.splits)
        with w show ?thesis by (auto simp: append_event_def fs Let_def e n Inr p)
      qed
    qed
  qed
qed

lemma handleAuditAppend_frame [simp]:
  "h_agents (snd (handleAuditAppend env h ws params i raw sig)) = h_agents h"
  "h_hub (snd (handleAuditAppend env h ws params i raw sig)) = h_hub h"
  "h_reminders (snd (handleAuditAppend env h ws params i raw sig)) = h_reminders h"
  "h_presence (snd (handleAuditAppend env h ws params i raw sig)) = h_presence h"
  "h_nonces (snd (handleAuditAppend env h ws params i raw sig)) = h_nonces h"
  "audit_extends (h_audit h) (h_audit (snd (handleAuditAppend env h ws params i raw sig)))"
proof -
  have "snd (handleAuditAppend env h ws params i raw sig) = h \<or>
    (\<exists>db'. audit_extends (h_audit h) db' \<and> snd (handleAuditAppend env h ws params i raw sig) = h\<lparr>h_audit := db'\<rparr>)"
  proof (cases "identity_of (h_presence h) ws")
    case None
    then show ?thesis by (simp add: handleAuditAppend_def)
  next
    case (Some identity)
    then show ?thesis using append_event_snd
      by (cases "append_fields (en_contracts env) params") (auto simp: handleAuditAppend_def)
  qed
  then show "h_agents (snd (handleAuditAppend env h ws params i raw sig)) = h_agents h"
    "h_hub (snd (handleAuditAppend env h ws params i raw sig)) = h_hub h"
    "h_reminders (snd (handleAuditAppend env h ws params i raw sig)) = h_reminders h"
    "h_presence (snd (handleAuditAppend env h ws params i raw sig)) = h_presence h"
    "h_nonces (snd (handleAuditAppend env h ws params i raw sig)) = h_nonces h"
    "audit_extends (h_audit h) (h_audit (snd (handleAuditAppend env h ws params i raw sig)))"
    by auto
qed

lemma handlePrepareBlobs_frame [simp]:
  "h_hub (snd (handlePrepareBlobs env h ws params i)) = h_hub h"
  "h_reminders (snd (handlePrepareBlobs env h ws params i)) = h_reminders h"
  "h_presence (snd (handlePrepareBlobs env h ws params i)) = h_presence h"
  "h_audit (snd (handlePrepareBlobs env h ws params i)) = h_audit h"
  "h_nonces (snd (handlePrepareBlobs env h ws params i)) = h_nonces h"
  by (auto simp: handlePrepareBlobs_def Let_def split: option.split sum.split prod.split)

end
