(* ===== verification/Hub_Send.thy ===== *)
theory Hub_Send
  imports Hub_Signature Hub_Audit
begin

text \<open>
  Sending a message: \<open>packages/hub/src/rpc/send.ts\<close>.

  \<open>handleSend\<close> is its stages in order: \<open>send_identify\<close> reads the parameters and answers a known
  idempotency key, \<open>send_authorise\<close> asks the egress policy, the dormancy check and the proxy rules,
  \<open>send_route\<close> picks the socket to push to, \<open>send_accept\<close> commits the message, \<open>send_deliver\<close> pushes it,
  \<open>send_record\<close> writes the two audit events. A stage that ends the request gives the frame.

  The lemmas: what a stored message proves about its sender, that a retry is answered and stores
  nothing, and when the answer \<open>delivered\<close> is true.
\<close>

text \<open>\<open>SELECT deleted_at FROM agents WHERE identity = ? AND deleted_at IS NOT NULL\<close>.\<close>

definition stmtAgentDeleted :: "agents_db \<Rightarrow> string \<Rightarrow> bool" where
  "stmtAgentDeleted db identity =
     sql_exists (\<lambda>a. ag_identity a = identity \<and> ag_deleted_at a \<noteq> None) (db_agents db)"

record send_fields =
  sf_sender :: string
  sf_to :: string
  sf_content :: string
  sf_from :: string
  sf_replyTo :: json
  sf_clientId :: "string option"
  sf_digest :: "string option"

definition send_digest :: "env \<Rightarrow> string \<Rightarrow> string \<Rightarrow> string \<Rightarrow> json option \<Rightarrow> string" where
  "send_digest env to_id from_id content replyTo =
     en_sha256 env (to_id @ [CHR 0x00] @ from_id @ [CHR 0x00] @ content @ [CHR 0x00] @
       (if nullish replyTo then [] else js_String (the replyTo)))"

text \<open>\<open>params.from && typeof params.from === "string" ? params.from : fallback\<close>.\<close>

definition effectiveSender :: "json \<Rightarrow> string \<Rightarrow> string" where
  "effectiveSender params fallback = coalesce (given_string (jget params ''from'')) fallback"

definition send_identify :: "env \<Rightarrow> hub \<Rightarrow> socket \<Rightarrow> json \<Rightarrow> json option \<Rightarrow> json + send_fields" where
  "send_identify env h ws params i =
     (case identity_of (h_presence h) ws of
        None \<Rightarrow> Inl (rpcError i INVALID_REQUEST ''Not connected. Call mesh.connect first (or legacy mesh.register).'')
      | Some sender \<Rightarrow>
          (case given_string (jget params ''to'') of
             None \<Rightarrow> Inl (rpcError i INVALID_PARAMS ''params.to is required'')
           | Some to_id \<Rightarrow>
               if nullish (jget params ''content'') then Inl (rpcError i INVALID_PARAMS ''params.content is required'')
               else if stmtAgentDeleted (h_agents h) to_id then
                 Inl (rpcError i INVALID_PARAMS (''recipient '' @ quoted to_id @ '' has been deleted''))
               else
                 (let content = js_String (the (jget params ''content''));
                      from_id = effectiveSender params sender;
                      digest = send_digest env to_id from_id content (jget params ''reply_to'');
                      sf = \<lparr>sf_sender = sender, sf_to = to_id, sf_content = content, sf_from = from_id,
                            sf_replyTo = or_else (jget params ''reply_to'') JNull, sf_clientId = None, sf_digest = None\<rparr>
                  in case jget params ''client_message_id'' of
                       None \<Rightarrow> Inr sf
                     | Some c \<Rightarrow>
                         (case as_string (Some c) of
                            None \<Rightarrow> Inl (rpcError i INVALID_PARAMS ''client_message_id must be a non-empty string of at most 128 chars'')
                          | Some cid \<Rightarrow>
                              if js_length cid = 0 \<or> js_length cid > 128 then
                                Inl (rpcError i INVALID_PARAMS ''client_message_id must be a non-empty string of at most 128 chars'')
                              else (case stmtSelectIdempotency (h_hub h) sender cid of
                                      None \<Rightarrow> Inr (sf\<lparr>sf_clientId := Some cid, sf_digest := Some digest\<rparr>)
                                    | Some prior \<Rightarrow>
                                        if id_request_digest prior = digest then
                                          Inl (rpcResult i (JObj [(''id'', JStr (id_message_id prior)),
                                                 (''status'', JStr (status_text (id_status prior))), (''duplicate'', JBool True)]))
                                        else
                                          Inl (rpcErrorData i (ct_SEND_CONFLICT (en_contracts env))
                                                 (''client_message_id '' @ quoted cid @ '' was already used for a different message'')
                                                 (Some (JObj [(''code'', JStr ''SEND_CONFLICT''),
                                                              (''client_message_id'', JStr cid)]))))))))"

definition declared_proxy :: "presence \<Rightarrow> socket \<Rightarrow> string \<Rightarrow> bool" where
  "declared_proxy p ws i = (case ps_wsProxies p ws of None \<Rightarrow> False | Some s \<Rightarrow> i \<in> set s)"

definition send_authorise :: "env \<Rightarrow> hub \<Rightarrow> socket \<Rightarrow> json option \<Rightarrow> send_fields \<Rightarrow> json option \<times> hub" where
  "send_authorise env h ws i sf =
     (let egress = maySend (h_agents h) (sf_from sf) (sf_to sf) DEFAULT_TENANT
      in if \<not> sv_ok egress then
           (Some (rpcErrorData i (ct_EGRESS_DENIED (en_contracts env))
              (''no egress rule from '' @ quoted (sv_fromGroup egress) @ '' to '' @ quoted (sv_toGroup egress))
              (Some (JObj [(''code'', JStr ''EGRESS_DENIED''), (''from_group'', JStr (sv_fromGroup egress)),
                           (''to_group'', JStr (sv_toGroup egress))]))),
            h\<lparr>h_refusals := recordRefusal (h_refusals h) EgressRefusal
                (sv_fromGroup egress @ ''->'' @ sv_toGroup egress)\<rparr>)
         else (case checkDormantSource (en_dormancy env) (en_now env) (h_agents h) (sf_from sf) (sf_sender sf)
                      (en_observed env ws) of
                 Some r \<Rightarrow>
                   (Some (rpcErrorData i SOURCE_CHANGED (dormancy_message r)
                      (Some (JObj [(''code'', JStr ''SOURCE_CHANGED''),
                                   (''dormancy_seconds'', JInt (coalesce (en_dormancy env) 0)),
                                   (''observed_prefix'', nullable (dr_observed_prefix r))]))), h)
               | None \<Rightarrow>
                   if sf_from sf = sf_sender sf then (None, h)
                   else (case mayProxy (h_agents h) (sf_sender sf) (sf_from sf) of
                           Refused reason \<Rightarrow> (Some (rpcError i NOT_ENTITLED (refusalMessage (sf_from sf) reason)), h)
                         | Entitled \<Rightarrow>
                             if declared_proxy (h_presence h) ws (sf_from sf) then (None, h)
                             else (Some (rpcError i NOT_ENTITLED
                                     (quoted (sf_from sf) @ '' was not declared in this socket's proxy_for'')), h))))"

text \<open>The socket to push to, if any; the left value is the throw of a reply id that cannot be bound.\<close>

definition send_route :: "hub \<Rightarrow> send_fields \<Rightarrow> string + socket option" where
  "send_route h sf =
     (let recipient = live_socket (h_presence h) (sf_to sf);
          senderLive = (live_socket (h_presence h) (sf_from sf) \<noteq> None);
          push = (\<lambda>parentVia. if replyChannel parentVia (recipient \<noteq> None) senderLive = Mesh then recipient else None)
      in if truthy (Some (sf_replyTo sf)) then
           (case sql_bind (Some (sf_replyTo sf)) of
              None \<Rightarrow> Inl ''Binding expected string, TypedArray, boolean, number, bigint or null''
            | Some bound \<Rightarrow> Inr (push (Option.bind bound (stmtMessageVia (h_hub h)))))
         else Inr (push None))"

text \<open>The constraint that refuses a message, in the order of the inserts.\<close>

definition accept_error :: "hub_db \<Rightarrow> string \<Rightarrow> string" where
  "accept_error db mid =
     (if sql_exists (\<lambda>m. ms_id m = mid) (hb_messages db) then ''UNIQUE constraint failed: messages.id''
      else if sql_exists (\<lambda>s. st_message_id s = mid) (hb_stats db) then ''UNIQUE constraint failed: message_stats.message_id''
      else ''UNIQUE constraint failed: send_idempotency.sent_by, send_idempotency.client_message_id'')"

definition message_id :: "env \<Rightarrow> string" where
  "message_id env = ''msg_'' @ en_msg_id env"

definition send_opts :: "env \<Rightarrow> hub \<Rightarrow> channel \<Rightarrow> send_fields \<Rightarrow> message_status \<Rightarrow> accept_opts" where
  "send_opts env h via sf status =
     \<lparr>ac_id = message_id env, ac_from = sf_from sf, ac_to = sf_to sf, ac_sentBy = Some (sf_sender sf),
      ac_content = sf_content sf, ac_replyTo = coalesce (sql_bind (Some (sf_replyTo sf))) None, ac_status = status,
      ac_via = via, ac_tenant = tenantOf (h_agents h) (sf_to sf), ac_clientMessageId = sf_clientId sf,
      ac_idempotencyDigest = sf_digest sf\<rparr>"

definition send_accept ::
  "env \<Rightarrow> hub \<Rightarrow> channel \<Rightarrow> send_fields \<Rightarrow> message_status \<Rightarrow> string option \<times> hub" where
  "send_accept env h via sf status =
     (case en_hub_error env of
        Some e \<Rightarrow> (Some e, h)
      | None \<Rightarrow>
          (case accept (now_secs env) (h_hub h) (h_agents h) (send_opts env h via sf status)
                  (\<lambda>a. markSend (now_secs env) a (sf_from sf)) of
             (None, agents) \<Rightarrow> (Some (accept_error (h_hub h) (message_id env)), h\<lparr>h_agents := agents\<rparr>)
           | (Some db, agents) \<Rightarrow> (None, h\<lparr>h_hub := db, h_agents := agents\<rparr>)))"

definition message_frame :: "env \<Rightarrow> send_fields \<Rightarrow> json" where
  "message_frame env sf =
     rpcNotification ''mesh.message'' (JObj
       [(''id'', JStr (message_id env)), (''from'', JStr (sf_from sf)), (''to'', JStr (sf_to sf)),
        (''sent_by'', JStr (sf_sender sf)), (''content'', JStr (sf_content sf)), (''reply_to'', sf_replyTo sf),
        (''ts'', JStr (iso_text (en_now env)))])"

definition delivered_frame :: "env \<Rightarrow> send_fields \<Rightarrow> json" where
  "delivered_frame env sf =
     rpcNotification ''mesh.delivered'' (JObj
       [(''id'', JStr (message_id env)), (''from'', JStr (sf_from sf)), (''to'', JStr (sf_to sf)),
        (''ts'', JStr (iso_text (en_now env)))])"

definition landed :: "send_report \<Rightarrow> bool" where
  "landed r \<longleftrightarrow> sendFrame r = Some True"

definition send_deliver :: "env \<Rightarrow> hub \<Rightarrow> send_fields \<Rightarrow> socket option \<Rightarrow> message_status \<times> hub" where
  "send_deliver env h sf target =
     (case target of
        None \<Rightarrow> (MPending, h)
      | Some ws \<Rightarrow>
          (let (report, h1) = ws_send env h ws (message_frame env sf)
           in if landed report then
                (MDelivered,
                 (case live_socket (h_presence h1) (sf_from sf) of
                    None \<Rightarrow> h1
                  | Some senderWs \<Rightarrow>
                      if senderWs \<noteq> ws then snd (ws_send env h1 senderWs (delivered_frame env sf)) else h1))
              else (MPending, h1\<lparr>h_hub := stmtUpdateMessageStatus (h_hub h1) MPending (message_id env)\<rparr>)))"

definition send_event :: "env \<Rightarrow> send_fields \<Rightarrow> string option \<Rightarrow> json option \<Rightarrow> mesh_event" where
  "send_event env sf raw sig =
     \<lparr>mv_messageId = message_id env, mv_from = sf_from sf, mv_to = sf_to sf, mv_sentBy = sf_sender sf,
      mv_content = sf_content sf, mv_replyTo = sf_replyTo sf, mv_senderSig = sig,
      mv_senderParams = (case raw of None \<Rightarrow> ''{}'' | Some r \<Rightarrow> signed_bytes r)\<rparr>"

definition send_record ::
  "env \<Rightarrow> hub \<Rightarrow> send_fields \<Rightarrow> message_status \<Rightarrow> string option \<Rightarrow> json option \<Rightarrow> hub" where
  "send_record env h sf status raw sig =
     (let ev = send_event env sf raw sig
      in h\<lparr>h_audit := recordMeshEvent env (if status = MDelivered then EvDelivered else EvPending) ev
             (recordMeshEvent env EvSent ev (h_audit h))\<rparr>)"

definition handleSend ::
  "env \<Rightarrow> hub \<Rightarrow> socket \<Rightarrow> json \<Rightarrow> json option \<Rightarrow> string option \<Rightarrow> json option \<Rightarrow> channel \<Rightarrow> reply \<times> hub" where
  "handleSend env h ws params i raw sig via =
     (case send_identify env h ws params i of
        Inl frame \<Rightarrow> (Reply frame, h)
      | Inr sf \<Rightarrow>
          (case send_authorise env h ws i sf of
             (Some frame, h1) \<Rightarrow> (Reply frame, h1)
           | (None, h1) \<Rightarrow>
               (case send_route h1 sf of
                  Inl e \<Rightarrow> (Thrown e, h1)
                | Inr target \<Rightarrow>
                    (case send_accept env h1 via sf (if target = None then MPending else MDelivered) of
                       (Some e, h2) \<Rightarrow>
                         (Reply (rpcErrorData i SERVER_ERROR (''could not persist message: '' @ e)
                            (Some (JObj [(''retryable'', JBool True)]))), h2)
                     | (None, h2) \<Rightarrow>
                         (let (status, h3) = send_deliver env h2 sf target
                          in (Reply (rpcResult i (JObj [(''id'', JStr (message_id env)),
                                (''status'', JStr (status_text status))])),
                              send_record env h3 sf status raw sig))))))"

section \<open>What each stage establishes\<close>

definition authorised :: "env \<Rightarrow> hub \<Rightarrow> socket \<Rightarrow> send_fields \<Rightarrow> bool" where
  "authorised env h ws sf \<longleftrightarrow>
     sv_ok (maySend (h_agents h) (sf_from sf) (sf_to sf) DEFAULT_TENANT) \<and>
     checkDormantSource (en_dormancy env) (en_now env) (h_agents h) (sf_from sf) (sf_sender sf) (en_observed env ws) = None \<and>
     (sf_from sf = sf_sender sf \<or>
      mayProxy (h_agents h) (sf_sender sf) (sf_from sf) = Entitled \<and> declared_proxy (h_presence h) ws (sf_from sf))"

lemma send_authorise_None_iff: "fst (send_authorise env h ws i sf) = None \<longleftrightarrow> authorised env h ws sf"
  by (auto simp: send_authorise_def authorised_def Let_def split: option.split entitlement.split)

lemma send_authorise_None:
  "send_authorise env h ws i sf = (None, h1) \<Longrightarrow> authorised env h ws sf \<and> h1 = h"
  by (auto simp: send_authorise_def authorised_def Let_def split: option.splits entitlement.splits if_splits)

lemma send_authorise_frame:
  "h_hub (snd (send_authorise env h ws i sf)) = h_hub h" "h_agents (snd (send_authorise env h ws i sf)) = h_agents h"
  "h_audit (snd (send_authorise env h ws i sf)) = h_audit h"
  by (auto simp: send_authorise_def Let_def split: option.split entitlement.split)

lemma send_identify_Inr:
  assumes "send_identify env h ws params i = Inr sf"
  shows "identity_of (h_presence h) ws = Some (sf_sender sf)" "\<not> stmtAgentDeleted (h_agents h) (sf_to sf)"
    "sf_to sf \<noteq> []" "sf_from sf = effectiveSender params (sf_sender sf)"
  using assms by (auto simp: send_identify_def Let_def split: option.splits if_splits)

text \<open>The row that a send stores.\<close>

definition sent_row :: "env \<Rightarrow> hub \<Rightarrow> channel \<Rightarrow> send_fields \<Rightarrow> message_status \<Rightarrow> message_row" where
  "sent_row env h via sf status =
     (let opts = send_opts env h via sf status
      in \<lparr>ms_id = ac_id opts, ms_from_agent = ac_from opts, ms_to_agent = ac_to opts, ms_sent_by = ac_sentBy opts,
          ms_content = ac_content opts, ms_reply_to = ac_replyTo opts, ms_status = status, ms_ts = now_secs env,
          ms_leased_until = None, ms_via = Some via\<rparr>)"

lemma sent_row_fields [simp]:
  "ms_id (sent_row env h via sf st) = message_id env" "ms_from_agent (sent_row env h via sf st) = sf_from sf"
  "ms_to_agent (sent_row env h via sf st) = sf_to sf" "ms_sent_by (sent_row env h via sf st) = Some (sf_sender sf)"
  "ms_content (sent_row env h via sf st) = sf_content sf" "ms_status (sent_row env h via sf st) = st"
  "sent_row env h via sf st\<lparr>ms_status := st'\<rparr> = sent_row env h via sf st'"
  by (simp_all add: sent_row_def send_opts_def Let_def)

lemma send_accept_None:
  assumes "send_accept env h via sf status = (None, h2)"
  shows "hb_messages (h_hub h2) = hb_messages (h_hub h) @ [sent_row env h via sf status]"
    "message_id env \<notin> ms_id ` set (hb_messages (h_hub h))"
    "h_presence h2 = h_presence h" "h_out h2 = h_out h" "h_audit h2 = h_audit h"
proof -
  let ?a = "accept (now_secs env) (h_hub h) (h_agents h) (send_opts env h via sf status)
      (\<lambda>a. markSend (now_secs env) a (sf_from sf))"
  from assms obtain db where db: "fst ?a = Some db" and h2: "h2 = h\<lparr>h_hub := db, h_agents := snd ?a\<rparr>"
    by (auto simp: send_accept_def split: option.splits prod.splits)
  from accept_Some [OF db] h2
  show "hb_messages (h_hub h2) = hb_messages (h_hub h) @ [sent_row env h via sf status]"
    "message_id env \<notin> ms_id ` set (hb_messages (h_hub h))"
    by (auto simp: sent_row_def Let_def send_opts_def stmtMessageById_def sql_simps)
  from h2 show "h_presence h2 = h_presence h" "h_out h2 = h_out h" "h_audit h2 = h_audit h" by simp_all
qed

lemma send_accept_Some:
  "send_accept env h via sf status = (Some e, h2) \<Longrightarrow> h_hub h2 = h_hub h \<and> h_audit h2 = h_audit h"
  by (auto simp: send_accept_def split: option.splits prod.splits)

lemma update_last_status:
  assumes "mid \<notin> ms_id ` set ms" "ms_id m = mid"
  shows "sql_update (\<lambda>m. ms_id m = mid) (\<lambda>m. m\<lparr>ms_status := st\<rparr>) (ms @ [m]) = ms @ [m\<lparr>ms_status := st\<rparr>]"
proof -
  have "sql_update (\<lambda>m. ms_id m = mid) (\<lambda>m. m\<lparr>ms_status := st\<rparr>) ms = ms"
    using assms(1) by (intro sql_update_none) auto
  with assms(2) show ?thesis by (simp add: sql_update_def)
qed

text \<open>The message was pushed to the recipient's socket, and the push reported that it was written.\<close>

definition pushed :: "env \<Rightarrow> hub \<Rightarrow> send_fields \<Rightarrow> socket option \<Rightarrow> bool" where
  "pushed env h sf target \<longleftrightarrow>
     (case target of None \<Rightarrow> False
      | Some ws \<Rightarrow> landed (en_send env (length (h_out h)) ws (message_frame env sf)))"

lemma send_deliver_outcome:
  assumes "send_deliver env h sf target = (status, h3)"
    and "hb_messages (h_hub h) = ms @ [sent_row env h0 via sf (if target = None then MPending else MDelivered)]"
    and "message_id env \<notin> ms_id ` set ms"
  shows "status = (if pushed env h sf target then MDelivered else MPending)"
    and "hb_messages (h_hub h3) = ms @ [sent_row env h0 via sf status]"
    and "hb_idempotency (h_hub h3) = hb_idempotency (h_hub h)"
    and "h_audit h3 = h_audit h" "h_presence h3 = h_presence h"
  using assms
  by (cases target; auto simp: send_deliver_def pushed_def Let_def case_prod_beta stmtUpdateMessageStatus_def
      update_last_status split: if_splits option.splits)+

lemma send_record_frame [simp]:
  "h_hub (send_record env h sf st raw sig) = h_hub h" "h_agents (send_record env h sf st raw sig) = h_agents h"
  "h_presence (send_record env h sf st raw sig) = h_presence h"
  by (simp_all add: send_record_def Let_def)

text \<open>A request that passes every stage, and conversely one that stores a message.\<close>

lemma deleted_after_markSend: "stmtAgentDeleted (markSend t db i) = stmtAgentDeleted db"
  by (simp add: fun_eq_iff stmtAgentDeleted_def markSend_def sql_exists_update)

lemma send_deliver_frame:
  "hb_idempotency (h_hub (snd (send_deliver env h sf target))) = hb_idempotency (h_hub h)"
  "h_agents (snd (send_deliver env h sf target)) = h_agents h"
  by (auto simp: send_deliver_def Let_def case_prod_beta stmtUpdateMessageStatus_def split: option.split)

lemma handleSend_accepted:
  fixes env h ws params i raw sig via sf target
  defines "st \<equiv> (if pushed env h sf target then MDelivered else MPending)"
    and "st0 \<equiv> (if target = None then MPending else MDelivered)"
    and "H \<equiv> handleSend env h ws params i raw sig via"
  assumes "send_identify env h ws params i = Inr sf" "authorised env h ws sf" "send_route h sf = Inr target"
    and acc: "fst (send_accept env h via sf st0) = None"
  shows "fst H = Reply (rpcResult i (JObj [(''id'', JStr (message_id env)), (''status'', JStr (status_text st))]))"
    and "hb_messages (h_hub (snd H)) = hb_messages (h_hub h) @ [sent_row env h via sf st]"
    and "hb_idempotency (h_hub (snd H)) = hb_idempotency (h_hub (snd (send_accept env h via sf st0)))"
    and "h_presence (snd H) = h_presence h" "stmtAgentDeleted (h_agents (snd H)) = stmtAgentDeleted (h_agents h)"
    and "message_id env \<notin> ms_id ` set (hb_messages (h_hub h))"
proof -
  obtain h2 where h2: "send_accept env h via sf st0 = (None, h2)" using acc by (metis prod.collapse)
  obtain status h3 where d: "send_deliver env h2 sf target = (status, h3)" by fastforce
  note acc' = send_accept_None [OF h2]
  note out = send_deliver_outcome [OF d acc'(1) [unfolded st0_def] acc'(2)]
  have "pushed env h2 sf target = pushed env h sf target"
    using acc'(4) by (simp add: pushed_def split: option.split)
  then have st: "status = st" using out(1) by (simp add: st_def)
  have a: "send_authorise env h ws i sf = (None, h)"
    using assms(5) send_authorise_None_iff send_authorise_None by (metis prod.collapse)
  have H: "H = (Reply (rpcResult i (JObj [(''id'', JStr (message_id env)), (''status'', JStr (status_text st))])),
      send_record env h3 sf st raw sig)"
    using assms(4,6) a h2 d st by (simp add: H_def handleSend_def st0_def)
  have "stmtAgentDeleted (h_agents h2) = stmtAgentDeleted (h_agents h)"
    using h2 by (auto simp: send_accept_def accept_def deleted_after_markSend split: option.splits prod.splits)
  moreover have "h_agents h3 = h_agents h2" using send_deliver_frame(2) [of env h2 sf target] d by simp
  ultimately show "stmtAgentDeleted (h_agents (snd H)) = stmtAgentDeleted (h_agents h)" by (simp add: H)
  show "fst H = Reply (rpcResult i (JObj [(''id'', JStr (message_id env)), (''status'', JStr (status_text st))]))"
    "hb_messages (h_hub (snd H)) = hb_messages (h_hub h) @ [sent_row env h via sf st]"
    "hb_idempotency (h_hub (snd H)) = hb_idempotency (h_hub (snd (send_accept env h via sf st0)))"
    "h_presence (snd H) = h_presence h" "message_id env \<notin> ms_id ` set (hb_messages (h_hub h))"
    using out acc' st by (simp_all add: H h2)
qed

lemma handleSend_stored:
  assumes "hb_messages (h_hub (snd (handleSend env h ws params i raw sig via))) \<noteq> hb_messages (h_hub h)"
  obtains sf target where
    "send_identify env h ws params i = Inr sf" "authorised env h ws sf" "send_route h sf = Inr target"
    "fst (send_accept env h via sf (if target = None then MPending else MDelivered)) = None"
proof -
  obtain sf where sf: "send_identify env h ws params i = Inr sf"
    using assms by (cases "send_identify env h ws params i") (auto simp: handleSend_def)
  obtain f h1 where f: "send_authorise env h ws i sf = (f, h1)" by fastforce
  have "h_hub h1 = h_hub h" using send_authorise_frame(1) [of env h ws i sf] f by simp
  then have "f = None" using assms sf f by (cases f) (auto simp: handleSend_def)
  with f send_authorise_None have a: "authorised env h ws sf" and [simp]: "h1 = h" by blast+
  obtain target where t: "send_route h sf = Inr target"
    using assms sf f \<open>f = None\<close> by (cases "send_route h sf") (auto simp: handleSend_def)
  obtain e h2 where acc: "send_accept env h via sf (if target = None then MPending else MDelivered) = (e, h2)"
    by fastforce
  have "e = None"
    using assms sf f \<open>f = None\<close> t acc send_accept_Some
    by (cases e) (auto simp: handleSend_def)
  with that [OF sf a t] acc show thesis by simp
qed

section \<open>Authority and honesty of a send\<close>

text \<open>
  C9: A message enters the mailbox only with authority. Whatever the request, either the stored
  messages are as before, or exactly one is added; it records the identity of the socket as the one
  that sent it, its sender and recipient are allowed by an egress rule, the dormancy check passed, the
  recipient is not torn down, and a sender other than the socket's own identity is one that identity
  may speak for now and declared on this socket.
\<close>
theorem stored_message_was_authorised:
  "hb_messages (h_hub (snd (handleSend env h ws params i raw sig via))) = hb_messages (h_hub h) \<or>
   (\<exists>sender row. identity_of (h_presence h) ws = Some sender \<and>
      hb_messages (h_hub (snd (handleSend env h ws params i raw sig via))) = hb_messages (h_hub h) @ [row] \<and>
      ms_sent_by row = Some sender \<and> ms_from_agent row = effectiveSender params sender \<and>
      sv_ok (maySend (h_agents h) (ms_from_agent row) (ms_to_agent row) DEFAULT_TENANT) \<and>
      checkDormantSource (en_dormancy env) (en_now env) (h_agents h) (ms_from_agent row) sender
        (en_observed env ws) = None \<and>
      \<not> stmtAgentDeleted (h_agents h) (ms_to_agent row) \<and>
      (ms_from_agent row = sender \<or>
       mayProxy (h_agents h) sender (ms_from_agent row) = Entitled \<and>
       declared_proxy (h_presence h) ws (ms_from_agent row)))"
proof (cases "hb_messages (h_hub (snd (handleSend env h ws params i raw sig via))) = hb_messages (h_hub h)")
  case True
  then show ?thesis by simp
next
  case False
  then obtain sf target where
    st: "send_identify env h ws params i = Inr sf" "authorised env h ws sf" "send_route h sf = Inr target"
      "fst (send_accept env h via sf (if target = None then MPending else MDelivered)) = None"
    by (rule handleSend_stored)
  show ?thesis
    by (intro disjI2 exI [of _ "sf_sender sf"]
        exI [of _ "sent_row env h via sf (if pushed env h sf target then MDelivered else MPending)"])
      (use st(2) send_identify_Inr [OF st(1)] handleSend_accepted(2) [OF st] in \<open>auto simp: authorised_def\<close>)
qed

lemma send_route_socket:
  "send_route h sf = Inr (Some tgt) \<Longrightarrow> live_socket (h_presence h) (sf_to sf) = Some tgt"
  by (auto simp: send_route_def Let_def replyChannel_Mesh split: if_splits option.splits)


definition pair_hub :: hub where
  "pair_hub = (hub_init 0 120)\<lparr>h_presence := presence_new\<lparr>ps_online := [(''lee'', 2)],
     ps_wsIdentities := [1 \<mapsto> ''kim'', 2 \<mapsto> ''lee'']\<rparr>\<rparr>"

definition plain_send :: json where
  "plain_send = JObj [(''to'', JStr ''lee''), (''content'', JStr ''hi''), (''client_message_id'', JStr ''c1'')]"

definition plain_fields :: send_fields where
  "plain_fields = \<lparr>sf_sender = ''kim'', sf_to = ''lee'', sf_content = ''hi'', sf_from = ''kim'', sf_replyTo = JNull,
     sf_clientId = Some ''c1'', sf_digest = Some (send_digest plain_env ''lee'' ''kim'' ''hi'' None)\<rparr>"

definition dropping_env :: env where
  "dropping_env = plain_env\<lparr>en_send := \<lambda>n ws f. Wrote 0\<rparr>"

lemma plain_stages:
  "send_identify plain_env pair_hub 1 plain_send (Some (JInt 1)) = Inr plain_fields"
  "authorised plain_env pair_hub 1 plain_fields" "send_route pair_hub plain_fields = Inr (Some 2)"
  "fst (send_accept plain_env pair_hub Mesh plain_fields (if Some (2::socket) = None then MPending else MDelivered)) = None"
  "pushed plain_env pair_hub plain_fields (Some 2)"
  by code_simp+

lemmas plain_sent = handleSend_accepted [OF plain_stages(1-4)]


section \<open>Retries\<close>

text \<open>A request that carries a key and passes the first checks, with what the key stands for.\<close>

definition keyed_request :: "env \<Rightarrow> hub \<Rightarrow> socket \<Rightarrow> json \<Rightarrow> string \<Rightarrow> string \<Rightarrow> string \<Rightarrow> bool" where
  "keyed_request env h ws params sender cid digest \<longleftrightarrow>
     identity_of (h_presence h) ws = Some sender \<and> jget params ''client_message_id'' = Some (JStr cid) \<and>
     0 < js_length cid \<and> js_length cid \<le> 128 \<and> \<not> nullish (jget params ''content'') \<and>
     (\<exists>to_id. given_string (jget params ''to'') = Some to_id \<and> \<not> stmtAgentDeleted (h_agents h) to_id \<and>
        digest = send_digest env to_id (effectiveSender params sender) (js_String (the (jget params ''content'')))
          (jget params ''reply_to''))"

definition duplicate_answer :: "json option \<Rightarrow> idempotency_row \<Rightarrow> json" where
  "duplicate_answer i prior =
     rpcResult i (JObj [(''id'', JStr (id_message_id prior)), (''status'', JStr (status_text (id_status prior))),
       (''duplicate'', JBool True)])"

lemma keyed_known:
  assumes "keyed_request env h ws params sender cid digest"
    and "stmtSelectIdempotency (h_hub h) sender cid = Some prior" "id_request_digest prior = digest"
  shows "handleSend env h ws params i raw sig via = (Reply (duplicate_answer i prior), h)"
  using assms by (auto simp: keyed_request_def handleSend_def send_identify_def duplicate_answer_def)

lemma keyed_Inr:
  assumes "send_identify env h ws params i = Inr sf" "jget params ''client_message_id'' \<noteq> None"
  obtains cid digest where "keyed_request env h ws params (sf_sender sf) cid digest"
    "stmtSelectIdempotency (h_hub h) (sf_sender sf) cid = None" "sf_clientId sf = Some cid" "sf_digest sf = Some digest"
  using assms by (auto simp: keyed_request_def send_identify_def Let_def not_less split: option.splits if_splits)

lemma keyed_Inl:
  assumes "send_identify env h ws params i = Inl (rpcResult i ans)"
  obtains sender cid digest prior where "keyed_request env h ws params sender cid digest"
    "stmtSelectIdempotency (h_hub h) sender cid = Some prior" "id_request_digest prior = digest"
    "rpcResult i ans = duplicate_answer i prior"
  using assms
  by (auto simp: keyed_request_def send_identify_def Let_def duplicate_answer_def rpcError_def rpcErrorData_def
      rpcResult_def not_less split: option.splits if_splits)

lemma keyed_elsewhere:
  assumes "keyed_request env h ws params sender cid digest" "en_sha256 env2 = en_sha256 env"
    and "identity_of (h_presence h2) ws2 = identity_of (h_presence h) ws"
    and "stmtAgentDeleted (h_agents h2) = stmtAgentDeleted (h_agents h)"
  shows "keyed_request env2 h2 ws2 params sender cid digest"
  using assms by (simp add: keyed_request_def send_digest_def)

lemma accept_idempotency:
  assumes "send_accept env h via sf status = (None, h2)" "sf_clientId sf = Some cid" "sf_digest sf = Some digest"
    and "stmtSelectIdempotency (h_hub h) (sf_sender sf) cid = None"
  shows "stmtSelectIdempotency (h_hub h2) (sf_sender sf) cid =
    Some \<lparr>id_sent_by = sf_sender sf, id_client_message_id = cid, id_request_digest = digest,
          id_message_id = message_id env, id_status = status, id_created_at = now_secs env\<rparr>"
  using assms
  by (auto simp: send_accept_def accept_def send_opts_def stmtInsertMessage_def stmtInsertMessageStats_def
      stmtInsertIdempotency_def stmtSelectIdempotency_def sql_get_append idem_key_def split: option.splits if_splits prod.splits)

lemma select_idempotency_cong:
  "hb_idempotency db = hb_idempotency db' \<Longrightarrow> stmtSelectIdempotency db = stmtSelectIdempotency db'"
  by (simp add: stmtSelectIdempotency_def fun_eq_iff)

text \<open>
  A retry is answered, not sent again. When a send with a client message id has been answered with
  a result, the same request is later answered with the message id of that first answer, marked as a
  duplicate, and changes nothing at all; this holds on any socket of the same identity, for as long as
  the idempotency records are kept and the recipient is not torn down.
\<close>
theorem retried_send_is_answered_once:
  assumes first: "handleSend env h ws params i raw sig via = (Reply (rpcResult i ans), h')"
    and key: "jget params ''client_message_id'' \<noteq> None"
    and kept: "hb_idempotency (h_hub h2) = hb_idempotency (h_hub h')"
    and same: "identity_of (h_presence h2) ws2 = identity_of (h_presence h) ws"
      "stmtAgentDeleted (h_agents h2) = stmtAgentDeleted (h_agents h)" "en_sha256 env2 = en_sha256 env"
  shows "\<exists>st. handleSend env2 h2 ws2 params i2 raw2 sig2 via2 =
    (Reply (rpcResult i2 (JObj [(''id'', the (jget ans ''id'')), (''status'', JStr st), (''duplicate'', JBool True)])), h2)"
proof (cases "send_identify env h ws params i")
  case (Inl frame)
  with first have f: "frame = rpcResult i ans" and h': "h' = h" by (simp_all add: handleSend_def)
  obtain sender cid digest prior where k: "keyed_request env h ws params sender cid digest"
      "stmtSelectIdempotency (h_hub h) sender cid = Some prior" "id_request_digest prior = digest"
      "rpcResult i ans = duplicate_answer i prior"
    using keyed_Inl Inl f by metis
  have "stmtSelectIdempotency (h_hub h2) sender cid = Some prior"
    using k(2) kept h' select_idempotency_cong by metis
  from keyed_known [OF keyed_elsewhere [OF k(1) same(3,1,2)] this k(3)] k(4) show ?thesis
    by (auto simp: duplicate_answer_def rpcResult_def)
next
  case (Inr sf)
  obtain cid digest where k: "keyed_request env h ws params (sf_sender sf) cid digest"
    "stmtSelectIdempotency (h_hub h) (sf_sender sf) cid = None" "sf_clientId sf = Some cid" "sf_digest sf = Some digest"
    by (rule keyed_Inr [OF Inr key])
  obtain f h1 where f: "send_authorise env h ws i sf = (f, h1)" by fastforce
  have "f = None"
    using first Inr f by (cases f) (auto simp: handleSend_def send_authorise_def rpcError_def rpcErrorData_def
        rpcResult_def Let_def split: option.splits entitlement.splits if_splits)
  with f send_authorise_None have [simp]: "h1 = h" by blast
  obtain target where t: "send_route h sf = Inr target"
    using first Inr f \<open>f = None\<close> by (cases "send_route h sf") (auto simp: handleSend_def)
  let ?st = "if target = None then MPending else MDelivered"
  obtain e h3 where acc: "send_accept env h via sf ?st = (e, h3)" by fastforce
  have "e = None"
    using first Inr f \<open>f = None\<close> t acc
    by (cases e) (auto simp: handleSend_def rpcErrorData_def rpcResult_def)
  have ans: "ans = JObj [(''id'', JStr (message_id env)), (''status'', JStr (status_text (fst (send_deliver env h3 sf target))))]"
    and h': "h' = send_record env (snd (send_deliver env h3 sf target)) sf (fst (send_deliver env h3 sf target)) raw sig"
    using first Inr f \<open>f = None\<close> t acc \<open>e = None\<close>
    by (auto simp: handleSend_def rpcResult_def case_prod_beta)
  let ?row = "\<lparr>id_sent_by = sf_sender sf, id_client_message_id = cid, id_request_digest = digest,
      id_message_id = message_id env, id_status = ?st, id_created_at = now_secs env\<rparr>"
  have "stmtSelectIdempotency (h_hub h3) (sf_sender sf) cid = Some ?row"
    using accept_idempotency acc \<open>e = None\<close> k(2-4) by blast
  moreover have "hb_idempotency (h_hub h2) = hb_idempotency (h_hub h3)"
    using kept h' by (simp add: send_deliver_frame)
  ultimately have "stmtSelectIdempotency (h_hub h2) (sf_sender sf) cid = Some ?row"
    using select_idempotency_cong by metis
  from keyed_known [OF keyed_elsewhere [OF k(1) same(3,1,2)] this] show ?thesis
    by (intro exI [of _ "status_text ?st"]) (simp add: ans duplicate_answer_def)
qed

lemma retried_send_is_answered_once_witness:
  "\<exists>st. handleSend plain_env (snd (handleSend plain_env pair_hub 1 plain_send (Some (JInt 1)) None None Mesh)) 1
     plain_send (Some (JInt 2)) None None Mesh =
   (Reply (rpcResult (Some (JInt 2)) (JObj [(''id'', JStr ''msg_msg_1''), (''status'', JStr st), (''duplicate'', JBool True)])),
    snd (handleSend plain_env pair_hub 1 plain_send (Some (JInt 1)) None None Mesh))"
proof -
  let ?H = "handleSend plain_env pair_hub 1 plain_send (Some (JInt 1)) None None Mesh"
  have first: "?H = (Reply (rpcResult (Some (JInt 1))
      (JObj [(''id'', JStr ''msg_msg_1''), (''status'', JStr ''delivered'')])), snd ?H)"
    using plain_sent(1) plain_stages(5) by (intro prod_eqI) (simp_all add: message_id_def plain_env_def)
  have "jget plain_send ''client_message_id'' \<noteq> None" by (simp add: plain_send_def)
  with plain_sent(4,5) show ?thesis
    using retried_send_is_answered_once [OF first, of "snd ?H" 1 plain_env] by simp
qed

text \<open>
  The answer to a retry can claim a delivery that did not happen. If the frame for a fresh keyed
  message is dropped by the recipient's socket, the message is stored as pending and the answer says
  so; but the idempotency record keeps the status from before the push, so the retry of the same
  request is answered \<open>delivered\<close> while the message is still pending.
\<close>
theorem retry_can_report_a_dropped_message_delivered:
  assumes id: "send_identify env h ws params i = Inr sf" and key: "jget params ''client_message_id'' \<noteq> None"
    and auth: "authorised env h ws sf" and route: "send_route h sf = Inr (Some tgt)"
    and acc: "send_accept env h via sf MDelivered = (None, h3)"
    and drop: "\<not> pushed env h sf (Some tgt)"
  shows "\<exists>h'. handleSend env h ws params i raw sig via =
      (Reply (rpcResult i (JObj [(''id'', JStr (message_id env)), (''status'', JStr ''pending'')])), h') \<and>
    hb_messages (h_hub h') = hb_messages (h_hub h) @ [sent_row env h via sf MPending] \<and>
    (\<forall>h2 ws2. hb_idempotency (h_hub h2) = hb_idempotency (h_hub h') \<and>
        identity_of (h_presence h2) ws2 = identity_of (h_presence h) ws \<and>
        stmtAgentDeleted (h_agents h2) = stmtAgentDeleted (h_agents h) \<longrightarrow>
      handleSend env h2 ws2 params i raw sig via =
        (Reply (rpcResult i (JObj [(''id'', JStr (message_id env)), (''status'', JStr ''delivered''),
           (''duplicate'', JBool True)])), h2))"
proof -
  let ?h' = "snd (handleSend env h ws params i raw sig via)"
  obtain cid digest where k: "keyed_request env h ws params (sf_sender sf) cid digest"
    "stmtSelectIdempotency (h_hub h) (sf_sender sf) cid = None" "sf_clientId sf = Some cid" "sf_digest sf = Some digest"
    by (rule keyed_Inr [OF id key])
  have "fst (send_accept env h via sf (if Some tgt = None then MPending else MDelivered)) = None"
    using acc by simp
  note sent = handleSend_accepted(1-5) [OF id auth route this, of raw sig]
  have idem: "hb_idempotency (h_hub ?h') = hb_idempotency (h_hub h3)" using sent(3) acc by simp
  have "handleSend env h2 ws2 params i raw sig via =
      (Reply (rpcResult i (JObj [(''id'', JStr (message_id env)), (''status'', JStr ''delivered''),
         (''duplicate'', JBool True)])), h2)"
    if h2: "hb_idempotency (h_hub h2) = hb_idempotency (h_hub ?h') \<and>
      identity_of (h_presence h2) ws2 = identity_of (h_presence h) ws \<and>
      stmtAgentDeleted (h_agents h2) = stmtAgentDeleted (h_agents h)" for h2 ws2
  proof -
    have "stmtSelectIdempotency (h_hub h2) (sf_sender sf) cid =
      Some \<lparr>id_sent_by = sf_sender sf, id_client_message_id = cid, id_request_digest = digest,
          id_message_id = message_id env, id_status = MDelivered, id_created_at = now_secs env\<rparr>"
      using accept_idempotency [OF acc k(3,4,2)] select_idempotency_cong [of "h_hub h2" "h_hub h3"] h2 idem by simp
    from keyed_known [OF keyed_elsewhere [OF k(1)] this] h2 show ?thesis
      by (simp add: duplicate_answer_def)
  qed
  moreover have "handleSend env h ws params i raw sig via =
      (Reply (rpcResult i (JObj [(''id'', JStr (message_id env)), (''status'', JStr ''pending'')])), ?h')"
    using sent(1) drop by (intro prod_eqI) simp_all
  ultimately show ?thesis using sent(2) drop by (intro exI [of _ ?h']) simp
qed

lemma dropping_stages:
  "send_identify dropping_env pair_hub 1 plain_send (Some (JInt 1)) = Inr plain_fields"
  "authorised dropping_env pair_hub 1 plain_fields"
  "fst (send_accept dropping_env pair_hub Mesh plain_fields MDelivered) = None"
  "\<not> pushed dropping_env pair_hub plain_fields (Some 2)"
  by code_simp+

lemma retry_can_report_a_dropped_message_delivered_witness:
  "let h' = snd (handleSend dropping_env pair_hub 1 plain_send (Some (JInt 1)) None None Mesh) in
   map ms_status (hb_messages (h_hub h')) = [MPending] \<and>
   handleSend dropping_env h' 1 plain_send (Some (JInt 1)) None None Mesh =
     (Reply (rpcResult (Some (JInt 1)) (JObj [(''id'', JStr ''msg_msg_1''), (''status'', JStr ''delivered''),
        (''duplicate'', JBool True)])), h')"
proof -
  let ?h' = "snd (handleSend dropping_env pair_hub 1 plain_send (Some (JInt 1)) None None Mesh)"
  obtain h3 where acc: "send_accept dropping_env pair_hub Mesh plain_fields MDelivered = (None, h3)"
    using dropping_stages(3) by (metis prod.collapse)
  have key: "jget plain_send ''client_message_id'' \<noteq> None" by (simp add: plain_send_def)
  have "fst (send_accept dropping_env pair_hub Mesh plain_fields (if Some (2::socket) = None then MPending else MDelivered)) = None"
    using dropping_stages(3) by simp
  note sent = handleSend_accepted(4,5) [OF dropping_stages(1,2) plain_stages(3) this, of None None]
  have "message_id dropping_env = ''msg_msg_1''" by (simp add: message_id_def dropping_env_def plain_env_def)
  moreover have "hb_messages (h_hub pair_hub) = []" by (simp add: pair_hub_def hub_init_def hub_db_init_def)
  ultimately show ?thesis
    using sent retry_can_report_a_dropped_message_delivered
      [OF dropping_stages(1) key dropping_stages(2) plain_stages(3) acc dropping_stages(4), of None None]
    by (auto simp: Let_def)
qed

section \<open>What a send can touch\<close>

text \<open>A property of the state that every stage keeps is kept by the send.\<close>

lemma handleSend_keeps:
  assumes "P h"
    and "\<And>sf. P (snd (send_authorise env h ws i sf))"
    and "\<And>h sf st. P h \<Longrightarrow> P (snd (send_accept env h via sf st))"
    and "\<And>h sf target. P h \<Longrightarrow> P (snd (send_deliver env h sf target))"
    and "\<And>h sf st. P h \<Longrightarrow> P (send_record env h sf st raw sig)"
  shows "P (snd (handleSend env h ws params i raw sig via))"
proof (cases "send_identify env h ws params i")
  case (Inl frame)
  with assms(1) show ?thesis by (simp add: handleSend_def)
next
  case (Inr sf)
  obtain f h1 where f: "send_authorise env h ws i sf = (f, h1)" by fastforce
  with assms(2) [of sf] have h1: "P h1" by simp
  show ?thesis
  proof (cases "send_route h1 sf")
    case (Inl e)
    with Inr f h1 show ?thesis by (cases f) (simp_all add: handleSend_def)
  next
    case r: (Inr target)
    obtain e h2 where a: "send_accept env h1 via sf (if target = None then MPending else MDelivered) = (e, h2)"
      by fastforce
    with assms(3) [OF h1, of sf "if target = None then MPending else MDelivered"] have h2: "P h2" by simp
    obtain st h3 where d: "send_deliver env h2 sf target = (st, h3)" by fastforce
    with assms(4) [OF h2, of sf target] have "P h3" by simp
    with assms(5) h1 h2 Inr f r a d show ?thesis
      by (cases f; cases e) (simp_all add: handleSend_def)
  qed
qed

lemma send_authorise_frame':
  "h_presence (snd (send_authorise env h ws i sf)) = h_presence h"
  "h_reminders (snd (send_authorise env h ws i sf)) = h_reminders h"
  "h_nonces (snd (send_authorise env h ws i sf)) = h_nonces h"
  by (auto simp: send_authorise_def Let_def split: option.split entitlement.split)

lemma send_accept_frame:
  "h_presence (snd (send_accept env h via sf st)) = h_presence h"
  "h_reminders (snd (send_accept env h via sf st)) = h_reminders h"
  "h_nonces (snd (send_accept env h via sf st)) = h_nonces h"
  "h_audit (snd (send_accept env h via sf st)) = h_audit h"
  by (auto simp: send_accept_def split: option.split prod.split)

lemma send_accept_pk: "hub_pk (h_hub h) \<Longrightarrow> hub_pk (h_hub (snd (send_accept env h via sf st)))"
proof -
  have "hub_pk (h_hub h) \<Longrightarrow> accept t (h_hub h) a opts f = (Some db, a') \<Longrightarrow> hub_pk db" for t a opts f db a'
    using accept_pk [of "h_hub h" t a opts f db] by simp
  then show "hub_pk (h_hub h) \<Longrightarrow> hub_pk (h_hub (snd (send_accept env h via sf st)))"
    by (auto simp: send_accept_def split: option.split prod.split)
qed

lemma send_deliver_frame':
  "h_presence (snd (send_deliver env h sf target)) = h_presence h"
  "h_reminders (snd (send_deliver env h sf target)) = h_reminders h"
  "h_nonces (snd (send_deliver env h sf target)) = h_nonces h"
  "h_audit (snd (send_deliver env h sf target)) = h_audit h"
  "hub_pk (h_hub (snd (send_deliver env h sf target))) = hub_pk (h_hub h)"
  by (auto simp: send_deliver_def Let_def case_prod_beta split: option.split)

lemma send_record_frame':
  "h_reminders (send_record env h sf st raw sig) = h_reminders h" "h_nonces (send_record env h sf st raw sig) = h_nonces h"
  "audit_extends (h_audit h) (h_audit (send_record env h sf st raw sig))"
  by (auto simp: send_record_def Let_def intro: audit_extends_trans recordMeshEvent_extends)

lemma handleSend_frame [simp]:
  "h_presence (snd (handleSend env h ws params i raw sig via)) = h_presence h"
  "h_reminders (snd (handleSend env h ws params i raw sig via)) = h_reminders h"
  "h_nonces (snd (handleSend env h ws params i raw sig via)) = h_nonces h"
  by (rule handleSend_keeps; simp add: send_authorise_frame' send_accept_frame send_deliver_frame' send_record_frame')+

lemma handleSend_audit [simp]: "audit_extends (h_audit h) (h_audit (snd (handleSend env h ws params i raw sig via)))"
  by (rule handleSend_keeps)
    (auto simp: send_authorise_frame send_accept_frame send_deliver_frame' send_record_frame' intro: audit_extends_trans)

lemma handleSend_pk: "hub_pk (h_hub h) \<Longrightarrow> hub_pk (h_hub (snd (handleSend env h ws params i raw sig via)))"
  by (rule handleSend_keeps) (auto simp: send_authorise_frame send_accept_pk send_deliver_frame')

lemma handleSend_byId:
  assumes "stmtMessageById (h_hub h) x = Some m"
  shows "stmtMessageById (h_hub (snd (handleSend env h ws params i raw sig via))) x = Some m"
proof (cases "hb_messages (h_hub (snd (handleSend env h ws params i raw sig via))) = hb_messages (h_hub h)")
  case True
  with assms show ?thesis by (simp add: stmtMessageById_def)
next
  case False
  then obtain sf target where
    st: "send_identify env h ws params i = Inr sf" "authorised env h ws sf" "send_route h sf = Inr target"
      "fst (send_accept env h via sf (if target = None then MPending else MDelivered)) = None"
    by (rule handleSend_stored)
  from handleSend_accepted(2) [OF st] assms show ?thesis
    by (simp add: stmtMessageById_def sql_get_append)
qed

text \<open>A socket without an identity sends nothing and changes nothing.\<close>

lemma handleSend_unidentified: "identity_of (h_presence h) ws = None \<Longrightarrow> snd (handleSend env h ws params i raw sig via) = h"
  by (simp add: handleSend_def send_identify_def)

end
