(* ===== verification/Hub_Connect.thy ===== *)
theory Hub_Connect
  imports Hub_Audit
begin

text \<open>
  \<open>mesh.connect\<close> and its alias (\<open>packages/hub/src/rpc/connect.ts\<close>), the replay of waiting mail, and the
  reads of \<open>rpc/receive.ts\<close>, \<open>rpc/messages.ts\<close> and \<open>rpc/agents.ts\<close>.

  The delayed close after a refusal is recorded in \<open>h_closing\<close> when it is asked for. The parameter
  \<open>via\<close> of \<open>performConnect\<close> only goes to the log.

  The lemmas: which of three outcomes a connect has, and that a replay hands over only mail of the
  identity or of one it was just granted, oldest first, and marks exactly what was written to the socket.
\<close>

section \<open>Statements\<close>

definition stmtAgentExists :: "agents_db \<Rightarrow> string \<Rightarrow> bool" where
  "stmtAgentExists db identity = sql_exists (\<lambda>a. ag_identity a = identity \<and> ag_deleted_at a = None) (db_agents db)"

definition stmtListAgents :: "agents_db \<Rightarrow> agent_row list" where
  "stmtListAgents db = order_asc ag_identity (sql_where (\<lambda>a. ag_deleted_at a = None) (db_agents db))"

section \<open>Replay\<close>

definition replay_frame :: "message_row \<Rightarrow> json" where
  "replay_frame m =
     rpcNotification ''mesh.message'' (JObj
       [(''id'', JStr (ms_id m)), (''from'', JStr (ms_from_agent m)), (''to'', JStr (ms_to_agent m)),
        (''sent_by'', nullable (ms_sent_by m)), (''content'', JStr (ms_content m)),
        (''reply_to'', nullable (ms_reply_to m)), (''ts'', JStr (sql_time (ms_ts m)))])"

primrec replay :: "env \<Rightarrow> socket \<Rightarrow> message_row list \<Rightarrow> hub \<Rightarrow> hub" where
  "replay env ws [] h = h"
| "replay env ws (m # ms) h =
     (let (report, h1) = ws_send env h ws (replay_frame m)
      in if sendFrame report = Some True \<and> en_hub_error env = None then
           replay env ws ms
             (h1\<lparr>h_hub := stmtUpdateMessageStatus (h_hub h1) MDelivered (ms_id m),
                 h_audit := recordDelivered env m (h_audit h1)\<rparr>)
         else h1)"

definition deliverPending :: "env \<Rightarrow> string \<Rightarrow> socket \<Rightarrow> hub \<Rightarrow> hub" where
  "deliverPending env identity ws h = replay env ws (stmtPendingMessages (h_hub h) identity) h"

section \<open>Connecting\<close>

fun string_elems :: "json list \<Rightarrow> string list" where
  "string_elems [] = []"
| "string_elems (JStr s # xs) = s # string_elems xs"
| "string_elems (_ # xs) = string_elems xs"

text \<open>The entries of \<open>proxy_for\<close> that the identity may speak for.\<close>

definition granted_proxies :: "agents_db \<Rightarrow> string \<Rightarrow> json \<Rightarrow> string list" where
  "granted_proxies db identity params =
     filter (\<lambda>pid. pid \<noteq> [] \<and> mayProxy db identity pid = Entitled)
       (string_elems (coalesce (as_array (jget params ''proxy_for'')) []))"

definition connect_result :: "contracts \<Rightarrow> json option \<Rightarrow> string \<Rightarrow> json" where
  "connect_result ct i identity =
     rpcResult i (JObj [(''ok'', JBool True), (''identity'', JStr identity),
       (''capabilities'', JObj [(''audit'',
          JObj (AList.update ''schema_version_max'' (JInt (ct_schema_version ct)) (ct_audit_capability ct)))])])"

definition performConnect :: "env \<Rightarrow> hub \<Rightarrow> socket \<Rightarrow> json \<Rightarrow> json option \<Rightarrow> reply \<times> hub" where
  "performConnect env h ws params i =
     (case given_string (jget params ''identity'') of
        None \<Rightarrow> (Reply (rpcError i INVALID_PARAMS ''params.identity is required''), h)
      | Some identity \<Rightarrow>
          if \<not> stmtAgentExists (h_agents h) identity then
            (Reply (rpcErrorData i IDENTITY_NOT_REGISTERED
               (''identity '' @ quoted identity @ '' not registered. POST /api/agents first.'')
               (Some (JObj [(''code'', JStr ''IDENTITY_NOT_REGISTERED''), (''identity'', JStr identity)]))),
             ws_close h ws 1008 ''identity not registered'')
          else
            (let agents = recordSource (now_secs env) (h_agents h) identity (en_observed env ws)
             in case claim_identity (h_presence h) identity ws of
                  (Conflict incumbent contender, p) \<Rightarrow>
                    (Reply (rpcErrorData i DUPLICATE_IDENTITY
                       (''duplicate identity '' @ [quote] @ identity @ [quote] @ '': an established owner remains connected'')
                       (Some (JObj [(''code'', JStr ''DUPLICATE_IDENTITY''), (''ownership'', JStr ''incumbent_retained''),
                          (''incumbent_connection_generation'', JInt (int incumbent)),
                          (''contender_connection_generation'', JInt (int contender)),
                          (''source_metadata'', JStr ''server_connection_sequence'')]))),
                     ws_close (h\<lparr>h_agents := agents, h_presence := p\<rparr>) ws 1008 ''duplicate identity owner active'')
                | (Granted _, p) \<Rightarrow>
                    (let agents' = stmtUpdateLastSeen (now_secs env) agents identity;
                         granted = granted_proxies agents' identity params;
                         p1 = declare_proxies (go_online p identity ws) ws
                                (if coalesce (as_array (jget params ''proxy_for'')) [] = [] then None else Some granted);
                         h1 = deliverPending env identity ws (h\<lparr>h_agents := agents', h_presence := p1\<rparr>)
                     in (Reply (connect_result (en_contracts env) i identity),
                         foldl (\<lambda>h pid. deliverPending env pid ws h) h1 granted))))"

definition handleConnect :: "env \<Rightarrow> hub \<Rightarrow> socket \<Rightarrow> json \<Rightarrow> json option \<Rightarrow> reply \<times> hub" where
  "handleConnect env h ws params i = performConnect env h ws params i"

definition handleRegister :: "env \<Rightarrow> hub \<Rightarrow> socket \<Rightarrow> json \<Rightarrow> json option \<Rightarrow> reply \<times> hub" where
  "handleRegister env h ws params i = performConnect env h ws params i"

section \<open>Reads\<close>

text \<open>\<open>Math.min(Math.max(parseInt(x ?? d, 10) || d, 1), most)\<close>.\<close>

definition page_limit :: "json option \<Rightarrow> int \<Rightarrow> int \<Rightarrow> nat" where
  "page_limit x d most =
     (let n = (case parseInt (js_String (or_else x (JInt d))) of None \<Rightarrow> d | Some n \<Rightarrow> if n = 0 then d else n)
      in nat (min (max n 1) most))"

definition DEFAULT_LIMIT :: int where "DEFAULT_LIMIT = 50"

text \<open>What goes back for one row.\<close>

definition received_json :: "message_row \<Rightarrow> json" where
  "received_json m =
     JObj [(''id'', JStr (ms_id m)), (''from'', JStr (ms_from_agent m)), (''to'', JStr (ms_to_agent m)),
           (''sent_by'', nullable (ms_sent_by m)), (''content'', JStr (ms_content m)),
           (''reply_to'', nullable (ms_reply_to m)), (''ts'', JStr (sql_time (ms_ts m)))]"

definition receive_json :: "receive_result \<Rightarrow> json" where
  "receive_json r =
     JObj [(''messages'', JArr (map received_json (rr_messages r))), (''remaining'', JInt (int (rr_remaining r))),
           (''lease_seconds'', JInt (rr_lease_seconds r))]"

definition handleReceive :: "env \<Rightarrow> hub \<Rightarrow> string option \<Rightarrow> json \<Rightarrow> json option \<Rightarrow> reply \<times> hub" where
  "handleReceive env h identity params i =
     (case identity of
        None \<Rightarrow> (Reply (rpcError i INVALID_PARAMS ''no identity: mesh.receive requires a signed request''), h)
      | Some who \<Rightarrow>
          if who = [] then
            (Reply (rpcError i INVALID_PARAMS ''no identity: mesh.receive requires a signed request''), h)
          else
            (let limit = page_limit (jget params ''limit'') DEFAULT_LIMIT (int (ct_max_receive_batch (en_contracts env)));
                 ackIds = string_elems (coalesce (as_array (jget params ''ack_ids'')) []);
                 (result, settled, db) = receive (now_secs env) (h_hub h) who limit ackIds (en_lease_seconds env)
             in if en_hub_error env \<noteq> None \<and> (ackIds \<noteq> [] \<or> rr_messages result \<noteq> []) then
                  (Thrown (the (en_hub_error env)), h)
                else
                  (Reply (rpcResult i (receive_json result)),
                   h\<lparr>h_hub := db, h_audit := foldl (\<lambda>a row. recordDelivered env row a) (h_audit h) settled\<rparr>)))"

definition fetched_json :: "message_row \<Rightarrow> json" where
  "fetched_json m =
     JObj [(''id'', JStr (ms_id m)), (''from'', JStr (ms_from_agent m)), (''to'', JStr (ms_to_agent m)),
           (''sent_by'', nullable (ms_sent_by m)), (''content'', JStr (ms_content m)),
           (''reply_to'', nullable (ms_reply_to m)),
           (''status'', JStr (status_text (ms_status m))),
           (''ts'', JStr (sql_time (ms_ts m)))]"

definition handleFetchMessages :: "hub \<Rightarrow> socket \<Rightarrow> json \<Rightarrow> json option \<Rightarrow> reply" where
  "handleFetchMessages h ws params i =
     (case identity_of (h_presence h) ws of
        None \<Rightarrow> Reply (rpcError i INVALID_REQUEST ''Not connected. Call mesh.connect first (or legacy mesh.register).'')
      | Some caller \<Rightarrow>
          (case given_string (jget params ''agent_id'') of
             None \<Rightarrow> Reply (rpcError i INVALID_PARAMS ''params.agent_id is required'')
           | Some agentId \<Rightarrow>
               Reply (rpcResult i (JObj [(''messages'', JArr (map fetched_json
                 (stmtFetchMessages (h_hub h) caller agentId (page_limit (jget params ''limit'') 20 200))))]))))"

definition listed_json :: "presence \<Rightarrow> agent_row \<Rightarrow> json" where
  "listed_json p a =
     JObj [(''id'', JStr (ag_identity a)), (''description'', nullable (ag_description a)),
           (''online'', JBool (online_socket p (ag_identity a) \<noteq> None)),
           (''last_seen'', (case ag_last_seen a of None \<Rightarrow> JNull | Some t \<Rightarrow> JStr (sql_time t))),
           (''type'', nullable (ag_type a))]"

definition handleListAgents :: "hub \<Rightarrow> json option \<Rightarrow> reply" where
  "handleListAgents h i =
     Reply (rpcResult i (JObj [(''agents'', JArr (map (listed_json (h_presence h)) (stmtListAgents (h_agents h))))]))"

section \<open>What a replay does\<close>

definition mark :: "string set \<Rightarrow> message_row \<Rightarrow> message_row" where
  "mark ids m = (if ms_id m \<in> ids then m\<lparr>ms_status := MDelivered\<rparr> else m)"

lemma mark_fields [simp]: "ms_id (mark ids m) = ms_id m" "ms_to_agent (mark ids m) = ms_to_agent m"
  "ms_ts (mark ids m) = ms_ts m"
  by (simp_all add: mark_def)

lemma mark_pending: "ms_status (mark ids m) = MPending \<longleftrightarrow> ms_status m = MPending \<and> ms_id m \<notin> ids"
  by (simp add: mark_def)

lemma mark_mark: "mark ids (mark ids' m) = mark (ids \<union> ids') m"
  by (simp add: mark_def)

text \<open>The rows of a replay that are marked: those before the first that does not land.\<close>

primrec replayed :: "env \<Rightarrow> socket \<Rightarrow> nat \<Rightarrow> message_row list \<Rightarrow> message_row list" where
  "replayed env ws k [] = []"
| "replayed env ws k (m # ms) =
     (if sendFrame (en_send env k ws (replay_frame m)) = Some True \<and> en_hub_error env = None
      then m # replayed env ws (Suc k) ms else [])"

lemma replayed_take: "replayed env ws k ms = take (length (replayed env ws k ms)) ms"
  by (induction ms arbitrary: k) auto

lemma replayed_subset: "set (replayed env ws k ms) \<subseteq> set ms"
  by (subst replayed_take) (rule set_take_subset)

lemma status_mark:
  "stmtUpdateMessageStatus db MDelivered mid = db\<lparr>hb_messages := map (mark {mid}) (hb_messages db)\<rparr>"
  by (simp add: stmtUpdateMessageStatus_def sql_update_def mark_def)

lemma replay_eq:
  "replay env ws ms h =
     h\<lparr>h_hub := (h_hub h)\<lparr>hb_messages :=
          map (mark (ms_id ` set (replayed env ws (length (h_out h)) ms))) (hb_messages (h_hub h))\<rparr>,
       h_audit := foldl (\<lambda>a m. recordDelivered env m a) (h_audit h) (replayed env ws (length (h_out h)) ms),
       h_out := h_out h @ map (\<lambda>m. (ws, replay_frame m)) (take (Suc (length (replayed env ws (length (h_out h)) ms))) ms)\<rparr>"
proof (induction ms arbitrary: h)
  case Nil
  have "mark {} = id" by (simp add: mark_def fun_eq_iff)
  then show ?case by simp
next
  case (Cons m ms)
  have id: "mark {} = id" by (simp add: mark_def fun_eq_iff)
  show ?case
  proof (cases "sendFrame (en_send env (length (h_out h)) ws (replay_frame m)) = Some True \<and> en_hub_error env = None")
    case False
    then show ?thesis by (auto simp: id Let_def case_prod_beta)
  next
    case True
    have c: "mark X \<circ> mark {ms_id m} = mark (insert (ms_id m) X)" for X
      by (simp add: fun_eq_iff mark_mark)
    from True show ?thesis
      by (simp add: Let_def case_prod_beta Cons.IH status_mark c)
  qed
qed

lemma map_mark_pk: "sql_unique ms_id (map (mark ids) ms) = sql_unique ms_id ms"
  by (simp add: sql_unique_def comp_def)

text \<open>
  \<open>h\<close> comes from \<open>h0\<close> by replays on one socket: mail of the identities in \<open>P\<close> was handed over, and some
  of it marked.
\<close>

definition handed_over :: "socket \<Rightarrow> string set \<Rightarrow> hub \<Rightarrow> hub \<Rightarrow> bool" where
  "handed_over ws P h0 h \<longleftrightarrow> h_presence h = h_presence h0 \<and> h_agents h = h_agents h0 \<and>
     (\<exists>sent ids. h_out h = h_out h0 @ map (\<lambda>m. (ws, replay_frame m)) sent \<and>
        set sent \<subseteq> {m \<in> set (hb_messages (h_hub h0)). ms_status m = MPending \<and> ms_to_agent m \<in> P} \<and>
        ids \<subseteq> ms_id ` set sent \<and> hb_messages (h_hub h) = map (mark ids) (hb_messages (h_hub h0)))"

lemma handed_over_refl: "handed_over ws P h h"
proof -
  have "mark {} = id" by (simp add: mark_def fun_eq_iff)
  then show ?thesis unfolding handed_over_def
    by (intro conjI refl exI [of _ "[]"] exI [of _ "{}"]) auto
qed

lemma handed_over_deliver:
  assumes "handed_over ws P h0 h" "i \<in> P"
  shows "handed_over ws P h0 (deliverPending env i ws h)"
proof -
  from assms(1) obtain sent ids where
    h: "h_presence h = h_presence h0" "h_agents h = h_agents h0"
      "h_out h = h_out h0 @ map (\<lambda>m. (ws, replay_frame m)) sent"
      "set sent \<subseteq> {m \<in> set (hb_messages (h_hub h0)). ms_status m = MPending \<and> ms_to_agent m \<in> P}"
      "ids \<subseteq> ms_id ` set sent" "hb_messages (h_hub h) = map (mark ids) (hb_messages (h_hub h0))"
    by (auto simp: handed_over_def)
  let ?ms = "stmtPendingMessages (h_hub h) i"
  let ?r = "replayed env ws (length (h_out h)) ?ms"
  let ?s = "take (Suc (length ?r)) ?ms"
  have pend: "set ?ms \<subseteq> {m \<in> set (hb_messages (h_hub h0)). ms_status m = MPending \<and> ms_to_agent m \<in> P}"
    using assms(2) by (auto simp: stmtPendingMessages_def sql_simps h(6) mark_def split: if_splits)
  have "set ?r \<subseteq> set ?s"
    using replayed_take [of env ws "length (h_out h)" ?ms] set_take_subset_set_take [of "length ?r" "Suc (length ?r)" ?ms] by simp
  moreover have "set ?s \<subseteq> set ?ms" by (rule set_take_subset)
  moreover have "mark X \<circ> mark ids = mark (X \<union> ids)" for X by (simp add: fun_eq_iff mark_mark)
  ultimately show ?thesis
    unfolding handed_over_def deliverPending_def replay_eq
    by (intro conjI exI [of _ "sent @ ?s"] exI [of _ "ms_id ` set ?r \<union> ids"]) (use h pend in auto)
qed

lemma handed_over_fold:
  "handed_over ws P h0 h \<Longrightarrow> set pids \<subseteq> P \<Longrightarrow>
   handed_over ws P h0 (foldl (\<lambda>h pid. deliverPending env pid ws h) h pids)"
  by (induction pids arbitrary: h) (auto intro: handed_over_deliver)

section \<open>The outcome of a connect\<close>

lemma deliver_eq:
  "deliverPending env i ws h =
     h\<lparr>h_hub := (h_hub h)\<lparr>hb_messages := map (mark (ms_id ` set (replayed env ws (length (h_out h))
          (stmtPendingMessages (h_hub h) i)))) (hb_messages (h_hub h))\<rparr>,
       h_audit := h_audit (deliverPending env i ws h), h_out := h_out (deliverPending env i ws h)\<rparr>"
  by (simp add: deliverPending_def replay_eq)

lemma deliver_frame [simp]:
  "h_presence (deliverPending env i ws h) = h_presence h" "h_agents (deliverPending env i ws h) = h_agents h"
  "h_nonces (deliverPending env i ws h) = h_nonces h" "h_refusals (deliverPending env i ws h) = h_refusals h"
  "h_reminders (deliverPending env i ws h) = h_reminders h"
  by (subst deliver_eq; simp)+

lemma deliver_fold_frame [simp]:
  "h_presence (foldl (\<lambda>h pid. deliverPending env pid ws h) h pids) = h_presence h"
  "h_agents (foldl (\<lambda>h pid. deliverPending env pid ws h) h pids) = h_agents h"
  "h_nonces (foldl (\<lambda>h pid. deliverPending env pid ws h) h pids) = h_nonces h"
  "h_refusals (foldl (\<lambda>h pid. deliverPending env pid ws h) h pids) = h_refusals h"
  "h_reminders (foldl (\<lambda>h pid. deliverPending env pid ws h) h pids) = h_reminders h"
  by (induction pids arbitrary: h) simp_all

lemma claim_presence_step:
  "claim_identity p i ws = (Granted g, p') \<Longrightarrow>
     presence_step p (PConnect i ws d) = declare_proxies (go_online p' i ws) ws d"
  "claim_identity p i ws = (Conflict a b, p') \<Longrightarrow> presence_step p (PConnect i ws d) = p'"
  by simp_all

text \<open>The state in which the replay of a connect starts.\<close>

definition connected_state :: "env \<Rightarrow> hub \<Rightarrow> socket \<Rightarrow> json \<Rightarrow> string \<Rightarrow> hub" where
  "connected_state env h ws params identity =
     (let agents = stmtUpdateLastSeen (now_secs env)
            (recordSource (now_secs env) (h_agents h) identity (en_observed env ws)) identity
      in h\<lparr>h_agents := agents,
           h_presence := presence_step (h_presence h) (PConnect identity ws
             (if coalesce (as_array (jget params ''proxy_for'')) [] = [] then None
              else Some (granted_proxies agents identity params)))\<rparr>)"

lemma connect_granted:
  assumes "given_string (jget params ''identity'') = Some identity" "stmtAgentExists (h_agents h) identity"
    and "owner (h_presence h) identity = None \<or> owner (h_presence h) identity = Some ws"
  shows "performConnect env h ws params i =
    (Reply (connect_result (en_contracts env) i identity),
     foldl (\<lambda>h pid. deliverPending env pid ws h)
       (deliverPending env identity ws (connected_state env h ws params identity))
       (granted_proxies (h_agents (connected_state env h ws params identity)) identity params))"
proof -
  obtain g p where c: "claim_identity (h_presence h) identity ws = (Granted g, p)"
    using assms(3) claim_granted_iff [of "h_presence h" identity ws]
    by (cases "claim_identity (h_presence h) identity ws") (auto simp: owner_def)
  from assms(1,2) c show ?thesis
    unfolding performConnect_def connected_state_def Let_def claim_presence_step(1) [OF c] by simp
qed

lemma connect_refused:
  assumes "given_string (jget params ''identity'') = Some identity" "stmtAgentExists (h_agents h) identity"
    and "owner (h_presence h) identity \<noteq> None" "owner (h_presence h) identity \<noteq> Some ws"
  shows "\<exists>m d. performConnect env h ws params i = (Reply (rpcErrorData i DUPLICATE_IDENTITY m d),
     ws_close (h\<lparr>h_agents := recordSource (now_secs env) (h_agents h) identity (en_observed env ws),
       h_presence := presence_step (h_presence h) (PConnect identity ws None)\<rparr>)
       ws 1008 ''duplicate identity owner active'')"
proof -
  obtain a b p where c: "claim_identity (h_presence h) identity ws = (Conflict a b, p)"
    using assms(3,4) claim_granted_iff [of "h_presence h" identity ws]
    by (cases "claim_identity (h_presence h) identity ws" ; cases "fst (claim_identity (h_presence h) identity ws)")
      (auto simp: owner_def)
  from assms(1,2) c show ?thesis
    unfolding performConnect_def Let_def claim_presence_step(2) [OF c] by auto
qed

text \<open>The JSON-RPC error that a handler answered with.\<close>

definition reply_error :: "reply \<Rightarrow> int option" where
  "reply_error r = Option.bind (reply_frame r) frame_error"

lemma presence_step_connect_granted:
  assumes "owner p i = None \<or> owner p i = Some ws"
  shows "owner (presence_step p (PConnect i ws d)) i = Some ws"
    "online_socket (presence_step p (PConnect i ws d)) i = Some ws"
    "ps_wsIdentities (presence_step p (PConnect i ws d)) ws = Some i"
    "ps_proxyMap (presence_step p (PConnect i ws d)) pid =
       (if pid \<in> set (coalesce d []) then Some ws else ps_proxyMap p pid)"
  using assms
  by (simp_all add: connect_cases owner_def claim_maps go_online_def online_socket_eq update_conv'
      declare_proxies_def grant_proxies_def Let_def foldl_upd del: presence_step.simps split: option.split)

text \<open>
  A connect has exactly one of four outcomes. Without an identity it is an invalid request and
  nothing changes; an identity that is not registered is refused and the socket closed; an identity
  held by another socket is refused, the holder stays online with every route, and no mail moves; in
  every other case the socket owns the identity, is online as it, speaks for it, and routes exactly
  the proxied identities it was granted.
\<close>
theorem connect_outcome:
  "case given_string (jget params ''identity'') of
     None \<Rightarrow> reply_error (fst (performConnect env h ws params i)) = Some INVALID_PARAMS \<and>
             snd (performConnect env h ws params i) = h
   | Some identity \<Rightarrow>
       (let (r, h') = performConnect env h ws params i; p = h_presence h; p' = h_presence h'
        in if \<not> stmtAgentExists (h_agents h) identity then
             reply_error r = Some IDENTITY_NOT_REGISTERED \<and> h' = ws_close h ws 1008 ''identity not registered''
           else if owner p identity \<notin> {None, Some ws} then
             reply_error r = Some DUPLICATE_IDENTITY \<and> ps_online p' = ps_online p \<and> ps_owners p' = ps_owners p \<and>
             ps_wsIdentities p' = ps_wsIdentities p \<and> ps_proxyMap p' = ps_proxyMap p \<and>
             h_hub h' = h_hub h \<and> h_out h' = h_out h \<and> h_audit h' = h_audit h
           else r = Reply (connect_result (en_contracts env) i identity) \<and>
             owner p' identity = Some ws \<and> online_socket p' identity = Some ws \<and> identity_of p' ws = Some identity \<and>
             (\<forall>pid. ps_proxyMap p' pid =
                (if pid \<in> set (granted_proxies (h_agents h') identity params) then Some ws else ps_proxyMap p pid)))"
proof (cases "given_string (jget params ''identity'')")
  case None
  then show ?thesis by (simp add: performConnect_def reply_error_def)
next
  case (Some identity)
  then have ne: "identity \<noteq> []" by simp
  note S = Some
  show ?thesis
  proof (cases "stmtAgentExists (h_agents h) identity")
    case False
    then show ?thesis unfolding S option.case by (simp add: performConnect_def S reply_error_def)
  next
    case True
    show ?thesis
    proof (cases "owner (h_presence h) identity \<in> {None, Some ws}")
      case False
      then have o: "owner (h_presence h) identity \<noteq> None" "owner (h_presence h) identity \<noteq> Some ws" by auto
      have step: "presence_step (h_presence h) (PConnect identity ws None) = snd (claim_identity (h_presence h) identity ws)"
        using o by (auto simp: connect_cases owner_def simp del: presence_step.simps)
      from connect_refused [OF S True o, of env i] obtain m d where
        "performConnect env h ws params i = (Reply (rpcErrorData i DUPLICATE_IDENTITY m d),
          ws_close (h\<lparr>h_agents := recordSource (now_secs env) (h_agents h) identity (en_observed env ws),
            h_presence := snd (claim_identity (h_presence h) identity ws)\<rparr>) ws 1008 ''duplicate identity owner active'')"
        unfolding step by blast
      with True o show ?thesis unfolding S option.case
        by (auto simp: reply_error_def ws_close_def claim_maps owner_def)
    next
      case own: True
      then have o: "owner (h_presence h) identity = None \<or> owner (h_presence h) identity = Some ws" by auto
      let ?d = "coalesce (as_array (jget params ''proxy_for'')) []"
      let ?s = "connected_state env h ws params identity"
      have "h_presence ?s = presence_step (h_presence h) (PConnect identity ws
          (if ?d = [] then None else Some (granted_proxies (h_agents ?s) identity params)))"
        by (simp add: connected_state_def Let_def del: presence_step.simps)
      moreover have "?d = [] \<Longrightarrow> granted_proxies db identity params = []" for db
        by (simp add: granted_proxies_def)
      ultimately show ?thesis using True own presence_step_connect_granted [OF o] ne
        unfolding S option.case connect_granted [OF S True o]
        by (auto simp: identity_of_Some_iff)
    qed
  qed
qed

text \<open>
  A connect hands over only mail the caller may have. Every frame it writes goes to the connecting
  socket and is a stored message that was pending and addressed to the identity of the connect, or to
  an identity that one is entitled to speak for; no message changes but by being marked as delivered,
  and only messages that were written to the socket are marked.
\<close>
theorem connect_hands_over_entitled_mail_only:
  "\<exists>sent ids. h_out (snd (performConnect env h ws params i)) = h_out h @ map (\<lambda>m. (ws, replay_frame m)) sent \<and>
     hb_messages (h_hub (snd (performConnect env h ws params i))) = map (mark ids) (hb_messages (h_hub h)) \<and>
     ids \<subseteq> ms_id ` set sent \<and>
     set sent \<subseteq> {m \<in> set (hb_messages (h_hub h)). ms_status m = MPending \<and>
       (\<exists>identity. given_string (jget params ''identity'') = Some identity \<and>
          (ms_to_agent m = identity \<or>
           mayProxy (h_agents (snd (performConnect env h ws params i))) identity (ms_to_agent m) = Entitled))}"
    (is "\<exists>sent ids. ?Q (snd (performConnect env h ws params i)) sent ids")
proof -
  have id: "mark {} = id" by (simp add: mark_def fun_eq_iff)
  have same: "\<exists>sent ids. ?Q h' sent ids" if "h_out h' = h_out h" "h_hub h' = h_hub h" for h'
    by (intro exI [of _ "[]"] exI [of _ "{}"]) (simp add: that id)
  show ?thesis
  proof (cases "given_string (jget params ''identity'')")
    case None
    then show ?thesis by (intro same) (simp_all add: performConnect_def)
  next
    case S: (Some identity)
    show ?thesis
    proof (cases "stmtAgentExists (h_agents h) identity")
      case False
      then show ?thesis by (intro same) (simp_all add: performConnect_def S ws_close_def)
    next
      case True
      show ?thesis
      proof (cases "owner (h_presence h) identity = None \<or> owner (h_presence h) identity = Some ws")
        case False
        then have o: "owner (h_presence h) identity \<noteq> None" "owner (h_presence h) identity \<noteq> Some ws" by auto
        from connect_refused [OF S True o, of env i] show ?thesis by (intro same) (auto simp: ws_close_def)
      next
        case o: True
        let ?s = "connected_state env h ws params identity"
        let ?g = "granted_proxies (h_agents ?s) identity params"
        let ?h = "foldl (\<lambda>h pid. deliverPending env pid ws h) (deliverPending env identity ws ?s) ?g"
        have "handed_over ws (insert identity (set ?g)) ?s ?h"
          by (intro handed_over_fold handed_over_deliver handed_over_refl) auto
        moreover have "h_out ?s = h_out h" "h_hub ?s = h_hub h" by (simp_all add: connected_state_def Let_def)
        moreover have "pid \<in> insert identity (set ?g) \<Longrightarrow>
            pid = identity \<or> mayProxy (h_agents ?h) identity pid = Entitled" for pid
          by (auto simp: granted_proxies_def)
        ultimately show ?thesis unfolding connect_granted [OF S True o] handed_over_def snd_conv
          by (elim conjE exE, intro exI conjI) (auto simp: S)
      qed
    qed
  qed
qed

text \<open>On a socket that writes every frame, nothing that waited is left.\<close>

lemma replayed_all:
  assumes "\<And>k f. sendFrame (en_send env k ws f) = Some True" "en_hub_error env = None"
  shows "replayed env ws k ms = ms"
  using assms by (induction ms arbitrary: k) auto

lemma pending_iff: "stmtPendingMessages db i = [] \<longleftrightarrow>
   (\<forall>m\<in>set (hb_messages db). ms_to_agent m = i \<longrightarrow> ms_status m \<noteq> MPending)"
proof -
  have "stmtPendingMessages db i = [] \<longleftrightarrow> set (stmtPendingMessages db i) = {}" by simp
  then show ?thesis by (auto simp: stmtPendingMessages_def sql_simps)
qed

lemma deliver_all:
  assumes "\<And>k f. sendFrame (en_send env k ws f) = Some True" "en_hub_error env = None"
  shows "stmtPendingMessages (h_hub (deliverPending env i ws h)) i = []"
    and "h_out (deliverPending env i ws h) = h_out h @ map (\<lambda>m. (ws, replay_frame m)) (stmtPendingMessages (h_hub h) i)"
proof -
  have r: "replayed env ws k ms = ms" for k ms by (rule replayed_all) (use assms in simp_all)
  show "stmtPendingMessages (h_hub (deliverPending env i ws h)) i = []"
    unfolding pending_iff deliverPending_def replay_eq r
    by (auto simp: mark_pending stmtPendingMessages_def sql_simps)
  show "h_out (deliverPending env i ws h) = h_out h @ map (\<lambda>m. (ws, replay_frame m)) (stmtPendingMessages (h_hub h) i)"
    unfolding deliverPending_def replay_eq r by simp
qed

lemma deliver_keeps_none:
  "stmtPendingMessages (h_hub h) j = [] \<Longrightarrow> stmtPendingMessages (h_hub (deliverPending env i ws h)) j = []"
  unfolding pending_iff deliverPending_def replay_eq by (auto simp: mark_pending)

lemma deliver_fold_keeps_none:
  "stmtPendingMessages (h_hub h) j = [] \<Longrightarrow>
   stmtPendingMessages (h_hub (foldl (\<lambda>h pid. deliverPending env pid ws h) h pids)) j = []"
  by (induction pids arbitrary: h) (simp_all add: deliver_keeps_none)

lemma deliver_fold_out:
  "\<exists>rest. h_out (foldl (\<lambda>h pid. deliverPending env pid ws h) h pids) = h_out h @ rest"
proof (induction pids arbitrary: h)
  case (Cons pid pids)
  obtain rest where "h_out (foldl (\<lambda>h pid. deliverPending env pid ws h) (deliverPending env pid ws h) pids) =
      h_out (deliverPending env pid ws h) @ rest" using Cons by blast
  then show ?case by (simp add: deliverPending_def replay_eq)
qed simp

lemma deliver_fold_all:
  assumes "\<And>k f. sendFrame (en_send env k ws f) = Some True" "en_hub_error env = None" "j \<in> set pids"
  shows "stmtPendingMessages (h_hub (foldl (\<lambda>h pid. deliverPending env pid ws h) h pids)) j = []"
  using assms(3)
proof (induction pids arbitrary: h)
  case (Cons pid pids)
  then show ?case
    using deliver_fold_keeps_none deliver_all(1) [OF assms(1,2), of pid h] by (cases "j = pid") auto
qed simp

text \<open>
  C31: A connect on a socket that takes every frame drains the mail that waited. The frames begin with
  every pending message of the identity, oldest first, and afterwards nothing is pending for the
  identity nor for any identity it was granted.
\<close>
theorem connect_drains_waiting_mail:
  assumes "given_string (jget params ''identity'') = Some identity" "stmtAgentExists (h_agents h) identity"
    and "owner (h_presence h) identity = None \<or> owner (h_presence h) identity = Some ws"
    and "\<And>k f. sendFrame (en_send env k ws f) = Some True" "en_hub_error env = None"
  shows "let h' = snd (performConnect env h ws params i)
    in (\<exists>rest. h_out h' = h_out h @ map (\<lambda>m. (ws, replay_frame m)) (stmtPendingMessages (h_hub h) identity) @ rest) \<and>
       sorted (map ms_ts (stmtPendingMessages (h_hub h) identity)) \<and>
       stmtPendingMessages (h_hub h') identity = [] \<and>
       (\<forall>pid\<in>set (granted_proxies (h_agents h') identity params). stmtPendingMessages (h_hub h') pid = [])"
proof -
  let ?s = "connected_state env h ws params identity"
  let ?h1 = "deliverPending env identity ws ?s"
  let ?g = "granted_proxies (h_agents ?s) identity params"
  have s: "h_out ?s = h_out h" "h_hub ?s = h_hub h" by (simp_all add: connected_state_def Let_def)
  obtain rest where "h_out (foldl (\<lambda>h pid. deliverPending env pid ws h) ?h1 ?g) = h_out ?h1 @ rest"
    using deliver_fold_out by blast
  moreover have "sorted (map ms_ts (stmtPendingMessages (h_hub h) identity))"
    by (simp add: stmtPendingMessages_def sorted_order_asc)
  ultimately show ?thesis
    unfolding connect_granted [OF assms(1-3)] snd_conv Let_def deliver_all(2) [OF assms(4,5)] s
    using deliver_fold_keeps_none [OF deliver_all(1) [OF assms(4,5)]] deliver_fold_all [OF assms(4,5)]
    by (auto simp: s)
qed

definition waiting_hub :: hub where
  "waiting_hub = (hub_init 0 120)\<lparr>
     h_agents := (agents_db_init 0)\<lparr>db_agents := [\<lparr>ag_identity = ''kim'', ag_description = None, ag_last_seen = None,
       ag_type = Some ''service'', ag_created_at = Some 0, ag_deleted_at = None, ag_can_proxy = 0, ag_tenant = ''default'',
       ag_last_send_at = None\<rparr>]\<rparr>,
     h_hub := hub_db_init\<lparr>hb_messages := [\<lparr>ms_id = ''m1'', ms_from_agent = ''lee'', ms_to_agent = ''kim'',
       ms_sent_by = Some ''lee'', ms_content = ''hi'', ms_reply_to = None, ms_status = MPending, ms_ts = 1,
       ms_leased_until = None, ms_via = Some Mesh\<rparr>]\<rparr>\<rparr>"

definition plain_connect :: json where
  "plain_connect = JObj [(''identity'', JStr ''kim'')]"

lemma connect_drains_waiting_mail_witness:
  "stmtPendingMessages (h_hub waiting_hub) ''kim'' \<noteq> [] \<and>
   stmtPendingMessages (h_hub (snd (performConnect plain_env waiting_hub 1 plain_connect None))) ''kim'' = []"
proof
  show "stmtPendingMessages (h_hub waiting_hub) ''kim'' \<noteq> []" by code_simp
  have "given_string (jget plain_connect ''identity'') = Some ''kim''" by (simp add: plain_connect_def)
  moreover have "stmtAgentExists (h_agents waiting_hub) ''kim''" by code_simp
  moreover have "owner (h_presence waiting_hub) ''kim'' = None" by code_simp
  moreover have "sendFrame (en_send plain_env k ws f) = Some True" for k ws f by (simp add: plain_env_def)
  moreover have "en_hub_error plain_env = None" by (simp add: plain_env_def)
  ultimately show "stmtPendingMessages (h_hub (snd (performConnect plain_env waiting_hub 1 plain_connect None))) ''kim'' = []"
    using connect_drains_waiting_mail [of plain_connect "''kim''" waiting_hub 1 plain_env None] by (simp add: Let_def)
qed

section \<open>What a connect and a receive can touch\<close>

lemma deliver_audit [simp]: "audit_extends (h_audit h) (h_audit (deliverPending env i ws h))"
  by (simp add: deliverPending_def replay_eq)

lemma mark_pk: "hub_pk (db\<lparr>hb_messages := map (mark ids) (hb_messages db)\<rparr>) = hub_pk db"
  by (simp add: hub_pk_def map_mark_pk)

lemma deliver_pk [simp]: "hub_pk (h_hub (deliverPending env i ws h)) = hub_pk (h_hub h)"
  by (simp add: deliverPending_def replay_eq mark_pk)

lemma deliver_byId:
  "\<exists>ids. stmtMessageById (h_hub (deliverPending env i ws h)) x = map_option (mark ids) (stmtMessageById (h_hub h) x)"
proof -
  have "sql_get (\<lambda>m. ms_id m = x) (map (mark ids) ms) = map_option (mark ids) (sql_get (\<lambda>m. ms_id m = x) ms)" for ids ms
    by (induction ms) auto
  then show ?thesis by (auto simp: deliverPending_def replay_eq stmtMessageById_def)
qed

text \<open>A property of the state that a replay keeps is kept by a connect.\<close>

lemma performConnect_keeps:
  assumes base: "\<And>h'. h_hub h' = h_hub h \<Longrightarrow> h_audit h' = h_audit h \<Longrightarrow> h_reminders h' = h_reminders h \<Longrightarrow>
      h_nonces h' = h_nonces h \<Longrightarrow> (h_presence h' = h_presence h \<or>
        (\<exists>i d. i \<noteq> [] \<and> h_presence h' = presence_step (h_presence h) (PConnect i ws d))) \<Longrightarrow> P h'"
    and step: "\<And>h j. P h \<Longrightarrow> P (deliverPending env j ws h)"
  shows "P (snd (performConnect env h ws params i))"
proof (cases "given_string (jget params ''identity'')")
  case None
  then show ?thesis by (simp add: performConnect_def base)
next
  case S: (Some identity)
  then have ne: "identity \<noteq> []" by simp
  show ?thesis
  proof (cases "stmtAgentExists (h_agents h) identity")
    case False
    then show ?thesis by (simp add: performConnect_def S base ws_close_def)
  next
    case True
    show ?thesis
    proof (cases "owner (h_presence h) identity = None \<or> owner (h_presence h) identity = Some ws")
      case False
      then have o: "owner (h_presence h) identity \<noteq> None" "owner (h_presence h) identity \<noteq> Some ws" by auto
      from connect_refused [OF S True o, of env i] obtain m d where
        e: "performConnect env h ws params i = (Reply (rpcErrorData i DUPLICATE_IDENTITY m d),
          ws_close (h\<lparr>h_agents := recordSource (now_secs env) (h_agents h) identity (en_observed env ws),
            h_presence := presence_step (h_presence h) (PConnect identity ws None)\<rparr>)
          ws 1008 ''duplicate identity owner active'')" by blast
      show ?thesis unfolding e snd_conv
        by (rule base, simp_all add: ws_close_def del: presence_step.simps) (use ne in blast)
    next
      case o: True
      have fold: "P h \<Longrightarrow> P (foldl (\<lambda>h pid. deliverPending env pid ws h) h pids)" for h pids
        by (induction pids arbitrary: h) (simp_all add: step)
      have "P (connected_state env h ws params identity)"
        by (rule base) (use ne in \<open>auto simp: connected_state_def Let_def simp del: presence_step.simps\<close>)
      then show ?thesis unfolding connect_granted [OF S True o] snd_conv by (intro fold step)
    qed
  qed
qed

lemma performConnect_frame [simp]:
  "h_reminders (snd (performConnect env h ws params i)) = h_reminders h"
  "h_nonces (snd (performConnect env h ws params i)) = h_nonces h"
  by (rule performConnect_keeps; simp)+

lemma performConnect_audit [simp]: "audit_extends (h_audit h) (h_audit (snd (performConnect env h ws params i)))"
  by (rule performConnect_keeps) (auto intro: audit_extends_trans)

lemma performConnect_pk: "hub_pk (h_hub h) \<Longrightarrow> hub_pk (h_hub (snd (performConnect env h ws params i)))"
  by (rule performConnect_keeps) simp_all

lemma performConnect_proxies:
  "proxies_ok (h_presence h) \<Longrightarrow> proxies_ok (h_presence (snd (performConnect env h ws params i)))"
  by (rule performConnect_keeps) (auto intro: presence_step_proxies simp del: presence_step.simps)

lemma performConnect_byId:
  "\<exists>ids. stmtMessageById (h_hub (snd (performConnect env h ws params i))) x =
     map_option (mark ids) (stmtMessageById (h_hub h) x)"
proof (rule performConnect_keeps [where P = "\<lambda>h'. \<exists>ids. stmtMessageById (h_hub h') x =
     map_option (mark ids) (stmtMessageById (h_hub h) x)"])
  fix h' :: hub
  assume "h_hub h' = h_hub h"
  moreover have "mark {} = id" by (simp add: mark_def fun_eq_iff)
  ultimately show "\<exists>ids. stmtMessageById (h_hub h') x = map_option (mark ids) (stmtMessageById (h_hub h) x)"
    by (intro exI [of _ "{}"]) (simp add: option.map_id)
next
  fix h' :: hub and j
  assume "\<exists>ids. stmtMessageById (h_hub h') x = map_option (mark ids) (stmtMessageById (h_hub h) x)"
  then obtain ids where "stmtMessageById (h_hub h') x = map_option (mark ids) (stmtMessageById (h_hub h) x)" ..
  moreover obtain ids' where "stmtMessageById (h_hub (deliverPending env j ws h')) x =
      map_option (mark ids') (stmtMessageById (h_hub h') x)" using deliver_byId by blast
  ultimately show "\<exists>ids. stmtMessageById (h_hub (deliverPending env j ws h')) x =
      map_option (mark ids) (stmtMessageById (h_hub h) x)"
    by (intro exI [of _ "ids' \<union> ids"]) (simp add: option.map_comp comp_def mark_mark)
qed

text \<open>A receive is the operation of the mailbox, or nothing.\<close>

lemma handleReceive_cases:
  obtains (same) "snd (handleReceive env h identity params i) = h"
  | (taken) who limit ackIds where "identity = Some who" "who \<noteq> []"
      "snd (handleReceive env h identity params i) =
         (let r = receive (now_secs env) (h_hub h) who limit ackIds (en_lease_seconds env)
          in h\<lparr>h_hub := db_after r, h_audit := foldl (\<lambda>a row. recordDelivered env row a) (h_audit h) (settled_of r)\<rparr>)"
proof (cases "identity = None \<or> identity = Some []")
  case True
  then show thesis by (intro same) (auto simp: handleReceive_def)
next
  case False
  then obtain who where "identity = Some who" "who \<noteq> []" by (cases identity) auto
  let ?r = "receive (now_secs env) (h_hub h) who (page_limit (jget params ''limit'') DEFAULT_LIMIT
      (int (ct_max_receive_batch (en_contracts env)))) (string_elems (coalesce (as_array (jget params ''ack_ids'')) []))
      (en_lease_seconds env)"
  have "snd (handleReceive env h identity params i) \<in> {h,
      h\<lparr>h_hub := db_after ?r, h_audit := foldl (\<lambda>a row. recordDelivered env row a) (h_audit h) (settled_of ?r)\<rparr>}"
    by (simp add: handleReceive_def \<open>identity = Some who\<close> \<open>who \<noteq> []\<close> Let_def case_prod_beta)
  then show thesis
    using same taken [OF \<open>identity = Some who\<close> \<open>who \<noteq> []\<close>] unfolding Let_def by blast
qed

lemma handleReceive_frame [simp]:
  "h_agents (snd (handleReceive env h identity params i)) = h_agents h"
  "h_reminders (snd (handleReceive env h identity params i)) = h_reminders h"
  "h_presence (snd (handleReceive env h identity params i)) = h_presence h"
  "h_nonces (snd (handleReceive env h identity params i)) = h_nonces h"
  "audit_extends (h_audit h) (h_audit (snd (handleReceive env h identity params i)))"
  by (cases rule: handleReceive_cases [of env h identity params i]; simp add: Let_def)+

lemma handleReceive_pk: "hub_pk (h_hub h) \<Longrightarrow> hub_pk (h_hub (snd (handleReceive env h identity params i)))"
  by (cases rule: handleReceive_cases [of env h identity params i]) (simp_all add: Let_def receive_pk)

end
