(* ===== verification/Hub_Reminders.thy ===== *)
theory Hub_Reminders
  imports Hub_Audit
begin

text \<open>
  The reminder requests: \<open>packages/hub/src/rpc/reminders.ts\<close> over the tables of
  \<open>packages/store/src/schema/self-reminder.ts\<close>.

  A stored time is a number of seconds; the texts of years 0 to 9999 compare as those numbers do. An
  insert reports the constraint that refused it. \<open>Number(x)\<close> is \<open>js_Number\<close>, with \<open>None\<close> for \<open>NaN\<close>, and
  SQLite refuses a \<open>LIMIT\<close> that is no integer.

  The lemmas: the two unique keys survive every request, no request touches or shows a row of another
  identity, and the answers say what was stored.
\<close>

section \<open>\<open>Number(x)\<close>\<close>

text \<open>Hexadecimal, octal and binary literals of a string are not modelled; they give \<open>NaN\<close> here.\<close>

definition numeral_parts :: "string \<Rightarrow> (string \<times> string \<times> int) option" where
  "numeral_parts s =
     (let ip = takeWhile is_digit s; r1 = dropWhile is_digit s;
          dot = (r1 \<noteq> [] \<and> hd r1 = CHR ''.'');
          fp = (if dot then takeWhile is_digit (tl r1) else []);
          r2 = (if dot then dropWhile is_digit (tl r1) else r1)
      in if ip = [] \<and> fp = [] then None
         else (case r2 of
                 [] \<Rightarrow> Some (ip, fp, 0)
               | e # r3 \<Rightarrow>
                   if e = CHR ''e'' \<or> e = CHR ''E'' then
                     (let neg = (r3 \<noteq> [] \<and> hd r3 = CHR ''-'');
                          ds = (if r3 \<noteq> [] \<and> hd r3 \<in> {CHR ''-'', CHR ''+''} then tl r3 else r3)
                      in if ds = [] \<or> \<not> list_all is_digit ds then None
                         else Some (ip, fp, if neg then - digits_value 0 ds else digits_value 0 ds))
                   else None))"

definition numeral_of :: "bool \<Rightarrow> string \<Rightarrow> json option" where
  "numeral_of neg s =
     (if s = ''Infinity'' then Some (JReal (if neg then ''-Infinity'' else s))
      else map_option (number_value neg) (numeral_parts s))"

definition string_Number :: "string \<Rightarrow> json option" where
  "string_Number s =
     (case trim s of
        [] \<Rightarrow> Some (JInt 0)
      | c # r \<Rightarrow> if c = CHR ''-'' then numeral_of True r
                  else if c = CHR ''+'' then numeral_of False r else numeral_of False (c # r))"

fun js_Number :: "json \<Rightarrow> json option" where
  "js_Number JNull = Some (JInt 0)"
| "js_Number (JBool b) = Some (JInt (if b then 1 else 0))"
| "js_Number (JInt i) = Some (JInt i)"
| "js_Number (JReal s) = Some (JReal s)"
| "js_Number (JStr s) = string_Number s"
| "js_Number (JArr xs) = string_Number (js_String (JArr xs))"
| "js_Number (JObj ms) = None"

text \<open>The whole part of a number that is no integer, and its sign.\<close>

definition whole_part :: "string \<Rightarrow> int option" where
  "whole_part s = (if occurs_in ''e-'' s then Some 0 else parse_digits (takeWhile (\<lambda>c. c \<noteq> CHR ''.'') s))"

text \<open>
  \<open>Math.min(Math.max(x, 1), 200)\<close> as the value of \<open>LIMIT\<close>; \<open>None\<close> is the mismatch error.
\<close>

definition clamped_limit :: "json option \<Rightarrow> nat option" where
  "clamped_limit x =
     (case x of
        Some (JInt i) \<Rightarrow> Some (nat (min (max i 1) 200))
      | Some (JReal s) \<Rightarrow>
          if take 1 s = ''-'' then Some 1
          else if s = ''Infinity'' then Some 200
          else (case whole_part s of
                  None \<Rightarrow> None
                | Some n \<Rightarrow> if n < 1 then Some 1 else if n \<ge> 200 then Some 200 else None)
      | _ \<Rightarrow> None)"

section \<open>The requests\<close>

fun reminder_status_text :: "reminder_status \<Rightarrow> string" where
  "reminder_status_text RActive = ''active''"
| "reminder_status_text RFiring = ''firing''"
| "reminder_status_text RPaused = ''paused''"
| "reminder_status_text RFired = ''fired''"
| "reminder_status_text RCancelled = ''cancelled''"
| "reminder_status_text RExhausted = ''exhausted''"
| "reminder_status_text RDead = ''dead''"

text \<open>The insert, with the text of the constraint that refuses it.\<close>

definition stmtInsertReminder :: "reminder_db \<Rightarrow> reminder_row \<Rightarrow> string + reminder_db" where
  "stmtInsertReminder db row =
     (if re_type row \<notin> {''once'', ''cron'', ''interval''} then
        Inl ''CHECK constraint failed: type IN (once, cron, interval)''
      else if sql_exists (\<lambda>r. re_id r = re_id row) (rm_reminders db) then
        Inl ''UNIQUE constraint failed: reminders.id''
      else if keyed_active row \<and> sql_exists (\<lambda>r. keyed_active r \<and> re_agent_id r = re_agent_id row \<and>
                re_idempotency_key r = re_idempotency_key row) (rm_reminders db) then
        Inl ''UNIQUE constraint failed: reminders.agent_id, reminders.idempotency_key''
      else Inr (db\<lparr>rm_reminders := rm_reminders db @ [row]\<rparr>))"

text \<open>The parameters of the insert; \<open>None\<close> where one cannot be bound or a required column is null.\<close>

definition bound_reminder :: "env \<Rightarrow> string \<Rightarrow> json \<Rightarrow> millis \<Rightarrow> reminder_row option" where
  "bound_reminder env agent params fireAt =
     (case (sql_bind (jget params ''id''), sql_bind (jget params ''type''), sql_bind (jget params ''schedule_spec''),
            sql_bind (jget params ''payload''), sql_bind (jget params ''context''),
            sql_bind (jget params ''idempotency_key'')) of
        (Some (Some i), Some (Some ty), Some (Some spec), Some (Some payload), Some context, Some key) \<Rightarrow>
          Some \<lparr>re_id = i, re_agent_id = agent, re_type = ty, re_schedule_spec = spec, re_payload = payload,
                re_context = context, re_idempotency_key = key, re_status = RActive,
                re_next_fire_at = Some (fireAt div 1000), re_fire_count = 0, re_last_fired_at = None,
                re_created_at = now_secs env, re_updated_at = now_secs env, re_created_by = agent\<rparr>
      | _ \<Rightarrow> None)"

definition schedule_insert :: "env \<Rightarrow> reminder_db \<Rightarrow> string \<Rightarrow> json \<Rightarrow> millis \<Rightarrow> string + reminder_db" where
  "schedule_insert env db agent params fireAt =
     (case en_reminder_error env of
        Some e \<Rightarrow> Inl e
      | None \<Rightarrow>
          (case bound_reminder env agent params fireAt of
             None \<Rightarrow> Inl ''Binding expected string, TypedArray, boolean, number, bigint or null''
           | Some row \<Rightarrow> stmtInsertReminder db row))"

definition member :: "string \<Rightarrow> json option \<Rightarrow> (string \<times> json) list" where
  "member k x = (case x of None \<Rightarrow> [] | Some v \<Rightarrow> [(k, v)])"

definition handleScheduleReminder :: "env \<Rightarrow> hub \<Rightarrow> socket \<Rightarrow> json \<Rightarrow> json option \<Rightarrow> reply \<times> hub" where
  "handleScheduleReminder env h ws params i =
     (case identity_of (h_presence h) ws of
        None \<Rightarrow> (Reply (rpcError i INVALID_REQUEST ''not registered''), h)
      | Some agent \<Rightarrow>
          if \<not> (truthy (jget params ''id'') \<and> truthy (jget params ''type'') \<and> truthy (jget params ''schedule_spec'') \<and>
                truthy (jget params ''payload'') \<and> truthy (jget params ''next_fire_at'')) then
            (Reply (rpcError i INVALID_PARAMS ''missing required: id/type/schedule_spec/payload/next_fire_at''), h)
          else
            (case ct_scheduleError (en_contracts env) (js_String (the (jget params ''type'')))
                    (js_String (the (jget params ''schedule_spec''))) of
               Some reason \<Rightarrow> (Reply (rpcError i INVALID_PARAMS (''schedule_spec: '' @ reason)), h)
             | None \<Rightarrow>
                 (case en_date env (js_String (the (jget params ''next_fire_at''))) of
                    None \<Rightarrow> (Reply (rpcError i INVALID_PARAMS ''next_fire_at: not a timestamp''), h)
                  | Some fireAt \<Rightarrow>
                      (case schedule_insert env (h_reminders h) agent params fireAt of
                         Inl msg \<Rightarrow>
                           (if occurs_in ''UNIQUE'' msg \<or> occurs_in ''idx_reminders_idem_active'' msg then
                              Reply (rpcResult i (JObj ([(''ok'', JBool False), (''error'', JStr ''dedup'')] @
                                member ''idempotency_key'' (jget params ''idempotency_key''))))
                            else Reply (rpcError i SERVER_ERROR (''db error: '' @ msg)), h)
                       | Inr db \<Rightarrow>
                           (Reply (rpcResult i (JObj [(''ok'', JBool True), (''id'', the (jget params ''id'')),
                              (''type'', the (jget params ''type'')), (''next_fire_at'', the (jget params ''next_fire_at''))])),
                            h\<lparr>h_reminders := db\<rparr>)))))"

definition cancellable :: "string \<Rightarrow> string \<Rightarrow> reminder_row \<Rightarrow> bool" where
  "cancellable remId agent r \<longleftrightarrow> re_id r = remId \<and> re_agent_id r = agent \<and> re_status r \<in> {RActive, RPaused}"

definition stmtCancelReminder :: "secs \<Rightarrow> reminder_db \<Rightarrow> string \<Rightarrow> string \<Rightarrow> nat \<times> reminder_db" where
  "stmtCancelReminder t db remId agent =
     (sql_changes (cancellable remId agent) (rm_reminders db),
      db\<lparr>rm_reminders := sql_update (cancellable remId agent)
           (\<lambda>r. r\<lparr>re_status := RCancelled, re_updated_at := t\<rparr>) (rm_reminders db)\<rparr>)"

definition handleCancelReminder :: "env \<Rightarrow> hub \<Rightarrow> socket \<Rightarrow> json \<Rightarrow> json option \<Rightarrow> reply \<times> hub" where
  "handleCancelReminder env h ws params i =
     (case identity_of (h_presence h) ws of
        None \<Rightarrow> (Reply (rpcError i INVALID_REQUEST ''not registered''), h)
      | Some agent \<Rightarrow>
          if \<not> truthy (jget params ''id'') then (Reply (rpcError i INVALID_PARAMS ''id required''), h)
          else (case sql_bind (jget params ''id'') of
                  Some (Some remId) \<Rightarrow>
                    (case en_reminder_error env of
                       Some e \<Rightarrow> (Thrown e, h)
                     | None \<Rightarrow>
                         (let (changes, db) = stmtCancelReminder (now_secs env) (h_reminders h) remId agent
                          in (Reply (rpcResult i (JObj [(''changes'', JInt (int changes))])), h\<lparr>h_reminders := db\<rparr>)))
                | _ \<Rightarrow> (Thrown ''Binding expected string, TypedArray, boolean, number, bigint or null'', h)))"

definition reminder_time :: "reminder_row \<Rightarrow> secs" where
  "reminder_time r =
     (case re_next_fire_at r of
        Some t \<Rightarrow> t
      | None \<Rightarrow> (case re_last_fired_at r of Some t \<Rightarrow> t | None \<Rightarrow> re_created_at r))"

definition listed_reminders :: "reminder_db \<Rightarrow> string \<Rightarrow> string \<Rightarrow> nat \<Rightarrow> reminder_row list" where
  "listed_reminders db agent status limit =
     take limit (order_desc reminder_time (sql_where
       (\<lambda>r. re_agent_id r = agent \<and> (status = ''all'' \<or> reminder_status_text (re_status r) = status))
       (rm_reminders db)))"

definition hold_key :: "string \<Rightarrow> secs \<Rightarrow> string" where
  "hold_key remId t = ''overdue_hold:'' @ remId @ '':'' @ sql_time t"

definition heldSince :: "reminder_db \<Rightarrow> reminder_row \<Rightarrow> string option" where
  "heldSince db r =
     (case re_next_fire_at r of None \<Rightarrow> None | Some t \<Rightarrow> map_of (rm_health db) (hold_key (re_id r) t))"

definition time_json :: "secs option \<Rightarrow> json" where
  "time_json t = (case t of None \<Rightarrow> JNull | Some s \<Rightarrow> JStr (sql_time s))"

definition reminder_json :: "reminder_db \<Rightarrow> reminder_row \<Rightarrow> json" where
  "reminder_json db r =
     JObj ([(''id'', JStr (re_id r)), (''type'', JStr (re_type r)), (''status'', JStr (reminder_status_text (re_status r))),
            (''schedule_spec'', JStr (re_schedule_spec r)), (''payload'', JStr (re_payload r)),
            (''context'', nullable (re_context r)), (''next_fire_at'', time_json (re_next_fire_at r)),
            (''fire_count'', JInt (int (re_fire_count r))), (''last_fired_at'', time_json (re_last_fired_at r)),
            (''idempotency_key'', nullable (re_idempotency_key r)), (''created_at'', JStr (sql_time (re_created_at r)))] @
           (case heldSince db r of None \<Rightarrow> [] | Some since \<Rightarrow> [(''held_since'', JStr since)]))"

definition handleListReminders :: "hub \<Rightarrow> socket \<Rightarrow> json \<Rightarrow> json option \<Rightarrow> reply" where
  "handleListReminders h ws params i =
     (case identity_of (h_presence h) ws of
        None \<Rightarrow> Reply (rpcError i INVALID_REQUEST ''not registered'')
      | Some agent \<Rightarrow>
          (case as_string (Some (or_else (jget params ''status'') (JStr ''active''))) of
             None \<Rightarrow> Thrown ''params.status.toLowerCase is not a function''
           | Some status \<Rightarrow>
               (case clamped_limit (js_Number (or_else (jget params ''limit'') (JInt 50))) of
                  None \<Rightarrow> Thrown ''datatype mismatch''
                | Some limit \<Rightarrow>
                    Reply (rpcResult i (JObj [(''rows'', JArr (map (reminder_json (h_reminders h))
                      (listed_reminders (h_reminders h) agent (toLowerCase status) limit)))])))))"

section \<open>What the requests do to the store\<close>

lemma stmtInsertReminder_Inr:
  "stmtInsertReminder db row = Inr db' \<Longrightarrow> db' = db\<lparr>rm_reminders := rm_reminders db @ [row]\<rparr>"
  by (simp add: stmtInsertReminder_def split: if_splits)

lemma stmtInsertReminder_pk:
  assumes "reminder_pk db" "stmtInsertReminder db row = Inr db'"
  shows "reminder_pk db'"
proof -
  from assms(2) have "re_id row \<notin> re_id ` set (rm_reminders db)"
    "keyed_active row \<Longrightarrow> r \<in> set (rm_reminders db) \<Longrightarrow> keyed_active r \<Longrightarrow>
       (re_agent_id r, re_idempotency_key r) \<noteq> (re_agent_id row, re_idempotency_key row)"
    "db' = db\<lparr>rm_reminders := rm_reminders db @ [row]\<rparr>" for r
    by (auto simp: stmtInsertReminder_def sql_simps image_iff split: if_splits)
  with assms(1) show ?thesis by (auto simp: reminder_pk_def sql_simps)
qed

lemma cancel_pk: "reminder_pk db \<Longrightarrow> reminder_pk (snd (stmtCancelReminder t db remId agent))"
  unfolding reminder_pk_def stmtCancelReminder_def
  by (auto simp: sql_unique_update keyed_active_def intro!: sql_unique_where_update)

text \<open>A schedule either leaves the store alone, or appends one active row of the caller.\<close>

lemma schedule_cases:
  obtains (same) "snd (handleScheduleReminder env h ws params i) = h"
  | (stored) agent row db where "identity_of (h_presence h) ws = Some agent" "re_agent_id row = agent"
      "re_status row = RActive" "stmtInsertReminder (h_reminders h) row = Inr db"
      "snd (handleScheduleReminder env h ws params i) = h\<lparr>h_reminders := db\<rparr>"
proof (cases "identity_of (h_presence h) ws")
  case None
  then show thesis by (intro same) (simp add: handleScheduleReminder_def)
next
  case (Some agent)
  note agent = Some
  show thesis
  proof (cases "en_date env (js_String (the (jget params ''next_fire_at'')))")
    case None
    with agent show thesis by (intro same) (simp add: handleScheduleReminder_def split: option.split)
  next
    case date: (Some fireAt)
    show thesis
    proof (cases "schedule_insert env (h_reminders h) agent params fireAt")
      case (Inl msg)
      with agent date show thesis by (intro same) (simp add: handleScheduleReminder_def split: option.split)
    next
      case (Inr db)
      then obtain row where row: "bound_reminder env agent params fireAt = Some row"
          "stmtInsertReminder (h_reminders h) row = Inr db"
        by (auto simp: schedule_insert_def split: option.splits)
      from row(1) have "re_agent_id row = agent" "re_status row = RActive"
        by (auto simp: bound_reminder_def split: option.splits)
      moreover from agent date Inr have "snd (handleScheduleReminder env h ws params i) \<in> {h, h\<lparr>h_reminders := db\<rparr>}"
        by (simp add: handleScheduleReminder_def split: option.split)
      ultimately show thesis using agent row(2) same stored by blast
    qed
  qed
qed

lemma cancel_cases:
  obtains (same) "snd (handleCancelReminder env h ws params i) = h"
  | (cancelled) agent remId where "identity_of (h_presence h) ws = Some agent"
      "snd (handleCancelReminder env h ws params i) =
         h\<lparr>h_reminders := snd (stmtCancelReminder (now_secs env) (h_reminders h) remId agent)\<rparr>"
proof (cases "identity_of (h_presence h) ws")
  case None
  then show thesis by (intro same) (simp add: handleCancelReminder_def)
next
  case (Some agent)
  then have "snd (handleCancelReminder env h ws params i) \<in>
      {h, h\<lparr>h_reminders := snd (stmtCancelReminder (now_secs env) (h_reminders h)
         (the (the (sql_bind (jget params ''id'')))) agent)\<rparr>}"
    by (simp add: handleCancelReminder_def case_prod_beta split: option.split)
  with Some same cancelled show thesis by blast
qed

text \<open>The reminders of everybody but the identity of a socket.\<close>

definition others_reminders :: "hub \<Rightarrow> socket \<Rightarrow> hub \<Rightarrow> reminder_row list" where
  "others_reminders h ws h' =
     sql_where (\<lambda>r. identity_of (h_presence h) ws \<noteq> Some (re_agent_id r)) (rm_reminders (h_reminders h'))"

lemma sql_where_update_other:
  "(\<And>r. r \<in> set t \<Longrightarrow> Q r \<Longrightarrow> \<not> P r \<and> \<not> P (f r)) \<Longrightarrow> sql_where P (sql_update Q f t) = sql_where P t"
  by (induction t) (auto simp: sql_where_def sql_update_def)

text \<open>
  Reminders are private to their owner. No schedule and no cancel changes a reminder of an identity
  other than the caller's, and a listing that answers with rows answers with rows of the caller only.
\<close>
theorem reminders_are_owner_scoped:
  "others_reminders h ws (snd (handleScheduleReminder env h ws params i)) = others_reminders h ws h \<and>
   others_reminders h ws (snd (handleCancelReminder env h ws params i)) = others_reminders h ws h \<and>
   (\<exists>rows. set rows \<subseteq> {r \<in> set (rm_reminders (h_reminders h)). identity_of (h_presence h) ws = Some (re_agent_id r)} \<and>
      handleListReminders h ws params i \<in>
        {Reply (rpcError i INVALID_REQUEST ''not registered''), Thrown ''params.status.toLowerCase is not a function'',
         Thrown ''datatype mismatch'',
         Reply (rpcResult i (JObj [(''rows'', JArr (map (reminder_json (h_reminders h)) rows))]))})"
proof (intro conjI)
  show "others_reminders h ws (snd (handleScheduleReminder env h ws params i)) = others_reminders h ws h"
  proof (cases rule: schedule_cases [of env h ws params i])
    case (stored agent row db)
    then show ?thesis
      by (auto simp: others_reminders_def sql_where_def dest: stmtInsertReminder_Inr)
  qed simp
  show "others_reminders h ws (snd (handleCancelReminder env h ws params i)) = others_reminders h ws h"
  proof (cases rule: cancel_cases [of env h ws params i])
    case (cancelled agent remId)
    then show ?thesis
      by (auto simp: others_reminders_def stmtCancelReminder_def cancellable_def intro!: sql_where_update_other)
  qed simp
  show "\<exists>rows. set rows \<subseteq> {r \<in> set (rm_reminders (h_reminders h)). identity_of (h_presence h) ws = Some (re_agent_id r)} \<and>
      handleListReminders h ws params i \<in>
        {Reply (rpcError i INVALID_REQUEST ''not registered''), Thrown ''params.status.toLowerCase is not a function'',
         Thrown ''datatype mismatch'',
         Reply (rpcResult i (JObj [(''rows'', JArr (map (reminder_json (h_reminders h)) rows))]))}"
  proof (cases "identity_of (h_presence h) ws")
    case None
    then show ?thesis by (intro exI [of _ "[]"]) (simp add: handleListReminders_def)
  next
    case (Some agent)
    let ?rows = "listed_reminders (h_reminders h) agent
        (toLowerCase (the (as_string (Some (or_else (jget params ''status'') (JStr ''active''))))))
        (the (clamped_limit (js_Number (or_else (jget params ''limit'') (JInt 50)))))"
    have "set ?rows \<subseteq> {r \<in> set (rm_reminders (h_reminders h)). re_agent_id r = agent}"
      by (auto simp: listed_reminders_def sql_simps dest!: in_set_takeD)
    with Some show ?thesis
      by (intro exI [of _ ?rows]) (auto simp: handleListReminders_def split: option.split)
  qed
qed

text \<open>
  A key of a caller names at most one active reminder, and the answer says what was stored. The
  primary key and the partial unique key survive both requests. A well-formed schedule is answered
  \<open>ok\<close> exactly when no stored reminder has its id and no active one of the caller has its key; then it
  is the one new row, active and due at the given time, and otherwise nothing is stored.
\<close>
theorem schedule_stores_or_reports_duplicate:
  assumes pk: "reminder_pk (h_reminders h)"
    and caller: "identity_of (h_presence h) ws = Some agent"
    and fields: "params = JObj [(''id'', JStr x), (''type'', JStr ty), (''schedule_spec'', JStr spec), (''payload'', JStr body),
       (''idempotency_key'', JStr k), (''next_fire_at'', JStr due)]"
      "[] \<notin> {x, ty, spec, body, due}" "ty \<in> {''once'', ''cron'', ''interval''}"
    and valid: "ct_scheduleError (en_contracts env) ty spec = None" "en_date env due = Some ms" "en_reminder_error env = None"
  shows "let (r, h') = handleScheduleReminder env h ws params i;
      rows = rm_reminders (h_reminders h); rows' = rm_reminders (h_reminders h')
    in reminder_pk (h_reminders h') \<and>
       (if sql_exists (\<lambda>y. re_id y = x) rows \<or>
           sql_exists (\<lambda>y. re_status y = RActive \<and> re_agent_id y = agent \<and> re_idempotency_key y = Some k) rows
        then rows' = rows \<and> r = Reply (rpcResult i (JObj [(''ok'', JBool False), (''error'', JStr ''dedup''),
                 (''idempotency_key'', JStr k)]))
        else r = Reply (rpcResult i (JObj [(''ok'', JBool True), (''id'', JStr x), (''type'', JStr ty),
                 (''next_fire_at'', JStr due)])) \<and>
             (\<exists>row. rows' = rows @ [row] \<and> re_id row = x \<and> re_agent_id row = agent \<and> re_status row = RActive \<and>
                re_next_fire_at row = Some (ms div 1000) \<and> re_payload row = body))"
proof -
  let ?row = "\<lparr>re_id = x, re_agent_id = agent, re_type = ty, re_schedule_spec = spec, re_payload = body,
      re_context = None, re_idempotency_key = Some k, re_status = RActive, re_next_fire_at = Some (ms div 1000),
      re_fire_count = 0, re_last_fired_at = None, re_created_at = now_secs env, re_updated_at = now_secs env,
      re_created_by = agent\<rparr>"
  have g: "jget params ''id'' = Some (JStr x)" "jget params ''type'' = Some (JStr ty)"
    "jget params ''schedule_spec'' = Some (JStr spec)" "jget params ''payload'' = Some (JStr body)"
    "jget params ''context'' = None" "jget params ''idempotency_key'' = Some (JStr k)"
    "jget params ''next_fire_at'' = Some (JStr due)"
    by (simp_all add: fields(1))
  have "bound_reminder env agent params ms = Some ?row" by (simp add: bound_reminder_def g)
  then have ins: "schedule_insert env (h_reminders h) agent params ms = stmtInsertReminder (h_reminders h) ?row"
    by (simp add: schedule_insert_def valid)
  have ne: "x \<noteq> []" "ty \<noteq> []" "spec \<noteq> []" "body \<noteq> []" "due \<noteq> []" using fields(2) by auto
  have U: "occurs_in ''UNIQUE'' ''UNIQUE constraint failed: reminders.id''"
    "occurs_in ''UNIQUE'' ''UNIQUE constraint failed: reminders.agent_id, reminders.idempotency_key''" by code_simp+
  have H: "handleScheduleReminder env h ws params i =
     (case stmtInsertReminder (h_reminders h) ?row of
        Inl msg \<Rightarrow>
          (if occurs_in ''UNIQUE'' msg \<or> occurs_in ''idx_reminders_idem_active'' msg then
             Reply (rpcResult i (JObj ([(''ok'', JBool False), (''error'', JStr ''dedup'')] @ [(''idempotency_key'', JStr k)])))
           else Reply (rpcError i SERVER_ERROR (''db error: '' @ msg)), h)
      | Inr db \<Rightarrow>
          (Reply (rpcResult i (JObj [(''ok'', JBool True), (''id'', JStr x), (''type'', JStr ty), (''next_fire_at'', JStr due)])),
           h\<lparr>h_reminders := db\<rparr>))"
    using ne by (cases "stmtInsertReminder (h_reminders h) ?row")
      (simp_all add: handleScheduleReminder_def caller g valid ins member_def)
  show ?thesis
  proof (cases "stmtInsertReminder (h_reminders h) ?row")
    case (Inl msg)
    then show ?thesis using pk U fields(3) unfolding H
      by (auto simp: stmtInsertReminder_def keyed_active_def sql_simps split: if_splits)
  next
    case (Inr db)
    from stmtInsertReminder_pk [OF pk Inr] stmtInsertReminder_Inr [OF Inr] show ?thesis
      using Inr fields(3) unfolding H
      by (auto simp: stmtInsertReminder_def keyed_active_def sql_simps split: if_splits)
  qed
qed

lemma schedule_stores_or_reports_duplicate_witness:
  "let params = JObj [(''id'', JStr ''r1''), (''type'', JStr ''once''), (''schedule_spec'', JStr ''-''), (''payload'', JStr ''p''),
       (''idempotency_key'', JStr ''k''), (''next_fire_at'', JStr ''t'')]
   in map re_next_fire_at (rm_reminders (h_reminders (snd (handleScheduleReminder plain_env (connected_hub ''kim'') 1
        params None)))) = [Some 2000]"
proof -
  let ?h = "connected_hub ''kim''"
  have "h_reminders ?h = reminder_db_init" by (simp add: connected_hub_def hub_init_def)
  moreover have "reminder_pk reminder_db_init" by (simp add: reminder_pk_def reminder_db_init_def sql_unique_where_def)
  moreover have "identity_of (h_presence ?h) 1 = Some ''kim''" by (simp add: connected_hub_def identity_of_def)
  moreover have "ct_scheduleError (en_contracts plain_env) ''once'' ''-'' = None" "en_date plain_env ''t'' = Some 2000000"
    "en_reminder_error plain_env = None"
    by (simp_all add: plain_env_def plain_contracts_def)
  ultimately show ?thesis
    using schedule_stores_or_reports_duplicate [of ?h 1 "''kim''" _ "''r1''" "''once''" "''-''" "''p''" "''k''" "''t''"
        plain_env 2000000 None]
    by (auto simp: Let_def case_prod_beta reminder_db_init_def sql_exists_def)
qed

section \<open>What the requests can touch\<close>

lemma schedule_frame [simp]:
  "h_agents (snd (handleScheduleReminder env h ws params i)) = h_agents h"
  "h_hub (snd (handleScheduleReminder env h ws params i)) = h_hub h"
  "h_audit (snd (handleScheduleReminder env h ws params i)) = h_audit h"
  "h_presence (snd (handleScheduleReminder env h ws params i)) = h_presence h"
  "h_nonces (snd (handleScheduleReminder env h ws params i)) = h_nonces h"
  by (cases rule: schedule_cases [of env h ws params i]; simp)+

lemma cancel_frame [simp]:
  "h_agents (snd (handleCancelReminder env h ws params i)) = h_agents h"
  "h_hub (snd (handleCancelReminder env h ws params i)) = h_hub h"
  "h_audit (snd (handleCancelReminder env h ws params i)) = h_audit h"
  "h_presence (snd (handleCancelReminder env h ws params i)) = h_presence h"
  "h_nonces (snd (handleCancelReminder env h ws params i)) = h_nonces h"
  by (cases rule: cancel_cases [of env h ws params i]; simp)+

lemma schedule_pk: "reminder_pk (h_reminders h) \<Longrightarrow> reminder_pk (h_reminders (snd (handleScheduleReminder env h ws params i)))"
  by (cases rule: schedule_cases [of env h ws params i]) (auto intro: stmtInsertReminder_pk)

lemma cancel_handler_pk:
  "reminder_pk (h_reminders h) \<Longrightarrow> reminder_pk (h_reminders (snd (handleCancelReminder env h ws params i)))"
  by (cases rule: cancel_cases [of env h ws params i]) (auto intro: cancel_pk)

end
