(* ===== verification/Hub_Dispatch.thy ===== *)
theory Hub_Dispatch
  imports Hub_Send Hub_Connect Hub_Reminders
begin

text \<open>
  From a frame to a handler: \<open>packages/hub/src/rpc/dispatch.ts\<close>, and the message handler of
  \<open>packages/hub/src/main.ts\<close> around it.

  A request is the value that \<open>JSON.parse\<close> gives for the received text; reading a member of \<open>null\<close>
  throws. The caller of the HTTP transport is a socket of its own, in the maps for one call.

  The lemmas: which part of the state each method can touch; no request of an identity that must sign
  touches a store without its key's signature; the audit trail only grows; a caller over HTTP is never
  online; and what a refused connect does to the socket it came from.
\<close>

section \<open>Methods\<close>

definition handle_method ::
  "env \<Rightarrow> hub \<Rightarrow> socket \<Rightarrow> string \<Rightarrow> json \<Rightarrow> json option \<Rightarrow> string \<Rightarrow> json option \<Rightarrow> reply \<times> hub" where
  "handle_method env h ws method params i raw sig =
     (if method = ''mesh.connect'' then handleConnect env h ws params i
      else if method = ''mesh.register'' then handleRegister env h ws params i
      else if method = ''mesh.send'' then handleSend env h ws params i (Some raw) sig Mesh
      else if method = ''mesh.list_agents'' then (handleListAgents h i, h)
      else if method = ''mesh.fetch_messages'' then (handleFetchMessages h ws params i, h)
      else if method = ''mesh.schedule_reminder'' then handleScheduleReminder env h ws params i
      else if method = ''mesh.cancel_reminder'' then handleCancelReminder env h ws params i
      else if method = ''mesh.list_reminders'' then (handleListReminders h ws params i, h)
      else if method = ''mesh.receive'' then handleReceive env h (ps_wsIdentities (h_presence h) ws) params i
      else if method = ''mesh.audit.prepare_blobs'' then handlePrepareBlobs env h ws params i
      else if method = ''mesh.audit.append'' then
        (case handleAuditAppend env h ws params i raw sig of (f, h') \<Rightarrow> (Reply f, h'))
      else (Reply (rpcError i METHOD_NOT_FOUND (''Method not found: '' @ method)), h))"

text \<open>The identity that a request speaks as, where there is one.\<close>

definition speakingAs :: "hub \<Rightarrow> socket \<Rightarrow> string \<Rightarrow> json \<Rightarrow> string option" where
  "speakingAs h ws method params =
     (if method = ''mesh.connect'' \<or> method = ''mesh.register'' then given_string (jget params ''identity'')
      else identity_of (h_presence h) ws)"

text \<open>What \<open>dispatch\<close> returns: a frame, nothing, or a throw.\<close>

datatype dispatch_result = Answer json | Silent | Failed string

fun of_reply :: "reply \<Rightarrow> dispatch_result" where
  "of_reply (Reply f) = Answer f"
| "of_reply (Thrown e) = Failed e"

definition NULL_REQUEST :: string where
  "NULL_REQUEST = ''null is not an object (evaluating req.method)''"

definition dispatch :: "env \<Rightarrow> hub \<Rightarrow> socket \<Rightarrow> string \<Rightarrow> dispatch_result \<times> hub" where
  "dispatch env h ws text =
     (case json_parse text of
        None \<Rightarrow> (Answer (rpcError None PARSE_ERROR ''Parse error''), h)
      | Some req \<Rightarrow>
          if req = JNull then (Failed NULL_REQUEST, h)
          else (case given_string (jget req ''method'') of
                  None \<Rightarrow> (Answer (rpcError (jget req ''id'') INVALID_REQUEST ''Invalid request: missing method''), h)
                | Some method \<Rightarrow>
                    (let params = or_else (jget req ''params'') (JObj []); i = jget req ''id'';
                         sig = jget req ''sig'';
                         handle = (\<lambda>h. case handle_method env h ws method params i text sig of
                                         (r, h') \<Rightarrow> (of_reply r, h'))
                     in case speakingAs h ws method params of
                          None \<Rightarrow> handle h
                        | Some identity \<Rightarrow>
                            (case verifyRequest env h identity method sig text of
                               (SigOk _, h1) \<Rightarrow> handle h1
                             | (SigRefused c m r d, h1) \<Rightarrow>
                                 if c = KEY_NOT_APPROVED then
                                   (let h2 = snd (ws_send env h1 ws (rpcErrorData i c m d));
                                        h3 = h2\<lparr>h_presence := dropConnection (h_presence h2) ws identity\<rparr>
                                    in (Silent, ws_close h3 ws 1008 ''key not approved''))
                                 else (Answer (rpcErrorData i c m d), h1)))))"

section \<open>The message handler\<close>

text \<open>\<open>requestId\<close>: the id of a frame, where it is a string or a number.\<close>

definition requestId :: "string \<Rightarrow> json option" where
  "requestId text =
     (case json_parse text of
        None \<Rightarrow> None
      | Some v \<Rightarrow> (case jget v ''id'' of
                    Some (JStr s) \<Rightarrow> Some (JStr s)
                  | Some (JInt n) \<Rightarrow> Some (JInt n)
                  | Some (JReal r) \<Rightarrow> Some (JReal r)
                  | _ \<Rightarrow> None))"

definition on_message :: "env \<Rightarrow> hub \<times> socket set \<Rightarrow> socket \<Rightarrow> string \<Rightarrow> hub \<times> socket set" where
  "on_message env s ws text =
     (case s of (h, awaiting) \<Rightarrow>
        (let (r, h1) = dispatch env h ws text;
             response = (case r of Answer f \<Rightarrow> Some f | Silent \<Rightarrow> None
               | Failed e \<Rightarrow> Some (rpcError (requestId text) SERVER_ERROR (''internal error: '' @ e)))
         in (case response of None \<Rightarrow> h1 | Some f \<Rightarrow> snd (ws_send env h1 ws f), alive awaiting ws)))"

section \<open>The HTTP transport\<close>

datatype http_result = HttpAnswer int json | HttpThrew string

definition enter_caller :: "hub \<Rightarrow> socket \<Rightarrow> string \<Rightarrow> hub" where
  "enter_caller h ws identity =
     h\<lparr>h_presence := (h_presence h)\<lparr>ps_wsIdentities := (ps_wsIdentities (h_presence h))(ws \<mapsto> identity)\<rparr>\<rparr>"

definition leave_caller :: "hub \<Rightarrow> socket \<Rightarrow> hub" where
  "leave_caller h ws =
     h\<lparr>h_presence := (h_presence h)\<lparr>ps_wsIdentities := (ps_wsIdentities (h_presence h))(ws := None),
                                    ps_wsProxies := (ps_wsProxies (h_presence h))(ws := None)\<rparr>\<rparr>"

definition handle_http ::
  "env \<Rightarrow> hub \<Rightarrow> socket \<Rightarrow> string \<Rightarrow> string \<Rightarrow> json \<Rightarrow> json option \<Rightarrow> string \<Rightarrow> json option \<Rightarrow> (int \<times> reply) \<times> hub" where
  "handle_http env h ws identity method params i raw sig =
     (let ok = (\<lambda>(r, h'). ((200, r), h'))
      in if method = ''mesh.receive'' then ok (handleReceive env h (Some identity) params i)
         else if method = ''mesh.send'' then ok (handleSend env h ws params i (Some raw) sig Mesh)
         else if method = ''mesh.list_agents'' then ok (handleListAgents h i, h)
         else if method = ''mesh.fetch_messages'' then ok (handleFetchMessages h ws params i, h)
         else if method = ''mesh.audit.prepare_blobs'' then ok (handlePrepareBlobs env h ws params i)
         else if method = ''mesh.audit.append'' then
           (case handleAuditAppend env h ws params i raw sig of (f, h') \<Rightarrow> ok (Reply f, h'))
         else ((404, Reply (rpcError i METHOD_NOT_FOUND (''Method not available over HTTP: '' @ method))), h))"

definition no_key_text :: "no_key_reason \<Rightarrow> string" where
  "no_key_text r = js_String (key_status_json (Some r))"

definition dispatchHttp :: "env \<Rightarrow> hub \<Rightarrow> socket \<Rightarrow> string \<Rightarrow> string option \<Rightarrow> http_result \<times> hub" where
  "dispatchHttp env h ws raw observed =
     (case json_parse raw of
        None \<Rightarrow> (HttpAnswer 400 (rpcError None PARSE_ERROR ''Parse error''), h)
      | Some req \<Rightarrow>
          if req = JNull then (HttpThrew NULL_REQUEST, h)
          else (let i = jget req ''id''; sig = jget req ''sig''
                in case given_string (jget req ''method'') of
                     None \<Rightarrow> (HttpAnswer 400 (rpcError i INVALID_REQUEST ''Invalid request: missing method''), h)
                   | Some method \<Rightarrow>
                       (case given_string (Option.bind sig (\<lambda>s. jget s ''kid'')) of
                          None \<Rightarrow>
                            (HttpAnswer 401 (rpcError i INVALID_REQUEST
                               (''requests over HTTP must be signed '' @ utf8 0x2014 @
                                '' there is no socket to identify the caller'')), h)
                        | Some kid \<Rightarrow>
                            (case given_string (map_option JStr (identityForFingerprint (h_agents h) kid)) of
                               None \<Rightarrow>
                                 (let keyStatus = statusOfFingerprint (h_agents h) kid
                                  in (HttpAnswer 403 (rpcErrorData i KEY_NOT_APPROVED
                                        (''no approved key with fingerprint '' @ kid)
                                        (Some (JObj [(''code'', JStr ''KEY_NOT_APPROVED''),
                                                     (''key_status'', key_status_json (Some keyStatus))]))),
                                      h\<lparr>h_refusals := recordRefusal (h_refusals h) SignatureRefusal
                                          (''key-'' @ no_key_text keyStatus)\<rparr>))
                             | Some identity \<Rightarrow>
                                 (case verifyRequest env h identity method sig raw of
                                    (SigRefused c m r d, h1) \<Rightarrow> (HttpAnswer 401 (rpcErrorData i c m d), h1)
                                  | (SigOk _, h1) \<Rightarrow>
                                      (let h2 = h1\<lparr>h_agents := recordSource (now_secs env) (h_agents h1) identity observed\<rparr>;
                                           params = or_else (jget req ''params'') (JObj []);
                                           env' = env\<lparr>en_observed := (en_observed env)(ws := observed)\<rparr>;
                                           ((status, r), h3) =
                                             handle_http env' (enter_caller h2 ws identity) ws identity method params i raw sig
                                       in (case r of Reply f \<Rightarrow> HttpAnswer status f | Thrown e \<Rightarrow> HttpThrew e,
                                           leave_caller h3 ws)))))))"

section \<open>What a method can touch\<close>

definition stores :: "hub \<Rightarrow> agents_db \<times> hub_db \<times> audit_db \<times> reminder_db" where
  "stores h = (h_agents h, h_hub h, h_audit h, h_reminders h)"

text \<open>The keys of the tables, and proxy routes that end with their socket.\<close>

definition hub_ok :: "hub \<Rightarrow> bool" where
  "hub_ok h \<longleftrightarrow> hub_pk (h_hub h) \<and> audit_pk (h_audit h) \<and> reminder_pk (h_reminders h) \<and> proxies_ok (h_presence h)"

text \<open>
  What one request may do: the trail grows at its end, the keys stay unique, and a stored message
  stays, with at most its status changed to delivered or its lease renewed.
\<close>

definition same_message :: "message_row \<Rightarrow> message_row \<Rightarrow> bool" where
  "same_message m m' \<longleftrightarrow> m' = m\<lparr>ms_status := ms_status m', ms_leased_until := ms_leased_until m'\<rparr> \<and>
     (ms_status m = MDelivered \<longrightarrow> ms_status m' = MDelivered)"

definition evolves :: "hub \<Rightarrow> hub \<Rightarrow> bool" where
  "evolves h h' \<longleftrightarrow> audit_extends (h_audit h) (h_audit h') \<and>
     (hub_pk (h_hub h) \<longrightarrow> hub_pk (h_hub h')) \<and> (reminder_pk (h_reminders h) \<longrightarrow> reminder_pk (h_reminders h')) \<and>
     (proxies_ok (h_presence h) \<longrightarrow> proxies_ok (h_presence h')) \<and>
     (\<forall>x m. stmtMessageById (h_hub h) x = Some m \<longrightarrow>
        (\<exists>m'. stmtMessageById (h_hub h') x = Some m' \<and> same_message m m'))"

lemma same_message_refl [simp]: "same_message m m"
  by (simp add: same_message_def)

lemma same_message_trans: "same_message a b \<Longrightarrow> same_message b c \<Longrightarrow> same_message a c"
proof -
  assume a: "same_message a b" "same_message b c"
  then have b: "b = a\<lparr>ms_status := ms_status b, ms_leased_until := ms_leased_until b\<rparr>"
    and c: "c = b\<lparr>ms_status := ms_status c, ms_leased_until := ms_leased_until c\<rparr>"
    by (simp_all add: same_message_def)
  have "c = a\<lparr>ms_status := ms_status c, ms_leased_until := ms_leased_until c\<rparr>" by (subst c, subst b) simp
  with a show ?thesis by (simp add: same_message_def)
qed

lemma same_message_mark: "same_message m (mark ids m)"
  by (simp add: same_message_def mark_def)

lemma evolves_refl [simp]: "evolves h h"
  by (auto simp: evolves_def)

lemma evolves_trans [trans]: "evolves a b \<Longrightarrow> evolves b c \<Longrightarrow> evolves a c"
  unfolding evolves_def by (meson audit_extends_trans same_message_trans)

text \<open>Parts of the state that \<open>evolves\<close> does not look at.\<close>

lemma evolves_other:
  "h_audit h' = h_audit h \<Longrightarrow> h_hub h' = h_hub h \<Longrightarrow> h_reminders h' = h_reminders h \<Longrightarrow>
   (proxies_ok (h_presence h) \<Longrightarrow> proxies_ok (h_presence h')) \<Longrightarrow> evolves h h'"
  by (auto simp: evolves_def)

lemma send_evolves: "evolves h (snd (handleSend env h ws params i raw sig via))"
  by (auto simp: evolves_def handleSend_pk dest: handleSend_byId)

lemma connect_evolves: "evolves h (snd (performConnect env h ws params i))"
  unfolding evolves_def
proof (intro conjI allI impI)
  fix x m
  assume "stmtMessageById (h_hub h) x = Some m"
  with performConnect_byId [of env h ws params i x]
  show "\<exists>m'. stmtMessageById (h_hub (snd (performConnect env h ws params i))) x = Some m' \<and> same_message m m'"
    by (auto simp: same_message_mark)
qed (simp_all add: performConnect_pk performConnect_proxies)

lemma receive_evolves: "evolves h (snd (handleReceive env h identity params i))"
proof -
  have "\<exists>m'. stmtMessageById (db_after (receive t db who l ids n)) x = Some m' \<and> same_message m m'"
    if "stmtMessageById db x = Some m" for t db who l ids n x m
    using that by (auto simp: receive_byId Let_def same_message_def settles_def)
  then show ?thesis unfolding evolves_def
    by (cases rule: handleReceive_cases [of env h identity params i]) (auto simp: handleReceive_pk Let_def receive_pk)
qed

lemma schedule_evolves: "evolves h (snd (handleScheduleReminder env h ws params i))"
  by (auto simp: evolves_def schedule_pk)

lemma cancel_evolves: "evolves h (snd (handleCancelReminder env h ws params i))"
  by (auto simp: evolves_def cancel_handler_pk)

lemma prepare_evolves: "evolves h (snd (handlePrepareBlobs env h ws params i))"
  by (rule evolves_other) simp_all

lemma append_evolves: "evolves h (snd (handleAuditAppend env h ws params i raw sig))"
  by (auto simp: evolves_def)

lemmas handlers_evolve = send_evolves connect_evolves receive_evolves schedule_evolves cancel_evolves
  prepare_evolves append_evolves

lemma handle_method_evolves: "evolves h (snd (handle_method env h ws method params i raw sig))"
  by (simp add: handle_method_def handleConnect_def handleRegister_def handlers_evolve case_prod_beta)

lemma handle_http_evolves: "evolves h (snd (handle_http env h ws identity method params i raw sig))"
  by (simp add: handle_http_def handlers_evolve case_prod_beta Let_def)

lemma verifyRequest_evolves [simp]: "evolves h (snd (verifyRequest env h i m sig raw))"
  by (rule evolves_other) simp_all

text \<open>A request that speaks as nobody changes nothing.\<close>

lemma unidentified_method:
  assumes "speakingAs h ws method params = None"
  shows "snd (handle_method env h ws method params i raw sig) = h"
proof (cases "method = ''mesh.connect'' \<or> method = ''mesh.register''")
  case True
  with assms have n: "given_string (jget params ''identity'') = None" by (auto simp: speakingAs_def)
  have "handle_method env h ws method params i raw sig = performConnect env h ws params i"
    using True by (elim disjE) (simp_all add: handle_method_def handleConnect_def handleRegister_def)
  with n show ?thesis by (simp add: performConnect_def)
next
  case False
  with assms have n: "identity_of (h_presence h) ws = None" by (simp add: speakingAs_def)
  then have "ps_wsIdentities (h_presence h) ws \<in> {None, Some []}"
    by (auto simp: identity_of_def split: option.splits list.splits if_splits)
  then have r: "snd (handleReceive env h (ps_wsIdentities (h_presence h) ws) params i) = h"
    by (auto simp: handleReceive_def)
  have "snd (handleSend env h ws params i (Some raw) sig Mesh) = h" "snd (handleScheduleReminder env h ws params i) = h"
    "snd (handleCancelReminder env h ws params i) = h" "snd (handlePrepareBlobs env h ws params i) = h"
    "snd (handleAuditAppend env h ws params i raw sig) = h"
    by (simp_all add: n handleSend_unidentified handleScheduleReminder_def handleCancelReminder_def
        handlePrepareBlobs_def handleAuditAppend_def Let_def)
  with False r show ?thesis by (simp add: handle_method_def case_prod_beta)
qed

lemma dropConnection_evolves:
  "h_audit h' = h_audit h \<Longrightarrow> h_hub h' = h_hub h \<Longrightarrow> h_reminders h' = h_reminders h \<Longrightarrow>
   h_presence h' = dropConnection (h_presence h) ws i \<Longrightarrow> evolves h h'"
  by (rule evolves_other) (simp_all add: drop_proxies_ok)

text \<open>What a frame can come to.\<close>

lemma dispatch_cases:
  obtains (rejected) "snd (dispatch env h ws text) = h"
  | (handled) req meth params sig h1 where
      "json_parse text = Some req" "given_string (jget req ''method'') = Some meth"
      "params = or_else (jget req ''params'') (JObj [])" "sig = jget req ''sig''"
      "case speakingAs h ws meth params of None \<Rightarrow> h1 = h
       | Some i \<Rightarrow> \<exists>signed. verifyRequest env h i meth sig text = (SigOk signed, h1)"
      "snd (dispatch env h ws text) = snd (handle_method env h1 ws meth params (jget req ''id'') text sig)"
  | (refused) req meth i c m r d h1 where
      "json_parse text = Some req" "given_string (jget req ''method'') = Some meth"
      "speakingAs h ws meth (or_else (jget req ''params'') (JObj [])) = Some i"
      "verifyRequest env h i meth (jget req ''sig'') text = (SigRefused c m r d, h1)"
      "snd (dispatch env h ws text) =
         (if c = KEY_NOT_APPROVED
          then ws_close (h1\<lparr>h_out := h_out h1 @ [(ws, rpcErrorData (jget req ''id'') c m d)],
                 h_presence := dropConnection (h_presence h1) ws i\<rparr>) ws 1008 ''key not approved''
          else h1)"
proof (cases "json_parse text")
  case None
  then show thesis by (intro rejected) (simp add: dispatch_def)
next
  case req: (Some req)
  show thesis
  proof (cases "req = JNull \<or> given_string (jget req ''method'') = None")
    case True
    with req show thesis by (intro rejected) (auto simp: dispatch_def)
  next
    case False
    then obtain meth where nn: "req \<noteq> JNull" and m: "given_string (jget req ''method'') = Some meth" by auto
    let ?p = "or_else (jget req ''params'') (JObj [])"
    show thesis
    proof (cases "speakingAs h ws meth ?p")
      case None
      then show thesis
        by (intro handled [OF req m refl refl, of h]) (simp_all add: dispatch_def req nn m Let_def case_prod_beta)
    next
      case sp: (Some i)
      obtain v h1 where v: "verifyRequest env h i meth (jget req ''sig'') text = (v, h1)" by fastforce
      show thesis
      proof (cases v)
        case (SigOk signed)
        with v sp show thesis
          by (intro handled [OF req m refl refl, of h1]) (simp_all add: dispatch_def req nn m Let_def case_prod_beta)
      next
        case (SigRefused c mm r d)
        with v show thesis
          by (intro refused [OF req m sp, of c mm r d h1]) (simp_all add: dispatch_def req nn m sp Let_def case_prod_beta)
      qed
    qed
  qed
qed

lemma dispatch_evolves:
  "evolves h (snd (dispatch env h ws text))"
proof (cases rule: dispatch_cases [of env h ws "text"])
  case rejected
  show ?thesis unfolding rejected by (rule evolves_refl)
next
  case (handled req meth params sig h1)
  have "evolves h h1"
  proof (cases "speakingAs h ws meth params")
    case None
    with handled(5) show ?thesis by simp
  next
    case (Some i)
    with handled(5) obtain signed where "verifyRequest env h i meth sig text = (SigOk signed, h1)" by auto
    with verifyRequest_evolves [of h env i meth sig "text"] show ?thesis by simp
  qed
  also have "evolves h1 (snd (dispatch env h ws text))" unfolding handled(6) by (rule handle_method_evolves)
  finally show ?thesis .
next
  case (refused req meth i c m r d h1)
  have "evolves h h1" using verifyRequest_evolves [of h env i meth "jget req ''sig''" "text"] refused(4) by simp
  also have "evolves h1 (snd (dispatch env h ws text))"
  proof (cases "c = KEY_NOT_APPROVED")
    case True
    then show ?thesis unfolding refused(5) by (intro dropConnection_evolves [of _ _ ws i]) (simp_all add: ws_close_def)
  qed (simp add: refused(5))
  finally show ?thesis .
qed

section \<open>Authority over the stores\<close>

lemma verifyRequest_ok:
  "verifyRequest env h i m sig raw = (SigOk signed, h1) \<Longrightarrow>
     (if signed then truthy sig \<and> key_signed env (h_agents h) i m sig raw \<and> \<not> spent_nonce (h_nonces h) i sig
      else \<not> truthy sig \<and> \<not> requiresKey (h_agents h) i)"
  using inner_signed_iff [of env "h_agents h" "h_nonces h" i m sig raw]
    inner_unsigned_iff [of env "h_agents h" "h_nonces h" i m sig raw] verifyRequest_fst [of env h i m sig raw]
  by (cases signed) simp_all

text \<open>
  C1: No frame changes a store without authority. Either the identities, the messages, the audit record
  and the reminders are all as they were, or the frame is a request that speaks as some identity and
  either carries a fresh signature that the approved key of that identity made over the method and the
  received parameters, under a nonce not seen before, or is unsigned and the type of that identity does
  not require a key.
\<close>
theorem no_store_changes_without_authority:
  "stores (snd (dispatch env h ws text)) = stores h \<or>
   (\<exists>req meth i. json_parse text = Some req \<and> given_string (jget req ''method'') = Some meth \<and>
      speakingAs h ws meth (or_else (jget req ''params'') (JObj [])) = Some i \<and>
      (if truthy (jget req ''sig'')
       then key_signed env (h_agents h) i meth (jget req ''sig'') text \<and> \<not> spent_nonce (h_nonces h) i (jget req ''sig'')
       else \<not> requiresKey (h_agents h) i))"
proof (cases rule: dispatch_cases [of env h ws "text"])
  case rejected
  then show ?thesis by simp
next
  case (handled req meth params sig h1)
  show ?thesis
  proof (cases "speakingAs h ws meth params")
    case None
    with handled(5) have "h1 = h" by simp
    then have "snd (dispatch env h ws text) = h" unfolding handled(6) using unidentified_method [OF None] by simp
    then show ?thesis by simp
  next
    case (Some i)
    with handled(5) obtain signed where "verifyRequest env h i meth sig text = (SigOk signed, h1)" by auto
    from verifyRequest_ok [OF this] handled(1-4) Some show ?thesis by (auto split: if_splits)
  qed
next
  case (refused req meth i c m r d h1)
  have "stores h1 = stores h"
    using verifyRequest_frame(1-4) [of env h i meth "jget req ''sig''" "text"] refused(4) by (simp add: stores_def)
  then show ?thesis unfolding refused(5) by (simp add: stores_def ws_close_def)
qed

section \<open>Callers over HTTP\<close>

lemma dispatchHttp_cases:
  obtains (rejected) cs where "snd (dispatchHttp env h ws raw observed) = h\<lparr>h_refusals := cs\<rparr>"
  | (refused) i meth sig where "snd (dispatchHttp env h ws raw observed) = snd (verifyRequest env h i meth sig raw)"
  | (handled) req meth i signed h1 where
      "json_parse raw = Some req" "given_string (jget req ''method'') = Some meth"
      "\<exists>kid. Option.bind (jget req ''sig'') (\<lambda>s. jget s ''kid'') = Some (JStr kid) \<and>
         identityForFingerprint (h_agents h) kid = Some i"
      "verifyRequest env h i meth (jget req ''sig'') raw = (SigOk signed, h1)"
      "snd (dispatchHttp env h ws raw observed) = leave_caller
         (snd (handle_http (env\<lparr>en_observed := (en_observed env)(ws := observed)\<rparr>)
            (enter_caller (h1\<lparr>h_agents := recordSource (now_secs env) (h_agents h1) i observed\<rparr>) ws i)
            ws i meth (or_else (jget req ''params'') (JObj [])) (jget req ''id'') raw (jget req ''sig''))) ws"
proof (cases "json_parse raw")
  case None
  then show thesis by (intro rejected [of "h_refusals h"]) (simp add: dispatchHttp_def)
next
  case req: (Some req)
  let ?kid = "given_string (Option.bind (jget req ''sig'') (\<lambda>s. jget s ''kid''))"
  show thesis
  proof (cases "req = JNull \<or> given_string (jget req ''method'') = None \<or> ?kid = None")
    case True
    then show thesis
      by (intro rejected [of "h_refusals h"], cases "given_string (jget req ''method'')"; cases "req = JNull")
        (simp_all add: dispatchHttp_def req Let_def)
  next
    case False
    then obtain meth kid where nn: "req \<noteq> JNull" and m: "given_string (jget req ''method'') = Some meth"
      and k: "?kid = Some kid" by auto
    show thesis
    proof (cases "given_string (map_option JStr (identityForFingerprint (h_agents h) kid))")
      case None
      then show thesis by (intro rejected) (simp add: dispatchHttp_def req nn m k Let_def)
    next
      case id: (Some i)
      obtain v h1 where v: "verifyRequest env h i meth (jget req ''sig'') raw = (v, h1)" by fastforce
      show thesis
      proof (cases v)
        case (SigOk signed)
        with v k id show thesis
          by (intro handled [OF req m, of i signed h1])
            (simp_all add: dispatchHttp_def req nn m Let_def case_prod_beta split: reply.split)
      next
        case (SigRefused c mm r d)
        with v show thesis
          by (intro refused [of i meth "jget req ''sig''"]) (simp add: dispatchHttp_def req nn m k id Let_def)
      qed
    qed
  qed
qed

lemma handle_http_presence: "h_presence (snd (handle_http env h ws identity meth params i raw sig)) = h_presence h"
  by (simp add: handle_http_def case_prod_beta Let_def)

lemma unused_caller:
  "ps_wsIdentities p ws = None \<Longrightarrow> ps_wsProxies p ws = None \<Longrightarrow>
   p\<lparr>ps_wsIdentities := (ps_wsIdentities p)(ws := None), ps_wsProxies := (ps_wsProxies p)(ws := None)\<rparr> = p"
  by (simp add: fun_upd_idem)

lemma dispatchHttp_presence:
  assumes "ps_wsIdentities (h_presence h) ws = None" "ps_wsProxies (h_presence h) ws = None"
  shows "h_presence (snd (dispatchHttp env h ws raw observed)) = h_presence h"
proof (cases rule: dispatchHttp_cases [of env h ws raw observed])
  case (handled req meth i signed h1)
  have "h_presence h1 = h_presence h" using verifyRequest_frame(5) handled(4) by (metis snd_conv)
  with assms show ?thesis
    unfolding handled(5) leave_caller_def by (simp add: handle_http_presence enter_caller_def fun_upd_idem)
qed simp_all

lemma dispatchHttp_evolves:
  assumes "ps_wsIdentities (h_presence h) ws = None" "ps_wsProxies (h_presence h) ws = None"
  shows "evolves h (snd (dispatchHttp env h ws raw observed))"
proof (cases rule: dispatchHttp_cases [of env h ws raw observed])
  case (rejected cs)
  then show ?thesis by (simp add: evolves_other)
next
  case (refused i meth sig)
  then show ?thesis by simp
next
  case (handled req meth i signed h1)
  let ?e = "enter_caller (h1\<lparr>h_agents := recordSource (now_secs env) (h_agents h1) i observed\<rparr>) ws i"
  let ?r = "snd (handle_http (env\<lparr>en_observed := (en_observed env)(ws := observed)\<rparr>) ?e
      ws i meth (or_else (jget req ''params'') (JObj [])) (jget req ''id'') raw (jget req ''sig''))"
  have "evolves h h1" using verifyRequest_evolves [of h env i meth "jget req ''sig''" raw] handled(4) by simp
  also have "evolves h1 ?e" by (rule evolves_other) (simp_all add: enter_caller_def proxies_ok_def)
  also have "evolves ?e ?r" by (rule handle_http_evolves)
  finally have r: "evolves h ?r" .
  have p: "h_presence (leave_caller ?r ws) = h_presence h"
    using dispatchHttp_presence [OF assms, of env raw observed] handled(5) by simp
  show ?thesis unfolding handled(5)
    using r p by (simp add: evolves_def leave_caller_def)
qed

lemma http_authority:
  "stores (snd (dispatchHttp env h ws raw observed)) = stores h \<or>
     (\<exists>req meth i kid. json_parse raw = Some req \<and> given_string (jget req ''method'') = Some meth \<and>
        Option.bind (jget req ''sig'') (\<lambda>s. jget s ''kid'') = Some (JStr kid) \<and>
        identityForFingerprint (h_agents h) kid = Some i \<and>
        key_signed env (h_agents h) i meth (jget req ''sig'') raw \<and> \<not> spent_nonce (h_nonces h) i (jget req ''sig''))"
proof (cases rule: dispatchHttp_cases [of env h ws raw observed])
  case (handled req meth i signed h1)
  obtain kid where kid: "Option.bind (jget req ''sig'') (\<lambda>s. jget s ''kid'') = Some (JStr kid)"
    "identityForFingerprint (h_agents h) kid = Some i" using handled(3) by blast
  then obtain s where "jget req ''sig'' = Some s" "jget s ''kid'' = Some (JStr kid)"
    by (auto simp: bind_eq_Some_conv)
  then have "truthy (jget req ''sig'')" by (cases s) auto
  with verifyRequest_ok [OF handled(4)] have "signed"
    "key_signed env (h_agents h) i meth (jget req ''sig'') raw \<and> \<not> spent_nonce (h_nonces h) i (jget req ''sig'')"
    by (auto split: if_splits)
  with handled(1,2) kid show ?thesis by blast
qed (simp_all add: stores_def)

text \<open>
  A request over HTTP acts under its signature alone and leaves no connection behind. For a caller
  that is no socket of the hub the connections, routes and owners are afterwards what they were, so it
  is never online; and either no store has changed, or the request named a fingerprint whose approved
  holder's key signed this method and these parameters, freshly and under a nonce not seen before.
\<close>
theorem http_request_acts_under_its_key:
  assumes "ps_wsIdentities (h_presence h) ws = None" "ps_wsProxies (h_presence h) ws = None"
  shows "h_presence (snd (dispatchHttp env h ws raw observed)) = h_presence h \<and>
    (stores (snd (dispatchHttp env h ws raw observed)) = stores h \<or>
     (\<exists>req meth i kid. json_parse raw = Some req \<and> given_string (jget req ''method'') = Some meth \<and>
        Option.bind (jget req ''sig'') (\<lambda>s. jget s ''kid'') = Some (JStr kid) \<and>
        identityForFingerprint (h_agents h) kid = Some i \<and>
        key_signed env (h_agents h) i meth (jget req ''sig'') raw \<and> \<not> spent_nonce (h_nonces h) i (jget req ''sig'')))"
  using dispatchHttp_presence [OF assms] http_authority by blast

lemma http_request_acts_under_its_key_witness:
  "h_presence (snd (dispatchHttp plain_env pair_hub 7 ''{}'' None)) = h_presence pair_hub"
proof -
  have "ps_wsIdentities (h_presence pair_hub) 7 = None" "ps_wsProxies (h_presence pair_hub) 7 = None"
    by (simp_all add: pair_hub_def presence_new_def)
  from http_request_acts_under_its_key [OF this] show ?thesis by blast
qed

section \<open>A refused connect\<close>

text \<open>An online entry that no socket's departure removes.\<close>

definition phantom :: "presence \<Rightarrow> string \<Rightarrow> socket \<Rightarrow> bool" where
  "phantom p a ws \<longleftrightarrow> online_socket p a = Some ws \<and> ps_identities p ws = None"

lemma phantom_drop: "phantom p a ws \<Longrightarrow> phantom (dropConnection p ws' j) a ws"
proof -
  assume p: "phantom p a ws"
  have r: "phantom (snd (release p ws')) a ws" if "fst (release p ws') = Some x" for x
    using p that by (auto simp: phantom_def release_def online_socket_def Let_def split: option.splits if_splits)
  have "phantom (leave_online p ws' j) a ws"
  proof (cases "fst (release p ws')")
    case None
    then have "leave_online p ws' j = p"
      by (auto simp: leave_online_def Let_def case_prod_beta release_def split: option.splits if_splits)
    with p show ?thesis by simp
  next
    case (Some x)
    have "ps_identities p ws' \<noteq> None" using Some by (auto simp: release_def split: option.splits)
    then have "ws' \<noteq> ws" using p by (auto simp: phantom_def)
    with r [OF Some] show ?thesis
      by (auto simp: leave_online_def Let_def case_prod_beta phantom_def online_socket_def delete_conv')
  qed
  then show ?thesis by (simp add: dropConnection_def Let_def phantom_def online_socket_def)
qed

lemma phantom_step:
  assumes "phantom p a ws" "\<And>j w g. op = PConnect j w g \<Longrightarrow> j \<noteq> a \<and> w \<noteq> ws"
  shows "phantom (presence_step p op) a ws"
proof (cases op)
  case (PConnect j w g)
  with assms show ?thesis
    unfolding PConnect connect_cases
    by (auto simp: phantom_def go_online_def claim_maps online_socket_def update_conv')
qed (use assms(1) phantom_drop in \<open>auto split: option.split\<close>)

lemma phantom_run:
  "phantom p a ws \<Longrightarrow> list_all (\<lambda>op. case op of PConnect j w g \<Rightarrow> j \<noteq> a \<and> w \<noteq> ws | _ \<Rightarrow> True) ops \<Longrightarrow>
   phantom (foldl presence_step p ops) a ws"
proof (induction ops arbitrary: p)
  case (Cons op ops)
  then show ?case using phantom_step [of p a ws op] by (auto split: presence_op.splits)
qed simp

text \<open>
  A refused connect can leave its socket online for good. When a socket that is online as one
  identity asks to connect as another whose key is not approved, the hub drops the connection under
  the second name: the first is no longer owned and the socket speaks for nobody, but its entry in
  the online map stays, and through every later close, heartbeat drop and connect of other identities
  by other sockets the identity is reported online at that socket.
\<close>
theorem refused_connect_leaves_a_phantom:
  assumes on: "online_socket (h_presence h) a = Some ws" "ps_identities (h_presence h) ws = Some a" "a \<noteq> []"
      "a \<noteq> b" "online_socket (h_presence h) b \<noteq> Some ws"
    and req: "json_parse text = Some req" "jget req ''method'' = Some (JStr ''mesh.connect'')"
      "jget (or_else (jget req ''params'') (JObj [])) ''identity'' = Some (JStr b)" "b \<noteq> []"
    and refused: "fst (verifyRequest env h b ''mesh.connect'' (jget req ''sig'') text) = SigRefused KEY_NOT_APPROVED m r d"
    and ops: "list_all (\<lambda>op. case op of PConnect j w g \<Rightarrow> j \<noteq> a \<and> w \<noteq> ws | _ \<Rightarrow> True) ops"
  shows "identity_of (h_presence (snd (dispatch env h ws text))) ws = None \<and>
    online_socket (foldl presence_step (h_presence (snd (dispatch env h ws text))) ops) a = Some ws"
proof -
  obtain h1 where v: "verifyRequest env h b ''mesh.connect'' (jget req ''sig'') text = (SigRefused KEY_NOT_APPROVED m r d, h1)"
    using refused by (metis prod.collapse)
  have h1: "h_presence h1 = h_presence h" using verifyRequest_frame(5) v by (metis snd_conv)
  have nn: "req \<noteq> JNull" using req(2) by auto
  have sp: "speakingAs h ws ''mesh.connect'' (or_else (jget req ''params'') (JObj [])) = Some b"
    using req(3,4) by (simp add: speakingAs_def)
  have p: "h_presence (snd (dispatch env h ws text)) = dropConnection (h_presence h) ws b"
    by (simp add: dispatch_def req(1,2) nn sp v ws_close_def h1 Let_def case_prod_beta)
  have "phantom (leave_online (h_presence h) ws b) a ws"
    using on by (auto simp: phantom_def leave_online_def release_def Let_def online_socket_def)
  then have "phantom (dropConnection (h_presence h) ws b) a ws"
    by (simp add: dropConnection_def Let_def phantom_def online_socket_def)
  moreover have "identity_of (dropConnection (h_presence h) ws b) ws = None"
    by (simp add: dropConnection_def Let_def identity_of_def)
  ultimately show ?thesis using phantom_run [OF _ ops] unfolding p phantom_def by blast
qed

definition rival_request :: json where
  "rival_request = JObj [(''method'', JStr ''mesh.connect''), (''params'', JObj [(''identity'', JStr ''b'')]),
     (''sig'', plain_sig ''n'' 1000)]"

definition one_online :: hub where
  "one_online = (hub_init 0 120)\<lparr>h_presence := presence_step presence_new (PConnect ''a'' 1 None)\<rparr>"

lemma rival_parsed: "json_parse (json_text rival_request) = Some rival_request"
  by code_simp

lemma rival_refused:
  "case fst (verifyRequest plain_env one_online ''b'' ''mesh.connect'' (jget rival_request ''sig'') (json_text rival_request)) of
     SigRefused c m r d \<Rightarrow> c = KEY_NOT_APPROVED | SigOk _ \<Rightarrow> False"
  by code_simp

lemma refused_connect_leaves_a_phantom_witness:
  "online_socket (foldl presence_step
     (h_presence (snd (dispatch plain_env one_online 1 (json_text rival_request)))) [PClose 1, PDrop 1 ''a'', PDrop 1 ''a'']) ''a'' = Some 1"
proof -
  have "online_socket (h_presence one_online) ''a'' = Some 1" "ps_identities (h_presence one_online) 1 = Some ''a''"
    "online_socket (h_presence one_online) ''b'' \<noteq> Some 1" by code_simp+
  moreover have "jget rival_request ''method'' = Some (JStr ''mesh.connect'')"
    "jget (or_else (jget rival_request ''params'') (JObj [])) ''identity'' = Some (JStr ''b'')"
    by (simp_all add: rival_request_def or_else_def)
  moreover obtain m r d where "fst (verifyRequest plain_env one_online ''b'' ''mesh.connect'' (jget rival_request ''sig'')
      (json_text rival_request)) = SigRefused KEY_NOT_APPROVED m r d"
    using rival_refused by (auto split: signature_verdict.splits)
  ultimately show ?thesis
    using refused_connect_leaves_a_phantom [of one_online "''a''" 1 "''b''" "json_text rival_request" rival_request plain_env
        m r d "[PClose 1, PDrop 1 ''a'', PDrop 1 ''a'']"] rival_parsed by simp
qed

end
