(* ===== verification/Hub_Signed.thy ===== *)
theory Hub_Signed
  imports Hub_Dispatch
begin

text \<open>
  The signed REST surface's gate, \<open>packages/hub/src/rest/signed.ts\<close>, and the state of the whole hub
  process: the stores and connections of \<open>Hub_State\<close>, the sockets that owe a pong, and the two
  rate limiters.

  The parser of the authorization header, the pre-image encoder and the error codes of the
  \<open>contracts\<close> package are parameters. The lemmas give the gate exactly, and what a refused and a
  passed request leave behind.
\<close>

section \<open>The process\<close>

record server =
  sv_hub :: hub
  sv_awaiting :: "socket set"
  sv_provision :: limiter
  sv_signed :: limiter

record rest_contracts =
  rc_parseAuth :: "string \<Rightarrow> (string \<times> string \<times> int \<times> string) option"
  rc_restPreimage :: "string \<Rightarrow> string \<Rightarrow> string \<Rightarrow> string \<Rightarrow> int \<Rightarrow> string \<Rightarrow> string"
  rc_SIGNATURE_INVALID :: int
  rc_KEY_NOT_APPROVED :: int
  rc_INVALID_PARAMS :: int
  rc_NOT_ENTITLED :: int
  rc_IDENTITY_NOT_REGISTERED :: int
  rc_IDENTITY_DELETED :: string
  rc_IDENTITY_EXISTS :: string
  rc_KEY_HELD :: string
  rc_public_key :: "string \<Rightarrow> bool"
  rc_fingerprint :: "string \<Rightarrow> string"
  rc_mailbox_capability :: "(string \<times> json) list"
  rc_surface_capability :: "(string \<times> json) list"

text \<open>
  The environment of an HTTP request: that of a hub request, the constants above, the proxies that the
  deployment declares, the fresh ids of key events, and whether \<open>agents.db\<close> accepts a write of the
  provisioning route, the provenance and the version that the process reports about itself, and how a
  number that may be no integer is printed.
\<close>

record rest_env =
  rv_env :: env
  rv_contracts :: rest_contracts
  rv_declared :: "string list"
  rv_key_event_id :: "nat \<Rightarrow> string"
  rv_agents_error :: "string option"
  rv_observed :: observed_config
  rv_platform :: json
  rv_spec :: string
  rv_counting_since :: string
  rv_number :: "rat \<Rightarrow> json"

text \<open>An HTTP answer: a status and a JSON body, with the \<open>Retry-After\<close> of a limit; a text; or a throw.\<close>

datatype response =
    JsonResponse int json
  | LimitedResponse int json int
  | TextResponse int string
  | ResponseThrew string
  | Upgraded

text \<open>\<open>{...a, ...b}\<close>: a later member replaces the value of an earlier one and keeps its place.\<close>

definition obj_spread :: "(string \<times> json) list \<Rightarrow> (string \<times> json) list \<Rightarrow> (string \<times> json) list" where
  "obj_spread a b = foldl (\<lambda>ms (k, v). AList.update k v ms) a b"

section \<open>Authenticating\<close>

datatype signed_result = SignedOk string string | SignedRefused int json

definition refuse ::
  "hub \<Rightarrow> int \<Rightarrow> int \<Rightarrow> string \<Rightarrow> string \<Rightarrow> (string \<times> json) list \<Rightarrow> signed_result \<times> hub" where
  "refuse h status rpcCode message code extra =
     (SignedRefused status (JObj (obj_spread
        [(''ok'', JBool False), (''error'', JStr message), (''code'', JStr code), (''rpc_code'', JInt rpcCode)] extra)),
      h\<lparr>h_refusals := recordRefusal (h_refusals h) SignatureRefusal code\<rparr>)"

fun outcome_reason :: "verify_outcome \<Rightarrow> string" where
  "outcome_reason (NoApprovedKey _) = ''no-approved-key''"
| "outcome_reason WrongKey = ''wrong-key''"
| "outcome_reason BadSignature = ''bad-signature''"
| "outcome_reason (VerifyOk _) = []"

definition body_digest :: "env \<Rightarrow> string \<Rightarrow> string" where
  "body_digest env body = (if body = [] then [] else en_sha256 env body)"

text \<open>The checks on a parsed header: freshness, the nonce, the holder of the fingerprint, the signature.\<close>

definition check_envelope ::
  "rest_env \<Rightarrow> hub \<Rightarrow> string \<Rightarrow> string \<Rightarrow> string \<Rightarrow> string \<times> string \<times> int \<times> string \<Rightarrow> signed_result \<times> hub" where
  "check_envelope re h method path body auth =
     (case auth of (kid, nonce, iat, signature) \<Rightarrow>
       (let env = rv_env re; rc = rv_contracts re;
            invalid = (\<lambda>h m. refuse h 401 (rc_SIGNATURE_INVALID rc) m ''SIGNATURE_INVALID'' [])
        in if \<bar>now_secs env - iat\<bar> > ct_freshness (en_contracts env) then
             invalid h (''iat outside the '' @ utf8 0xB1 @ int_text (ct_freshness (en_contracts env)) @
                        ''s freshness window'')
           else (case claim (h_nonces h) kid nonce iat of
                   (False, w) \<Rightarrow> invalid (h\<lparr>h_nonces := w\<rparr>) ''nonce already seen in this window''
                 | (True, w) \<Rightarrow>
                     (let h1 = h\<lparr>h_nonces := w\<rparr>
                      in case given_string (map_option JStr (identityForFingerprint (h_agents h1) kid)) of
                           None \<Rightarrow>
                             refuse h1 403 (rc_KEY_NOT_APPROVED rc) (''no approved key with fingerprint '' @ kid)
                               ''KEY_NOT_APPROVED''
                               [(''key_status'', key_status_json (Some (statusOfFingerprint (h_agents h1) kid)))]
                         | Some identity \<Rightarrow>
                             (case verifyForIdentity (en_verify env) (h_agents h1) identity kid
                                     (rc_restPreimage rc method path kid nonce iat (body_digest env body)) signature of
                                VerifyOk _ \<Rightarrow> (SignedOk identity kid, h1)
                              | outcome \<Rightarrow>
                                  invalid h1 (''signature does not verify ('' @ outcome_reason outcome @ '')''))))))"

definition check_signature ::
  "rest_env \<Rightarrow> hub \<Rightarrow> string \<Rightarrow> string \<Rightarrow> string option \<Rightarrow> string \<Rightarrow> signed_result \<times> hub" where
  "check_signature re h method path headerValue body =
     (let rc = rv_contracts re;
          invalid = (\<lambda>m. refuse h 401 (rc_SIGNATURE_INVALID rc) m ''SIGNATURE_INVALID'' [])
      in case given_string (map_option JStr headerValue) of
           None \<Rightarrow> invalid ''requests to this surface must be signed''
         | Some header \<Rightarrow>
             (case rc_parseAuth rc header of
                None \<Rightarrow> invalid ''malformed AgentMeshSig authorization''
              | Some auth \<Rightarrow> check_envelope re h method path body auth))"

definition authenticate ::
  "rest_env \<Rightarrow> server \<Rightarrow> string \<Rightarrow> string \<Rightarrow> string option \<Rightarrow> string \<Rightarrow> string option \<Rightarrow> signed_result \<times> server" where
  "authenticate re s method path headerValue body observed =
     (let env = rv_env re
      in case check_signature re (sv_hub s) method path headerValue body of
           (SignedRefused st b, h) \<Rightarrow> (SignedRefused st b, s\<lparr>sv_hub := h\<rparr>)
         | (SignedOk identity kid, h) \<Rightarrow>
             (let (budget, limiter) = take_token (en_now env) (sv_signed s) identity 1
              in if \<not> dc_ok budget then
                   (let (r, h1) = refuse h 429 (rc_INVALID_PARAMS (rv_contracts re)) ''too many requests'' ''RATE_LIMITED''
                                    [(''retry_after'', JInt (dc_retryAfter budget))]
                    in (r, s\<lparr>sv_hub := h1, sv_signed := limiter\<rparr>))
                 else (SignedOk identity kid,
                       s\<lparr>sv_hub := h\<lparr>h_agents := recordSource (now_secs env) (h_agents h) identity observed\<rparr>,
                         sv_signed := limiter\<rparr>)))"

section \<open>The gate\<close>

text \<open>A header by which the approved key of an identity signed the method, the path and the body.\<close>

definition envelope_signed ::
  "rest_env \<Rightarrow> hub \<Rightarrow> string \<Rightarrow> string \<Rightarrow> string \<Rightarrow> string \<times> string \<times> int \<times> string \<Rightarrow> string \<Rightarrow> string \<Rightarrow> bool" where
  "envelope_signed re h verb path body auth identity kid \<longleftrightarrow>
     (case (auth, approvedKey (h_agents h) identity) of
        ((kid', nonce, iat, signature), Some key) \<Rightarrow>
          kid' = kid \<and> identity \<noteq> [] \<and> identityForFingerprint (h_agents h) kid = Some identity \<and>
          \<bar>now_secs (rv_env re) - iat\<bar> \<le> ct_freshness (en_contracts (rv_env re)) \<and>
          remembered (h_nonces h) kid nonce = None \<and> k_fingerprint key = kid \<and>
          verifySignature (en_verify (rv_env re)) (k_public_key key)
            (rc_restPreimage (rv_contracts re) verb path kid nonce iat (body_digest (rv_env re) body)) signature
      | _ \<Rightarrow> False)"

definition rest_signed ::
  "rest_env \<Rightarrow> hub \<Rightarrow> string \<Rightarrow> string \<Rightarrow> string option \<Rightarrow> string \<Rightarrow> string \<Rightarrow> string \<Rightarrow> bool" where
  "rest_signed re h verb path headerValue body identity kid \<longleftrightarrow>
     (case Option.bind (given_string (map_option JStr headerValue)) (rc_parseAuth (rv_contracts re)) of
        None \<Rightarrow> False
      | Some auth \<Rightarrow> envelope_signed re h verb path body auth identity kid)"

lemma refuse_simps [simp]:
  "fst (refuse h st c m code ex) \<noteq> SignedOk i k"
  "h_agents (snd (refuse h st c m code ex)) = h_agents h" "h_hub (snd (refuse h st c m code ex)) = h_hub h"
  "h_audit (snd (refuse h st c m code ex)) = h_audit h" "h_reminders (snd (refuse h st c m code ex)) = h_reminders h"
  "h_presence (snd (refuse h st c m code ex)) = h_presence h" "h_nonces (snd (refuse h st c m code ex)) = h_nonces h"
  "h_out (snd (refuse h st c m code ex)) = h_out h" "h_closing (snd (refuse h st c m code ex)) = h_closing h"
  by (simp_all add: refuse_def)

lemma refuse_not_ok [simp]: "refuse h st c m code ex \<noteq> (SignedOk i k, h')"
  by (simp add: refuse_def)

lemma check_envelope_ok_iff:
  "fst (check_envelope re h verb path body auth) = SignedOk i k \<longleftrightarrow> envelope_signed re h verb path body auth i k"
proof -
  obtain kid nonce iat sg where a: "auth = (kid, nonce, iat, sg)" by (cases auth)
  obtain new w where c: "claim (h_nonces h) kid nonce iat = (new, w)" by fastforce
  have n: "remembered (h_nonces h) kid nonce = None \<longleftrightarrow> new"
    using claim_new_iff [of "h_nonces h" kid nonce iat] c by simp
  show ?thesis
  proof (cases "\<bar>now_secs (rv_env re) - iat\<bar> > ct_freshness (en_contracts (rv_env re)) \<or> \<not> new \<or>
      given_string (map_option JStr (identityForFingerprint (h_agents h) kid)) = None")
    case True
    with n show ?thesis
      by (auto simp: check_envelope_def envelope_signed_def a c Let_def split: option.splits bool.splits)
  next
    case False
    then obtain j where j: "identityForFingerprint (h_agents h) kid = Some j" "j \<noteq> []" and new
      and fresh: "\<not> \<bar>now_secs (rv_env re) - iat\<bar> > ct_freshness (en_contracts (rv_env re))" by auto
    let ?v = "verifyForIdentity (en_verify (rv_env re)) (h_agents h) j kid
      (rc_restPreimage (rv_contracts re) verb path kid nonce iat (body_digest (rv_env re) body)) sg"
    have "fst (check_envelope re h verb path body auth) = SignedOk i k \<longleftrightarrow> i = j \<and> k = kid \<and> (\<exists>x. ?v = VerifyOk x)"
      using j \<open>new\<close> fresh by (simp add: check_envelope_def a c Let_def split: verify_outcome.split) blast
    also have "\<dots> \<longleftrightarrow> envelope_signed re h verb path body auth i k"
    proof (cases "i = j \<and> k = kid")
      case True
      with j n \<open>new\<close> fresh show ?thesis
        by (simp add: envelope_signed_def a verifyForIdentity_def split: option.split)
    next
      case False
      then have "\<not> envelope_signed re h verb path body auth i k"
        using j(1) unfolding envelope_signed_def a by (cases "approvedKey (h_agents h) i") auto
      with False show ?thesis by blast
    qed
    finally show ?thesis .
  qed
qed

lemma check_signature_ok_iff:
  "fst (check_signature re h verb path hv body) = SignedOk i k \<longleftrightarrow> rest_signed re h verb path hv body i k"
  by (auto simp: check_signature_def rest_signed_def check_envelope_ok_iff Let_def split: option.split)

lemma check_envelope_frame [simp]:
  "h_agents (snd (check_envelope re h verb path body a)) = h_agents h"
  "h_hub (snd (check_envelope re h verb path body a)) = h_hub h"
  "h_audit (snd (check_envelope re h verb path body a)) = h_audit h"
  "h_reminders (snd (check_envelope re h verb path body a)) = h_reminders h"
  "h_presence (snd (check_envelope re h verb path body a)) = h_presence h"
  "h_out (snd (check_envelope re h verb path body a)) = h_out h"
  "h_closing (snd (check_envelope re h verb path body a)) = h_closing h"
  by (simp_all add: check_envelope_def Let_def split: option.split prod.split bool.split verify_outcome.split)

lemma check_signature_frame [simp]:
  "h_agents (snd (check_signature re h verb path hv body)) = h_agents h"
  "h_hub (snd (check_signature re h verb path hv body)) = h_hub h"
  "h_audit (snd (check_signature re h verb path hv body)) = h_audit h"
  "h_reminders (snd (check_signature re h verb path hv body)) = h_reminders h"
  "h_presence (snd (check_signature re h verb path hv body)) = h_presence h"
  "h_out (snd (check_signature re h verb path hv body)) = h_out h"
  "h_closing (snd (check_signature re h verb path hv body)) = h_closing h"
  by (simp_all add: check_signature_def Let_def split: option.split)

section \<open>What a request leaves behind\<close>

lemma authenticate_cases:
  obtains (refused) st b where "fst (check_signature re (sv_hub s) verb path hv body) = SignedRefused st b"
      "authenticate re s verb path hv body observed =
         (SignedRefused st b, s\<lparr>sv_hub := snd (check_signature re (sv_hub s) verb path hv body)\<rparr>)"
  | (signed) i k where "rest_signed re (sv_hub s) verb path hv body i k"
      "fst (check_signature re (sv_hub s) verb path hv body) = SignedOk i k"
proof (cases "fst (check_signature re (sv_hub s) verb path hv body)")
  case (SignedOk i k)
  then show thesis by (intro signed) (simp_all add: check_signature_ok_iff [symmetric])
next
  case (SignedRefused st b)
  then show thesis
    by (intro refused) (simp_all add: authenticate_def Let_def case_prod_beta)
qed

lemma authenticate_signed:
  assumes "fst (check_signature re (sv_hub s) verb path hv body) = SignedOk i k"
  shows "authenticate re s verb path hv body observed =
    (let env = rv_env re; h = snd (check_signature re (sv_hub s) verb path hv body);
         (budget, limiter) = take_token (en_now env) (sv_signed s) i 1
     in if \<not> dc_ok budget then
          (let (r, h1) = refuse h 429 (rc_INVALID_PARAMS (rv_contracts re)) ''too many requests'' ''RATE_LIMITED''
                           [(''retry_after'', JInt (dc_retryAfter budget))]
           in (r, s\<lparr>sv_hub := h1, sv_signed := limiter\<rparr>))
        else (SignedOk i k,
              s\<lparr>sv_hub := h\<lparr>h_agents := recordSource (now_secs env) (h_agents h) i observed\<rparr>, sv_signed := limiter\<rparr>))"
proof -
  obtain h where "check_signature re (sv_hub s) verb path hv body = (SignedOk i k, h)"
    using assms by (metis prod.collapse)
  then show ?thesis by (simp add: authenticate_def Let_def)
qed

lemma rest_gate:
  "(fst (authenticate re s verb path hv body observed) = SignedOk i k \<longleftrightarrow>
      rest_signed re (sv_hub s) verb path hv body i k \<and> 1 \<le> level (en_now (rv_env re)) (sv_signed s) i) \<and>
   stores (sv_hub (snd (authenticate re s verb path hv body observed))) =
     (case fst (authenticate re s verb path hv body observed) of
        SignedRefused st b \<Rightarrow> stores (sv_hub s)
      | SignedOk i k \<Rightarrow>
          stores ((sv_hub s)\<lparr>h_agents := recordSource (now_secs (rv_env re)) (h_agents (sv_hub s)) i observed\<rparr>)) \<and>
   h_presence (sv_hub (snd (authenticate re s verb path hv body observed))) = h_presence (sv_hub s) \<and>
   (level t (sv_signed (snd (authenticate re s verb path hv body observed))) j = level t (sv_signed s) j \<or>
     (\<exists>k. rest_signed re (sv_hub s) verb path hv body j k))"
proof (cases rule: authenticate_cases [of re s verb path hv body observed])
  case (refused st b)
  have "\<not> rest_signed re (sv_hub s) verb path hv body i k"
    using refused(1) check_signature_ok_iff by (metis signed_result.distinct(1))
  with refused(2) show ?thesis by (simp add: stores_def)
next
  case (signed i' k')
  have only: "rest_signed re (sv_hub s) verb path hv body i k \<longleftrightarrow> i = i' \<and> k = k'"
    using signed(2) check_signature_ok_iff by (metis signed_result.inject(1))
  obtain budget limiter where t: "take_token (en_now (rv_env re)) (sv_signed s) i' 1 = (budget, limiter)"
    by fastforce
  have ok: "dc_ok budget \<longleftrightarrow> 1 \<le> level (en_now (rv_env re)) (sv_signed s) i'"
    using take_token_ok_iff [of "en_now (rv_env re)" "sv_signed s" i' 1] t by simp
  have other: "level t limiter j = level t (sv_signed s) j" if "j \<noteq> i'"
    using level_other [of j i' t "en_now (rv_env re)" "sv_signed s" 1] t that by simp
  show ?thesis
    unfolding authenticate_signed [OF signed(2)]
    using t ok only other signed(1) by (auto simp: Let_def stores_def case_prod_beta refuse_def)
qed

text \<open>
  The signed surface passes a request exactly when the approved key of the identity that holds
  the named fingerprint signed its method, its path with the query and its body, freshly and under a
  nonce not seen from that fingerprint, and the identity has a token left. Only such a request records
  an observed source, every other leaves the stores and the connections alone; and no request takes a
  token from any identity but the one whose key signed it.
\<close>
theorem rest_gate_exact:
  "(fst (authenticate re s verb path hv body observed) = SignedOk i k \<longleftrightarrow>
      rest_signed re (sv_hub s) verb path hv body i k \<and> 1 \<le> level (en_now (rv_env re)) (sv_signed s) i) \<and>
   stores (sv_hub (snd (authenticate re s verb path hv body observed))) =
     (case fst (authenticate re s verb path hv body observed) of
        SignedRefused st b \<Rightarrow> stores (sv_hub s)
      | SignedOk i k \<Rightarrow>
          stores ((sv_hub s)\<lparr>h_agents := recordSource (now_secs (rv_env re)) (h_agents (sv_hub s)) i observed\<rparr>)) \<and>
   h_presence (sv_hub (snd (authenticate re s verb path hv body observed))) = h_presence (sv_hub s) \<and>
   (level t (sv_signed (snd (authenticate re s verb path hv body observed))) j = level t (sv_signed s) j \<or>
     (\<exists>k. rest_signed re (sv_hub s) verb path hv body j k))"
  by (rule rest_gate)

section \<open>A concrete environment\<close>

text \<open>For examples: one header is known, every text is a public key and its own fingerprint.\<close>

definition plain_rest_contracts :: rest_contracts where
  "plain_rest_contracts =
     \<lparr>rc_parseAuth = (\<lambda>v. if v = ''sig'' then Some (''fp'', ''n1'', 1000, ''AA'') else None),
      rc_restPreimage = (\<lambda>m p k n iat d. m @ p @ k @ n @ int_text iat @ d),
      rc_SIGNATURE_INVALID = - 32012, rc_KEY_NOT_APPROVED = - 32014, rc_INVALID_PARAMS = - 32602,
      rc_NOT_ENTITLED = - 32013, rc_IDENTITY_NOT_REGISTERED = - 32011, rc_IDENTITY_DELETED = ''IDENTITY_DELETED'',
      rc_IDENTITY_EXISTS = ''IDENTITY_EXISTS'', rc_KEY_HELD = ''KEY_HELD'', rc_public_key = (\<lambda>k. k \<noteq> []),
      rc_fingerprint = (\<lambda>k. k), rc_mailbox_capability = [], rc_surface_capability = []\<rparr>"

definition plain_rest :: rest_env where
  "plain_rest =
     \<lparr>rv_env = plain_env, rv_contracts = plain_rest_contracts, rv_declared = [''http''],
      rv_key_event_id = (\<lambda>n. ''ke_'' @ int_text (int n)), rv_agents_error = None,
      rv_observed = \<lparr>oc_mode = ObsSocket, oc_trustedProxies = []\<rparr>, rv_platform = JNull, rv_spec = ''0.2'',
      rv_counting_since = [],
      rv_number = (\<lambda>q. JInt \<lfloor>q\<rfloor>)\<rparr>"

end
