(* ===== verification/Key_Lifecycle.thy ===== *)
theory Key_Lifecycle
  imports Store_Keys
begin

text \<open>
  The signing keys of \<open>agents.db\<close> as a state machine: the operations of \<open>Store_Keys\<close> in one step
  function, the invariant of the unique indexes, the transition relation that every key follows,
  and the refinement of the event table into the key table.

  The abstract state is a partial map from fingerprints to the holder and the status. An event row
  acts on it by \<open>replay_event\<close>; \<open>logged\<close> says that a step appended exactly the events whose replay
  takes the old map to the new one.
\<close>

section \<open>The machine\<close>

datatype key_op =
    KPropose secs "nat \<Rightarrow> string" string string string
  | KApprove secs "nat \<Rightarrow> string" string string
  | KDeny secs "nat \<Rightarrow> string" string string "string option"
  | KRevoke secs "nat \<Rightarrow> string" string string string
  | KTeardown secs "nat \<Rightarrow> string" string string

text \<open>A thrown error leaves the database as it was: each operation is one transaction.\<close>

fun or_keep :: "'s \<Rightarrow> 'e + ('a \<times> 's) \<Rightarrow> 's" where
  "or_keep s (Inl e) = s"
| "or_keep s (Inr (a, s')) = s'"

fun key_step :: "(string \<Rightarrow> string) \<Rightarrow> agents_db \<Rightarrow> key_op \<Rightarrow> agents_db" where
  "key_step fpf db (KPropose t uuid i pk actor) = or_keep db (proposeKey fpf t uuid db i pk actor)"
| "key_step fpf db (KApprove t uuid fp actor) = or_keep db (approveKey t uuid db fp actor)"
| "key_step fpf db (KDeny t uuid fp actor r) = or_keep db (denyKey t uuid db fp actor r)"
| "key_step fpf db (KRevoke t uuid fp actor r) = or_keep db (revokeKey t uuid db fp actor r)"
| "key_step fpf db (KTeardown t uuid i actor) = snd (teardownIdentity t uuid db i actor)"

section \<open>The abstract key map\<close>

type_synonym key_map = "string \<rightharpoonup> string \<times> key_status"

definition key_map_of :: "agents_db \<Rightarrow> key_map" where
  "key_map_of db fp = map_option (\<lambda>k. (k_identity k, k_status k)) (keyByFingerprint db fp)"

fun event_status :: "key_action \<Rightarrow> key_status option" where
  "event_status AProposed = Some Pending"
| "event_status AApproved = Some Approved"
| "event_status ADenied = Some Denied"
| "event_status ARevoked = Some Revoked"
| "event_status ASuperseded = None"

definition replay_event :: "key_map \<Rightarrow> key_event_row \<Rightarrow> key_map" where
  "replay_event m e = m(ke_fingerprint e := map_option (\<lambda>st. (ke_identity e, st)) (event_status (ke_action e)))"

definition logged :: "agents_db \<Rightarrow> agents_db \<Rightarrow> bool" where
  "logged db db' \<longleftrightarrow>
     (\<exists>es. db_key_events db' = db_key_events db @ es \<and>
           key_map_of db' = foldl replay_event (key_map_of db) es)"

lemma logged_refl: "logged db db"
  by (auto simp: logged_def)

lemma logged_trans: "logged a b \<Longrightarrow> logged b c \<Longrightarrow> logged a c"
  unfolding logged_def by (metis append.assoc foldl_append)

subsection \<open>Each statement on the map\<close>

lemma appendEvent_simps [simp]:
  "db_keys (appendEvent t u db i fp a r ac) = db_keys db"
  "db_agents (appendEvent t u db i fp a r ac) = db_agents db"
  "keyByFingerprint (appendEvent t u db i fp a r ac) = keyByFingerprint db"
  "key_map_of (appendEvent t u db i fp a r ac) = key_map_of db"
  "keys_ok (appendEvent t u db i fp a r ac) = keys_ok db"
  "approvedKey (appendEvent t u db i fp a r ac) = approvedKey db"
  by (auto simp: appendEvent_def fun_eq_iff key_map_of_def keyByFingerprint_def keys_ok_def
      approvedKey_def keyByStatus_def)

lemma decideKey_simps [simp]:
  "db_key_events (decideKey t db fp st ac) = db_key_events db"
  "db_agents (decideKey t db fp st ac) = db_agents db"
  by (simp_all add: decideKey_def)

lemma keyByFingerprint_decide:
  "keyByFingerprint (decideKey t db fp st ac) fp' =
     map_option (\<lambda>k. if k_fingerprint k = fp
                     then k\<lparr>k_status := st, k_decided_at := Some t, k_decided_by := Some ac\<rparr> else k)
       (keyByFingerprint db fp')"
  by (simp add: keyByFingerprint_def decideKey_def sql_get_update_key)

lemma keyByFingerprint_fp: "keyByFingerprint db fp = Some k \<Longrightarrow> k_fingerprint k = fp"
  by (auto simp: keyByFingerprint_def dest: sql_get_SomeD)

lemma key_map_decide:
  "keyByFingerprint db fp = Some k \<Longrightarrow>
   key_map_of (decideKey t db fp st ac) = (key_map_of db)(fp \<mapsto> (k_identity k, st))"
proof
  fix fp'
  assume k: "keyByFingerprint db fp = Some k"
  show "key_map_of (decideKey t db fp st ac) fp' = ((key_map_of db)(fp \<mapsto> (k_identity k, st))) fp'"
    using k by (cases "keyByFingerprint db fp'")
      (auto simp: key_map_of_def keyByFingerprint_decide dest: keyByFingerprint_fp)
qed

lemma keys_ok_retire:
  "keys_ok db \<Longrightarrow> st = Denied \<or> st = Revoked \<Longrightarrow> keys_ok (decideKey t db fp st ac)"
  by (auto simp: keys_ok_def decideKey_def intro!: keys_tab_retire)

lemma keys_ok_approve:
  assumes "keys_ok db" "keyByFingerprint db fp = Some r" "approvedKey db (k_identity r) = None"
  shows "keys_ok (decideKey t db fp Approved ac)"
proof -
  from assms(1,2) have r: "r \<in> set (db_keys db)" "k_fingerprint r = fp"
    by (simp_all add: keyByFingerprint_Some_iff)
  show ?thesis
    using keys_tab_approve [of "db_keys db" r
        "\<lambda>k. k\<lparr>k_status := Approved, k_decided_at := Some t, k_decided_by := Some ac\<rparr>"] assms r
    by (simp add: keys_ok_def decideKey_def approvedKey_None_iff)
qed

text \<open>Deciding one key and logging it is a logged step.\<close>

lemma logged_decide:
  assumes "keyByFingerprint db fp = Some k" "event_status a = Some st"
  shows "logged db (appendEvent t u (decideKey t db fp st ac) (k_identity k) fp a r ac')"
proof -
  let ?e = "\<lparr>ke_id = u, ke_identity = k_identity k, ke_fingerprint = fp, ke_action = a, ke_reason = r,
    ke_actor = Some ac', ke_occurred_at = t\<rparr>"
  have "db_key_events (appendEvent t u (decideKey t db fp st ac) (k_identity k) fp a r ac') =
      db_key_events db @ [?e]"
    by (simp add: appendEvent_def)
  moreover have "key_map_of (appendEvent t u (decideKey t db fp st ac) (k_identity k) fp a r ac') =
      foldl replay_event (key_map_of db) [?e]"
    using assms by (simp add: key_map_decide replay_event_def)
  ultimately show ?thesis unfolding logged_def by blast
qed

section \<open>Proposing\<close>

text \<open>The supersession step of \<open>proposeKey\<close>: the pending key it displaces is deleted and logged.\<close>

lemma key_map_delete:
  "key_map_of (db\<lparr>db_keys := sql_delete (\<lambda>k. k_fingerprint k = fp) (db_keys db)\<rparr>) = (key_map_of db)(fp := None)"
  by (auto simp: key_map_of_def keyByFingerprint_def fun_eq_iff sql_get_delete_key)

lemma key_map_insert:
  "keyByFingerprint db (k_fingerprint r) = None \<Longrightarrow>
   key_map_of (db\<lparr>db_keys := db_keys db @ [r]\<rparr>) = (key_map_of db)(k_fingerprint r \<mapsto> (k_identity r, k_status r))"
  by (auto simp: key_map_of_def keyByFingerprint_def fun_eq_iff sql_get_append split: option.split)

definition superseded_db ::
  "secs \<Rightarrow> (nat \<Rightarrow> string) \<Rightarrow> agents_db \<Rightarrow> string \<Rightarrow> string \<Rightarrow> string \<Rightarrow> agents_db \<times> nat" where
  "superseded_db t uuid db identity fingerprint actor =
     (case pendingKey db identity of
        None \<Rightarrow> (db, 0)
      | Some superseded \<Rightarrow>
          (appendEvent t (uuid 0)
             (db\<lparr>db_keys := sql_delete (\<lambda>k. k_fingerprint k = k_fingerprint superseded) (db_keys db)\<rparr>)
             identity (k_fingerprint superseded) ASuperseded (Some fingerprint) actor, 1))"

definition new_key :: "secs \<Rightarrow> string \<Rightarrow> string \<Rightarrow> string \<Rightarrow> key_row" where
  "new_key t fp identity pk =
     \<lparr>k_fingerprint = fp, k_identity = identity, k_public_key = pk, k_status = Pending,
      k_proposed_at = t, k_decided_at = None, k_decided_by = None\<rparr>"

lemma proposeKey_new:
  assumes "keyByFingerprint db (fpf pk) = None"
  shows "proposeKey fpf t uuid db i pk ac =
     (let (db1, n) = superseded_db t uuid db i (fpf pk) ac
      in Inr (\<lparr>pr_fingerprint = fpf pk, pr_status = Pending, pr_created = True\<rparr>,
              appendEvent t (uuid n) (db1\<lparr>db_keys := db_keys db1 @ [new_key t (fpf pk) i pk]\<rparr>)
                i (fpf pk) AProposed None ac))"
  using assms by (simp add: proposeKey_def superseded_db_def new_key_def Let_def)

lemma new_key_simps [simp]:
  "k_fingerprint (new_key t fp i pk) = fp" "k_identity (new_key t fp i pk) = i"
  "k_status (new_key t fp i pk) = Pending" "k_public_key (new_key t fp i pk) = pk"
  by (simp_all add: new_key_def)

lemma superseded_db_simps:
  assumes "superseded_db t uuid db i fp ac = (db1, n)"
  shows "db_keys db1 = (case pendingKey db i of None \<Rightarrow> db_keys db
           | Some s \<Rightarrow> sql_delete (\<lambda>k. k_fingerprint k = k_fingerprint s) (db_keys db))"
    and "db_agents db1 = db_agents db"
  using assms by (auto simp: superseded_db_def split: option.splits)

lemma logged_superseded:
  assumes "keys_ok db" "superseded_db t uuid db i fp ac = (db1, n)"
  shows "logged db db1"
proof (cases "pendingKey db i")
  case None
  with assms show ?thesis by (simp add: superseded_db_def logged_refl)
next
  case (Some s)
  let ?e = "\<lparr>ke_id = uuid 0, ke_identity = i, ke_fingerprint = k_fingerprint s, ke_action = ASuperseded,
    ke_reason = Some fp, ke_actor = Some ac, ke_occurred_at = t\<rparr>"
  have "db_key_events db1 = db_key_events db @ [?e]"
    using assms Some by (auto simp: superseded_db_def appendEvent_def)
  moreover have "key_map_of db1 = foldl replay_event (key_map_of db) [?e]"
    using assms Some by (auto simp: superseded_db_def key_map_delete replay_event_def)
  ultimately show ?thesis unfolding logged_def by blast
qed

lemma superseded_none_pending:
  assumes "keys_ok db" "superseded_db t uuid db i fp ac = (db1, n)"
  shows "keys_ok db1" "pendingKey db1 i = None"
    and "keyByFingerprint db fp = None \<Longrightarrow> keyByFingerprint db1 fp = None"
proof -
  have uniq: "x = y" if "x \<in> set (db_keys db)" "y \<in> set (db_keys db)"
    "k_status x = Pending" "k_status y = Pending" "k_identity x = k_identity y" for x y
    using assms that unfolding keys_ok_def keys_tab_def by (blast dest: sql_unique_whereD)
  show "keys_ok db1"
    using assms superseded_db_simps(1) [OF assms(2)]
    by (auto simp: keys_ok_def keys_tab_delete split: option.splits)
  show "pendingKey db1 i = None"
    using assms superseded_db_simps(1) [OF assms(2)]
    by (cases "pendingKey db i")
      (auto simp: pendingKey_None_iff pendingKey_Some_iff sql_simps dest: uniq)
  show "keyByFingerprint db1 fp = None" if "keyByFingerprint db fp = None"
    using that superseded_db_simps(1) [OF assms(2)]
    by (auto simp: keyByFingerprint_None_iff sql_simps split: option.splits)
qed

lemma proposeKey_ok:
  assumes "keys_ok db" "proposeKey fpf t uuid db i pk ac = Inr (res, db')"
  shows "keys_ok db'" and "logged db db'"
proof -
  have "keys_ok db' \<and> logged db db'"
  proof (cases "keyByFingerprint db (fpf pk)")
    case (Some k)
    with assms show ?thesis
      by (auto simp: proposeKey_def Let_def logged_refl split: if_splits)
  next
    case None
    obtain db1 n where s: "superseded_db t uuid db i (fpf pk) ac = (db1, n)" by force
    let ?db2 = "db1\<lparr>db_keys := db_keys db1 @ [new_key t (fpf pk) i pk]\<rparr>"
    let ?e = "\<lparr>ke_id = uuid n, ke_identity = i, ke_fingerprint = fpf pk, ke_action = AProposed,
      ke_reason = None, ke_actor = Some ac, ke_occurred_at = t\<rparr>"
    have db': "db' = appendEvent t (uuid n) ?db2 i (fpf pk) AProposed None ac"
      using assms(2) None s by (simp add: proposeKey_new)
    have none: "keyByFingerprint db1 (fpf pk) = None"
      using superseded_none_pending(3) [OF assms(1) s None] .
    have "keys_ok ?db2"
      using superseded_none_pending [OF assms(1) s] none
      by (auto simp: keys_ok_def pendingKey_None_iff keyByFingerprint_None_iff intro!: keys_tab_append)
    moreover have "key_map_of db' = foldl replay_event (key_map_of db1) [?e]"
      using none by (simp add: db' key_map_insert replay_event_def)
    moreover have "db_key_events db' = db_key_events db1 @ [?e]"
      by (simp add: db' appendEvent_def)
    ultimately have "keys_ok db'" "logged db1 db'"
      unfolding logged_def by (auto simp: db')
    with logged_superseded [OF assms(1) s] show ?thesis by (blast intro: logged_trans)
  qed
  then show "keys_ok db'" "logged db db'" by simp_all
qed

section \<open>Deciding\<close>

lemma requireKey_Inr:
  "requireKey db fp sts = Inr row \<longleftrightarrow> keyByFingerprint db fp = Some row \<and> k_status row \<in> set sts"
  by (auto simp: requireKey_def split: option.splits if_splits)

lemma approveKey_cases:
  assumes "approveKey t uuid db fp ac = Inr (k, db')"
  obtains row where "keyByFingerprint db fp = Some row" "k_status row = Pending"
    "approvedKey db (k_identity row) = None"
    "db' = appendEvent t (uuid 0) (decideKey t db fp Approved ac) (k_identity row) fp AApproved None ac"
  | row inc where "keyByFingerprint db fp = Some row" "k_status row = Pending"
    "approvedKey db (k_identity row) = Some inc"
    "db' = appendEvent t (uuid 1)
       (decideKey t (appendEvent t (uuid 0) (decideKey t db (k_fingerprint inc) Revoked ac)
          (k_identity row) (k_fingerprint inc) ARevoked (Some ''rotation'') ac) fp Approved ac)
       (k_identity row) fp AApproved None ac"
  using assms unfolding approveKey_def
  by (auto simp: Let_def requireKey_Inr split: sum.splits option.splits prod.splits)

lemma denyKey_Inr:
  "denyKey t uuid db fp ac r = Inr (k, db') \<longleftrightarrow>
     (\<exists>row. keyByFingerprint db fp = Some row \<and> k_status row = Pending \<and> k = keyByFingerprint db' fp \<and>
        db' = appendEvent t (uuid 0) (decideKey t db fp Denied ac) (k_identity row) fp ADenied r ac)"
  by (auto simp: denyKey_def Let_def requireKey_def split: option.splits if_splits)

lemma revokeKey_Inr:
  "revokeKey t uuid db fp ac r = Inr (k, db') \<longleftrightarrow>
     (\<exists>row. keyByFingerprint db fp = Some row \<and> (k_status row = Approved \<or> k_status row = Pending) \<and>
        k = keyByFingerprint db' fp \<and>
        db' = appendEvent t (uuid 0) (decideKey t db fp Revoked ac) (k_identity row) fp ARevoked (Some r) ac)"
  by (auto simp: revokeKey_def Let_def requireKey_def split: option.splits if_splits)

text \<open>The state after the incumbent has been revoked, the middle of a rotation.\<close>

lemma incumbent_facts:
  assumes ok: "keys_ok db" and row: "keyByFingerprint db fp = Some row" "k_status row = Pending"
    and inc: "approvedKey db (k_identity row) = Some inc"
  shows "keyByFingerprint db (k_fingerprint inc) = Some inc" "k_identity inc = k_identity row"
    "k_fingerprint inc \<noteq> fp" "k_status inc = Approved"
    "keys_ok (decideKey t db (k_fingerprint inc) Revoked ac)"
    "approvedKey (decideKey t db (k_fingerprint inc) Revoked ac) (k_identity row) = None"
    "keyByFingerprint (decideKey t db (k_fingerprint inc) Revoked ac) fp = Some row"
proof -
  from inc have i: "inc \<in> set (db_keys db)" "k_identity inc = k_identity row" "k_status inc = Approved"
    by (simp_all add: approvedKey_Some_iff [OF ok])
  show "k_identity inc = k_identity row" "k_status inc = Approved" using i by simp_all
  show byfp: "keyByFingerprint db (k_fingerprint inc) = Some inc"
    using i by (simp add: keyByFingerprint_Some_iff [OF ok])
  show ne: "k_fingerprint inc \<noteq> fp" using byfp row i by auto
  show ok': "keys_ok (decideKey t db (k_fingerprint inc) Revoked ac)"
    using ok by (simp add: keys_ok_retire)
  show "keyByFingerprint (decideKey t db (k_fingerprint inc) Revoked ac) fp = Some row"
    using row ne keyByFingerprint_fp [OF row(1)] by (simp add: keyByFingerprint_decide)
  have "x = inc" if "x \<in> set (db_keys db)" "k_identity x = k_identity row" "k_status x = Approved" for x
    using that inc approvedKey_Some_iff [OF ok] by (metis option.inject)
  then show "approvedKey (decideKey t db (k_fingerprint inc) Revoked ac) (k_identity row) = None"
    by (auto simp: approvedKey_None_iff decideKey_def sql_simps)
qed

lemma approveKey_ok:
  assumes ok: "keys_ok db" and "approveKey t uuid db fp ac = Inr (k, db')"
  shows "keys_ok db'" and "logged db db'"
proof -
  have "keys_ok db' \<and> logged db db'"
    using assms(2)
  proof (cases rule: approveKey_cases)
    case (1 row)
    with ok show ?thesis by (simp add: keys_ok_approve logged_decide)
  next
    case (2 row inc)
    note f = incumbent_facts [OF ok 2(1-3)]
    let ?m = "appendEvent t (uuid 0) (decideKey t db (k_fingerprint inc) Revoked ac)
      (k_identity row) (k_fingerprint inc) ARevoked (Some ''rotation'') ac"
    have "logged db ?m" using logged_decide [OF f(1), of ARevoked Revoked] f(2) by simp
    moreover have m: "keyByFingerprint ?m fp = Some row" using f(7) by simp
    have "logged ?m db'" unfolding 2(4) by (rule logged_decide [OF m]) simp
    moreover have "keys_ok db'"
      unfolding 2(4) using f(5,6) m by (simp add: keys_ok_approve)
    ultimately show ?thesis by (blast intro: logged_trans)
  qed
  then show "keys_ok db'" "logged db db'" by simp_all
qed

lemma denyKey_ok:
  "keys_ok db \<Longrightarrow> denyKey t uuid db fp ac r = Inr (k, db') \<Longrightarrow> keys_ok db' \<and> logged db db'"
  by (auto simp: denyKey_Inr keys_ok_retire logged_decide)

lemma revokeKey_ok:
  "keys_ok db \<Longrightarrow> revokeKey t uuid db fp ac r = Inr (k, db') \<Longrightarrow> keys_ok db' \<and> logged db db'"
  by (auto simp: revokeKey_Inr keys_ok_retire logged_decide)

section \<open>Tearing down\<close>

lemma replay_teardown:
  "foldl replay_event m (map (\<lambda>(n, fp). \<lparr>ke_id = uuid n, ke_identity = i, ke_fingerprint = fp,
       ke_action = ARevoked, ke_reason = r, ke_actor = ac, ke_occurred_at = t\<rparr>) (enumerate k fps)) =
   (\<lambda>fp. if fp \<in> set fps then Some (i, Revoked) else m fp)"
  by (induction fps arbitrary: m k) (auto simp: replay_event_def fun_eq_iff)

lemma teardown_cases:
  assumes "teardownIdentity t uuid db i ac = (res, db')"
  obtains "db' = db" "td_revoked res = []"
      "agent_at db i = None \<or> (\<exists>a. agent_at db i = Some a \<and> ag_deleted_at a \<noteq> None)"
  | a where "agent_at db i = Some a" "ag_deleted_at a = None"
      "td_revoked res = map k_fingerprint (sql_where (live_key i) (db_keys db))"
      "db_keys db' = sql_update (live_key i) (\<lambda>k. k\<lparr>k_status := Revoked, k_decided_at := Some t\<rparr>) (db_keys db)"
      "db_key_events db' = db_key_events db @ teardown_events t uuid i ac (td_revoked res)"
      "db_agents db' = sql_update (\<lambda>a. ag_identity a = i \<and> ag_deleted_at a = None)
         (\<lambda>a. a\<lparr>ag_deleted_at := Some t\<rparr>) (db_agents db)"
  using assms unfolding teardownIdentity_def
  by (auto simp: Let_def agent_at_def split: option.splits if_splits)

lemma keyByFingerprint_revoke_live:
  "sql_get (\<lambda>k. k_fingerprint k = fp)
     (sql_update (live_key i) (\<lambda>k. k\<lparr>k_status := Revoked, k_decided_at := Some t\<rparr>) K) =
   map_option (\<lambda>k. if live_key i k then k\<lparr>k_status := Revoked, k_decided_at := Some t\<rparr> else k)
     (sql_get (\<lambda>k. k_fingerprint k = fp) K)"
  by (rule sql_get_update_key) simp

lemma key_map_teardown:
  assumes ok: "keys_ok db"
    and K: "db_keys db' = sql_update (live_key i) (\<lambda>k. k\<lparr>k_status := Revoked, k_decided_at := Some t\<rparr>) (db_keys db)"
  shows "key_map_of db' = (\<lambda>fp. if fp \<in> set (map k_fingerprint (sql_where (live_key i) (db_keys db)))
           then Some (i, Revoked) else key_map_of db fp)"
proof
  fix fp
  show "key_map_of db' fp = (if fp \<in> set (map k_fingerprint (sql_where (live_key i) (db_keys db)))
      then Some (i, Revoked) else key_map_of db fp)"
  proof (cases "keyByFingerprint db fp")
    case None
    then have "fp \<notin> k_fingerprint ` {x \<in> set (db_keys db). live_key i x}"
      by (auto simp: keyByFingerprint_None_iff)
    with None show ?thesis
      by (simp add: key_map_of_def keyByFingerprint_def K keyByFingerprint_revoke_live set_sql_where)
  next
    case (Some k)
    then have k: "k \<in> set (db_keys db)" "k_fingerprint k = fp"
      by (simp_all add: keyByFingerprint_Some_iff [OF ok])
    have "x = k" if "x \<in> set (db_keys db)" "k_fingerprint x = fp" for x
      using ok k that unfolding keys_ok_def keys_tab_def by (blast dest: sql_unique_eqD)
    then have "fp \<in> k_fingerprint ` {x \<in> set (db_keys db). live_key i x} \<longleftrightarrow> live_key i k"
      using k by blast
    moreover have "live_key i k \<Longrightarrow> k_identity k = i" by (simp add: live_key_def)
    ultimately show ?thesis
      using Some by (auto simp: key_map_of_def keyByFingerprint_def K keyByFingerprint_revoke_live set_sql_where)
  qed
qed

lemma teardown_ok:
  assumes ok: "keys_ok db" and td: "teardownIdentity t uuid db i ac = (res, db')"
  shows "keys_ok db'" and "logged db db'"
proof -
  have "keys_ok db' \<and> logged db db'"
    using td
  proof (cases rule: teardown_cases)
    case 1
    with ok show ?thesis by (simp add: logged_refl)
  next
    case (2 a)
    have "key_map_of db' = foldl replay_event (key_map_of db) (teardown_events t uuid i ac (td_revoked res))"
      unfolding teardown_events_def replay_teardown
      using key_map_teardown [OF ok 2(4)] unfolding 2(3) by simp
    then have "logged db db'" using 2(5) unfolding logged_def by blast
    moreover have "keys_ok db'"
      using ok by (auto simp: keys_ok_def 2(4) live_key_def intro!: keys_tab_retire)
    ultimately show ?thesis by simp
  qed
  then show "keys_ok db'" "logged db db'" by simp_all
qed

lemma teardown_no_live:
  assumes td: "teardownIdentity t uuid db i ac = (res, db')" and "td_action res = SoftDeleted"
  shows "\<forall>k\<in>set (db_keys db'). k_identity k = i \<longrightarrow> k_status k = Denied \<or> k_status k = Revoked"
proof -
  have K: "db_keys db' = sql_update (live_key i) (\<lambda>k. k\<lparr>k_status := Revoked, k_decided_at := Some t\<rparr>) (db_keys db)"
    using assms by (auto simp: teardownIdentity_def Let_def split: option.splits if_splits)
  have "k_identity k = i \<longrightarrow> k_status k = Denied \<or> k_status k = Revoked" if "\<not> live_key i k" for k
    using that by (cases "k_status k") (auto simp: live_key_def)
  then show ?thesis unfolding K ball_sql_update by simp
qed

section \<open>Every run\<close>

lemma or_keep_cases: "or_keep s r = s \<or> (\<exists>a. r = Inr (a, or_keep s r))"
  by (cases "(s, r)" rule: or_keep.cases) auto

lemma key_step_ok:
  assumes ok: "keys_ok db"
  shows "keys_ok (key_step fpf db op) \<and> logged db (key_step fpf db op)"
proof (cases op)
  case (KPropose t uuid i pk ac)
  then show ?thesis
    using ok or_keep_cases [of db "proposeKey fpf t uuid db i pk ac"] proposeKey_ok [OF ok]
    by (auto simp: logged_refl)
next
  case (KApprove t uuid fp ac)
  then show ?thesis
    using ok or_keep_cases [of db "approveKey t uuid db fp ac"] approveKey_ok [OF ok]
    by (auto simp: logged_refl)
next
  case (KDeny t uuid fp ac r)
  then show ?thesis
    using ok or_keep_cases [of db "denyKey t uuid db fp ac r"] denyKey_ok [OF ok]
    by (auto simp: logged_refl)
next
  case (KRevoke t uuid fp ac r)
  then show ?thesis
    using ok or_keep_cases [of db "revokeKey t uuid db fp ac r"] revokeKey_ok [OF ok]
    by (auto simp: logged_refl)
next
  case (KTeardown t uuid i ac)
  then show ?thesis
    using teardown_ok [OF ok] by (cases "teardownIdentity t uuid db i ac") auto
qed

text \<open>The laws of \<open>machine\<close> for the key operations, under whatever fingerprint function.\<close>

interpretation keys: machine "key_step fpf" keys_ok for fpf
  by unfold_locales (simp add: key_step_ok)

definition key_run :: "(string \<Rightarrow> string) \<Rightarrow> secs \<Rightarrow> key_op list \<Rightarrow> agents_db" where
  "key_run fpf t ops = foldl (key_step fpf) (agents_db_init t) ops"

lemma key_run_ok: "keys_ok (key_run fpf t ops)"
  unfolding key_run_def by (rule keys.run_invar) (rule keys_ok_init)

lemma key_run_snoc: "key_run fpf t (ops @ [op]) = key_step fpf (key_run fpf t ops) op"
  by (simp add: key_run_def)

text \<open>
  C11: The event table is the key table's complete history. After any sequence of proposals,
  approvals, denials, revocations and teardowns from a fresh database, replaying the logged events
  in order gives exactly the holder and the status of every fingerprint in the key table.
\<close>
theorem key_table_is_replay_of_events:
  "key_map_of (key_run fpf t ops) = foldl replay_event Map.empty (db_key_events (key_run fpf t ops))"
proof (induction ops rule: rev_induct)
  case Nil
  show ?case by (simp add: key_run_def key_map_of_def keyByFingerprint_def fun_eq_iff)
next
  case (snoc op ops)
  have "logged (key_run fpf t ops) (key_run fpf t (ops @ [op]))"
    unfolding key_run_snoc using key_run_ok key_step_ok by blast
  with snoc show ?case unfolding logged_def by auto
qed

section \<open>The transition relation\<close>

inductive key_transition :: "(string \<times> key_status) option \<Rightarrow> (string \<times> key_status) option \<Rightarrow> bool" where
  kt_propose: "key_transition None (Some (i, Pending))"
| kt_supersede: "key_transition (Some (i, Pending)) None"
| kt_approve: "key_transition (Some (i, Pending)) (Some (i, Approved))"
| kt_deny: "key_transition (Some (i, Pending)) (Some (i, Denied))"
| kt_withdraw: "key_transition (Some (i, Pending)) (Some (i, Revoked))"
| kt_revoke: "key_transition (Some (i, Approved)) (Some (i, Revoked))"

inductive_cases key_transition_from: "key_transition (Some (i, st)) x"
inductive_simps key_transition_Some: "key_transition (Some (i, st)) x"
inductive_simps key_transition_None: "key_transition None x"

lemmas key_transition_simps = key_transition_Some key_transition_None

lemma key_map_of_Some: "keyByFingerprint db fp = Some k \<Longrightarrow> key_map_of db fp = Some (k_identity k, k_status k)"
  by (simp add: key_map_of_def)

lemma propose_transition:
  assumes ok: "keys_ok db" and p: "proposeKey fpf t uuid db i pk ac = Inr (res, db')"
  shows "key_transition\<^sup>=\<^sup>= (key_map_of db fp) (key_map_of db' fp)"
proof (cases "keyByFingerprint db (fpf pk)")
  case (Some k)
  with p show ?thesis by (auto simp: proposeKey_def Let_def split: if_splits)
next
  case None
  obtain db1 n where s: "superseded_db t uuid db i (fpf pk) ac = (db1, n)" by force
  have none: "keyByFingerprint db1 (fpf pk) = None"
    using superseded_none_pending(3) [OF ok s None] .
  have db': "key_map_of db' = (key_map_of db1)(fpf pk \<mapsto> (i, Pending))"
    using p None s none by (auto simp: proposeKey_new key_map_insert)
  show ?thesis
  proof (cases "pendingKey db i")
    case None
    with s db' \<open>keyByFingerprint db (fpf pk) = None\<close> show ?thesis
      by (auto simp: superseded_db_def key_transition_simps key_map_of_def)
  next
    case (Some q)
    then have q: "keyByFingerprint db (k_fingerprint q) = Some q" "k_status q = Pending" "k_identity q = i"
      by (auto simp: pendingKey_Some_iff [OF ok] keyByFingerprint_Some_iff [OF ok])
    have "key_map_of db1 = (key_map_of db)(k_fingerprint q := None)"
      using s Some by (auto simp: superseded_db_def key_map_delete)
    moreover have "k_fingerprint q \<noteq> fpf pk" using q None by auto
    ultimately show ?thesis
      using db' None key_map_of_Some [OF q(1)] q
      by (auto simp: key_transition_simps key_map_of_def)
  qed
qed

lemma approve_transition:
  assumes ok: "keys_ok db" and a: "approveKey t uuid db fp ac = Inr (k, db')"
  shows "key_transition\<^sup>=\<^sup>= (key_map_of db fp') (key_map_of db' fp')"
  using a
proof (cases rule: approveKey_cases)
  case (1 row)
  then show ?thesis
    using key_map_of_Some [OF 1(1)] by (auto simp: key_map_decide key_transition_simps)
next
  case (2 row inc)
  note f = incumbent_facts [OF ok 2(1-3)]
  have "key_map_of db' = (key_map_of db)(k_fingerprint inc \<mapsto> (k_identity row, Revoked),
      fp \<mapsto> (k_identity row, Approved))"
    unfolding 2(4) using f(1,2,7) by (simp add: key_map_decide)
  then show ?thesis
    using key_map_of_Some [OF 2(1)] key_map_of_Some [OF f(1)] f(2-4) 2(2)
    by (auto simp: key_transition_simps)
qed

lemma decide_transition:
  assumes "keyByFingerprint db fp = Some k"
    and "key_transition (Some (k_identity k, k_status k)) (Some (k_identity k, st))"
  shows "key_transition\<^sup>=\<^sup>= (key_map_of db fp') (key_map_of (appendEvent t u (decideKey t db fp st ac) i f a r ac') fp')"
  using assms key_map_of_Some [OF assms(1)] by (auto simp: key_map_decide)

lemma teardown_transition:
  assumes ok: "keys_ok db" and td: "teardownIdentity t uuid db i ac = (res, db')"
  shows "key_transition\<^sup>=\<^sup>= (key_map_of db fp) (key_map_of db' fp)"
  using td
proof (cases rule: teardown_cases)
  case 1
  then show ?thesis by simp
next
  case (2 a)
  show ?thesis
  proof (cases "fp \<in> set (map k_fingerprint (sql_where (live_key i) (db_keys db)))")
    case True
    then obtain k where k: "k \<in> set (db_keys db)" "live_key i k" "k_fingerprint k = fp"
      by (auto simp: sql_simps)
    then have "key_map_of db fp = Some (i, k_status k)" "k_status k = Pending \<or> k_status k = Approved"
      using keyByFingerprint_Some_iff [OF ok, of fp k] by (auto simp: key_map_of_def live_key_def)
    then show ?thesis
      using True key_map_teardown [OF ok 2(4)] by (auto simp: key_transition_simps)
  next
    case False
    then show ?thesis using key_map_teardown [OF ok 2(4)] by auto
  qed
qed

lemma key_step_transition:
  assumes ok: "keys_ok db"
  shows "key_transition\<^sup>=\<^sup>= (key_map_of db fp) (key_map_of (key_step fpf db op) fp)"
proof (cases op)
  case (KPropose t uuid i pk ac)
  then show ?thesis
    using or_keep_cases [of db "proposeKey fpf t uuid db i pk ac"] propose_transition [OF ok]
    by (metis key_step.simps(1) sup2CI)
next
  case (KApprove t uuid f ac)
  then show ?thesis
    using or_keep_cases [of db "approveKey t uuid db f ac"] approve_transition [OF ok]
    by (metis key_step.simps(2) sup2CI)
next
  case (KDeny t uuid f ac r)
  then show ?thesis
    using or_keep_cases [of db "denyKey t uuid db f ac r"] decide_transition
    by (fastforce simp: denyKey_Inr key_transition_simps)
next
  case (KRevoke t uuid f ac r)
  then show ?thesis
    using or_keep_cases [of db "revokeKey t uuid db f ac r"] decide_transition
    by (fastforce simp: revokeKey_Inr key_transition_simps)
next
  case (KTeardown t uuid i ac)
  then show ?thesis
    using teardown_transition [OF ok] by (cases "teardownIdentity t uuid db i ac") auto
qed


lemma terminal_step:
  assumes "keys_ok db" "key_map_of db fp = Some (i, st)" "st = Denied \<or> st = Revoked"
  shows "key_map_of (key_step fpf db op) fp = Some (i, st)"
  using key_step_transition [OF assms(1), of fp fpf op] assms(2,3)
  by (auto simp: key_transition_simps)

text \<open>
  A denied or revoked key is dead for good. Whatever operations follow, with whatever actors,
  the fingerprint keeps its holder and its status, so it can never sign again.
\<close>
theorem dead_keys_stay_dead:
  assumes "key_map_of (key_run fpf t ops) fp = Some (i, st)" "st = Denied \<or> st = Revoked"
  shows "key_map_of (key_run fpf t (ops @ later)) fp = Some (i, st)"
proof -
  have "key_map_of (foldl (key_step fpf) (key_run fpf t ops) later) fp = Some (i, st)"
    using keys.run_stable [of "\<lambda>db. key_map_of db fp = Some (i, st)" fpf "key_run fpf t ops" later]
      terminal_step key_run_ok assms by blast
  then show ?thesis by (simp add: key_run_def)
qed

lemma dead_keys_stay_dead_witness:
  "key_map_of (key_run (\<lambda>pk. pk) 7
     ([KPropose 8 (\<lambda>n. ''u'') ''codex'' ''pk1'' ''codex'', KRevoke 9 (\<lambda>n. ''v'') ''pk1'' ''op'' ''stolen'']
      @ [KPropose 10 (\<lambda>n. ''w'') ''codex'' ''pk1'' ''codex'', KApprove 11 (\<lambda>n. ''x'') ''pk1'' ''op''])) ''pk1'' =
   Some (''codex'', Revoked)"
  by (rule dead_keys_stay_dead) code_simp+

section \<open>What the gate reads\<close>

lemma approvedKey_map:
  assumes "keys_ok db"
  shows "(\<exists>k. approvedKey db i = Some k \<and> k_fingerprint k = fp) \<longleftrightarrow> key_map_of db fp = Some (i, Approved)"
  using assms keyByFingerprint_Some_iff [OF assms, of fp]
  by (auto simp: approvedKey_Some_iff key_map_of_def)

lemma identityForFingerprint_map:
  "keys_ok db \<Longrightarrow> identityForFingerprint db fp = Some i \<longleftrightarrow> key_map_of db fp = Some (i, Approved)"
  by (simp add: identityForFingerprint_Some_iff approvedKey_map)

text \<open>
  The two directions a signature is resolved in agree. After any run, the identity that a
  fingerprint resolves to is the one identity whose approved key has that fingerprint, and every
  approved key is found from its fingerprint.
\<close>
theorem fingerprint_lookup_inverts_approved_key:
  "identityForFingerprint (key_run fpf t ops) fp = Some i \<longleftrightarrow>
     (\<exists>k. approvedKey (key_run fpf t ops) i = Some k \<and> k_fingerprint k = fp)"
  by (simp add: identityForFingerprint_map approvedKey_map key_run_ok)

lemma propose_map_same_approved:
  assumes ok: "keys_ok db" and p: "proposeKey fpf t uuid db i pk ac = Inr (res, db')"
  shows "key_map_of db' fp = Some (j, Approved) \<longleftrightarrow> key_map_of db fp = Some (j, Approved)"
proof (cases "keyByFingerprint db (fpf pk)")
  case (Some k)
  with p show ?thesis by (auto simp: proposeKey_def Let_def split: if_splits)
next
  case None
  obtain db1 n where s: "superseded_db t uuid db i (fpf pk) ac = (db1, n)" by force
  have none: "keyByFingerprint db1 (fpf pk) = None"
    using superseded_none_pending(3) [OF ok s None] .
  have m: "key_map_of db' = (key_map_of db1)(fpf pk \<mapsto> (i, Pending))"
    using p None s none by (auto simp: proposeKey_new key_map_insert)
  show ?thesis
  proof (cases "pendingKey db i")
    case None
    with s m \<open>keyByFingerprint db (fpf pk) = None\<close> show ?thesis
      by (auto simp: superseded_db_def key_map_of_def)
  next
    case (Some q)
    then have q: "key_map_of db (k_fingerprint q) = Some (k_identity q, Pending)"
      by (auto simp: key_map_of_def pendingKey_Some_iff [OF ok] keyByFingerprint_Some_iff [OF ok])
    have "key_map_of db1 = (key_map_of db)(k_fingerprint q := None)"
      using s Some by (auto simp: superseded_db_def key_map_delete)
    moreover have "key_map_of db (fpf pk) = None" using None by (simp add: key_map_of_def)
    ultimately show ?thesis using m q by auto
  qed
qed

text \<open>
  Proposing a key confers nothing. The set of approved keys, and so what each fingerprint
  resolves to for the signature gate, is the same after a proposal as before it, for every identity.
\<close>
theorem proposing_grants_nothing:
  assumes "proposeKey fpf' t' uuid (key_run fpf t ops) i pk ac = Inr (res, db')"
  shows "identityForFingerprint db' fp = identityForFingerprint (key_run fpf t ops) fp"
proof -
  have ok: "keys_ok db'" using proposeKey_ok [OF key_run_ok assms] by simp
  have "identityForFingerprint db' fp = Some j \<longleftrightarrow> identityForFingerprint (key_run fpf t ops) fp = Some j" for j
    using propose_map_same_approved [OF key_run_ok assms] identityForFingerprint_map [OF ok]
      identityForFingerprint_map [OF key_run_ok] by simp
  then show ?thesis by (metis option.exhaust)
qed

lemma proposing_grants_nothing_witness:
  "identityForFingerprint
     (snd (projr (proposeKey (\<lambda>pk. pk) 9 (\<lambda>n. ''w'')
        (key_run (\<lambda>pk. pk) 7 [KPropose 8 (\<lambda>n. ''u'') ''a'' ''k1'' ''a'', KApprove 8 (\<lambda>n. ''v'') ''k1'' ''op''])
        ''a'' ''k2'' ''a''))) ''k1'' =
   identityForFingerprint
     (key_run (\<lambda>pk. pk) 7 [KPropose 8 (\<lambda>n. ''u'') ''a'' ''k1'' ''a'', KApprove 8 (\<lambda>n. ''v'') ''k1'' ''op'']) ''k1''"
proof -
  let ?r = "proposeKey (\<lambda>pk. pk) 9 (\<lambda>n. ''w'')
        (key_run (\<lambda>pk. pk) 7 [KPropose 8 (\<lambda>n. ''u'') ''a'' ''k1'' ''a'', KApprove 8 (\<lambda>n. ''v'') ''k1'' ''op''])
        ''a'' ''k2'' ''a''"
  have "\<not> isl ?r" by code_simp
  then obtain res db' where r: "?r = Inr (res, db')" by (cases ?r) auto
  show ?thesis unfolding r sum.sel snd_conv by (rule proposing_grants_nothing [OF r])
qed

section \<open>Rotation\<close>

text \<open>
  Approving a key makes it the identity's one key in the same step that retires the old one.
  Afterwards the identity's approved key is the one approved; any key that was approved before is
  revoked, with a logged event whose reason is rotation; no other identity's keys are touched.
\<close>
theorem approving_rotates:
  assumes a: "approveKey t' uuid (key_run fpf t ops) fp ac = Inr (k, db')"
  shows "\<exists>i. key_map_of db' fp = Some (i, Approved) \<and>
     (\<forall>fp'. key_map_of db' fp' = (if fp' = fp then Some (i, Approved)
        else if key_map_of (key_run fpf t ops) fp' = Some (i, Approved) then Some (i, Revoked)
        else key_map_of (key_run fpf t ops) fp')) \<and>
     (\<forall>fp'. key_map_of (key_run fpf t ops) fp' = Some (i, Approved) \<longrightarrow>
        (\<exists>e\<in>set (db_key_events db'). ke_fingerprint e = fp' \<and> ke_identity e = i \<and>
           ke_action e = ARevoked \<and> ke_reason e = Some ''rotation''))"
  using a
proof (cases rule: approveKey_cases)
  case (1 row)
  have "key_map_of (key_run fpf t ops) fp' \<noteq> Some (k_identity row, Approved)" for fp'
    using approvedKey_map [OF key_run_ok, of fpf t ops "k_identity row" fp'] 1(3) by simp
  then show ?thesis
    unfolding 1(4) using 1(1) by (intro exI [of _ "k_identity row"]) (simp add: key_map_decide)
next
  case (2 row inc)
  let ?m = "key_map_of (key_run fpf t ops)"
  note f = incumbent_facts [OF key_run_ok 2(1-3)]
  have inc: "?m fp' = Some (k_identity row, Approved) \<longleftrightarrow> fp' = k_fingerprint inc" for fp'
    using approvedKey_map [OF key_run_ok, of fpf t ops "k_identity row" fp'] 2(3) by auto
  have m: "key_map_of db' = ?m(k_fingerprint inc \<mapsto> (k_identity row, Revoked), fp \<mapsto> (k_identity row, Approved))"
    unfolding 2(4) using f(1,2,7) by (simp add: key_map_decide)
  have e: "\<exists>e\<in>set (db_key_events db'). ke_fingerprint e = k_fingerprint inc \<and> ke_identity e = k_identity row \<and>
      ke_action e = ARevoked \<and> ke_reason e = Some ''rotation''"
    unfolding 2(4) by (simp add: appendEvent_def decideKey_def)
  show ?thesis
    using inc m e f(3) by (intro exI [of _ "k_identity row"]) auto
qed

lemma approving_rotates_witness:
  "\<exists>k db' i. approveKey 20 (\<lambda>n. ''w'')
      (key_run (\<lambda>pk. pk) 7 [KPropose 8 (\<lambda>n. ''u'') ''a'' ''k1'' ''a'', KApprove 8 (\<lambda>n. ''v'') ''k1'' ''op'',
         KPropose 9 (\<lambda>n. ''u'') ''a'' ''k2'' ''a'']) ''k2'' ''op'' = Inr (k, db') \<and>
    key_map_of db' ''k2'' = Some (i, Approved)"
proof -
  let ?r = "approveKey 20 (\<lambda>n. ''w'')
      (key_run (\<lambda>pk. pk) 7 [KPropose 8 (\<lambda>n. ''u'') ''a'' ''k1'' ''a'', KApprove 8 (\<lambda>n. ''v'') ''k1'' ''op'',
         KPropose 9 (\<lambda>n. ''u'') ''a'' ''k2'' ''a'']) ''k2'' ''op''"
  have "\<not> isl ?r" by code_simp
  then obtain k db' where r: "?r = Inr (k, db')" by (cases ?r) auto
  with approving_rotates [OF r] show ?thesis by blast
qed

section \<open>Teardown\<close>

text \<open>
  Tearing an identity down leaves it no live key and is idempotent. After a teardown that
  deleted the identity every key it holds is denied or revoked, and tearing it down again changes
  nothing and says so, with the time of the first deletion.
\<close>
theorem teardown_is_final_and_idempotent:
  assumes "teardownIdentity t uuid db i ac = (res, db')" "td_action res = SoftDeleted"
  shows "(\<forall>k\<in>set (db_keys db'). k_identity k = i \<longrightarrow> k_status k = Denied \<or> k_status k = Revoked) \<and>
     teardownIdentity t2 uuid2 db' i ac2 =
       (\<lparr>td_identity = i, td_action = AlreadyDeleted, td_deletedAt = Some t, td_revoked = []\<rparr>, db')"
proof -
  have "\<exists>a. agent_at db i = Some a \<and> ag_deleted_at a = None \<and>
      db_agents db' = sql_update (\<lambda>a. ag_identity a = i \<and> ag_deleted_at a = None)
         (\<lambda>a. a\<lparr>ag_deleted_at := Some t\<rparr>) (db_agents db)"
    using assms by (auto simp: teardownIdentity_def agent_at_def Let_def split: option.splits if_splits)
  then have "\<exists>a. agent_at db' i = Some a \<and> ag_deleted_at a = Some t"
    by (auto simp: agent_at_def sql_get_update_key dest: sql_get_SomeD)
  then show ?thesis
    using teardown_no_live [OF assms] by (auto simp: teardownIdentity_def agent_at_def)
qed

lemma teardown_is_final_and_idempotent_witness:
  "\<exists>res db'. teardownIdentity 20 (\<lambda>n. ''w'')
     ((key_run (\<lambda>pk. pk) 7 [KPropose 8 (\<lambda>n. ''u'') ''a'' ''k1'' ''a'', KApprove 8 (\<lambda>n. ''v'') ''k1'' ''op''])
        \<lparr>db_agents := [\<lparr>ag_identity = ''a'', ag_description = None, ag_last_seen = None, ag_type = None,
           ag_created_at = Some 1, ag_deleted_at = None, ag_can_proxy = 0, ag_tenant = ''default'',
           ag_last_send_at = None\<rparr>]\<rparr>) ''a'' ''op'' = (res, db') \<and> td_revoked res = [''k1''] \<and>
   teardownIdentity 30 (\<lambda>n. ''x'') db' ''a'' ''op2'' =
     (\<lparr>td_identity = ''a'', td_action = AlreadyDeleted, td_deletedAt = Some 20, td_revoked = []\<rparr>, db')"
proof -
  let ?r = "teardownIdentity 20 (\<lambda>n. ''w'')
     ((key_run (\<lambda>pk. pk) 7 [KPropose 8 (\<lambda>n. ''u'') ''a'' ''k1'' ''a'', KApprove 8 (\<lambda>n. ''v'') ''k1'' ''op''])
        \<lparr>db_agents := [\<lparr>ag_identity = ''a'', ag_description = None, ag_last_seen = None, ag_type = None,
           ag_created_at = Some 1, ag_deleted_at = None, ag_can_proxy = 0, ag_tenant = ''default'',
           ag_last_send_at = None\<rparr>]\<rparr>) ''a'' ''op''"
  obtain res db' where r: "?r = (res, db')" by (cases ?r)
  have "td_action (fst ?r) = SoftDeleted" "td_revoked (fst ?r) = [''k1'']" by code_simp+
  then show ?thesis using teardown_is_final_and_idempotent [OF r] r by auto
qed

end
