(* ===== verification/Hub_Provision.thy ===== *)
theory Hub_Provision
  imports Hub_Signed Key_Lifecycle
begin

text \<open>
  Provisioning over HTTP: \<open>packages/hub/src/rest/agents.ts\<close>, with the statements of \<open>db.ts\<close> that it
  writes with and the proxies that a deployment declares.

  A request is the text of its body. A refusal is the left value of a stage, as the code returns a
  \<open>Response\<close> from it. The pattern of a public key, the fingerprint of one and the error codes come from
  the \<open>contracts\<close> package and are parameters.

  The lemmas: which rows a request can touch and how, that a torn down identity is never revived, that
  the route never grants the right to speak for others, and what it can take away.
\<close>

section \<open>Statements\<close>

definition new_agent :: "secs \<Rightarrow> string \<Rightarrow> string \<Rightarrow> string option \<Rightarrow> agent_row" where
  "new_agent t identity ty description =
     \<lparr>ag_identity = identity, ag_description = description, ag_last_seen = None, ag_type = Some ty,
      ag_created_at = Some t, ag_deleted_at = None, ag_can_proxy = 0, ag_tenant = DEFAULT_TENANT,
      ag_last_send_at = None\<rparr>"

definition stmtInsertAgentIfAbsent ::
  "secs \<Rightarrow> agents_db \<Rightarrow> string \<Rightarrow> string \<Rightarrow> string option \<Rightarrow> nat \<times> agents_db" where
  "stmtInsertAgentIfAbsent t db identity ty description =
     ((if sql_exists (\<lambda>a. ag_identity a = identity) (db_agents db) then 0 else 1),
      db\<lparr>db_agents := sql_insert_ignore ag_identity (new_agent t identity ty description) (db_agents db)\<rparr>)"

definition stmtUpsertAgentTyped ::
  "secs \<Rightarrow> agents_db \<Rightarrow> string \<Rightarrow> string \<Rightarrow> string option \<Rightarrow> agents_db" where
  "stmtUpsertAgentTyped t db identity ty description =
     db\<lparr>db_agents := sql_upsert ag_identity (new_agent t identity ty description)
          (\<lambda>a. a\<lparr>ag_type := Some ty, ag_description := description\<rparr>) (db_agents db)\<rparr>"

definition stmtSelectAgent :: "agents_db \<Rightarrow> string \<Rightarrow> agent_row option" where
  "stmtSelectAgent db identity = sql_get (\<lambda>a. ag_identity a = identity) (db_agents db)"

definition stmtSetCanProxy :: "agents_db \<Rightarrow> int \<Rightarrow> string \<Rightarrow> agents_db" where
  "stmtSetCanProxy db flag identity =
     db\<lparr>db_agents := sql_update (\<lambda>a. ag_identity a = identity) (\<lambda>a. a\<lparr>ag_can_proxy := flag\<rparr>) (db_agents db)\<rparr>"

definition parseDeclaredProxies :: "string option \<Rightarrow> string list" where
  "parseDeclaredProxies raw = remdups (filter (\<lambda>s. s \<noteq> []) (map trim (split_on (CHR 0x2C) (coalesce raw []))))"

definition applyDeclaredProxy :: "string \<Rightarrow> string list \<Rightarrow> agents_db \<Rightarrow> agents_db" where
  "applyDeclaredProxy identity declared db =
     (if identity \<notin> set declared then db else stmtSetCanProxy db 1 identity)"

section \<open>Reading a request\<close>

record provision_request =
  pv_identity :: string
  pv_type :: string
  pv_description :: "string option"
  pv_publicKey :: "string option"
  pv_canProxy :: "bool option"
  pv_createOnly :: bool

definition identity_char :: "char \<Rightarrow> bool" where
  "identity_char c \<longleftrightarrow>
     (let n = of_char c :: nat in (48 \<le> n \<and> n \<le> 57) \<or> (65 \<le> n \<and> n \<le> 90) \<or> (97 \<le> n \<and> n \<le> 122))"

definition is_identity :: "string \<Rightarrow> bool" where
  "is_identity s \<longleftrightarrow>
     (case s of [] \<Rightarrow> False | c # r \<Rightarrow> identity_char c \<and> list_all (\<lambda>x. identity_char x \<or> x = CHR ''-'') r)"

definition MAX_DESCRIPTION_LEN :: nat where "MAX_DESCRIPTION_LEN = 256"

definition bad_request :: "int \<Rightarrow> string \<Rightarrow> response" where
  "bad_request status message = JsonResponse status (JObj [(''ok'', JBool False), (''error'', JStr message)])"

definition coded_error :: "int \<Rightarrow> string \<Rightarrow> string \<Rightarrow> string \<Rightarrow> response" where
  "coded_error status code identity message =
     JsonResponse status (JObj [(''ok'', JBool False), (''code'', JStr code), (''identity'', JStr identity),
                                (''error'', JStr message)])"

text \<open>The flag and the name: the checks up to the type.\<close>

definition provision_name :: "string \<Rightarrow> response + (json \<times> bool \<times> string \<times> string)" where
  "provision_name body =
     (case json_parse body of
        None \<Rightarrow> Inl (bad_request 400 ''invalid JSON body'')
      | Some b \<Rightarrow>
          if \<not> is_object b then Inl (bad_request 400 ''body must be a JSON object'')
          else if (case jget b ''create_only'' of None \<Rightarrow> False | Some (JBool c) \<Rightarrow> False | Some x \<Rightarrow> True) then
            Inl (bad_request 400 ''create_only must be a boolean'')
          else (case given_string (jget b ''identity'') of
                  None \<Rightarrow> Inl (bad_request 400 ''identity is required (string)'')
                | Some identity \<Rightarrow>
                    if \<not> is_identity identity then
                      Inl (bad_request 400 ''identity must match ^[A-Za-z0-9][A-Za-z0-9-]*$'')
                    else (case given_string (jget b ''type'') of
                            None \<Rightarrow> Inl (bad_request 400 ''type is required (string)'')
                          | Some ty \<Rightarrow> Inr (b, jget b ''create_only'' = Some (JBool True), identity, ty))))"

text \<open>A member that is null or missing, a string that passes, or a refusal.\<close>

definition provision_description :: "json \<Rightarrow> response + string option" where
  "provision_description b =
     (case or_else (jget b ''description'') JNull of
        JNull \<Rightarrow> Inr None
      | JStr d \<Rightarrow> if js_length d > MAX_DESCRIPTION_LEN
                 then Inl (bad_request 400 (''description exceeds '' @ int_text (int MAX_DESCRIPTION_LEN) @ '' chars''))
                 else Inr (Some d)
      | _ \<Rightarrow> Inl (bad_request 400 ''description must be a string''))"

definition provision_key :: "rest_contracts \<Rightarrow> agents_db \<Rightarrow> string \<Rightarrow> json \<Rightarrow> response + string option" where
  "provision_key rc db identity b =
     (let malformed = bad_request 400 ''public_key must be a raw Ed25519 key, base64url, 43 characters''
      in case or_else (jget b ''public_key'') JNull of
           JNull \<Rightarrow> Inr None
         | JStr k \<Rightarrow>
             if \<not> rc_public_key rc k then Inl malformed
             else (case fingerprintHolder db (rc_fingerprint rc k) of
                     None \<Rightarrow> Inr (Some k)
                   | Some holder \<Rightarrow>
                       if holder = identity then Inr (Some k)
                       else Inl (coded_error 409 (rc_KEY_HELD rc) identity
                                   ''that public key is already registered to a different identity''))
         | _ \<Rightarrow> Inl malformed)"

definition parseProvisionRequest ::
  "rest_contracts \<Rightarrow> agents_db \<Rightarrow> string \<Rightarrow> response + provision_request" where
  "parseProvisionRequest rc db body =
     (case provision_name body of
        Inl r \<Rightarrow> Inl r
      | Inr (b, createOnly, identity, ty) \<Rightarrow>
          (case getType db ty of
             None \<Rightarrow> Inl (bad_request 400 (''type must be one of: '' @ join_with '', '' (map ty_type (listTypes db))))
           | Some typeRow \<Rightarrow>
               if Option.bind (stmtSelectAgent db identity) ag_deleted_at \<noteq> None then
                 Inl (coded_error 409 (rc_IDENTITY_DELETED rc) identity
                        (''identity '' @ quoted identity @ '' was deleted and cannot be re-registered''))
               else (case provision_description b of
                       Inl r \<Rightarrow> Inl r
                     | Inr description \<Rightarrow>
                         (case provision_key rc db identity b of
                            Inl r \<Rightarrow> Inl r
                          | Inr publicKey \<Rightarrow>
                              if ty_requires_key typeRow = 1 \<and> publicKey = None \<and> approvedKey db identity = None \<and>
                                 pendingKey db identity = None then
                                Inl (bad_request 400 (''type '' @ quoted ty @ '' requires a signing key; supply public_key''))
                              else if \<not> nullish (jget b ''can_proxy'') then
                                Inl (JsonResponse 403 (JObj [(''ok'', JBool False),
                                  (''code'', JStr ''CAN_PROXY_NOT_SELF_GRANTED''),
                                  (''error'', JStr (''can_proxy cannot be set here '' @ utf8 0x2014 @
                                     '' this route is unauthenticated. '' @
                                     ''Use POST /api/v1/admin/agents/{identity}/can-proxy with an operator session (SPEC '' @
                                     utf8 0xA7 @ '' 8.2).''))]))
                              else Inr \<lparr>pv_identity = identity, pv_type = ty, pv_description = description,
                                        pv_publicKey = publicKey, pv_canProxy = None, pv_createOnly = createOnly\<rparr>))))"

section \<open>Writing\<close>

fun key_status_text :: "key_status \<Rightarrow> string" where
  "key_status_text Pending = ''pending''"
| "key_status_text Approved = ''approved''"
| "key_status_text Denied = ''denied''"
| "key_status_text Revoked = ''revoked''"

fun key_action_text :: "key_action \<Rightarrow> string" where
  "key_action_text AProposed = ''proposed''"
| "key_action_text AApproved = ''approved''"
| "key_action_text ADenied = ''denied''"
| "key_action_text ARevoked = ''revoked''"
| "key_action_text ASuperseded = ''superseded''"

text \<open>The ids of key events are drawn as they are needed, after those already written.\<close>

definition fresh_event_id :: "rest_env \<Rightarrow> agents_db \<Rightarrow> nat \<Rightarrow> string" where
  "fresh_event_id re db n = rv_key_event_id re (length (db_key_events db) + n)"

definition recordKey :: "rest_env \<Rightarrow> hub \<Rightarrow> provision_request \<Rightarrow> string + (json option \<times> hub)" where
  "recordKey re h r =
     (case pv_publicKey r of
        None \<Rightarrow> Inr (None, h)
      | Some pk \<Rightarrow>
          if pk = [] then Inr (None, h)
          else (case proposeKey (rc_fingerprint (rv_contracts re)) (now_secs (rv_env re)) (fresh_event_id re (h_agents h))
                       (h_agents h) (pv_identity r) pk ''api'' of
                  Inl (KeyOwnershipError fp) \<Rightarrow> Inl (''key '' @ fp @ '' is already registered to another identity'')
                | Inl e \<Rightarrow> Inl []
                | Inr (result, db) \<Rightarrow>
                    Inr (Some (JObj [(''fingerprint'', JStr (pr_fingerprint result)),
                                     (''status'', JStr (key_status_text (pr_status result)))]),
                         h\<lparr>h_agents := db\<rparr>)))"

text \<open>Whether the row was there already; or the answer to send back.\<close>

definition upsert :: "rest_env \<Rightarrow> hub \<Rightarrow> provision_request \<Rightarrow> (response + bool) \<times> hub" where
  "upsert re h r =
     (let t = now_secs (rv_env re); db = h_agents h
      in case rv_agents_error re of
           Some e \<Rightarrow> (Inl (bad_request 500 (''db error: '' @ e)), h)
         | None \<Rightarrow>
             if pv_createOnly r then
               (case stmtInsertAgentIfAbsent t db (pv_identity r) (pv_type r) (pv_description r) of
                  (changes, db1) \<Rightarrow>
                    if changes = 0 then
                      (Inl (coded_error 409 (rc_IDENTITY_EXISTS (rv_contracts re)) (pv_identity r)
                              (''identity '' @ quoted (pv_identity r) @ '' already exists'')), h)
                    else (Inr False, h\<lparr>h_agents := db1\<rparr>))
             else
               (let existed = stmtAgentExists db (pv_identity r);
                    previousType = (if existed then Option.bind (stmtSelectAgent db (pv_identity r)) ag_type else None);
                    db1 = stmtUpsertAgentTyped t db (pv_identity r) (pv_type r) (pv_description r);
                    db2 = (case pv_canProxy r of None \<Rightarrow> db1
                           | Some flag \<Rightarrow> stmtSetCanProxy db1 (if flag then 1 else 0) (pv_identity r));
                    db3 = applyDeclaredProxy (pv_identity r) (rv_declared re) db2
                in (Inr existed,
                    h\<lparr>h_agents := db3,
                      h_audit := (if existed \<and> previousType \<noteq> Some (pv_type r) then
                        recordIdentityEvent (rv_env re) (pv_identity r)
                          (JObj [(''from'', nullable previousType), (''to'', JStr (pv_type r))]) None (h_audit h)
                        else h_audit h)\<rparr>)))"

definition key_member :: "json option \<Rightarrow> (string \<times> json) list" where
  "key_member key = (case key of None \<Rightarrow> [] | Some k \<Rightarrow> [(''key'', k)])"

section \<open>The routes\<close>

definition handlePostAgents :: "rest_env \<Rightarrow> hub \<Rightarrow> string \<Rightarrow> response \<times> hub" where
  "handlePostAgents re h body =
     (case parseProvisionRequest (rv_contracts re) (h_agents h) body of
        Inl r \<Rightarrow> (r, h)
      | Inr p \<Rightarrow>
          (case upsert re h p of
             (Inl r, h1) \<Rightarrow> (r, h1)
           | (Inr existed, h1) \<Rightarrow>
               (case recordKey re h1 p of
                  Inl e \<Rightarrow> (ResponseThrew e, h1)
                | Inr (key, h2) \<Rightarrow>
                    (JsonResponse 200 (JObj ([(''ok'', JBool True), (''identity'', JStr (pv_identity p)),
                       (''type'', JStr (pv_type p)),
                       (''action'', JStr (if existed then ''updated'' else ''inserted''))] @ key_member key)), h2))))"

text \<open>\<open>strftime('%Y-%m-%dT%H:%M:%SZ', created_at)\<close>.\<close>

definition utc_text :: "secs \<Rightarrow> string" where
  "utc_text s = date_text s @ ''T'' @ time_text s @ ''Z''"

definition provisioned_json ::
  "agents_db \<Rightarrow> provision_request \<Rightarrow> bool \<Rightarrow> json option \<Rightarrow> json" where
  "provisioned_json db p existed key =
     (let row = stmtSelectAgent db (pv_identity p)
      in JObj ([(''ok'', JBool True),
           (''identity'', JStr (case row of None \<Rightarrow> pv_identity p | Some a \<Rightarrow> ag_identity a)),
           (''type'', JStr (coalesce (Option.bind row ag_type) (pv_type p))),
           (''description'', nullable (case Option.bind row ag_description of None \<Rightarrow> pv_description p | Some d \<Rightarrow> Some d)),
           (''created_at'', nullable (map_option utc_text (Option.bind row ag_created_at))),
           (''action'', JStr (if existed then ''updated'' else ''inserted''))] @ key_member key))"

definition handlePostAgentsV1 :: "rest_env \<Rightarrow> hub \<Rightarrow> string \<Rightarrow> response \<times> hub" where
  "handlePostAgentsV1 re h body =
     (case parseProvisionRequest (rv_contracts re) (h_agents h) body of
        Inl r \<Rightarrow> (r, h)
      | Inr p \<Rightarrow>
          (case upsert re h p of
             (Inl r, h1) \<Rightarrow> (r, h1)
           | (Inr existed, h1) \<Rightarrow>
               (case recordKey re h1 p of
                  Inl e \<Rightarrow> (ResponseThrew e, h1)
                | Inr (key, h2) \<Rightarrow>
                    (JsonResponse (if existed then 200 else 201) (provisioned_json (h_agents h1) p existed key), h2))))"

definition handleDeleteAgent :: "string \<Rightarrow> response" where
  "handleDeleteAgent identity =
     JsonResponse 403 (JObj [(''ok'', JBool False),
       (''error'', JStr (''teardown is not served by the hub '' @ utf8 0x2014 @ '' it cannot authenticate callers. '' @
          ''Use DELETE /api/v1/admin/agents/{identity} on agent-mesh-http with an admin session (SPEC '' @
          utf8 0xA7 @ '' 9.3).'')),
       (''code'', JStr ''TEARDOWN_REQUIRES_ADMIN'')])"

definition key_json :: "key_row \<Rightarrow> json" where
  "key_json k =
     JObj [(''fingerprint'', JStr (k_fingerprint k)), (''status'', JStr (key_status_text (k_status k))),
           (''proposed_at'', JStr (sql_time (k_proposed_at k))), (''decided_at'', time_json (k_decided_at k)),
           (''decided_by'', nullable (k_decided_by k))]"

definition key_event_json :: "key_event_row \<Rightarrow> json" where
  "key_event_json e =
     JObj [(''action'', JStr (key_action_text (ke_action e))), (''fingerprint'', JStr (ke_fingerprint e)),
           (''reason'', nullable (ke_reason e)), (''actor'', nullable (ke_actor e)),
           (''occurred_at'', JStr (sql_time (ke_occurred_at e)))]"

definition handleGetAgentKeys :: "agents_db \<Rightarrow> string \<Rightarrow> response" where
  "handleGetAgentKeys db identity =
     (if \<not> is_identity identity then bad_request 400 ''invalid identity format''
      else (case stmtSelectAgent db identity of
              None \<Rightarrow> bad_request 404 (''identity '' @ quoted identity @ '' is not registered'')
            | Some agent \<Rightarrow>
                JsonResponse 200 (JObj [(''ok'', JBool True), (''identity'', JStr identity),
                  (''type'', nullable (ag_type agent)), (''deleted'', JBool (ag_deleted_at agent \<noteq> None)),
                  (''key_status'', key_status_json (noKeyReason db identity)),
                  (''keys'', JArr (map key_json (listKeys db identity))),
                  (''events'', JArr (map key_event_json (listKeyEvents db identity)))])))"

section \<open>The rows\<close>

text \<open>The named row after a request that is carried out.\<close>

definition provisioned_row :: "rest_env \<Rightarrow> agents_db \<Rightarrow> provision_request \<Rightarrow> agent_row" where
  "provisioned_row re db p =
     (let declared = (pv_identity p \<in> set (rv_declared re))
      in case stmtSelectAgent db (pv_identity p) of
           None \<Rightarrow> (new_agent (now_secs (rv_env re)) (pv_identity p) (pv_type p) (pv_description p))
                     \<lparr>ag_can_proxy := (if declared \<and> \<not> pv_createOnly p then 1 else 0)\<rparr>
         | Some a \<Rightarrow> a\<lparr>ag_type := Some (pv_type p), ag_description := pv_description p,
                       ag_can_proxy := (if declared then 1 else ag_can_proxy a)\<rparr>)"

lemma agent_row_same [simp]: "(a :: agent_row)\<lparr>ag_can_proxy := ag_can_proxy a\<rparr> = a"
  by simp

lemma select_insert:
  "stmtSelectAgent (snd (stmtInsertAgentIfAbsent t db i ty d)) j =
     (if j = i \<and> stmtSelectAgent db i = None then Some (new_agent t i ty d) else stmtSelectAgent db j)"
proof -
  have "sql_exists (\<lambda>a. ag_identity a = i) (db_agents db) \<longleftrightarrow> sql_get (\<lambda>a. ag_identity a = i) (db_agents db) \<noteq> None"
    by (simp add: sql_exists_iff sql_get_None_iff)
  then show ?thesis
    by (auto simp: stmtInsertAgentIfAbsent_def stmtSelectAgent_def sql_insert_ignore_def new_agent_def
        sql_get_append split: option.split)
qed

lemma insert_changes: "fst (stmtInsertAgentIfAbsent t db i ty d) = 0 \<longleftrightarrow> stmtSelectAgent db i \<noteq> None"
  by (auto simp: stmtInsertAgentIfAbsent_def stmtSelectAgent_def sql_exists_iff sql_get_None_iff)

lemma select_upsert:
  "stmtSelectAgent (stmtUpsertAgentTyped t db i ty d) j =
     (if j = i then Some (case stmtSelectAgent db i of None \<Rightarrow> new_agent t i ty d
        | Some a \<Rightarrow> a\<lparr>ag_type := Some ty, ag_description := d\<rparr>) else stmtSelectAgent db j)"
proof -
  have "sql_get (\<lambda>a. ag_identity a = j) (sql_upsert ag_identity (new_agent t i ty d)
      (\<lambda>a. a\<lparr>ag_type := Some ty, ag_description := d\<rparr>) (db_agents db)) =
    (if j = ag_identity (new_agent t i ty d)
     then Some (case sql_get (\<lambda>a. ag_identity a = j) (db_agents db) of None \<Rightarrow> new_agent t i ty d
        | Some a \<Rightarrow> a\<lparr>ag_type := Some ty, ag_description := d\<rparr>)
     else sql_get (\<lambda>a. ag_identity a = j) (db_agents db))"
    by (rule sql_get_upsert) simp
  then show ?thesis by (simp add: stmtUpsertAgentTyped_def stmtSelectAgent_def new_agent_def)
qed

lemma select_set_can_proxy:
  "stmtSelectAgent (stmtSetCanProxy db f i) j =
     map_option (\<lambda>a. if j = i then a\<lparr>ag_can_proxy := f\<rparr> else a) (stmtSelectAgent db j)"
proof -
  have "sql_get (\<lambda>a. ag_identity a = j)
      (sql_update (\<lambda>a. ag_identity a = i) (\<lambda>a. a\<lparr>ag_can_proxy := f\<rparr>) (db_agents db)) =
    map_option (\<lambda>a. if ag_identity a = i then a\<lparr>ag_can_proxy := f\<rparr> else a)
      (sql_get (\<lambda>a. ag_identity a = j) (db_agents db))"
    by (rule sql_get_update_key) simp
  then show ?thesis
    by (cases "sql_get (\<lambda>a. ag_identity a = j) (db_agents db)")
      (auto simp: stmtSetCanProxy_def stmtSelectAgent_def dest: sql_get_SomeD)
qed

lemma select_declared:
  "stmtSelectAgent (applyDeclaredProxy i ds db) j =
     map_option (\<lambda>a. if j = i \<and> i \<in> set ds then a\<lparr>ag_can_proxy := 1\<rparr> else a) (stmtSelectAgent db j)"
  by (auto simp: applyDeclaredProxy_def select_set_can_proxy option.map_ident)

lemma provision_keys [simp]:
  "db_keys (snd (stmtInsertAgentIfAbsent t db i ty d)) = db_keys db"
  "db_keys (stmtUpsertAgentTyped t db i ty d) = db_keys db"
  "db_keys (applyDeclaredProxy i ds db) = db_keys db"
  "db_keys (stmtSetCanProxy db f i) = db_keys db"
  "db_types (snd (stmtInsertAgentIfAbsent t db i ty d)) = db_types db"
  "db_types (stmtUpsertAgentTyped t db i ty d) = db_types db"
  "db_types (applyDeclaredProxy i ds db) = db_types db"
  "db_types (stmtSetCanProxy db f i) = db_types db"
  by (simp_all add: stmtInsertAgentIfAbsent_def stmtUpsertAgentTyped_def applyDeclaredProxy_def stmtSetCanProxy_def)

text \<open>An upsert that answers has changed nothing; one that goes on has written the row.\<close>

lemma upsert_refused: "fst (upsert re h p) = Inl r \<Longrightarrow> snd (upsert re h p) = h"
  by (auto simp: upsert_def Let_def case_prod_beta split: option.splits if_splits)

lemma upsert_done:
  assumes "fst (upsert re h p) = Inr existed" "pv_canProxy p = None"
  shows "stmtSelectAgent (h_agents (snd (upsert re h p))) j =
      (if j = pv_identity p then Some (provisioned_row re (h_agents h) p) else stmtSelectAgent (h_agents h) j)"
    and "pv_createOnly p \<Longrightarrow> stmtSelectAgent (h_agents h) (pv_identity p) = None"
    and "db_keys (h_agents (snd (upsert re h p))) = db_keys (h_agents h)"
  using assms
  by (auto simp: upsert_def Let_def case_prod_beta select_insert insert_changes select_upsert select_declared
      provisioned_row_def new_agent_def option.map_ident split: option.splits if_splits)

lemma upsert_frame [simp]:
  "h_hub (snd (upsert re h p)) = h_hub h" "h_reminders (snd (upsert re h p)) = h_reminders h"
  "h_presence (snd (upsert re h p)) = h_presence h" "h_nonces (snd (upsert re h p)) = h_nonces h"
  "h_refusals (snd (upsert re h p)) = h_refusals h" "h_out (snd (upsert re h p)) = h_out h"
  "h_closing (snd (upsert re h p)) = h_closing h"
  "db_types (h_agents (snd (upsert re h p))) = db_types (h_agents h)"
  by (simp_all add: upsert_def Let_def case_prod_beta split: option.split)

section \<open>The requests\<close>

lemma parse_Inr:
  assumes "parseProvisionRequest rc db body = Inr p"
  shows "pv_canProxy p = None" "is_identity (pv_identity p)"
    and "Option.bind (stmtSelectAgent db (pv_identity p)) ag_deleted_at = None"
    and "\<exists>row. getType db (pv_type p) = Some row \<and> (ty_requires_key row = 1 \<longrightarrow>
      pv_publicKey p \<noteq> None \<or> approvedKey db (pv_identity p) \<noteq> None \<or> pendingKey db (pv_identity p) \<noteq> None)"
    and "\<And>pk. pv_publicKey p = Some pk \<Longrightarrow> rc_public_key rc pk \<and>
      (fingerprintHolder db (rc_fingerprint rc pk) = None \<or>
       fingerprintHolder db (rc_fingerprint rc pk) = Some (pv_identity p))"
proof -
  obtain b c i ty where n: "provision_name body = Inr (b, c, i, ty)"
    using assms by (auto simp: parseProvisionRequest_def split: sum.splits)
  then have i: "is_identity i"
    by (auto simp: provision_name_def split: option.splits if_splits)
  obtain row where row: "getType db ty = Some row"
    using assms n by (auto simp: parseProvisionRequest_def split: option.splits)
  obtain d k where d: "provision_description b = Inr d" and k: "provision_key rc db i b = Inr k"
    using assms n row by (auto simp: parseProvisionRequest_def split: option.splits if_splits sum.splits)
  have p: "p = \<lparr>pv_identity = i, pv_type = ty, pv_description = d, pv_publicKey = k, pv_canProxy = None, pv_createOnly = c\<rparr>"
    and del: "Option.bind (stmtSelectAgent db i) ag_deleted_at = None"
    and req: "\<not> (ty_requires_key row = 1 \<and> k = None \<and> approvedKey db i = None \<and> pendingKey db i = None)"
    using assms n row d k by (simp_all add: parseProvisionRequest_def split: if_splits)
  have pk: "rc_public_key rc pk \<and>
      (fingerprintHolder db (rc_fingerprint rc pk) = None \<or> fingerprintHolder db (rc_fingerprint rc pk) = Some i)"
    if "k = Some pk" for pk
    using k that by (auto simp: provision_key_def Let_def split: json.splits option.splits if_splits)
  show "pv_canProxy p = None" "is_identity (pv_identity p)"
    "Option.bind (stmtSelectAgent db (pv_identity p)) ag_deleted_at = None" using p i del by simp_all
  show "\<exists>row. getType db (pv_type p) = Some row \<and> (ty_requires_key row = 1 \<longrightarrow>
      pv_publicKey p \<noteq> None \<or> approvedKey db (pv_identity p) \<noteq> None \<or> pendingKey db (pv_identity p) \<noteq> None)"
    using row req p by auto
  show "\<And>pk. pv_publicKey p = Some pk \<Longrightarrow> rc_public_key rc pk \<and>
      (fingerprintHolder db (rc_fingerprint rc pk) = None \<or>
       fingerprintHolder db (rc_fingerprint rc pk) = Some (pv_identity p))" using p pk by simp
qed

lemma proposeKey_tables:
  assumes "proposeKey fpf t uuid db i pk ac = Inr (res, db')"
  shows "db_agents db' = db_agents db" "db_types db' = db_types db"
    and "\<exists>k\<in>set (db_keys db'). k_identity k = i \<and> k_fingerprint k = fpf pk"
  using assms
  by (auto simp: proposeKey_def appendEvent_def Let_def split: option.splits if_splits prod.splits
      dest: sql_get_SomeD simp: keyByFingerprint_def)

lemma recordKey_Inr:
  assumes "\<And>pk. pv_publicKey p = Some pk \<Longrightarrow> fingerprintHolder (h_agents h) (rc_fingerprint (rv_contracts re) pk) = None \<or>
      fingerprintHolder (h_agents h) (rc_fingerprint (rv_contracts re) pk) = Some (pv_identity p)"
  obtains (none) "pv_publicKey p = None \<or> pv_publicKey p = Some []" "recordKey re h p = Inr (None, h)"
  | (key) pk res db where "pv_publicKey p = Some pk"
      "proposeKey (rc_fingerprint (rv_contracts re)) (now_secs (rv_env re)) (fresh_event_id re (h_agents h))
         (h_agents h) (pv_identity p) pk ''api'' = Inr (res, db)"
      "recordKey re h p = Inr (Some (JObj [(''fingerprint'', JStr (pr_fingerprint res)),
         (''status'', JStr (key_status_text (pr_status res)))]), h\<lparr>h_agents := db\<rparr>)"
proof (cases "pv_publicKey p = None \<or> pv_publicKey p = Some []")
  case True
  then show thesis by (intro none) (auto simp: recordKey_def)
next
  case False
  then obtain pk where pk: "pv_publicKey p = Some pk" "pk \<noteq> []" by auto
  let ?f = "rc_fingerprint (rv_contracts re) pk"
  have "keyByFingerprint (h_agents h) ?f = None \<or> (\<exists>k. keyByFingerprint (h_agents h) ?f = Some k \<and> k_identity k = pv_identity p)"
    using assms [OF pk(1)] by (auto simp: fingerprintHolder_def)
  then have "\<exists>r. proposeKey (rc_fingerprint (rv_contracts re)) (now_secs (rv_env re)) (fresh_event_id re (h_agents h))
      (h_agents h) (pv_identity p) pk ''api'' = Inr r"
    by (elim disjE exE conjE) (simp_all add: proposeKey_def Let_def case_prod_beta)
  then obtain res db where pr: "proposeKey (rc_fingerprint (rv_contracts re)) (now_secs (rv_env re))
      (fresh_event_id re (h_agents h)) (h_agents h) (pv_identity p) pk ''api'' = Inr (res, db)" by auto
  show thesis by (rule key [OF pk(1) pr]) (simp add: recordKey_def pk pr)
qed

text \<open>A refusal is a JSON answer.\<close>

lemma parse_Inl: "parseProvisionRequest rc db body = Inl r \<Longrightarrow> \<exists>st b. r = JsonResponse st b \<and> 400 \<le> st"
proof -
  have 1: "\<exists>st b. r = JsonResponse st b \<and> 400 \<le> st" if "provision_name body = Inl r"
    using that by (auto simp: provision_name_def bad_request_def split: option.splits if_splits)
  have 2: "\<exists>st b. r = JsonResponse st b \<and> 400 \<le> st" if "provision_description b = Inl r" for b
    using that by (auto simp: provision_description_def bad_request_def split: json.splits if_splits)
  have 3: "\<exists>st b. r = JsonResponse st b \<and> 400 \<le> st" if "provision_key rc db i b = Inl r" for i b
    using that by (auto simp: provision_key_def bad_request_def coded_error_def Let_def
        split: json.splits option.splits if_splits)
  assume a: "parseProvisionRequest rc db body = Inl r"
  show ?thesis
  proof (cases "provision_name body")
    case (Inl r')
    with a 1 show ?thesis by (simp add: parseProvisionRequest_def)
  next
    case (Inr x)
    obtain b c i ty where x: "x = (b, c, i, ty)" by (cases x)
    show ?thesis
    proof (cases "getType db ty = None \<or> Option.bind (stmtSelectAgent db i) ag_deleted_at \<noteq> None")
      case True
      with a Inr x show ?thesis
        by (auto simp: parseProvisionRequest_def bad_request_def coded_error_def split: option.splits if_splits)
    next
      case False
      then obtain row where "getType db ty = Some row" "Option.bind (stmtSelectAgent db i) ag_deleted_at = None" by auto
      with a Inr x 2 [of b] 3 [of i b] show ?thesis
        by (simp add: parseProvisionRequest_def bad_request_def split: sum.splits if_splits) auto
    qed
  qed
qed

lemma upsert_Inl: "fst (upsert re h p) = Inl r \<Longrightarrow> \<exists>st b. r = JsonResponse st b \<and> 400 \<le> st"
  by (auto simp: upsert_def bad_request_def coded_error_def Let_def case_prod_beta split: option.splits if_splits)

text \<open>One request carried out: the upsert and the key.\<close>

lemma provision_cases:
  obtains (refused) r where "handlePostAgentsV1 re h body = (r, h)" "handlePostAgents re h body = (r, h)"
      "parseProvisionRequest (rv_contracts re) (h_agents h) body = Inl r \<or>
       (\<exists>p. parseProvisionRequest (rv_contracts re) (h_agents h) body = Inr p \<and> fst (upsert re h p) = Inl r)"
  | (carried) p existed key h2 where "parseProvisionRequest (rv_contracts re) (h_agents h) body = Inr p"
      "fst (upsert re h p) = Inr existed" "recordKey re (snd (upsert re h p)) p = Inr (key, h2)"
      "fst (handlePostAgentsV1 re h body) = JsonResponse (if existed then 200 else 201)
         (provisioned_json (h_agents (snd (upsert re h p))) p existed key)"
      "\<exists>b. fst (handlePostAgents re h body) = JsonResponse 200 b"
      "snd (handlePostAgentsV1 re h body) = h2" "snd (handlePostAgents re h body) = h2"
proof (cases "parseProvisionRequest (rv_contracts re) (h_agents h) body")
  case (Inl r)
  then show thesis by (intro refused) (simp_all add: handlePostAgentsV1_def handlePostAgents_def)
next
  case p: (Inr p)
  obtain u h1 where u: "upsert re h p = (u, h1)" by fastforce
  show thesis
  proof (cases u)
    case (Inl r)
    then show thesis using upsert_refused [of re h p r] u p
      by (intro refused) (simp_all add: handlePostAgentsV1_def handlePostAgents_def)
  next
    case (Inr existed)
    have keys: "db_keys (h_agents h1) = db_keys (h_agents h)"
      using upsert_done(3) [of re h p existed] parse_Inr(1) [OF p] u Inr by simp
    have "fingerprintHolder (h_agents h1) f = fingerprintHolder (h_agents h) f" for f
      by (simp add: fingerprintHolder_def keyByFingerprint_def keys)
    with parse_Inr(5) [OF p]
    have "pv_publicKey p = Some pk \<Longrightarrow> fingerprintHolder (h_agents h1) (rc_fingerprint (rv_contracts re) pk) = None \<or>
        fingerprintHolder (h_agents h1) (rc_fingerprint (rv_contracts re) pk) = Some (pv_identity p)" for pk by simp
    then obtain key h2 where "recordKey re h1 p = Inr (key, h2)" by (rule recordKey_Inr) auto
    then show thesis using u p Inr
      by (intro carried [of p existed key h2]) (simp_all add: handlePostAgentsV1_def handlePostAgents_def)
  qed
qed

lemma provisioning_alias_hub: "snd (handlePostAgents re h body) = snd (handlePostAgentsV1 re h body)"
  by (cases rule: provision_cases [of re h body]) simp_all

text \<open>
  The legacy alias is the canonical route. Whatever the body, \<open>POST /api/agents\<close> leaves the hub
  exactly as \<open>POST /api/v1/agents\<close> would; they refuse with the same answer and neither ever throws.
\<close>
theorem provisioning_alias_is_equivalent:
  "snd (handlePostAgents re h body) = snd (handlePostAgentsV1 re h body) \<and>
   (fst (handlePostAgents re h body) = fst (handlePostAgentsV1 re h body) \<or>
    (\<exists>b b'. fst (handlePostAgents re h body) = JsonResponse 200 b \<and>
       fst (handlePostAgentsV1 re h body) \<in> {JsonResponse 200 b', JsonResponse 201 b'})) \<and>
   (\<forall>e. fst (handlePostAgentsV1 re h body) \<noteq> ResponseThrew e)"
proof (cases rule: provision_cases [of re h body])
  case (refused r)
  have "r \<noteq> ResponseThrew e" for e
    using refused(3) parse_Inl upsert_Inl by (metis response.distinct(5))
  with refused(1,2) show ?thesis by simp
next
  case (carried p existed key h2)
  then show ?thesis by auto
qed

section \<open>What the route can do\<close>

lemma recordKey_effect:
  assumes "recordKey re h p = Inr (key, h2)" "keys_ok (h_agents h)"
  shows "h2 = h\<lparr>h_agents := h_agents h2\<rparr>" "db_agents (h_agents h2) = db_agents (h_agents h)"
    "db_types (h_agents h2) = db_types (h_agents h)" "keys_ok (h_agents h2)"
    "identityForFingerprint (h_agents h2) = identityForFingerprint (h_agents h)"
    "pv_publicKey p = Some pk \<Longrightarrow> pk \<noteq> [] \<Longrightarrow> \<exists>k\<in>set (db_keys (h_agents h2)). k_identity k = pv_identity p \<and>
       k_fingerprint k = rc_fingerprint (rv_contracts re) pk"
    "pv_publicKey p = None \<Longrightarrow> h2 = h"
proof -
  have "(pv_publicKey p = None \<or> pv_publicKey p = Some []) \<and> h2 = h \<or> (\<exists>pk res db. pv_publicKey p = Some pk \<and> h2 = h\<lparr>h_agents := db\<rparr> \<and>
      proposeKey (rc_fingerprint (rv_contracts re)) (now_secs (rv_env re)) (fresh_event_id re (h_agents h))
         (h_agents h) (pv_identity p) pk ''api'' = Inr (res, db))"
    using assms(1) by (auto simp: recordKey_def split: option.splits if_splits sum.splits key_error.splits)
  then consider "pv_publicKey p = None \<or> pv_publicKey p = Some []" "h2 = h"
    | pk res db where "pv_publicKey p = Some pk" "h2 = h\<lparr>h_agents := db\<rparr>"
      "proposeKey (rc_fingerprint (rv_contracts re)) (now_secs (rv_env re)) (fresh_event_id re (h_agents h))
         (h_agents h) (pv_identity p) pk ''api'' = Inr (res, db)" by blast
  then have "h2 = h\<lparr>h_agents := h_agents h2\<rparr> \<and> db_agents (h_agents h2) = db_agents (h_agents h) \<and>
      db_types (h_agents h2) = db_types (h_agents h) \<and> keys_ok (h_agents h2) \<and>
      identityForFingerprint (h_agents h2) = identityForFingerprint (h_agents h) \<and>
      (\<forall>pk. pv_publicKey p = Some pk \<longrightarrow> pk \<noteq> [] \<longrightarrow> (\<exists>k\<in>set (db_keys (h_agents h2)). k_identity k = pv_identity p \<and>
         k_fingerprint k = rc_fingerprint (rv_contracts re) pk)) \<and> (pv_publicKey p = None \<longrightarrow> h2 = h)"
  proof cases
    case 1
    with assms(2) show ?thesis by auto
  next
    case (2 pk res db)
    have ok: "keys_ok db" using proposeKey_ok(1) [OF assms(2) 2(3)] .
    have "identityForFingerprint db f = identityForFingerprint (h_agents h) f" for f
      using identityForFingerprint_map [OF ok] identityForFingerprint_map [OF assms(2)]
        propose_map_same_approved [OF assms(2) 2(3)] by (metis option.exhaust)
    with 2 ok proposeKey_tables [OF 2(3)] show ?thesis by auto
  qed
  then show "h2 = h\<lparr>h_agents := h_agents h2\<rparr>" "db_agents (h_agents h2) = db_agents (h_agents h)"
    "db_types (h_agents h2) = db_types (h_agents h)" "keys_ok (h_agents h2)"
    "identityForFingerprint (h_agents h2) = identityForFingerprint (h_agents h)"
    "pv_publicKey p = Some pk \<Longrightarrow> pk \<noteq> [] \<Longrightarrow> \<exists>k\<in>set (db_keys (h_agents h2)). k_identity k = pv_identity p \<and>
       k_fingerprint k = rc_fingerprint (rv_contracts re) pk"
    "pv_publicKey p = None \<Longrightarrow> h2 = h" by blast+
qed

lemma keys_cong:
  assumes "db_keys db' = db_keys db"
  shows "keys_ok db' = keys_ok db" "identityForFingerprint db' = identityForFingerprint db"
    "approvedKey db' = approvedKey db" "pendingKey db' = pendingKey db"
  by (simp_all add: keys_ok_def identityForFingerprint_def approvedKey_def pendingKey_def keyByStatus_def assms fun_eq_iff)

lemma upsert_audit [simp]: "audit_extends (h_audit h) (h_audit (snd (upsert re h p)))"
  by (simp add: upsert_def recordIdentityEvent_def Let_def case_prod_beta split: option.split sum.split)
    (simp add: audit_write_extends)

text \<open>
  An open route with a bounded reach. Whatever anyone posts, no key becomes or ceases to be a
  usable one, no message and no connection changes, and the audit record only grows. Either no row of
  an identity changes, or exactly one does: the named identity was not torn down, it did not exist
  when the caller asked for \<open>create_only\<close>, and of its row only the type and the description change,
  while the right to speak for others comes from the deployment's declaration alone.
\<close>
theorem provisioning_is_confined:
  assumes "keys_ok (h_agents h)"
  shows "let h' = snd (handlePostAgentsV1 re h body); db = h_agents h; db' = h_agents h' in
    identityForFingerprint db' = identityForFingerprint db \<and> h_hub h' = h_hub h \<and> h_presence h' = h_presence h \<and>
    audit_extends (h_audit h) (h_audit h') \<and>
    (h' = h \<or>
     (\<exists>p. parseProvisionRequest (rv_contracts re) db body = Inr p \<and>
        Option.bind (stmtSelectAgent db (pv_identity p)) ag_deleted_at = None \<and>
        (pv_createOnly p \<longrightarrow> stmtSelectAgent db (pv_identity p) = None) \<and>
        (\<forall>j. stmtSelectAgent db' j =
           (if j = pv_identity p then Some (provisioned_row re db p) else stmtSelectAgent db j))))"
proof (cases rule: provision_cases [of re h body])
  case (refused r)
  then show ?thesis by (simp add: Let_def)
next
  case (carried p existed key h2)
  let ?h1 = "snd (upsert re h p)"
  note up = upsert_done [OF carried(2) parse_Inr(1) [OF carried(1)]]
  have ok: "keys_ok (h_agents ?h1)" using assms by (simp add: keys_cong(1) [OF up(3)])
  note eff = recordKey_effect [OF carried(3) ok]
  have "h_hub h2 = h_hub ?h1" "h_presence h2 = h_presence ?h1" "h_audit h2 = h_audit ?h1"
    using eff(1) by (metis hub.select_convs hub.surjective hub.update_convs(1))+
  moreover have "stmtSelectAgent (h_agents h2) j = stmtSelectAgent (h_agents ?h1) j" for j
    by (simp add: stmtSelectAgent_def eff(2))
  moreover have "identityForFingerprint (h_agents h2) = identityForFingerprint (h_agents h)"
    using eff(5) keys_cong(2) [OF up(3)] by simp
  ultimately show ?thesis
    using carried(1) parse_Inr(3) [OF carried(1)] up(1,2) unfolding carried(6) Let_def
    by (intro conjI disjI2 exI [of _ p]) simp_all
qed

text \<open>Registering \<open>kim\<close> under a type, with nothing else.\<close>

definition plain_provision :: "string \<Rightarrow> json" where
  "plain_provision ty = JObj [(''identity'', JStr ''kim''), (''type'', JStr ty)]"

text \<open>A hub on which \<open>kim\<close> is an \<open>ai-claude\<close> with an approved key.\<close>

definition kim_hub :: hub where
  "kim_hub = (hub_init 0 120)\<lparr>h_agents := (agents_db_init 0)
     \<lparr>db_agents := [new_agent 5 ''kim'' ''ai-claude'' None],
      db_keys := [\<lparr>k_fingerprint = ''fp'', k_identity = ''kim'', k_public_key = ''pk'', k_status = Approved,
                   k_proposed_at = 5, k_decided_at = Some 6, k_decided_by = Some ''op''\<rparr>]\<rparr>\<rparr>"

lemma kim_hub_keys: "keys_ok (h_agents kim_hub)"
  by code_simp

lemma provisioning_is_confined_witness:
  "identityForFingerprint (h_agents (snd (handlePostAgentsV1 plain_rest kim_hub (json_text (plain_provision ''service''))))) =
   identityForFingerprint (h_agents kim_hub)"
  using provisioning_is_confined [OF kim_hub_keys, of plain_rest "json_text (plain_provision ''service'')"]
  unfolding Let_def by blast

text \<open>
  The answer says what was done. A request that is answered 200 or 201 has left a live row of the
  requested type, 201 exactly where the identity was new; a public key that came with it is on record
  for that identity; and an identity whose type requires a key holds one.
\<close>
theorem provisioning_answer_is_true:
  assumes "keys_ok (h_agents h)" "fst (handlePostAgentsV1 re h body) = JsonResponse st b" "st \<in> {200, 201}"
    and "\<And>pk. rc_public_key (rv_contracts re) pk \<Longrightarrow> pk \<noteq> []"
  shows "\<exists>p a row. parseProvisionRequest (rv_contracts re) (h_agents h) body = Inr p \<and>
    stmtSelectAgent (h_agents (snd (handlePostAgentsV1 re h body))) (pv_identity p) = Some a \<and>
    ag_type a = Some (pv_type p) \<and> ag_deleted_at a = None \<and>
    (st = 201 \<longleftrightarrow> \<not> stmtAgentExists (h_agents h) (pv_identity p)) \<and>
    (\<forall>pk. pv_publicKey p = Some pk \<longrightarrow>
       (\<exists>k\<in>set (db_keys (h_agents (snd (handlePostAgentsV1 re h body)))). k_identity k = pv_identity p \<and>
          k_fingerprint k = rc_fingerprint (rv_contracts re) pk)) \<and>
    getType (h_agents h) (pv_type p) = Some row \<and>
    (ty_requires_key row = 1 \<longrightarrow>
       (\<exists>k\<in>set (db_keys (h_agents (snd (handlePostAgentsV1 re h body)))). k_identity k = pv_identity p))"
proof (cases rule: provision_cases [of re h body])
  case (refused r)
  with assms(2,3) show ?thesis using parse_Inl upsert_Inl by fastforce
next
  case (carried p existed key h2)
  let ?h1 = "snd (upsert re h p)"
  note pr = parse_Inr [OF carried(1)]
  note up = upsert_done [OF carried(2) pr(1)]
  have ok: "keys_ok (h_agents ?h1)" using assms(1) by (simp add: keys_cong(1) [OF up(3)])
  note eff = recordKey_effect [OF carried(3) ok]
  obtain row where row: "getType (h_agents h) (pv_type p) = Some row"
    and req: "ty_requires_key row = 1 \<longrightarrow> pv_publicKey p \<noteq> None \<or> approvedKey (h_agents h) (pv_identity p) \<noteq> None \<or>
      pendingKey (h_agents h) (pv_identity p) \<noteq> None" using pr(4) by blast
  have sel: "stmtSelectAgent (h_agents h2) (pv_identity p) = Some (provisioned_row re (h_agents h) p)"
    using up(1) [of "pv_identity p"] by (simp add: stmtSelectAgent_def eff(2))
  have live: "ag_type (provisioned_row re (h_agents h) p) = Some (pv_type p)"
    "ag_deleted_at (provisioned_row re (h_agents h) p) = None"
    using pr(3) by (auto simp: provisioned_row_def new_agent_def Let_def split: option.split)
  have st: "st = (if existed then 200 else 201)" using assms(2) carried(4) by simp
  have ex: "existed = stmtAgentExists (h_agents h) (pv_identity p)"
    using carried(2) insert_changes [of "now_secs (rv_env re)" "h_agents h" "pv_identity p" "pv_type p" "pv_description p"]
    by (auto simp: upsert_def Let_def case_prod_beta stmtAgentExists_def stmtSelectAgent_def sql_exists_iff sql_get_None_iff
        split: option.splits if_splits)
  have key: "\<exists>k\<in>set (db_keys (h_agents h2)). k_identity k = pv_identity p \<and>
      k_fingerprint k = rc_fingerprint (rv_contracts re) pk" if "pv_publicKey p = Some pk" for pk
    using eff(6) [OF that] assms(4) pr(5) [OF that] by blast
  have held: "\<exists>k\<in>set (db_keys (h_agents h2)). k_identity k = pv_identity p" if "ty_requires_key row = 1"
  proof (cases "pv_publicKey p")
    case (Some pk)
    with key show ?thesis by blast
  next
    case None
    have "\<exists>k\<in>set (db_keys (h_agents h)). k_identity k = pv_identity p"
      using req that None by (auto simp: approvedKey_def pendingKey_def keyByStatus_def dest: sql_get_SomeD)
    then show ?thesis using eff(7) [OF None] up(3) by simp
  qed
  show ?thesis
    unfolding carried(6)
    by (rule exI [of _ p], rule exI [of _ "provisioned_row re (h_agents h) p"], rule exI [of _ row])
      (use carried(1) sel live st ex key row held in auto)
qed

lemma plain_provision_parsed: "json_parse (json_text (plain_provision ''service'')) = Some (plain_provision ''service'')"
  by code_simp

lemma plain_provision_done:
  "case fst (handlePostAgentsV1 plain_rest kim_hub (json_text (plain_provision ''service''))) of
     JsonResponse st b \<Rightarrow> st = 200 | _ \<Rightarrow> False"
  by code_simp

lemma provisioning_answer_is_true_witness:
  "\<exists>p a row. parseProvisionRequest plain_rest_contracts (h_agents kim_hub) (json_text (plain_provision ''service'')) = Inr p \<and>
    stmtSelectAgent (h_agents (snd (handlePostAgentsV1 plain_rest kim_hub (json_text (plain_provision ''service''))))) (pv_identity p) =
      Some (a :: agent_row) \<and> getType (h_agents kim_hub) (pv_type p) = Some (row :: agent_type_row)"
proof -
  obtain b where b: "fst (handlePostAgentsV1 plain_rest kim_hub (json_text (plain_provision ''service''))) = JsonResponse 200 b"
    using plain_provision_done by (auto split: response.splits)
  have "rc_public_key (rv_contracts plain_rest) pk \<Longrightarrow> pk \<noteq> []" for pk
    by (simp add: plain_rest_def plain_rest_contracts_def)
  from provisioning_answer_is_true [OF kim_hub_keys b _ this] show ?thesis by (auto simp: plain_rest_def)
qed

section \<open>What the route can take away\<close>

text \<open>
  Anyone who can reach the open route can waive the signatures of an identity. Registering a live
  identity again under a type that requires no key overwrites its type; before the request the hub
  refuses every unsigned frame that speaks as the identity, and after it accepts them, although the
  identity still has its approved key.
\<close>
theorem provisioning_can_waive_signatures:
  assumes body: "json_parse body = Some (JObj [(''identity'', JStr i), (''type'', JStr ty)])" "is_identity i" "ty \<noteq> []"
    and ty: "getType (h_agents h) ty = Some row" "ty_requires_key row \<noteq> 1"
    and agent: "stmtSelectAgent (h_agents h) i = Some a" "ag_deleted_at a = None"
    and up: "rv_agents_error re = None"
    and before: "requiresKey (h_agents h) i"
  shows "fst (verifyRequest env h i m None raw) \<noteq> SigOk False \<and>
    fst (verifyRequest env (snd (handlePostAgentsV1 re h body)) i m None raw) = SigOk False \<and>
    approvedKey (h_agents (snd (handlePostAgentsV1 re h body))) i = approvedKey (h_agents h) i"
proof -
  let ?p = "\<lparr>pv_identity = i, pv_type = ty, pv_description = None, pv_publicKey = None, pv_canProxy = None, pv_createOnly = False\<rparr>"
  have "i \<noteq> []" using body(2) by (auto simp: is_identity_def)
  then have n: "provision_name body = Inr (JObj [(''identity'', JStr i), (''type'', JStr ty)], False, i, ty)"
    using body by (simp add: provision_name_def)
  have p: "parseProvisionRequest (rv_contracts re) (h_agents h) body = Inr ?p"
    using n ty agent
    by (simp add: parseProvisionRequest_def provision_description_def provision_key_def or_else_def)
  obtain existed where e: "fst (upsert re h ?p) = Inr existed" using up by (simp add: upsert_def Let_def)
  have h': "snd (handlePostAgentsV1 re h body) = snd (upsert re h ?p)"
    using p e by (simp add: handlePostAgentsV1_def recordKey_def case_prod_beta split: sum.split)
  have sel: "stmtSelectAgent (h_agents (snd (upsert re h ?p))) i = Some (provisioned_row re (h_agents h) ?p)"
    using upsert_done(1) [OF e, of i] by simp
  have "getType (h_agents (snd (upsert re h ?p))) ty = Some row"
    using ty(1) by (simp add: getType_def)
  then have "\<not> requiresKey (h_agents (snd (upsert re h ?p))) i"
    using sel agent(1) ty(2) body(3)
    by (simp add: requiresKey_def stmtSelectAgent_def provisioned_row_def Let_def)
  moreover have "approvedKey (h_agents (snd (upsert re h ?p))) i = approvedKey (h_agents h) i"
    using keys_cong(3) [OF upsert_done(3) [OF e]] by simp
  ultimately show ?thesis
    unfolding h' using before by (auto simp: verifyRequest_fst inner_unsigned_iff)
qed

lemma provisioning_can_waive_signatures_witness:
  "fst (verifyRequest plain_env kim_hub ''kim'' ''mesh.connect'' None ''{}'') \<noteq> SigOk False \<and>
   fst (verifyRequest plain_env (snd (handlePostAgentsV1 plain_rest kim_hub (json_text (plain_provision ''service''))))
     ''kim'' ''mesh.connect'' None ''{}'') = SigOk False"
proof -
  have p: "json_parse (json_text (plain_provision ''service'')) = Some (JObj [(''identity'', JStr ''kim''), (''type'', JStr ''service'')])"
    using plain_provision_parsed by (simp add: plain_provision_def)
  have "is_identity ''kim''" "requiresKey (h_agents kim_hub) ''kim''" "rv_agents_error plain_rest = None" by code_simp+
  moreover have "getType (h_agents kim_hub) ''service'' =
      Some \<lparr>ty_type = ''service'', ty_description = Some ''Baseline service'', ty_requires_key = 0, ty_created_at = 0\<rparr>"
    "stmtSelectAgent (h_agents kim_hub) ''kim'' = Some (new_agent 5 ''kim'' ''ai-claude'' None)" by code_simp+
  ultimately show ?thesis
    using provisioning_can_waive_signatures [OF p, of kim_hub _ "new_agent 5 ''kim'' ''ai-claude'' None" plain_rest plain_env
        "''mesh.connect''" "''{}''"]
    by (simp add: new_agent_def)
qed

end
