(* ===== verification/Hub_Mailbox.thy ===== *)
theory Hub_Mailbox
  imports Hub_Signed
begin

text \<open>
  The signed inbox surface, \<open>packages/hub/src/rest/mailbox.ts\<close>: its paths, its routes over the handlers
  of the JSON-RPC methods, and the recall of a waiting message.

  A handler's frame is passed on as the value it is; the code prints it and parses it again. The query
  string is read as \<open>URLSearchParams\<close> reads one, on the bytes of its text, so an escape that is no UTF-8
  keeps its bytes here. The stand-in caller is a socket of its own.

  The lemmas: a route does to the stores what the method it names would do, an unsigned request does
  nothing, a recall withdraws what it says it withdraws and leaves a record of it.
\<close>

section \<open>Query strings\<close>

fun url_decode :: "string \<Rightarrow> string" where
  "url_decode [] = []"
| "url_decode (c # s) =
     (if c = CHR ''+'' then CHR '' '' # url_decode s
      else if c = CHR ''%'' then
        (case s of
           a # b # r \<Rightarrow>
             (case (hex_value a, hex_value b) of
                (Some x, Some y) \<Rightarrow> char_of (16 * x + y) # url_decode r
              | _ \<Rightarrow> c # url_decode s)
         | _ \<Rightarrow> c # url_decode s)
      else c # url_decode s)"

definition query_pair :: "string \<Rightarrow> string \<times> string" where
  "query_pair p =
     (let k = takeWhile (\<lambda>c. c \<noteq> CHR ''='') p
      in (url_decode k, url_decode (drop (Suc (length k)) p)))"

definition query_get :: "string \<Rightarrow> string \<Rightarrow> string option" where
  "query_get search name =
     (let q = (case search of c # r \<Rightarrow> if c = CHR ''?'' then r else search | [] \<Rightarrow> [])
      in map_of (map query_pair (filter (\<lambda>p. p \<noteq> []) (split_on (CHR ''&'') q))) name)"

section \<open>Calling a method\<close>

definition asCaller :: "socket \<Rightarrow> string \<Rightarrow> (hub \<Rightarrow> reply \<times> hub) \<Rightarrow> hub \<Rightarrow> reply \<times> hub" where
  "asCaller ws identity run h = (case run (enter_caller h ws identity) of (r, h') \<Rightarrow> (r, leave_caller h' ws))"

fun obj_members :: "json \<Rightarrow> (string \<times> json) list" where
  "obj_members (JObj ms) = ms"
| "obj_members _ = []"

definition unwrap_status :: "rest_contracts \<Rightarrow> json option \<Rightarrow> int" where
  "unwrap_status rc c =
     (if c = Some (JInt (rc_NOT_ENTITLED rc)) then 403
      else if c = Some (JInt (rc_IDENTITY_NOT_REGISTERED rc)) then 404
      else if c = Some (JInt (- 32015)) then 409
      else if c = Some (JInt (rc_INVALID_PARAMS rc)) then 400 else 500)"

definition unwrap :: "rest_contracts \<Rightarrow> reply \<Rightarrow> response" where
  "unwrap rc r =
     (case r of
        Thrown e \<Rightarrow> ResponseThrew e
      | Reply rpc \<Rightarrow>
          (case jget rpc ''error'' of
             Some e \<Rightarrow>
               (let data = jget e ''data''; c = Option.bind data (\<lambda>d. jget d ''code'')
                in JsonResponse (unwrap_status rc (jget e ''code''))
                     (JObj (obj_spread
                        ([(''ok'', JBool False), (''error'', or_else (jget e ''message'') JNull)] @
                         (if truthy c then [(''code'', the c)] else []) @
                         [(''rpc_code'', or_else (jget e ''code'') JNull)])
                        (case data of None \<Rightarrow> [] | Some d \<Rightarrow> obj_members d))))
           | None \<Rightarrow>
               JsonResponse 200 (JObj (obj_spread [(''ok'', JBool True)]
                 (case jget rpc ''result'' of None \<Rightarrow> [] | Some x \<Rightarrow> obj_members x)))))"

definition method_not_allowed :: "string \<Rightarrow> response" where
  "method_not_allowed allowed =
     JsonResponse 405 (JObj [(''ok'', JBool False), (''error'', JStr (''method not allowed; use '' @ allowed))])"

definition invalid_body :: "rest_contracts \<Rightarrow> response" where
  "invalid_body rc =
     JsonResponse 400 (JObj [(''ok'', JBool False), (''error'', JStr ''invalid JSON body''),
                             (''rpc_code'', JInt (rc_INVALID_PARAMS rc))])"

text \<open>A body that is \<open>null\<close> parses, and reading a member of it throws.\<close>

definition NULL_PARAMS :: string where "NULL_PARAMS = ''null is not an object''"

section \<open>The routes\<close>

record mailbox_request =
  mr_method :: string
  mr_path :: string
  mr_pathname :: string
  mr_search :: string
  mr_authorization :: "string option"
  mr_body :: string
  mr_observed :: "string option"

definition starts_with :: "string \<Rightarrow> string \<Rightarrow> bool" where
  "starts_with p s \<longleftrightarrow> take (length p) s = p"

definition isMailboxPath :: "string \<Rightarrow> bool" where
  "isMailboxPath p \<longleftrightarrow>
     p = ''/api/v1/mailbox/in'' \<or> p = ''/api/v1/mailbox/history'' \<or> p = ''/api/v1/mailbox/out'' \<or>
     starts_with ''/api/v1/mailbox/out/'' p"

definition handlesPath :: "string \<Rightarrow> bool" where
  "handlesPath p \<longleftrightarrow> p = ''/api/v1/capabilities'' \<or> isMailboxPath p"

definition capabilities :: "rest_env \<Rightarrow> json" where
  "capabilities re =
     (let env = rv_env re; ct = en_contracts env
      in JObj [(''mailbox'', JObj (obj_spread (rc_mailbox_capability (rv_contracts re))
             [(''dormancy_seconds'', (case en_dormancy env of None \<Rightarrow> JNull | Some n \<Rightarrow> JInt n)),
              (''receive_lease_seconds'', JInt (en_lease_seconds env))])),
           (''audit'', JObj (obj_spread (ct_audit_capability ct)
             [(''schema_version_max'', JInt (ct_schema_version ct)), (''blob_base_url'', JStr (en_blob_base_url env))])),
           (''surface'', JObj (obj_spread (rc_surface_capability (rv_contracts re))
             [(''observed_source'', JStr (case oc_mode (rv_observed re) of ObsSocket \<Rightarrow> ''socket'' | ObsForwarded \<Rightarrow> ''forwarded''))])),
           (''platform'', rv_platform re)])"

definition receiveRoute :: "rest_env \<Rightarrow> hub \<Rightarrow> string \<Rightarrow> string \<Rightarrow> response \<times> hub" where
  "receiveRoute re h identity body =
     (case (if body = [] then Some (JObj []) else json_parse body) of
        None \<Rightarrow> (invalid_body (rv_contracts re), h)
      | Some params \<Rightarrow>
          if params = JNull then (ResponseThrew NULL_PARAMS, h)
          else (case handleReceive (rv_env re) h (Some identity) params (Some (JInt 1)) of
                  (r, h') \<Rightarrow> (unwrap (rv_contracts re) r, h')))"

definition historyRoute :: "rest_env \<Rightarrow> hub \<Rightarrow> socket \<Rightarrow> string \<Rightarrow> string \<Rightarrow> response \<times> hub" where
  "historyRoute re h ws identity search =
     (case given_string (map_option JStr (query_get search ''peer'')) of
        None \<Rightarrow>
          (JsonResponse 400 (JObj [(''ok'', JBool False), (''error'', JStr ''peer is required''),
                                   (''rpc_code'', JInt (rc_INVALID_PARAMS (rv_contracts re)))]), h)
      | Some peer \<Rightarrow>
          (let limit = given_string (map_option JStr (query_get search ''limit''));
               params = JObj ((''agent_id'', JStr peer) # (case limit of None \<Rightarrow> [] | Some l \<Rightarrow> [(''limit'', JStr l)]));
               (r, h') = asCaller ws identity (\<lambda>h. (handleFetchMessages h ws params (Some (JInt 1)), h)) h
           in (unwrap (rv_contracts re) r, h')))"

definition asCallerRaw :: "rest_env \<Rightarrow> hub \<Rightarrow> socket \<Rightarrow> string \<Rightarrow> json \<Rightarrow> string option \<Rightarrow> reply \<times> hub" where
  "asCallerRaw re h ws identity params observed =
     (let env = (rv_env re)\<lparr>en_observed := (en_observed (rv_env re))(ws := observed)\<rparr>
      in asCaller ws identity
           (\<lambda>h. if params = JNull then (Thrown NULL_PARAMS, h)
                else handleSend env h ws params (Some (JInt 1)) None None Mailbox) h)"

definition sendOne :: "rest_env \<Rightarrow> hub \<Rightarrow> socket \<Rightarrow> string \<Rightarrow> string \<Rightarrow> string option \<Rightarrow> response \<times> hub" where
  "sendOne re h ws identity body observed =
     (case json_parse (if body = [] then ''{}'' else body) of
        None \<Rightarrow> (invalid_body (rv_contracts re), h)
      | Some params \<Rightarrow>
          (case asCallerRaw re h ws identity params observed of
             (r, h') \<Rightarrow> (unwrap (rv_contracts re) r, h')))"

definition MAX_RECALLABLE_PAGE :: int where "MAX_RECALLABLE_PAGE = 200"

definition recallable_json :: "recallable_message \<Rightarrow> json" where
  "recallable_json m =
     JObj [(''id'', JStr (rc_id m)), (''to'', JStr (rc_to m)), (''ts'', JStr (sql_time (rc_ts m))),
           (''size'', JInt (int (rc_size m)))]"

text \<open>The limit of a listing: 50 where the number is missing, \<open>NaN\<close> or infinite.\<close>

definition outbox_limit :: "string option \<Rightarrow> nat option" where
  "outbox_limit q =
     clamped_limit (case js_Number (case q of None \<Rightarrow> JInt 50 | Some s \<Rightarrow> JStr s) of
        None \<Rightarrow> Some (JInt 50)
      | Some (JReal s) \<Rightarrow> if s = ''Infinity'' \<or> s = ''-Infinity'' then Some (JInt 50) else Some (JReal s)
      | n \<Rightarrow> n)"

definition listOutbox :: "rest_env \<Rightarrow> hub \<Rightarrow> string \<Rightarrow> string \<Rightarrow> response" where
  "listOutbox re h identity search =
     (case outbox_limit (query_get search ''limit'') of
        None \<Rightarrow> ResponseThrew ''datatype mismatch''
      | Some limit \<Rightarrow>
          JsonResponse 200 (JObj [(''ok'', JBool True),
            (''messages'', JArr (map recallable_json (listRecallable (now_secs (rv_env re)) (h_hub h) identity limit)))]))"

definition recallOne :: "rest_env \<Rightarrow> hub \<Rightarrow> string \<Rightarrow> string \<Rightarrow> string option \<Rightarrow> response \<times> hub" where
  "recallOne re h identity messageId authorization =
     (if messageId = [] \<or> CHR ''/'' \<in> set messageId then
        (JsonResponse 404 (JObj [(''ok'', JBool False), (''error'', JStr ''not found'')]), h)
      else (case en_hub_error (rv_env re) of
              Some e \<Rightarrow> (ResponseThrew e, h)
            | None \<Rightarrow>
                (let row = stmtMessageById (h_hub h) messageId;
                     (outcome, db) = recall (now_secs (rv_env re)) (h_hub h) identity messageId;
                     h1 = h\<lparr>h_hub := db\<rparr>
                 in case outcome of
                      RecallNotFound \<Rightarrow>
                        (JsonResponse 404 (JObj [(''ok'', JBool False), (''error'', JStr ''no such message from this sender'')]), h1)
                    | AlreadyDelivered \<Rightarrow>
                        (JsonResponse 409 (JObj [(''ok'', JBool False),
                           (''error'', JStr ''the recipient has already been handed this message''),
                           (''code'', JStr ''ALREADY_DELIVERED'')]), h1)
                    | Recalled \<Rightarrow>
                        (JsonResponse 200 (JObj [(''ok'', JBool True), (''recalled'', JBool True), (''id'', JStr messageId)]),
                         (case row of
                            None \<Rightarrow> h1
                          | Some r \<Rightarrow> h1\<lparr>h_audit := recordRecalled (rv_env re) r
                              (Some (JObj [(''scheme'', JStr ''AgentMeshSig''), (''authorization'', nullable authorization)]))
                              (h_audit h1)\<rparr>)))))"

text \<open>The route of an authenticated caller.\<close>

definition mailboxRoute :: "rest_env \<Rightarrow> hub \<Rightarrow> socket \<Rightarrow> mailbox_request \<Rightarrow> string \<Rightarrow> response \<times> hub" where
  "mailboxRoute re h ws req identity =
     (let p = mr_pathname req; m = mr_method req
      in if p = ''/api/v1/mailbox/in'' then
           (if m \<noteq> ''POST'' then (method_not_allowed ''POST'', h) else receiveRoute re h identity (mr_body req))
         else if p = ''/api/v1/mailbox/history'' then
           (if m \<noteq> ''GET'' then (method_not_allowed ''GET'', h) else historyRoute re h ws identity (mr_search req))
         else if p = ''/api/v1/mailbox/out'' then
           (if m = ''POST'' then sendOne re h ws identity (mr_body req) (mr_observed req)
            else if m = ''GET'' then (listOutbox re h identity (mr_search req), h)
            else (method_not_allowed ''GET or POST'', h))
         else if m \<noteq> ''DELETE'' then (method_not_allowed ''DELETE'', h)
         else recallOne re h identity (drop (length ''/api/v1/mailbox/out/'') p) (mr_authorization req))"

definition handleMailboxRoute ::
  "rest_env \<Rightarrow> server \<Rightarrow> socket \<Rightarrow> mailbox_request \<Rightarrow> response option \<times> server" where
  "handleMailboxRoute re s ws req =
     (if mr_pathname req = ''/api/v1/capabilities'' then
        (Some (if mr_method req \<noteq> ''GET'' then method_not_allowed ''GET'' else JsonResponse 200 (capabilities re)), s)
      else if \<not> isMailboxPath (mr_pathname req) then (None, s)
      else (case authenticate re s (mr_method req) (mr_path req) (mr_authorization req) (mr_body req) (mr_observed req) of
              (SignedRefused status b, s1) \<Rightarrow> (Some (JsonResponse status b), s1)
            | (SignedOk identity kid, s1) \<Rightarrow>
                (case mailboxRoute re (sv_hub s1) ws req identity of
                   (r, h) \<Rightarrow> (Some r, s1\<lparr>sv_hub := h\<rparr>))))"

section \<open>What a route can change\<close>

text \<open>
  The change an identity may cause: rows of messages from or to it, new rows that it sent, a longer
  record; no connection and no reminder.
\<close>

definition own_change :: "string \<Rightarrow> hub \<Rightarrow> hub \<Rightarrow> bool" where
  "own_change i h h' \<longleftrightarrow>
     h_presence h' = h_presence h \<and> h_reminders h' = h_reminders h \<and> audit_extends (h_audit h) (h_audit h') \<and>
     (\<forall>x. case stmtMessageById (h_hub h) x of
            None \<Rightarrow> (case stmtMessageById (h_hub h') x of None \<Rightarrow> True | Some m' \<Rightarrow> ms_sent_by m' = Some i)
          | Some m \<Rightarrow> stmtMessageById (h_hub h') x = Some m \<or> ms_to_agent m = i \<or> ms_from_agent m = i)"

lemma own_change_same:
  "h_hub h' = h_hub h \<Longrightarrow> h_presence h' = h_presence h \<Longrightarrow> h_reminders h' = h_reminders h \<Longrightarrow>
   audit_extends (h_audit h) (h_audit h') \<Longrightarrow> own_change i h h'"
  by (auto simp: own_change_def split: option.split)

lemma own_change_refl [simp]: "own_change i h h"
  by (rule own_change_same) simp_all

lemma own_change_receive:
  assumes "hub_pk (h_hub h)"
  shows "own_change i h (snd (handleReceive env h (Some i) params n))"
proof (cases rule: handleReceive_cases [of env h "Some i" params n])
  case same
  then show ?thesis by simp
next
  case (taken who limit ackIds)
  let ?r = "receive (now_secs env) (h_hub h) who limit ackIds (en_lease_seconds env)"
  have i: "who = i" using taken(1) by simp
  have "stmtMessageById (db_after ?r) x = Some m"
    if m: "stmtMessageById (h_hub h) x = Some m" "ms_to_agent m \<noteq> i" for x m
  proof -
    have "ms_id m \<notin> ms_id ` set (batch ?r)"
    proof
      assume "ms_id m \<in> ms_id ` set (batch ?r)"
      then obtain b where b: "b \<in> set (batch ?r)" "ms_id b = ms_id m" by force
      from batch_member [OF assms b(1)] b(2) byId_id [OF m(1)] m have "b = m" by simp
      with batch_member(2) [OF assms b(1)] m(2) i show False by (simp add: leasable_def)
    qed
    moreover have "\<not> settles i ackIds m" using m(2) by (simp add: settles_def)
    ultimately show ?thesis using m(1) i by (simp add: receive_byId Let_def)
  qed
  moreover have "stmtMessageById (db_after ?r) x = None" if "stmtMessageById (h_hub h) x = None" for x
    using that by (simp add: receive_byId)
  ultimately show ?thesis
    unfolding own_change_def taken(3)
    by (auto simp: Let_def split: option.split)
qed

lemma own_change_send:
  assumes "identity_of (h_presence h) ws = Some i"
  shows "own_change i h (snd (handleSend env h ws params n raw sig via))"
proof -
  let ?h' = "snd (handleSend env h ws params n raw sig via)"
  have "ms_sent_by m' = Some i" if "stmtMessageById (h_hub h) x = None" "stmtMessageById (h_hub ?h') x = Some m'" for x m'
  proof -
    from that have "hb_messages (h_hub ?h') \<noteq> hb_messages (h_hub h)" by (auto simp: stmtMessageById_def)
    then obtain sf target where st: "send_identify env h ws params n = Inr sf" "authorised env h ws sf"
      "send_route h sf = Inr target" "fst (send_accept env h via sf (if target = None then MPending else MDelivered)) = None"
      by (rule handleSend_stored)
    have "m' = sent_row env h via sf (if pushed env h sf target then MDelivered else MPending)"
      using handleSend_accepted(2) [OF st] that by (auto simp: stmtMessageById_def sql_get_append split: if_splits)
    moreover have "sf_sender sf = i" using send_identify_Inr(1) [OF st(1)] assms by simp
    ultimately show ?thesis by simp
  qed
  then show ?thesis
    using handleSend_byId [of h _ _ env ws params n raw sig via]
    by (auto simp: own_change_def split: option.split)
qed

lemma own_change_recall:
  assumes "hub_pk (h_hub h)"
  shows "own_change i h (snd (recallOne re h i mid auth))"
proof (cases "mid = [] \<or> CHR ''/'' \<in> set mid \<or> en_hub_error (rv_env re) \<noteq> None")
  case True
  then show ?thesis by (auto simp: recallOne_def)
next
  case False
  obtain out db where r: "recall (now_secs (rv_env re)) (h_hub h) i mid = (out, db)" by fastforce
  note ex = recall_exact [OF assms, of "now_secs (rv_env re)" i mid, unfolded r fst_conv snd_conv]
  have hub: "h_hub (snd (recallOne re h i mid auth)) = db"
    "h_presence (snd (recallOne re h i mid auth)) = h_presence h"
    "h_reminders (snd (recallOne re h i mid auth)) = h_reminders h"
    "audit_extends (h_audit h) (h_audit (snd (recallOne re h i mid auth)))"
    using False by (auto simp: recallOne_def r recordRecalled_def Let_def split: recall_outcome.split option.split)
  show ?thesis unfolding own_change_def hub(1-3) using hub(4) ex by (auto split: option.split)
qed

lemma own_change_caller:
  assumes "own_change i (enter_caller h ws i) h'"
    and "ps_wsIdentities (h_presence h) ws = None" "ps_wsProxies (h_presence h) ws = None"
  shows "own_change i h (leave_caller h' ws)"
  using assms by (simp add: own_change_def enter_caller_def leave_caller_def fun_upd_idem cong: option.case_cong)

lemma own_change_route:
  assumes "hub_pk (h_hub h)" "i \<noteq> []"
    and fresh: "ps_wsIdentities (h_presence h) ws = None" "ps_wsProxies (h_presence h) ws = None"
  shows "own_change i h (snd (mailboxRoute re h ws req i))"
proof -
  have id: "identity_of (h_presence (enter_caller h ws i)) ws = Some i"
    using assms(2) by (simp add: identity_of_Some_iff enter_caller_def)
  have "own_change i h (snd (sendOne re h ws i body observed))" for body observed
    by (auto simp: sendOne_def asCallerRaw_def asCaller_def case_prod_beta Let_def
        intro!: own_change_caller fresh own_change_send id split: option.split)
  moreover have "own_change i h (snd (receiveRoute re h i body))" for body
    using own_change_receive [OF assms(1)] by (auto simp: receiveRoute_def case_prod_beta split: option.split)
  moreover have "own_change i h (snd (historyRoute re h ws i search))" for search
    by (auto simp: historyRoute_def asCaller_def case_prod_beta Let_def intro!: own_change_caller fresh split: option.split)
  ultimately show ?thesis
    using own_change_recall [OF assms(1)] by (simp add: mailboxRoute_def Let_def)
qed

lemma mailbox_for_signer:
  assumes "hub_pk (h_hub (sv_hub s))"
    and "ps_wsIdentities (h_presence (sv_hub s)) ws = None" "ps_wsProxies (h_presence (sv_hub s)) ws = None"
  shows "h_presence (sv_hub (snd (handleMailboxRoute re s ws req))) = h_presence (sv_hub s) \<and>
    (stores (sv_hub (snd (handleMailboxRoute re s ws req))) = stores (sv_hub s) \<or>
     (\<exists>i k. rest_signed re (sv_hub s) (mr_method req) (mr_path req) (mr_authorization req) (mr_body req) i k \<and>
        own_change i (sv_hub s) (sv_hub (snd (handleMailboxRoute re s ws req)))))"
proof (cases "mr_pathname req = ''/api/v1/capabilities'' \<or> \<not> isMailboxPath (mr_pathname req)")
  case True
  then show ?thesis by (auto simp: handleMailboxRoute_def)
next
  case False
  let ?A = "authenticate re s (mr_method req) (mr_path req) (mr_authorization req) (mr_body req) (mr_observed req)"
  note gate = rest_gate [of re s "mr_method req" "mr_path req" "mr_authorization req" "mr_body req" "mr_observed req"]
  show ?thesis
  proof (cases "fst ?A")
    case (SignedRefused st b)
    then show ?thesis
      using False gate by (simp add: handleMailboxRoute_def case_prod_beta)
  next
    case (SignedOk i k)
    have signed: "rest_signed re (sv_hub s) (mr_method req) (mr_path req) (mr_authorization req) (mr_body req) i k"
      using gate SignedOk by blast
    then have "i \<noteq> []" by (auto simp: rest_signed_def envelope_signed_def split: option.splits)
    have h: "h_hub (sv_hub (snd ?A)) = h_hub (sv_hub s)" "h_audit (sv_hub (snd ?A)) = h_audit (sv_hub s)"
      "h_reminders (sv_hub (snd ?A)) = h_reminders (sv_hub s)" "h_presence (sv_hub (snd ?A)) = h_presence (sv_hub s)"
      using gate SignedOk by (auto simp: stores_def)
    have "own_change i (sv_hub (snd ?A)) (snd (mailboxRoute re (sv_hub (snd ?A)) ws req i))"
      using own_change_route [of "sv_hub (snd ?A)" i ws] assms h \<open>i \<noteq> []\<close> by simp
    then have "own_change i (sv_hub s) (snd (mailboxRoute re (sv_hub (snd ?A)) ws req i))"
      by (simp add: own_change_def h)
    moreover have "sv_hub (snd (handleMailboxRoute re s ws req)) = snd (mailboxRoute re (sv_hub (snd ?A)) ws req i)"
      using False SignedOk by (simp add: handleMailboxRoute_def case_prod_beta)
    ultimately show ?thesis using signed by (auto simp: own_change_def)
  qed
qed

text \<open>
  The inbox surface acts for its signer and nobody else. For a caller that is no socket of the hub,
  a request either leaves the stores as they were, or the approved key of an identity signed it, freshly
  and under a nonce not seen before; then only messages from or to that identity have changed, every new
  message is recorded as sent by it, the audit record has only grown, and no connection, route or
  reminder is touched.
\<close>
theorem mailbox_acts_for_its_signer:
  assumes "hub_pk (h_hub (sv_hub s))"
    and "ps_wsIdentities (h_presence (sv_hub s)) ws = None" "ps_wsProxies (h_presence (sv_hub s)) ws = None"
  shows "h_presence (sv_hub (snd (handleMailboxRoute re s ws req))) = h_presence (sv_hub s) \<and>
    (stores (sv_hub (snd (handleMailboxRoute re s ws req))) = stores (sv_hub s) \<or>
     (\<exists>i k. rest_signed re (sv_hub s) (mr_method req) (mr_path req) (mr_authorization req) (mr_body req) i k \<and>
        own_change i (sv_hub s) (sv_hub (snd (handleMailboxRoute re s ws req)))))"
  using assms by (rule mailbox_for_signer)

definition plain_inbox :: mailbox_request where
  "plain_inbox = \<lparr>mr_method = ''POST'', mr_path = ''/api/v1/mailbox/in'', mr_pathname = ''/api/v1/mailbox/in'',
     mr_search = [], mr_authorization = Some ''sig'', mr_body = [], mr_observed = None\<rparr>"

definition plain_server :: "hub \<Rightarrow> server" where
  "plain_server h = \<lparr>sv_hub = h, sv_awaiting = {}, sv_provision = PROVISION_LIMIT (\<lambda>x. None),
     sv_signed = SIGNED_LIMIT (\<lambda>x. None)\<rparr>"

lemma mailbox_acts_for_its_signer_witness:
  "h_presence (sv_hub (snd (handleMailboxRoute plain_rest (plain_server pair_hub) 7 plain_inbox))) = h_presence pair_hub"
proof -
  have "hub_pk (h_hub (sv_hub (plain_server pair_hub)))"
    "ps_wsIdentities (h_presence (sv_hub (plain_server pair_hub))) 7 = None"
    "ps_wsProxies (h_presence (sv_hub (plain_server pair_hub))) 7 = None" by code_simp+
  from mailbox_acts_for_its_signer [OF this, of plain_rest plain_inbox] show ?thesis by (simp add: plain_server_def)
qed

section \<open>Recall\<close>

text \<open>The event of a withdrawal.\<close>

definition recalled_event :: "rest_env \<Rightarrow> audit_db \<Rightarrow> message_row \<Rightarrow> string option \<Rightarrow> audit_event_row" where
  "recalled_event re db m authorization =
     mesh_event_row (rv_env re) (next_event_id (rv_env re) db) EvRecalled
       \<lparr>mv_messageId = ms_id m, mv_from = ms_from_agent m, mv_to = ms_to_agent m,
        mv_sentBy = coalesce (ms_sent_by m) (ms_from_agent m), mv_content = [], mv_replyTo = JNull,
        mv_senderSig = Some (JObj [(''scheme'', JStr ''AgentMeshSig''), (''authorization'', nullable authorization)]),
        mv_senderParams = ''{}''\<rparr>"

text \<open>
  A recall withdraws what it reports and leaves the one trace of it. It is answered 200 exactly
  when the caller has a message of that id that is waiting and under no live lease; then that message
  is gone and no other is touched, and, where the audit store takes the write, the record ends with the
  withdrawal of that message under the caller's name. Any other answer leaves the hub as it was.
\<close>
theorem recall_is_exact_and_recorded:
  assumes "hub_pk (h_hub h)" "en_hub_error (rv_env re) = None" "mid \<noteq> []" "CHR ''/'' \<notin> set mid"
    and audit: "en_audit_error (rv_env re) = None"
      "stmtSelectAuditEvent (h_audit h) (next_event_id (rv_env re) (h_audit h)) = None"
  shows "(case fst (recallOne re h i mid auth) of
      JsonResponse st b \<Rightarrow>
        if st = 200 then
          (\<exists>m. stmtMessageById (h_hub h) mid = Some m \<and> ms_from_agent m = i \<and> free_at (now_secs (rv_env re)) m \<and>
             (\<forall>x. stmtMessageById (h_hub (snd (recallOne re h i mid auth))) x =
                (if x = mid then None else stmtMessageById (h_hub h) x)) \<and>
             au_events (h_audit (snd (recallOne re h i mid auth))) =
               au_events (h_audit h) @ [recalled_event re (h_audit h) m auth] \<and>
             ae_identity (recalled_event re (h_audit h) m auth) = i)
        else (\<forall>m. stmtMessageById (h_hub h) mid = Some m \<and> ms_from_agent m = i \<longrightarrow> \<not> free_at (now_secs (rv_env re)) m) \<and>
          snd (recallOne re h i mid auth) = h
    | _ \<Rightarrow> False)"
proof -
  obtain out db where r: "recall (now_secs (rv_env re)) (h_hub h) i mid = (out, db)" by fastforce
  note ex = recall_exact [OF assms(1), of "now_secs (rv_env re)" i mid, unfolded r fst_conv snd_conv]
  show ?thesis
  proof (cases "out = Recalled")
    case True
    then obtain m where m: "stmtMessageById (h_hub h) mid = Some m" "ms_from_agent m = i" "free_at (now_secs (rv_env re)) m"
      using ex by blast
    have "recordRecalled (rv_env re) m (Some (JObj [(''scheme'', JStr ''AgentMeshSig''), (''authorization'', nullable auth)]))
        (h_audit h) = (h_audit h)\<lparr>au_events := au_events (h_audit h) @ [recalled_event re (h_audit h) m auth]\<rparr>"
      using audit audit_write_plain [of "rv_env re" "h_audit h" "recalled_event re (h_audit h) m auth"]
      by (simp add: recordRecalled_def recordMeshEvent_def recalled_event_def mesh_event_row_def Let_def)
    moreover have "ae_identity (recalled_event re (h_audit h) m auth) = i"
      using m(2) by (simp add: recalled_event_def mesh_event_row_def Let_def)
    ultimately show ?thesis
      using assms(2-4) True m ex by (simp add: recallOne_def r)
  next
    case False
    then have "sql_changes (recallable (now_secs (rv_env re)) i mid) (hb_messages (h_hub h)) = 0"
      using r by (auto simp: recall_def Let_def split: if_splits)
    then have "sql_delete (recallable (now_secs (rv_env re)) i mid) (hb_messages (h_hub h)) = hb_messages (h_hub h)"
      by (auto simp: sql_delete_def sql_changes_def filter_empty_conv intro: filter_True)
    then have "db = h_hub h" using r by (auto simp: recall_def Let_def split: if_splits)
    with False ex assms(2-4) show ?thesis
      by (cases out) (auto simp: recallOne_def r)
  qed
qed

definition waiting_message :: message_row where
  "waiting_message = \<lparr>ms_id = ''m1'', ms_from_agent = ''kim'', ms_to_agent = ''lee'', ms_sent_by = Some ''kim'',
     ms_content = ''x'', ms_reply_to = None, ms_status = MPending, ms_ts = 1, ms_leased_until = None, ms_via = None\<rparr>"

lemma recall_is_exact_and_recorded_witness:
  "case fst (recallOne plain_rest (pair_hub\<lparr>h_hub := hub_db_init\<lparr>hb_messages := [waiting_message]\<rparr>\<rparr>) ''kim'' ''m1'' None) of
     JsonResponse st b \<Rightarrow> st = 200 | _ \<Rightarrow> False"
proof -
  let ?h = "pair_hub\<lparr>h_hub := hub_db_init\<lparr>hb_messages := [waiting_message]\<rparr>\<rparr>"
  have "hub_pk (h_hub ?h)" "en_hub_error (rv_env plain_rest) = None" "''m1'' \<noteq> []" "CHR ''/'' \<notin> set ''m1''"
    "en_audit_error (rv_env plain_rest) = None"
    "stmtSelectAuditEvent (h_audit ?h) (next_event_id (rv_env plain_rest) (h_audit ?h)) = None" by code_simp+
  note t = recall_is_exact_and_recorded [OF this, of "''kim''" None]
  have "stmtMessageById (h_hub ?h) ''m1'' = Some waiting_message" "ms_from_agent waiting_message = ''kim''"
    "free_at (now_secs (rv_env plain_rest)) waiting_message" by code_simp+
  then have "\<not> (\<forall>m. stmtMessageById (h_hub ?h) ''m1'' = Some m \<and> ms_from_agent m = ''kim'' \<longrightarrow>
      \<not> free_at (now_secs (rv_env plain_rest)) m)" by blast
  with t show ?thesis by (auto split: response.splits if_splits)
qed

text \<open>
  The attestation of a withdrawal says that it covers the parameters of a \<open>mesh.send\<close>, and that those
  were empty; what the sender signed is the REST request that withdraws the message.
\<close>

lemma recall_attested_as_a_send:
  "ae_attestation (recalled_event re db m auth) =
     Some (json_text (JObj [(''covers'', JStr ''mesh.send.params''), (''params'', JStr ''{}''),
       (''sig'', JObj [(''scheme'', JStr ''AgentMeshSig''), (''authorization'', nullable auth)])]))"
  by (simp add: recalled_event_def mesh_event_row_def Let_def)

end
