(* ===== verification/Hub_Serve.thy ===== *)
theory Hub_Serve
  imports Hub_Provision Hub_Mailbox
begin

text \<open>
  The server of \<open>packages/hub/src/main.ts\<close>: the routing of an HTTP request, the frames and closes of the
  sockets, the intervals, and all of them as one step of the process.

  A request is what the handler reads of it: the method, the path and query of the URL, two headers, the
  address of the peer and the body. Whether it upgrades to a socket is part of the request; what the
  upgrade stores on the socket is the observed address, which the environment gives.
\<close>

section \<open>Path segments\<close>

text \<open>A sequence of UTF-8 bytes that encodes characters.\<close>

fun utf8_ok :: "nat list \<Rightarrow> bool" where
  "utf8_ok [] = True"
| "utf8_ok (b # bs) =
     (let cont = (\<lambda>x. 128 \<le> x \<and> x < 192)
      in if b < 128 then utf8_ok bs
         else if 194 \<le> b \<and> b < 224 then
           (case bs of x # r \<Rightarrow> cont x \<and> utf8_ok r | _ \<Rightarrow> False)
         else if 224 \<le> b \<and> b < 240 then
           (case bs of x # y # r \<Rightarrow>
              cont x \<and> cont y \<and> (b = 224 \<longrightarrow> 160 \<le> x) \<and> (b = 237 \<longrightarrow> x < 160) \<and> utf8_ok r | _ \<Rightarrow> False)
         else if 240 \<le> b \<and> b < 245 then
           (case bs of x # y # z # r \<Rightarrow>
              cont x \<and> cont y \<and> cont z \<and> (b = 240 \<longrightarrow> 144 \<le> x) \<and> (b = 244 \<longrightarrow> x < 144) \<and> utf8_ok r | _ \<Rightarrow> False)
         else False)"

fun percent_decode :: "string \<Rightarrow> string option" where
  "percent_decode [] = Some []"
| "percent_decode (c # s) =
     (if c = CHR ''%'' then
        (case s of
           a # b # r \<Rightarrow>
             (case (hex_value a, hex_value b) of
                (Some x, Some y) \<Rightarrow> map_option (\<lambda>t. char_of (16 * x + y) # t) (percent_decode r)
              | _ \<Rightarrow> None)
         | _ \<Rightarrow> None)
      else map_option (\<lambda>t. c # t) (percent_decode s))"

definition decodeURIComponent :: "string \<Rightarrow> string option" where
  "decodeURIComponent s =
     (case percent_decode s of None \<Rightarrow> None | Some t \<Rightarrow> if utf8_ok (map of_char t) then Some t else None)"

definition ends_with :: "string \<Rightarrow> string \<Rightarrow> bool" where
  "ends_with p s \<longleftrightarrow> length p \<le> length s \<and> drop (length s - length p) s = p"

definition segment :: "string \<Rightarrow> string \<Rightarrow> string \<Rightarrow> string" where
  "segment prefix suffix s = take (length s - length prefix - length suffix) (drop (length prefix) s)"

section \<open>Reports\<close>

fun refusal_kind_text :: "refusal_kind \<Rightarrow> string" where
  "refusal_kind_text SignatureRefusal = ''signature''"
| "refusal_kind_text EgressRefusal = ''egress''"

definition limiter_json :: "rest_env \<Rightarrow> limiter \<Rightarrow> json" where
  "limiter_json re l =
     (case limiter_stats l of (name, refusals, keys, capacity, refill) \<Rightarrow>
        JObj [(''name'', JStr name), (''refusals'', JInt (int refusals)), (''keys'', JInt (int keys)),
              (''capacity'', rv_number re capacity), (''refillPerSecond'', rv_number re refill)])"

definition limits_report :: "rest_env \<Rightarrow> server \<Rightarrow> json" where
  "limits_report re s =
     JObj [(''ok'', JBool True), (''counting_since'', JStr (rv_counting_since re)),
           (''limiters'', JArr [limiter_json re (sv_provision s), limiter_json re (sv_signed s)]),
           (''refusals'', JArr (map (\<lambda>((kind, reason), n).
              JObj [(''kind'', JStr (refusal_kind_text kind)), (''reason'', JStr reason), (''count'', JInt (int n))])
              (refusalCounts (h_refusals (sv_hub s)))))]"

definition health_report :: "rest_env \<Rightarrow> server \<Rightarrow> json" where
  "health_report re s =
     JObj [(''service'', JStr ''Agent Mesh Hub''), (''version'', JStr ''2.0.0''),
           (''agent_mesh_spec'', JStr (rv_spec re)),
           (''online_agents'', JInt (int (length (ps_online (h_presence (sv_hub s))))))]"

section \<open>Routing\<close>

record http_request =
  rq_upgrade :: bool
  rq_method :: string
  rq_pathname :: string
  rq_search :: string
  rq_authorization :: "string option"
  rq_forwarded :: "string option"
  rq_address :: "string option"
  rq_body :: string

definition observed_of :: "rest_env \<Rightarrow> http_request \<Rightarrow> string option" where
  "observed_of re q = observedSource (rv_observed re) (rq_address q) (rq_forwarded q)"

definition mailbox_request_of :: "rest_env \<Rightarrow> http_request \<Rightarrow> mailbox_request" where
  "mailbox_request_of re q =
     \<lparr>mr_method = rq_method q, mr_path = rq_pathname q @ rq_search q, mr_pathname = rq_pathname q,
      mr_search = rq_search q, mr_authorization = rq_authorization q, mr_body = rq_body q,
      mr_observed = observed_of re q\<rparr>"

definition NOT_FOUND :: response where "NOT_FOUND = TextResponse 404 ''Not Found''"

definition provisioning_path :: "string \<Rightarrow> bool" where
  "provisioning_path p \<longleftrightarrow> p = ''/api/agents'' \<or> p = ''/api/v1/agents''"

definition rate_limited :: "decision \<Rightarrow> response" where
  "rate_limited verdict =
     LimitedResponse 429 (JObj [(''ok'', JBool False), (''error'', JStr ''too many provisioning requests''),
       (''code'', JStr ''RATE_LIMITED''), (''retry_after'', JInt (dc_retryAfter verdict))]) (dc_retryAfter verdict)"

definition not_found_json :: response where
  "not_found_json = JsonResponse 404 (JObj [(''ok'', JBool False), (''error'', JStr ''not found'')])"

text \<open>The routes of a provisioned identity: its keys, and the refused teardown.\<close>

definition identity_routes :: "server \<Rightarrow> http_request \<Rightarrow> response" where
  "identity_routes s q =
     (let p = rq_pathname q
      in if starts_with ''/api/v1/agents/'' p \<and> ends_with ''/keys'' p then
           (let i = segment ''/api/v1/agents/'' ''/keys'' p
            in if i = [] \<or> CHR ''/'' \<in> set i then not_found_json
               else if rq_method q \<noteq> ''GET'' then method_not_allowed ''GET''
               else (case decodeURIComponent i of
                       None \<Rightarrow> ResponseThrew ''URI error''
                     | Some identity \<Rightarrow> handleGetAgentKeys (h_agents (sv_hub s)) identity))
         else if starts_with ''/api/agents/'' p then
           (let i = drop (length ''/api/agents/'') p
            in if i = [] \<or> CHR ''/'' \<in> set i then not_found_json
               else (case decodeURIComponent i of
                       None \<Rightarrow> ResponseThrew ''URI error''
                     | Some identity \<Rightarrow>
                         if rq_method q = ''DELETE'' then handleDeleteAgent identity else method_not_allowed ''DELETE''))
         else NOT_FOUND)"

definition provision_route :: "rest_env \<Rightarrow> server \<Rightarrow> http_request \<Rightarrow> response \<times> server" where
  "provision_route re s q =
     (let (verdict, limiter) = take_token (en_now (rv_env re)) (sv_provision s) (coalesce (observed_of re q) ''unknown-source'') 1;
          s1 = s\<lparr>sv_provision := limiter\<rparr>
      in if \<not> dc_ok verdict then (rate_limited verdict, s1)
         else if rq_method q \<noteq> ''POST'' then (method_not_allowed ''POST'', s1)
         else (case (if rq_pathname q = ''/api/agents'' then handlePostAgents re (sv_hub s1) (rq_body q)
                     else handlePostAgentsV1 re (sv_hub s1) (rq_body q)) of
                 (r, h) \<Rightarrow> (r, s1\<lparr>sv_hub := h\<rparr>)))"

definition rpc_route :: "rest_env \<Rightarrow> server \<Rightarrow> socket \<Rightarrow> http_request \<Rightarrow> response \<times> server" where
  "rpc_route re s ws q =
     (if rq_method q \<noteq> ''POST'' then (method_not_allowed ''POST'', s)
      else (case dispatchHttp (rv_env re) (sv_hub s) ws (rq_body q) (observed_of re q) of
              (r, h) \<Rightarrow>
                (case r of HttpAnswer st f \<Rightarrow> JsonResponse st f | HttpThrew e \<Rightarrow> ResponseThrew e, s\<lparr>sv_hub := h\<rparr>)))"

definition serve :: "rest_env \<Rightarrow> server \<Rightarrow> socket \<Rightarrow> http_request \<Rightarrow> response \<times> server" where
  "serve re s ws q =
     (let p = rq_pathname q
      in if rq_upgrade q then (Upgraded, s)
         else if p = ''/api/v1/limits'' then (JsonResponse 200 (limits_report re s), s)
         else if p = ''/'' \<or> p = ''/health'' then (JsonResponse 200 (health_report re s), s)
         else if handlesPath p then
           (case handleMailboxRoute re s ws (mailbox_request_of re q) of
              (r, s1) \<Rightarrow> (coalesce r NOT_FOUND, s1))
         else if provisioning_path p then provision_route re s q
         else if p = ''/api/v1/rpc'' then rpc_route re s ws q
         else (identity_routes s q, s))"

section \<open>The process\<close>

text \<open>
  What can happen to the process. A request over HTTP comes with a stand-in socket, an object made for
  it, so one that the connection maps know already is no request. The operator's decisions on keys are
  written to the same \<open>agents.db\<close> by the web server.
\<close>

datatype server_event =
    SvMessage socket string
  | SvPong socket
  | SvClose socket
  | SvHttp socket http_request
  | SvHeartbeat
  | SvLimitSweep
  | SvNonceSweep
  | SvKey key_op

definition close_socket :: "rest_env \<Rightarrow> server \<Rightarrow> socket \<Rightarrow> server" where
  "close_socket re s ws =
     (let h = sv_hub s
      in case on_close (now_secs (rv_env re)) (h_presence h, sv_awaiting s, h_agents h) ws of
           (p, awaiting, agents) \<Rightarrow> s\<lparr>sv_hub := h\<lparr>h_presence := p, h_agents := agents\<rparr>, sv_awaiting := awaiting\<rparr>)"

definition run_heartbeat :: "rest_env \<Rightarrow> server \<Rightarrow> server" where
  "run_heartbeat re s =
     (let h = sv_hub s; r = heartbeat_sweep (now_secs (rv_env re)) (h_presence h) (sv_awaiting s) (h_agents h)
      in s\<lparr>sv_hub := h\<lparr>h_presence := sw_presence r, h_agents := sw_db r\<rparr>, sv_awaiting := sw_awaiting r\<rparr>)"

text \<open>The loop of \<open>shutdown\<close>; the process ends after it.\<close>

definition shutdown :: "rest_env \<Rightarrow> server \<Rightarrow> server" where
  "shutdown re s =
     (let h = sv_hub s
      in s\<lparr>sv_hub := h\<lparr>h_agents := foldl (\<lambda>db (identity, ws). stmtUpdateLastSeen (now_secs (rv_env re)) db identity)
                                  (h_agents h) (ps_online (h_presence h))\<rparr>\<rparr>)"

definition run_limit_sweep :: "rest_env \<Rightarrow> server \<Rightarrow> server" where
  "run_limit_sweep re s =
     s\<lparr>sv_provision := snd (sweep_buckets (en_now (rv_env re)) (sv_provision s)),
       sv_signed := snd (sweep_buckets (en_now (rv_env re)) (sv_signed s))\<rparr>"

definition stand_in :: "server \<Rightarrow> socket \<Rightarrow> bool" where
  "stand_in s ws \<longleftrightarrow>
     ps_wsIdentities (h_presence (sv_hub s)) ws = None \<and> ps_wsProxies (h_presence (sv_hub s)) ws = None"

fun server_step :: "server \<Rightarrow> rest_env \<times> server_event \<Rightarrow> server" where
  "server_step s (re, SvMessage ws text) =
     (case on_message (rv_env re) (sv_hub s, sv_awaiting s) ws text of (h, aw) \<Rightarrow> s\<lparr>sv_hub := h, sv_awaiting := aw\<rparr>)"
| "server_step s (re, SvPong ws) = s\<lparr>sv_awaiting := alive (sv_awaiting s) ws\<rparr>"
| "server_step s (re, SvClose ws) = close_socket re s ws"
| "server_step s (re, SvHttp ws q) = (if stand_in s ws then snd (serve re s ws q) else s)"
| "server_step s (re, SvHeartbeat) = run_heartbeat re s"
| "server_step s (re, SvLimitSweep) = run_limit_sweep re s"
| "server_step s (re, SvNonceSweep) = s\<lparr>sv_hub := sweepExpiredNonces (sv_hub s) (now_secs (rv_env re))\<rparr>"
| "server_step s (re, SvKey op) =
     s\<lparr>sv_hub := (sv_hub s)\<lparr>h_agents := key_step (rc_fingerprint (rv_contracts re)) (h_agents (sv_hub s)) op\<rparr>\<rparr>"

end
