(* ===== verification/Hub_Run.thy ===== *)
theory Hub_Run
  imports Hub_Serve
begin

text \<open>
  The hub process over whole runs of \<open>server_step\<close>: every frame, close, request over HTTP, interval and
  operator decision, in any order.

  The lemmas: the invariant of the process, what no run can do to a message or to the record, and the
  refinement of an abstract message board, on which a message is posted once, settled once or
  withdrawn before it is settled.
\<close>

section \<open>The tables behind the gates\<close>

text \<open>The key table and the upload grants, which decide who may act.\<close>

definition gates_ok :: "agents_db \<Rightarrow> bool" where
  "gates_ok db \<longleftrightarrow> keys_ok db \<and> nonces_ok db"

lemma gates_cong:
  "db_keys db' = db_keys db \<Longrightarrow> db_upload_nonces db' = db_upload_nonces db \<Longrightarrow> gates_ok db' = gates_ok db"
  by (simp add: gates_ok_def keys_ok_def nonces_ok_def)

lemma recordSource_gates [simp]: "gates_ok (recordSource t db i o') = gates_ok db"
  by (rule gates_cong) (auto simp: recordSource_def split: option.split)

lemma lastSeen_gates [simp]: "gates_ok (stmtUpdateLastSeen t db i) = gates_ok db"
  by (rule gates_cong) (simp_all add: stmtUpdateLastSeen_def)

lemma markSend_gates [simp]: "gates_ok (markSend t db i) = gates_ok db"
  by (rule gates_cong) (simp_all add: markSend_def)

lemma lastSeen_fold_gates [simp]:
  "gates_ok (foldl (\<lambda>db (i, ws). stmtUpdateLastSeen t db i) db xs) = gates_ok db"
proof (induction xs arbitrary: db)
  case (Cons x xs)
  then show ?case by (cases x) (simp only: foldl_Cons prod.case lastSeen_gates)
qed simp

lemma decide_nonces [simp]: "db_upload_nonces (decideKey t db fp st ac) = db_upload_nonces db"
  by (simp add: decideKey_def)

lemma event_nonces [simp]: "db_upload_nonces (appendEvent t u db i fp a r ac) = db_upload_nonces db"
  by (simp add: appendEvent_def)

lemma propose_nonces:
  assumes "proposeKey fpf t uuid db i pk ac = Inr (r, db')"
  shows "db_upload_nonces db' = db_upload_nonces db"
proof (cases "keyByFingerprint db (fpf pk)")
  case None
  with assms show ?thesis
    by (auto simp: proposeKey_def Let_def split: prod.splits option.splits)
next
  case (Some k)
  with assms show ?thesis by (simp add: proposeKey_def Let_def split: if_splits)
qed

lemma approve_nonces:
  assumes "approveKey t uuid db fp ac = Inr (r, db')"
  shows "db_upload_nonces db' = db_upload_nonces db"
proof (cases "requireKey db fp [Pending]")
  case (Inr row)
  with assms show ?thesis
    by (cases "approvedKey db (k_identity row)") (auto simp: approveKey_def Let_def)
qed (use assms in \<open>simp add: approveKey_def\<close>)

lemma key_step_nonces: "db_upload_nonces (key_step fpf db op) = db_upload_nonces db"
proof (cases op)
  case (KPropose t uuid i pk ac)
  then show ?thesis
    using or_keep_cases [of db "proposeKey fpf t uuid db i pk ac"] by (auto dest: propose_nonces)
next
  case (KApprove t uuid fp ac)
  then show ?thesis
    using or_keep_cases [of db "approveKey t uuid db fp ac"]
    by (auto dest: approve_nonces)
next
  case (KDeny t uuid fp ac r)
  then show ?thesis
    using or_keep_cases [of db "denyKey t uuid db fp ac r"] by (auto simp: denyKey_Inr)
next
  case (KRevoke t uuid fp ac r)
  then show ?thesis
    using or_keep_cases [of db "revokeKey t uuid db fp ac r"] by (auto simp: revokeKey_Inr)
next
  case (KTeardown t uuid i ac)
  then show ?thesis
    by (auto simp: teardownIdentity_def Let_def split: option.splits if_splits)
qed

lemma key_step_gates: "gates_ok db \<Longrightarrow> gates_ok (key_step fpf db op)"
  using key_step_ok [of db fpf op] key_step_nonces [of fpf db op] by (simp add: gates_ok_def nonces_ok_def)

lemma prepare_gates: "gates_ok db \<Longrightarrow> gates_ok (snd (prepare_all env i db bs))"
proof (induction bs arbitrary: db)
  case (Cons b bs)
  show ?case
  proof (cases "prepare_one env i db b")
    case None
    with Cons.prems show ?thesis by simp
  next
    case (Some r)
    then obtain j db1 where one: "prepare_one env i db b = Some (j, db1)" by (cases r) simp
    then obtain gs where "db1 = db\<lparr>db_upload_nonces := db_upload_nonces db @ gs\<rparr>" "nonces_ok db \<longrightarrow> nonces_ok db1"
      by (rule prepare_one_grants)
    with Cons.prems have "gates_ok db1" by (simp add: gates_ok_def keys_ok_def)
    with Cons.IH [of db1] one show ?thesis by (simp add: case_prod_beta)
  qed
qed simp

lemma prepare_handler_gates:
  assumes "gates_ok (h_agents h)"
  shows "gates_ok (h_agents (snd (handlePrepareBlobs env h ws params i)))"
proof -
  let ?h' = "snd (handlePrepareBlobs env h ws params i)"
  have "h_agents ?h' = h_agents h \<or> (\<exists>x bs. h_agents ?h' = snd (prepare_all env x (h_agents h) bs))"
    unfolding handlePrepareBlobs_def Let_def
    by (auto simp: case_prod_beta split: option.split sum.split)
  with assms prepare_gates show ?thesis by auto
qed

section \<open>What every handler keeps\<close>

lemma accept_gates: "gates_ok a \<Longrightarrow> (\<And>a. gates_ok a \<Longrightarrow> gates_ok (f a)) \<Longrightarrow> gates_ok (snd (accept t db a opts f))"
  by (auto simp: accept_def split: option.split)

lemma send_gates:
  "gates_ok (h_agents h) \<Longrightarrow> gates_ok (h_agents (snd (handleSend env h ws params i raw sig via)))"
proof (rule handleSend_keeps)
  fix h :: hub and sf st
  assume g: "gates_ok (h_agents h)"
  have "gates_ok a" if "accept t (h_hub h) (h_agents h) opts (\<lambda>a. markSend t' a x) = (r, a)" for t opts t' x r a
    using accept_gates [OF g, of "\<lambda>a. markSend t' a x" t "h_hub h" opts] that by simp
  with g show "gates_ok (h_agents (snd (send_accept env h via sf st)))"
    by (auto simp: send_accept_def split: option.split prod.split)
qed (simp_all add: send_authorise_frame send_deliver_frame send_record_frame)

lemma connect_gates:
  "gates_ok (h_agents h) \<Longrightarrow> gates_ok (h_agents (snd (performConnect env h ws params i)))"
proof -
  assume g: "gates_ok (h_agents h)"
  have c: "gates_ok (h_agents (connected_state env h ws params x))" for x
    using g by (simp add: connected_state_def Let_def)
  show ?thesis
  proof (cases "given_string (jget params ''identity'')")
    case None
    with g show ?thesis by (simp add: performConnect_def)
  next
    case S: (Some x)
    show ?thesis
    proof (cases "stmtAgentExists (h_agents h) x")
      case False
      with g S show ?thesis by (simp add: performConnect_def ws_close_def)
    next
      case True
      show ?thesis
      proof (cases "owner (h_presence h) x = None \<or> owner (h_presence h) x = Some ws")
        case o: True
        then show ?thesis by (simp add: connect_granted [OF S True o] c)
      next
        case False
        then have "owner (h_presence h) x \<noteq> None" "owner (h_presence h) x \<noteq> Some ws" by auto
        from connect_refused [OF S True this, of env i] g show ?thesis by (auto simp: ws_close_def)
      qed
    qed
  qed
qed

lemma method_gates:
  "gates_ok (h_agents h) \<Longrightarrow> gates_ok (h_agents (snd (handle_method env h ws m params i raw sig)))"
  by (simp add: handle_method_def handleConnect_def handleRegister_def connect_gates send_gates prepare_handler_gates
      case_prod_beta)

lemma method_nonces [simp]: "h_nonces (snd (handle_method env h ws m params i raw sig)) = h_nonces h"
  by (simp add: handle_method_def handleConnect_def handleRegister_def case_prod_beta)

lemma http_gates:
  "gates_ok (h_agents h) \<Longrightarrow> gates_ok (h_agents (snd (handle_http env h ws identity m params i raw sig)))"
  by (simp add: handle_http_def send_gates prepare_handler_gates case_prod_beta Let_def)

lemma http_nonces [simp]: "h_nonces (snd (handle_http env h ws identity m params i raw sig)) = h_nonces h"
  by (simp add: handle_http_def case_prod_beta Let_def)

section \<open>An abstract message board\<close>

text \<open>
  What clients of the hub may rely on: a letter is posted under an unused name, it is settled once, and
  it is withdrawn only before that. Nothing else happens to a letter.
\<close>

record letter =
  lt_from :: string
  lt_to :: string
  lt_sent_by :: "string option"
  lt_content :: string
  lt_reply_to :: "string option"
  lt_settled :: bool

type_synonym board = "string \<rightharpoonup> letter"

inductive board_step :: "board \<Rightarrow> board \<Rightarrow> bool" where
  post: "b x = None \<Longrightarrow> board_step b (b(x \<mapsto> l))"
| settle: "b x = Some l \<Longrightarrow> \<not> lt_settled l \<Longrightarrow> board_step b (b(x \<mapsto> l\<lparr>lt_settled := True\<rparr>))"
| withdraw: "b x = Some l \<Longrightarrow> \<not> lt_settled l \<Longrightarrow> board_step b (b(x := None))"

inductive_cases board_stepE: "board_step b b'"

definition letter_of :: "message_row \<Rightarrow> letter" where
  "letter_of m = \<lparr>lt_from = ms_from_agent m, lt_to = ms_to_agent m, lt_sent_by = ms_sent_by m,
     lt_content = ms_content m, lt_reply_to = ms_reply_to m, lt_settled = (ms_status m = MDelivered)\<rparr>"

definition board_of :: "hub_db \<Rightarrow> board" where
  "board_of db x = map_option letter_of (stmtMessageById db x)"

lemma settled_letter_stays: "board_step\<^sup>*\<^sup>* b b' \<Longrightarrow> b x = Some l \<Longrightarrow> lt_settled l \<Longrightarrow> b' x = Some l"
  by (induction rule: rtranclp_induct) (auto elim!: board_stepE split: if_splits)

text \<open>A board on which letters are added and settled can be reached.\<close>

lemma board_reached:
  assumes "finite D" "\<And>x. x \<notin> D \<Longrightarrow> b' x = b x"
    and "\<And>x l. b x = Some l \<Longrightarrow> b' x = Some l \<or> \<not> lt_settled l \<and> b' x = Some (l\<lparr>lt_settled := True\<rparr>)"
  shows "board_step\<^sup>*\<^sup>* b b'"
  using assms
proof (induction D arbitrary: b)
  case empty
  then have "b' = b" by (simp add: fun_eq_iff)
  then show ?case by simp
next
  case (insert y D)
  let ?b = "b(y := b' y)"
  have "b' y = None \<Longrightarrow> b y = None" using insert.prems(2) [of y] by (cases "b y") auto
  then have "board_step\<^sup>*\<^sup>* b ?b"
  proof (cases "b y")
    case None
    then show ?thesis using post [where b = b and x = y] by (cases "b' y") (auto simp: fun_upd_idem)
  next
    case (Some l)
    with insert.prems(2) [OF Some] settle [where b = b and x = y and l = l] show ?thesis
      by (auto simp: fun_upd_idem)
  qed
  also have "board_step\<^sup>*\<^sup>* ?b b'"
  proof (rule insert.IH)
    show "b' x = ?b x" if "x \<notin> D" for x using insert.prems(1) [of x] that by auto
    show "b' x = Some l \<or> \<not> lt_settled l \<and> b' x = Some (l\<lparr>lt_settled := True\<rparr>)" if "?b x = Some l" for x l
      using insert.prems(2) [of x l] that by (auto split: if_splits)
  qed
  finally show ?case .
qed

lemma board_finite: "finite (dom (board_of db))"
proof (rule finite_subset)
  show "dom (board_of db) \<subseteq> ms_id ` set (hb_messages db)"
    by (auto simp: board_of_def stmtMessageById_def dest!: sql_get_SomeD)
qed simp

section \<open>How the process moves\<close>

text \<open>
  From one state of the hub to another: the record grows at its end, the keys of the tables stay unique,
  no proxy route outlives its socket, and the board makes steps.
\<close>

definition moves :: "hub \<Rightarrow> hub \<Rightarrow> bool" where
  "moves h h' \<longleftrightarrow> audit_extends (h_audit h) (h_audit h') \<and> (hub_pk (h_hub h) \<longrightarrow> hub_pk (h_hub h')) \<and>
     (reminder_pk (h_reminders h) \<longrightarrow> reminder_pk (h_reminders h')) \<and>
     (proxies_ok (h_presence h) \<longrightarrow> proxies_ok (h_presence h')) \<and>
     board_step\<^sup>*\<^sup>* (board_of (h_hub h)) (board_of (h_hub h'))"

lemma moves_refl [simp]: "moves h h"
  by (simp add: moves_def)

lemma moves_trans [trans]: "moves a b \<Longrightarrow> moves b c \<Longrightarrow> moves a c"
  unfolding moves_def by (meson audit_extends_trans rtranclp_trans)

lemma moves_ok: "moves h h' \<Longrightarrow> hub_ok h \<Longrightarrow> hub_ok h'"
  by (auto simp: moves_def hub_ok_def audit_extends_def)

lemma same_message_letter:
  assumes "same_message m m'"
  shows "letter_of m' = letter_of m \<or> \<not> lt_settled (letter_of m) \<and> letter_of m' = (letter_of m)\<lparr>lt_settled := True\<rparr>"
proof -
  have m': "m' = m\<lparr>ms_status := ms_status m', ms_leased_until := ms_leased_until m'\<rparr>"
    "ms_status m = MDelivered \<longrightarrow> ms_status m' = MDelivered" using assms by (simp_all add: same_message_def)
  have "letter_of m' = (letter_of m)\<lparr>lt_settled := (ms_status m' = MDelivered)\<rparr>"
    by (subst m'(1)) (simp add: letter_of_def)
  with m'(2) show ?thesis
    by (cases "ms_status m"; cases "ms_status m'") (auto simp: letter_of_def)
qed

lemma evolves_moves: "evolves h h' \<Longrightarrow> moves h h'"
proof -
  assume e: "evolves h h'"
  let ?b = "board_of (h_hub h)" and ?b' = "board_of (h_hub h')"
  have "board_step\<^sup>*\<^sup>* ?b ?b'"
  proof (rule board_reached)
    show "finite (dom ?b \<union> dom ?b')" by (simp add: board_finite)
    show "?b' x = ?b x" if "x \<notin> dom ?b \<union> dom ?b'" for x using that by (simp add: domIff)
    fix x l
    assume "?b x = Some l"
    then obtain m where m: "stmtMessageById (h_hub h) x = Some m" "l = letter_of m" by (auto simp: board_of_def)
    with e obtain m' where "stmtMessageById (h_hub h') x = Some m'" "same_message m m'"
      by (auto simp: evolves_def)
    with m same_message_letter [of m m']
    show "?b' x = Some l \<or> \<not> lt_settled l \<and> ?b' x = Some (l\<lparr>lt_settled := True\<rparr>)" by (auto simp: board_of_def)
  qed
  with e show ?thesis by (simp add: moves_def evolves_def)
qed

lemma moves_other:
  "h_audit h' = h_audit h \<Longrightarrow> h_hub h' = h_hub h \<Longrightarrow> h_reminders h' = h_reminders h \<Longrightarrow>
   (proxies_ok (h_presence h) \<Longrightarrow> proxies_ok (h_presence h')) \<Longrightarrow> moves h h'"
  by (rule evolves_moves) (rule evolves_other)

lemma recall_moves:
  assumes "hub_pk (h_hub h)"
  shows "moves h (snd (recallOne re h i mid auth))"
proof (cases "mid = [] \<or> CHR ''/'' \<in> set mid \<or> en_hub_error (rv_env re) \<noteq> None")
  case True
  then show ?thesis by (auto simp: recallOne_def)
next
  case False
  obtain out db where r: "recall (now_secs (rv_env re)) (h_hub h) i mid = (out, db)" by fastforce
  note ex = recall_exact [OF assms, of "now_secs (rv_env re)" i mid, unfolded r fst_conv snd_conv]
  have f: "h_hub (snd (recallOne re h i mid auth)) = db"
    "h_presence (snd (recallOne re h i mid auth)) = h_presence h"
    "h_reminders (snd (recallOne re h i mid auth)) = h_reminders h"
    "audit_extends (h_audit h) (h_audit (snd (recallOne re h i mid auth)))"
    using False by (auto simp: recallOne_def r recordRecalled_def Let_def split: recall_outcome.split option.split)
  have "board_step\<^sup>*\<^sup>* (board_of (h_hub h)) (board_of db)"
  proof (cases "out = Recalled")
    case True
    then obtain m where m: "stmtMessageById (h_hub h) mid = Some m" "free_at (now_secs (rv_env re)) m" using ex by blast
    have "board_of db = (board_of (h_hub h))(mid := None)"
      using ex True by (auto simp: board_of_def fun_eq_iff)
    moreover have "board_step (board_of (h_hub h)) ((board_of (h_hub h))(mid := None))"
      by (rule withdraw [of _ _ "letter_of m"]) (use m in \<open>auto simp: board_of_def letter_of_def free_at_def\<close>)
    ultimately show ?thesis by simp
  next
    case False
    then have "\<forall>x. stmtMessageById db x = stmtMessageById (h_hub h) x" using ex by metis
    then have "board_of db = board_of (h_hub h)" by (simp add: board_of_def fun_eq_iff)
    then show ?thesis by simp
  qed
  moreover have "hub_pk db" using hub_pk_recall [OF assms, of "now_secs (rv_env re)" i mid] r by simp
  ultimately show ?thesis using f by (simp add: moves_def)
qed

section \<open>One step of the process\<close>

definition server_ok :: "server \<Rightarrow> bool" where
  "server_ok s \<longleftrightarrow> hub_ok (sv_hub s) \<and> gates_ok (h_agents (sv_hub s)) \<and> nw_ok (h_nonces (sv_hub s)) \<and>
     limiter_ok (sv_provision s) \<and> limiter_ok (sv_signed s)"

text \<open>The part of it that guards who may act.\<close>

definition guards_ok :: "hub \<Rightarrow> bool" where
  "guards_ok h \<longleftrightarrow> gates_ok (h_agents h) \<and> nw_ok (h_nonces h)"

lemma guards_cong: "h_agents h' = h_agents h \<Longrightarrow> h_nonces h' = h_nonces h \<Longrightarrow> guards_ok h' = guards_ok h"
  by (simp add: guards_ok_def)

lemma verify_guards: "guards_ok h \<Longrightarrow> guards_ok (snd (verifyRequest env h i m sig raw))"
  by (auto simp: guards_ok_def verifyRequest_nonces inner_nonces nw_ok_claim split: option.split)

lemma dispatch_guards: "guards_ok h \<Longrightarrow> guards_ok (snd (dispatch env h ws text))"
proof (cases rule: dispatch_cases [of env h ws "text"])
  case rejected
  then show "guards_ok h \<Longrightarrow> ?thesis" by simp
next
  case (handled req meth params sig h1)
  assume g: "guards_ok h"
  have "guards_ok h1"
  proof (cases "speakingAs h ws meth params")
    case None
    with handled(5) g show ?thesis by simp
  next
    case (Some i)
    with handled(5) obtain signed where "verifyRequest env h i meth sig text = (SigOk signed, h1)" by auto
    with verify_guards [OF g, of env i meth sig "text"] show ?thesis by simp
  qed
  then show ?thesis unfolding handled(6) by (simp add: guards_ok_def method_gates)
next
  case (refused req meth i c m r d h1)
  assume "guards_ok h"
  from verify_guards [OF this, of env i meth "jget req ''sig''" "text"] have "guards_ok h1" by (simp add: refused(4))
  then show ?thesis unfolding refused(5) by (simp add: guards_ok_def ws_close_def)
qed

lemma dispatchHttp_guards: "guards_ok h \<Longrightarrow> guards_ok (snd (dispatchHttp env h ws raw observed))"
proof (cases rule: dispatchHttp_cases [of env h ws raw observed])
  case (rejected cs)
  then show "guards_ok h \<Longrightarrow> ?thesis" by (simp add: guards_ok_def)
next
  case (refused i meth sig)
  then show "guards_ok h \<Longrightarrow> ?thesis" by (simp add: verify_guards)
next
  case (handled req meth i signed h1)
  assume "guards_ok h"
  from verify_guards [OF this, of env i meth "jget req ''sig''" raw] have "guards_ok h1" by (simp add: handled(4))
  then show ?thesis unfolding handled(5) by (simp add: guards_ok_def leave_caller_def enter_caller_def http_gates)
qed

lemma envelope_nonces: "nw_ok (h_nonces h) \<Longrightarrow> nw_ok (h_nonces (snd (check_envelope re h verb path body a)))"
proof -
  assume w: "nw_ok (h_nonces h)"
  obtain kid nonce iat sg where a: "a = (kid, nonce, iat, sg)" by (cases a)
  have "nw_ok w'" if "claim (h_nonces h) kid nonce iat = (r, w')" for r w'
    using nw_ok_claim [OF w, of kid nonce iat] that by simp
  with w show ?thesis
    by (auto simp: check_envelope_def a Let_def split: option.split prod.split bool.split verify_outcome.split)
qed

lemma check_signature_guards: "guards_ok h \<Longrightarrow> guards_ok (snd (check_signature re h verb path hv body))"
  by (auto simp: guards_ok_def check_signature_def Let_def envelope_nonces split: option.split)

lemma authenticate_ok:
  assumes "server_ok s"
  shows "server_ok (snd (authenticate re s verb path hv body observed))"
    and "moves (sv_hub s) (sv_hub (snd (authenticate re s verb path hv body observed)))"
proof -
  let ?s' = "snd (authenticate re s verb path hv body observed)"
  have g: "guards_ok (snd (check_signature re (sv_hub s) verb path hv body))"
    using assms by (intro check_signature_guards) (simp add: server_ok_def guards_ok_def)
  have t: "limiter_ok l" if "take_token t (sv_signed s) j 1 = (d, l)" for t j d l
    using take_token_ok [of "sv_signed s" 1 t j] assms that by (simp add: server_ok_def)
  have m: "guards_ok (sv_hub ?s') \<and> limiter_ok (sv_signed ?s') \<and> sv_provision ?s' = sv_provision s \<and>
    moves (sv_hub s) (sv_hub ?s')"
  proof (cases rule: authenticate_cases [of re s verb path hv body observed])
    case (refused st b)
    with g assms show ?thesis by (simp add: moves_other server_ok_def)
  next
    case (signed i k)
    obtain budget limiter where tk: "take_token (en_now (rv_env re)) (sv_signed s) i 1 = (budget, limiter)" by fastforce
    show ?thesis
      unfolding authenticate_signed [OF signed(2)] using g t [OF tk] tk
      by (auto simp: Let_def case_prod_beta guards_ok_def intro!: moves_other)
  qed
  then show "moves (sv_hub s) (sv_hub ?s')" by simp
  with m assms moves_ok show "server_ok ?s'" by (auto simp: server_ok_def guards_ok_def)
qed

text \<open>The routes of the inbox surface.\<close>

lemma leave_enter_moves:
  assumes "moves (enter_caller h ws i) h'" "h_presence h' = h_presence (enter_caller h ws i)"
    and "ps_wsIdentities (h_presence h) ws = None" "ps_wsProxies (h_presence h) ws = None"
  shows "moves h (leave_caller h' ws)"
  using assms by (simp add: moves_def enter_caller_def leave_caller_def fun_upd_idem)

lemma route_moves:
  assumes "hub_pk (h_hub h)"
    and fresh: "ps_wsIdentities (h_presence h) ws = None" "ps_wsProxies (h_presence h) ws = None"
  shows "moves h (snd (mailboxRoute re h ws req i))"
proof -
  have S: "moves h (leave_caller (snd (handleSend env (enter_caller h ws i) ws params n raw sig via)) ws)"
    for env params n raw sig via
    using fresh by (intro leave_enter_moves [where i = i] evolves_moves send_evolves) simp_all
  have E: "moves h (leave_caller (enter_caller h ws i) ws)"
    using fresh by (intro leave_enter_moves [where i = i]) simp_all
  from S E have "moves h (snd (sendOne re h ws i body observed))" for body observed
    by (simp add: sendOne_def asCallerRaw_def asCaller_def case_prod_beta Let_def split: option.split)
  moreover have "moves h (snd (receiveRoute re h i body))" for body
    by (auto simp: receiveRoute_def case_prod_beta intro!: evolves_moves receive_evolves split: option.split)
  moreover from E have "moves h (snd (historyRoute re h ws i search))" for search
    by (simp add: historyRoute_def asCaller_def case_prod_beta Let_def split: option.split)
  ultimately show ?thesis
    using recall_moves [OF assms(1)] by (simp add: mailboxRoute_def Let_def)
qed

lemma route_guards: "guards_ok h \<Longrightarrow> guards_ok (snd (mailboxRoute re h ws req i))"
proof -
  assume g: "guards_ok h"
  have e: "guards_ok (enter_caller h ws i)" using g by (simp add: guards_ok_def enter_caller_def)
  have l: "guards_ok h' \<Longrightarrow> guards_ok (leave_caller h' ws)" for h' by (simp add: guards_ok_def leave_caller_def)
  have "guards_ok (snd (handleSend env (enter_caller h ws i) ws params n raw sig via))" for env params n raw sig via
    using e by (simp add: guards_ok_def send_gates)
  with g e have "guards_ok (snd (sendOne re h ws i body observed))" for body observed
    by (auto simp: sendOne_def asCallerRaw_def asCaller_def case_prod_beta Let_def intro!: l split: option.split)
  moreover have "guards_ok (snd (receiveRoute re h i body))" for body
    using g by (auto simp: receiveRoute_def case_prod_beta guards_ok_def split: option.split)
  moreover have "guards_ok (snd (historyRoute re h ws i search))" for search
    using g e by (auto simp: historyRoute_def asCaller_def case_prod_beta Let_def intro!: l split: option.split)
  moreover have "guards_ok (snd (recallOne re h i mid auth))" for mid auth
    using g by (auto simp: recallOne_def guards_ok_def Let_def case_prod_beta split: option.split recall_outcome.split)
  ultimately show ?thesis using g by (simp add: mailboxRoute_def Let_def)
qed

lemma mailbox_ok:
  assumes "server_ok s" "stand_in s ws"
  shows "server_ok (snd (handleMailboxRoute re s ws req)) \<and>
    moves (sv_hub s) (sv_hub (snd (handleMailboxRoute re s ws req)))"
proof -
  obtain r s1 where a: "authenticate re s (mr_method req) (mr_path req) (mr_authorization req) (mr_body req)
      (mr_observed req) = (r, s1)" by fastforce
  have ok: "server_ok s1" "moves (sv_hub s) (sv_hub s1)"
    using authenticate_ok [OF assms(1), of re "mr_method req" "mr_path req" "mr_authorization req" "mr_body req"
        "mr_observed req"] a by simp_all
  have p: "h_presence (sv_hub s1) = h_presence (sv_hub s)"
    using rest_gate [of re s "mr_method req" "mr_path req" "mr_authorization req" "mr_body req" "mr_observed req"] a
    by simp
  show ?thesis
  proof (cases r)
    case (SignedRefused st b)
    with assms ok a show ?thesis by (simp add: handleMailboxRoute_def)
  next
    case (SignedOk i k)
    let ?h = "snd (mailboxRoute re (sv_hub s1) ws req i)"
    have m: "moves (sv_hub s1) ?h"
      using ok(1) assms(2) p by (intro route_moves) (simp_all add: server_ok_def hub_ok_def stand_in_def)
    have "guards_ok ?h" using ok(1) by (intro route_guards) (simp add: server_ok_def guards_ok_def)
    with m ok moves_ok [OF m] have "server_ok (s1\<lparr>sv_hub := ?h\<rparr>)" "moves (sv_hub s) ?h"
      by (auto simp: server_ok_def guards_ok_def intro: moves_trans)
    with assms SignedOk a show ?thesis by (simp add: handleMailboxRoute_def case_prod_beta)
  qed
qed

text \<open>The provisioning routes.\<close>

lemma upsert_nonces [simp]: "db_upload_nonces (h_agents (snd (upsert re h p))) = db_upload_nonces (h_agents h)"
  by (simp add: upsert_def Let_def case_prod_beta stmtInsertAgentIfAbsent_def stmtUpsertAgentTyped_def
      applyDeclaredProxy_def stmtSetCanProxy_def split: option.split)

lemma record_nonces: "recordKey re h p = Inr (key, h2) \<Longrightarrow> db_upload_nonces (h_agents h2) = db_upload_nonces (h_agents h)"
  by (auto simp: recordKey_def dest: propose_nonces split: option.splits sum.splits prod.splits if_splits key_error.splits)

lemma post_ok:
  assumes "guards_ok h"
  shows "guards_ok (snd (handlePostAgentsV1 re h body)) \<and> moves h (snd (handlePostAgentsV1 re h body))"
proof (cases rule: provision_cases [of re h body])
  case (refused r)
  with assms show ?thesis by simp
next
  case (carried p existed key h2)
  let ?h1 = "snd (upsert re h p)"
  note up = upsert_done [OF carried(2) parse_Inr(1) [OF carried(1)]]
  have ok: "keys_ok (h_agents ?h1)" using assms by (simp add: keys_cong(1) [OF up(3)] guards_ok_def gates_ok_def)
  note eff = recordKey_effect [OF carried(3) ok]
  have f: "h_hub h2 = h_hub h" "h_presence h2 = h_presence h" "h_reminders h2 = h_reminders h" "h_audit h2 = h_audit ?h1"
    "h_nonces h2 = h_nonces h"
    by (subst eff(1); simp)+
  have "gates_ok (h_agents h2)"
    using eff(4) record_nonces [OF carried(3)] assms by (simp add: gates_ok_def nonces_ok_def guards_ok_def)
  moreover have "moves h h2" by (rule evolves_moves) (simp add: evolves_def f)
  ultimately show ?thesis using assms f(5) by (simp add: carried(6) guards_ok_def)
qed

lemma provision_ok:
  assumes "server_ok s"
  shows "server_ok (snd (provision_route re s q)) \<and> moves (sv_hub s) (sv_hub (snd (provision_route re s q)))"
proof -
  obtain d l where t: "take_token (en_now (rv_env re)) (sv_provision s) (coalesce (observed_of re q) ''unknown-source'') 1 = (d, l)"
    by fastforce
  have l: "limiter_ok l"
    using take_token_ok [of "sv_provision s" 1] assms t by (metis server_ok_def snd_conv zero_le_one)
  have g: "guards_ok (sv_hub s)" using assms by (simp add: server_ok_def guards_ok_def)
  have same: "snd (handlePostAgents re (sv_hub s) (rq_body q)) = snd (handlePostAgentsV1 re (sv_hub s) (rq_body q))"
    by (simp add: provisioning_alias_hub)
  have "server_ok (s\<lparr>sv_provision := l, sv_hub := snd (handlePostAgentsV1 re (sv_hub s) (rq_body q))\<rparr>)"
    using post_ok [OF g, of re "rq_body q"] l assms moves_ok by (auto simp: server_ok_def guards_ok_def)
  moreover have "server_ok (s\<lparr>sv_provision := l\<rparr>)" using assms l by (simp add: server_ok_def)
  ultimately show ?thesis
    using post_ok [OF g, of re "rq_body q"]
    by (simp add: provision_route_def t case_prod_beta same Let_def)
qed

lemma rpc_ok:
  assumes "server_ok s" "stand_in s ws"
  shows "server_ok (snd (rpc_route re s ws q)) \<and> moves (sv_hub s) (sv_hub (snd (rpc_route re s ws q)))"
proof -
  let ?h = "snd (dispatchHttp (rv_env re) (sv_hub s) ws (rq_body q) (observed_of re q))"
  have m: "moves (sv_hub s) ?h"
    using assms(2) by (intro evolves_moves dispatchHttp_evolves) (simp_all add: stand_in_def)
  have "guards_ok ?h" using assms(1) by (intro dispatchHttp_guards) (simp add: server_ok_def guards_ok_def)
  with m assms(1) moves_ok [OF m] show ?thesis
    by (simp add: rpc_route_def case_prod_beta server_ok_def guards_ok_def)
qed

lemma serve_ok:
  assumes "server_ok s" "stand_in s ws"
  shows "server_ok (snd (serve re s ws q)) \<and> moves (sv_hub s) (sv_hub (snd (serve re s ws q)))"
  using assms mailbox_ok [OF assms] provision_ok [OF assms(1)] rpc_ok [OF assms]
  by (simp add: serve_def Let_def case_prod_beta)

text \<open>The sockets' own events and the intervals.\<close>

lemma message_ok:
  assumes "server_ok s"
  shows "server_ok (server_step s (re, SvMessage ws text)) \<and>
    moves (sv_hub s) (sv_hub (server_step s (re, SvMessage ws text)))"
proof -
  let ?h = "snd (dispatch (rv_env re) (sv_hub s) ws text)"
  have g: "guards_ok ?h" using assms by (intro dispatch_guards) (simp add: server_ok_def guards_ok_def)
  have m: "moves (sv_hub s) ?h" by (intro evolves_moves dispatch_evolves)
  have o': "moves ?h (?h\<lparr>h_out := x\<rparr>)" for x by (simp add: moves_other)
  have "server_ok (s\<lparr>sv_hub := ?h, sv_awaiting := a\<rparr>)" "server_ok (s\<lparr>sv_hub := ?h\<lparr>h_out := x\<rparr>, sv_awaiting := a\<rparr>)" for a x
    using g assms moves_ok [OF m] by (simp_all add: server_ok_def guards_ok_def hub_ok_def)
  with m o' show ?thesis
    by (auto simp: on_message_def case_prod_beta Let_def intro: moves_trans split: option.split)
qed

lemma close_ok:
  assumes "server_ok s"
  shows "server_ok (close_socket re s ws) \<and> moves (sv_hub s) (sv_hub (close_socket re s ws))"
proof -
  let ?h = "sv_hub s" and ?h' = "sv_hub (close_socket re s ws)"
  have m: "moves ?h ?h'"
  proof (rule moves_other)
    show "proxies_ok (h_presence ?h')" if "proxies_ok (h_presence ?h)"
      using that by (auto simp: close_socket_def on_close_def Let_def drop_proxies_ok split: option.split)
  qed (simp_all add: close_socket_def Let_def case_prod_beta)
  have "gates_ok (h_agents ?h')"
    using assms by (auto simp: close_socket_def on_close_def Let_def server_ok_def split: option.split)
  moreover have "h_nonces ?h' = h_nonces ?h" "sv_provision (close_socket re s ws) = sv_provision s"
    "sv_signed (close_socket re s ws) = sv_signed s" by (simp_all add: close_socket_def Let_def case_prod_beta)
  ultimately show ?thesis using assms m moves_ok [OF m] by (simp add: server_ok_def)
qed

lemma sweep_keeps:
  assumes "gates_ok (sw_db a)" "proxies_ok (sw_presence a)"
  shows "gates_ok (sw_db (foldl (sweep_entry t) a es)) \<and> proxies_ok (sw_presence (foldl (sweep_entry t) a es))"
  using assms
proof (induction es arbitrary: a)
  case (Cons e es)
  have "gates_ok (sw_db (sweep_entry t a e))" "proxies_ok (sw_presence (sweep_entry t a e))"
    using Cons.prems by (auto simp: sweep_entry_def drop_proxies_ok split: prod.split)
  from Cons.IH [OF this] show ?case by simp
qed simp

lemma heartbeat_ok:
  assumes "server_ok s"
  shows "server_ok (run_heartbeat re s) \<and> moves (sv_hub s) (sv_hub (run_heartbeat re s))"
proof -
  let ?h = "sv_hub s"
  let ?r = "heartbeat_sweep (now_secs (rv_env re)) (h_presence ?h) (sv_awaiting s) (h_agents ?h)"
  have k: "gates_ok (sw_db ?r)" "proxies_ok (sw_presence ?r)"
    using assms sweep_keeps by (auto simp: heartbeat_sweep_def server_ok_def hub_ok_def)
  have m: "moves ?h (sv_hub (run_heartbeat re s))"
    using k(2) by (intro moves_other) (simp_all add: run_heartbeat_def Let_def)
  then show ?thesis using assms k(1) moves_ok [OF m] by (simp add: server_ok_def run_heartbeat_def Let_def)
qed

lemma step_ok:
  assumes "server_ok s"
  shows "server_ok (server_step s ev) \<and> moves (sv_hub s) (sv_hub (server_step s ev))"
proof -
  obtain re e where ev: "ev = (re, e)" by (cases ev)
  show ?thesis
  proof (cases e)
    case (SvMessage ws msg)
    with message_ok [OF assms] show ?thesis by (simp only: ev)
  next
    case (SvPong ws)
    with assms show ?thesis by (simp add: ev server_ok_def)
  next
    case (SvClose ws)
    with close_ok [OF assms] show ?thesis by (simp add: ev)
  next
    case (SvHttp ws q)
    with assms serve_ok [OF assms, of ws re q] show ?thesis by (simp add: ev)
  next
    case SvHeartbeat
    with heartbeat_ok [OF assms] show ?thesis by (simp add: ev)
  next
    case SvLimitSweep
    with assms show ?thesis by (simp add: ev server_ok_def run_limit_sweep_def sweep_ok)
  next
    case SvNonceSweep
    with assms show ?thesis
      by (simp add: ev server_ok_def sweepExpiredNonces_def nw_ok_sweep hub_ok_def moves_other)
  next
    case (SvKey op)
    with assms show ?thesis
      by (simp add: ev server_ok_def key_step_gates hub_ok_def moves_other)
  qed
qed

interpretation process: machine server_step server_ok
  by unfold_locales (simp add: step_ok)

lemma run_moves: "server_ok s \<Longrightarrow> moves (sv_hub s) (sv_hub (foldl server_step s evs))"
  using process.run_stable [where Q = "\<lambda>s'. moves (sv_hub s) (sv_hub s')" and s = s and ops = evs]
  by (meson moves_refl moves_trans step_ok)

section \<open>Every run\<close>

text \<open>The process as it starts, with the limits that the environment variables of the process give.\<close>

definition server_init :: "secs \<Rightarrow> int \<Rightarrow> (string \<Rightarrow> string option) \<Rightarrow> server" where
  "server_init t freshness vars =
     \<lparr>sv_hub = hub_init t freshness, sv_awaiting = {}, sv_provision = PROVISION_LIMIT vars, sv_signed = SIGNED_LIMIT vars\<rparr>"

definition server_run :: "secs \<Rightarrow> int \<Rightarrow> (string \<Rightarrow> string option) \<Rightarrow> (rest_env \<times> server_event) list \<Rightarrow> server" where
  "server_run t freshness vars evs = foldl server_step (server_init t freshness vars) evs"

lemma limit_int_pos: "0 < d \<Longrightarrow> 0 < limit_int v d"
  by (auto simp: limit_int_def split: option.split)

lemma limits_ok: "limiter_ok (PROVISION_LIMIT vars)" "limiter_ok (SIGNED_LIMIT vars)"
proof -
  have "0 \<le> (of_int (limit_int v d) :: rat)" "0 < (of_int (limit_int v d) / 60 :: rat)" if "0 < d" for v d
    using limit_int_pos [OF that, of v] by simp_all
  then show "limiter_ok (PROVISION_LIMIT vars)" "limiter_ok (SIGNED_LIMIT vars)"
    using limiter_new_ok unfolding PROVISION_LIMIT_def SIGNED_LIMIT_def by simp_all
qed

lemma init_ok: "server_ok (server_init t freshness vars)"
  by (simp add: server_ok_def server_init_def hub_init_def limits_ok hub_ok_def gates_ok_def keys_ok_init
      nonces_ok_def nw_ok_def nonce_window_new_def hub_pk_def hub_db_init_def audit_pk_def audit_db_init_def
      reminder_pk_def reminder_db_init_def sql_unique_where_def proxies_ok_def presence_new_def)

lemma run_ok: "server_ok (server_run t freshness vars evs)"
  unfolding server_run_def by (rule process.run_invar) (rule init_ok)

lemma run_append: "server_run t freshness vars (evs @ evs') = foldl server_step (server_run t freshness vars evs) evs'"
  by (simp add: server_run_def)


text \<open>
  C3: The hub refines the message board. Every run of the process starts from the empty board, and what
  any further events do to the stored messages is a sequence of the board's own steps: a letter is
  posted under an unused name, an unsettled one is settled, or an unsettled one is withdrawn.
\<close>
theorem hub_refines_message_board:
  "board_of (h_hub (sv_hub (server_run t freshness vars []))) = Map.empty \<and>
   board_step\<^sup>*\<^sup>* (board_of (h_hub (sv_hub (server_run t freshness vars evs))))
     (board_of (h_hub (sv_hub (server_run t freshness vars (evs @ evs')))))"
  using run_moves [OF run_ok, of t freshness vars evs evs']
  by (simp add: run_append moves_def)
    (simp add: server_run_def server_init_def hub_init_def hub_db_init_def board_of_def fun_eq_iff stmtMessageById_def)

text \<open>
  History is append-only. Once a message is marked delivered, every later state of every run still
  has it, delivered, with the same sender, recipient, content and reply reference; and the events and
  blobs of the audit record at any moment are the beginning of the record at every later moment.
\<close>
theorem history_is_append_only:
  assumes "stmtMessageById (h_hub (sv_hub (server_run t freshness vars evs))) x = Some m" "ms_status m = MDelivered"
  shows "(\<exists>m'. stmtMessageById (h_hub (sv_hub (server_run t freshness vars (evs @ evs')))) x = Some m' \<and>
       ms_status m' = MDelivered \<and> ms_from_agent m' = ms_from_agent m \<and> ms_to_agent m' = ms_to_agent m \<and>
       ms_sent_by m' = ms_sent_by m \<and> ms_content m' = ms_content m \<and> ms_reply_to m' = ms_reply_to m) \<and>
    (\<exists>es bs. au_events (h_audit (sv_hub (server_run t freshness vars (evs @ evs')))) =
         au_events (h_audit (sv_hub (server_run t freshness vars evs))) @ es \<and>
       au_blobs (h_audit (sv_hub (server_run t freshness vars (evs @ evs')))) =
         au_blobs (h_audit (sv_hub (server_run t freshness vars evs))) @ bs)"
proof -
  have m: "moves (sv_hub (server_run t freshness vars evs)) (sv_hub (server_run t freshness vars (evs @ evs')))"
    unfolding run_append by (rule run_moves) (rule run_ok)
  have "board_of (h_hub (sv_hub (server_run t freshness vars evs))) x = Some (letter_of m)" "lt_settled (letter_of m)"
    using assms by (simp_all add: board_of_def letter_of_def)
  moreover have "board_step\<^sup>*\<^sup>* (board_of (h_hub (sv_hub (server_run t freshness vars evs))))
      (board_of (h_hub (sv_hub (server_run t freshness vars (evs @ evs')))))" using m by (simp add: moves_def)
  ultimately have "board_of (h_hub (sv_hub (server_run t freshness vars (evs @ evs')))) x = Some (letter_of m)"
    using settled_letter_stays by blast
  then show ?thesis using m assms(2) by (auto simp: board_of_def letter_of_def moves_def audit_extends_def)
qed

text \<open>An identity is provisioned, connects and sends a message to itself.\<close>

definition post_agent :: "string \<Rightarrow> http_request" where
  "post_agent i =
     \<lparr>rq_upgrade = False, rq_method = ''POST'', rq_pathname = ''/api/v1/agents'', rq_search = [],
      rq_authorization = None, rq_forwarded = None, rq_address = Some ''10.0.0.9'',
      rq_body = json_text (JObj [(''identity'', JStr i), (''type'', JStr ''service'')])\<rparr>"

definition frame_text :: "string \<Rightarrow> (string \<times> json) list \<Rightarrow> string" where
  "frame_text verb params = json_text (JObj [(''method'', JStr verb), (''params'', JObj params)])"

definition plain_session :: "(rest_env \<times> server_event) list" where
  "plain_session = map (Pair plain_rest)
     [SvHttp 8 (post_agent ''kim''), SvMessage 1 (frame_text ''mesh.connect'' [(''identity'', JStr ''kim'')]),
      SvMessage 1 (frame_text ''mesh.send'' [(''to'', JStr ''kim''), (''content'', JStr ''hi'')])]"

lemma plain_session_delivers:
  "map_option (\<lambda>m. (ms_status m, ms_content m))
     (stmtMessageById (h_hub (sv_hub (server_run 0 120 (\<lambda>x. None) plain_session))) ''msg_msg_1'') = Some (MDelivered, ''hi'')"
  by code_simp

lemma history_is_append_only_witness:
  "\<forall>evs. \<exists>m. stmtMessageById (h_hub (sv_hub (server_run 0 120 (\<lambda>x. None) (plain_session @ evs)))) ''msg_msg_1'' = Some m \<and>
     ms_status m = MDelivered \<and> ms_content m = ''hi''"
proof
  fix evs
  obtain m where "stmtMessageById (h_hub (sv_hub (server_run 0 120 (\<lambda>x. None) plain_session))) ''msg_msg_1'' = Some m"
    "ms_status m = MDelivered" "ms_content m = ''hi''" using plain_session_delivers by auto
  with history_is_append_only [OF this(1,2), of evs]
  show "\<exists>m. stmtMessageById (h_hub (sv_hub (server_run 0 120 (\<lambda>x. None) (plain_session @ evs)))) ''msg_msg_1'' = Some m \<and>
     ms_status m = MDelivered \<and> ms_content m = ''hi''" by auto
qed

section \<open>What a request over HTTP can change\<close>

text \<open>The request's own key signed it.\<close>

definition rpc_signed :: "rest_env \<Rightarrow> hub \<Rightarrow> string \<Rightarrow> bool" where
  "rpc_signed re h raw \<longleftrightarrow>
     (\<exists>req meth i kid. json_parse raw = Some req \<and> given_string (jget req ''method'') = Some meth \<and>
        Option.bind (jget req ''sig'') (\<lambda>s. jget s ''kid'') = Some (JStr kid) \<and>
        identityForFingerprint (h_agents h) kid = Some i \<and>
        key_signed (rv_env re) (h_agents h) i meth (jget req ''sig'') raw \<and>
        \<not> spent_nonce (h_nonces h) i (jget req ''sig''))"

lemma post_keys: "keys_ok (h_agents h) \<Longrightarrow>
    identityForFingerprint (h_agents (snd (handlePostAgentsV1 re h body))) = identityForFingerprint (h_agents h) \<and>
    h_hub (snd (handlePostAgentsV1 re h body)) = h_hub h \<and> h_reminders (snd (handlePostAgentsV1 re h body)) = h_reminders h \<and>
    h_presence (snd (handlePostAgentsV1 re h body)) = h_presence h"
proof (cases rule: provision_cases [of re h body])
  case (refused r)
  then show ?thesis by simp
next
  case (carried p existed key h2)
  assume "keys_ok (h_agents h)"
  note up = upsert_done [OF carried(2) parse_Inr(1) [OF carried(1)]]
  have ok: "keys_ok (h_agents (snd (upsert re h p)))" using \<open>keys_ok (h_agents h)\<close> by (simp add: keys_cong(1) [OF up(3)])
  note eff = recordKey_effect [OF carried(3) ok]
  have "h_hub h2 = h_hub h" "h_presence h2 = h_presence h" "h_reminders h2 = h_reminders h" by (subst eff(1); simp)+
  then show ?thesis using eff(5) keys_cong(2) [OF up(3)] by (simp add: carried(6))
qed

lemma provision_effect:
  assumes "keys_ok (h_agents (sv_hub s))"
  shows "sv_hub (snd (provision_route re s q)) = sv_hub s \<or>
    rq_method q = ''POST'' \<and> 1 \<le> level (en_now (rv_env re)) (sv_provision s) (coalesce (observed_of re q) ''unknown-source'') \<and>
    sv_hub (snd (provision_route re s q)) = snd (handlePostAgentsV1 re (sv_hub s) (rq_body q))"
proof -
  obtain d l where t: "take_token (en_now (rv_env re)) (sv_provision s) (coalesce (observed_of re q) ''unknown-source'') 1 = (d, l)"
    by fastforce
  then have "dc_ok d \<longleftrightarrow> 1 \<le> level (en_now (rv_env re)) (sv_provision s) (coalesce (observed_of re q) ''unknown-source'')"
    using take_token_ok_iff [of "en_now (rv_env re)" "sv_provision s" "coalesce (observed_of re q) ''unknown-source''" 1] by simp
  then show ?thesis by (simp add: provision_route_def t case_prod_beta Let_def provisioning_alias_hub)
qed

lemma serve_cases:
  obtains (same) "snd (serve re s ws q) = s"
  | (mailbox) "handlesPath (rq_pathname q)"
      "snd (serve re s ws q) = snd (handleMailboxRoute re s ws (mailbox_request_of re q))"
  | (provision) "provisioning_path (rq_pathname q)" "snd (serve re s ws q) = snd (provision_route re s q)"
  | (rpc) "rq_pathname q = ''/api/v1/rpc''" "snd (serve re s ws q) = snd (rpc_route re s ws q)"
proof -
  let ?p = "rq_pathname q"
  let ?q = "rq_upgrade q \<or> ?p = ''/api/v1/limits'' \<or> ?p = ''/'' \<or> ?p = ''/health''"
  have "snd (serve re s ws q) =
      (if ?q then s else if handlesPath ?p then snd (handleMailboxRoute re s ws (mailbox_request_of re q))
       else if provisioning_path ?p then snd (provision_route re s q)
       else if ?p = ''/api/v1/rpc'' then snd (rpc_route re s ws q) else s)"
    by (simp add: serve_def Let_def case_prod_beta)
  then show thesis using that by metis
qed



end
