(* ===== verification/Reminder_Lifecycle.thy ===== *)
theory Reminder_Lifecycle
  imports Json_Rpc
begin

text \<open>
  The reminder service's connection to the hub, \<open>packages/self-reminder/src/lifecycle.ts\<close>.

  An object of the class is a record. A promise is the waiter that its reaction belongs to: the
  registration of a socket, or a caller of \<open>request\<close>. Settling one queues its reaction, and the queue
  runs empty after every event, as JavaScript runs its microtasks; what a callback does is an event of
  its own. Timers and sockets are handles; what the object does to the outside is a list of effects.
  Log lines are not effects.

  The lemmas: the queue runs empty; one attempt and one timer at a time; no event of a socket that is
  not current has an effect; every request is settled exactly once; and the delays between attempts.
\<close>

section \<open>The object\<close>

type_synonym hub_socket = nat
type_synonym timer = nat

datatype connectivity = Connecting | Registered | Unavailable

datatype waiter = WRegister nat hub_socket | WCaller nat

text \<open>A rejection carries the message and the category of its \<open>HubRpcError\<close>.\<close>

datatype outcome = Resolved "json option" | Rejected string string

datatype timer_task = TReconnect | TRpc string string

record pending_rpc =
  pr_generation :: nat
  pr_waiter :: waiter
  pr_timeout :: timer

datatype lc_effect =
    OnState connectivity
  | OnUnavailable string
  | OnRegistered
  | SocketSend hub_socket json
  | SocketClose hub_socket int string
  | Settled nat outcome
  | SetTimer timer timer_task int
  | ListenerThrew string

record lifecycle =
  lc_generation :: nat
  lc_current :: "(nat \<times> hub_socket) option"
  lc_reconnectTimer :: "timer option"
  lc_reconnectAttempt :: nat
  lc_ready :: bool
  lc_stopped :: bool
  lc_sequence :: nat
  lc_pending :: "(string \<times> pending_rpc) list"
  lc_timers :: "(timer \<times> timer_task) list"
  lc_nextTimer :: timer
  lc_reactions :: "(waiter \<times> outcome) list"
  lc_effects :: "lc_effect list"

definition lifecycle_new :: lifecycle where
  "lifecycle_new =
     \<lparr>lc_generation = 0, lc_current = None, lc_reconnectTimer = None, lc_reconnectAttempt = 0, lc_ready = False,
      lc_stopped = False, lc_sequence = 0, lc_pending = [], lc_timers = [], lc_nextTimer = 0,
      lc_reactions = [], lc_effects = []\<rparr>"

text \<open>
  The options, and what the world answers during one event: the socket that \<open>createSocket\<close> gives or
  \<open>None\<close> for a throw, whether a socket is open, and whether \<open>send\<close> throws.
\<close>

record lc_env =
  le_identity :: string
  le_reconnectBaseMs :: int
  le_reconnectMaxMs :: int
  le_rpcTimeoutMs :: int
  le_createSocket :: "hub_socket option"
  le_open :: "hub_socket \<Rightarrow> bool"
  le_send_throws :: bool

section \<open>Effects, timers and reactions\<close>

definition emit :: "lc_effect \<Rightarrow> lifecycle \<Rightarrow> lifecycle" where
  "emit e st = st\<lparr>lc_effects := lc_effects st @ [e]\<rparr>"

definition setTimer :: "timer_task \<Rightarrow> int \<Rightarrow> lifecycle \<Rightarrow> timer \<times> lifecycle" where
  "setTimer task ms st =
     (let t = lc_nextTimer st
      in (t, emit (SetTimer t task ms) (st\<lparr>lc_timers := lc_timers st @ [(t, task)], lc_nextTimer := Suc t\<rparr>)))"

definition clearTimer :: "timer \<Rightarrow> lifecycle \<Rightarrow> lifecycle" where
  "clearTimer t st = st\<lparr>lc_timers := filter (\<lambda>e. fst e \<noteq> t) (lc_timers st)\<rparr>"

definition settle_promise :: "waiter \<Rightarrow> outcome \<Rightarrow> lifecycle \<Rightarrow> lifecycle" where
  "settle_promise w r st = st\<lparr>lc_reactions := lc_reactions st @ [(w, r)]\<rparr>"

text \<open>\<open>this.pending.delete(id)\<close>.\<close>

definition forget_pending :: "string \<Rightarrow> lifecycle \<Rightarrow> lifecycle" where
  "forget_pending i st = st\<lparr>lc_pending := filter (\<lambda>e. fst e \<noteq> i) (lc_pending st)\<rparr>"

section \<open>The methods\<close>

definition owns :: "lifecycle \<Rightarrow> nat \<Rightarrow> hub_socket \<Rightarrow> bool" where
  "owns st generation ws \<longleftrightarrow> lc_current st = Some (generation, ws)"

definition isReady :: "lifecycle \<Rightarrow> bool" where
  "isReady st = lc_ready st"

definition markUnavailable :: "string \<Rightarrow> lifecycle \<Rightarrow> lifecycle" where
  "markUnavailable category st = emit (OnUnavailable category) (emit (OnState Unavailable) st)"

definition reconnect_delay :: "lc_env \<Rightarrow> nat \<Rightarrow> int" where
  "reconnect_delay env attempt = min (le_reconnectMaxMs env) (le_reconnectBaseMs env * 2 ^ min attempt 10)"

definition scheduleReconnect :: "lc_env \<Rightarrow> lifecycle \<Rightarrow> lifecycle" where
  "scheduleReconnect env st =
     (if lc_stopped st \<or> lc_reconnectTimer st \<noteq> None then st
      else (let delay = reconnect_delay env (lc_reconnectAttempt st);
                (t, st1) = setTimer TReconnect delay (st\<lparr>lc_reconnectAttempt := Suc (lc_reconnectAttempt st)\<rparr>)
            in st1\<lparr>lc_reconnectTimer := Some t\<rparr>))"

definition connect :: "lc_env \<Rightarrow> lifecycle \<Rightarrow> lifecycle" where
  "connect env st =
     (if lc_stopped st \<or> lc_current st \<noteq> None \<or> lc_reconnectTimer st \<noteq> None then st
      else (let generation = Suc (lc_generation st); st1 = st\<lparr>lc_generation := generation\<rparr>
            in case le_createSocket env of
                 None \<Rightarrow> scheduleReconnect env (markUnavailable ''connect_create_failed'' st1)
               | Some ws \<Rightarrow>
                   emit (OnState Connecting) (st1\<lparr>lc_current := Some (generation, ws), lc_ready := False\<rparr>)))"

definition clearReconnectTimer :: "lifecycle \<Rightarrow> lifecycle" where
  "clearReconnectTimer st =
     (case lc_reconnectTimer st of None \<Rightarrow> st | Some t \<Rightarrow> (clearTimer t st)\<lparr>lc_reconnectTimer := None\<rparr>)"

definition reject_pending :: "string \<Rightarrow> string \<Rightarrow> lifecycle \<Rightarrow> string \<times> pending_rpc \<Rightarrow> lifecycle" where
  "reject_pending message category st e =
     settle_promise (pr_waiter (snd e)) (Rejected message category)
       (clearTimer (pr_timeout (snd e)) (forget_pending (fst e) st))"

definition rejectGeneration :: "nat \<Rightarrow> string \<Rightarrow> string \<Rightarrow> lifecycle \<Rightarrow> lifecycle" where
  "rejectGeneration generation message category st =
     foldl (reject_pending message category) st
       (filter (\<lambda>e. pr_generation (snd e) = generation) (lc_pending st))"

definition rpc_id :: "nat \<Rightarrow> nat \<Rightarrow> string" where
  "rpc_id generation sequence = int_text (int generation) @ ''-'' @ int_text (int sequence)"

definition rpc_frame :: "string \<Rightarrow> string \<Rightarrow> json \<Rightarrow> json" where
  "rpc_frame i verb params =
     JObj [(''jsonrpc'', JStr ''2.0''), (''id'', JStr i), (''method'', JStr verb), (''params'', params)]"

definition requestOn ::
  "lc_env \<Rightarrow> nat \<Rightarrow> hub_socket \<Rightarrow> string \<Rightarrow> json \<Rightarrow> waiter \<Rightarrow> lifecycle \<Rightarrow> lifecycle" where
  "requestOn env generation ws verb params w st =
     (if \<not> owns st generation ws \<or> \<not> le_open env ws then
        settle_promise w (Rejected ''hub socket is not open'' ''hub_unavailable'') st
      else (let sequence = Suc (lc_sequence st); i = rpc_id generation sequence;
                (t, st1) = setTimer (TRpc i verb) (le_rpcTimeoutMs env) (st\<lparr>lc_sequence := sequence\<rparr>);
                st2 = st1\<lparr>lc_pending := lc_pending st1 @
                  [(i, \<lparr>pr_generation = generation, pr_waiter = w, pr_timeout = t\<rparr>)]\<rparr>
            in if le_send_throws env then
                 settle_promise w (Rejected ''rpc send failed'' ''rpc_send_failed'')
                   (clearTimer t (forget_pending i st2))
               else emit (SocketSend ws (rpc_frame i verb params)) st2))"

definition request :: "lc_env \<Rightarrow> nat \<Rightarrow> string \<Rightarrow> json \<Rightarrow> lifecycle \<Rightarrow> lifecycle" where
  "request env caller verb params st =
     (case (lc_ready st, lc_current st) of
        (True, Some (generation, ws)) \<Rightarrow> requestOn env generation ws verb params (WCaller caller) st
      | _ \<Rightarrow> settle_promise (WCaller caller) (Rejected ''hub is not registered'' ''hub_unavailable'') st)"

text \<open>The part of \<open>register\<close> up to its \<open>await\<close>.\<close>

definition register :: "lc_env \<Rightarrow> nat \<Rightarrow> hub_socket \<Rightarrow> lifecycle \<Rightarrow> lifecycle" where
  "register env generation ws st =
     requestOn env generation ws ''mesh.connect''
       (JObj [(''identity'', JStr (le_identity env)), (''description'', JStr ''SelfReminder service'')])
       (WRegister generation ws) st"

definition start :: "lc_env \<Rightarrow> lifecycle \<Rightarrow> lifecycle" where
  "start env st = connect env (st\<lparr>lc_stopped := False\<rparr>)"

definition stop :: "lifecycle \<Rightarrow> lifecycle" where
  "stop st =
     (let st1 = (clearReconnectTimer (st\<lparr>lc_stopped := True\<rparr>))\<lparr>lc_current := None, lc_ready := False\<rparr>
      in case lc_current st of
           None \<Rightarrow> st1
         | Some (generation, ws) \<Rightarrow>
             emit (SocketClose ws 1000 ''self-reminder stopping'')
               (rejectGeneration generation ''hub lifecycle stopped'' ''stopped'' st1))"

definition handleClose :: "lc_env \<Rightarrow> nat \<Rightarrow> hub_socket \<Rightarrow> lifecycle \<Rightarrow> lifecycle" where
  "handleClose env generation ws st =
     (if \<not> owns st generation ws then st
      else scheduleReconnect env (markUnavailable ''hub_closed''
        (rejectGeneration generation ''hub socket closed'' ''hub_closed''
          (st\<lparr>lc_current := None, lc_ready := False\<rparr>))))"

definition rejectAndReconnect :: "lc_env \<Rightarrow> nat \<Rightarrow> hub_socket \<Rightarrow> string \<Rightarrow> lifecycle \<Rightarrow> lifecycle" where
  "rejectAndReconnect env generation ws category st =
     (if \<not> owns st generation ws then st
      else scheduleReconnect env (emit (SocketClose ws 1008 ''registration rejected'') (markUnavailable category
        (rejectGeneration generation ''hub registration rejected'' category
          (st\<lparr>lc_current := None, lc_ready := False\<rparr>)))))"

definition error_of :: "json \<Rightarrow> outcome" where
  "error_of e =
     Rejected (case as_string (jget e ''message'') of None \<Rightarrow> ''hub rpc error'' | Some m \<Rightarrow> m)
       (toLowerCase (js_String (or_else (Option.bind (jget e ''data'') (\<lambda>d. jget d ''code'')) (JStr ''rpc_error''))))"

definition handleMessage :: "nat \<Rightarrow> hub_socket \<Rightarrow> string \<Rightarrow> lifecycle \<Rightarrow> lifecycle" where
  "handleMessage generation ws data st =
     (if \<not> owns st generation ws then st
      else (case json_parse data of
              None \<Rightarrow> st
            | Some message \<Rightarrow>
                if message = JNull then emit (ListenerThrew ''null is not an object (evaluating message.id)'') st
                else if nullish (jget message ''id'') then st
                else (let i = js_String (the (jget message ''id''))
                      in case map_of (lc_pending st) i of
                           None \<Rightarrow> st
                         | Some p \<Rightarrow>
                             if pr_generation p \<noteq> generation then st
                             else settle_promise (pr_waiter p)
                                    (if truthy (jget message ''error'') then error_of (the (jget message ''error''))
                                     else Resolved (jget message ''result''))
                                    (clearTimer (pr_timeout p) (forget_pending i st)))))"

fun hubErrorCategory :: "outcome \<Rightarrow> string" where
  "hubErrorCategory (Rejected m category) = category"
| "hubErrorCategory (Resolved r) = ''hub_rpc_failed''"

section \<open>Reactions\<close>

text \<open>The part of \<open>register\<close> after its \<open>await\<close>, and the settling of a caller's promise.\<close>

fun react :: "lc_env \<Rightarrow> waiter \<Rightarrow> outcome \<Rightarrow> lifecycle \<Rightarrow> lifecycle" where
  "react env (WRegister generation ws) (Resolved r) st =
     (if \<not> owns st generation ws then st
      else emit OnRegistered (emit (OnState Registered) (st\<lparr>lc_ready := True, lc_reconnectAttempt := 0\<rparr>)))"
| "react env (WRegister generation ws) (Rejected message category) st =
     rejectAndReconnect env generation ws category st"
| "react env (WCaller caller) r st = emit (Settled caller r) st"

section \<open>The queue runs empty\<close>

lemma emit_simps [simp]:
  "lc_generation (emit e st) = lc_generation st" "lc_current (emit e st) = lc_current st"
  "lc_reconnectTimer (emit e st) = lc_reconnectTimer st" "lc_reconnectAttempt (emit e st) = lc_reconnectAttempt st"
  "lc_ready (emit e st) = lc_ready st" "lc_stopped (emit e st) = lc_stopped st"
  "lc_sequence (emit e st) = lc_sequence st" "lc_pending (emit e st) = lc_pending st"
  "lc_timers (emit e st) = lc_timers st" "lc_nextTimer (emit e st) = lc_nextTimer st"
  "lc_reactions (emit e st) = lc_reactions st" "lc_effects (emit e st) = lc_effects st @ [e]"
  by (simp_all add: emit_def)

text \<open>Rejecting a list of pending requests at once.\<close>

definition rejected_all :: "string \<Rightarrow> string \<Rightarrow> lifecycle \<Rightarrow> (string \<times> pending_rpc) list \<Rightarrow> lifecycle" where
  "rejected_all m c st es =
     st\<lparr>lc_pending := filter (\<lambda>e. fst e \<notin> fst ` set es) (lc_pending st),
        lc_timers := filter (\<lambda>e. fst e \<notin> (pr_timeout \<circ> snd) ` set es) (lc_timers st),
        lc_reactions := lc_reactions st @ map (\<lambda>e. (pr_waiter (snd e), Rejected m c)) es\<rparr>"

lemma reject_fold: "foldl (reject_pending m c) st es = rejected_all m c st es"
proof (induction es arbitrary: st)
  case Nil
  then show ?case by (simp add: rejected_all_def)
next
  case (Cons e es)
  have "reject_pending m c st e = rejected_all m c st [e]"
    by (simp add: rejected_all_def reject_pending_def settle_promise_def clearTimer_def forget_pending_def)
  moreover have "rejected_all m c (rejected_all m c st [e]) es = rejected_all m c st (e # es)"
    by (simp add: rejected_all_def conj_commute)
  ultimately show ?case by (simp add: Cons)
qed

lemma rejectGeneration_eq:
  "rejectGeneration g m c st = rejected_all m c st (filter (\<lambda>e. pr_generation (snd e) = g) (lc_pending st))"
  by (simp add: rejectGeneration_def reject_fold)

text \<open>What is still to be settled; a reaction makes it no more.\<close>

definition unsettled :: "lifecycle \<Rightarrow> nat" where
  "unsettled st = 2 * length (lc_pending st) + length (lc_reactions st)"

lemma unsettled_reject: "unsettled (rejectGeneration g m c st) \<le> unsettled st"
proof -
  let ?M = "\<lambda>e. pr_generation (snd e) = g"
  let ?es = "filter ?M (lc_pending st)"
  have "filter (\<lambda>e. fst e \<notin> fst ` set ?es) (lc_pending st) = filter (\<lambda>e. fst e \<notin> fst ` set ?es) (filter (Not \<circ> ?M) (lc_pending st))"
    by (auto simp: comp_def intro!: filter_cong)
  then have "length (filter (\<lambda>e. fst e \<notin> fst ` set ?es) (lc_pending st)) \<le> length (filter (Not \<circ> ?M) (lc_pending st))"
    by (metis length_filter_le)
  moreover have "length ?es + length (filter (Not \<circ> ?M) (lc_pending st)) = length (lc_pending st)"
    by (simp add: comp_def sum_length_filter_compl)
  ultimately show ?thesis by (simp add: unsettled_def rejectGeneration_eq rejected_all_def)
qed

lemma schedule_pending [simp]:
  "lc_pending (scheduleReconnect env st) = lc_pending st" "lc_reactions (scheduleReconnect env st) = lc_reactions st"
  by (simp_all add: scheduleReconnect_def setTimer_def Let_def)

lemma unsettled_react: "unsettled (react env w r st) \<le> unsettled st"
proof (cases "(env, w, r, st)" rule: react.cases)
  case (2 env g ws m c st)
  then show ?thesis
    using unsettled_reject [of g "''hub registration rejected''" c "st\<lparr>lc_current := None, lc_ready := False\<rparr>"]
    by (simp add: rejectAndReconnect_def unsettled_def markUnavailable_def)
qed (simp_all add: unsettled_def)

text \<open>The reactions that are queued, and those that these queue, in their order.\<close>

function drain :: "lc_env \<Rightarrow> lifecycle \<Rightarrow> lifecycle" where
  "drain env st =
     (case lc_reactions st of
        [] \<Rightarrow> st
      | (w, r) # rest \<Rightarrow> drain env (react env w r (st\<lparr>lc_reactions := rest\<rparr>)))"
  by pat_completeness auto
termination
proof (relation "measure (\<lambda>(env, st). unsettled st)")
  fix env :: lc_env and st :: lifecycle and wr rest w r
  assume "lc_reactions st = wr # rest" "(w, r) = wr"
  then have "unsettled (st\<lparr>lc_reactions := rest\<rparr>) < unsettled st" by (simp add: unsettled_def)
  from le_less_trans [OF unsettled_react this, of env w r]
  show "((env, react env w r (st\<lparr>lc_reactions := rest\<rparr>)), env, st) \<in> measure (\<lambda>(env, st). unsettled st)"
    by simp
qed simp

declare drain.simps [simp del]

section \<open>Events\<close>

text \<open>
  What can happen to the object. An event of a socket carries what its listener has captured. A timer
  that was cleared does not fire.
\<close>

datatype lc_event =
    LStart
  | LStop
  | LRequest nat string json
  | LOpen nat hub_socket
  | LMessage nat hub_socket string
  | LClose nat hub_socket
  | LError nat hub_socket
  | LTimer timer

definition timer_fires :: "lc_env \<Rightarrow> timer \<Rightarrow> lifecycle \<Rightarrow> lifecycle" where
  "timer_fires env t st =
     (case map_of (lc_timers st) t of
        None \<Rightarrow> st
      | Some TReconnect \<Rightarrow> connect env ((clearTimer t st)\<lparr>lc_reconnectTimer := None\<rparr>)
      | Some (TRpc i verb) \<Rightarrow>
          (case map_of (lc_pending st) i of
             None \<Rightarrow> clearTimer t st
           | Some p \<Rightarrow>
               settle_promise (pr_waiter p) (Rejected (''rpc timeout: '' @ verb) ''rpc_timeout'')
                 (forget_pending i (clearTimer t st))))"

fun handle_event :: "lc_env \<Rightarrow> lc_event \<Rightarrow> lifecycle \<Rightarrow> lifecycle" where
  "handle_event env LStart st = start env st"
| "handle_event env LStop st = stop st"
| "handle_event env (LRequest caller verb params) st = request env caller verb params st"
| "handle_event env (LOpen generation ws) st = (if \<not> owns st generation ws then st else register env generation ws st)"
| "handle_event env (LMessage generation ws data) st = handleMessage generation ws data st"
| "handle_event env (LClose generation ws) st = handleClose env generation ws st"
| "handle_event env (LError generation ws) st = st"
| "handle_event env (LTimer t) st = timer_fires env t st"

definition lc_step :: "lifecycle \<Rightarrow> lc_env \<times> lc_event \<Rightarrow> lifecycle" where
  "lc_step st ev = (case ev of (env, e) \<Rightarrow> drain env (handle_event env e st))"

definition lc_run :: "(lc_env \<times> lc_event) list \<Rightarrow> lifecycle" where
  "lc_run evs = foldl lc_step lifecycle_new evs"

section \<open>The invariant\<close>

text \<open>
  One attempt or one reconnect timer at a time, requests only on the current socket and under fresh ids,
  and a timer for each thing that waits for one and for nothing else.
\<close>

definition attempt_ok :: "lifecycle \<Rightarrow> bool" where
  "attempt_ok st \<longleftrightarrow>
     (case lc_current st of
        None \<Rightarrow> lc_pending st = [] \<and> \<not> lc_ready st \<and>
          (lc_reconnectTimer st = None \<longrightarrow> lc_stopped st \<or> lc_generation st = 0)
      | Some (g, ws) \<Rightarrow> lc_reconnectTimer st = None \<and> \<not> lc_stopped st \<and> g = lc_generation st) \<and>
     (lc_stopped st \<longrightarrow> lc_reconnectTimer st = None)"

definition pending_ok :: "lifecycle \<Rightarrow> bool" where
  "pending_ok st \<longleftrightarrow> distinct (map fst (lc_pending st)) \<and>
     (\<forall>(i, p) \<in> set (lc_pending st). pr_generation p = lc_generation st \<and>
        (\<exists>s \<le> lc_sequence st. i = rpc_id (lc_generation st) s))"

definition timers_ok :: "lifecycle \<Rightarrow> bool" where
  "timers_ok st \<longleftrightarrow> distinct (map fst (lc_timers st)) \<and> (\<forall>(t, task) \<in> set (lc_timers st). t < lc_nextTimer st) \<and>
     (\<forall>t. (t, TReconnect) \<in> set (lc_timers st) \<longleftrightarrow> lc_reconnectTimer st = Some t) \<and>
     (\<forall>t i. (\<exists>verb. (t, TRpc i verb) \<in> set (lc_timers st)) \<longleftrightarrow>
        (\<exists>p. (i, p) \<in> set (lc_pending st) \<and> pr_timeout p = t))"

definition lc_inv :: "lifecycle \<Rightarrow> bool" where
  "lc_inv st \<longleftrightarrow> attempt_ok st \<and> pending_ok st \<and> timers_ok st"

lemma inv_cong:
  fixes st st' :: lifecycle
  assumes "lc_current st' = lc_current st" "lc_reconnectTimer st' = lc_reconnectTimer st" "lc_ready st' = lc_ready st"
    "lc_stopped st' = lc_stopped st" "lc_generation st' = lc_generation st" "lc_sequence st' = lc_sequence st"
    "lc_pending st' = lc_pending st" "lc_timers st' = lc_timers st" "lc_nextTimer st' = lc_nextTimer st"
  shows "lc_inv st' = lc_inv st"
  unfolding lc_inv_def attempt_ok_def pending_ok_def timers_ok_def assms ..

lemma inv_emit [simp]: "lc_inv (emit e st) = lc_inv st"
  by (rule inv_cong) simp_all

lemma inv_settle [simp]: "lc_inv (settle_promise w r st) = lc_inv st"
  by (rule inv_cong) (simp_all add: settle_promise_def)

lemma inv_unavailable [simp]: "lc_inv (markUnavailable c st) = lc_inv st"
  by (simp add: markUnavailable_def)

text \<open>Taking one pending request out, together with its timer.\<close>

lemma inv_take:
  assumes "lc_inv st" "(i, p) \<in> set (lc_pending st)"
  shows "lc_inv (clearTimer (pr_timeout p) (forget_pending i st))"
proof -
  let ?st = "clearTimer (pr_timeout p) (forget_pending i st)"
  have d: "distinct (map fst (lc_pending st))" and t: "timers_ok st" using assms by (simp_all add: lc_inv_def pending_ok_def)
  have dt: "distinct (map fst (lc_timers st))" using t by (simp add: timers_ok_def)
  have rpc: "(\<exists>verb. (u, TRpc j verb) \<in> set (lc_timers st)) \<longleftrightarrow> (\<exists>q. (j, q) \<in> set (lc_pending st) \<and> pr_timeout q = u)" for u j
    using t by (simp add: timers_ok_def)
  obtain verb where v: "(pr_timeout p, TRpc i verb) \<in> set (lc_timers st)" using rpc assms(2) by blast
  have one: "j = i" if "(j, q) \<in> set (lc_pending st)" "pr_timeout q = pr_timeout p" for j q
  proof -
    have "\<exists>verb'. (pr_timeout q, TRpc j verb') \<in> set (lc_timers st)" using rpc [of "pr_timeout q" j] that(1) by blast
    with that(2) obtain verb' where "(pr_timeout p, TRpc j verb') \<in> set (lc_timers st)" by auto
    from eq_key_imp_eq_value [OF dt this v] show ?thesis by simp
  qed
  have same: "pr_timeout q = pr_timeout p" if "(i, q) \<in> set (lc_pending st)" for q
    using eq_key_imp_eq_value [OF d that assms(2)] by simp
  have "timers_ok ?st"
    unfolding timers_ok_def
  proof (intro conjI allI)
    show "distinct (map fst (lc_timers ?st))" using dt by (simp add: clearTimer_def forget_pending_def distinct_map_filter)
    show "\<forall>(t, task)\<in>set (lc_timers ?st). t < lc_nextTimer ?st"
      using t by (auto simp: timers_ok_def clearTimer_def forget_pending_def)
    fix u j
    have "u \<noteq> pr_timeout p" if "(u, TReconnect) \<in> set (lc_timers st)"
      using eq_key_imp_eq_value [OF dt, of u TReconnect "TRpc i verb"] v that by auto
    then show "((u, TReconnect) \<in> set (lc_timers ?st)) = (lc_reconnectTimer ?st = Some u)"
      using t by (auto simp: timers_ok_def clearTimer_def forget_pending_def)
    show "(\<exists>verb. (u, TRpc j verb) \<in> set (lc_timers ?st)) = (\<exists>q. (j, q) \<in> set (lc_pending ?st) \<and> pr_timeout q = u)"
    proof (cases "u = pr_timeout p")
      case True
      then show ?thesis using one by (auto simp: clearTimer_def forget_pending_def)
    next
      case False
      then have "j \<noteq> i" if "(j, q) \<in> set (lc_pending st)" "pr_timeout q = u" for q using same that by blast
      then show ?thesis using False rpc [of u j] by (auto simp: clearTimer_def forget_pending_def)
    qed
  qed
  moreover have "attempt_ok ?st"
    using assms(1) by (auto simp: lc_inv_def attempt_ok_def clearTimer_def forget_pending_def split: option.splits)
  moreover have "pending_ok ?st"
    using assms(1) by (auto simp: lc_inv_def pending_ok_def clearTimer_def forget_pending_def distinct_map_filter)
  ultimately show ?thesis by (simp add: lc_inv_def)
qed

text \<open>Between attempts: no socket, no timer, no request.\<close>

definition idle :: "lifecycle \<Rightarrow> bool" where
  "idle st \<longleftrightarrow> lc_current st = None \<and> \<not> lc_ready st \<and> lc_pending st = [] \<and> lc_timers st = [] \<and> lc_reconnectTimer st = None"

lemma idle_simps [simp]:
  "idle (emit e st) = idle st" "idle (markUnavailable c st) = idle st"
  by (simp_all add: idle_def markUnavailable_def)

lemma idle_inv: "idle st \<Longrightarrow> lc_stopped st \<or> lc_generation st = 0 \<Longrightarrow> lc_inv st"
  by (simp add: idle_def lc_inv_def attempt_ok_def pending_ok_def timers_ok_def)

lemma inv_idle: "lc_inv st \<Longrightarrow> lc_current st = None \<Longrightarrow> lc_reconnectTimer st = None \<Longrightarrow> idle st"
proof -
  assume i: "lc_inv st" "lc_current st = None" "lc_reconnectTimer st = None"
  then have p: "lc_pending st = []" "\<not> lc_ready st" and t: "timers_ok st" by (simp_all add: lc_inv_def attempt_ok_def)
  have "(t, task) \<notin> set (lc_timers st)" for t task
    using t i(3) p by (cases task) (auto simp: timers_ok_def)
  then have "lc_timers st = []" by (metis list.set_intros(1) neq_Nil_conv surj_pair)
  with i p show "idle st" by (simp add: idle_def)
qed

lemma schedule_inv: "idle st \<Longrightarrow> lc_inv (scheduleReconnect env st)"
proof (cases "lc_stopped st")
  case True
  then show "idle st \<Longrightarrow> ?thesis" by (simp add: scheduleReconnect_def idle_inv)
next
  case False
  then show "idle st \<Longrightarrow> ?thesis"
    by (auto simp: scheduleReconnect_def setTimer_def Let_def idle_def lc_inv_def attempt_ok_def pending_ok_def timers_ok_def)
qed

lemma connect_idle: "idle st \<Longrightarrow> lc_inv (connect env st)"
proof (cases "lc_stopped st")
  case True
  then show "idle st \<Longrightarrow> ?thesis" by (simp add: connect_def idle_inv)
next
  case False
  assume i: "idle st"
  show ?thesis
  proof (cases "le_createSocket env")
    case None
    have "idle (st\<lparr>lc_generation := Suc (lc_generation st)\<rparr>)" using i by (simp add: idle_def)
    then show ?thesis using None False i by (simp add: connect_def idle_def [of st] Let_def schedule_inv)
  next
    case (Some ws)
    with False i show ?thesis
      by (simp add: connect_def Let_def idle_def lc_inv_def attempt_ok_def pending_ok_def timers_ok_def)
  qed
qed

lemma connect_inv: "lc_inv st \<Longrightarrow> lc_inv (connect env st)"
proof (cases "lc_current st = None \<and> lc_reconnectTimer st = None")
  case True
  then show "lc_inv st \<Longrightarrow> ?thesis" by (simp add: connect_idle inv_idle)
next
  case False
  then show "lc_inv st \<Longrightarrow> ?thesis" by (auto simp: connect_def)
qed

text \<open>Dropping the current socket.\<close>

lemma reject_idle:
  assumes "lc_inv st" "owns st g ws"
  shows "idle (rejectGeneration g m c (st\<lparr>lc_current := None, lc_ready := False\<rparr>))"
    "lc_reactions (rejectGeneration g m c (st\<lparr>lc_current := None, lc_ready := False\<rparr>)) =
       lc_reactions st @ map (\<lambda>e. (pr_waiter (snd e), Rejected m c)) (lc_pending st)"
proof -
  have o': "lc_current st = Some (g, ws)" "g = lc_generation st" "lc_reconnectTimer st = None"
    using assms by (auto simp: owns_def lc_inv_def attempt_ok_def)
  have "\<forall>e\<in>set (lc_pending st). pr_generation (snd e) = g"
    using assms(1) o'(2) by (auto simp: lc_inv_def pending_ok_def)
  then have all: "filter (\<lambda>e. pr_generation (snd e) = g) (lc_pending st) = lc_pending st" by simp
  have "u \<in> (pr_timeout \<circ> snd) ` set (lc_pending st)" if "(u, task) \<in> set (lc_timers st)" for u task
  proof (cases task)
    case TReconnect
    then show ?thesis using that assms(1) o'(3) by (auto simp: lc_inv_def timers_ok_def)
  next
    case (TRpc i verb)
    then have "\<exists>p. (i, p) \<in> set (lc_pending st) \<and> pr_timeout p = u"
      using that assms(1) unfolding lc_inv_def timers_ok_def by blast
    then show ?thesis by force
  qed
  then have "filter (\<lambda>e. fst e \<notin> (pr_timeout \<circ> snd) ` set (lc_pending st)) (lc_timers st) = []"
    by (fastforce simp: filter_empty_conv)
  then show "idle (rejectGeneration g m c (st\<lparr>lc_current := None, lc_ready := False\<rparr>))"
    "lc_reactions (rejectGeneration g m c (st\<lparr>lc_current := None, lc_ready := False\<rparr>)) =
       lc_reactions st @ map (\<lambda>e. (pr_waiter (snd e), Rejected m c)) (lc_pending st)"
    using o'(3) all by (simp_all add: rejectGeneration_eq rejected_all_def idle_def filter_empty_conv)
qed

lemma close_inv: "lc_inv st \<Longrightarrow> lc_inv (handleClose env g ws st)"
  by (simp add: handleClose_def schedule_inv reject_idle(1))

lemma refusal_inv: "lc_inv st \<Longrightarrow> lc_inv (rejectAndReconnect env g ws c st)"
  by (simp add: rejectAndReconnect_def schedule_inv reject_idle(1))

lemma start_inv: "lc_inv st \<Longrightarrow> lc_inv (start env st)"
proof (cases "lc_current st = None \<and> lc_reconnectTimer st = None")
  case True
  assume "lc_inv st"
  with True have "idle st" by (simp add: inv_idle)
  then have "idle (st\<lparr>lc_stopped := False\<rparr>)" by (simp add: idle_def)
  then show ?thesis by (simp add: start_def connect_idle)
next
  case False
  assume i: "lc_inv st"
  with False have "\<not> lc_stopped st" by (auto simp: lc_inv_def attempt_ok_def split: option.splits)
  then have "st\<lparr>lc_stopped := False\<rparr> = st" by simp
  with i show ?thesis by (simp add: start_def connect_inv)
qed

lemma only_reconnect:
  assumes "lc_inv st" "lc_reconnectTimer st = Some t"
  shows "idle ((clearTimer t st)\<lparr>lc_reconnectTimer := None\<rparr>)"
proof -
  have c: "lc_current st = None" "lc_pending st = []" "\<not> lc_ready st"
    using assms by (auto simp: lc_inv_def attempt_ok_def split: option.splits)
  have "u = t" if "(u, task) \<in> set (lc_timers st)" for u task
    using that assms c(2) by (cases task) (auto simp: lc_inv_def timers_ok_def)
  with c show ?thesis by (auto simp: idle_def clearTimer_def filter_empty_conv)
qed

lemma stop_inv: "lc_inv st \<Longrightarrow> lc_inv (stop st)"
proof -
  assume i: "lc_inv st"
  show ?thesis
  proof (cases "lc_current st")
    case None
    have "idle ((clearReconnectTimer (st\<lparr>lc_stopped := True\<rparr>))\<lparr>lc_current := None, lc_ready := False\<rparr>)"
    proof (cases "lc_reconnectTimer st")
      case None
      with inv_idle [OF i \<open>lc_current st = None\<close>] show ?thesis by (simp add: clearReconnectTimer_def idle_def)
    next
      case (Some t)
      with only_reconnect [OF i Some] show ?thesis by (simp add: clearReconnectTimer_def idle_def clearTimer_def)
    qed
    then show ?thesis
      using None by (simp add: stop_def Let_def) (rule idle_inv, simp_all add: clearReconnectTimer_def clearTimer_def split: option.split)
  next
    case (Some gw)
    obtain g ws where gw: "lc_current st = Some (g, ws)" using Some by (cases gw) auto
    then have o': "owns st g ws" and n: "lc_reconnectTimer st = None"
      using i by (auto simp: owns_def lc_inv_def attempt_ok_def)
    have "rejectGeneration g m c (st\<lparr>lc_stopped := True, lc_current := None, lc_ready := False\<rparr>) =
        (rejectGeneration g m c (st\<lparr>lc_current := None, lc_ready := False\<rparr>))\<lparr>lc_stopped := True\<rparr>" for m c
      by (simp add: rejectGeneration_eq rejected_all_def)
    moreover have "lc_inv ((rejectGeneration g m c (st\<lparr>lc_current := None, lc_ready := False\<rparr>))\<lparr>lc_stopped := True\<rparr>)" for m c
      using reject_idle(1) [OF i o', of m c] by (intro idle_inv) (simp_all add: idle_def)
    ultimately show ?thesis
      using gw n by (simp add: stop_def Let_def clearReconnectTimer_def)
  qed
qed

lemma clear_forget: "forget_pending i (clearTimer t st) = clearTimer t (forget_pending i st)"
  by (simp add: forget_pending_def clearTimer_def)

lemma inv_pending_timer:
  assumes "lc_inv st" "map_of (lc_timers st) t = Some (TRpc i verb)"
  obtains p where "map_of (lc_pending st) i = Some p" "(i, p) \<in> set (lc_pending st)" "pr_timeout p = t"
proof -
  have d: "distinct (map fst (lc_pending st))" using assms by (simp add: lc_inv_def pending_ok_def)
  have "(t, TRpc i verb) \<in> set (lc_timers st)" using assms(2) by (rule map_of_SomeD)
  then have "\<exists>p. (i, p) \<in> set (lc_pending st) \<and> pr_timeout p = t"
    using assms(1) unfolding lc_inv_def timers_ok_def by blast
  with d show thesis by (auto intro: that)
qed

lemma timer_inv: "lc_inv st \<Longrightarrow> lc_inv (timer_fires env t st)"
proof (cases "map_of (lc_timers st) t")
  case None
  then show "lc_inv st \<Longrightarrow> ?thesis" by (simp add: timer_fires_def)
next
  case (Some task)
  assume i: "lc_inv st"
  show ?thesis
  proof (cases task)
    case TReconnect
    with Some have "(t, TReconnect) \<in> set (lc_timers st)" by (simp add: map_of_SomeD)
    then have "lc_reconnectTimer st = Some t" using i unfolding lc_inv_def timers_ok_def by blast
    from only_reconnect [OF i this] TReconnect Some show ?thesis by (simp add: timer_fires_def connect_idle)
  next
    case (TRpc j verb)
    with Some obtain p where "map_of (lc_pending st) j = Some p" "(j, p) \<in> set (lc_pending st)" "pr_timeout p = t"
      using inv_pending_timer [OF i] by blast
    with TRpc Some inv_take [OF i] show ?thesis by (auto simp: timer_fires_def clear_forget)
  qed
qed

lemma message_inv: "lc_inv st \<Longrightarrow> lc_inv (handleMessage g ws data st)"
  using inv_take [of st] by (auto simp: handleMessage_def Let_def dest!: map_of_SomeD split: option.split)

lemma rpc_id_inj: "rpc_id g s = rpc_id g s' \<longleftrightarrow> s = s'"
  by (simp add: rpc_id_def int_text_inj)

text \<open>A request that goes out waits under a fresh id with a timer of its own.\<close>

lemma request_sent_inv:
  assumes i: "lc_inv st" and o': "owns st g ws" and p: "pr_generation p = g" "pr_timeout p = lc_nextTimer st"
  shows "lc_inv (st\<lparr>lc_sequence := Suc (lc_sequence st),
      lc_timers := lc_timers st @ [(lc_nextTimer st, TRpc (rpc_id g (Suc (lc_sequence st))) verb)],
      lc_nextTimer := Suc (lc_nextTimer st), lc_effects := es,
      lc_pending := lc_pending st @ [(rpc_id g (Suc (lc_sequence st)), p)]\<rparr>)" (is "lc_inv ?st")
    and "rpc_id g (Suc (lc_sequence st)) \<notin> fst ` set (lc_pending st)"
proof -
  have g: "g = lc_generation st" "lc_current st = Some (g, ws)" using i o' by (auto simp: owns_def lc_inv_def attempt_ok_def)
  have old: "\<exists>s \<le> lc_sequence st. j = rpc_id g s" if "(j, q) \<in> set (lc_pending st)" for j q
    using i that g(1) by (auto simp: lc_inv_def pending_ok_def)
  show fresh: "rpc_id g (Suc (lc_sequence st)) \<notin> fst ` set (lc_pending st)"
    using old by (force simp: rpc_id_inj)
  have ft: "lc_nextTimer st \<notin> fst ` set (lc_timers st)" using i by (auto simp: lc_inv_def timers_ok_def)
  have "attempt_ok ?st" using i g(2) by (auto simp: lc_inv_def attempt_ok_def)
  moreover have "pending_ok ?st"
  proof -
    have "\<exists>s \<le> Suc (lc_sequence st). j = rpc_id g s" if "(j, q) \<in> set (lc_pending st)" for j q
      using old [OF that] le_SucI by blast
    with i fresh g(1) show ?thesis by (fastforce simp: lc_inv_def pending_ok_def p)
  qed
  moreover have "timers_ok ?st"
  proof -
    have t: "timers_ok st" using i by (simp add: lc_inv_def)
    have "(\<exists>v. (u, TRpc j v) \<in> set (lc_timers ?st)) = (\<exists>q. (j, q) \<in> set (lc_pending ?st) \<and> pr_timeout q = u)" for u j
    proof -
      have "(\<exists>v. (u, TRpc j v) \<in> set (lc_timers st)) = (\<exists>q. (j, q) \<in> set (lc_pending st) \<and> pr_timeout q = u)"
        using t by (simp add: timers_ok_def)
      then show ?thesis by (auto simp: p)
    qed
    moreover have "distinct (map fst (lc_timers ?st))" "\<forall>(t, task)\<in>set (lc_timers ?st). t < lc_nextTimer ?st"
      "\<forall>t. ((t, TReconnect) \<in> set (lc_timers ?st)) = (lc_reconnectTimer ?st = Some t)"
      using t ft by (auto simp: timers_ok_def)
    ultimately show ?thesis unfolding timers_ok_def by blast
  qed
  ultimately show "lc_inv ?st" by (simp add: lc_inv_def)
qed

lemma requestOn_inv: "lc_inv st \<Longrightarrow> lc_inv (requestOn env g ws verb params w st)"
proof (cases "owns st g ws \<and> le_open env ws")
  case False
  then show "lc_inv st \<Longrightarrow> ?thesis" by (auto simp: requestOn_def)
next
  case True
  assume i: "lc_inv st"
  let ?p = "\<lparr>pr_generation = g, pr_waiter = w, pr_timeout = lc_nextTimer st\<rparr>"
  let ?i = "rpc_id g (Suc (lc_sequence st))"
  let ?st = "st\<lparr>lc_sequence := Suc (lc_sequence st), lc_timers := lc_timers st @ [(lc_nextTimer st, TRpc ?i verb)],
      lc_nextTimer := Suc (lc_nextTimer st),
      lc_effects := lc_effects st @ [SetTimer (lc_nextTimer st) (TRpc ?i verb) (le_rpcTimeoutMs env)],
      lc_pending := lc_pending st @ [(?i, ?p)]\<rparr>"
  have inv: "lc_inv ?st" using True by (intro request_sent_inv(1) [of st g ws] i) simp_all
  have "requestOn env g ws verb params w st =
      (if le_send_throws env then settle_promise w (Rejected ''rpc send failed'' ''rpc_send_failed'')
         (clearTimer (pr_timeout ?p) (forget_pending ?i ?st))
       else emit (SocketSend ws (rpc_frame ?i verb params)) ?st)"
    using True by (simp add: requestOn_def setTimer_def Let_def emit_def)
  with inv_take [OF inv, of ?i ?p] inv show ?thesis by simp
qed

lemma request_inv: "lc_inv st \<Longrightarrow> lc_inv (request env c verb params st)"
  by (auto simp: request_def requestOn_inv split: option.split bool.split)

lemma event_inv: "lc_inv st \<Longrightarrow> lc_inv (handle_event env e st)"
  by (cases e) (simp_all add: start_inv stop_inv request_inv register_def requestOn_inv message_inv close_inv timer_inv)

lemma ready_inv: "lc_inv st \<Longrightarrow> owns st g ws \<Longrightarrow> lc_inv (st\<lparr>lc_ready := True, lc_reconnectAttempt := n\<rparr>)"
  by (simp add: owns_def lc_inv_def attempt_ok_def pending_ok_def timers_ok_def)

lemma react_inv: "lc_inv st \<Longrightarrow> lc_inv (react env w r st)"
  by (cases w; cases r) (simp_all add: refusal_inv ready_inv)

lemma drain_inv: "lc_inv st \<Longrightarrow> lc_inv (drain env st) \<and> lc_reactions (drain env st) = []"
proof (induction env st rule: drain.induct)
  case (1 env st)
  show ?case
  proof (cases "lc_reactions st")
    case Nil
    with 1(2) show ?thesis by (simp add: drain.simps [of env st])
  next
    case (Cons wr rest)
    have "lc_inv (st\<lparr>lc_reactions := rest\<rparr>)" using 1(2) inv_cong [of "st\<lparr>lc_reactions := rest\<rparr>" st] by simp
    with 1(1) [of wr rest "fst wr" "snd wr"] Cons react_inv show ?thesis
      by (cases wr) (simp add: drain.simps [of env st])
  qed
qed

definition lc_ok :: "lifecycle \<Rightarrow> bool" where
  "lc_ok st \<longleftrightarrow> lc_inv st \<and> lc_reactions st = []"

interpretation lifecycle: machine lc_step lc_ok
  by unfold_locales (auto simp: lc_ok_def lc_step_def drain_inv event_inv)

lemma lc_run_ok: "lc_ok (lc_run evs)"
  unfolding lc_run_def
  by (rule lifecycle.run_invar) (simp add: lc_ok_def lifecycle_new_def lc_inv_def attempt_ok_def pending_ok_def timers_ok_def)

section \<open>Every request is settled once\<close>

fun settles_call :: "nat \<Rightarrow> lc_effect \<Rightarrow> bool" where
  "settles_call c (Settled d r) = (d = c)"
| "settles_call c _ = False"

fun asks :: "nat \<Rightarrow> lc_env \<times> lc_event \<Rightarrow> bool" where
  "asks c (env, LRequest d verb params) = (d = c)"
| "asks c _ = False"

text \<open>The calls under a tag: waiting, settled but not told yet, and told.\<close>

definition calls :: "nat \<Rightarrow> lifecycle \<Rightarrow> nat" where
  "calls c st =
     length (filter (\<lambda>e. pr_waiter (snd e) = WCaller c) (lc_pending st)) +
     length (filter (\<lambda>e. fst e = WCaller c) (lc_reactions st)) +
     length (filter (settles_call c) (lc_effects st))"

lemma calls_emit [simp]: "calls c (emit e st) = calls c st + (if settles_call c e then 1 else 0)"
  by (simp add: calls_def)

lemma calls_settle [simp]: "calls c (settle_promise w r st) = calls c st + (if w = WCaller c then 1 else 0)"
  by (simp add: calls_def settle_promise_def)

lemma calls_clear [simp]: "calls c (clearTimer t st) = calls c st"
  by (simp add: calls_def clearTimer_def)

lemma calls_unavailable [simp]: "calls c (markUnavailable m st) = calls c st"
  by (simp add: markUnavailable_def)

lemma calls_other [simp]:
  "calls c (st\<lparr>lc_current := x\<rparr>) = calls c st" "calls c (st\<lparr>lc_ready := b\<rparr>) = calls c st"
  "calls c (st\<lparr>lc_reconnectTimer := t\<rparr>) = calls c st" "calls c (st\<lparr>lc_generation := n\<rparr>) = calls c st"
  "calls c (st\<lparr>lc_stopped := b\<rparr>) = calls c st" "calls c (st\<lparr>lc_reconnectAttempt := n\<rparr>) = calls c st"
  "calls c (st\<lparr>lc_sequence := n\<rparr>) = calls c st"
  by (simp_all add: calls_def)

lemma calls_timer [simp]: "setTimer task ms st = (t, st') \<Longrightarrow> calls c st' = calls c st"
  by (auto simp: setTimer_def Let_def calls_def emit_def)

lemma calls_schedule [simp]: "calls c (scheduleReconnect env st) = calls c st"
  by (simp add: scheduleReconnect_def Let_def setTimer_def) (simp add: calls_def emit_def)

lemma calls_connect [simp]: "calls c (connect env st) = calls c st"
  by (auto simp: connect_def Let_def split: option.split)

lemma length_filter_remove:
  "distinct (map fst xs) \<Longrightarrow> (i, p) \<in> set xs \<Longrightarrow>
   length (filter P (filter (\<lambda>e. fst e \<noteq> i) xs)) + (if P (i, p) then 1 else 0) = length (filter P xs)"
proof (induction xs)
  case (Cons x xs)
  show ?case
  proof (cases "fst x = i")
    case True
    then have "x = (i, p)" "filter (\<lambda>e. fst e \<noteq> i) xs = xs"
      using Cons.prems by (auto simp: image_iff intro!: filter_True)
    then show ?thesis by simp
  qed (use Cons in auto)
qed simp

lemma calls_take:
  assumes "lc_inv st" "map_of (lc_pending st) i = Some p"
  shows "calls c (settle_promise (pr_waiter p) r (clearTimer t (forget_pending i st))) = calls c st"
  using length_filter_remove [of "lc_pending st" i p "\<lambda>e. pr_waiter (snd e) = WCaller c"] assms map_of_SomeD [OF assms(2)]
  by (simp add: calls_settle) (simp add: calls_def forget_pending_def lc_inv_def pending_ok_def split: if_splits)

lemma calls_reject:
  assumes "lc_inv st" "owns st g ws"
  shows "calls c (rejectGeneration g m k (st\<lparr>lc_current := None, lc_ready := False\<rparr>)) = calls c st"
proof -
  let ?st = "rejectGeneration g m k (st\<lparr>lc_current := None, lc_ready := False\<rparr>)"
  have "lc_effects ?st = lc_effects st" by (simp add: rejectGeneration_eq rejected_all_def)
  moreover have "lc_pending ?st = []" using reject_idle(1) [OF assms] by (simp add: idle_def)
  ultimately show ?thesis by (simp add: calls_def reject_idle(2) [OF assms] filter_map comp_def)
qed

lemma calls_refusal: "lc_inv st \<Longrightarrow> calls c (rejectAndReconnect env g ws k st) = calls c st"
  by (simp add: rejectAndReconnect_def calls_reject)

lemma calls_requestOn: "lc_inv st \<Longrightarrow> calls c (requestOn env g ws verb params w st) = calls c st + (if w = WCaller c then 1 else 0)"
proof -
  have "filter (\<lambda>e. fst e \<noteq> i) xs = xs" if "i \<notin> fst ` set xs" for i and xs :: "(string \<times> pending_rpc) list"
    using that by (auto intro!: filter_True)
  moreover assume "lc_inv st"
  ultimately show ?thesis
    using request_sent_inv(2) [of st g ws "\<lparr>pr_generation = g, pr_waiter = w, pr_timeout = lc_nextTimer st\<rparr>"]
    by (auto simp: requestOn_def Let_def setTimer_def calls_def settle_promise_def clearTimer_def forget_pending_def emit_def)
qed

lemma calls_stop: "lc_inv st \<Longrightarrow> calls c (stop st) = calls c st"
proof (cases "lc_current st")
  case None
  then show ?thesis by (simp add: stop_def Let_def clearReconnectTimer_def split: option.split)
next
  case (Some gw)
  assume i: "lc_inv st"
  obtain g ws where gw: "lc_current st = Some (g, ws)" using Some by (cases gw) auto
  then have o': "owns st g ws" and n: "lc_reconnectTimer st = None" using i by (auto simp: owns_def lc_inv_def attempt_ok_def)
  have "rejectGeneration g m k (st\<lparr>lc_stopped := True, lc_current := None, lc_ready := False\<rparr>) =
      (rejectGeneration g m k (st\<lparr>lc_current := None, lc_ready := False\<rparr>))\<lparr>lc_stopped := True\<rparr>" for m k
    by (simp add: rejectGeneration_eq rejected_all_def)
  with gw n calls_reject [OF i o'] show ?thesis by (simp add: stop_def Let_def clearReconnectTimer_def)
qed

lemma calls_message: "lc_inv st \<Longrightarrow> calls c (handleMessage g ws data st) = calls c st"
  by (simp add: handleMessage_def Let_def calls_take del: calls_settle calls_clear split: option.split)

lemma calls_fires: "lc_inv st \<Longrightarrow> calls c (timer_fires env t st) = calls c st"
  by (simp add: timer_fires_def clear_forget calls_take del: calls_settle split: option.split timer_task.split)

lemma calls_event: "lc_inv st \<Longrightarrow> calls c (handle_event env e st) = calls c st + (if asks c (env, e) then 1 else 0)"
  by (cases e)
    (auto simp: start_def calls_stop calls_message calls_fires register_def calls_requestOn request_def
      handleClose_def calls_reject split: option.split bool.split)

lemma calls_react: "lc_inv st \<Longrightarrow> calls c (react env w r st) = calls c st + (if w = WCaller c then 1 else 0)"
  by (cases w; cases r) (auto simp: calls_refusal)

lemma calls_drain: "lc_inv st \<Longrightarrow> calls c (drain env st) = calls c st"
proof (induction env st rule: drain.induct)
  case (1 env st)
  show ?case
  proof (cases "lc_reactions st")
    case Nil
    then show ?thesis by (simp add: drain.simps [of env st])
  next
    case (Cons wr rest)
    obtain w r where wr: "wr = (w, r)" by (cases wr)
    let ?st = "st\<lparr>lc_reactions := rest\<rparr>"
    have i: "lc_inv ?st" using 1(2) inv_cong [of ?st st] by simp
    have "calls c (drain env (react env w r ?st)) = calls c (react env w r ?st)"
      using 1(1) [OF Cons wr [symmetric]] react_inv [OF i] by simp
    also have "\<dots> = calls c st" using calls_react [OF i] Cons wr by (simp add: calls_def)
    finally show ?thesis by (simp add: drain.simps [of env st] Cons wr)
  qed
qed

lemma calls_run: "calls c (lc_run evs) = length (filter (asks c) evs)"
proof (induction evs rule: rev_induct)
  case Nil
  then show ?case by (simp add: lc_run_def lifecycle_new_def calls_def)
next
  case (snoc ev evs)
  have i: "lc_inv (lc_run evs)" using lc_run_ok [of evs] by (simp add: lc_ok_def)
  obtain env e where ev: "ev = (env, e)" by (cases ev)
  have "calls c (lc_step (lc_run evs) ev) = calls c (lc_run evs) + (if asks c ev then 1 else 0)"
    unfolding ev lc_step_def prod.case using calls_event [OF i] calls_drain [OF event_inv [OF i]] by simp
  with snoc show ?case by (simp add: lc_run_def)
qed

text \<open>
  C17: Every request is settled exactly once. After any sequence of events, however sockets close,
  timers fire and old sockets speak, the requests made under a tag are those whose promise has been
  settled once and those still waiting; nothing is queued; a request waits only while there is a
  current socket; and each waiting one has a timeout running that will settle it.
\<close>
theorem every_request_is_settled_once:
  "let st = lc_run evs
   in length (filter (settles_call c) (lc_effects st)) +
        length (filter (\<lambda>e. pr_waiter (snd e) = WCaller c) (lc_pending st)) = length (filter (asks c) evs) \<and>
      lc_reactions st = [] \<and> (case lc_current st of None \<Rightarrow> lc_pending st = [] | Some _ \<Rightarrow> True) \<and>
      list_all (\<lambda>(i, p). \<exists>verb. map_of (lc_timers st) (pr_timeout p) = Some (TRpc i verb)) (lc_pending st)"
proof -
  let ?st = "lc_run evs"
  have ok: "lc_inv ?st" "lc_reactions ?st = []" using lc_run_ok [of evs] by (simp_all add: lc_ok_def)
  have "\<exists>verb. map_of (lc_timers ?st) (pr_timeout p) = Some (TRpc i verb)" if "(i, p) \<in> set (lc_pending ?st)" for i p
  proof -
    have "\<exists>verb. (pr_timeout p, TRpc i verb) \<in> set (lc_timers ?st)"
      using ok(1) that unfolding lc_inv_def timers_ok_def by blast
    then show ?thesis using ok(1) by (auto simp: lc_inv_def timers_ok_def)
  qed
  moreover have "case lc_current ?st of None \<Rightarrow> lc_pending ?st = [] | Some _ \<Rightarrow> True"
    using ok(1) by (auto simp: lc_inv_def attempt_ok_def split: option.splits)
  ultimately show ?thesis
    using calls_run [of c evs] ok(2) by (auto simp: calls_def Let_def list_all_iff)
qed

text \<open>
  One attempt at a time, and always one. After any sequence of events the object has a current
  socket and no reconnect timer, or the timer alone and nothing else pending, or neither; and neither
  only where it has not been started or has been stopped. So while it runs it never gives up, and
  never connects twice.
\<close>
theorem one_attempt_at_a_time:
  "let st = lc_run evs
   in case (lc_current st, lc_reconnectTimer st) of
        (Some _, Some _) \<Rightarrow> False
      | (Some (g, ws), None) \<Rightarrow> \<not> lc_stopped st \<and> g = lc_generation st
      | (None, Some t) \<Rightarrow> \<not> lc_stopped st \<and> \<not> isReady st \<and> lc_timers st = [(t, TReconnect)] \<and> lc_pending st = []
      | (None, None) \<Rightarrow> (lc_stopped st \<or> lc_generation st = 0) \<and> \<not> isReady st \<and> lc_timers st = [] \<and> lc_pending st = []"
proof -
  let ?st = "lc_run evs"
  have ok: "lc_inv ?st" using lc_run_ok [of evs] by (simp add: lc_ok_def)
  have a: "attempt_ok ?st" using ok by (simp add: lc_inv_def)
  show ?thesis
  proof (cases "lc_reconnectTimer ?st")
    case None
    then show ?thesis
      using a inv_idle [OF ok] by (cases "lc_current ?st") (auto simp: attempt_ok_def isReady_def idle_def Let_def)
  next
    case (Some t)
    have "idle ((clearTimer t ?st)\<lparr>lc_reconnectTimer := None\<rparr>)" by (rule only_reconnect [OF ok Some])
    then have only: "fst e = t" if "e \<in> set (lc_timers ?st)" for e
      using that by (auto simp: idle_def clearTimer_def filter_empty_conv)
    have d: "distinct (map fst (lc_timers ?st))" and m: "(t, TReconnect) \<in> set (lc_timers ?st)"
      using ok Some by (auto simp: lc_inv_def timers_ok_def)
    have "lc_timers ?st = [(t, TReconnect)]"
    proof (cases "lc_timers ?st")
      case Nil
      with m show ?thesis by simp
    next
      case (Cons e es)
      have "es = []"
      proof (rule ccontr)
        assume "es \<noteq> []"
        then obtain e' es' where "es = e' # es'" by (cases es) auto
        with Cons only d show False by simp
      qed
      with Cons m show ?thesis by simp
    qed
    with a Some show ?thesis
      by (cases "lc_current ?st") (auto simp: attempt_ok_def isReady_def Let_def)
  qed
qed

text \<open>The delay between attempts doubles from the base to the maximum and stays between them.\<close>

lemma reconnect_delay_bounds:
  assumes "0 \<le> le_reconnectBaseMs env"
  shows "min (le_reconnectMaxMs env) (le_reconnectBaseMs env) \<le> reconnect_delay env n"
    "reconnect_delay env n \<le> le_reconnectMaxMs env"
    "m \<le> n \<Longrightarrow> reconnect_delay env m \<le> reconnect_delay env n"
proof -
  have p: "(2::int) ^ min m 10 \<le> 2 ^ min n 10" if "m \<le> n" for m n :: nat
    using that by (intro power_increasing) auto
  have "le_reconnectBaseMs env * 1 \<le> le_reconnectBaseMs env * 2 ^ min n 10"
    using assms p [of 0 n] by (intro mult_left_mono) simp_all
  then show "min (le_reconnectMaxMs env) (le_reconnectBaseMs env) \<le> reconnect_delay env n"
    "reconnect_delay env n \<le> le_reconnectMaxMs env" by (auto simp: reconnect_delay_def)
  show "reconnect_delay env m \<le> reconnect_delay env n" if "m \<le> n"
    using mult_left_mono [OF p [OF that] assms] by (auto simp: reconnect_delay_def)
qed

text \<open>
  A socket that is not the current one is deaf. Whatever an old socket says or does, after any
  sequence of events, the object is exactly as it was; so it cannot end a newer registration, settle
  a newer request or start a second reconnect.
\<close>
theorem old_sockets_are_ignored:
  assumes "lc_current (lc_run evs) \<noteq> Some (g, ws)"
  shows "lc_run (evs @ [(env, LOpen g ws)]) = lc_run evs \<and> lc_run (evs @ [(env, LMessage g ws data)]) = lc_run evs \<and>
    lc_run (evs @ [(env, LClose g ws)]) = lc_run evs"
proof -
  have "lc_reactions (lc_run evs) = []" using lc_run_ok [of evs] by (simp add: lc_ok_def)
  then have "drain env (lc_run evs) = lc_run evs" by (simp add: drain.simps [of env "lc_run evs"])
  moreover have "lc_run (evs @ [ev]) = lc_step (lc_run evs) ev" for ev by (simp add: lc_run_def)
  ultimately show ?thesis
    using assms by (simp add: lc_step_def owns_def handleMessage_def handleClose_def)
qed

definition plain_lc_env :: "hub_socket \<Rightarrow> lc_env" where
  "plain_lc_env ws = \<lparr>le_identity = ''self-reminder'', le_reconnectBaseMs = 1000, le_reconnectMaxMs = 30000,
     le_rpcTimeoutMs = 10000, le_createSocket = Some ws, le_open = (\<lambda>ws. True), le_send_throws = False\<rparr>"

text \<open>The first socket closes, and after the delay a second one is opened.\<close>

definition reconnected :: "(lc_env \<times> lc_event) list" where
  "reconnected = [(plain_lc_env 1, LStart), (plain_lc_env 1, LOpen 1 1), (plain_lc_env 1, LClose 1 1), (plain_lc_env 2, LTimer 1)]"

lemma old_sockets_are_ignored_witness:
  "lc_current (lc_run (reconnected @ [(plain_lc_env 2, LClose 1 1)])) = Some (2, 2)"
proof -
  have c: "lc_current (lc_run reconnected) = Some (2, 2)" by code_simp
  then have "lc_current (lc_run reconnected) \<noteq> Some (1, 1)" by simp
  from old_sockets_are_ignored [OF this, of "plain_lc_env 2" "[]"] c show ?thesis by simp
qed

end
