(* ===== verification/Mesh_Time.thy ===== *)
theory Mesh_Time
  imports Hub_State
begin

text \<open>
  Instants that are kept as text: \<open>Date.toISOString\<close> is \<open>iso_text\<close> of \<open>Hub_State\<close>, and this theory has
  the reading of such a text by \<open>new Date\<close>. A text that no instant of the years 0 to 9999 prints is read
  as no date; the stores only ever hold printed ones in these columns.

  The lemmas: the day number of a calendar date inverts \<open>civil_date\<close>, and printing and reading invert
  each other.
\<close>

section \<open>Reading an instant\<close>

text \<open>The day number of a date, counted from 1970-01-01.\<close>

definition civil_days :: "int \<Rightarrow> int \<Rightarrow> int \<Rightarrow> int" where
  "civil_days y m d =
     (let y' = (if m \<le> 2 then y - 1 else y); yoe = y' mod 400; mp = (if m > 2 then m - 3 else m + 9);
          doy = (153 * mp + 2) div 5 + d - 1
      in y' div 400 * 146097 + (yoe * 365 + yoe div 4 - yoe div 100 + doy) - 719468)"

text \<open>The number in \<open>n\<close> characters from position \<open>i\<close>.\<close>

definition field :: "string \<Rightarrow> nat \<Rightarrow> nat \<Rightarrow> int" where
  "field s i n = (case parse_digits (take n (drop i s)) of None \<Rightarrow> 0 | Some v \<Rightarrow> v)"

definition iso_parse :: "string \<Rightarrow> millis option" where
  "iso_parse s =
     (let ms = ((civil_days (field s 0 4) (field s 5 2) (field s 8 2) * 86400 +
                 field s 11 2 * 3600 + field s 14 2 * 60 + field s 17 2) * 1000 + field s 20 3)
      in if length s = 24 \<and> iso_text ms = s then Some ms else None)"

section \<open>Printing and reading\<close>

lemma digits_text_length: "0 \<le> i \<Longrightarrow> i < 10 ^ Suc n \<Longrightarrow> length (digits_text i) \<le> Suc n"
proof (induction n arbitrary: i)
  case 0
  then show ?case by (simp add: digits_text.simps [of i])
next
  case (Suc n)
  show ?case
  proof (cases "i < 10")
    case True
    then show ?thesis by (simp add: digits_text.simps [of i])
  next
    case False
    then have "length (digits_text (i div 10)) \<le> Suc n" using Suc by (intro Suc.IH) auto
    with False show ?thesis by (simp add: digits_text.simps [of i])
  qed
qed

lemma digits_value_zeros: "digits_value 0 (replicate k (CHR ''0'') @ s) = digits_value 0 s"
  by (induction k) (simp_all add: digit_of_def)

lemma zero_digit: "is_digit (CHR ''0'')"
  by (simp add: is_digit_def digit_of_def)

lemma pad_digits:
  assumes "0 \<le> i" "i < 10 ^ Suc n"
  shows "length (pad (Suc n) i) = Suc n" "parse_digits (pad (Suc n) i) = Some i"
proof -
  have s: "int_text i = digits_text i" using assms by (simp add: int_text_def)
  show "length (pad (Suc n) i) = Suc n"
    using digits_text_length [OF assms] by (simp add: pad_def s Let_def)
  have "list_all is_digit (pad (Suc n) i) \<and> pad (Suc n) i \<noteq> []"
    using digits_text_digits [OF assms(1)] by (auto simp: pad_def s Let_def list_all_iff zero_digit)
  then have "parse_digits (pad (Suc n) i) = Some (digits_value 0 (pad (Suc n) i))"
    by (cases "pad (Suc n) i") (simp_all add: parse_digits_def)
  then show "parse_digits (pad (Suc n) i) = Some i"
    using digits_value_text [OF assms(1)] by (simp add: pad_def s Let_def digits_value_zeros)
qed

lemma pad2:
  assumes "0 \<le> i" "i < 100"
  shows "length (pad 2 i) = 2" "parse_digits (pad 2 i) = Some i"
  using pad_digits [of i 1] assms by (simp_all add: numeral_2_eq_2)

section \<open>The calendar\<close>

text \<open>The year and the day of the year, within an era of 400 years that begins on 1 March.\<close>

lemma year_of_era_bounds:
  fixes doe :: int
  assumes "0 \<le> doe" "doe < 146097"
  defines "yoe \<equiv> (doe - doe div 1460 + doe div 36524 - doe div 146096) div 365"
  shows "0 \<le> yoe \<and> yoe \<le> 399 \<and> 0 \<le> doe - (365 * yoe + yoe div 4 - yoe div 100) \<and>
    doe - (365 * yoe + yoe div 4 - yoe div 100) \<le> 365"
proof (cases "doe = 146096")
  case True
  then show ?thesis by (simp add: yoe_def)
next
  case False
  define c where "c = doe div 36524"
  define q where "q = doe div 1460 - 25 * c"
  define z where "z = yoe - 100 * c"
  have "doe div 146096 = 0" using assms(1,2) False by simp
  have c: "36524 * c \<le> doe" "doe \<le> 36524 * c + 36523" "0 \<le> c" "c \<le> 3"
    using assms(1,2) False by (simp_all add: c_def)
  have q: "1460 * q + 36500 * c \<le> doe" "doe \<le> 1460 * q + 36500 * c + 1459"
    by (simp_all add: q_def right_diff_distrib)
  have y: "365 * yoe \<le> doe - q - 24 * c" "doe - q - 24 * c \<le> 365 * yoe + 364"
    using \<open>doe div 146096 = 0\<close> by (simp_all add: yoe_def c_def q_def)
  have z: "0 \<le> z" "z \<le> 99" using c q y by (simp_all add: z_def)
  have b: "yoe div 100 = c" "yoe div 4 = 25 * c + z div 4" using z by (simp_all add: z_def)
  have a: "4 * (z div 4) \<le> z" "z \<le> 4 * (z div 4) + 3" by simp_all
  have "0 \<le> q" using c q by linarith
  have "z div 4 \<le> q" using c q y a \<open>0 \<le> q\<close> unfolding z_def by linarith
  moreover have "q \<le> z div 4 + 1" using c q y a z unfolding z_def by linarith
  moreover have "0 \<le> yoe" "yoe \<le> 399" using z c by (simp_all add: z_def)
  ultimately show ?thesis using c q y unfolding b z_def by linarith
qed

text \<open>Month and day of a day of such a year.\<close>

lemma month_of_year_bounds:
  fixes doy :: int
  assumes "0 \<le> doy" "doy \<le> 365"
  defines "mp \<equiv> (5 * doy + 2) div 153"
  shows "0 \<le> mp" "mp \<le> 11" "1 \<le> doy - (153 * mp + 2) div 5 + 1" "doy - (153 * mp + 2) div 5 + 1 \<le> 31"
proof -
  have m: "153 * mp \<le> 5 * doy + 2" "5 * doy + 2 \<le> 153 * mp + 152" by (simp_all add: mp_def)
  have k: "5 * ((153 * mp + 2) div 5) \<le> 153 * mp + 2" "153 * mp + 2 \<le> 5 * ((153 * mp + 2) div 5) + 4"
    by simp_all
  show "0 \<le> mp" "mp \<le> 11" using assms(1,2) m by simp_all
  show "1 \<le> doy - (153 * mp + 2) div 5 + 1" "doy - (153 * mp + 2) div 5 + 1 \<le> 31" using m k by linarith+
qed

text \<open>9999-01-01 is day 2932532.\<close>

lemma civil_date_inverse:
  assumes "civil_date n = (y, m, d)"
  shows "civil_days y m d = n" "1 \<le> m" "m \<le> 12" "1 \<le> d" "d \<le> 31"
    "0 \<le> n \<Longrightarrow> n < 2932532 \<Longrightarrow> 0 \<le> y \<and> y \<le> 9999"
proof -
  define era where "era = (n + 719468) div 146097"
  define doe where "doe = (n + 719468) mod 146097"
  define yoe where "yoe = (doe - doe div 1460 + doe div 36524 - doe div 146096) div 365"
  define doy where "doy = doe - (365 * yoe + yoe div 4 - yoe div 100)"
  define mp where "mp = (5 * doy + 2) div 153"
  have doe: "0 \<le> doe" "doe < 146097" by (simp_all add: doe_def)
  note yb = year_of_era_bounds [OF doe, folded yoe_def, folded doy_def]
  from yb have "0 \<le> doy" "doy \<le> 365" by simp_all
  note mb = month_of_year_bounds [OF this, folded mp_def]
  have "civil_date n =
      (yoe + era * 400 + (if (if mp < 10 then mp + 3 else mp - 9) \<le> 2 then 1 else 0),
       if mp < 10 then mp + 3 else mp - 9, doy - (153 * mp + 2) div 5 + 1)"
    unfolding civil_date_def Let_def era_def doe_def yoe_def doy_def mp_def by (rule refl)
  then have ymd: "m = (if mp < 10 then mp + 3 else mp - 9)" "d = doy - (153 * mp + 2) div 5 + 1"
    "y = yoe + era * 400 + (if m \<le> 2 then 1 else 0)"
    unfolding assms by (simp_all only: prod.inject)
  show "1 \<le> m" "m \<le> 12" "1 \<le> d" "d \<le> 31" using mb by (simp_all add: ymd)
  have mp: "(if m > 2 then m - 3 else m + 9) = mp" using mb by (simp add: ymd(1))
  have y: "(if m \<le> 2 then y - 1 else y) = yoe + era * 400" by (simp add: ymd(3))
  have e: "(yoe + era * 400) mod 400 = yoe" "(yoe + era * 400) div 400 = era" using yb by simp_all
  have "civil_days y m d = era * 146097 + doe - 719468"
    unfolding civil_days_def Let_def mp y e by (simp add: ymd(2) doy_def)
  also have "\<dots> = n" by (simp add: era_def doe_def)
  finally show "civil_days y m d = n" .
  show "0 \<le> y \<and> y \<le> 9999" if "0 \<le> n" "n < 2932532"
  proof -
    have n: "n + 719468 = era * 146097 + doe" by (simp add: era_def doe_def)
    have "0 \<le> era" "era \<le> 24" using that by (simp_all add: era_def)
    moreover have "yoe \<noteq> 399" if "era = 24"
    proof
      assume "yoe = 399"
      then have "doy = doe - 145731" by (simp add: doy_def)
      with yb n that \<open>n < 2932532\<close> show False by simp
    qed
    ultimately show ?thesis using yb by (cases "era = 24") (auto simp: ymd(3))
  qed
qed

section \<open>The texts\<close>

text \<open>The parts of a printed instant stand at their positions.\<close>

definition stamp :: "string \<Rightarrow> string \<Rightarrow> string \<Rightarrow> char \<Rightarrow> string \<Rightarrow> string \<Rightarrow> string \<Rightarrow> string \<Rightarrow> string" where
  "stamp y m d sep hh mm ss rest =
     y @ ''-'' @ m @ ''-'' @ d @ [sep] @ hh @ '':'' @ mm @ '':'' @ ss @ rest"

lemma stamp_fields:
  assumes "length y = 4" "length m = 2" "length d = 2" "length hh = 2" "length mm = 2" "length ss = 2"
  shows "take 4 (stamp y m d c hh mm ss r) = y" "take 2 (drop 5 (stamp y m d c hh mm ss r)) = m"
    "take 2 (drop 8 (stamp y m d c hh mm ss r)) = d" "take 2 (drop 11 (stamp y m d c hh mm ss r)) = hh"
    "take 2 (drop 14 (stamp y m d c hh mm ss r)) = mm" "take 2 (drop 17 (stamp y m d c hh mm ss r)) = ss"
    "drop 19 (stamp y m d c hh mm ss r) = r" "length (stamp y m d c hh mm ss r) = 19 + length r"
  using assms by (simp_all add: stamp_def)

lemma texts_of_instant:
  fixes s :: secs
  assumes "0 \<le> s" "s < 253370764800"
  obtains y m d hh mm ss where
    "\<And>c r. date_text s @ c # time_text s @ r = stamp y m d c hh mm ss r"
    "length y = 4" "length m = 2" "length d = 2" "length hh = 2" "length mm = 2" "length ss = 2"
    "\<And>c r. let t = stamp y m d c hh mm ss r in
       civil_days (field t 0 4) (field t 5 2) (field t 8 2) * 86400 +
         field t 11 2 * 3600 + field t 14 2 * 60 + field t 17 2 = s"
proof -
  obtain y m d where c: "civil_date (s div 86400) = (y, m, d)" by (metis prod_cases3)
  have n: "0 \<le> s div 86400" "s div 86400 < 2932532" using assms by simp_all
  note civ = civil_date_inverse [OF c]
  define r where "r = s mod 86400"
  have r: "0 \<le> r" "r < 86400" "s = s div 86400 * 86400 + r" by (simp_all add: r_def)
  have h: "0 \<le> r div 3600" "r div 3600 < 100" "0 \<le> r div 60 mod 60" "r div 60 mod 60 < 100"
    "0 \<le> r mod 60" "r mod 60 < 100" using r by simp_all
  have p4: "length (pad 4 y) = 4" "parse_digits (pad 4 y) = Some y"
    using pad_digits [of y 3] civ(6) [OF n] by simp_all
  have "m < 100" "d < 100" "0 \<le> m" "0 \<le> d" using civ by simp_all
  then have pm: "length (pad 2 m) = 2" "parse_digits (pad 2 m) = Some m"
    and pd: "length (pad 2 d) = 2" "parse_digits (pad 2 d) = Some d" by (simp_all add: pad2)
  note ph = pad2 [OF h(1,2)] and pn = pad2 [OF h(3,4)] and ps = pad2 [OF h(5,6)]
  have sum: "civil_days y m d * 86400 + r div 3600 * 3600 + r div 60 mod 60 * 60 + r mod 60 = s"
  proof -
    have "r div 60 = r div 3600 * 60 + r div 60 mod 60"
      using div_mult_mod_eq [of "r div 60" 60] div_mult2_eq' [of r 60 60] by simp
    then have "r = r div 3600 * 3600 + r div 60 mod 60 * 60 + r mod 60"
      using div_mult_mod_eq [of r 60] by linarith
    with r(3) civ(1) show ?thesis by linarith
  qed
  show thesis
  proof (rule that [OF _ p4(1) pm(1) pd(1) ph(1) pn(1) ps(1)])
    show "date_text s @ c' # time_text s @ rest =
        stamp (pad 4 y) (pad 2 m) (pad 2 d) c' (pad 2 (r div 3600)) (pad 2 (r div 60 mod 60)) (pad 2 (r mod 60)) rest"
      for c' rest
      by (simp add: stamp_def date_text_def c time_text_def Let_def r_def)
    show "let t = stamp (pad 4 y) (pad 2 m) (pad 2 d) c' (pad 2 (r div 3600)) (pad 2 (r div 60 mod 60)) (pad 2 (r mod 60)) rest
       in civil_days (field t 0 4) (field t 5 2) (field t 8 2) * 86400 +
          field t 11 2 * 3600 + field t 14 2 * 60 + field t 17 2 = s" for c' rest
      using sum
      by (simp add: Let_def field_def stamp_fields [OF p4(1) pm(1) pd(1) ph(1) pn(1) ps(1)] p4 pm pd ph pn ps)
  qed
qed

text \<open>An instant that was printed is read back, to the millisecond.\<close>

lemma iso_parse_text:
  assumes "0 \<le> ms" "ms < 253370764800000"
  shows "iso_parse (iso_text ms) = Some ms"
proof -
  have s: "0 \<le> ms div 1000" "ms div 1000 < 253370764800" using assms by simp_all
  obtain y m d hh mm ss where
    t: "\<And>c r. date_text (ms div 1000) @ c # time_text (ms div 1000) @ r = stamp y m d c hh mm ss r"
    and l: "length y = 4" "length m = 2" "length d = 2" "length hh = 2" "length mm = 2" "length ss = 2"
    and v: "\<And>c r. let t = stamp y m d c hh mm ss r in
       civil_days (field t 0 4) (field t 5 2) (field t 8 2) * 86400 +
         field t 11 2 * 3600 + field t 14 2 * 60 + field t 17 2 = ms div 1000"
    by (rule texts_of_instant [OF s]) blast
  let ?r = "CHR ''.'' # pad 3 (ms mod 1000) @ ''Z''"
  let ?t = "stamp y m d (CHR ''T'') hh mm ss ?r"
  have i: "iso_text ms = ?t" using t [of "CHR ''T''" ?r] by (simp add: iso_text_def)
  have p3: "length (pad 3 (ms mod 1000)) = 3" "parse_digits (pad 3 (ms mod 1000)) = Some (ms mod 1000)"
    using pad_digits [of "ms mod 1000" 2] by (simp_all add: numeral_3_eq_3)
  have "drop 20 ?t = drop 1 (drop 19 ?t)" by simp
  also have "\<dots> = pad 3 (ms mod 1000) @ ''Z''" by (simp only: stamp_fields [OF l]) simp
  finally have "field ?t 20 3 = ms mod 1000" by (simp add: field_def p3)
  moreover have "length ?t = 24" by (simp add: stamp_fields [OF l] p3)
  ultimately show ?thesis
    using v [of "CHR ''T''" ?r, unfolded Let_def] i by (simp add: iso_parse_def Let_def)
qed

lemma iso_parse_Some: "iso_parse s = Some ms \<Longrightarrow> iso_text ms = s"
  by (simp add: iso_parse_def Let_def split: if_splits)

text \<open>Two times of a column are equal when their texts are.\<close>

lemma sql_time_inj:
  assumes "0 \<le> a" "a < 253370764800" "0 \<le> b" "b < 253370764800" "sql_time a = sql_time b"
  shows "a = b"
proof -
  have e: "date_text a @ '' '' @ time_text a @ [] = date_text b @ '' '' @ time_text b @ []"
    using assms(5) by (simp add: sql_time_def)
  from assms(1,2) show ?thesis
  proof (rule texts_of_instant)
    fix y m d hh mm ss
    assume a: "\<And>c r. date_text a @ c # time_text a @ r = stamp y m d c hh mm ss r"
      "\<And>c r. let t = stamp y m d c hh mm ss r in
       civil_days (field t 0 4) (field t 5 2) (field t 8 2) * 86400 +
         field t 11 2 * 3600 + field t 14 2 * 60 + field t 17 2 = a"
    from assms(3,4) show ?thesis
    proof (rule texts_of_instant)
      fix y' m' d' hh' mm' ss'
      assume b: "\<And>c r. date_text b @ c # time_text b @ r = stamp y' m' d' c hh' mm' ss' r"
        "\<And>c r. let t = stamp y' m' d' c hh' mm' ss' r in
         civil_days (field t 0 4) (field t 5 2) (field t 8 2) * 86400 +
           field t 11 2 * 3600 + field t 14 2 * 60 + field t 17 2 = b"
      have "stamp y m d (CHR '' '') hh mm ss [] = stamp y' m' d' (CHR '' '') hh' mm' ss' []"
        using e a(1) [of "CHR '' ''" "[]"] b(1) [of "CHR '' ''" "[]"] by simp
      with a(2) [of "CHR '' ''" "[]"] b(2) [of "CHR '' ''" "[]"] show ?thesis by (simp only: Let_def)
    qed
  qed
qed

end
