(* ===== verification/Reminder_Scheduler.thy ===== *)
theory Reminder_Scheduler
  imports Hub_Reminders Reminder_Lifecycle Mesh_Time
begin

text \<open>
  The reminder scheduler: \<open>packages/self-reminder/src/scheduler.ts\<close>, and of
  \<open>packages/self-reminder/src/main.ts\<close> the recovery at start and the two requests that the scheduler is
  given. The store is the one that the hub writes its reminders into (\<open>Hub_Reminders\<close>).

  An asynchronous method runs to its next \<open>await\<close>. What it waits with, the rest of the loop, is a
  \<open>continuation\<close> under the number of the request it has made; the answer resumes it. A request and a
  promise that is rejected with nobody to catch it are effects; log lines are not.

  Parameters, because their code is in other packages: the reading of a schedule and the next slot of an
  interval (contracts), the next slot of a cron expression (cron-parser), and the digest. Failures of a
  statement are those of the constraints of the tables. An object in a context that overrides
  \<open>toString\<close> is not modelled.

  The lemmas: the store's keys and the one fire in flight are an invariant; where a fire leaves its
  reminder; which requests are made and under which key; what is held; the alert after an outage; and
  what goes wrong when a key is taken again while its reminder fires.
\<close>

section \<open>What the scheduler is given\<close>

datatype schedule = SOnce | SInterval int | SCron string "string option"

record sched_env =
  se_now :: millis
  se_overdueHoldMs :: int
  se_stalledAfterMs :: int
  se_stallLogIntervalMs :: int
  se_recoveryAlertRecipients :: "string list"
  se_overdueApprovalPrefix :: string
  se_sha256 :: "string \<Rightarrow> string"
  se_parseScheduleSpec :: "string \<Rightarrow> string \<Rightarrow> millis \<Rightarrow> string + schedule"
  se_nextIntervalFire :: "millis \<Rightarrow> int \<Rightarrow> millis \<Rightarrow> millis"
  se_nextCronFire :: "string \<Rightarrow> string option \<Rightarrow> millis \<Rightarrow> millis option"

fun connectivity_text :: "connectivity \<Rightarrow> string" where
  "connectivity_text Connecting = ''connecting''"
| "connectivity_text Registered = ''registered''"
| "connectivity_text Unavailable = ''unavailable''"

section \<open>The health table, the events and the log\<close>

definition getState :: "reminder_db \<Rightarrow> string \<Rightarrow> string option" where
  "getState db key = map_of (rm_health db) key"

definition putState :: "string \<Rightarrow> string \<Rightarrow> reminder_db \<Rightarrow> reminder_db" where
  "putState key v db = db\<lparr>rm_health := AList.update key v (rm_health db)\<rparr>"

definition deleteState :: "string \<Rightarrow> reminder_db \<Rightarrow> reminder_db" where
  "deleteState key db = db\<lparr>rm_health := filter (\<lambda>e. fst e \<noteq> key) (rm_health db)\<rparr>"

definition recordEvent :: "string \<Rightarrow> json \<Rightarrow> millis \<Rightarrow> reminder_db \<Rightarrow> reminder_db" where
  "recordEvent eventType details now db = db\<lparr>rm_events := rm_events db @ [(eventType, details, sql_now now)]\<rparr>"

text \<open>\<open>!value\<close> for a text or null.\<close>

definition absent :: "string option \<Rightarrow> bool" where
  "absent x \<longleftrightarrow> x = None \<or> x = Some []"

definition asDate :: "string option \<Rightarrow> millis option" where
  "asDate x = (if absent x then None else iso_parse (the x))"

text \<open>The slot of a row that the scan has returned; such a row has one.\<close>

definition slot :: "reminder_row \<Rightarrow> secs" where
  "slot r = (case re_next_fire_at r of None \<Rightarrow> 0 | Some t \<Rightarrow> t)"

definition insertAudit ::
  "reminder_row \<Rightarrow> string \<Rightarrow> string option \<Rightarrow> string option \<Rightarrow> millis \<Rightarrow> reminder_db \<Rightarrow> reminder_db" where
  "insertAudit r status hubMsgId error now db =
     db\<lparr>rm_log := rm_log db @
       [\<lparr>rl_reminder_id = re_id r, rl_agent_id = re_agent_id r, rl_scheduled_at = slot r, rl_fired_at = sql_now now,
         rl_delivery_status = status, rl_hub_msg_id = hubMsgId, rl_error = error\<rparr>]\<rparr>"

section \<open>The text of a reminder\<close>

definition fireKey :: "sched_env \<Rightarrow> string \<Rightarrow> secs \<Rightarrow> string" where
  "fireKey env reminderId scheduledAt =
     take 32 (se_sha256 env (reminderId @ [CHR 0x00] @ sql_time scheduledAt))"

text \<open>\<open>Object.entries\<close>: the keys that are array indices come first, in their order.\<close>

definition index_key :: "string \<Rightarrow> bool" where
  "index_key k \<longleftrightarrow> (k = ''0'' \<or> k \<noteq> [] \<and> list_all is_digit k \<and> hd k \<noteq> CHR ''0'') \<and> digits_value 0 k < 4294967295"

definition object_entries :: "(string \<times> json) list \<Rightarrow> (string \<times> json) list" where
  "object_entries ms =
     sort_key (\<lambda>e. digits_value 0 (fst e)) (filter (\<lambda>e. index_key (fst e)) ms) @
     filter (\<lambda>e. \<not> index_key (fst e)) ms"

definition parsed_context :: "reminder_row \<Rightarrow> (string \<times> json) list option" where
  "parsed_context r =
     (if absent (re_context r) then None
      else case json_parse (the (re_context r)) of Some (JObj ms) \<Rightarrow> Some ms | _ \<Rightarrow> None)"

definition task_id :: "reminder_row \<Rightarrow> string option" where
  "task_id r = Option.bind (parsed_context r) (\<lambda>ms. as_string (map_of ms ''task_id''))"

definition context_lines :: "reminder_row \<Rightarrow> (string \<times> json) list \<Rightarrow> string" where
  "context_lines r ms =
     (let entries = object_entries ms;
          ordered = (if absent (task_id r) then entries
                     else (''task_id'', JStr (the (task_id r))) # filter (\<lambda>e. fst e \<noteq> ''task_id'') entries)
      in join_with [CHR 0x0A] (map (\<lambda>(key, v). key @ '': '' @ js_String v) ordered))"

definition context_block :: "string \<Rightarrow> string" where
  "context_block text =
     [CHR 0x0A, CHR 0x0A] @ ''--- context ---'' @ [CHR 0x0A] @ text @ [CHR 0x0A]"

definition payload_header :: "reminder_row \<Rightarrow> millis \<Rightarrow> string" where
  "payload_header r now =
     (let scheduled = date_text (slot r) @ ''T'' @ time_text (slot r) @ ''Z''
      in ''[SELF-REMINDER '' @ re_id r @ '' fire='' @ re_id r @ ''@'' @ scheduled @ '' scheduled='' @ scheduled @
         '' fired='' @ iso_text now @ '' type='' @ re_type r @
         (if absent (task_id r) then [] else '' task='' @ the (task_id r)) @ '']'')"

definition formatPayload :: "reminder_row \<Rightarrow> millis \<Rightarrow> string" where
  "formatPayload r now =
     payload_header r now @ [CHR 0x0A] @ re_payload r @
     (if absent (re_context r) then []
      else case parsed_context r of
             None \<Rightarrow> context_block (the (re_context r))
           | Some ms \<Rightarrow> if context_lines r ms = [] then [] else context_block (context_lines r ms))"

section \<open>Holding\<close>

definition decision_of :: "reminder_db \<Rightarrow> string \<Rightarrow> secs \<Rightarrow> string option" where
  "decision_of db i t =
     map_option rd_decision (sql_get (\<lambda>d. rd_reminder_id d = i \<and> rd_scheduled_at d = t) (rm_decisions db))"

definition overdue :: "sched_env \<Rightarrow> reminder_row \<Rightarrow> millis \<Rightarrow> bool" where
  "overdue env r now \<longleftrightarrow> re_type r = ''once'' \<and> now - slot r * 1000 > se_overdueHoldMs env"

definition hold_event :: "reminder_row \<Rightarrow> json" where
  "hold_event r =
     JObj [(''reminder_id'', JStr (re_id r)), (''scheduled_at'', JStr (sql_time (slot r))),
           (''reason'', JStr ''awaiting_operator_decision'')]"

definition shouldHoldOverdue :: "sched_env \<Rightarrow> reminder_row \<Rightarrow> millis \<Rightarrow> reminder_db \<Rightarrow> bool \<times> reminder_db" where
  "shouldHoldOverdue env r now db =
     (if \<not> overdue env r now then (False, db)
      else if decision_of db (re_id r) (slot r) = Some ''replay'' then (False, db)
      else if decision_of db (re_id r) (slot r) = Some ''skip'' then (True, db)
      else (True,
        if \<not> absent (getState db (hold_key (re_id r) (slot r))) then db
        else recordEvent ''overdue_hold'' (hold_event r) now (putState (hold_key (re_id r) (slot r)) (iso_text now) db)))"

definition recordOverdueDecision ::
  "sched_env \<Rightarrow> string \<Rightarrow> secs \<Rightarrow> string \<Rightarrow> string \<Rightarrow> reminder_db \<Rightarrow> string + reminder_db" where
  "recordOverdueDecision env reminderId scheduledAt decision approvalRef db =
     (if take (length (se_overdueApprovalPrefix env)) approvalRef \<noteq> se_overdueApprovalPrefix env then
        Inl (''approval reference must start with '' @ se_overdueApprovalPrefix env)
      else if decision \<notin> {''replay'', ''skip''} then Inl ''CHECK constraint failed: decision IN (replay, skip)''
      else Inr (db\<lparr>rm_decisions := sql_upsert (\<lambda>d. (rd_reminder_id d, rd_scheduled_at d))
             \<lparr>rd_reminder_id = reminderId, rd_scheduled_at = scheduledAt, rd_decision = decision,
              rd_approval_ref = approvalRef, rd_decided_at = se_now env, rd_decided_by = None\<rparr>
             (\<lambda>d. d\<lparr>rd_decision := decision, rd_approval_ref := approvalRef, rd_decided_at := se_now env\<rparr>)
             (rm_decisions db)\<rparr>))"

section \<open>Stalls\<close>

definition stall_qualifies :: "sched_env \<Rightarrow> string \<Rightarrow> millis \<Rightarrow> reminder_db \<Rightarrow> bool" where
  "stall_qualifies env category now db =
     (if category = ''hub_unavailable'' then
        (case asDate (getState db ''hub_unavailable_since'') of
           None \<Rightarrow> False | Some since \<Rightarrow> now - since \<ge> se_stalledAfterMs env)
      else (case asDate (getState db ''last_successful_reminder_fire'') of
              None \<Rightarrow> True | Some fired \<Rightarrow> now - fired \<ge> se_stalledAfterMs env))"

definition maybeRecordStall :: "sched_env \<Rightarrow> string \<Rightarrow> nat \<Rightarrow> millis \<Rightarrow> reminder_db \<Rightarrow> reminder_db" where
  "maybeRecordStall env category dueCount now db =
     (if \<not> stall_qualifies env category now db then db
      else if (case asDate (getState db ''last_scheduler_stalled'') of
                 None \<Rightarrow> False | Some logged \<Rightarrow> now - logged < se_stallLogIntervalMs env) then db
      else recordEvent ''scheduler_stalled''
             (JObj [(''due_active_count'', JInt (int dueCount)), (''error_category'', JStr category)]) now
             (putState ''last_stall_category'' category
               (putState ''last_scheduler_stalled'' (iso_text now) db)))"

section \<open>Where a reminder goes after it has fired\<close>

text \<open>An update of one row; the partial unique index is checked on the result.\<close>

definition active_keys_unique :: "reminder_db \<Rightarrow> bool" where
  "active_keys_unique db \<longleftrightarrow>
     sql_unique_where keyed_active (\<lambda>r. (re_agent_id r, re_idempotency_key r)) (rm_reminders db)"

definition update_reminders ::
  "(reminder_row \<Rightarrow> bool) \<Rightarrow> (reminder_row \<Rightarrow> reminder_row) \<Rightarrow> reminder_db \<Rightarrow> string + reminder_db" where
  "update_reminders P f db =
     (let db' = db\<lparr>rm_reminders := sql_update P f (rm_reminders db)\<rparr>
      in if active_keys_unique db' then Inr db'
         else Inl ''UNIQUE constraint failed: reminders.agent_id, reminders.idempotency_key'')"

definition nextFire :: "sched_env \<Rightarrow> reminder_row \<Rightarrow> millis \<Rightarrow> millis option" where
  "nextFire env r now =
     (case se_parseScheduleSpec env (re_type r) (re_schedule_spec r) now of
        Inl reason \<Rightarrow> None
      | Inr (SInterval everyMs) \<Rightarrow> Some (se_nextIntervalFire env (slot r * 1000) everyMs now)
      | Inr (SCron cron tz) \<Rightarrow> se_nextCronFire env cron tz now
      | Inr SOnce \<Rightarrow> None)"

definition completed :: "secs \<Rightarrow> reminder_row \<Rightarrow> reminder_row" where
  "completed t r = r\<lparr>re_status := RFired, re_fire_count := re_fire_count r + 1, re_last_fired_at := Some t,
     re_updated_at := t, re_next_fire_at := None\<rparr>"

definition advanced :: "secs \<Rightarrow> secs \<Rightarrow> reminder_row \<Rightarrow> reminder_row" where
  "advanced t next r = r\<lparr>re_fire_count := re_fire_count r + 1, re_last_fired_at := Some t, re_updated_at := t,
     re_status := RActive, re_next_fire_at := Some next\<rparr>"

definition advanceOrComplete :: "sched_env \<Rightarrow> reminder_row \<Rightarrow> millis \<Rightarrow> reminder_db \<Rightarrow> string + reminder_db" where
  "advanceOrComplete env r now db =
     (if re_type r = ''once'' then update_reminders (\<lambda>x. re_id x = re_id r) (completed (sql_now now)) db
      else case nextFire env r now of
             None \<Rightarrow> update_reminders (\<lambda>x. re_id x = re_id r)
                       (\<lambda>x. x\<lparr>re_status := RDead, re_updated_at := sql_now now\<rparr>) db
           | Some next \<Rightarrow> update_reminders (\<lambda>x. re_id x = re_id r) (advanced (sql_now now) (sql_now next)) db)"

section \<open>The scheduler\<close>

datatype continuation =
    AwaitFire millis reminder_row "reminder_row list" nat
  | AwaitAlert string "string list"

datatype sched_effect = Asked nat string json | Failed string

record scheduler =
  sc_db :: reminder_db
  sc_running :: bool
  sc_ticking :: bool
  sc_waiting :: "(nat \<times> continuation) list"
  sc_nextCall :: nat
  sc_effects :: "sched_effect list"

definition scheduler_init :: scheduler where
  "scheduler_init =
     \<lparr>sc_db = reminder_db_init, sc_running = False, sc_ticking = False, sc_waiting = [], sc_nextCall = 0, sc_effects = []\<rparr>"

definition ask :: "continuation \<Rightarrow> json \<Rightarrow> scheduler \<Rightarrow> scheduler" where
  "ask k params sc =
     sc\<lparr>sc_waiting := sc_waiting sc @ [(sc_nextCall sc, k)], sc_nextCall := Suc (sc_nextCall sc),
        sc_effects := sc_effects sc @ [Asked (sc_nextCall sc) ''mesh.send'' params]\<rparr>"

definition failed :: "string \<Rightarrow> scheduler \<Rightarrow> scheduler" where
  "failed e sc = sc\<lparr>sc_effects := sc_effects sc @ [Failed e]\<rparr>"

definition send_params :: "string \<Rightarrow> string \<Rightarrow> string \<Rightarrow> json" where
  "send_params recipient content key =
     JObj [(''to'', JStr recipient), (''content'', JStr content), (''client_message_id'', JStr key)]"

section \<open>Connectivity and recovery\<close>

definition setConnectivity :: "sched_env \<Rightarrow> connectivity \<Rightarrow> string option \<Rightarrow> reminder_db \<Rightarrow> reminder_db" where
  "setConnectivity env state errorCategory db =
     (let db1 = putState ''connectivity_state'' (connectivity_text state) db
      in if state \<noteq> Unavailable then db1
         else (let db2 = (if absent (getState db1 ''hub_unavailable_since'')
                          then putState ''hub_unavailable_since'' (iso_text (se_now env)) db1 else db1)
               in if absent errorCategory then db2
                  else putState ''last_hub_error_category'' (the errorCategory) db2))"

definition recoveryAlertKey :: "sched_env \<Rightarrow> string \<Rightarrow> string \<Rightarrow> string" where
  "recoveryAlertKey env recipient content = take 32 (se_sha256 env (recipient @ '' '' @ content))"

definition due :: "millis \<Rightarrow> reminder_row \<Rightarrow> bool" where
  "due now r \<longleftrightarrow> re_status r = RActive \<and> (case re_next_fire_at r of None \<Rightarrow> False | Some t \<Rightarrow> t \<le> sql_now now)"

definition alert_text :: "string \<Rightarrow> millis \<Rightarrow> nat \<Rightarrow> string \<Rightarrow> string" where
  "alert_text outageStarted now dueCount category =
     join_with '' '' [''Self-reminder scheduler recovered.'', ''outage_started='' @ outageStarted,
       ''recovered_at='' @ iso_text now, ''due_active_count='' @ int_text (int dueCount),
       ''last_error_category='' @ category]"

fun alert_next :: "sched_env \<Rightarrow> string \<Rightarrow> string list \<Rightarrow> scheduler \<Rightarrow> scheduler" where
  "alert_next env content [] sc = sc"
| "alert_next env content (recipient # rest) sc =
     ask (AwaitAlert content rest) (send_params recipient content (recoveryAlertKey env recipient content)) sc"

definition recovered_details :: "string \<Rightarrow> nat \<Rightarrow> string \<Rightarrow> json" where
  "recovered_details outageStarted dueCount category =
     JObj [(''outage_started'', JStr outageStarted), (''due_active_count'', JInt (int dueCount)),
           (''error_category'', JStr category)]"

definition onHubRegistered :: "sched_env \<Rightarrow> scheduler \<Rightarrow> scheduler" where
  "onHubRegistered env sc =
     (let now = se_now env; outageStarted = getState (sc_db sc) ''hub_unavailable_since'';
          db = deleteState ''hub_unavailable_since'' (putState ''connectivity_state'' ''registered''
                 (putState ''last_successful_hub_registration'' (iso_text now) (sc_db sc)))
      in if absent outageStarted \<or> getState db ''recovery_alert_outage'' = outageStarted then sc\<lparr>sc_db := db\<rparr>
         else (let dueCount = sql_changes (due now) (rm_reminders db);
                   category = (case getState db ''last_hub_error_category'' of None \<Rightarrow> ''hub_unavailable'' | Some c \<Rightarrow> c);
                   content = alert_text (the outageStarted) now dueCount category
               in alert_next env content (se_recoveryAlertRecipients env)
                    (sc\<lparr>sc_db := recordEvent ''scheduler_recovered''
                          (recovered_details (the outageStarted) dueCount category) now
                          (putState ''recovery_alert_outage'' (the outageStarted) db)\<rparr>)))"

section \<open>The loop over the reminders that are due\<close>

definition due_rows :: "millis \<Rightarrow> reminder_db \<Rightarrow> reminder_row list" where
  "due_rows now db = take 100 (order_asc slot (sql_where (due now) (rm_reminders db)))"

definition claim_reminder :: "millis \<Rightarrow> string \<Rightarrow> reminder_db \<Rightarrow> nat \<times> reminder_db" where
  "claim_reminder now i db =
     (sql_changes (\<lambda>x. re_id x = i \<and> re_status x = RActive) (rm_reminders db),
      db\<lparr>rm_reminders := sql_update (\<lambda>x. re_id x = i \<and> re_status x = RActive)
           (\<lambda>x. x\<lparr>re_status := RFiring, re_updated_at := sql_now now\<rparr>) (rm_reminders db)\<rparr>)"

definition fire_params :: "sched_env \<Rightarrow> millis \<Rightarrow> reminder_row \<Rightarrow> json" where
  "fire_params env now r =
     send_params (re_agent_id r) (formatPayload r now) (fireKey env (re_id r) (slot r))"

text \<open>The loop from one reminder on, to the next request or to the end of the tick.\<close>

fun fire_next :: "sched_env \<Rightarrow> millis \<Rightarrow> nat \<Rightarrow> reminder_row list \<Rightarrow> scheduler \<Rightarrow> scheduler" where
  "fire_next env now dueCount [] sc =
     sc\<lparr>sc_db := maybeRecordStall env ''no_successful_fire'' dueCount now (sc_db sc), sc_ticking := False\<rparr>"
| "fire_next env now dueCount (r # rest) sc =
     (let (held, db) = shouldHoldOverdue env r now (sc_db sc)
      in if held then fire_next env now dueCount rest (sc\<lparr>sc_db := db\<rparr>)
         else (let (changes, db1) = claim_reminder now (re_id r) db
               in if changes \<noteq> 1 then fire_next env now dueCount rest (sc\<lparr>sc_db := db1\<rparr>)
                  else ask (AwaitFire now r rest dueCount) (fire_params env now r)
                         (sc\<lparr>sc_db := insertAudit r ''firing'' None None now db1\<rparr>)))"

definition advanceDue :: "sched_env \<Rightarrow> bool \<Rightarrow> scheduler \<Rightarrow> scheduler" where
  "advanceDue env hubReady sc =
     (if sc_ticking sc then sc
      else (let now = se_now env; db = putState ''last_due_scan'' (iso_text now) (sc_db sc); rows = due_rows now db
            in if rows = [] then sc\<lparr>sc_db := db\<rparr>
               else if \<not> hubReady then
                 sc\<lparr>sc_db := maybeRecordStall env ''hub_unavailable'' (length rows) now db\<rparr>
               else fire_next env now (length rows) rows (sc\<lparr>sc_db := db, sc_ticking := True\<rparr>)))"

text \<open>
  The body of the \<open>try\<close> after its \<open>await\<close>: what is thrown is given as its category, and the writes that
  came before it stand.
\<close>

definition fire_accepted ::
  "sched_env \<Rightarrow> millis \<Rightarrow> reminder_row \<Rightarrow> outcome \<Rightarrow> reminder_db \<Rightarrow> string option \<times> reminder_db" where
  "fire_accepted env now r result db =
     (case result of
        Rejected message category \<Rightarrow> (Some (hubErrorCategory result), db)
      | Resolved v \<Rightarrow>
          if nullish v then (Some (hubErrorCategory result), db)
          else (case sql_bind (jget (the v) ''id'') of
                  None \<Rightarrow> (Some (hubErrorCategory result), db)
                | Some hubMsgId \<Rightarrow>
                    (let status = (if jget (the v) ''status'' = Some (JStr ''pending'') then ''queued'' else ''delivered'');
                         db1 = insertAudit r status hubMsgId None now db
                     in case advanceOrComplete env r now db1 of
                          Inl e \<Rightarrow> (Some (hubErrorCategory result), db1)
                        | Inr db2 \<Rightarrow> (None, putState ''last_successful_reminder_fire'' (iso_text now) db2))))"

definition reactivated :: "secs \<Rightarrow> reminder_row \<Rightarrow> reminder_row" where
  "reactivated t x = x\<lparr>re_status := RActive, re_updated_at := t\<rparr>"

definition fire_answered ::
  "sched_env \<Rightarrow> millis \<Rightarrow> reminder_row \<Rightarrow> reminder_row list \<Rightarrow> nat \<Rightarrow> outcome \<Rightarrow> scheduler \<Rightarrow> scheduler" where
  "fire_answered env now r rest dueCount result sc =
     (case fire_accepted env now r result (sc_db sc) of
        (None, db) \<Rightarrow> fire_next env now dueCount rest (sc\<lparr>sc_db := db\<rparr>)
      | (Some category, db) \<Rightarrow>
          (let db1 = insertAudit r ''failed'' None (Some category) now db
           in case update_reminders (\<lambda>x. re_id x = re_id r) (reactivated (sql_now now)) db1 of
                Inl e \<Rightarrow> failed e (sc\<lparr>sc_db := db1, sc_ticking := False\<rparr>)
              | Inr db2 \<Rightarrow> fire_next env now dueCount rest
                             (sc\<lparr>sc_db := putState ''last_hub_error_category'' category db2\<rparr>)))"

section \<open>The process\<close>

text \<open>The start: rows that a crash has left in \<open>firing\<close> are made active, or the process does not come up.\<close>

definition start_scheduler :: "sched_env \<Rightarrow> scheduler \<Rightarrow> scheduler" where
  "start_scheduler env sc =
     (let fresh = sc\<lparr>sc_ticking := False, sc_waiting := []\<rparr>
      in case update_reminders (\<lambda>x. re_status x = RFiring) (reactivated (sql_now (se_now env))) (sc_db sc) of
           Inl e \<Rightarrow> failed e (fresh\<lparr>sc_running := False\<rparr>)
         | Inr db \<Rightarrow> fresh\<lparr>sc_running := True, sc_db := db\<rparr>)"

definition answered :: "sched_env \<Rightarrow> nat \<Rightarrow> outcome \<Rightarrow> scheduler \<Rightarrow> scheduler" where
  "answered env call result sc =
     (let sc1 = sc\<lparr>sc_waiting := filter (\<lambda>e. fst e \<noteq> call) (sc_waiting sc)\<rparr>
      in case map_of (sc_waiting sc) call of
           None \<Rightarrow> sc
         | Some (AwaitAlert content rest) \<Rightarrow> alert_next env content rest sc1
         | Some (AwaitFire now r rest dueCount) \<Rightarrow> fire_answered env now r rest dueCount result sc1)"

text \<open>
  What can happen: to the process, and to the store from the hub and from the operator's page.
\<close>

datatype sched_event =
    SStart
  | SCrash
  | SConnectivity connectivity "string option"
  | SRegistered
  | SPoll bool
  | SAnswer nat outcome
  | SDecide string secs string string
  | SSchedule reminder_row
  | SCancel string string

definition stored :: "string + reminder_db \<Rightarrow> scheduler \<Rightarrow> scheduler" where
  "stored result sc = (case result of Inl e \<Rightarrow> sc | Inr db \<Rightarrow> sc\<lparr>sc_db := db\<rparr>)"

fun sched_handle :: "sched_env \<Rightarrow> sched_event \<Rightarrow> scheduler \<Rightarrow> scheduler" where
  "sched_handle env SStart sc = start_scheduler env sc"
| "sched_handle env SCrash sc = sc\<lparr>sc_running := False, sc_ticking := False, sc_waiting := []\<rparr>"
| "sched_handle env (SConnectivity state category) sc =
     (if sc_running sc then sc\<lparr>sc_db := setConnectivity env state category (sc_db sc)\<rparr> else sc)"
| "sched_handle env SRegistered sc = (if sc_running sc then onHubRegistered env sc else sc)"
| "sched_handle env (SPoll hubReady) sc = (if sc_running sc then advanceDue env hubReady sc else sc)"
| "sched_handle env (SAnswer call result) sc = (if sc_running sc then answered env call result sc else sc)"
| "sched_handle env (SDecide i t decision ref) sc =
     stored (recordOverdueDecision env i t decision ref (sc_db sc)) sc"
| "sched_handle env (SSchedule row) sc =
     (if re_status row = RActive then stored (stmtInsertReminder (sc_db sc) row) sc else sc)"
| "sched_handle env (SCancel i agent) sc =
     sc\<lparr>sc_db := snd (stmtCancelReminder (sql_now (se_now env)) (sc_db sc) i agent)\<rparr>"

definition sched_step :: "scheduler \<Rightarrow> sched_env \<times> sched_event \<Rightarrow> scheduler" where
  "sched_step sc ev = (case ev of (env, e) \<Rightarrow> sched_handle env e sc)"

definition sched_run :: "(sched_env \<times> sched_event) list \<Rightarrow> scheduler" where
  "sched_run evs = foldl sched_step scheduler_init evs"

end
