(* ===== verification/Reminder_Fires.thy ===== *)
theory Reminder_Fires
  imports Reminder_Scheduler
begin

text \<open>
  What the scheduler keeps and what a fire does: the invariant of the process and its store, the exact
  effect of a poll and of an answer on the reminders, the single alert of an outage, and the two ways in
  which reminders stop being sent.
\<close>

section \<open>What the bookkeeping leaves alone\<close>

lemma bookkeeping_rows [simp]:
  "rm_reminders (putState k v db) = rm_reminders db" "rm_reminders (deleteState k db) = rm_reminders db"
  "rm_reminders (recordEvent ty d t db) = rm_reminders db" "rm_reminders (insertAudit r s m e t db) = rm_reminders db"
  "rm_reminders (maybeRecordStall env c n t db) = rm_reminders db"
  "rm_reminders (snd (shouldHoldOverdue env r t db)) = rm_reminders db"
  "rm_reminders (setConnectivity env st cat db) = rm_reminders db"
  by (simp_all add: putState_def deleteState_def recordEvent_def insertAudit_def maybeRecordStall_def
      shouldHoldOverdue_def setConnectivity_def Let_def)

lemma bookkeeping_decisions [simp]:
  "rm_decisions (putState k v db) = rm_decisions db" "rm_decisions (deleteState k db) = rm_decisions db"
  "rm_decisions (recordEvent ty d t db) = rm_decisions db" "rm_decisions (insertAudit r s m e t db) = rm_decisions db"
  "rm_decisions (maybeRecordStall env c n t db) = rm_decisions db"
  "rm_decisions (snd (shouldHoldOverdue env r t db)) = rm_decisions db"
  by (simp_all add: putState_def deleteState_def recordEvent_def insertAudit_def maybeRecordStall_def
      shouldHoldOverdue_def Let_def)

lemma bookkeeping_pk [simp]:
  "reminder_pk (putState k v db) = reminder_pk db" "reminder_pk (deleteState k db) = reminder_pk db"
  "reminder_pk (recordEvent ty d t db) = reminder_pk db" "reminder_pk (insertAudit r s m e t db) = reminder_pk db"
  "reminder_pk (maybeRecordStall env c n t db) = reminder_pk db"
  "reminder_pk (snd (shouldHoldOverdue env r t db)) = reminder_pk db"
  "reminder_pk (setConnectivity env st cat db) = reminder_pk db"
  by (simp_all add: reminder_pk_def)

text \<open>Whether a reminder is held at a tick, which the decisions alone determine.\<close>

definition held :: "sched_env \<Rightarrow> millis \<Rightarrow> reminder_db \<Rightarrow> reminder_row \<Rightarrow> bool" where
  "held env now db r \<longleftrightarrow> overdue env r now \<and> decision_of db (re_id r) (slot r) \<noteq> Some ''replay''"

lemma fst_hold: "fst (shouldHoldOverdue env r now db) = held env now db r"
  by (simp add: shouldHoldOverdue_def held_def)

lemma held_decisions: "rm_decisions db = rm_decisions db' \<Longrightarrow> held env now db r = held env now db' r"
  by (simp add: held_def decision_of_def)

section \<open>Updates of rows\<close>

lemma update_reminders_Inr:
  assumes "update_reminders P f db = Inr db'"
  shows "db' = db\<lparr>rm_reminders := sql_update P f (rm_reminders db)\<rparr>" "active_keys_unique db'"
  using assms by (auto simp: update_reminders_def Let_def split: if_splits)

lemma update_reminders_pk:
  assumes "update_reminders P f db = Inr db'" "reminder_pk db" "\<And>x. re_id (f x) = re_id x"
  shows "reminder_pk db'"
  using assms update_reminders_Inr [OF assms(1)]
  by (simp add: reminder_pk_def active_keys_unique_def sql_unique_update)

text \<open>Another active reminder of the same owner holds the key.\<close>

definition key_taken :: "reminder_db \<Rightarrow> reminder_row \<Rightarrow> bool" where
  "key_taken db r \<longleftrightarrow> re_idempotency_key r \<noteq> None \<and>
     sql_exists (\<lambda>y. keyed_active y \<and> re_id y \<noteq> re_id r \<and> re_agent_id y = re_agent_id r \<and>
       re_idempotency_key y = re_idempotency_key r) (rm_reminders db)"

lemma not_image_iff: "a \<notin> f ` {y \<in> A. P y} \<longleftrightarrow> \<not> (\<exists>y\<in>A. P y \<and> f y = a)"
  by blast

lemma reactivation_conflicts:
  assumes "reminder_pk db" "x \<in> set (rm_reminders db)" "\<And>x. re_id (f x) = re_id x"
    "re_status (f x) = RActive" "re_agent_id (f x) = re_agent_id x" "re_idempotency_key (f x) = re_idempotency_key x"
  shows "(\<exists>db'. update_reminders (\<lambda>y. re_id y = re_id x) f db = Inr db') \<longleftrightarrow> \<not> key_taken db x"
proof -
  let ?k = "\<lambda>r. (re_agent_id r, re_idempotency_key r)"
  have ids: "sql_unique re_id (rm_reminders db)" and uniq: "sql_unique_where keyed_active ?k (rm_reminders db)"
    using assms(1) by (simp_all add: reminder_pk_def)
  obtain as bs where t: "rm_reminders db = as @ x # bs" using split_list [OF assms(2)] by blast
  have other: "re_id y \<noteq> re_id x" if "y \<in> set as \<union> set bs" for y
  proof -
    have "re_id x \<notin> re_id ` (set as \<union> set bs)" using ids by (simp add: t sql_unique_def image_Un)
    with imageI [OF that, of re_id] show ?thesis by metis
  qed
  then have same: "map (\<lambda>y. if re_id y = re_id x then f y else y) zs = zs" if "set zs \<subseteq> set as \<union> set bs" for zs
    using that by (intro map_idI) (simp add: subset_iff)
  have u: "sql_update (\<lambda>y. re_id y = re_id x) f (rm_reminders db) = as @ f x # bs"
    by (simp add: t sql_update_def same)
  have d: "distinct (map ?k (filter keyed_active (as @ bs)))"
    using uniq by (auto simp: t sql_unique_where_def split: if_splits)
  have "sql_unique_where keyed_active ?k (as @ f x # bs) \<longleftrightarrow>
      (keyed_active (f x) \<longrightarrow> ?k x \<notin> ?k ` {y \<in> set as \<union> set bs. keyed_active y})"
    using d assms(5,6) by (auto simp: sql_unique_where_def image_Un)
  also have "?k x \<notin> ?k ` {y \<in> set as \<union> set bs. keyed_active y} \<longleftrightarrow>
      \<not> (\<exists>y\<in>set as \<union> set bs. keyed_active y \<and> ?k y = ?k x)"
    by (rule not_image_iff)
  also have "(\<exists>y\<in>set as \<union> set bs. keyed_active y \<and> ?k y = ?k x) \<longleftrightarrow>
      (\<exists>y\<in>set (rm_reminders db). keyed_active y \<and> re_id y \<noteq> re_id x \<and> ?k y = ?k x)"
    using other by (auto simp: t)
  also have "(keyed_active (f x) \<longrightarrow> \<not> (\<exists>y\<in>set (rm_reminders db). keyed_active y \<and> re_id y \<noteq> re_id x \<and> ?k y = ?k x)) \<longleftrightarrow>
      \<not> key_taken db x"
    using assms(4,6) by (cases "re_idempotency_key x") (simp_all add: key_taken_def sql_exists_iff keyed_active_def)
  finally have "sql_unique_where keyed_active ?k (sql_update (\<lambda>y. re_id y = re_id x) f (rm_reminders db)) \<longleftrightarrow>
      \<not> key_taken db x" by (simp only: u)
  then show ?thesis by (simp add: update_reminders_def active_keys_unique_def Let_def)
qed

section \<open>Claiming\<close>

definition active_id :: "reminder_db \<Rightarrow> string \<Rightarrow> bool" where
  "active_id db i \<longleftrightarrow> sql_exists (\<lambda>x. re_id x = i \<and> re_status x = RActive) (rm_reminders db)"

definition firing :: "secs \<Rightarrow> reminder_row \<Rightarrow> reminder_row" where
  "firing t x = x\<lparr>re_status := RFiring, re_updated_at := t\<rparr>"

lemma claim_changes:
  assumes "reminder_pk db"
  shows "fst (claim_reminder now i db) = (if active_id db i then 1 else 0)"
proof -
  let ?P = "\<lambda>x. re_id x = i \<and> re_status x = RActive"
  have "sql_unique re_id (rm_reminders db)" using assms by (simp add: reminder_pk_def)
  then have d: "distinct (map re_id (filter ?P (rm_reminders db)))" by (simp add: sql_unique_def distinct_map_filter)
  have "set (map re_id (filter ?P (rm_reminders db))) \<subseteq> {i}" by auto
  then have "card (set (map re_id (filter ?P (rm_reminders db)))) \<le> card {i}" by (intro card_mono) simp_all
  then have "length (filter ?P (rm_reminders db)) \<le> 1" unfolding distinct_card [OF d] by simp
  then show ?thesis
    by (auto simp: claim_reminder_def sql_changes_def active_id_def sql_exists_iff le_Suc_eq filter_empty_conv)
qed

lemma claim_rows:
  "snd (claim_reminder now i db) =
     db\<lparr>rm_reminders := sql_update (\<lambda>x. re_id x = i \<and> re_status x = RActive) (firing (sql_now now)) (rm_reminders db)\<rparr>"
  by (simp add: claim_reminder_def firing_def [abs_def])

lemma claim_nothing: "\<not> active_id db i \<Longrightarrow> snd (claim_reminder now i db) = db"
  by (simp add: claim_rows active_id_def sql_exists_iff sql_update_none)

lemma claim_pk: "reminder_pk db \<Longrightarrow> reminder_pk (snd (claim_reminder now i db))"
  by (auto simp: reminder_pk_def claim_rows sql_unique_update firing_def keyed_active_def
      intro!: sql_unique_where_update)

text \<open>The loop stops at the first reminder that is active and not held, or runs to its end.\<close>

definition passed_over :: "sched_env \<Rightarrow> millis \<Rightarrow> reminder_db \<Rightarrow> reminder_row \<Rightarrow> bool" where
  "passed_over env now db r \<longleftrightarrow> held env now db r \<or> \<not> active_id db (re_id r)"

lemma passed_over_cong:
  "rm_reminders db = rm_reminders db' \<Longrightarrow> rm_decisions db = rm_decisions db' \<Longrightarrow>
     passed_over env now db r = passed_over env now db' r"
  using held_decisions [of db db' env now r] by (simp add: passed_over_def active_id_def)

lemma fire_next_cases:
  assumes "reminder_pk (sc_db sc)"
  obtains (finished) db where "list_all (passed_over env now (sc_db sc)) rs"
      "fire_next env now n rs sc = sc\<lparr>sc_db := db, sc_ticking := False\<rparr>"
      "rm_reminders db = rm_reminders (sc_db sc)" "rm_decisions db = rm_decisions (sc_db sc)"
  | (asked) skipped r rest db where "rs = skipped @ r # rest"
      "list_all (passed_over env now (sc_db sc)) skipped" "\<not> passed_over env now (sc_db sc) r"
      "fire_next env now n rs sc = ask (AwaitFire now r rest n) (fire_params env now r) (sc\<lparr>sc_db := db\<rparr>)"
      "rm_reminders db = rm_reminders (snd (claim_reminder now (re_id r) (sc_db sc)))"
      "rm_decisions db = rm_decisions (sc_db sc)"
  using assms
proof (induction rs arbitrary: sc thesis)
  case Nil
  then show ?case by (intro Nil(1) [of "maybeRecordStall env ''no_successful_fire'' n now (sc_db sc)"]) simp_all
next
  case (Cons r rs)
  define db where "db = snd (shouldHoldOverdue env r now (sc_db sc))"
  have h: "shouldHoldOverdue env r now (sc_db sc) = (held env now (sc_db sc) r, db)"
    by (simp add: db_def fst_hold [symmetric])
  have rows: "rm_reminders db = rm_reminders (sc_db sc)" "rm_decisions db = rm_decisions (sc_db sc)"
    by (simp_all add: db_def)
  then have a: "active_id db i = active_id (sc_db sc) i" for i by (simp add: active_id_def)
  have pk: "reminder_pk db" using Cons.prems(3) by (simp add: db_def)
  show ?case
  proof (cases "passed_over env now (sc_db sc) r")
    case True
    have step: "fire_next env now n (r # rs) sc = fire_next env now n rs (sc\<lparr>sc_db := db\<rparr>)"
      using True claim_changes [OF pk, of now "re_id r"] claim_nothing [of db "re_id r" now]
      by (cases "claim_reminder now (re_id r) db") (auto simp: h passed_over_def a)
    have p: "passed_over env now db = passed_over env now (sc_db sc)" using rows by (intro ext passed_over_cong)
    show ?thesis
    proof (rule Cons.IH [of "sc\<lparr>sc_db := db\<rparr>"])
      show "reminder_pk (sc_db (sc\<lparr>sc_db := db\<rparr>))" using pk by simp
    next
      fix db'
      assume "list_all (passed_over env now (sc_db (sc\<lparr>sc_db := db\<rparr>))) rs"
        "fire_next env now n rs (sc\<lparr>sc_db := db\<rparr>) = sc\<lparr>sc_db := db\<rparr>\<lparr>sc_db := db', sc_ticking := False\<rparr>"
        "rm_reminders db' = rm_reminders (sc_db (sc\<lparr>sc_db := db\<rparr>))" "rm_decisions db' = rm_decisions (sc_db (sc\<lparr>sc_db := db\<rparr>))"
      with True rows step p show ?thesis by (intro Cons.prems(1) [of db']) simp_all
    next
      fix skipped r' rest db'
      assume "rs = skipped @ r' # rest" "list_all (passed_over env now (sc_db (sc\<lparr>sc_db := db\<rparr>))) skipped"
        "\<not> passed_over env now (sc_db (sc\<lparr>sc_db := db\<rparr>)) r'"
        "fire_next env now n rs (sc\<lparr>sc_db := db\<rparr>) =
           ask (AwaitFire now r' rest n) (fire_params env now r') (sc\<lparr>sc_db := db\<rparr>\<lparr>sc_db := db'\<rparr>)"
        "rm_reminders db' = rm_reminders (snd (claim_reminder now (re_id r') (sc_db (sc\<lparr>sc_db := db\<rparr>))))"
        "rm_decisions db' = rm_decisions (sc_db (sc\<lparr>sc_db := db\<rparr>))"
      with True rows step p show ?thesis
        by (intro Cons.prems(2) [of "r # skipped" r' rest db']) (simp_all add: claim_rows)
    qed
  next
    case False
    then have c: "fst (claim_reminder now (re_id r) db) = 1" "\<not> held env now (sc_db sc) r"
      using claim_changes [OF pk, of now "re_id r"] by (simp_all add: a passed_over_def)
    with False rows show ?thesis
      by (intro Cons.prems(2) [of "[]" r rs "insertAudit r ''firing'' None None now (snd (claim_reminder now (re_id r) db))"])
        (simp_all add: h claim_rows case_prod_beta)
  qed
qed

section \<open>The invariant\<close>

text \<open>
  The reminder whose send is awaited is \<open>firing\<close> in the store and as the scan found it otherwise; one that
  comes later in the batch is as it was, or has been cancelled.
\<close>

definition in_flight :: "reminder_db \<Rightarrow> reminder_row \<Rightarrow> bool" where
  "in_flight db r \<longleftrightarrow> re_status r = RActive \<and> re_next_fire_at r \<noteq> None \<and> (\<exists>t. firing t r \<in> set (rm_reminders db))"

definition in_batch :: "reminder_db \<Rightarrow> reminder_row \<Rightarrow> bool" where
  "in_batch db r \<longleftrightarrow> re_status r = RActive \<and> re_next_fire_at r \<noteq> None \<and>
     (\<exists>x\<in>set (rm_reminders db). re_id x = re_id r \<and> (x = r \<or> re_status x = RCancelled))"

fun is_fire :: "continuation \<Rightarrow> bool" where
  "is_fire (AwaitFire now r rest n) = True"
| "is_fire (AwaitAlert content rest) = False"

fun continuation_ok :: "reminder_db \<Rightarrow> continuation \<Rightarrow> bool" where
  "continuation_ok db (AwaitFire now r rest n) \<longleftrightarrow>
     in_flight db r \<and> list_all (in_batch db) rest \<and> distinct (map re_id (r # rest))"
| "continuation_ok db (AwaitAlert content rest) \<longleftrightarrow> True"

definition sched_ok :: "scheduler \<Rightarrow> bool" where
  "sched_ok sc \<longleftrightarrow> reminder_pk (sc_db sc) \<and> distinct (map fst (sc_waiting sc)) \<and>
     (\<forall>(c, k) \<in> set (sc_waiting sc). c < sc_nextCall sc \<and> continuation_ok (sc_db sc) k) \<and>
     length (filter (is_fire \<circ> snd) (sc_waiting sc)) = (if sc_ticking sc then 1 else 0) \<and>
     (\<not> sc_running sc \<longrightarrow> sc_waiting sc = [])"

lemma in_flight_mono: "in_flight db r \<Longrightarrow> set (rm_reminders db) \<subseteq> set (rm_reminders db') \<Longrightarrow> in_flight db' r"
  unfolding in_flight_def by blast

lemma in_batch_mono: "in_batch db r \<Longrightarrow> set (rm_reminders db) \<subseteq> set (rm_reminders db') \<Longrightarrow> in_batch db' r"
  unfolding in_batch_def by blast

lemma continuation_ok_mono:
  assumes "continuation_ok db k" "set (rm_reminders db) \<subseteq> set (rm_reminders db')"
  shows "continuation_ok db' k"
proof (cases k)
  case (AwaitFire now r rest n)
  with assms in_flight_mono [OF _ assms(2)] in_batch_mono [OF _ assms(2)] show ?thesis
    by (simp add: list_all_iff)
qed simp

lemma continuation_ok_cancel:
  assumes "continuation_ok db k"
  shows "continuation_ok (snd (stmtCancelReminder t db i agent)) k"
proof -
  have rows: "rm_reminders (snd (stmtCancelReminder t db i agent)) =
      sql_update (cancellable i agent) (\<lambda>r. r\<lparr>re_status := RCancelled, re_updated_at := t\<rparr>) (rm_reminders db)"
    by (simp add: stmtCancelReminder_def)
  show ?thesis
  proof (cases k)
    case (AwaitFire now r rest n)
    have "\<not> cancellable i agent (firing u r)" for u by (simp add: cancellable_def firing_def)
    moreover have "in_batch (snd (stmtCancelReminder t db i agent)) x" if "in_batch db x" for x
      using that unfolding in_batch_def rows bex_sql_update by auto
    ultimately show ?thesis
      using assms AwaitFire by (fastforce simp: in_flight_def rows in_sql_update list_all_iff)
  qed simp
qed

lemma in_batch_update:
  assumes "in_batch db r" "re_id r \<noteq> i" "rm_reminders db' = sql_update (\<lambda>x. re_id x = i \<and> Q x) f (rm_reminders db)"
  shows "in_batch db' r"
proof -
  from assms(1) obtain x where x: "x \<in> set (rm_reminders db)" "re_id x = re_id r" "x = r \<or> re_status x = RCancelled"
    by (auto simp: in_batch_def)
  then have "x \<in> set (rm_reminders db')" using assms(2,3) by (auto simp: in_sql_update intro!: bexI [of _ x])
  with x assms(1) show ?thesis by (auto simp: in_batch_def)
qed

lemma batch_update:
  assumes "list_all (in_batch db) rs" "i \<notin> re_id ` set rs"
    and "rm_reminders db' = sql_update (\<lambda>x. re_id x = i \<and> Q x) f (rm_reminders db)"
  shows "list_all (in_batch db') rs"
  unfolding list_all_iff
proof
  fix r
  assume "r \<in> set rs"
  with assms(1) imageI [OF this, of re_id] assms(2) show "in_batch db' r"
    by (intro in_batch_update [OF _ _ assms(3)]) (auto simp: list_all_iff)
qed

lemma in_batch_cong: "rm_reminders db = rm_reminders db' \<Longrightarrow> in_batch db = in_batch db'"
  by (simp add: in_batch_def fun_eq_iff)

lemma in_batch_active:
  assumes "reminder_pk db" "in_batch db r" "active_id db (re_id r)"
  shows "r \<in> set (rm_reminders db)" "re_status r = RActive"
proof -
  from assms(2,3) obtain x y where xy: "x \<in> set (rm_reminders db)" "re_id x = re_id r" "x = r \<or> re_status x = RCancelled"
      "y \<in> set (rm_reminders db)" "re_id y = re_id r" "re_status y = RActive"
    by (auto simp: in_batch_def active_id_def sql_exists_iff)
  then have "x = y" using assms(1) sql_unique_eqD [of re_id "rm_reminders db" x y] by (simp add: reminder_pk_def)
  with xy show "r \<in> set (rm_reminders db)" by auto
  show "re_status r = RActive" using assms(2) by (simp add: in_batch_def)
qed

lemma fire_next_ok:
  assumes "reminder_pk (sc_db sc)" "list_all (in_batch (sc_db sc)) rs" "distinct (map re_id rs)"
    and "distinct (map fst (sc_waiting sc))" "\<forall>(c, k) \<in> set (sc_waiting sc). c < sc_nextCall sc \<and> \<not> is_fire k"
    and "sc_running sc" "sc_ticking sc"
  shows "sched_ok (fire_next env now n rs sc)"
proof -
  have nf: "filter (is_fire \<circ> snd) (sc_waiting sc) = []" using assms(5) by (auto simp: filter_empty_conv)
  have other: "continuation_ok db k" if "(c, k) \<in> set (sc_waiting sc)" for c k db
    using that assms(5) by (cases k) auto
  from assms(1) show ?thesis
  proof (cases rule: fire_next_cases [of sc env now rs n])
    case (finished db)
    have "reminder_pk db" using finished(3) assms(1) by (simp add: reminder_pk_def)
    with finished(2) assms(4-6) other nf show ?thesis by (auto simp: sched_ok_def comp_def)
  next
    case (asked skipped r rest db)
    have a: "active_id (sc_db sc) (re_id r)" using asked(3) by (simp add: passed_over_def)
    have r: "in_batch (sc_db sc) r" "list_all (in_batch (sc_db sc)) rest" "distinct (map re_id (r # rest))"
      using assms(2,3) asked(1) by simp_all
    note ra = in_batch_active [OF assms(1) r(1) a]
    have "firing (sql_now now) r \<in> set (rm_reminders db)"
      using ra asked(5) by (force simp: claim_rows in_sql_update)
    then have "in_flight db r" using r(1) by (auto simp: in_flight_def in_batch_def)
    moreover have "list_all (in_batch db) rest"
      using r(2,3) by (intro batch_update [OF r(2), of "re_id r" db]) (simp_all add: asked(5) claim_rows)
    moreover have "reminder_pk db"
      using claim_pk [OF assms(1), of now "re_id r"] asked(5) by (simp add: reminder_pk_def)
    ultimately show ?thesis
      using asked(4) assms(4-7) other nf r(3) by (auto simp: sched_ok_def ask_def)
  qed
qed

section \<open>An answer\<close>

text \<open>The row of a reminder after a send that the hub took.\<close>

definition repeats :: "sched_env \<Rightarrow> millis \<Rightarrow> reminder_row \<Rightarrow> bool" where
  "repeats env now r \<longleftrightarrow> re_type r \<noteq> ''once'' \<and> nextFire env r now \<noteq> None"

definition fired_row :: "sched_env \<Rightarrow> millis \<Rightarrow> reminder_row \<Rightarrow> reminder_row \<Rightarrow> reminder_row" where
  "fired_row env now r x =
     (if re_type r = ''once'' then completed (sql_now now) x
      else case nextFire env r now of
             None \<Rightarrow> x\<lparr>re_status := RDead, re_updated_at := sql_now now\<rparr>
           | Some next \<Rightarrow> advanced (sql_now now) (sql_now next) x)"

lemma fired_row_simps [simp]:
  "re_id (fired_row env now r x) = re_id x" "re_agent_id (fired_row env now r x) = re_agent_id x"
  "re_idempotency_key (fired_row env now r x) = re_idempotency_key x"
  "re_status (fired_row env now r x) = RActive \<longleftrightarrow> repeats env now r"
  by (auto simp: fired_row_def repeats_def completed_def advanced_def split: option.splits)

lemma reactivated_simps [simp]:
  "re_id (reactivated t x) = re_id x" "re_agent_id (reactivated t x) = re_agent_id x"
  "re_idempotency_key (reactivated t x) = re_idempotency_key x" "re_status (reactivated t x) = RActive"
  by (simp_all add: reactivated_def)

lemma firing_simps [simp]:
  "re_id (firing t x) = re_id x" "re_agent_id (firing t x) = re_agent_id x" "re_status (firing t x) = RFiring"
  "re_idempotency_key (firing t x) = re_idempotency_key x"
  by (simp_all add: firing_def)

lemma advanceOrComplete_eq:
  "advanceOrComplete env r now db = update_reminders (\<lambda>x. re_id x = re_id r) (fired_row env now r) db"
  by (simp add: advanceOrComplete_def fired_row_def [abs_def] split: option.splits)

text \<open>An answer that is a result with an id that can be stored.\<close>

definition accepts :: "outcome \<Rightarrow> bool" where
  "accepts result \<longleftrightarrow> (case result of
     Rejected message category \<Rightarrow> False
   | Resolved v \<Rightarrow> \<not> nullish v \<and> sql_bind (jget (the v) ''id'') \<noteq> None)"

text \<open>An update of the reminder in flight fails exactly when it makes the row active and the key is taken.\<close>

lemma key_taken_cong:
  "rm_reminders db = rm_reminders db' \<Longrightarrow> re_id r = re_id r' \<Longrightarrow> re_agent_id r = re_agent_id r' \<Longrightarrow>
     re_idempotency_key r = re_idempotency_key r' \<Longrightarrow> key_taken db r = key_taken db' r'"
  by (simp add: key_taken_def)

lemma update_in_flight:
  assumes "reminder_pk db" "in_flight db r" "\<And>x. re_id (f x) = re_id x" "\<And>x. re_agent_id (f x) = re_agent_id x"
    "\<And>x. re_idempotency_key (f x) = re_idempotency_key x" "\<And>x. re_status (f x) = RActive \<longleftrightarrow> b"
  shows "update_reminders (\<lambda>x. re_id x = re_id r) f db =
    (if b \<and> key_taken db r then Inl ''UNIQUE constraint failed: reminders.agent_id, reminders.idempotency_key''
     else Inr (db\<lparr>rm_reminders := sql_update (\<lambda>x. re_id x = re_id r) f (rm_reminders db)\<rparr>))"
proof -
  obtain t where t: "firing t r \<in> set (rm_reminders db)" using assms(2) by (auto simp: in_flight_def)
  have res: "(\<exists>db'. update_reminders (\<lambda>x. re_id x = re_id r) f db = Inr db') \<longleftrightarrow> \<not> (b \<and> key_taken db r)"
  proof (cases b)
    case True
    then show ?thesis
      using reactivation_conflicts [OF assms(1) t, of f] assms(3-6) key_taken_cong [of db db "firing t r" r] by simp
  next
    case False
    have "active_keys_unique (db\<lparr>rm_reminders := sql_update (\<lambda>x. re_id x = re_id r) f (rm_reminders db)\<rparr>)"
      using assms(1) False assms(6)
      by (auto simp: active_keys_unique_def reminder_pk_def keyed_active_def intro!: sql_unique_where_update)
    with False show ?thesis by (simp add: update_reminders_def Let_def)
  qed
  then show ?thesis by (auto simp: update_reminders_def Let_def split: if_splits)
qed

lemma fire_accepted_cases:
  assumes "reminder_pk db" "in_flight db r"
  obtains (took) db' where "accepts result" "\<not> (repeats env now r \<and> key_taken db r)"
      "fire_accepted env now r result db = (None, db')" "rm_decisions db' = rm_decisions db"
      "rm_reminders db' = sql_update (\<lambda>x. re_id x = re_id r) (fired_row env now r) (rm_reminders db)" "active_keys_unique db'"
  | (threw) c db' where "\<not> accepts result \<or> repeats env now r \<and> key_taken db r"
      "fire_accepted env now r result db = (Some c, db')" "rm_decisions db' = rm_decisions db"
      "rm_reminders db' = rm_reminders db"
proof (cases "accepts result")
  case False
  then show thesis
    by (intro threw [OF disjI1, of "hubErrorCategory result" db])
      (auto simp: accepts_def fire_accepted_def split: outcome.splits option.splits)
next
  case True
  then obtain v hubMsgId where v: "result = Resolved v" "\<not> nullish v" "sql_bind (jget (the v) ''id'') = Some hubMsgId"
    by (auto simp: accepts_def split: outcome.splits)
  define status where "status = (if jget (the v) ''status'' = Some (JStr ''pending'') then ''queued'' else ''delivered'')"
  let ?db1 = "insertAudit r status hubMsgId None now db"
  let ?up = "?db1\<lparr>rm_reminders := sql_update (\<lambda>x. re_id x = re_id r) (fired_row env now r) (rm_reminders db)\<rparr>"
  have u: "advanceOrComplete env r now ?db1 =
      (if repeats env now r \<and> key_taken db r then Inl ''UNIQUE constraint failed: reminders.agent_id, reminders.idempotency_key''
       else Inr ?up)"
    using update_in_flight [of ?db1 r "fired_row env now r" "repeats env now r"] assms key_taken_cong [of ?db1 db r r]
    by (simp add: advanceOrComplete_eq in_flight_def)
  show thesis
  proof (cases "repeats env now r \<and> key_taken db r")
    case True
    with u v show thesis
      by (intro threw [OF disjI2, of "hubErrorCategory result" ?db1]) (simp_all add: fire_accepted_def flip: status_def)
  next
    case False
    then have u': "advanceOrComplete env r now ?db1 = Inr ?up" using u by (simp only: if_False)
    then have "active_keys_unique ?up"
      using update_reminders_Inr(2) [of "\<lambda>x. re_id x = re_id r" "fired_row env now r" ?db1 ?up]
      by (auto simp: advanceOrComplete_eq)
    with False u' v True show thesis
      by (intro took [of "putState ''last_successful_reminder_fire'' (iso_text now) ?up"])
        (simp_all add: fire_accepted_def active_keys_unique_def flip: status_def)
  qed
qed

text \<open>After an answer the loop goes on, unless the row could not be made active again.\<close>

lemma fire_answered_cases:
  assumes "reminder_pk (sc_db sc)" "in_flight (sc_db sc) r"
  obtains (on) f db where "fire_answered env now r rest n result sc = fire_next env now n rest (sc\<lparr>sc_db := db\<rparr>)"
      "rm_reminders db = sql_update (\<lambda>x. re_id x = re_id r) f (rm_reminders (sc_db sc))" "reminder_pk db"
      "rm_decisions db = rm_decisions (sc_db sc)"
      "f = (if accepts result then fired_row env now r else reactivated (sql_now now))"
      "\<not> ((accepts result \<longrightarrow> repeats env now r) \<and> key_taken (sc_db sc) r)"
  | (stuck) db where
      "fire_answered env now r rest n result sc =
         failed ''UNIQUE constraint failed: reminders.agent_id, reminders.idempotency_key'' (sc\<lparr>sc_db := db, sc_ticking := False\<rparr>)"
      "rm_reminders db = rm_reminders (sc_db sc)" "rm_decisions db = rm_decisions (sc_db sc)"
      "(accepts result \<longrightarrow> repeats env now r) \<and> key_taken (sc_db sc) r"
  using assms
proof (cases rule: fire_accepted_cases [of "sc_db sc" r result env now])
  case (took db')
  have "reminder_pk db'"
    using assms(1) took(5,6) by (simp add: reminder_pk_def active_keys_unique_def sql_unique_update)
  with took show thesis by (intro on [of db' "fired_row env now r"]) (simp_all add: fire_answered_def)
next
  case (threw c db')
  let ?db1 = "insertAudit r ''failed'' None (Some c) now db'"
  let ?up = "?db1\<lparr>rm_reminders := sql_update (\<lambda>x. re_id x = re_id r) (reactivated (sql_now now)) (rm_reminders ?db1)\<rparr>"
  have k: "key_taken ?db1 r = key_taken (sc_db sc) r" by (rule key_taken_cong) (simp_all add: threw(4))
  have pk: "reminder_pk ?db1" using assms(1) threw(4) by (simp add: reminder_pk_def)
  have fl: "in_flight ?db1 r" using assms(2) threw(4) by (simp add: in_flight_def)
  have u: "update_reminders (\<lambda>x. re_id x = re_id r) (reactivated (sql_now now)) ?db1 =
      (if key_taken (sc_db sc) r then Inl ''UNIQUE constraint failed: reminders.agent_id, reminders.idempotency_key'' else Inr ?up)"
    using update_in_flight [OF pk fl, of "reactivated (sql_now now)" True] by (simp add: k)
  show thesis
  proof (cases "key_taken (sc_db sc) r")
    case True
    with u threw show thesis by (intro stuck [of ?db1]) (auto simp: fire_answered_def)
  next
    case False
    then have "reminder_pk ?up" using update_reminders_pk [of _ _ ?db1 ?up] u pk by simp
    with False u threw show thesis
      by (intro on [of "putState ''last_hub_error_category'' c ?up" "reactivated (sql_now now)"])
        (auto simp: fire_answered_def)
  qed
qed

section \<open>Every step keeps the invariant\<close>

lemma sched_ok_db:
  assumes "sched_ok sc" "set (rm_reminders (sc_db sc)) \<subseteq> set (rm_reminders db)" "reminder_pk db"
  shows "sched_ok (sc\<lparr>sc_db := db\<rparr>)"
  using assms(1,3) continuation_ok_mono [OF _ assms(2)] by (auto simp: sched_ok_def)

lemma sched_ok_rows: "sched_ok sc \<Longrightarrow> rm_reminders db = rm_reminders (sc_db sc) \<Longrightarrow> sched_ok (sc\<lparr>sc_db := db\<rparr>)"
  by (rule sched_ok_db) (simp_all add: sched_ok_def reminder_pk_def)

lemma sched_ok_fire:
  assumes "sched_ok sc" "(call, AwaitFire now r rest n) \<in> set (sc_waiting sc)"
  shows "in_flight (sc_db sc) r" "list_all (in_batch (sc_db sc)) rest" "distinct (map re_id (r # rest))" "sc_ticking sc"
    "map_of (sc_waiting sc) call = Some (AwaitFire now r rest n)"
    "(c, k) \<in> set (filter (\<lambda>e. fst e \<noteq> call) (sc_waiting sc)) \<Longrightarrow> \<not> is_fire k"
proof -
  have ok: "continuation_ok (sc_db sc) (AwaitFire now r rest n)" and d: "distinct (map fst (sc_waiting sc))"
    using assms by (auto simp: sched_ok_def)
  then show "in_flight (sc_db sc) r" "list_all (in_batch (sc_db sc)) rest" "distinct (map re_id (r # rest))" by simp_all
  show "map_of (sc_waiting sc) call = Some (AwaitFire now r rest n)" using assms(2) d by simp
  have m: "(call, AwaitFire now r rest n) \<in> set (filter (is_fire \<circ> snd) (sc_waiting sc))" using assms(2) by simp
  have l: "length (filter (is_fire \<circ> snd) (sc_waiting sc)) = (if sc_ticking sc then 1 else 0)"
    using assms(1) by (simp add: sched_ok_def)
  then show "sc_ticking sc" using m by (cases "sc_ticking sc") auto
  then obtain e where "filter (is_fire \<circ> snd) (sc_waiting sc) = [e]" using l by (auto simp: length_Suc_conv)
  with m have only: "set (filter (is_fire \<circ> snd) (sc_waiting sc)) = {(call, AwaitFire now r rest n)}" by simp
  show "\<not> is_fire k" if "(c, k) \<in> set (filter (\<lambda>e. fst e \<noteq> call) (sc_waiting sc))"
  proof
    assume "is_fire k"
    with that have "(c, k) \<in> set (filter (is_fire \<circ> snd) (sc_waiting sc))" by simp
    with only that show False by simp
  qed
qed

lemma due_rows_set: "r \<in> set (due_rows now db) \<Longrightarrow> r \<in> set (rm_reminders db) \<and> due now r"
  by (auto simp: due_rows_def sql_simps dest!: in_set_takeD)

lemma due_rows_batch:
  assumes "reminder_pk db"
  shows "list_all (in_batch db) (due_rows now db)" "distinct (map re_id (due_rows now db))"
proof -
  show "list_all (in_batch db) (due_rows now db)"
    by (auto simp: list_all_iff in_batch_def due_def split: option.splits dest!: due_rows_set)
  have "distinct (rm_reminders db)" "inj_on re_id (set (rm_reminders db))"
    using assms by (simp_all add: reminder_pk_def sql_unique_def distinct_map)
  then have "distinct (map re_id (order_asc slot (sql_where (due now) (rm_reminders db))))"
    by (auto simp: distinct_map sql_simps sql_where_def inj_on_def)
  then show "distinct (map re_id (due_rows now db))" by (simp add: due_rows_def flip: take_map)
qed

lemma ask_alert_ok:
  "sched_ok sc \<Longrightarrow> sc_running sc \<Longrightarrow> sched_ok (alert_next env content rs sc)"
  by (cases rs) (auto simp: sched_ok_def ask_def split: prod.splits)

lemma sched_ok_forget:
  assumes "sched_ok sc" "map_of (sc_waiting sc) call = Some (AwaitAlert content rest)"
  shows "sched_ok (sc\<lparr>sc_waiting := filter (\<lambda>e. fst e \<noteq> call) (sc_waiting sc)\<rparr>)"
proof -
  have d: "distinct (map fst (sc_waiting sc))" using assms(1) by (simp add: sched_ok_def)
  have "filter (is_fire \<circ> snd) (filter (\<lambda>e. fst e \<noteq> call) (sc_waiting sc)) = filter (is_fire \<circ> snd) (sc_waiting sc)"
  proof -
    have n: "\<not> (is_fire (snd e) \<and> fst e = call)" if "e \<in> set (sc_waiting sc)" for e
      using map_of_is_SomeI [OF d, of "fst e" "snd e"] that assms(2) by (cases e) auto
    show ?thesis unfolding filter_filter using n by (intro filter_cong) auto
  qed
  moreover have "distinct (map fst (filter (\<lambda>e. fst e \<noteq> call) (sc_waiting sc)))" using d by (simp add: distinct_map_filter)
  ultimately show ?thesis using assms(1) by (auto simp: sched_ok_def)
qed

lemma answered_ok:
  assumes "sched_ok sc" "sc_running sc"
  shows "sched_ok (answered env call result sc)"
proof (cases "map_of (sc_waiting sc) call")
  case None
  with assms show ?thesis by (simp add: answered_def)
next
  case (Some k)
  let ?sc = "sc\<lparr>sc_waiting := filter (\<lambda>e. fst e \<noteq> call) (sc_waiting sc)\<rparr>"
  show ?thesis
  proof (cases k)
    case (AwaitAlert content rest)
    with Some sched_ok_forget [OF assms(1)] assms(2) show ?thesis by (simp add: answered_def ask_alert_ok)
  next
    case (AwaitFire now r rest n)
    then have m: "(call, AwaitFire now r rest n) \<in> set (sc_waiting sc)" using Some by (auto dest: map_of_SomeD)
    note fire = sched_ok_fire [OF assms(1) m]
    have pk: "reminder_pk (sc_db ?sc)" and d: "distinct (map fst (sc_waiting ?sc))"
      and c: "\<forall>(c, k) \<in> set (sc_waiting ?sc). c < sc_nextCall ?sc \<and> \<not> is_fire k"
      using assms(1) fire(6) by (auto simp: sched_ok_def distinct_map_filter)
    have fl: "in_flight (sc_db ?sc) r" using fire(1) by simp
    have a: "answered env call result sc = fire_answered env now r rest n result ?sc"
      using AwaitFire Some by (simp add: answered_def)
    from pk fl show ?thesis
    proof (cases rule: fire_answered_cases [of ?sc r env now rest n result])
      case (on f db)
      have "re_id r \<notin> re_id ` set rest" using fire(3) by simp
      then have "list_all (in_batch db) rest"
        using batch_update [OF fire(2), of "re_id r" db "\<lambda>x. True" f] on(2) by simp
      then show ?thesis
        unfolding a on(1) using on(3) d c fire(3,4) assms(2) by (intro fire_next_ok) auto
    next
      case (stuck db)
      have "reminder_pk db" using pk stuck(2) by (simp add: reminder_pk_def)
      moreover have "continuation_ok db k'" if "(c', k') \<in> set (sc_waiting ?sc)" for c' k'
        using fire(6) [of c' k'] that by (cases k') auto
      moreover have "filter (is_fire \<circ> snd) (sc_waiting ?sc) = []" using c by (auto simp: filter_empty_conv)
      ultimately show ?thesis
        unfolding a stuck(1) using d c assms(2) by (auto simp: sched_ok_def failed_def)
    qed
  qed
qed

lemma sched_step_ok: "sched_ok sc \<Longrightarrow> sched_ok (sched_step sc (env, e))"
proof (cases e)
  case SStart
  moreover assume ok: "sched_ok sc"
  moreover have "reminder_pk db"
    if "update_reminders (\<lambda>x. re_status x = RFiring) (reactivated (sql_now (se_now env))) (sc_db sc) = Inr db" for db
    using update_reminders_pk [OF that] ok by (simp add: sched_ok_def)
  ultimately show ?thesis
    by (auto simp: sched_step_def start_scheduler_def sched_ok_def failed_def Let_def split: sum.splits)
next
  case SCrash
  moreover assume "sched_ok sc"
  ultimately show ?thesis by (simp add: sched_step_def sched_ok_def)
next
  case (SConnectivity st c)
  moreover assume "sched_ok sc"
  ultimately show ?thesis using sched_ok_db [of sc] by (auto simp: sched_step_def sched_ok_def)
next
  case SRegistered
  moreover assume "sched_ok sc"
  moreover have "sched_ok (onHubRegistered env sc)" if "sched_ok sc" "sc_running sc"
    using that unfolding onHubRegistered_def Let_def by (auto intro!: ask_alert_ok sched_ok_rows)
  ultimately show ?thesis by (simp add: sched_step_def)
next
  case (SPoll ready)
  assume ok: "sched_ok sc"
  have "sched_ok (advanceDue env ready sc)" if run: "sc_running sc"
  proof (cases "sc_ticking sc")
    case True
    with ok show ?thesis by (simp add: advanceDue_def)
  next
    case False
    let ?db = "putState ''last_due_scan'' (iso_text (se_now env)) (sc_db sc)"
    have "reminder_pk ?db" using ok by (simp add: sched_ok_def)
    note due = due_rows_batch [OF this, of "se_now env"]
    have nf: "\<not> is_fire k" if "(c, k) \<in> set (sc_waiting sc)" for c k
      using ok False that by (auto simp: sched_ok_def filter_empty_conv)
    have db: "sched_ok (sc\<lparr>sc_db := ?db\<rparr>)"
      "sched_ok (sc\<lparr>sc_db := maybeRecordStall env ''hub_unavailable'' (length (due_rows (se_now env) ?db)) (se_now env) ?db\<rparr>)"
      using ok by (auto intro!: sched_ok_rows)
    have go: "sched_ok (fire_next env (se_now env) n (due_rows (se_now env) ?db) (sc\<lparr>sc_db := ?db, sc_ticking := True\<rparr>))" for n
      using ok due run nf by (intro fire_next_ok) (auto simp: sched_ok_def)
    from False db go show ?thesis by (simp add: advanceDue_def Let_def)
  qed
  with SPoll ok show ?thesis by (simp add: sched_step_def)
next
  case (SAnswer call result)
  moreover assume "sched_ok sc"
  ultimately show ?thesis by (simp add: sched_step_def answered_ok)
next
  case (SDecide i t d ref)
  moreover assume ok: "sched_ok sc"
  moreover have "rm_reminders db = rm_reminders (sc_db sc)"
    if "recordOverdueDecision env i t d ref (sc_db sc) = Inr db" for db
    using that by (auto simp: recordOverdueDecision_def split: if_splits)
  ultimately show ?thesis by (auto simp: sched_step_def stored_def intro: sched_ok_rows split: sum.splits)
next
  case (SSchedule row)
  moreover assume ok: "sched_ok sc"
  moreover have "sched_ok (sc\<lparr>sc_db := db\<rparr>)" if "stmtInsertReminder (sc_db sc) row = Inr db" for db
    using ok stmtInsertReminder_pk [OF _ that] stmtInsertReminder_Inr [OF that]
    by (intro sched_ok_db) (auto simp: sched_ok_def)
  ultimately show ?thesis by (auto simp: sched_step_def stored_def split: sum.splits)
next
  case (SCancel i agent)
  moreover assume "sched_ok sc"
  ultimately show ?thesis
    using continuation_ok_cancel cancel_pk [of "sc_db sc"] by (auto simp: sched_step_def sched_ok_def)
qed

interpretation scheduler: machine sched_step sched_ok
  by unfold_locales (metis sched_step_ok prod.collapse)

lemma sched_run_ok: "sched_ok (sched_run evs)"
  unfolding sched_run_def
  by (rule scheduler.run_invar) (simp add: sched_ok_def scheduler_init_def reminder_db_init_def reminder_pk_def sql_unique_where_def)

section \<open>What a step does to the reminders\<close>

definition reminder :: "scheduler \<Rightarrow> string \<Rightarrow> reminder_row option" where
  "reminder sc i = sql_get (\<lambda>x. re_id x = i) (rm_reminders (sc_db sc))"

lemma reminder_after_fire_next:
  assumes "reminder_pk (sc_db sc)" "i \<notin> re_id ` set rs"
  shows "reminder (fire_next env now n rs sc) i = reminder sc i"
  using assms(1)
proof (cases rule: fire_next_cases [of sc env now rs n])
  case (finished db)
  then show ?thesis by (simp add: reminder_def)
next
  case (asked skipped r rest db)
  then have "re_id r \<noteq> i" using assms(2) by auto
  then show ?thesis
    unfolding reminder_def asked(4)
    by (cases "sql_get (\<lambda>x. re_id x = i) (rm_reminders (sc_db sc))")
      (auto simp: ask_def asked(5) claim_rows sql_get_update_key dest!: sql_get_SomeD)
qed

text \<open>The row of a reminder whose send is answered.\<close>

definition answered_row :: "sched_env \<Rightarrow> millis \<Rightarrow> reminder_db \<Rightarrow> reminder_row \<Rightarrow> outcome \<Rightarrow> reminder_row \<Rightarrow> reminder_row" where
  "answered_row env now db r result x =
     (if accepts result \<and> \<not> repeats env now r then fired_row env now r x
      else if key_taken db r then x
      else if accepts result then fired_row env now r x
      else reactivated (sql_now now) x)"

lemma answer_core:
  assumes "sched_ok sc" "map_of (sc_waiting sc) call = Some (AwaitFire now r rest n)"
  shows "\<exists>x. reminder sc (re_id r) = Some x \<and> re_status x = RFiring \<and>
    reminder (sched_step sc (env, SAnswer call result)) (re_id r) = Some (answered_row env now (sc_db sc) r result x)"
    "sc_running sc"
    "(accepts result \<longrightarrow> repeats env now r) \<Longrightarrow> key_taken (sc_db sc) r \<Longrightarrow>
       rm_reminders (sc_db (sched_step sc (env, SAnswer call result))) = rm_reminders (sc_db sc) \<and>
       last (sc_effects (sched_step sc (env, SAnswer call result))) =
         Failed ''UNIQUE constraint failed: reminders.agent_id, reminders.idempotency_key''"
proof -
  have m: "(call, AwaitFire now r rest n) \<in> set (sc_waiting sc)" using assms(2) by (rule map_of_SomeD)
  then show run: "sc_running sc" using assms(1) by (auto simp: sched_ok_def)
  let ?sc = "sc\<lparr>sc_waiting := filter (\<lambda>e. fst e \<noteq> call) (sc_waiting sc)\<rparr>"
  let ?sc' = "sched_step sc (env, SAnswer call result)"
  note fire = sched_ok_fire [OF assms(1) m]
  have pk: "reminder_pk (sc_db ?sc)" using assms(1) by (simp add: sched_ok_def)
  have fl: "in_flight (sc_db ?sc) r" using fire(1) by simp
  have a: "?sc' = fire_answered env now r rest n result ?sc"
    using assms(2) run by (simp add: sched_step_def answered_def)
  obtain t where t: "firing t r \<in> set (rm_reminders (sc_db sc))" using fire(1) by (auto simp: in_flight_def)
  have x: "reminder sc (re_id r) = Some (firing t r)"
    unfolding reminder_def using pk t sql_get_key_iff [of re_id "rm_reminders (sc_db sc)" "re_id r" "firing t r"]
    by (simp add: reminder_pk_def)
  from pk fl have "reminder ?sc' (re_id r) = Some (answered_row env now (sc_db sc) r result (firing t r)) \<and>
      ((accepts result \<longrightarrow> repeats env now r) \<longrightarrow> key_taken (sc_db sc) r \<longrightarrow> rm_reminders (sc_db ?sc') = rm_reminders (sc_db sc) \<and>
         last (sc_effects ?sc') = Failed ''UNIQUE constraint failed: reminders.agent_id, reminders.idempotency_key'')"
  proof (cases rule: fire_answered_cases [of ?sc r env now rest n result])
    case (on f db)
    have "re_id r \<notin> re_id ` set rest" using fire(3) by simp
    then have "reminder ?sc' (re_id r) = map_option f (reminder sc (re_id r))"
      unfolding a on(1) using on(2,3,5) x reminder_after_fire_next [of "?sc\<lparr>sc_db := db\<rparr>" "re_id r" rest env now n]
      by (simp add: reminder_def sql_get_update_key)
    with x on(5,6) show ?thesis by (auto simp: answered_row_def)
  next
    case (stuck db)
    with x show ?thesis by (auto simp: a failed_def reminder_def answered_row_def)
  qed
  with x show "\<exists>x. reminder sc (re_id r) = Some x \<and> re_status x = RFiring \<and>
      reminder ?sc' (re_id r) = Some (answered_row env now (sc_db sc) r result x)"
    "(accepts result \<longrightarrow> repeats env now r) \<Longrightarrow> key_taken (sc_db sc) r \<Longrightarrow> rm_reminders (sc_db ?sc') = rm_reminders (sc_db sc) \<and>
       last (sc_effects ?sc') = Failed ''UNIQUE constraint failed: reminders.agent_id, reminders.idempotency_key''"
    by auto
qed

text \<open>A poll sends the first reminder of the scan that is not held, and no other.\<close>

lemma find_skip: "\<forall>x\<in>set xs. \<not> P x \<Longrightarrow> P y \<Longrightarrow> find P (xs @ y # ys) = Some y"
  by (induction xs) auto

lemma poll_core:
  fixes env :: sched_env
  assumes "sched_ok sc" "sc_running sc" "\<not> sc_ticking sc"
  defines "now \<equiv> se_now env"
  defines "sc' \<equiv> sched_step sc (env, SPoll True)"
  shows "case find (\<lambda>r. \<not> held env now (sc_db sc) r) (due_rows now (sc_db sc)) of
      None \<Rightarrow> sc_effects sc' = sc_effects sc \<and> rm_reminders (sc_db sc') = rm_reminders (sc_db sc) \<and> \<not> sc_ticking sc'
    | Some r \<Rightarrow> sc_effects sc' = sc_effects sc @ [Asked (sc_nextCall sc) ''mesh.send'' (fire_params env now r)] \<and>
        reminder sc' (re_id r) = Some (firing (sql_now now) r)"
    "rm_decisions (sc_db sc') = rm_decisions (sc_db sc)"
proof -
  let ?db = "putState ''last_due_scan'' (iso_text now) (sc_db sc)"
  let ?rows = "due_rows now (sc_db sc)"
  let ?sc = "sc\<lparr>sc_db := ?db, sc_ticking := True\<rparr>"
  have d: "due_rows now ?db = ?rows" by (simp add: due_rows_def)
  have h: "held env now ?db r = held env now (sc_db sc) r" for r by (rule held_decisions) simp
  have pk: "reminder_pk (sc_db ?sc)" and pk': "reminder_pk (sc_db sc)" using assms(1) by (simp_all add: sched_ok_def)
  have p: "passed_over env now (sc_db ?sc) r = held env now (sc_db sc) r" if "r \<in> set ?rows" for r
    using due_rows_set [OF that] by (auto simp: passed_over_def h active_id_def sql_exists_iff due_def)
  have s: "sc' = (if ?rows = [] then sc\<lparr>sc_db := ?db\<rparr> else fire_next env now (length ?rows) ?rows ?sc)"
    using assms(2,3) by (simp add: sc'_def sched_step_def advanceDue_def Let_def d flip: now_def)
  have "(case find (\<lambda>r. \<not> held env now (sc_db sc) r) ?rows of
      None \<Rightarrow> sc_effects sc' = sc_effects sc \<and> rm_reminders (sc_db sc') = rm_reminders (sc_db sc) \<and> \<not> sc_ticking sc'
    | Some r \<Rightarrow> sc_effects sc' = sc_effects sc @ [Asked (sc_nextCall sc) ''mesh.send'' (fire_params env now r)] \<and>
        reminder sc' (re_id r) = Some (firing (sql_now now) r)) \<and> rm_decisions (sc_db sc') = rm_decisions (sc_db sc)"
  proof (cases "?rows = []")
    case True
    with s assms(3) show ?thesis by simp
  next
    case False
    from pk show ?thesis
    proof (cases rule: fire_next_cases [of ?sc env now ?rows "length ?rows"])
      case (finished db)
      then have "find (\<lambda>r. \<not> held env now (sc_db sc) r) ?rows = None"
        using p by (auto simp: find_None_iff list_all_iff)
      with finished False s show ?thesis by simp
    next
      case (asked skipped r rest db)
      have r: "r \<in> set ?rows" using asked(1) by simp
      have f: "find (\<lambda>r. \<not> held env now (sc_db sc) r) ?rows = Some r"
        unfolding asked(1) by (rule find_skip) (use asked p in \<open>auto simp: list_all_iff\<close>)
      have "r \<in> set (rm_reminders (sc_db sc))" "re_status r = RActive" using due_rows_set [OF r] by (auto simp: due_def)
      then have "sql_get (\<lambda>x. re_id x = re_id r) (rm_reminders (sc_db sc)) = Some r"
        using pk' sql_get_key_iff [of re_id "rm_reminders (sc_db sc)" "re_id r" r] by (simp add: reminder_pk_def)
      then have "sql_get (\<lambda>x. re_id x = re_id r) (rm_reminders db) = Some (firing (sql_now now) r)"
        using \<open>re_status r = RActive\<close> asked(5) by (simp add: claim_rows sql_get_update_key)
      with f asked False s show ?thesis by (simp add: ask_def reminder_def)
    qed
  qed
  then show "case find (\<lambda>r. \<not> held env now (sc_db sc) r) ?rows of
      None \<Rightarrow> sc_effects sc' = sc_effects sc \<and> rm_reminders (sc_db sc') = rm_reminders (sc_db sc) \<and> \<not> sc_ticking sc'
    | Some r \<Rightarrow> sc_effects sc' = sc_effects sc @ [Asked (sc_nextCall sc) ''mesh.send'' (fire_params env now r)] \<and>
        reminder sc' (re_id r) = Some (firing (sql_now now) r)"
    "rm_decisions (sc_db sc') = rm_decisions (sc_db sc)" by simp_all
qed

section \<open>The properties\<close>

lemma sched_run_snoc:
  "sched_run (evs @ [e]) = sched_step (sched_run evs) e"
  "sched_run (evs @ [e, e']) = sched_step (sched_step (sched_run evs) e) e'"
  by (simp_all add: sched_run_def)

text \<open>The start fails while a row is \<open>firing\<close> whose key an active row holds.\<close>

lemma start_blocked:
  fixes env :: sched_env
  assumes "x \<in> set (rm_reminders (sc_db sc))" "re_status x = RFiring" "re_idempotency_key x \<noteq> None"
    and "y \<in> set (rm_reminders (sc_db sc))" "keyed_active y" "re_agent_id y = re_agent_id x"
    "re_idempotency_key y = re_idempotency_key x"
  shows "sched_step sc (env, SStart) =
    failed ''UNIQUE constraint failed: reminders.agent_id, reminders.idempotency_key''
      (sc\<lparr>sc_ticking := False, sc_waiting := [], sc_running := False\<rparr>)"
proof -
  let ?k = "\<lambda>x. (re_agent_id x, re_idempotency_key x)"
  let ?f = "reactivated (sql_now (se_now env))"
  let ?g = "\<lambda>x. if re_status x = RFiring then ?f x else x"
  obtain as bs where split: "rm_reminders (sc_db sc) = as @ x # bs" using split_list [OF assms(1)] by blast
  have "y \<in> set as \<union> set bs" using assms(2,4,5) split by (auto simp: keyed_active_def)
  then have "?g y \<in> {z \<in> set (map ?g as) \<union> set (map ?g bs). keyed_active z}"
    using assms(5) by (auto simp: keyed_active_def)
  from imageI [OF this, of ?k] have "?k (?f x) \<in> ?k ` {z \<in> set (map ?g as) \<union> set (map ?g bs). keyed_active z}"
    using assms(5-7) by (simp add: keyed_active_def)
  moreover have "keyed_active (?f x)" using assms(3) by (simp add: keyed_active_def)
  ultimately have "\<not> sql_unique_where keyed_active ?k (map ?g (rm_reminders (sc_db sc)))"
    using assms(2) split by (auto simp: sql_unique_where_def)
  then show ?thesis
    by (simp add: sched_step_def start_scheduler_def update_reminders_def active_keys_unique_def sql_update_def Let_def)
qed

text \<open>
  C32: The scheduler's invariant, after any sequence of events: the primary key and the partial unique
  index of the reminders hold, a send is awaited exactly while a tick is under way and then only one, and
  the reminder of that send is \<open>firing\<close> in the store and as the scan found it otherwise.
\<close>
theorem one_fire_at_a_time:
  "let sc = sched_run evs
   in reminder_pk (sc_db sc) \<and>
      length (filter (is_fire \<circ> snd) (sc_waiting sc)) = (if sc_ticking sc then 1 else 0) \<and>
      list_all (\<lambda>(call, k). case k of AwaitFire now r rest n \<Rightarrow> in_flight (sc_db sc) r | AwaitAlert c rs \<Rightarrow> True)
        (sc_waiting sc)"
proof -
  have "sched_ok (sched_run evs)" by (rule sched_run_ok)
  then show ?thesis by (auto simp: sched_ok_def list_all_iff Let_def split: continuation.splits)
qed

text \<open>
  A poll of an idle scheduler with the hub ready makes one request or none: it sends the oldest
  reminder of the scan that is not held, under the key of its slot, and claims that row; when all are
  held it sends nothing and leaves every row alone.
\<close>
theorem poll_sends_the_oldest_reminder_not_held:
  fixes env :: sched_env and evs :: "(sched_env \<times> sched_event) list"
  assumes "sc_running (sched_run evs)" "\<not> sc_ticking (sched_run evs)"
  shows "let sc = sched_run evs; now = se_now env; sc' = sched_run (evs @ [(env, SPoll True)])
    in case find (\<lambda>r. \<not> held env now (sc_db sc) r) (due_rows now (sc_db sc)) of
         None \<Rightarrow> sc_effects sc' = sc_effects sc \<and> rm_reminders (sc_db sc') = rm_reminders (sc_db sc) \<and> \<not> sc_ticking sc'
       | Some r \<Rightarrow>
           sc_effects sc' = sc_effects sc @ [Asked (sc_nextCall sc) ''mesh.send''
             (send_params (re_agent_id r) (formatPayload r now) (fireKey env (re_id r) (slot r)))] \<and>
           reminder sc' (re_id r) = Some (firing (sql_now now) r)"
  using poll_core(1) [OF sched_run_ok assms, of env]
  unfolding Let_def sched_run_snoc fire_params_def .

text \<open>
  What an answer to a send does to its reminder, exactly. Taken by the hub: a one-shot is done, a
  repeating one is active again at its next slot, one whose schedule cannot be read is dead. Refused, lost
  or answered with nothing usable: it is active again with its slot, so that the next send has the same
  key. Where the row would become active and its key has been taken since, nothing is changed.
\<close>
theorem answer_settles_its_reminder:
  fixes env :: sched_env and evs :: "(sched_env \<times> sched_event) list"
  assumes "map_of (sc_waiting (sched_run evs)) call = Some (AwaitFire now r rest n)"
  shows "let sc = sched_run evs; sc' = sched_run (evs @ [(env, SAnswer call result)])
    in case reminder sc (re_id r) of
         None \<Rightarrow> False
       | Some x \<Rightarrow> re_status x = RFiring \<and> re_next_fire_at x = re_next_fire_at r \<and>
           reminder sc' (re_id r) = Some (answered_row env now (sc_db sc) r result x)"
proof -
  obtain x where x: "reminder (sched_run evs) (re_id r) = Some x" "re_status x = RFiring"
    "reminder (sched_step (sched_run evs) (env, SAnswer call result)) (re_id r) =
       Some (answered_row env now (sc_db (sched_run evs)) r result x)"
    using answer_core(1) [OF sched_run_ok assms] by blast
  have ok: "sched_ok (sched_run evs)" by (rule sched_run_ok)
  then have "in_flight (sc_db (sched_run evs)) r" by (rule sched_ok_fire(1) [OF _ map_of_SomeD [OF assms]])
  then obtain t where "firing t r \<in> set (rm_reminders (sc_db (sched_run evs)))" by (auto simp: in_flight_def)
  then have "x = firing t r"
    using x(1) ok sql_get_key_iff [of re_id "rm_reminders (sc_db (sched_run evs))" "re_id r" "firing t r"]
    by (simp add: reminder_def sched_ok_def reminder_pk_def)
  with x show ?thesis by (simp add: Let_def sched_run_snoc) (simp add: firing_def)
qed

text \<open>
  C33: A key that is taken again while its reminder fires stops the scheduler. The hub may store a second
  reminder under a key whose reminder is \<open>firing\<close>, since the index covers active rows only. When the
  first send then fails, or is due to repeat, its row cannot become active: it stays \<open>firing\<close>, the
  tick is thrown out of, and the next start of the process fails on the same row.
\<close>
theorem a_key_taken_while_firing_stops_the_scheduler:
  fixes env env' :: sched_env and evs :: "(sched_env \<times> sched_event) list"
  assumes "map_of (sc_waiting (sched_run evs)) call = Some (AwaitFire now r rest n)"
    and "key_taken (sc_db (sched_run evs)) r" "accepts result \<longrightarrow> repeats env now r"
  shows "let sc = sched_run (evs @ [(env, SAnswer call result)]); sc' = sched_run (evs @ [(env, SAnswer call result), (env', SStart)])
    in map_option re_status (reminder sc (re_id r)) = Some RFiring \<and>
       last (sc_effects sc) = Failed ''UNIQUE constraint failed: reminders.agent_id, reminders.idempotency_key'' \<and>
       \<not> sc_running sc' \<and> sc_db sc' = sc_db sc"
proof -
  let ?sc = "sched_run evs" let ?sc1 = "sched_step ?sc (env, SAnswer call result)"
  note core3 = answer_core(3) [OF sched_run_ok assms(1) assms(3,2)]
  have rows: "rm_reminders (sc_db ?sc1) = rm_reminders (sc_db ?sc)" using core3 by simp
  obtain x where x: "reminder ?sc (re_id r) = Some x" "re_status x = RFiring"
    using answer_core(1) [OF sched_run_ok assms(1), of env result] by blast
  have ok: "sched_ok ?sc" by (rule sched_run_ok)
  have m: "(call, AwaitFire now r rest n) \<in> set (sc_waiting ?sc)" using assms(1) by (rule map_of_SomeD)
  obtain t where t: "firing t r \<in> set (rm_reminders (sc_db ?sc1))"
    using sched_ok_fire(1) [OF ok m] by (auto simp: in_flight_def rows)
  obtain y where y: "y \<in> set (rm_reminders (sc_db ?sc1))" "keyed_active y" "re_agent_id y = re_agent_id r"
      "re_idempotency_key y = re_idempotency_key r"
    using assms(2) by (auto simp: key_taken_def sql_exists_iff rows)
  have "re_idempotency_key r \<noteq> None" using assms(2) by (simp add: key_taken_def)
  then have s: "sched_step ?sc1 (env', SStart) =
      failed ''UNIQUE constraint failed: reminders.agent_id, reminders.idempotency_key''
        (?sc1\<lparr>sc_ticking := False, sc_waiting := [], sc_running := False\<rparr>)"
    using t y by (intro start_blocked [of "firing t r" ?sc1 y]) simp_all
  have "reminder ?sc1 (re_id r) = Some x" using x(1) by (simp add: reminder_def rows)
  with x(2) s core3 show ?thesis
    by (simp add: Let_def sched_run_snoc failed_def)
qed


section \<open>Concrete runs\<close>

definition plain_sched_env :: "millis \<Rightarrow> sched_env" where
  "plain_sched_env t =
     \<lparr>se_now = t, se_overdueHoldMs = 300000, se_stalledAfterMs = 300000, se_stallLogIntervalMs = 300000,
      se_recoveryAlertRecipients = [''ops''], se_overdueApprovalPrefix = ''APPROVED:'', se_sha256 = (\<lambda>s. s),
      se_parseScheduleSpec = (\<lambda>ty spec now. Inr (if ty = ''interval'' then SInterval 60000 else SOnce)),
      se_nextIntervalFire = (\<lambda>from every now. from + every), se_nextCronFire = (\<lambda>cron tz now. None)\<rparr>"

definition sample_reminder :: "string \<Rightarrow> string \<Rightarrow> string option \<Rightarrow> secs \<Rightarrow> reminder_row" where
  "sample_reminder i ty key t =
     \<lparr>re_id = i, re_agent_id = ''ai-a'', re_type = ty, re_schedule_spec = ''60s'', re_payload = ''look'', re_context = None,
      re_idempotency_key = key, re_status = RActive, re_next_fire_at = Some t, re_fire_count = 0, re_last_fired_at = None,
      re_created_at = 0, re_updated_at = 0, re_created_by = ''ai-a''\<rparr>"

text \<open>A reminder fires, and while its send is awaited the hub stores another under the same key.\<close>

definition first_fire :: "(sched_env \<times> sched_event) list" where
  "first_fire = [(plain_sched_env 0, SStart), (plain_sched_env 0, SSchedule (sample_reminder ''r1'' ''interval'' (Some ''k'') 60)),
     (plain_sched_env 60000, SPoll True)]"

definition key_reused :: "(sched_env \<times> sched_event) list" where
  "key_reused = first_fire @ [(plain_sched_env 60100, SSchedule (sample_reminder ''r2'' ''once'' (Some ''k'') 120))]"

lemma answer_settles_its_reminder_witness:
  "map_option re_next_fire_at (reminder (sched_run (first_fire @ [(plain_sched_env 60200, SAnswer 0 (Resolved (Some (JObj []))))])) ''r1'') =
    Some (Some 120)"
proof -
  have m: "map_of (sc_waiting (sched_run first_fire)) 0 =
      Some (AwaitFire 60000 (sample_reminder ''r1'' ''interval'' (Some ''k'') 60) [] 1)" by code_simp
  have r: "reminder (sched_run first_fire) ''r1'' = Some (firing 60 (sample_reminder ''r1'' ''interval'' (Some ''k'') 60))"
    by code_simp
  have a: "answered_row (plain_sched_env 60200) 60000 (sc_db (sched_run first_fire))
      (sample_reminder ''r1'' ''interval'' (Some ''k'') 60) (Resolved (Some (JObj [])))
      (firing 60 (sample_reminder ''r1'' ''interval'' (Some ''k'') 60)) =
      advanced 60 120 (firing 60 (sample_reminder ''r1'' ''interval'' (Some ''k'') 60))" by code_simp
  have i: "re_id (sample_reminder ''r1'' ''interval'' (Some ''k'') 60) = ''r1''" by code_simp
  from answer_settles_its_reminder [OF m, of "plain_sched_env 60200" "Resolved (Some (JObj []))"] r a i
  show ?thesis by (simp add: Let_def advanced_def)
qed

lemma poll_sends_the_oldest_reminder_not_held_witness:
  "length (sc_effects (sched_run first_fire)) = 1"
proof -
  let ?evs = "take 2 first_fire"
  have run: "sc_running (sched_run ?evs)" "\<not> sc_ticking (sched_run ?evs)" by code_simp+
  have e: "sc_effects (sched_run ?evs) = []" by code_simp
  have f: "find (\<lambda>r. \<not> held (plain_sched_env 60000) 60000 (sc_db (sched_run ?evs)) r)
      (due_rows 60000 (sc_db (sched_run ?evs))) = Some (sample_reminder ''r1'' ''interval'' (Some ''k'') 60)" by code_simp
  have n: "se_now (plain_sched_env 60000) = 60000" by (simp add: plain_sched_env_def)
  from poll_sends_the_oldest_reminder_not_held [OF run, of "plain_sched_env 60000"] e f n
  show ?thesis by (simp add: Let_def first_fire_def)
qed

lemma a_key_taken_while_firing_stops_the_scheduler_witness:
  "\<not> sc_running (sched_run (key_reused @ [(plain_sched_env 60200, SAnswer 0 (Rejected ''hub socket closed'' ''hub_closed'')),
      (plain_sched_env 70000, SStart)]))"
proof -
  have m: "map_of (sc_waiting (sched_run key_reused)) 0 =
      Some (AwaitFire 60000 (sample_reminder ''r1'' ''interval'' (Some ''k'') 60) [] 1)" by code_simp
  have t: "key_taken (sc_db (sched_run key_reused)) (sample_reminder ''r1'' ''interval'' (Some ''k'') 60)" by code_simp
  have a: "accepts (Rejected ''hub socket closed'' ''hub_closed'') \<longrightarrow>
      repeats (plain_sched_env 60200) 60000 (sample_reminder ''r1'' ''interval'' (Some ''k'') 60)"
    by (simp add: accepts_def)
  from a_key_taken_while_firing_stops_the_scheduler [OF m t a, of "plain_sched_env 70000"]
  show ?thesis by (simp add: Let_def)
qed


end
