(* ===== verification/Reminder_Outage.thy ===== *)
theory Reminder_Outage
  imports Reminder_Fires
begin

text \<open>
  The scheduler over longer runs: an outage of the hub is announced at most once, and a hundred held
  reminders keep every later one from being sent.
\<close>

section \<open>What the outage bookkeeping reads and writes\<close>

lemma getState_put [simp]: "getState (putState k v db) k' = (if k = k' then Some v else getState db k')"
  by (simp add: getState_def putState_def update_conv')

lemma map_of_filter_key: "map_of (filter (\<lambda>e. fst e \<noteq> k) xs) k' = (if k = k' then None else map_of xs k')"
  by (induction xs) auto

lemma getState_other [simp]:
  "getState (deleteState k db) k' = (if k = k' then None else getState db k')"
  "getState (recordEvent ty d t db) k' = getState db k'" "getState (insertAudit r s m e t db) k' = getState db k'"
  "getState (db\<lparr>rm_reminders := rows\<rparr>) k' = getState db k'" "getState (db\<lparr>rm_decisions := ds\<rparr>) k' = getState db k'"
  by (simp_all add: getState_def deleteState_def recordEvent_def insertAudit_def map_of_filter_key)

text \<open>The outages that have been announced.\<close>

fun announced_outage :: "string \<times> json \<times> secs \<Rightarrow> string option" where
  "announced_outage (ty, details, t) =
     (if ty = ''scheduler_recovered'' then as_string (jget details ''outage_started'') else None)"

definition announced :: "reminder_db \<Rightarrow> string list" where
  "announced db = List.map_filter announced_outage (rm_events db)"

lemma as_string_None_iff: "as_string x = None \<longleftrightarrow> (\<forall>s. x \<noteq> Some (JStr s))"
  by (cases x rule: as_string.cases) auto

lemma announced_simps [simp]:
  "announced (putState k v db) = announced db" "announced (deleteState k db) = announced db"
  "announced (insertAudit r s m e t db) = announced db" "announced (db\<lparr>rm_reminders := rows\<rparr>) = announced db"
  "announced (db\<lparr>rm_decisions := ds\<rparr>) = announced db"
  "announced (recordEvent ty d now db) =
     announced db @ (case announced_outage (ty, d, sql_now now) of None \<Rightarrow> [] | Some s \<Rightarrow> [s])"
  by (simp_all add: announced_def putState_def deleteState_def insertAudit_def recordEvent_def List.map_filter_def
      as_string_None_iff split: option.split)

text \<open>The part of the store that decides about the alert.\<close>

definition outage_view :: "reminder_db \<Rightarrow> string option \<times> string option \<times> string list" where
  "outage_view db = (getState db ''hub_unavailable_since'', getState db ''recovery_alert_outage'', announced db)"

lemma view_put:
  "k \<notin> {''hub_unavailable_since'', ''recovery_alert_outage''} \<Longrightarrow> outage_view (putState k v db) = outage_view db"
  by (simp add: outage_view_def)

lemma view_keep [simp]:
  "outage_view (insertAudit r s m e t db) = outage_view db" "outage_view (db\<lparr>rm_reminders := rows\<rparr>) = outage_view db"
  "outage_view (db\<lparr>rm_decisions := ds\<rparr>) = outage_view db" "outage_view (maybeRecordStall env c n now db) = outage_view db"
  "outage_view (snd (shouldHoldOverdue env r now db)) = outage_view db"
  by (simp_all add: outage_view_def maybeRecordStall_def shouldHoldOverdue_def hold_key_def Let_def)

lemma view_update: "update_reminders P f db = Inr db' \<Longrightarrow> outage_view db' = outage_view db"
  by (auto dest: update_reminders_Inr(1))

lemma view_accepted: "fire_accepted env now r result db = (c, db') \<Longrightarrow> outage_view db' = outage_view db"
  by (auto simp: fire_accepted_def advanceOrComplete_eq view_put Let_def dest: view_update
      split: outcome.splits if_splits option.splits sum.splits)

lemma view_fire_next: "outage_view (sc_db (fire_next env now n rs sc)) = outage_view (sc_db sc)"
proof (induction rs arbitrary: sc)
  case (Cons r rest)
  obtain h db where h: "shouldHoldOverdue env r now (sc_db sc) = (h, db)" by fastforce
  obtain c db1 where c: "claim_reminder now (re_id r) db = (c, db1)" by fastforce
  have "outage_view db = outage_view (sc_db sc)" using view_keep(5) [of env r now "sc_db sc"] by (simp add: h)
  moreover have "outage_view db1 = outage_view db" using claim_rows [of now "re_id r" db] by (simp add: c)
  ultimately show ?case using Cons.IH by (simp add: h c ask_def)
qed simp

lemma view_fire_answered: "outage_view (sc_db (fire_answered env now r rest n result sc)) = outage_view (sc_db sc)"
  by (auto simp: fire_answered_def view_fire_next view_put failed_def Let_def dest!: view_accepted view_update
      split: prod.splits option.splits sum.splits)

lemma view_alert_next [simp]: "sc_db (alert_next env content rs sc) = sc_db sc"
  by (cases rs) (simp_all add: ask_def)

lemma view_advanceDue: "outage_view (sc_db (advanceDue env ready sc)) = outage_view (sc_db sc)"
  by (simp add: advanceDue_def view_fire_next view_put Let_def)

lemma view_answered: "outage_view (sc_db (answered env call result sc)) = outage_view (sc_db sc)"
  by (simp add: answered_def view_fire_answered Let_def split: option.split continuation.split)

text \<open>The events that the alert depends on.\<close>

lemma view_step:
  "outage_view (sc_db (sched_step sc (env, e))) =
     (case e of
        SConnectivity st c \<Rightarrow>
          if sc_running sc then outage_view (setConnectivity env st c (sc_db sc)) else outage_view (sc_db sc)
      | SRegistered \<Rightarrow>
          if sc_running sc then outage_view (sc_db (onHubRegistered env sc)) else outage_view (sc_db sc)
      | _ \<Rightarrow> outage_view (sc_db sc))"
  by (auto simp: sched_step_def view_advanceDue view_answered start_scheduler_def failed_def stored_def
      recordOverdueDecision_def stmtInsertReminder_def stmtCancelReminder_def Let_def
      dest: view_update split: sched_event.split sum.splits if_splits)

section \<open>One alert for an outage\<close>

lemma view_connectivity:
  "outage_view (setConnectivity env st c db) =
     (if st = Unavailable \<and> absent (getState db ''hub_unavailable_since'') then Some (iso_text (se_now env))
      else getState db ''hub_unavailable_since'',
      getState db ''recovery_alert_outage'', announced db)"
  by (simp add: setConnectivity_def outage_view_def Let_def)

lemma view_registered:
  "outage_view (sc_db (onHubRegistered env sc)) =
     (let since = getState (sc_db sc) ''hub_unavailable_since''; told = getState (sc_db sc) ''recovery_alert_outage''
      in if absent since \<or> told = since then (None, told, announced (sc_db sc))
         else (None, since, announced (sc_db sc) @ [the since]))"
  by (auto simp: onHubRegistered_def outage_view_def recovered_details_def absent_def Let_def)

text \<open>
  The announced outages began one after the other, the last of them is remembered, and an outage that is
  open began no earlier than that.
\<close>

definition outages_ok :: "millis \<Rightarrow> reminder_db \<Rightarrow> bool" where
  "outages_ok now db \<longleftrightarrow>
     (\<exists>ts. announced db = map iso_text ts \<and> sorted ts \<and> distinct ts \<and> (\<forall>t\<in>set ts. 0 \<le> t \<and> t \<le> now) \<and>
        getState db ''recovery_alert_outage'' = (if ts = [] then None else Some (iso_text (last ts))) \<and>
        (case getState db ''hub_unavailable_since'' of
           None \<Rightarrow> True
         | Some s \<Rightarrow> \<exists>a. s = iso_text a \<and> 0 \<le> a \<and> a \<le> now \<and> (\<forall>t\<in>set ts. t \<le> a)))"

lemma outages_ok_view: "outage_view db = outage_view db' \<Longrightarrow> outages_ok now db = outages_ok now db'"
  by (simp add: outages_ok_def outage_view_def)

lemma outages_ok_later: "outages_ok now db \<Longrightarrow> now \<le> now' \<Longrightarrow> outages_ok now' db"
  unfolding outages_ok_def by (fastforce split: option.splits)

lemma iso_text_not_Nil [simp]: "iso_text t \<noteq> []"
  by (simp add: iso_text_def)

lemma outages_ok_connectivity:
  assumes "outages_ok now db" "now \<le> se_now env" "0 \<le> now"
  shows "outages_ok (se_now env) (setConnectivity env st c db)"
proof -
  obtain ts where ts: "announced db = map iso_text ts" "sorted ts" "distinct ts" "\<forall>t\<in>set ts. 0 \<le> t \<and> t \<le> now"
    "getState db ''recovery_alert_outage'' = (if ts = [] then None else Some (iso_text (last ts)))"
    "case getState db ''hub_unavailable_since'' of None \<Rightarrow> True
     | Some s \<Rightarrow> \<exists>a. s = iso_text a \<and> 0 \<le> a \<and> a \<le> now \<and> (\<forall>t\<in>set ts. t \<le> a)"
    using assms(1) unfolding outages_ok_def by blast
  have v: "getState (setConnectivity env st c db) ''recovery_alert_outage'' = getState db ''recovery_alert_outage''"
    "announced (setConnectivity env st c db) = announced db"
    "getState (setConnectivity env st c db) ''hub_unavailable_since'' =
       (if st = Unavailable \<and> absent (getState db ''hub_unavailable_since'') then Some (iso_text (se_now env))
        else getState db ''hub_unavailable_since'')"
    using view_connectivity [of env st c db] by (simp_all add: outage_view_def)
  have "\<forall>t\<in>set ts. 0 \<le> t \<and> t \<le> se_now env" using ts(4) assms(2) by auto
  moreover have "case getState (setConnectivity env st c db) ''hub_unavailable_since'' of None \<Rightarrow> True
     | Some s \<Rightarrow> \<exists>a. s = iso_text a \<and> 0 \<le> a \<and> a \<le> se_now env \<and> (\<forall>t\<in>set ts. t \<le> a)"
    using ts(4,6) assms(2,3) unfolding v(3) by (fastforce split: option.splits)
  ultimately show ?thesis unfolding outages_ok_def v(1,2) using ts by blast
qed

lemma outages_ok_registered:
  assumes "outages_ok now (sc_db sc)" "now \<le> se_now env" "se_now env < 253370764800000"
  shows "outages_ok (se_now env) (sc_db (onHubRegistered env sc))"
proof -
  let ?db = "sc_db sc" let ?db' = "sc_db (onHubRegistered env sc)"
  obtain ts where ts: "announced ?db = map iso_text ts" "sorted ts" "distinct ts" "\<forall>t\<in>set ts. 0 \<le> t \<and> t \<le> now"
    "getState ?db ''recovery_alert_outage'' = (if ts = [] then None else Some (iso_text (last ts)))"
    "case getState ?db ''hub_unavailable_since'' of None \<Rightarrow> True
     | Some s \<Rightarrow> \<exists>a. s = iso_text a \<and> 0 \<le> a \<and> a \<le> now \<and> (\<forall>t\<in>set ts. t \<le> a)"
    using assms(1) unfolding outages_ok_def by blast
  let ?since = "getState ?db ''hub_unavailable_since''"
  have late: "\<forall>t\<in>set ts. 0 \<le> t \<and> t \<le> se_now env" using ts(4) assms(2) by auto
  show ?thesis
  proof (cases "absent ?since \<or> getState ?db ''recovery_alert_outage'' = ?since")
    case True
    then have "getState ?db' ''hub_unavailable_since'' = None" "announced ?db' = announced ?db"
      "getState ?db' ''recovery_alert_outage'' = getState ?db ''recovery_alert_outage''"
      using view_registered [of env sc] by (simp_all add: outage_view_def Let_def)
    with ts late show ?thesis unfolding outages_ok_def by (intro exI [of _ ts]) simp
  next
    case False
    then obtain a where a: "?since = Some (iso_text a)" "0 \<le> a" "a \<le> now" "\<forall>t\<in>set ts. t \<le> a"
      using ts(6) by (auto simp: absent_def split: option.splits)
    have v: "getState ?db' ''hub_unavailable_since'' = None" "announced ?db' = map iso_text (ts @ [a])"
      "getState ?db' ''recovery_alert_outage'' = Some (iso_text a)"
      using view_registered [of env sc] False a(1) ts(1) by (simp_all add: outage_view_def Let_def)
    have "a \<notin> set ts"
    proof
      assume "a \<in> set ts"
      then have "ts \<noteq> []" by auto
      then have "last ts \<in> set ts" by simp
      moreover have "a \<le> last ts" using ts(2) \<open>a \<in> set ts\<close> by (induction ts) auto
      ultimately have "last ts = a" using a(4) by force
      with False ts(5) a(1) \<open>ts \<noteq> []\<close> show False by simp
    qed
    then have "sorted (ts @ [a])" "distinct (ts @ [a])" "\<forall>t\<in>set (ts @ [a]). 0 \<le> t \<and> t \<le> se_now env"
      using ts(2,3) a late assms(2) by (auto simp: sorted_append)
    with v show ?thesis unfolding outages_ok_def by (intro exI [of _ "ts @ [a]"]) simp
  qed
qed

lemma outages_ok_run:
  assumes "sorted (map (\<lambda>(env, e). se_now env) evs)"
    "list_all (\<lambda>(env, e). 0 \<le> se_now env \<and> se_now env < 253370764800000) evs"
  shows "outages_ok (if evs = [] then 0 else se_now (fst (last evs))) (sc_db (sched_run evs))"
  using assms
proof (induction evs rule: rev_induct)
  case Nil
  show ?case
    by (auto simp: sched_run_def scheduler_init_def reminder_db_init_def outages_ok_def announced_def getState_def
        List.map_filter_def intro!: exI [of _ "[]"])
next
  case (snoc ev evs)
  obtain env e where ev: "ev = (env, e)" by fastforce
  let ?t = "if evs = [] then 0 else se_now (fst (last evs))"
  let ?sc = "sched_run evs"
  have ok: "outages_ok ?t (sc_db ?sc)" using snoc by (simp add: sorted_append)
  have t: "?t \<le> se_now env" "0 \<le> ?t" "se_now env < 253370764800000"
    using snoc.prems ev by (auto simp: sorted_append list_all_iff case_prod_beta)
  have keep: "outages_ok (se_now env) (sc_db ?sc)" by (rule outages_ok_later [OF ok t(1)])
  have same: "outages_ok (se_now env) (sc_db (sched_step ?sc (env, e)))"
    if "outage_view (sc_db (sched_step ?sc (env, e))) = outage_view (sc_db ?sc)"
    using outages_ok_view [OF that, of "se_now env"] keep by (rule iffD2)
  have "outages_ok (se_now env) (sc_db (sched_step ?sc (env, e)))"
  proof (cases e)
    case (SConnectivity st c)
    with keep outages_ok_connectivity [OF ok t(1,2), of st c] show ?thesis by (simp add: sched_step_def)
  next
    case SRegistered
    with keep outages_ok_registered [OF ok t(1,3)] show ?thesis by (simp add: sched_step_def)
  qed (rule same, simp add: view_step)+
  then show ?case by (simp add: sched_run_snoc ev)
qed

text \<open>
  An outage of the hub is announced at most once. While the clock does not run backwards, no two
  recovery events of any run name the same outage, whatever crashes, restarts, lost connections and failed
  alerts come between.
\<close>
theorem outage_is_announced_once:
  fixes evs :: "(sched_env \<times> sched_event) list"
  assumes "sorted (map (\<lambda>(env, e). se_now env) evs)"
    and "list_all (\<lambda>(env, e). 0 \<le> se_now env \<and> se_now env < 253370764800000) evs"
  shows "distinct (announced (sc_db (sched_run evs)))"
proof -
  let ?t = "if evs = [] then 0 else se_now (fst (last evs))"
  have t: "?t < 253370764800000" using assms(2) by (auto simp: list_all_iff case_prod_beta)
  obtain ts where ts: "announced (sc_db (sched_run evs)) = map iso_text ts" "distinct ts" "\<forall>t\<in>set ts. 0 \<le> t \<and> t \<le> ?t"
    using outages_ok_run [OF assms] unfolding outages_ok_def by blast
  have "inj_on iso_text (set ts)"
  proof (rule inj_onI)
    fix a b
    assume ab: "a \<in> set ts" "b \<in> set ts" "iso_text a = iso_text b"
    have "\<forall>t\<in>set ts. 0 \<le> t \<and> t < 253370764800000" using ts(3) t by (meson le_less_trans)
    with ab have "0 \<le> a \<and> a < 253370764800000" "0 \<le> b \<and> b < 253370764800000" by blast+
    then have "iso_parse (iso_text a) = Some a" "iso_parse (iso_text b) = Some b" by (auto intro: iso_parse_text)
    then show "a = b" unfolding ab(3) by (metis option.inject)
  qed
  with ts show ?thesis by (simp add: distinct_map)
qed

text \<open>Two outages, and the service registers twice after the second.\<close>

definition two_outages :: "(sched_env \<times> sched_event) list" where
  "two_outages =
     [(plain_sched_env 0, SStart), (plain_sched_env 1000, SConnectivity Unavailable (Some ''hub_closed'')),
      (plain_sched_env 2000, SRegistered), (plain_sched_env 3000, SConnectivity Unavailable None),
      (plain_sched_env 4000, SRegistered), (plain_sched_env 5000, SRegistered)]"

lemma outage_is_announced_once_witness:
  "announced (sc_db (sched_run two_outages)) = [''1970-01-01T00:00:01.000Z'', ''1970-01-01T00:00:03.000Z''] \<and>
   distinct (announced (sc_db (sched_run two_outages)))"
proof
  show "announced (sc_db (sched_run two_outages)) = [''1970-01-01T00:00:01.000Z'', ''1970-01-01T00:00:03.000Z'']"
    by code_simp
  have "sorted (map (\<lambda>(env, e). se_now env) two_outages)"
    "list_all (\<lambda>(env, e). 0 \<le> se_now env \<and> se_now env < 253370764800000) two_outages" by code_simp+
  then show "distinct (announced (sc_db (sched_run two_outages)))" by (rule outage_is_announced_once)
qed

section \<open>Starvation\<close>

text \<open>A later scan finds the rows of an earlier one first.\<close>

lemma sorted_filter_takeWhile:
  "sorted (map f xs) \<Longrightarrow> filter (\<lambda>x. f x \<le> c) xs = takeWhile (\<lambda>x. f x \<le> c) xs"
  by (induction xs) (force simp: filter_empty_conv takeWhile_eq_Nil_iff dest: hd_in_set)+

lemma due_rows_later:
  assumes "now \<le> now'" "length (due_rows now db) = 100"
  shows "due_rows now' db = due_rows now db"
proof -
  let ?all = "order_asc slot (sql_where (due now') (rm_reminders db))"
  have le: "sql_now now \<le> sql_now now'" using assms(1) by (rule sql_now_mono)
  have "due now x \<longleftrightarrow> due now' x \<and> slot x \<le> sql_now now" for x
    using le by (auto simp: due_def slot_def split: option.splits)
  then have "sql_where (due now) (rm_reminders db) = filter (\<lambda>x. slot x \<le> sql_now now) (sql_where (due now') (rm_reminders db))"
    by (auto simp: sql_where_def intro!: filter_cong)
  then have "order_asc slot (sql_where (due now) (rm_reminders db)) = filter (\<lambda>x. slot x \<le> sql_now now) ?all"
    by (simp add: order_asc_def filter_sort)
  also have "\<dots> = takeWhile (\<lambda>x. slot x \<le> sql_now now) ?all"
    by (rule sorted_filter_takeWhile) (rule sorted_order_asc)
  finally have "due_rows now db = take 100 (takeWhile (\<lambda>x. slot x \<le> sql_now now) ?all)" by (simp add: due_rows_def)
  moreover have "take 100 (takeWhile P xs) = take 100 xs" if "length (take 100 (takeWhile P xs)) = 100"
    for P :: "reminder_row \<Rightarrow> bool" and xs
  proof -
    have "takeWhile P xs = take (length (takeWhile P xs)) xs" by (rule takeWhile_eq_take)
    moreover have "100 \<le> length (takeWhile P xs)" using that by simp
    ultimately show ?thesis by (metis take_take min.absorb1)
  qed
  ultimately show ?thesis using assms(2) by (simp add: due_rows_def)
qed

lemma running_advanceDue: "sc_running (advanceDue env ready sc) = sc_running sc"
proof -
  have "sc_running (fire_next env now n rs s) = sc_running s" for now n rs s
    by (induction rs arbitrary: s) (simp_all add: case_prod_beta Let_def ask_def)
  then show ?thesis by (simp add: advanceDue_def Let_def)
qed

text \<open>
  A hundred held reminders starve the rest. The scan takes the hundred oldest due rows and passes over
  those that are held, which stay active. Once the hundred oldest are held no later poll makes a request
  or changes a row, whatever else is or becomes due, until an operator decides.
\<close>
theorem reminders_behind_held_ones_starve:
  fixes env :: sched_env and evs :: "(sched_env \<times> sched_event) list"
  assumes "sc_running (sched_run evs)" "\<not> sc_ticking (sched_run evs)"
    and "list_all (held env (se_now env) (sc_db (sched_run evs))) (due_rows (se_now env) (sc_db (sched_run evs)))"
    and "length (due_rows (se_now env) (sc_db (sched_run evs))) = 100"
    and "list_all (\<lambda>e. se_now env \<le> se_now e \<and> se_overdueHoldMs e = se_overdueHoldMs env) polls"
  shows "let sc = sched_run evs; sc' = sched_run (evs @ map (\<lambda>e. (e, SPoll True)) polls)
    in sc_effects sc' = sc_effects sc \<and> rm_reminders (sc_db sc') = rm_reminders (sc_db sc)"
proof -
  let ?sc = "sched_run evs"
  have "sc_effects sc' = sc_effects ?sc \<and> rm_reminders (sc_db sc') = rm_reminders (sc_db ?sc) \<and>
      rm_decisions (sc_db sc') = rm_decisions (sc_db ?sc) \<and> \<not> sc_ticking sc' \<and> sc_running sc'"
    if "sc' = sched_run (evs @ map (\<lambda>e. (e, SPoll True)) polls)" for sc'
    using assms(5) that
  proof (induction polls arbitrary: sc' rule: rev_induct)
    case Nil
    with assms show ?case by simp
  next
    case (snoc e polls)
    define sc1 where "sc1 = sched_run (evs @ map (\<lambda>e. (e, SPoll True)) polls)"
    have IH: "sc_effects sc1 = sc_effects ?sc" "rm_reminders (sc_db sc1) = rm_reminders (sc_db ?sc)"
      "rm_decisions (sc_db sc1) = rm_decisions (sc_db ?sc)" "\<not> sc_ticking sc1" "sc_running sc1"
      using snoc.IH [of sc1] snoc.prems(1) by (simp_all add: sc1_def)
    have e: "se_now env \<le> se_now e" "se_overdueHoldMs e = se_overdueHoldMs env" using snoc.prems(1) by simp_all
    have sc': "sc' = sched_step sc1 (e, SPoll True)"
      using snoc.prems(2) by (simp add: sc1_def sched_run_snoc flip: append_assoc)
    have ok: "sched_ok sc1" unfolding sc1_def by (rule sched_run_ok)
    have d: "due_rows (se_now e) (sc_db sc1) = due_rows (se_now env) (sc_db ?sc)"
      using due_rows_later [OF e(1) assms(4)] by (simp add: due_rows_def IH(2))
    have "held e (se_now e) (sc_db sc1) r" if "held env (se_now env) (sc_db ?sc) r" for r
      using that e by (auto simp: held_def overdue_def decision_of_def IH(3))
    then have "find (\<lambda>r. \<not> held e (se_now e) (sc_db sc1) r) (due_rows (se_now e) (sc_db sc1)) = None"
      using assms(3) by (auto simp: d find_None_iff list_all_iff)
    moreover have "sc_running sc'" unfolding sc' using IH(4,5) by (simp add: sched_step_def running_advanceDue)
    ultimately show ?case using poll_core [OF ok IH(5,4), of e] IH by (simp add: sc')
  qed
  then show ?thesis by (simp add: Let_def)
qed

text \<open>A hundred one-shot reminders of the first minute, and an interval of the second.\<close>

definition old_reminders :: "reminder_row list" where
  "old_reminders = map (\<lambda>i. sample_reminder (int_text i) ''once'' None 1) [0..99]"

definition crowded :: "(sched_env \<times> sched_event) list" where
  "crowded =
     (plain_sched_env 0, SStart) #
     map (\<lambda>r. (plain_sched_env 0, SSchedule r)) (old_reminders @ [sample_reminder (int_text 100) ''interval'' None 60])"

lemma schedule_all:
  assumes "distinct (map re_id rs)" "re_id ` set rs \<inter> re_id ` set (rm_reminders (sc_db sc)) = {}"
    and "\<And>r. r \<in> set rs \<Longrightarrow> re_status r = RActive \<and> re_idempotency_key r = None \<and> re_type r \<in> {''once'', ''interval''}"
  shows "foldl sched_step sc (map (\<lambda>r. (env, SSchedule r)) rs) =
    sc\<lparr>sc_db := (sc_db sc)\<lparr>rm_reminders := rm_reminders (sc_db sc) @ rs\<rparr>\<rparr>"
  using assms
proof (induction rs arbitrary: sc)
  case (Cons r rs)
  let ?sc = "sc\<lparr>sc_db := (sc_db sc)\<lparr>rm_reminders := rm_reminders (sc_db sc) @ [r]\<rparr>\<rparr>"
  have "re_id r \<notin> re_id ` set (rm_reminders (sc_db sc))" using Cons.prems(2) by simp
  then have "\<not> sql_exists (\<lambda>x. re_id x = re_id r) (rm_reminders (sc_db sc))" by (auto simp: sql_exists_iff image_iff)
  then have "sched_step sc (env, SSchedule r) = ?sc"
    using Cons.prems(3) [of r] by (auto simp: sched_step_def stored_def stmtInsertReminder_def keyed_active_def)
  moreover have "foldl sched_step ?sc (map (\<lambda>r. (env, SSchedule r)) rs) =
      ?sc\<lparr>sc_db := (sc_db ?sc)\<lparr>rm_reminders := rm_reminders (sc_db ?sc) @ rs\<rparr>\<rparr>"
    using Cons.prems by (intro Cons.IH) auto
  ultimately show ?case by simp
qed simp

lemma crowded_rows:
  "sc_running (sched_run crowded) \<and> \<not> sc_ticking (sched_run crowded) \<and> sc_effects (sched_run crowded) = [] \<and>
   rm_decisions (sc_db (sched_run crowded)) = [] \<and>
   rm_reminders (sc_db (sched_run crowded)) = old_reminders @ [sample_reminder (int_text 100) ''interval'' None 60]"
proof -
  let ?rows = "old_reminders @ [sample_reminder (int_text 100) ''interval'' None 60]"
  have s: "sched_step scheduler_init (plain_sched_env 0, SStart) = scheduler_init\<lparr>sc_running := True\<rparr>" by code_simp
  have i: "map re_id ?rows = map int_text [0..100]"
    by (simp add: old_reminders_def sample_reminder_def comp_def flip: upto_rec1) (simp add: upto_rec2)
  have "distinct (map re_id ?rows)" unfolding i by (simp add: distinct_map inj_on_def int_text_inj)
  then have "foldl sched_step (scheduler_init\<lparr>sc_running := True\<rparr>) (map (\<lambda>r. (plain_sched_env 0, SSchedule r)) ?rows) =
      scheduler_init\<lparr>sc_running := True, sc_db := reminder_db_init\<lparr>rm_reminders := ?rows\<rparr>\<rparr>"
    by (subst schedule_all)
      (auto simp: scheduler_init_def reminder_db_init_def old_reminders_def sample_reminder_def)
  then have "sched_run crowded = scheduler_init\<lparr>sc_running := True, sc_db := reminder_db_init\<lparr>rm_reminders := ?rows\<rparr>\<rparr>"
    by (simp only: sched_run_def crowded_def foldl_Cons s)
  then show ?thesis by (simp add: scheduler_init_def reminder_db_init_def)
qed

lemma reminders_behind_held_ones_starve_witness:
  "sc_effects (sched_run (crowded @ map (\<lambda>e. (e, SPoll True)) [plain_sched_env 600000, plain_sched_env 660000])) = []"
proof -
  let ?env = "plain_sched_env 600000"
  have n: "se_now (plain_sched_env t) = t" "se_overdueHoldMs (plain_sched_env t) = 300000" for t
    by (simp_all add: plain_sched_env_def)
  have "sql_where (due 600000) (old_reminders @ [sample_reminder (int_text 100) ''interval'' None 60]) =
      old_reminders @ [sample_reminder (int_text 100) ''interval'' None 60]"
    by (auto simp: sql_where_def old_reminders_def sample_reminder_def due_def sql_now_def filter_id_conv)
  moreover have "sorted (map slot (old_reminders @ [sample_reminder (int_text 100) ''interval'' None 60]))"
    by (simp add: old_reminders_def sample_reminder_def slot_def sorted_append comp_def map_replicate_const)
  ultimately have "due_rows 600000 (sc_db (sched_run crowded)) = old_reminders"
    using crowded_rows by (simp add: due_rows_def order_asc_def sorted_sort_id sort_key_id_if_sorted old_reminders_def)
  moreover have "list_all (held ?env 600000 (sc_db (sched_run crowded))) old_reminders"
    using crowded_rows
    by (auto simp: old_reminders_def list_all_iff held_def overdue_def decision_of_def sample_reminder_def slot_def n)
  moreover have "length old_reminders = 100" by (simp add: old_reminders_def)
  moreover have "list_all (\<lambda>e. 600000 \<le> se_now e \<and> se_overdueHoldMs e = se_overdueHoldMs ?env) [?env, plain_sched_env 660000]"
    by (simp add: n)
  ultimately show ?thesis
    using crowded_rows reminders_behind_held_ones_starve [of crowded ?env "[?env, plain_sched_env 660000]"]
    by (simp add: n Let_def)
qed

section \<open>A tick ends\<close>

text \<open>The sends that a tick can still make, and the answer to the one that it awaits.\<close>

definition awaited :: "scheduler \<Rightarrow> (nat \<times> continuation) list" where
  "awaited sc = filter (is_fire \<circ> snd) (sc_waiting sc)"

definition remaining :: "scheduler \<Rightarrow> nat" where
  "remaining sc = (case awaited sc of (c, AwaitFire now r rest n) # _ \<Rightarrow> Suc (length rest) | _ \<Rightarrow> 0)"

definition answer_send :: "scheduler \<Rightarrow> sched_env \<times> outcome \<Rightarrow> scheduler" where
  "answer_send sc a =
     (case (awaited sc, a) of
        ((c, k) # _, (env, result)) \<Rightarrow> sched_step sc (env, SAnswer c result)
      | _ \<Rightarrow> sc)"

lemma remaining_fire_next:
  assumes "reminder_pk (sc_db sc)" "filter (is_fire \<circ> snd) (sc_waiting sc) = []"
  shows "remaining (fire_next env now n rs sc) \<le> length rs"
  using assms(1)
proof (cases rule: fire_next_cases [of sc env now rs n])
  case (finished db)
  with assms(2) show ?thesis by (simp add: remaining_def awaited_def)
next
  case (asked skipped r rest db)
  with assms(2) show ?thesis by (simp add: remaining_def awaited_def ask_def)
qed

lemma answer_send_remaining:
  assumes "sched_ok sc" "0 < remaining sc"
  shows "remaining (answer_send sc (env, result)) < remaining sc"
proof -
  obtain c now r rest n ks where a: "awaited sc = (c, AwaitFire now r rest n) # ks"
    using assms(2) by (auto simp: remaining_def split: list.splits continuation.splits)
  then have m: "(c, AwaitFire now r rest n) \<in> set (sc_waiting sc)" by (auto simp: awaited_def dest: filter_eq_ConsD)
  note fire = sched_ok_fire [OF assms(1) m]
  let ?sc = "sc\<lparr>sc_waiting := filter (\<lambda>e. fst e \<noteq> c) (sc_waiting sc)\<rparr>"
  have run: "sc_running sc" using m assms(1) by (auto simp: sched_ok_def)
  have none: "filter (is_fire \<circ> snd) (sc_waiting ?sc) = []"
    using fire(6) by (fastforce simp: filter_empty_conv)
  have s: "answer_send sc (env, result) = fire_answered env now r rest n result ?sc"
    using a fire(5) run by (simp add: answer_send_def sched_step_def answered_def)
  have pk: "reminder_pk (sc_db ?sc)" and fl: "in_flight (sc_db ?sc) r" using assms(1) fire(1) by (simp_all add: sched_ok_def)
  then have "remaining (fire_answered env now r rest n result ?sc) \<le> length rest"
  proof (cases rule: fire_answered_cases [of ?sc r env now rest n result])
    case (on f db)
    then show ?thesis using remaining_fire_next [of "?sc\<lparr>sc_db := db\<rparr>" env now n rest] none by simp
  next
    case (stuck db)
    with none show ?thesis by (simp add: remaining_def awaited_def failed_def)
  qed
  then show ?thesis by (simp add: s remaining_def [of sc] a)
qed

lemma remaining_ticking: "sched_ok sc \<Longrightarrow> remaining sc = 0 \<Longrightarrow> \<not> sc_ticking sc"
  by (auto simp: sched_ok_def remaining_def awaited_def filter_empty_conv
      split: list.splits continuation.splits if_splits dest!: filter_eq_ConsD)

text \<open>
  C36: A tick ends. However the sends of a tick are answered, at most as many answers as it had reminders
  left end it, and the scheduler can be polled again.
\<close>
theorem a_tick_ends:
  assumes "remaining (sched_run evs) \<le> length answers"
  shows "\<not> sc_ticking (foldl answer_send (sched_run evs) answers)"
proof -
  have "\<not> sc_ticking (foldl answer_send sc answers)" if "sched_ok sc" "remaining sc \<le> length answers" for sc
    using that
  proof (induction answers arbitrary: sc)
    case Nil
    then show ?case using remaining_ticking by simp
  next
    case (Cons a answers)
    obtain env result where a: "a = (env, result)" by fastforce
    have "sched_ok (answer_send sc a)"
      using sched_step_ok [OF Cons.prems(1)] Cons.prems(1)
      by (cases "awaited sc") (simp_all add: answer_send_def a case_prod_beta)
    moreover have "remaining (answer_send sc a) \<le> length answers"
    proof (cases "remaining sc = 0")
      case True
      then have "\<not> sc_ticking sc" by (rule remaining_ticking [OF Cons.prems(1)])
      then have "awaited sc = []" using Cons.prems(1) by (simp add: awaited_def sched_ok_def)
      with True show ?thesis by (simp add: answer_send_def)
    next
      case False
      with answer_send_remaining [OF Cons.prems(1), of env result] Cons.prems(2) a show ?thesis by simp
    qed
    ultimately show ?case using Cons.IH by simp
  qed
  with sched_run_ok [of evs] assms show ?thesis by blast
qed

text \<open>Two reminders are due; the first send is lost and the second taken.\<close>

definition two_due :: "(sched_env \<times> sched_event) list" where
  "two_due = [(plain_sched_env 0, SStart), (plain_sched_env 0, SSchedule (sample_reminder ''r1'' ''interval'' None 60)),
     (plain_sched_env 0, SSchedule (sample_reminder ''r2'' ''once'' None 60)), (plain_sched_env 60000, SPoll True)]"

lemma a_tick_ends_witness:
  "sc_ticking (sched_run two_due) \<and>
   \<not> sc_ticking (foldl answer_send (sched_run two_due)
     [(plain_sched_env 60100, Rejected ''rpc timeout: mesh.send'' ''rpc_timeout''), (plain_sched_env 60200, Resolved (Some (JObj [])))])"
proof
  show "sc_ticking (sched_run two_due)" by code_simp
  have "remaining (sched_run two_due) = 2" by code_simp
  then show "\<not> sc_ticking (foldl answer_send (sched_run two_due)
     [(plain_sched_env 60100, Rejected ''rpc timeout: mesh.send'' ''rpc_timeout''), (plain_sched_env 60200, Resolved (Some (JObj [])))])"
    by (intro a_tick_ends) simp
qed

end
