(* ===== verification/Web_Store.thy ===== *)
theory Web_Store
  imports Reminder_Scheduler
begin

text \<open>
  The web server's own database, \<open>packages/http/src/db.ts\<close>: one record per table of
  \<open>agent-mesh.db\<close>, and every read and write of the file. The pool handle, the indices and the columns
  added for databases of earlier builds are not modelled. A row that a statement inserts takes the column
  defaults of the \<open>CREATE TABLE\<close>.

  Hashing and checking a password, and fresh randomness, are Bun's and are parameters. \<open>LIKE\<close> is
  modelled on bytes; it folds the case of ASCII letters, as SQLite does.

  The lemmas: the keys of the tables survive every write; the search is exact for a query without a
  backslash; the pending approvals move one way; and what a restart does to a deactivated account.
\<close>

section \<open>Tables\<close>

record web_message =
  wm_id :: string
  wm_from :: string
  wm_to :: string
  wm_content :: string
  wm_reply_to :: "string option"
  wm_file_path :: "string option"
  wm_status :: string
  wm_ts :: string

record web_user =
  wu_github_id :: int
  wu_github_login :: string
  wu_role :: string
  wu_created_at :: secs

record web_policy =
  wp_github_login :: string
  wp_allowed_agent :: string

record pending_approval =
  pa_github_login :: string
  pa_github_id :: int
  pa_requested_at :: secs
  pa_status :: string

record push_subscription =
  ps_github_login :: string
  ps_endpoint :: string
  ps_p256dh :: string
  ps_auth :: string

record local_user =
  lu_id :: int
  lu_username :: string
  lu_password_hash :: string
  lu_display_name :: "string option"
  lu_role :: string
  lu_created_at :: secs
  lu_must_change_password :: bool
  lu_tenant :: string
  lu_disabled_at :: "secs option"

record registry_agent =
  rr_id :: string
  rr_name :: string
  rr_description :: "string option"
  rr_channel :: string
  rr_type :: string
  rr_approved :: bool
  rr_created_at :: secs
  rr_updated_at :: secs

record web_db =
  wb_messages :: "web_message list"
  wb_users :: "web_user list"
  wb_policies :: "web_policy list"
  wb_approvals :: "pending_approval list"
  wb_push :: "push_subscription list"
  wb_local :: "local_user list"
  wb_registry :: "registry_agent list"

definition web_db_init :: web_db where
  "web_db_init =
     \<lparr>wb_messages = [], wb_users = [], wb_policies = [], wb_approvals = [], wb_push = [], wb_local = [], wb_registry = []\<rparr>"

text \<open>The primary keys and the unique columns.\<close>

definition web_pk :: "web_db \<Rightarrow> bool" where
  "web_pk db \<longleftrightarrow> sql_unique wm_id (wb_messages db) \<and> sql_unique wu_github_id (wb_users db) \<and>
     sql_unique (\<lambda>p. (wp_github_login p, wp_allowed_agent p)) (wb_policies db) \<and>
     sql_unique pa_github_login (wb_approvals db) \<and> sql_unique ps_endpoint (wb_push db) \<and>
     sql_unique lu_username (wb_local db) \<and> sql_unique lu_id (wb_local db) \<and> sql_unique rr_id (wb_registry db)"

section \<open>The registry of the console\<close>

definition listRegistryAgents :: "web_db \<Rightarrow> registry_agent list" where
  "listRegistryAgents db = order_asc rr_id (wb_registry db)"

definition getRegistryAgent :: "web_db \<Rightarrow> string \<Rightarrow> registry_agent option" where
  "getRegistryAgent db i = sql_get (\<lambda>a. rr_id a = i) (wb_registry db)"

definition countRegistryAgents :: "web_db \<Rightarrow> nat" where
  "countRegistryAgents db = length (wb_registry db)"

definition listRegistryAgentIds :: "web_db \<Rightarrow> string list" where
  "listRegistryAgentIds db = map rr_id (order_asc rr_id (wb_registry db))"

definition listApprovedWebUserIds :: "web_db \<Rightarrow> string list" where
  "listApprovedWebUserIds db =
     map rr_id (order_asc rr_id (sql_where (\<lambda>a. rr_type a = ''user'' \<and> rr_approved a) (wb_registry db)))"

definition isRegistryAgentApproved :: "web_db \<Rightarrow> string \<Rightarrow> bool" where
  "isRegistryAgentApproved db i = (case getRegistryAgent db i of None \<Rightarrow> False | Some a \<Rightarrow> rr_approved a)"

definition approve_row :: "secs \<Rightarrow> registry_agent \<Rightarrow> registry_agent" where
  "approve_row t a = a\<lparr>rr_approved := True, rr_updated_at := t\<rparr>"

definition admitRegistryAgent :: "secs \<Rightarrow> web_db \<Rightarrow> string \<Rightarrow> string option \<Rightarrow> string option \<Rightarrow> web_db" where
  "admitRegistryAgent t db i description ty =
     db\<lparr>wb_registry := sql_upsert rr_id
          \<lparr>rr_id = i, rr_name = i, rr_description = description, rr_channel = ''native'', rr_type = coalesce ty ''agent'',
           rr_approved = True, rr_created_at = t, rr_updated_at = t\<rparr> (approve_row t) (wb_registry db)\<rparr>"

definition upsertApprovedWebUser :: "secs \<Rightarrow> web_db \<Rightarrow> string \<Rightarrow> web_db" where
  "upsertApprovedWebUser t db githubLogin =
     db\<lparr>wb_registry := sql_upsert rr_id
          \<lparr>rr_id = githubLogin, rr_name = githubLogin, rr_description = None, rr_channel = ''web'', rr_type = ''user'',
           rr_approved = True, rr_created_at = t, rr_updated_at = t\<rparr> (approve_row t) (wb_registry db)\<rparr>"

text \<open>
  The import of the old file. \<open>Object.entries\<close> of an array counts its elements; the entries of a text
  have no names either. \<open>None\<close> in the second place is a throw, which the caller does not catch.
\<close>

fun entries_of :: "json \<Rightarrow> (string \<times> json) list" where
  "entries_of (JObj ms) = object_entries ms"
| "entries_of (JArr xs) = map (\<lambda>(i, x). (int_text (int i), x)) (enumerate 0 xs)"
| "entries_of (JStr s) = map (\<lambda>(i, c). (int_text (int i), JStr [c])) (enumerate 0 s)"
| "entries_of _ = []"

definition legacy_row :: "secs \<Rightarrow> string \<times> json \<Rightarrow> registry_agent option" where
  "legacy_row t e =
     (case e of (i, entry) \<Rightarrow>
        if entry = JNull then None
        else (case (sql_bind (Some (or_else (jget entry ''name'') (JStr i))), sql_bind (jget entry ''description''),
                    sql_bind (Some (or_else (jget entry ''channel'') (JStr ''native''))),
                    sql_bind (Some (or_else (jget entry ''type'') (JStr ''agent'')))) of
                (Some (Some name), Some description, Some (Some channel), Some (Some ty)) \<Rightarrow>
                  Some \<lparr>rr_id = i, rr_name = name, rr_description = description, rr_channel = channel, rr_type = ty,
                        rr_approved = (jget entry ''approved'' \<noteq> Some (JBool False)), rr_created_at = t, rr_updated_at = t\<rparr>
              | _ \<Rightarrow> None))"

definition importLegacyRegistry :: "secs \<Rightarrow> string option \<Rightarrow> web_db \<Rightarrow> web_db option" where
  "importLegacyRegistry t registryFile db =
     (if countRegistryAgents db > 0 then Some db
      else case registryFile of
             None \<Rightarrow> Some db
           | Some text \<Rightarrow>
               (case json_parse text of
                  None \<Rightarrow> Some db
                | Some JNull \<Rightarrow> Some db
                | Some parsed \<Rightarrow>
                    (let rows = map (legacy_row t) (entries_of (or_else (jget parsed ''agents'') (JObj [])))
                     in if None \<in> set rows then None
                        else Some (db\<lparr>wb_registry := foldl (\<lambda>rs r. sql_insert_ignore rr_id r rs) (wb_registry db)
                                        (map the rows)\<rparr>))))"

section \<open>Messages\<close>

text \<open>\<open>LIMIT\<close>: a negative one is no limit.\<close>

definition sql_limit :: "int \<Rightarrow> 'r list \<Rightarrow> 'r list" where
  "sql_limit n rs = (if n < 0 then rs else take (nat n) rs)"

text \<open>A content that is null violates the column and throws.\<close>

definition insertMessage ::
  "web_db \<Rightarrow> string \<Rightarrow> string \<Rightarrow> string \<Rightarrow> string option \<Rightarrow> string option \<Rightarrow> string option \<Rightarrow> string \<Rightarrow> string \<Rightarrow>
   web_db option" where
  "insertMessage db i sender recipient content reply_to file_path status ts =
     (case content of
        None \<Rightarrow> None
      | Some c \<Rightarrow> Some (db\<lparr>wb_messages := sql_insert_ignore wm_id
          \<lparr>wm_id = i, wm_from = sender, wm_to = recipient, wm_content = c, wm_reply_to = reply_to,
           wm_file_path = file_path, wm_status = status, wm_ts = ts\<rparr> (wb_messages db)\<rparr>))"

definition updateMessageStatus :: "web_db \<Rightarrow> string \<Rightarrow> string \<Rightarrow> bool \<times> web_db" where
  "updateMessageStatus db i status =
     (sql_changes (\<lambda>m. wm_id m = i) (wb_messages db) > 0,
      db\<lparr>wb_messages := sql_update (\<lambda>m. wm_id m = i) (\<lambda>m. m\<lparr>wm_status := status\<rparr>) (wb_messages db)\<rparr>)"

definition getMessageHistory :: "web_db \<Rightarrow> string \<Rightarrow> int \<Rightarrow> web_message list" where
  "getMessageHistory db agent limit =
     rev (sql_limit limit (order_desc wm_ts
       (sql_where (\<lambda>m. wm_from m = agent \<or> wm_to m = agent) (wb_messages db))))"

definition getConversation :: "web_db \<Rightarrow> string \<Rightarrow> string \<Rightarrow> int \<Rightarrow> web_message list" where
  "getConversation db agent1 agent2 limit =
     rev (sql_limit limit (order_desc wm_ts
       (sql_where (\<lambda>m. wm_from m = agent1 \<and> wm_to m = agent2 \<or> wm_from m = agent2 \<and> wm_to m = agent1)
         (wb_messages db))))"

text \<open>\<open>LIKE pattern ESCAPE '\'\<close>.\<close>

abbreviation ESC :: char where "ESC \<equiv> CHR 0x5C"

definition fold_char :: "char \<Rightarrow> char" where
  "fold_char c = (let n = of_char c :: nat in if 65 \<le> n \<and> n \<le> 90 then char_of (n + 32) else c)"

fun like :: "string \<Rightarrow> string \<Rightarrow> bool" where
  "like [] t = (t = [])"
| "like (p # ps) t =
     (if p = ESC then
        (case ps of
           [] \<Rightarrow> False
         | q # qs \<Rightarrow> (case t of [] \<Rightarrow> False | c # cs \<Rightarrow> fold_char q = fold_char c \<and> like qs cs))
      else if p = CHR ''%'' then like ps t \<or> (case t of [] \<Rightarrow> False | c # cs \<Rightarrow> like (p # ps) cs)
      else case t of
             [] \<Rightarrow> False
           | c # cs \<Rightarrow> (p = CHR ''_'' \<or> fold_char p = fold_char c) \<and> like ps cs)"

definition like_escaped :: "string \<Rightarrow> string" where
  "like_escaped query = concat (map (\<lambda>c. if c \<in> {CHR ''%'', CHR ''_''} then [ESC, c] else [c]) query)"

definition searchMessages :: "web_db \<Rightarrow> string \<Rightarrow> string \<Rightarrow> int \<Rightarrow> web_message list" where
  "searchMessages db query userLogin limit =
     sql_limit limit (order_desc wm_ts
       (sql_where (\<lambda>m. like (''%'' @ like_escaped query @ ''%'') (wm_content m) \<and>
                       (wm_from m = userLogin \<or> wm_to m = userLogin)) (wb_messages db)))"

section \<open>People who sign in with GitHub\<close>

definition wildcard_policy :: "string \<Rightarrow> web_db \<Rightarrow> web_db" where
  "wildcard_policy githubLogin db =
     db\<lparr>wb_policies := sql_insert_ignore (\<lambda>p. (wp_github_login p, wp_allowed_agent p))
          \<lparr>wp_github_login = githubLogin, wp_allowed_agent = ''*''\<rparr> (wb_policies db)\<rparr>"

definition getUser :: "web_db \<Rightarrow> int \<Rightarrow> web_user option" where
  "getUser db githubId = sql_get (\<lambda>u. wu_github_id u = githubId) (wb_users db)"

definition put_user :: "secs \<Rightarrow> int \<Rightarrow> string \<Rightarrow> string \<Rightarrow> (web_user \<Rightarrow> web_user) \<Rightarrow> web_db \<Rightarrow> web_db" where
  "put_user t githubId githubLogin role f db =
     db\<lparr>wb_users := sql_upsert wu_github_id
          \<lparr>wu_github_id = githubId, wu_github_login = githubLogin, wu_role = role, wu_created_at = t\<rparr> f (wb_users db)\<rparr>"

definition upsertUser :: "secs \<Rightarrow> web_db \<Rightarrow> int \<Rightarrow> string \<Rightarrow> web_user option \<times> web_db" where
  "upsertUser t db githubId githubLogin =
     (let isFirstUser = (wb_users db = []);
          db1 = put_user t githubId githubLogin (if isFirstUser then ''admin'' else ''member'')
                  (\<lambda>u. u\<lparr>wu_github_login := githubLogin\<rparr>) db;
          db2 = (if isFirstUser then wildcard_policy githubLogin db1 else db1)
      in (getUser db2 githubId, db2))"

definition getUserPolicies :: "web_db \<Rightarrow> string \<Rightarrow> web_policy list" where
  "getUserPolicies db githubLogin = sql_where (\<lambda>p. wp_github_login p = githubLogin) (wb_policies db)"

definition isAllowedToMessage :: "web_db \<Rightarrow> string \<Rightarrow> string \<Rightarrow> string \<Rightarrow> bool" where
  "isAllowedToMessage db githubLogin role targetAgent \<longleftrightarrow>
     role = ''admin'' \<or>
     list_ex (\<lambda>p. wp_allowed_agent p = ''*'' \<or> wp_allowed_agent p = targetAgent) (getUserPolicies db githubLogin)"

definition getPendingApproval :: "web_db \<Rightarrow> string \<Rightarrow> pending_approval option" where
  "getPendingApproval db githubLogin = sql_get (\<lambda>p. pa_github_login p = githubLogin) (wb_approvals db)"

definition createPendingApproval :: "secs \<Rightarrow> web_db \<Rightarrow> string \<Rightarrow> int \<Rightarrow> pending_approval option \<times> web_db" where
  "createPendingApproval t db githubLogin githubId =
     (let db' = db\<lparr>wb_approvals := sql_insert_ignore pa_github_login
          \<lparr>pa_github_login = githubLogin, pa_github_id = githubId, pa_requested_at = t, pa_status = ''pending''\<rparr>
          (wb_approvals db)\<rparr>
      in (getPendingApproval db' githubLogin, db'))"

definition listPendingApprovals :: "web_db \<Rightarrow> pending_approval list" where
  "listPendingApprovals db = order_asc pa_requested_at (sql_where (\<lambda>p. pa_status p = ''pending'') (wb_approvals db))"

definition decide_approval :: "string \<Rightarrow> web_db \<Rightarrow> string \<Rightarrow> bool \<times> web_db" where
  "decide_approval status db githubLogin =
     (let P = (\<lambda>p. pa_github_login p = githubLogin \<and> pa_status p = ''pending'')
      in (sql_changes P (wb_approvals db) > 0,
          db\<lparr>wb_approvals := sql_update P (\<lambda>p. p\<lparr>pa_status := status\<rparr>) (wb_approvals db)\<rparr>))"

definition approveUser :: "web_db \<Rightarrow> string \<Rightarrow> bool \<times> web_db" where
  "approveUser = decide_approval ''approved''"

definition denyUser :: "web_db \<Rightarrow> string \<Rightarrow> bool \<times> web_db" where
  "denyUser = decide_approval ''denied''"

section \<open>Push subscriptions\<close>

text \<open>\<open>INSERT OR REPLACE\<close>: the row that holds the endpoint goes.\<close>

definition savePushSubscription :: "web_db \<Rightarrow> string \<Rightarrow> string \<Rightarrow> string \<Rightarrow> string \<Rightarrow> web_db" where
  "savePushSubscription db githubLogin endpoint p256dh auth =
     db\<lparr>wb_push := sql_delete (\<lambda>s. ps_endpoint s = endpoint) (wb_push db) @
          [\<lparr>ps_github_login = githubLogin, ps_endpoint = endpoint, ps_p256dh = p256dh, ps_auth = auth\<rparr>]\<rparr>"

definition getPushSubscriptions :: "web_db \<Rightarrow> string \<Rightarrow> push_subscription list" where
  "getPushSubscriptions db githubLogin = sql_where (\<lambda>s. ps_github_login s = githubLogin) (wb_push db)"

definition deletePushSubscription :: "web_db \<Rightarrow> string \<Rightarrow> web_db" where
  "deletePushSubscription db endpoint = db\<lparr>wb_push := sql_delete (\<lambda>s. ps_endpoint s = endpoint) (wb_push db)\<rparr>"

section \<open>Local accounts\<close>

record passwords =
  pw_hash :: "string \<Rightarrow> string"
  pw_verify :: "string \<Rightarrow> string \<Rightarrow> bool"
  pw_random :: string
  pw_initial :: "string option"

definition SEED_ADMIN_USERNAME :: string where
  "SEED_ADMIN_USERNAME = ''platform-admin''"

definition LEGACY_SEED_ADMIN_USERNAME :: string where
  "LEGACY_SEED_ADMIN_USERNAME = ''admin''"

definition getLocalUser :: "web_db \<Rightarrow> string \<Rightarrow> local_user option" where
  "getLocalUser db username = sql_get (\<lambda>u. lu_username u = username) (wb_local db)"

text \<open>No row of the table is ever deleted, so the next id is one above the greatest.\<close>

definition next_local_id :: "web_db \<Rightarrow> int" where
  "next_local_id db = foldr (\<lambda>u m. max (lu_id u) m) (wb_local db) 0 + 1"

text \<open>An insert of a name that is taken throws.\<close>

definition insert_local_user ::
  "secs \<Rightarrow> web_db \<Rightarrow> string \<Rightarrow> string \<Rightarrow> string option \<Rightarrow> string \<Rightarrow> string \<Rightarrow> bool \<Rightarrow> web_db option" where
  "insert_local_user t db username passwordHash displayName role tenant flagged =
     (if sql_exists (\<lambda>u. lu_username u = username) (wb_local db) then None
      else Some (db\<lparr>wb_local := wb_local db @
        [\<lparr>lu_id = next_local_id db, lu_username = username, lu_password_hash = passwordHash,
          lu_display_name = displayName, lu_role = role, lu_created_at = t, lu_must_change_password = flagged,
          lu_tenant = tenant, lu_disabled_at = None\<rparr>]\<rparr>))"

definition createLocalUser :: "secs \<Rightarrow> web_db \<Rightarrow> string \<Rightarrow> string \<Rightarrow> string option \<Rightarrow> string option \<Rightarrow> web_db option" where
  "createLocalUser t db username passwordHash displayName role =
     insert_local_user t db username passwordHash displayName (coalesce role ''member'') ''default'' False"

definition verifyLocalUser :: "passwords \<Rightarrow> web_db \<Rightarrow> string \<Rightarrow> string \<Rightarrow> local_user option" where
  "verifyLocalUser pw db username password =
     (case getLocalUser db username of
        None \<Rightarrow> None
      | Some user \<Rightarrow> if pw_verify pw password (lu_password_hash user) then Some user else None)"

definition update_local :: "string \<Rightarrow> (local_user \<Rightarrow> local_user) \<Rightarrow> web_db \<Rightarrow> web_db" where
  "update_local username f db = db\<lparr>wb_local := sql_update (\<lambda>u. lu_username u = username) f (wb_local db)\<rparr>"

definition flag_account :: "string \<Rightarrow> web_db \<Rightarrow> web_db" where
  "flag_account username = update_local username (\<lambda>u. u\<lparr>lu_must_change_password := True\<rparr>)"

definition seed_account :: "passwords \<Rightarrow> secs \<Rightarrow> web_db \<Rightarrow> web_db" where
  "seed_account pw t db =
     (let initial = coalesce (pw_initial pw) ''admin''
      in if wb_local db = [] then
           (case createLocalUser t db SEED_ADMIN_USERNAME (pw_hash pw initial) (Some ''Platform Admin'') (Some ''admin'') of
              None \<Rightarrow> db
            | Some db1 \<Rightarrow> flag_account SEED_ADMIN_USERNAME db1)
         else (case getLocalUser db SEED_ADMIN_USERNAME of
                 None \<Rightarrow> db
               | Some admin \<Rightarrow>
                   if \<not> lu_must_change_password admin \<and> pw_verify pw initial (lu_password_hash admin)
                   then flag_account SEED_ADMIN_USERNAME db else db))"

definition seedLocalUsers :: "passwords \<Rightarrow> secs \<Rightarrow> web_db \<Rightarrow> web_db" where
  "seedLocalUsers pw t db =
     (let db1 = seed_account pw t db
      in foldl (upsertApprovedWebUser t) db1 (map lu_username (wb_local db1)))"

text \<open>
  A change of the password in its two halves: what is read and checked, and the write that follows after
  the hashing.
\<close>

datatype password_change = PwOk | PwWrongCurrent | PwNoUser

definition check_current :: "passwords \<Rightarrow> web_db \<Rightarrow> string \<Rightarrow> string \<Rightarrow> password_change" where
  "check_current pw db username current =
     (case getLocalUser db username of
        None \<Rightarrow> PwNoUser
      | Some user \<Rightarrow> if pw_verify pw current (lu_password_hash user) then PwOk else PwWrongCurrent)"

definition write_password :: "string \<Rightarrow> bool \<Rightarrow> string \<Rightarrow> web_db \<Rightarrow> web_db" where
  "write_password hash flagged username =
     update_local username (\<lambda>u. u\<lparr>lu_password_hash := hash, lu_must_change_password := flagged\<rparr>)"

definition setLocalPassword :: "passwords \<Rightarrow> web_db \<Rightarrow> string \<Rightarrow> string \<Rightarrow> string \<Rightarrow> password_change \<times> web_db" where
  "setLocalPassword pw db username current new =
     (case check_current pw db username current of
        PwOk \<Rightarrow> (PwOk, write_password (pw_hash pw new) False username db)
      | r \<Rightarrow> (r, db))"

definition mustChangePassword :: "web_db \<Rightarrow> string \<Rightarrow> bool" where
  "mustChangePassword db username =
     (case getLocalUser db username of None \<Rightarrow> False | Some u \<Rightarrow> lu_must_change_password u)"

definition issueTemporaryPassword :: "passwords \<Rightarrow> web_db \<Rightarrow> string \<Rightarrow> string option \<times> web_db" where
  "issueTemporaryPassword pw db username =
     (case getLocalUser db username of
        None \<Rightarrow> (None, db)
      | Some u \<Rightarrow> (Some (pw_random pw), write_password (pw_hash pw (pw_random pw)) True username db))"

definition admitLocalUser ::
  "passwords \<Rightarrow> secs \<Rightarrow> web_db \<Rightarrow> string \<Rightarrow> string option \<Rightarrow> string option \<Rightarrow> string option \<Rightarrow>
   (local_user \<times> string \<times> web_db) option" where
  "admitLocalUser pw t db username displayName tenant role =
     (case insert_local_user t db username (pw_hash pw (pw_random pw)) displayName (coalesce role ''member'')
             (coalesce tenant ''default'') True of
        None \<Rightarrow> None
      | Some db1 \<Rightarrow>
          (let db2 = upsertApprovedWebUser t db1 username
           in case getLocalUser db2 username of None \<Rightarrow> None | Some u \<Rightarrow> Some (u, pw_random pw, db2)))"

definition listLocalUsers :: "web_db \<Rightarrow> local_user list" where
  "listLocalUsers db = order_asc lu_username (wb_local db)"

definition setLocalUserDisabled :: "secs \<Rightarrow> web_db \<Rightarrow> string \<Rightarrow> bool \<Rightarrow> bool \<times> web_db" where
  "setLocalUserDisabled t db username disabled =
     (if sql_changes (\<lambda>u. lu_username u = username) (wb_local db) = 0 then (False, db)
      else (True, (update_local username (\<lambda>u. u\<lparr>lu_disabled_at := (if disabled then Some t else None)\<rparr>) db)
        \<lparr>wb_registry := sql_update (\<lambda>a. rr_id a = username)
           (\<lambda>a. a\<lparr>rr_approved := \<not> disabled, rr_updated_at := t\<rparr>) (wb_registry db)\<rparr>))"

definition localUserIsDisabled :: "web_db \<Rightarrow> string \<Rightarrow> bool" where
  "localUserIsDisabled db username =
     (case getLocalUser db username of None \<Rightarrow> False | Some u \<Rightarrow> lu_disabled_at u \<noteq> None)"

section \<open>What the writes keep\<close>

named_theorems web_defs "the writes of the web database"

declare upsertApprovedWebUser_def [web_defs] admitRegistryAgent_def [web_defs] wildcard_policy_def [web_defs]
  put_user_def [web_defs] updateMessageStatus_def [web_defs] createPendingApproval_def [web_defs]
  decide_approval_def [web_defs] approveUser_def [web_defs] denyUser_def [web_defs]
  savePushSubscription_def [web_defs] deletePushSubscription_def [web_defs] update_local_def [web_defs]
  flag_account_def [web_defs] write_password_def [web_defs] approve_row_def [web_defs]

lemma web_pk_init: "web_pk web_db_init"
  by (simp add: web_pk_def web_db_init_def)

lemma next_local_id_above:
  assumes "u \<in> set (wb_local db)"
  shows "lu_id u < next_local_id db"
proof -
  have "x \<in> set us \<Longrightarrow> lu_id x \<le> foldr (\<lambda>u m. max (lu_id u) m) us 0" for x :: local_user and us
    by (induction us) auto
  from this [OF assms] show ?thesis by (simp add: next_local_id_def)
qed

lemma upsert_web_user_pk [mesh_inv]: "web_pk db \<Longrightarrow> web_pk (upsertApprovedWebUser t db u)"
  by (simp add: web_pk_def web_defs sql_upsert_unique)

lemma admit_registry_pk [mesh_inv]: "web_pk db \<Longrightarrow> web_pk (admitRegistryAgent t db i d ty)"
  by (simp add: web_pk_def web_defs sql_upsert_unique)

lemma update_local_pk [mesh_inv]:
  assumes "\<And>u. lu_username (f u) = lu_username u" "\<And>u. lu_id (f u) = lu_id u" "web_pk db"
  shows "web_pk (update_local username f db)"
  using assms by (simp add: web_pk_def update_local_def sql_unique_update)

lemma insert_local_user_pk [mesh_inv]:
  assumes "web_pk db" "insert_local_user t db u h d r tn fl = Some db'"
  shows "web_pk db'"
proof -
  have "lu_id x \<noteq> next_local_id db" if "x \<in> set (wb_local db)" for x
    using next_local_id_above [OF that] by simp
  then have "next_local_id db \<notin> lu_id ` set (wb_local db)" by (metis imageE)
  with assms show ?thesis
    by (auto simp: web_pk_def insert_local_user_def sql_simps split: if_splits)
qed

lemma upsertUser_pk [mesh_inv]: "web_pk db \<Longrightarrow> web_pk (snd (upsertUser t db i l))"
  by (simp add: upsertUser_def Let_def web_pk_def web_defs sql_upsert_unique sql_insert_ignore_unique)

lemma approval_pk [mesh_inv]:
  "web_pk db \<Longrightarrow> web_pk (snd (createPendingApproval t db l i))"
  "web_pk db \<Longrightarrow> web_pk (snd (decide_approval st db l))"
  by (simp_all add: web_pk_def web_defs Let_def sql_insert_ignore_unique sql_unique_update)

lemma push_pk [mesh_inv]:
  "web_pk db \<Longrightarrow> web_pk (savePushSubscription db l e p a)"
  "web_pk db \<Longrightarrow> web_pk (deletePushSubscription db e)"
  by (auto simp: web_pk_def web_defs sql_unique_delete sql_simps)

lemma message_pk [mesh_inv]:
  "web_pk db \<Longrightarrow> insertMessage db i s r c rt fp st ts = Some db' \<Longrightarrow> web_pk db'"
  "web_pk db \<Longrightarrow> web_pk (snd (updateMessageStatus db i st))"
  by (auto simp: web_pk_def insertMessage_def web_defs sql_insert_ignore_unique sql_unique_update split: option.splits)

lemma seed_account_pk [mesh_inv]: "web_pk db \<Longrightarrow> web_pk (seed_account pw t db)"
  by (auto simp: seed_account_def Let_def createLocalUser_def flag_account_def
      intro!: update_local_pk intro: insert_local_user_pk split: option.splits)

lemma seed_local_users_pk [mesh_inv]: "web_pk db \<Longrightarrow> web_pk (seedLocalUsers pw t db)"
proof -
  have "web_pk d \<Longrightarrow> web_pk (foldl (upsertApprovedWebUser t) d us)" for d us
    by (induction us arbitrary: d) (simp_all add: upsert_web_user_pk)
  then show "web_pk db \<Longrightarrow> ?thesis"
    by (simp add: seedLocalUsers_def Let_def seed_account_pk)
qed

lemma set_disabled_pk [mesh_inv]: "web_pk db \<Longrightarrow> web_pk (snd (setLocalUserDisabled t db u d))"
  by (auto simp: setLocalUserDisabled_def web_pk_def update_local_def sql_unique_update)

lemma password_pk [mesh_inv]:
  "web_pk db \<Longrightarrow> web_pk (snd (setLocalPassword pw db u c n))"
  "web_pk db \<Longrightarrow> web_pk (snd (issueTemporaryPassword pw db u))"
  by (auto simp: setLocalPassword_def issueTemporaryPassword_def write_password_def
      intro!: update_local_pk split: password_change.splits option.splits)

lemma admit_local_user_pk [mesh_inv]:
  "web_pk db \<Longrightarrow> admitLocalUser pw t db u d tn r = Some (a, p, db') \<Longrightarrow> web_pk db'"
  by (auto simp: admitLocalUser_def Let_def intro: insert_local_user_pk upsert_web_user_pk split: option.splits)

lemma import_legacy_pk [mesh_inv]:
  assumes "web_pk db" "importLegacyRegistry t file db = Some db'"
  shows "web_pk db'"
proof -
  have "sql_unique rr_id rs \<Longrightarrow> sql_unique rr_id (foldl (\<lambda>rs r. sql_insert_ignore rr_id r rs) rs xs)" for rs xs
    by (induction xs arbitrary: rs) (simp_all add: sql_insert_ignore_unique)
  with assms show ?thesis
    by (auto simp: importLegacyRegistry_def web_pk_def Let_def split: if_splits option.splits json.splits)
qed

section \<open>The search\<close>

definition folded :: "string \<Rightarrow> string" where
  "folded s = map fold_char s"

text \<open>A pattern with no special characters but the last \<open>%\<close> is a prefix test.\<close>

lemma like_percent_end: "like [CHR ''%''] t"
  by (induction t) simp_all

lemma like_escaped_prefix:
  "ESC \<notin> set q \<Longrightarrow> like (like_escaped q @ [CHR ''%'']) t \<longleftrightarrow> (\<exists>s. folded t = folded q @ s)"
proof (induction q arbitrary: t)
  case Nil
  then show ?case by (simp add: like_escaped_def folded_def like_percent_end del: like.simps)
next
  case (Cons c q)
  have c: "c \<noteq> ESC" and q: "ESC \<notin> set q" using Cons.prems by auto
  have split: "like_escaped (c # q) @ [CHR ''%''] =
      (if c \<in> {CHR ''%'', CHR ''_''} then [ESC, c] else [c]) @ (like_escaped q @ [CHR ''%''])"
    by (simp add: like_escaped_def)
  show ?case
  proof (cases t)
    case Nil
    with c show ?thesis unfolding split by (auto simp: folded_def)
  next
    case (Cons d ds)
    have "like (like_escaped (c # q) @ [CHR ''%'']) t \<longleftrightarrow>
        fold_char c = fold_char d \<and> like (like_escaped q @ [CHR ''%'']) ds"
      using c Cons unfolding split by auto
    then show ?thesis using Cons.IH [OF q, of ds] Cons by (auto simp: folded_def)
  qed
qed

lemma like_anywhere: "like (CHR ''%'' # p) t \<longleftrightarrow> (\<exists>a b. t = a @ b \<and> like p b)"
proof (induction t)
  case Nil
  then show ?case by simp
next
  case (Cons c cs)
  have "like (CHR ''%'' # p) (c # cs) \<longleftrightarrow> like p (c # cs) \<or> like (CHR ''%'' # p) cs" by simp
  also have "\<dots> \<longleftrightarrow> (\<exists>a b. c # cs = a @ b \<and> like p b)"
    unfolding Cons.IH by (auto simp: Cons_eq_append_conv)
  finally show ?case .
qed

lemma like_contains:
  assumes "ESC \<notin> set q"
  shows "like (''%'' @ like_escaped q @ ''%'') t \<longleftrightarrow> (\<exists>a b. folded t = a @ folded q @ b)"
proof
  assume "like (''%'' @ like_escaped q @ ''%'') t"
  then obtain a b where "t = a @ b" "like (like_escaped q @ ''%'') b"
    by (auto simp: like_anywhere simp del: like.simps)
  then show "\<exists>a b. folded t = a @ folded q @ b"
    using like_escaped_prefix [OF assms, of b] by (auto simp: folded_def)
next
  assume "\<exists>a b. folded t = a @ folded q @ b"
  then obtain a b where ab: "folded t = a @ folded q @ b" by blast
  have "folded (drop (length a) t) = folded q @ b" using ab by (simp add: folded_def drop_map [symmetric])
  then have "like (like_escaped q @ ''%'') (drop (length a) t)" using like_escaped_prefix [OF assms] by blast
  moreover have "t = take (length a) t @ drop (length a) t" by simp
  ultimately show "like (''%'' @ like_escaped q @ ''%'') t"
    using like_anywhere [of "like_escaped q @ ''%''" t] by (metis append_Cons append_Nil)
qed

text \<open>
  for a query without a backslash, the search answers the messages the caller sent or received whose
  content holds the query as written, upper and lower case alike: the percent signs and underscores of the
  query stand for themselves. The order is the newest first and the number is bounded by the limit.
\<close>

theorem search_is_exact:
  assumes "ESC \<notin> set query"
  shows "searchMessages db query user limit =
    sql_limit limit (order_desc wm_ts (filter (\<lambda>m. (\<exists>a b. folded (wm_content m) = a @ folded query @ b) \<and>
      (wm_from m = user \<or> wm_to m = user)) (wb_messages db)))"
  unfolding searchMessages_def sql_where_def like_contains [OF assms] by (rule refl)

theorem search_is_exact_witness:
  "searchMessages (web_db_init\<lparr>wb_messages :=
      [\<lparr>wm_id = ''1'', wm_from = ''a'', wm_to = ''b'', wm_content = ''A_b'', wm_reply_to = None, wm_file_path = None,
        wm_status = ''read'', wm_ts = ''t''\<rparr>]\<rparr>) ''_B'' ''a'' 5 =
    sql_limit 5 (order_desc wm_ts (filter (\<lambda>m. (\<exists>a b. folded (wm_content m) = a @ folded ''_B'' @ b) \<and>
      (wm_from m = ''a'' \<or> wm_to m = ''a''))
        [\<lparr>wm_id = ''1'', wm_from = ''a'', wm_to = ''b'', wm_content = ''A_b'', wm_reply_to = None, wm_file_path = None,
          wm_status = ''read'', wm_ts = ''t''\<rparr>]))"
  using search_is_exact [of "''_B''" "web_db_init\<lparr>wb_messages :=
      [\<lparr>wm_id = ''1'', wm_from = ''a'', wm_to = ''b'', wm_content = ''A_b'', wm_reply_to = None, wm_file_path = None,
        wm_status = ''read'', wm_ts = ''t''\<rparr>]\<rparr>" "''a''" 5] by simp

text \<open>A query that ends in a backslash finds nothing: its escape takes the last percent sign.\<close>

lemma search_loses_a_backslash:
  "searchMessages (web_db_init\<lparr>wb_messages :=
      [\<lparr>wm_id = ''1'', wm_from = ''a'', wm_to = ''b'', wm_content = [CHR ''C'', ESC], wm_reply_to = None,
        wm_file_path = None, wm_status = ''read'', wm_ts = ''t''\<rparr>]\<rparr>) [ESC] ''a'' 5 = []"
  by (simp add: searchMessages_def sql_where_def like_escaped_def web_db_init_def sql_limit_def order_desc_def fold_char_def)

section \<open>Accounts and the registry\<close>

lemma getLocalUser_update [sql_simps]:
  assumes "\<And>u. lu_username (f u) = lu_username u"
  shows "getLocalUser (update_local n f db) u = map_option (\<lambda>x. if u = n then f x else x) (getLocalUser db u)"
proof (cases "getLocalUser db u")
  case None
  then show ?thesis by (simp add: getLocalUser_def update_local_def sql_get_update_key assms)
next
  case (Some x)
  then have "lu_username x = u" by (auto simp: getLocalUser_def dest: sql_get_SomeD)
  with Some show ?thesis by (auto simp: getLocalUser_def update_local_def sql_get_update_key assms)
qed

lemma getLocalUser_upsert_registry [sql_simps]: "getLocalUser (upsertApprovedWebUser t db v) u = getLocalUser db u"
  by (simp add: getLocalUser_def upsertApprovedWebUser_def)

lemma upsert_approves: "isRegistryAgentApproved (upsertApprovedWebUser t db u) u"
  by (simp add: isRegistryAgentApproved_def getRegistryAgent_def upsertApprovedWebUser_def approve_row_def
      sql_get_upsert split: option.split)

lemma upsert_keeps_approved:
  "isRegistryAgentApproved db v \<Longrightarrow> isRegistryAgentApproved (upsertApprovedWebUser t db u) v"
  by (auto simp: isRegistryAgentApproved_def getRegistryAgent_def upsertApprovedWebUser_def approve_row_def
      sql_get_upsert split: option.splits)

lemma seeding_approves:
  "v \<in> set us \<or> isRegistryAgentApproved db v \<Longrightarrow>
     isRegistryAgentApproved (foldl (upsertApprovedWebUser t) db us) v"
  by (induction us arbitrary: db) (auto intro: upsert_approves upsert_keeps_approved)

lemma seeding_keeps_local: "wb_local (foldl (upsertApprovedWebUser t) db us) = wb_local db"
  by (induction us arbitrary: db) (simp_all add: upsertApprovedWebUser_def)

lemma getLocalUser_in: "getLocalUser db u = Some x \<Longrightarrow> x \<in> set (wb_local db) \<and> lu_username x = u"
  by (auto simp: getLocalUser_def dest: sql_get_SomeD)

text \<open>The first step of the seeding touches the table only to add the first account or to set a flag.\<close>

lemma seed_account_local:
  assumes "wb_local db \<noteq> []"
  shows "seed_account pw t db = db \<or> seed_account pw t db = flag_account SEED_ADMIN_USERNAME db"
  using assms by (auto simp: seed_account_def Let_def split: option.splits)

lemma disabled_flag [sql_simps]: "localUserIsDisabled (flag_account n db) u = localUserIsDisabled db u"
  by (auto simp: localUserIsDisabled_def flag_account_def sql_simps split: option.splits)

lemma disabled_write_password [sql_simps]: "localUserIsDisabled (write_password h fl n db) u = localUserIsDisabled db u"
  by (auto simp: localUserIsDisabled_def write_password_def sql_simps split: option.splits)

lemma disabled_seeding [sql_simps]:
  assumes "wb_local db \<noteq> []"
  shows "localUserIsDisabled (seedLocalUsers pw t db) u = localUserIsDisabled db u"
proof -
  have "localUserIsDisabled (foldl (upsertApprovedWebUser t) d us) u = localUserIsDisabled d u" for d us
    by (simp add: localUserIsDisabled_def getLocalUser_def seeding_keeps_local)
  with seed_account_local [OF assms, of pw t] show ?thesis
    by (auto simp: seedLocalUsers_def Let_def disabled_flag)
qed

lemma seeded_names:
  assumes "wb_local db \<noteq> []"
  shows "map lu_username (wb_local (seed_account pw t db)) = map lu_username (wb_local db)"
  using seed_account_local [OF assms, of pw t]
  by (auto simp: flag_account_def update_local_def map_key_sql_update)

text \<open>
  deactivating an account takes its approval in the registry away, and the next start of the server
  gives it back: the seeding upserts the registry row of every local account as approved, the deactivated
  ones included, while the account itself stays deactivated.
\<close>

theorem a_restart_readmits_a_deactivated_account:
  assumes "getLocalUser db u = Some a"
  shows "\<not> isRegistryAgentApproved (snd (setLocalUserDisabled t db u True)) u \<and>
    localUserIsDisabled (seedLocalUsers pw t' (snd (setLocalUserDisabled t db u True))) u \<and>
    isRegistryAgentApproved (seedLocalUsers pw t' (snd (setLocalUserDisabled t db u True))) u"
proof -
  let ?d = "snd (setLocalUserDisabled t db u True)"
  have a: "a \<in> set (wb_local db)" "lu_username a = u" using getLocalUser_in [OF assms] by auto
  then have d: "?d = (update_local u (\<lambda>x. x\<lparr>lu_disabled_at := Some t\<rparr>) db)
      \<lparr>wb_registry := sql_update (\<lambda>r. rr_id r = u) (\<lambda>r. r\<lparr>rr_approved := False, rr_updated_at := t\<rparr>) (wb_registry db)\<rparr>"
    using sql_changes_zero [of "\<lambda>x. lu_username x = u" "wb_local db"] by (auto simp: setLocalUserDisabled_def)
  have off: "\<not> isRegistryAgentApproved ?d u"
    unfolding d by (cases "sql_get (\<lambda>r. rr_id r = u) (wb_registry db)")
      (auto simp: isRegistryAgentApproved_def getRegistryAgent_def sql_get_update_key dest: sql_get_SomeD)
  have "getLocalUser ?d u = Some (a\<lparr>lu_disabled_at := Some t\<rparr>)"
    using assms getLocalUser_update [of "\<lambda>x. x\<lparr>lu_disabled_at := Some t\<rparr>" u db u]
    unfolding d by (simp add: getLocalUser_def)
  then have dis: "localUserIsDisabled ?d u" by (simp add: localUserIsDisabled_def)
  have names: "map lu_username (wb_local ?d) = map lu_username (wb_local db)"
    unfolding d by (simp add: update_local_def map_key_sql_update)
  have u: "u \<in> set (map lu_username (wb_local ?d))" unfolding names using a by auto
  then have ne: "wb_local ?d \<noteq> []" by auto
  have "isRegistryAgentApproved (seedLocalUsers pw t' ?d) u"
    unfolding seedLocalUsers_def Let_def by (rule seeding_approves) (metis u seeded_names [OF ne])
  with off dis show ?thesis by (simp add: disabled_seeding [OF ne])
qed

definition one_account :: web_db where
  "one_account = web_db_init\<lparr>wb_local := [\<lparr>lu_id = 1, lu_username = ''kim'', lu_password_hash = ''h'', lu_display_name = None,
     lu_role = ''member'', lu_created_at = 0, lu_must_change_password = False, lu_tenant = ''default'',
     lu_disabled_at = None\<rparr>]\<rparr>"

definition plain_passwords :: passwords where
  "plain_passwords = \<lparr>pw_hash = (\<lambda>p. p), pw_verify = (=), pw_random = ''r'', pw_initial = None\<rparr>"

theorem a_restart_readmits_a_deactivated_account_witness:
  "isRegistryAgentApproved (seedLocalUsers plain_passwords 9 (snd (setLocalUserDisabled 5 one_account ''kim'' True))) ''kim''"
proof -
  have "getLocalUser one_account ''kim'' = Some (hd (wb_local one_account))"
    by (simp add: getLocalUser_def one_account_def)
  from a_restart_readmits_a_deactivated_account [OF this] show ?thesis by blast
qed

end
