(* ===== verification/Web_Session.thy ===== *)
theory Web_Session
  imports Web_Store Store_Tenants Store_Groups Store_Grants Store_Ownership Store_Keys Hub_Db
begin

text \<open>
  The web server's sessions: of \<open>packages/http/src/main.ts\<close> the sign-in routes, the reading of a session from
  a request, the gate for accounts that must change their password, the change itself, \<open>/auth/me\<close> and the
  checks that every route of the console starts with; and \<open>packages/http/src/auth.ts\<close>.

  A route is a function of the environment, the state and the request to the answer and the state. The state
  is the databases that the process has open, the link to the hub with the messages that wait for an answer,
  the streams that are held open, and the list of what the process has sent. A handler that
  throws is answered by \<open>answerUnhandled\<close>; what it wrote before is kept.

  Parameters: the signing and verifying of a token and the routing and parsing of a request (hono), GitHub's
  two answers, and the names of the capabilities and the pattern of an identity (contracts). A verified token
  has the fields that the server signs. The form parser's result is the JSON object of its fields. Headers,
  cross-origin rules and log lines are not modelled.

  Its properties are in \<open>Web_Console_Facts\<close>, \<open>Web_Console_Runs\<close> and \<open>Web_Console_Grants\<close>, which reason about every
  route at once.
\<close>

section \<open>State, environment, request and answer\<close>

record jwt_payload =
  jp_github_id :: int
  jp_github_login :: string
  jp_role :: string
  jp_iat :: secs
  jp_exp :: secs

datatype capability =
    USER_ADMIT | ROLE_GRANT | KEY_APPROVE | AGENT_PROVISION | AGENT_TEARDOWN | GROUP_MANAGE | TENANT_READ_STATS
  | SOURCE_READ | MAILBOX_READ_DEPTH | AUDIT_READ_METADATA | AUDIT_READ_CONTENT | REMINDER_READ_HELD
  | REMINDER_DECIDE | USAGE_READ

record web_env =
  we_now :: millis
  we_passwords :: passwords
  we_sign :: "jwt_payload \<Rightarrow> string"
  we_verify :: "string \<Rightarrow> jwt_payload option"
  we_exchange :: "string \<Rightarrow> string + string"
  we_github :: "string \<Rightarrow> string + (int \<times> string)"
  we_cap :: "capability \<Rightarrow> string"
  we_caps :: "string list"
  we_legacy :: "string list"
  we_wide :: string
  we_identity :: "string \<Rightarrow> bool"
  we_uuid :: "nat \<Rightarrow> string"
  we_draws :: "nat \<Rightarrow> 32 word"
  we_pairing_ttl :: json
  we_notify :: "string option"
  we_hub_up :: bool
  we_hub_identity :: string
  we_date :: "string \<Rightarrow> millis option"
  we_hub_throws :: bool
  we_exists :: "string \<Rightarrow> bool"
  we_hex :: string
  we_vapid :: bool
  we_sha256 :: "string \<Rightarrow> string"
  we_event_id :: string
  we_audit_up :: bool

record web_request =
  wq_authorization :: "string option"
  wq_cookie :: "string option"
  wq_content_type :: "string option"
  wq_accept :: "string option"
  wq_forwarded_proto :: "string option"
  wq_forwarded_for :: "string option"
  wq_real_ip :: "string option"
  wq_protocol :: string
  wq_path :: string
  wq_text :: string
  wq_form :: json
  wq_queries :: "(string \<times> string) list"
  wq_param :: "string \<Rightarrow> string"

definition wq_query :: "web_request \<Rightarrow> string \<Rightarrow> string option" where
  "wq_query q k = map_of (wq_queries q) k"

record web_answer =
  an_status :: int
  an_body :: json
  an_location :: "string option"
  an_cookie :: "string option"

text \<open>What the process asks of others and what it writes to the streams it holds open.\<close>

datatype web_effect =
    HubSend string string string
  | HubMessage string string string "json option" int
  | HubProvision string string string
  | HubConnect string "string list"
  | StreamFrame nat string json
  | AuditFrame nat json
  | PushNotice string string string
  | Reply nat web_answer

text \<open>A message as its route builds it, and one that waits for the hub's answer: the link it went over, its request
  id and its handler.\<close>

record chat_message =
  cm_id :: string
  cm_from :: string
  cm_to :: string
  cm_ts :: string
  cm_content :: string
  cm_reply_to :: "json option"
  cm_file_path :: "string option"

record pending_send =
  sd_link :: nat
  sd_req :: int
  sd_handle :: nat
  sd_msg :: chat_message

record audit_watcher =
  aw_stream :: nat
  aw_from :: "string option"
  aw_to :: "string option"
  aw_search :: "string option"

record web =
  w_db :: web_db
  w_agents :: agents_db
  w_hub :: hub_db
  w_audit :: audit_db
  w_reminders :: "reminder_db option"
  w_link :: nat
  w_issued :: nat
  w_sends :: "pending_send list"
  w_streams :: "(string \<times> nat) list"
  w_watchers :: "audit_watcher list"
  w_recent :: "string list"
  w_seen :: "(secs \<times> string) option"
  w_out :: "web_effect list"

text \<open>A server that has just started over two databases.\<close>

definition fresh_web :: "web_db \<Rightarrow> agents_db \<Rightarrow> web" where
  "fresh_web d m =
     \<lparr>w_db = d, w_agents = m, w_hub = hub_db_init, w_audit = audit_db_init, w_reminders = None, w_link = 0, w_issued = 0,
      w_sends = [], w_streams = [], w_watchers = [], w_recent = [], w_seen = None, w_out = []\<rparr>"

type_synonym route = "web_env \<Rightarrow> web \<Rightarrow> web_request \<Rightarrow> web_answer \<times> web"

abbreviation web_secs :: "web_env \<Rightarrow> secs" where
  "web_secs env \<equiv> sql_now (we_now env)"

definition c_json :: "int \<Rightarrow> json \<Rightarrow> web_answer" where
  "c_json status body = \<lparr>an_status = status, an_body = body, an_location = None, an_cookie = None\<rparr>"

definition c_redirect :: "string \<Rightarrow> web_answer" where
  "c_redirect loc = \<lparr>an_status = 302, an_body = JNull, an_location = Some loc, an_cookie = None\<rparr>"

definition c_error :: "int \<Rightarrow> string \<Rightarrow> web_answer" where
  "c_error status msg = c_json status (JObj [(''error'', JStr msg)])"

definition c_fail :: "int \<Rightarrow> string \<Rightarrow> web_answer" where
  "c_fail status msg = c_json status (JObj [(''ok'', JBool False), (''error'', JStr msg)])"

definition c_coded :: "int \<Rightarrow> string \<Rightarrow> string \<Rightarrow> (string \<times> json) list \<Rightarrow> web_answer" where
  "c_coded status msg code extra =
     c_json status (JObj ([(''ok'', JBool False), (''error'', JStr msg), (''code'', JStr code)] @ extra))"

definition answerUnhandled :: web_answer where
  "answerUnhandled = c_error 500 ''Internal server error''"

definition opt_secs :: "secs option \<Rightarrow> json" where
  "opt_secs x = (case x of None \<Rightarrow> JNull | Some s \<Rightarrow> JStr (sql_time s))"

definition starts_with :: "string \<Rightarrow> string \<Rightarrow> bool" where
  "starts_with p s \<longleftrightarrow> take (length p) s = p"

definition has_text :: "string \<Rightarrow> string \<Rightarrow> bool" where
  "has_text p s \<longleftrightarrow> list_ex (\<lambda>n. starts_with p (drop n s)) [0..<Suc (length s)]"

section \<open>The session of a request\<close>

definition sessionIsRefused :: "web \<Rightarrow> jwt_payload \<Rightarrow> bool" where
  "sessionIsRefused w payload = localUserIsDisabled (w_db w) (jp_github_login payload)"

definition session_of_token :: "web_env \<Rightarrow> web \<Rightarrow> string \<Rightarrow> jwt_payload option" where
  "session_of_token env w token =
     (case we_verify env token of
        None \<Rightarrow> None
      | Some payload \<Rightarrow> if sessionIsRefused w payload then None else Some payload)"

definition extractJwt :: "web_env \<Rightarrow> web \<Rightarrow> web_request \<Rightarrow> jwt_payload option" where
  "extractJwt env w q =
     (case wq_authorization q of
        Some h \<Rightarrow>
          if starts_with ''Bearer '' h then session_of_token env w (drop 7 h)
          else (case wq_cookie q of
                  None \<Rightarrow> None
                | Some t \<Rightarrow> if t = [] then None else session_of_token env w t)
      | None \<Rightarrow>
          (case wq_cookie q of
             None \<Rightarrow> None
           | Some t \<Rightarrow> if t = [] then None else session_of_token env w t))"

definition isUserApproved :: "web_db \<Rightarrow> string \<Rightarrow> string \<Rightarrow> bool" where
  "isUserApproved db githubLogin role \<longleftrightarrow>
     role = ''admin'' \<or> isRegistryAgentApproved db githubLogin \<or>
     (case getPendingApproval db githubLogin of None \<Rightarrow> False | Some p \<Rightarrow> pa_status p = ''approved'')"

definition requireCapability ::
  "web_env \<Rightarrow> web \<Rightarrow> web_request \<Rightarrow> capability \<Rightarrow> string \<Rightarrow> web_answer + string" where
  "requireCapability env w q cap scope =
     (case extractJwt env w q of
        None \<Rightarrow> Inl (c_error 401 ''Unauthorized'')
      | Some payload \<Rightarrow>
          if has_cap (we_wide env) (w_agents w) (jp_github_login payload) (we_cap env cap) scope DEFAULT_TENANT
          then Inr (jp_github_login payload)
          else Inl (c_json 403 (JObj [(''error'', JStr (''Missing capability: '' @ we_cap env cap)),
                      (''capability'', JStr (we_cap env cap)), (''scope'', JStr scope)])))"

definition requireCapabilityAnyScope ::
  "web_env \<Rightarrow> web \<Rightarrow> web_request \<Rightarrow> capability \<Rightarrow> web_answer + string" where
  "requireCapabilityAnyScope env w q cap =
     (case extractJwt env w q of
        None \<Rightarrow> Inl (c_error 401 ''Unauthorized'')
      | Some payload \<Rightarrow>
          if hasAny (w_agents w) (jp_github_login payload) (we_cap env cap) DEFAULT_TENANT
          then Inr (jp_github_login payload)
          else Inl (c_json 403 (JObj [(''error'', JStr (''Missing capability: '' @ we_cap env cap)),
                      (''capability'', JStr (we_cap env cap)), (''scope'', JStr ''any'')])))"

section \<open>Administrators\<close>

definition administratorLogins :: "web_db \<Rightarrow> string list" where
  "administratorLogins db =
     sort (remdups (map wu_github_login (sql_where (\<lambda>u. wu_role u = ''admin'') (wb_users db)) @
                    map lu_username (sql_where (\<lambda>u. lu_role u = ''admin'') (wb_local db))))"

definition protectedSubjects :: "web_db \<Rightarrow> string list" where
  "protectedSubjects = administratorLogins"

text \<open>A name that is not in the vocabulary would throw and end the loop.\<close>

fun seed_grants :: "web_env \<Rightarrow> (string \<times> string) list \<Rightarrow> agents_db \<Rightarrow> agents_db" where
  "seed_grants env [] db = db"
| "seed_grants env ((login, capname) # rest) db =
     (case grant_cap (we_caps env) (we_wide env) (web_secs env) db None login capname None ''legacy-admin-role'' of
        Inl _ \<Rightarrow> db
      | Inr db' \<Rightarrow> seed_grants env rest db')"

definition seedLegacyAdminGrants :: "web_env \<Rightarrow> web \<Rightarrow> web" where
  "seedLegacyAdminGrants env w =
     w\<lparr>w_agents := seed_grants env
         (concat (map (\<lambda>login. map (Pair login) (we_legacy env)) (protectedSubjects (w_db w)))) (w_agents w)\<rparr>"

definition requirePlatformAdmin :: "web_env \<Rightarrow> web \<Rightarrow> web_request \<Rightarrow> web_answer + string" where
  "requirePlatformAdmin env w q =
     (case extractJwt env w q of
        None \<Rightarrow> Inl (c_error 401 ''Unauthorized'')
      | Some payload \<Rightarrow>
          if jp_github_login payload \<in> set (administratorLogins (w_db w)) then Inr (jp_github_login payload)
          else Inl (c_coded 403 ''managing tenants is reserved to the platform administrator'' ''PLATFORM_ADMIN_ONLY'' []))"

definition tenantOfSession :: "web_db \<Rightarrow> string \<Rightarrow> string" where
  "tenantOfSession db actor = (case getLocalUser db actor of None \<Rightarrow> DEFAULT_TENANT | Some u \<Rightarrow> lu_tenant u)"

definition tenantForWrite :: "web \<Rightarrow> string \<Rightarrow> json option \<Rightarrow> web_answer + string" where
  "tenantForWrite w actor named =
     (let mine = tenantOfSession (w_db w) actor;
          tenant = (case as_string named of None \<Rightarrow> mine | Some t \<Rightarrow> t)
      in if tenant \<noteq> mine \<and> actor \<notin> set (administratorLogins (w_db w)) then
           Inl (c_coded 403 (''that is not your tenant; yours is '' @ quoted mine) ''TENANT_NOT_YOURS''
                  [(''tenant'', JStr mine)])
         else if \<not> tenantIsOpen (w_agents w) tenant then
           Inl (c_coded 400 (''no such tenant: '' @ tenant) ''NO_SUCH_TENANT'' [])
         else Inr tenant)"

section \<open>Signing in and out\<close>

definition THIRTY_DAYS :: int where
  "THIRTY_DAYS = 60 * 60 * 24 * 30"

definition signJwt :: "web_env \<Rightarrow> int \<Rightarrow> string \<Rightarrow> string \<Rightarrow> string" where
  "signJwt env github_id github_login role =
     we_sign env \<lparr>jp_github_id = github_id, jp_github_login = github_login, jp_role = role, jp_iat = web_secs env,
       jp_exp = web_secs env + THIRTY_DAYS\<rparr>"

definition sessionCookie :: "web_request \<Rightarrow> string \<Rightarrow> int \<Rightarrow> string" where
  "sessionCookie q jwt maxAge =
     ''mesh_token='' @ jwt @ ''; Path=/; Max-Age='' @ int_text maxAge @ ''; SameSite=Lax'' @
     (if coalesce (wq_forwarded_proto q) (wq_protocol q) = ''https'' then ''; Secure'' else [])"

definition holdSessionCookie :: "string \<Rightarrow> web_answer \<Rightarrow> web_answer" where
  "holdSessionCookie cookie a = a\<lparr>an_cookie := Some cookie\<rparr>"

definition is_json :: "string option \<Rightarrow> bool" where
  "is_json h = has_text ''application/json'' (coalesce h [])"

definition sign_in_failure :: "bool \<Rightarrow> int \<Rightarrow> string \<Rightarrow> string \<Rightarrow> web_answer" where
  "sign_in_failure wantsJson status msg redirect =
     (if wantsJson then c_fail status msg else c_redirect redirect)"

definition sign_in_body :: "web_request \<Rightarrow> json" where
  "sign_in_body q =
     (let parsed = (if is_json (wq_content_type q) then coalesce (json_parse (wq_text q)) JNull else wq_form q)
      in if is_object parsed then parsed else JObj [])"

definition signed_in_user :: "secs \<Rightarrow> local_user \<Rightarrow> web_db \<Rightarrow> web_db" where
  "signed_in_user t user db =
     wildcard_policy (lu_username user)
       (put_user t (- lu_id user) (lu_username user) (lu_role user)
          (\<lambda>u. u\<lparr>wu_github_login := lu_username user, wu_role := lu_role user\<rparr>) db)"

definition sign_in_answer :: "web_db \<Rightarrow> local_user \<Rightarrow> web_answer" where
  "sign_in_answer db user =
     c_json 200 (JObj [(''ok'', JBool True),
       (''user'', JObj [(''github_id'', JInt (- lu_id user)), (''github_login'', JStr (lu_username user)),
                        (''role'', JStr (lu_role user))]),
       (''must_change_password'', JBool (mustChangePassword db (lu_username user)))])"

text \<open>A name that cannot be bound and a password that is no text throw.\<close>

definition post_auth_local :: route where
  "post_auth_local env w q =
     (let wantsJson = is_json (wq_content_type q) \<or> is_json (wq_accept q);
          body = sign_in_body q; username = jget body ''username''; password = jget body ''password''
      in if \<not> truthy username \<or> \<not> truthy password then
           (sign_in_failure wantsJson 400 ''username and password are required'' ''/?error=missing'', w)
         else (case sql_bind username of
                 Some (Some name) \<Rightarrow>
                   (case getLocalUser (w_db w) name of
                      None \<Rightarrow> (sign_in_failure wantsJson 401 ''invalid username or password'' ''/?error=invalid'', w)
                    | Some _ \<Rightarrow>
                        (case password of
                           Some (JStr pw) \<Rightarrow>
                             (case verifyLocalUser (we_passwords env) (w_db w) name pw of
                                None \<Rightarrow>
                                  (sign_in_failure wantsJson 401 ''invalid username or password'' ''/?error=invalid'', w)
                              | Some user \<Rightarrow>
                                  if localUserIsDisabled (w_db w) name then
                                    (sign_in_failure wantsJson 403 ''this account is deactivated'' ''/?error=deactivated'', w)
                                  else
                                    (let db' = signed_in_user (web_secs env) user (w_db w);
                                         cookie = sessionCookie q
                                           (signJwt env (- lu_id user) (lu_username user) (lu_role user)) THIRTY_DAYS
                                     in (holdSessionCookie cookie
                                           (if wantsJson then sign_in_answer db' user else c_redirect ''/chat''),
                                         w\<lparr>w_db := db'\<rparr>)))
                         | _ \<Rightarrow> (answerUnhandled, w)))
               | _ \<Rightarrow> (answerUnhandled, w)))"

definition approval_text :: "string \<Rightarrow> string" where
  "approval_text githubLogin =
     ([CHR 0xEC, CHR 0x83, CHR 0x88] @ '' '' @ [CHR 0xEC, CHR 0x82, CHR 0xAC, CHR 0xEC, CHR 0x9A, CHR 0xA9, CHR
       0xEC, CHR 0x9E, CHR 0x90] @ '' '' @ [CHR 0xEC, CHR 0x8A, CHR 0xB9, CHR 0xEC, CHR 0x9D, CHR 0xB8] @ '' ''
       @ [CHR 0xEC, CHR 0x9A, CHR 0x94, CHR 0xEC, CHR 0xB2, CHR 0xAD] @ '': '' @ githubLogin @ '' (GitHub).
       /api/v1/admin/pending'' @ [CHR 0xEC, CHR 0x97, CHR 0x90, CHR 0xEC, CHR 0x84, CHR 0x9C] @ '' '' @ [CHR
       0xED, CHR 0x99, CHR 0x95, CHR 0xEC, CHR 0x9D, CHR 0xB8, CHR 0xED, CHR 0x95, CHR 0x98, CHR 0xEC, CHR 0x84,
       CHR 0xB8, CHR 0xEC, CHR 0x9A, CHR 0x94] @ ''.'')"

definition notifyApprovalRequest :: "web_env \<Rightarrow> string \<Rightarrow> web \<Rightarrow> web" where
  "notifyApprovalRequest env githubLogin w =
     (case we_notify env of
        None \<Rightarrow> w
      | Some identity \<Rightarrow> w\<lparr>w_out := w_out w @ [HubSend identity (approval_text githubLogin) ''system'']\<rparr>)"

definition ask_for_approval :: "web_env \<Rightarrow> web_user \<Rightarrow> web \<Rightarrow> web" where
  "ask_for_approval env user w =
     (let login = wu_github_login user; existing = getPendingApproval (w_db w) login
      in if isUserApproved (w_db w) login (wu_role user) then w
         else if existing = None \<or> pa_status (the existing) = ''denied'' then
           notifyApprovalRequest env login
             (w\<lparr>w_db := snd (createPendingApproval (web_secs env) (w_db w) login (wu_github_id user))\<rparr>)
         else w)"

definition callback_failed :: "string \<Rightarrow> web_answer" where
  "callback_failed message = c_json 500 (JObj [(''error'', JStr ''OAuth callback failed''), (''detail'', JStr message)])"

definition get_github_callback :: route where
  "get_github_callback env w q =
     (case wq_query q ''code'' of
        None \<Rightarrow> (c_error 400 (''Missing '' @ CHR 0x22 # ''code'' @ CHR 0x22 # '' query parameter''), w)
      | Some [] \<Rightarrow> (c_error 400 (''Missing '' @ CHR 0x22 # ''code'' @ CHR 0x22 # '' query parameter''), w)
      | Some code \<Rightarrow>
          (case we_exchange env code of
             Inl e \<Rightarrow> (callback_failed e, w)
           | Inr token \<Rightarrow>
               (case we_github env token of
                  Inl e \<Rightarrow> (callback_failed e, w)
                | Inr (gh_id, login) \<Rightarrow>
                    (case upsertUser (web_secs env) (w_db w) gh_id login of
                       (None, db') \<Rightarrow> (callback_failed ''null is not an object'', w\<lparr>w_db := db'\<rparr>)
                     | (Some user, db') \<Rightarrow>
                         (holdSessionCookie
                            (sessionCookie q (signJwt env (wu_github_id user) (wu_github_login user) (wu_role user)) THIRTY_DAYS)
                            (c_redirect ''/chat''),
                          ask_for_approval env user (w\<lparr>w_db := db'\<rparr>))))))"

definition post_logout :: route where
  "post_logout env w q =
     (holdSessionCookie (sessionCookie q [] 0) (c_json 200 (JObj [(''ok'', JBool True)])), w)"

section \<open>Accounts that must change their password\<close>

definition OPEN_WHILE_FLAGGED :: "string list" where
  "OPEN_WHILE_FLAGGED = [''/auth/local/password'', ''/auth/me'', ''/auth/logout'']"

text \<open>The gate in front of every route that is registered after it.\<close>

definition flagged_refusal :: "web_env \<Rightarrow> web \<Rightarrow> web_request \<Rightarrow> web_answer option" where
  "flagged_refusal env w q =
     (if wq_path q \<in> set OPEN_WHILE_FLAGGED \<or> starts_with ''/auth/local'' (wq_path q) \<or> wq_path q = ''/login'' then None
      else case extractJwt env w q of
             None \<Rightarrow> None
           | Some payload \<Rightarrow>
               if mustChangePassword (w_db w) (jp_github_login payload) then
                 Some (c_json 403 (JObj [(''error'', JStr ''This account must change its password before anything else''),
                    (''must_change_password'', JBool True)]))
               else None)"

definition password_rule :: string where
  "password_rule = [CHR 0x60] @ ''current'' @ [CHR 0x60] @ '' and '' @ [CHR 0x60] @ ''next'' @ [CHR 0x60] @ '' are required, and '' @
     [CHR 0x60] @ ''next'' @ [CHR 0x60] @ '' must be at least 8 characters''"

definition post_password :: route where
  "post_password env w q =
     (case extractJwt env w q of
        None \<Rightarrow> (c_error 401 ''Unauthorized'', w)
      | Some payload \<Rightarrow>
          (case json_parse (wq_text q) of
             None \<Rightarrow> (c_error 400 ''invalid JSON body'', w)
           | Some body \<Rightarrow>
               (case (as_string (jget body ''current''), as_string (jget body ''next'')) of
                  (Some current, Some next) \<Rightarrow>
                    if js_length next < 8 then (c_error 400 password_rule, w)
                    else if next = current then
                      (c_error 400 ([CHR 0x60] @ ''next'' @ [CHR 0x60] @ '' must differ from '' @ [CHR 0x60] @ ''current'' @
                         [CHR 0x60]), w)
                    else (case setLocalPassword (we_passwords env) (w_db w) (jp_github_login payload) current next of
                            (PwNoUser, db') \<Rightarrow> (c_error 404 ''no local account for this session'', w\<lparr>w_db := db'\<rparr>)
                          | (PwWrongCurrent, db') \<Rightarrow>
                              (c_error 403 ([CHR 0x60] @ ''current'' @ [CHR 0x60] @ '' is not this account'' @ CHR 0x27 # ''s password''),
                               w\<lparr>w_db := db'\<rparr>)
                          | (PwOk, db') \<Rightarrow>
                              (c_json 200 (JObj [(''ok'', JBool True), (''must_change_password'', JBool False)]),
                               w\<lparr>w_db := db'\<rparr>))
                | _ \<Rightarrow> (c_error 400 password_rule, w))))"

definition capabilities_of :: "agents_db \<Rightarrow> string \<Rightarrow> string list" where
  "capabilities_of db login = sort (remdups (map rg_capability (listFor db login DEFAULT_TENANT)))"

definition get_me :: route where
  "get_me env w q =
     (case extractJwt env w q of
        None \<Rightarrow> (c_error 401 ''Unauthorized'', w)
      | Some payload \<Rightarrow>
          (case getUser (w_db w) (jp_github_id payload) of
             None \<Rightarrow> (c_error 404 ''User not found'', w)
           | Some user \<Rightarrow>
               (let login = wu_github_login user
                in (c_json 200 (JObj [(''must_change_password'', JBool (mustChangePassword (w_db w) login)),
                      (''github_id'', JInt (wu_github_id user)), (''github_login'', JStr login),
                      (''role'', JStr (wu_role user)), (''approved'', JBool (isUserApproved (w_db w) login (wu_role user))),
                      (''tenant'', nullable (map_option lu_tenant (getLocalUser (w_db w) login))),
                      (''created_at'', JStr (sql_time (wu_created_at user))),
                      (''capabilities'', JArr (map JStr (capabilities_of (w_agents w) login)))]), w))))"

end
