(* ===== verification/Web_Rename.thy ===== *)
theory Web_Rename
  imports Web_Session
begin

text \<open>
  \<open>packages/http/src/rename-account.ts\<close>: moving a local account to another name in the two databases that
  refer to it.

  A reference is a column of a table; the two lists give them in the order the code has. Every update is
  checked against the keys of its table, and a violation rolls its transaction back. The tables exist.

  The lemmas: the keys never refuse a rename, so \<open>write_failed\<close> is not an outcome; a completed rename is one
  substitution of the name in every reference; and one that was cut off between the two databases is
  completed by the next.
\<close>

section \<open>References\<close>

datatype mesh_ref = RGrantSubject | ROwner | ROwnedIdentity | RMember | RAgent | RKey | RPairing

datatype local_ref = LRegistry | LPolicy | LPush | LUser | LLocal

definition MESH_REFERENCES :: "mesh_ref list" where
  "MESH_REFERENCES = [RGrantSubject, ROwner, ROwnedIdentity, RMember, RAgent, RKey, RPairing]"

definition LOCAL_REFERENCES :: "local_ref list" where
  "LOCAL_REFERENCES = [LRegistry, LPolicy, LPush, LUser, LLocal]"

fun mesh_ref_name :: "mesh_ref \<Rightarrow> string" where
  "mesh_ref_name RGrantSubject = ''role_grants.subject''"
| "mesh_ref_name ROwner = ''agent_owners.owner''"
| "mesh_ref_name ROwnedIdentity = ''agent_owners.identity''"
| "mesh_ref_name RMember = ''agent_group_members.identity''"
| "mesh_ref_name RAgent = ''agents.identity''"
| "mesh_ref_name RKey = ''agent_keys.identity''"
| "mesh_ref_name RPairing = ''pairing_codes.identity''"

fun local_ref_name :: "local_ref \<Rightarrow> string" where
  "local_ref_name LRegistry = ''agent_registry.id''"
| "local_ref_name LPolicy = ''policies.github_login''"
| "local_ref_name LPush = ''push_subscriptions.github_login''"
| "local_ref_name LUser = ''users.github_login''"
| "local_ref_name LLocal = ''local_users.username''"

fun mesh_names :: "mesh_ref \<Rightarrow> agents_db \<Rightarrow> string list" where
  "mesh_names RGrantSubject m = map rg_subject (db_grants m)"
| "mesh_names ROwner m = map ow_owner (db_owners m)"
| "mesh_names ROwnedIdentity m = map ow_identity (db_owners m)"
| "mesh_names RMember m = map gm_identity (db_members m)"
| "mesh_names RAgent m = map ag_identity (db_agents m)"
| "mesh_names RKey m = map k_identity (db_keys m)"
| "mesh_names RPairing m = map pc_identity (db_pairing m)"

fun local_names :: "local_ref \<Rightarrow> web_db \<Rightarrow> string list" where
  "local_names LRegistry d = map rr_id (wb_registry d)"
| "local_names LPolicy d = map wp_github_login (wb_policies d)"
| "local_names LPush d = map ps_github_login (wb_push d)"
| "local_names LUser d = map wu_github_login (wb_users d)"
| "local_names LLocal d = map lu_username (wb_local d)"

text \<open>\<open>UPDATE table SET column = ? WHERE column = ?\<close>\<close>

fun mesh_update :: "string \<Rightarrow> string \<Rightarrow> mesh_ref \<Rightarrow> agents_db \<Rightarrow> agents_db" where
  "mesh_update old new RGrantSubject m =
     m\<lparr>db_grants := sql_update (\<lambda>r. rg_subject r = old) (\<lambda>r. r\<lparr>rg_subject := new\<rparr>) (db_grants m)\<rparr>"
| "mesh_update old new ROwner m =
     m\<lparr>db_owners := sql_update (\<lambda>r. ow_owner r = old) (\<lambda>r. r\<lparr>ow_owner := new\<rparr>) (db_owners m)\<rparr>"
| "mesh_update old new ROwnedIdentity m =
     m\<lparr>db_owners := sql_update (\<lambda>r. ow_identity r = old) (\<lambda>r. r\<lparr>ow_identity := new\<rparr>) (db_owners m)\<rparr>"
| "mesh_update old new RMember m =
     m\<lparr>db_members := sql_update (\<lambda>r. gm_identity r = old) (\<lambda>r. r\<lparr>gm_identity := new\<rparr>) (db_members m)\<rparr>"
| "mesh_update old new RAgent m =
     m\<lparr>db_agents := sql_update (\<lambda>r. ag_identity r = old) (\<lambda>r. r\<lparr>ag_identity := new\<rparr>) (db_agents m)\<rparr>"
| "mesh_update old new RKey m =
     m\<lparr>db_keys := sql_update (\<lambda>r. k_identity r = old) (\<lambda>r. r\<lparr>k_identity := new\<rparr>) (db_keys m)\<rparr>"
| "mesh_update old new RPairing m =
     m\<lparr>db_pairing := sql_update (\<lambda>r. pc_identity r = old) (\<lambda>r. r\<lparr>pc_identity := new\<rparr>) (db_pairing m)\<rparr>"

fun local_update :: "string \<Rightarrow> string \<Rightarrow> local_ref \<Rightarrow> web_db \<Rightarrow> web_db" where
  "local_update old new LRegistry d =
     d\<lparr>wb_registry := sql_update (\<lambda>r. rr_id r = old) (\<lambda>r. r\<lparr>rr_id := new\<rparr>) (wb_registry d)\<rparr>"
| "local_update old new LPolicy d =
     d\<lparr>wb_policies := sql_update (\<lambda>r. wp_github_login r = old) (\<lambda>r. r\<lparr>wp_github_login := new\<rparr>) (wb_policies d)\<rparr>"
| "local_update old new LPush d =
     d\<lparr>wb_push := sql_update (\<lambda>r. ps_github_login r = old) (\<lambda>r. r\<lparr>ps_github_login := new\<rparr>) (wb_push d)\<rparr>"
| "local_update old new LUser d =
     d\<lparr>wb_users := sql_update (\<lambda>r. wu_github_login r = old) (\<lambda>r. r\<lparr>wu_github_login := new\<rparr>) (wb_users d)\<rparr>"
| "local_update old new LLocal d =
     d\<lparr>wb_local := sql_update (\<lambda>r. lu_username r = old) (\<lambda>r. r\<lparr>lu_username := new\<rparr>) (wb_local d)\<rparr>"

text \<open>The keys of the tables of the mesh that hold a name.\<close>

definition mesh_keys :: "agents_db \<Rightarrow> bool" where
  "mesh_keys m \<longleftrightarrow>
     sql_unique (\<lambda>g. (rg_tenant g, rg_subject g, rg_capability g, rg_scope g)) (db_grants m) \<and>
     sql_unique owner_key (db_owners m) \<and> sql_unique (\<lambda>x. (gm_tenant x, gm_identity x)) (db_members m) \<and>
     sql_unique ag_identity (db_agents m) \<and> sql_unique k_fingerprint (db_keys m) \<and>
     sql_unique_where (\<lambda>k. k_status k = Approved) k_identity (db_keys m) \<and>
     sql_unique_where (\<lambda>k. k_status k = Pending) k_identity (db_keys m) \<and> sql_unique pc_code (db_pairing m)"

section \<open>The rename\<close>

datatype rename_outcome = Renamed "(string \<times> nat) list" | NoSuchAccount | NameTaken string | WriteFailed

definition mesh_present :: "agents_db \<Rightarrow> mesh_ref \<Rightarrow> string \<Rightarrow> bool" where
  "mesh_present m r name \<longleftrightarrow> list_ex (\<lambda>x. x = name) (mesh_names r m)"

definition local_present :: "web_db \<Rightarrow> local_ref \<Rightarrow> string \<Rightarrow> bool" where
  "local_present d r name \<longleftrightarrow> list_ex (\<lambda>x. x = name) (local_names r d)"

text \<open>The first reference that holds both names.\<close>

definition name_clash :: "string \<Rightarrow> string \<Rightarrow> web_db \<Rightarrow> agents_db \<Rightarrow> string option" where
  "name_clash old new d m =
     (case find (\<lambda>r. mesh_present m r new \<and> mesh_present m r old) MESH_REFERENCES of
        Some r \<Rightarrow> Some (mesh_ref_name r)
      | None \<Rightarrow>
          map_option local_ref_name (find (\<lambda>r. local_present d r new \<and> local_present d r old) LOCAL_REFERENCES))"

definition move_mesh :: "string \<Rightarrow> string \<Rightarrow> mesh_ref list \<Rightarrow> mesh_ref \<Rightarrow> agents_db \<Rightarrow> agents_db option" where
  "move_mesh old new alreadyMoved r m =
     (if r \<in> set alreadyMoved then Some m
      else let m' = mesh_update old new r m in if mesh_keys m' then Some m' else None)"

fun move_all_mesh :: "string \<Rightarrow> string \<Rightarrow> mesh_ref list \<Rightarrow> mesh_ref list \<Rightarrow> agents_db \<Rightarrow> agents_db option" where
  "move_all_mesh old new alreadyMoved [] m = Some m"
| "move_all_mesh old new alreadyMoved (r # rs) m =
     (case move_mesh old new alreadyMoved r m of
        None \<Rightarrow> None | Some m' \<Rightarrow> move_all_mesh old new alreadyMoved rs m')"

definition move_local :: "string \<Rightarrow> string \<Rightarrow> local_ref list \<Rightarrow> local_ref \<Rightarrow> web_db \<Rightarrow> web_db option" where
  "move_local old new alreadyMoved r d =
     (if r \<in> set alreadyMoved then Some d
      else let d' = local_update old new r d in if web_pk d' then Some d' else None)"

fun move_all_local :: "string \<Rightarrow> string \<Rightarrow> local_ref list \<Rightarrow> local_ref list \<Rightarrow> web_db \<Rightarrow> web_db option" where
  "move_all_local old new alreadyMoved [] d = Some d"
| "move_all_local old new alreadyMoved (r # rs) d =
     (case move_local old new alreadyMoved r d of
        None \<Rightarrow> None | Some d' \<Rightarrow> move_all_local old new alreadyMoved rs d')"

definition moved_counts :: "string \<Rightarrow> mesh_ref list \<Rightarrow> local_ref list \<Rightarrow> web_db \<Rightarrow> agents_db \<Rightarrow> (string \<times> nat) list" where
  "moved_counts old mesh_done local_done d m =
     filter (\<lambda>(n, k). k > 0)
       (map (\<lambda>r. (mesh_ref_name r, if r \<in> set mesh_done then 0 else count_list (mesh_names r m) old)) MESH_REFERENCES @
        map (\<lambda>r. (local_ref_name r, if r \<in> set local_done then 0 else count_list (local_names r d) old)) LOCAL_REFERENCES)"

definition renameLocalAccount ::
  "string \<Rightarrow> string \<Rightarrow> web_db \<Rightarrow> agents_db \<Rightarrow> rename_outcome \<times> web_db \<times> agents_db" where
  "renameLocalAccount old new d m =
     (if getLocalUser d old = None then (NoSuchAccount, d, m)
      else case name_clash old new d m of
             Some r \<Rightarrow> (NameTaken r, d, m)
           | None \<Rightarrow>
               (let mesh_done = filter (\<lambda>r. mesh_present m r new) MESH_REFERENCES;
                    local_done = filter (\<lambda>r. local_present d r new) LOCAL_REFERENCES
                in case move_all_mesh old new mesh_done MESH_REFERENCES m of
                     None \<Rightarrow> (WriteFailed, d, m)
                   | Some m' \<Rightarrow>
                       (case move_all_local old new local_done LOCAL_REFERENCES d of
                          None \<Rightarrow> (WriteFailed, d, m')
                        | Some d' \<Rightarrow> (Renamed (moved_counts old mesh_done local_done d m), d', m'))))"

section \<open>One reference at a time\<close>

lemma mesh_present_iff: "mesh_present m r n \<longleftrightarrow> n \<in> set (mesh_names r m)"
  by (auto simp: mesh_present_def list_ex_iff)

lemma local_present_iff: "local_present d r n \<longleftrightarrow> n \<in> set (local_names r d)"
  by (auto simp: local_present_def list_ex_iff)

definition subst_name :: "string \<Rightarrow> string \<Rightarrow> string \<Rightarrow> string" where
  "subst_name old new x = (if x = old then new else x)"

lemma mesh_names_update:
  "mesh_names r' (mesh_update old new r m) =
     (if r' = r then map (subst_name old new) (mesh_names r m) else mesh_names r' m)"
  by (cases r; cases r') (auto simp: sql_update_def subst_name_def)

lemma local_names_update:
  "local_names r' (local_update old new r d) =
     (if r' = r then map (subst_name old new) (local_names r d) else local_names r' d)"
  by (cases r; cases r') (auto simp: sql_update_def subst_name_def)

text \<open>A key that holds the renamed column stays a key where the new name is not in the column.\<close>

lemma unique_rename:
  assumes "sql_unique key t" "\<And>x y. x \<in> set t \<Longrightarrow> y \<in> set t \<Longrightarrow> key (if P x then f x else x) = key (if P y then f y else y) \<Longrightarrow> key x = key y"
  shows "sql_unique key (sql_update P f t)"
proof -
  have "distinct t" using assms(1) by (rule sql_unique_distinct)
  moreover have "inj_on (\<lambda>x. key (if P x then f x else x)) (set t)"
    using assms by (auto intro!: inj_onI dest: sql_unique_eqD)
  ultimately show ?thesis
    by (simp add: sql_unique_def sql_update_def distinct_map comp_def)
qed

lemma unique_where_rename:
  assumes "sql_unique_where Q key t" "\<And>x. Q (f x) = Q x"
    and "\<And>x y. x \<in> set t \<Longrightarrow> y \<in> set t \<Longrightarrow> key (if P x then f x else x) = key (if P y then f y else y) \<Longrightarrow> key x = key y"
  shows "sql_unique_where Q key (sql_update P f t)"
proof -
  have eq: "filter Q (sql_update P f t) = sql_update P f (filter Q t)"
    by (induction t) (auto simp: sql_update_def assms(2))
  have "sql_unique key (filter Q t)" using assms(1) by (simp add: sql_unique_where_def sql_unique_def)
  then have "sql_unique key (sql_update P f (filter Q t))"
    by (rule unique_rename) (use assms(3) in auto)
  then show ?thesis by (simp add: sql_unique_where_def sql_unique_def eq)
qed

lemma mesh_update_keys:
  assumes "mesh_keys m" "new \<notin> set (mesh_names r m)"
  shows "mesh_keys (mesh_update old new r m)"
  using assms
  by (cases r)
    (auto simp: mesh_keys_def owner_key_def sql_unique_update
      intro!: unique_rename unique_where_rename split: if_splits)

lemma local_update_keys:
  assumes "web_pk d" "new \<notin> set (local_names r d)"
  shows "web_pk (local_update old new r d)"
  using assms
  by (cases r) (auto simp: web_pk_def sql_unique_update intro!: unique_rename split: if_splits)

section \<open>A rename as one substitution\<close>

definition mesh_subst :: "string \<Rightarrow> string \<Rightarrow> agents_db \<Rightarrow> agents_db" where
  "mesh_subst old new m = foldl (\<lambda>x r. mesh_update old new r x) m MESH_REFERENCES"

definition local_subst :: "string \<Rightarrow> string \<Rightarrow> web_db \<Rightarrow> web_db" where
  "local_subst old new d = foldl (\<lambda>x r. local_update old new r x) d LOCAL_REFERENCES"

lemma update_no_row: "old \<notin> g ` set t \<Longrightarrow> sql_update (\<lambda>r. g r = old) f t = t"
  by (rule sql_update_none) auto

lemma mesh_update_absent: "old \<notin> set (mesh_names r m) \<Longrightarrow> mesh_update old new r m = m"
  by (cases r) (simp_all add: update_no_row)

lemma local_update_absent: "old \<notin> set (local_names r d) \<Longrightarrow> local_update old new r d = d"
  by (cases r) (simp_all add: update_no_row)

text \<open>What decides about a reference does not change while the others are moved.\<close>

lemma move_all_mesh_eq:
  assumes "mesh_keys m" "distinct rs"
    and "\<And>r. r \<in> set rs \<Longrightarrow> (r \<in> set mesh_done \<longleftrightarrow> new \<in> set (mesh_names r m))"
    and "\<And>r. r \<in> set rs \<Longrightarrow> new \<in> set (mesh_names r m) \<Longrightarrow> old \<notin> set (mesh_names r m)"
  shows "move_all_mesh old new mesh_done rs m = Some (foldl (\<lambda>x r. mesh_update old new r x) m rs)"
  using assms
proof (induction rs arbitrary: m)
  case Nil
  then show ?case by simp
next
  case (Cons r rs)
  have rest: "mesh_names r' (mesh_update old new r m) = mesh_names r' m" if "r' \<in> set rs" for r'
    using Cons.prems(2) that by (auto simp: mesh_names_update)
  have step: "move_mesh old new mesh_done r m = Some (mesh_update old new r m) \<and> mesh_keys (mesh_update old new r m)"
    using Cons.prems(1,3,4) mesh_update_absent [of old r m new] mesh_update_keys [of m new r old]
    by (cases "r \<in> set mesh_done") (auto simp: move_mesh_def Let_def)
  have "move_all_mesh old new mesh_done rs (mesh_update old new r m) =
      Some (foldl (\<lambda>x r. mesh_update old new r x) (mesh_update old new r m) rs)"
    by (rule Cons.IH) (use Cons.prems step rest in auto)
  with step show ?case by simp
qed

lemma move_all_local_eq:
  assumes "web_pk d" "distinct rs"
    and "\<And>r. r \<in> set rs \<Longrightarrow> (r \<in> set local_done \<longleftrightarrow> new \<in> set (local_names r d))"
    and "\<And>r. r \<in> set rs \<Longrightarrow> new \<in> set (local_names r d) \<Longrightarrow> old \<notin> set (local_names r d)"
  shows "move_all_local old new local_done rs d = Some (foldl (\<lambda>x r. local_update old new r x) d rs)"
  using assms
proof (induction rs arbitrary: d)
  case Nil
  then show ?case by simp
next
  case (Cons r rs)
  have rest: "local_names r' (local_update old new r d) = local_names r' d" if "r' \<in> set rs" for r'
    using Cons.prems(2) that by (auto simp: local_names_update)
  have step: "move_local old new local_done r d = Some (local_update old new r d) \<and> web_pk (local_update old new r d)"
    using Cons.prems(1,3,4) local_update_absent [of old r d new] local_update_keys [of d new r old]
    by (cases "r \<in> set local_done") (auto simp: move_local_def Let_def)
  have "move_all_local old new local_done rs (local_update old new r d) =
      Some (foldl (\<lambda>x r. local_update old new r x) (local_update old new r d) rs)"
    by (rule Cons.IH) (use Cons.prems step rest in auto)
  with step show ?case by simp
qed

lemma name_clash_None:
  "name_clash old new d m = None \<longleftrightarrow>
     (\<forall>r\<in>set MESH_REFERENCES. \<not> (new \<in> set (mesh_names r m) \<and> old \<in> set (mesh_names r m))) \<and>
     (\<forall>r\<in>set LOCAL_REFERENCES. \<not> (new \<in> set (local_names r d) \<and> old \<in> set (local_names r d)))"
proof (cases "find (\<lambda>r. mesh_present m r new \<and> mesh_present m r old) MESH_REFERENCES")
  case None
  then have "\<forall>r\<in>set MESH_REFERENCES. \<not> (new \<in> set (mesh_names r m) \<and> old \<in> set (mesh_names r m))"
    by (simp add: find_None_iff mesh_present_iff)
  moreover have "name_clash old new d m = None \<longleftrightarrow>
      find (\<lambda>r. local_present d r new \<and> local_present d r old) LOCAL_REFERENCES = None"
    using None by (simp add: name_clash_def)
  moreover have "find (\<lambda>r. local_present d r new \<and> local_present d r old) LOCAL_REFERENCES = None \<longleftrightarrow>
      (\<forall>r\<in>set LOCAL_REFERENCES. \<not> (new \<in> set (local_names r d) \<and> old \<in> set (local_names r d)))"
    unfolding find_None_iff local_present_iff by blast
  ultimately show ?thesis by simp
next
  case (Some r)
  then have "r \<in> set MESH_REFERENCES \<and> new \<in> set (mesh_names r m) \<and> old \<in> set (mesh_names r m)"
    by (auto simp: find_Some_iff mesh_present_iff)
  with Some show ?thesis by (auto simp: name_clash_def)
qed

lemma references_distinct: "distinct MESH_REFERENCES" "distinct LOCAL_REFERENCES"
  by (simp_all add: MESH_REFERENCES_def LOCAL_REFERENCES_def)

lemma rename_unclashed:
  assumes "mesh_keys m" "web_pk d" "getLocalUser d old \<noteq> None" "name_clash old new d m = None"
  shows "\<exists>counts. renameLocalAccount old new d m = (Renamed counts, local_subst old new d, mesh_subst old new m)"
proof -
  let ?md = "filter (\<lambda>r. mesh_present m r new) MESH_REFERENCES"
  let ?ld = "filter (\<lambda>r. local_present d r new) LOCAL_REFERENCES"
  note clash = assms(4) [unfolded name_clash_None]
  have "move_all_mesh old new ?md MESH_REFERENCES m = Some (mesh_subst old new m)"
    unfolding mesh_subst_def
    by (rule move_all_mesh_eq) (use assms(1) clash references_distinct in \<open>auto simp: mesh_present_iff\<close>)
  moreover have "move_all_local old new ?ld LOCAL_REFERENCES d = Some (local_subst old new d)"
    unfolding local_subst_def
    by (rule move_all_local_eq) (use assms(2) clash references_distinct in \<open>auto simp: local_present_iff\<close>)
  ultimately show ?thesis using assms(3,4) by (simp add: renameLocalAccount_def Let_def)
qed

lemma mesh_names_subst: "mesh_names r (mesh_subst old new m) = map (subst_name old new) (mesh_names r m)"
  by (cases r) (simp_all add: mesh_subst_def MESH_REFERENCES_def sql_update_def subst_name_def comp_def)

lemma local_names_subst: "local_names r (local_subst old new d) = map (subst_name old new) (local_names r d)"
  by (cases r) (simp_all add: local_subst_def LOCAL_REFERENCES_def sql_update_def subst_name_def comp_def)

lemma subst_name_gone: "old \<noteq> new \<Longrightarrow> old \<notin> set (map (subst_name old new) xs)"
  by (auto simp: subst_name_def split: if_splits)

lemma mesh_subst_done:
  assumes "\<And>r. old \<notin> set (mesh_names r m)"
  shows "mesh_subst old new m = m"
proof -
  have "foldl (\<lambda>x r. mesh_update old new r x) m rs = m" for rs
    by (induction rs) (simp_all add: mesh_update_absent assms)
  then show ?thesis by (simp add: mesh_subst_def)
qed

text \<open>The grants after a rename.\<close>

lemma grants_subst:
  "grants_rel (mesh_subst old new m) = (\<lambda>(tn, s, c, sc). (tn, subst_name old new s, c, sc)) ` grants_rel m"
proof -
  have g: "db_grants (mesh_subst old new m) =
      sql_update (\<lambda>r. rg_subject r = old) (\<lambda>r. r\<lparr>rg_subject := new\<rparr>) (db_grants m)"
    by (simp add: mesh_subst_def MESH_REFERENCES_def)
  show ?thesis
    unfolding grants_rel_def g set_sql_update image_image
    by (rule image_cong) (auto simp: subst_name_def)
qed

section \<open>Theorems\<close>


lemma one_account_found: "getLocalUser one_account ''kim'' \<noteq> None"
  by (simp add: getLocalUser_def one_account_def)

lemma one_account_pk: "web_pk one_account"
  by (simp add: web_pk_def one_account_def web_db_init_def)

lemma mesh_keys_init: "mesh_keys (agents_db_init t)"
  by (simp add: mesh_keys_def sql_unique_where_def)

lemma one_account_unclashed: "name_clash ''kim'' ''lee'' one_account (agents_db_init 0) = None"
  by (simp add: name_clash_None MESH_REFERENCES_def LOCAL_REFERENCES_def one_account_def web_db_init_def)


text \<open>
  C15: a rename that stopped after the first of its two transactions is finished by the next attempt: run on
  the databases that the interruption left, it gives the same two databases as a rename that was never
  interrupted.
\<close>

theorem interrupted_rename_is_resumed:
  assumes "mesh_keys m" "web_pk d" "old \<noteq> new" "renameLocalAccount old new d m = (Renamed counts, d', m')"
  shows "\<exists>counts'. renameLocalAccount old new d m' = (Renamed counts', d', m')"
proof -
  have u: "getLocalUser d old \<noteq> None" using assms(4) by (auto simp: renameLocalAccount_def split: if_splits)
  have clash: "name_clash old new d m = None"
    using assms(4) by (auto simp: renameLocalAccount_def split: if_splits option.splits)
  from rename_unclashed [OF assms(1,2) u clash] assms(4)
  have d': "d' = local_subst old new d" and m': "m' = mesh_subst old new m" by auto
  have gone: "old \<notin> set (mesh_names r m')" for r
    unfolding m' mesh_names_subst by (rule subst_name_gone [OF assms(3)])
  then have clash': "name_clash old new d m' = None"
    using clash by (simp add: name_clash_None)
  have k: "move_all_mesh old new (filter (\<lambda>r. mesh_present m r new) MESH_REFERENCES) MESH_REFERENCES m = Some m'"
    using move_all_mesh_eq [OF assms(1) references_distinct(1)] clash
    by (auto simp: name_clash_None mesh_present_iff m' mesh_subst_def)
  have keys: "mesh_keys x \<Longrightarrow> move_all_mesh old new done rs x = Some y \<Longrightarrow> mesh_keys y" for rs x y and "done"
    by (induction rs arbitrary: x) (auto simp: move_mesh_def Let_def split: option.splits if_splits)
  have "mesh_keys m'" by (rule keys [OF assms(1) k])
  from rename_unclashed [OF this assms(2) u clash']
  show ?thesis using mesh_subst_done [OF gone] by (simp add: d')
qed

theorem interrupted_rename_is_resumed_witness:
  "\<exists>counts counts' d' m'. renameLocalAccount ''kim'' ''lee'' one_account (agents_db_init 0) = (Renamed counts, d', m') \<and>
     renameLocalAccount ''kim'' ''lee'' one_account m' = (Renamed counts', d', m')"
proof -
  from rename_unclashed [OF mesh_keys_init one_account_pk one_account_found one_account_unclashed]
  obtain counts where r: "renameLocalAccount ''kim'' ''lee'' one_account (agents_db_init 0) =
      (Renamed counts, local_subst ''kim'' ''lee'' one_account, mesh_subst ''kim'' ''lee'' (agents_db_init 0))" ..
  from interrupted_rename_is_resumed [OF mesh_keys_init one_account_pk _ r] r show ?thesis by auto
qed

text \<open>
  A name that nobody else's rows share with the account is not a clash: the account takes over the grants that
  stood under the new name.
\<close>

lemma rename_can_merge_two_names:
  assumes "mesh_keys m" "web_pk d" "getLocalUser d old \<noteq> None" "name_clash old new d m = None"
    and "old \<notin> set (mesh_names RGrantSubject m)" "(tn, new, c, sc) \<in> grants_rel m"
  shows "\<exists>counts d' m'. renameLocalAccount old new d m = (Renamed counts, d', m') \<and> (tn, new, c, sc) \<in> grants_rel m'"
proof -
  from rename_unclashed [OF assms(1-4)] obtain counts
    where r: "renameLocalAccount old new d m = (Renamed counts, local_subst old new d, mesh_subst old new m)" ..
  have "(tn, subst_name old new new, c, sc) \<in> grants_rel (mesh_subst old new m)"
    unfolding grants_subst using assms(6) by (auto intro!: rev_image_eqI)
  then show ?thesis using r by (auto simp: subst_name_def split: if_splits)
qed

end
