(* ===== verification/Web_Accounts.thy ===== *)
theory Web_Accounts
  imports Web_Session
begin

text \<open>
  The console's routes about people: of \<open>packages/http/src/main.ts\<close> the admission queue and its two answers,
  the local accounts (admission, deactivation and reactivation, a new temporary password, the list), the
  registration of people with the hub (\<open>provision.ts\<close>), and what the server does at its start.

  What is asked of the hub is an effect of the state; its answers decide only log lines.

  Its properties are in \<open>Web_Console_Facts\<close> (what a route may change) and \<open>Web_Console_Runs\<close> (deactivation).
\<close>

section \<open>Registering people with the hub\<close>

text \<open>\<open>/^[A-Za-z0-9][A-Za-z0-9-]*$/\<close>\<close>

definition alnum :: "char \<Rightarrow> bool" where
  "alnum c = (let n = of_char c :: nat in 48 \<le> n \<and> n \<le> 57 \<or> 65 \<le> n \<and> n \<le> 90 \<or> 97 \<le> n \<and> n \<le> 122)"

definition mesh_identity :: "string \<Rightarrow> bool" where
  "mesh_identity s = (case s of [] \<Rightarrow> False | c # cs \<Rightarrow> alnum c \<and> list_all (\<lambda>x. alnum x \<or> x = CHR ''-'') cs)"

definition provisionHuman :: "string \<Rightarrow> web \<Rightarrow> web" where
  "provisionHuman identity w =
     (if mesh_identity identity then w\<lparr>w_out := w_out w @ [HubProvision identity ''human'' ''Web user'']\<rparr> else w)"

definition provisionAllHumans :: "string list \<Rightarrow> web \<Rightarrow> web" where
  "provisionAllHumans identities w = foldl (\<lambda>x i. provisionHuman i x) w identities"

definition redeclareProxies :: "web_env \<Rightarrow> web \<Rightarrow> web" where
  "redeclareProxies env w =
     (if \<not> we_hub_up env then w
      else (let webUsers = listApprovedWebUserIds (w_db w); w1 = provisionAllHumans webUsers w
            in w1\<lparr>w_out := w_out w1 @ [HubConnect (we_hub_identity env) webUsers]\<rparr>))"

section \<open>The admission queue\<close>

definition approval_json :: "pending_approval \<Rightarrow> json" where
  "approval_json p =
     JObj [(''github_login'', JStr (pa_github_login p)), (''github_id'', JInt (pa_github_id p)),
           (''requested_at'', JStr (sql_time (pa_requested_at p))), (''status'', JStr (pa_status p))]"

definition get_pending :: route where
  "get_pending env w q =
     (case requireCapability env w q USER_ADMIT (we_wide env) of
        Inl a \<Rightarrow> (a, w)
      | Inr actor \<Rightarrow>
          (c_json 200 (JObj [(''users'', JArr (map approval_json (listPendingApprovals (w_db w))))]), w))"

text \<open>The body of the two answers: \<open>body.github_login\<close> of a null throws.\<close>

datatype login_field = FieldMissing | FieldThrows | FieldGiven string

definition github_login_field :: "json \<Rightarrow> login_field" where
  "github_login_field body =
     (if body = JNull then FieldThrows
      else case given_string (jget body ''github_login'') of None \<Rightarrow> FieldMissing | Some l \<Rightarrow> FieldGiven l)"

definition missing_login :: web_answer where
  "missing_login = c_error 400 (''Missing or invalid '' @ CHR 0x22 # ''github_login'' @ CHR 0x22 # '' field'')"

definition no_pending :: "string \<Rightarrow> web_answer" where
  "no_pending login = c_error 404 (''No pending approval found for '' @ CHR 0x22 # login @ [CHR 0x22])"

definition decision_json :: "string \<Rightarrow> string \<Rightarrow> web_answer" where
  "decision_json login status =
     c_json 200 (JObj [(''ok'', JBool True), (''github_login'', JStr login), (''status'', JStr status)])"

definition post_approve :: route where
  "post_approve env w q =
     (case requireCapability env w q USER_ADMIT (we_wide env) of
        Inl a \<Rightarrow> (a, w)
      | Inr actor \<Rightarrow>
          (case json_parse (wq_text q) of
             None \<Rightarrow> (c_error 400 ''Invalid JSON body'', w)
           | Some body \<Rightarrow>
               (case github_login_field body of
                  FieldThrows \<Rightarrow> (answerUnhandled, w)
                | FieldMissing \<Rightarrow> (missing_login, w)
                | FieldGiven login \<Rightarrow>
                    (case approveUser (w_db w) login of
                       (False, db') \<Rightarrow> (no_pending login, w\<lparr>w_db := db'\<rparr>)
                     | (True, db') \<Rightarrow>
                         (let w1 = provisionHuman login (w\<lparr>w_db := upsertApprovedWebUser (web_secs env) db' login\<rparr>);
                              w2 = redeclareProxies env w1
                          in (decision_json login ''approved'', w2\<lparr>w_db := wildcard_policy login (w_db w2)\<rparr>))))))"

definition post_deny :: route where
  "post_deny env w q =
     (case requireCapability env w q USER_ADMIT (we_wide env) of
        Inl a \<Rightarrow> (a, w)
      | Inr actor \<Rightarrow>
          (case json_parse (wq_text q) of
             None \<Rightarrow> (c_error 400 ''Invalid JSON body'', w)
           | Some body \<Rightarrow>
               (case github_login_field body of
                  FieldThrows \<Rightarrow> (answerUnhandled, w)
                | FieldMissing \<Rightarrow> (missing_login, w)
                | FieldGiven login \<Rightarrow>
                    (case denyUser (w_db w) login of
                       (False, db') \<Rightarrow> (no_pending login, w\<lparr>w_db := db'\<rparr>)
                     | (True, db') \<Rightarrow> (decision_json login ''denied'', w\<lparr>w_db := db'\<rparr>)))))"

section \<open>Local accounts\<close>

definition name_rule :: "string \<Rightarrow> web_answer" where
  "name_rule what = c_fail 400 (what @ '' must match ^[A-Za-z0-9][A-Za-z0-9-]*$'')"

text \<open>What the body says of a role: absent, the one role that may be asked for, or a refusal.\<close>

definition role_refusal :: "json \<Rightarrow> web_answer option" where
  "role_refusal body =
     (case jget body ''role'' of
        None \<Rightarrow> None
      | Some r \<Rightarrow>
          if r = JStr ''admin'' then Some (c_fail 400 ''this route admits members; grant the admin role on the RBAC screen'')
          else if r \<noteq> JStr ''member'' then Some (c_fail 400 (''role must be '' @ quoted ''member''))
          else None)"

definition admitted_answer :: "local_user \<Rightarrow> string \<Rightarrow> web_answer" where
  "admitted_answer user temporaryPassword =
     c_json 201 (JObj [(''ok'', JBool True),
       (''user'', JObj [(''username'', JStr (lu_username user)), (''display_name'', nullable (lu_display_name user)),
                        (''tenant'', JStr (lu_tenant user)), (''role'', JStr (lu_role user))]),
       (''temporary_password'', JStr temporaryPassword)])"

definition post_users :: route where
  "post_users env w q =
     (case requireCapability env w q USER_ADMIT (we_wide env) of
        Inl a \<Rightarrow> (a, w)
      | Inr actor \<Rightarrow>
          (case json_parse (wq_text q) of
             None \<Rightarrow> (c_fail 400 ''invalid JSON body'', w)
           | Some body \<Rightarrow>
               (case as_string (jget body ''username'') of
                  None \<Rightarrow> (name_rule ''username'', w)
                | Some username \<Rightarrow>
                    if \<not> we_identity env username then (name_rule ''username'', w)
                    else if getLocalUser (w_db w) username \<noteq> None then
                      (c_fail 409 (''a local account named '' @ quoted username @ '' already exists''), w)
                    else (case role_refusal body of
                            Some a \<Rightarrow> (a, w)
                          | None \<Rightarrow>
                              (case tenantForWrite w actor (jget body ''tenant'') of
                                 Inl a \<Rightarrow> (a, w)
                               | Inr tenant \<Rightarrow>
                                   (case admitLocalUser (we_passwords env) (web_secs env) (w_db w) username
                                           (as_string (jget body ''display_name'')) (Some tenant) (Some ''member'') of
                                      None \<Rightarrow> (answerUnhandled, w)
                                    | Some (user, temporaryPassword, db') \<Rightarrow>
                                        (admitted_answer user temporaryPassword, w\<lparr>w_db := db'\<rparr>)))))))"

definition setDeactivated :: "bool \<Rightarrow> route" where
  "setDeactivated disabled env w q =
     (case requireCapability env w q USER_ADMIT (we_wide env) of
        Inl a \<Rightarrow> (a, w)
      | Inr actor \<Rightarrow>
          (let username = wq_param q ''username''
           in if disabled \<and> username = actor then
                (c_json 409 (JObj [(''ok'', JBool False), (''code'', JStr ''SELF_DEACTIVATION''),
                   (''error'', JStr ''an operator cannot deactivate their own account'')]), w)
              else if disabled \<and> (username = SEED_ADMIN_USERNAME \<or> username = LEGACY_SEED_ADMIN_USERNAME) then
                (c_json 409 (JObj [(''ok'', JBool False), (''code'', JStr ''PROTECTED_ACCOUNT''),
                   (''error'', JStr ''the seeded administrator is how an installation is recovered'')]), w)
              else (case setLocalUserDisabled (web_secs env) (w_db w) username disabled of
                      (False, db') \<Rightarrow> (c_fail 404 (''no local account named '' @ quoted username), w\<lparr>w_db := db'\<rparr>)
                    | (True, db') \<Rightarrow>
                        (c_json 200 (JObj [(''ok'', JBool True), (''username'', JStr username),
                           (''disabled_at'', case getLocalUser db' username of
                                              None \<Rightarrow> JNull | Some u \<Rightarrow> opt_secs (lu_disabled_at u))]),
                         w\<lparr>w_db := db'\<rparr>))))"

definition post_reissue :: route where
  "post_reissue env w q =
     (case requireCapability env w q USER_ADMIT (we_wide env) of
        Inl a \<Rightarrow> (a, w)
      | Inr actor \<Rightarrow>
          (let username = wq_param q ''username''
           in case issueTemporaryPassword (we_passwords env) (w_db w) username of
                (None, db') \<Rightarrow> (c_fail 404 (''no local account named '' @ quoted username), w\<lparr>w_db := db'\<rparr>)
              | (Some temporary, db') \<Rightarrow>
                  (c_json 200 (JObj [(''ok'', JBool True), (''username'', JStr username),
                     (''temporary_password'', JStr temporary), (''must_change_password'', JBool True)]),
                   w\<lparr>w_db := db'\<rparr>)))"

definition listed_user :: "local_user \<Rightarrow> json" where
  "listed_user u =
     JObj [(''username'', JStr (lu_username u)), (''display_name'', nullable (lu_display_name u)),
           (''role'', JStr (lu_role u)), (''created_at'', JStr (sql_time (lu_created_at u))), (''tenant'', JStr (lu_tenant u)),
           (''must_change_password'', JInt (if lu_must_change_password u then 1 else 0)),
           (''disabled_at'', opt_secs (lu_disabled_at u))]"

definition get_users :: route where
  "get_users env w q =
     (case requireCapability env w q USER_ADMIT (we_wide env) of
        Inl a \<Rightarrow> (a, w)
      | Inr actor \<Rightarrow>
          (c_json 200 (JObj [(''ok'', JBool True), (''users'', JArr (map listed_user (listLocalUsers (w_db w))))]), w))"

end
