(* ===== verification/Web_Keys.thy ===== *)
theory Web_Keys
  imports Web_Accounts Hub_Provision
begin

text \<open>
  The approval of signing keys in the console: \<open>packages/http/src/keys-admin.ts\<close>,
  \<open>packages/http/src/key-proposals.ts\<close> and the routes of \<open>main.ts\<close> over them.

  An approved key admits its identity to the registry of the console; \<open>admitApprovedIdentities\<close> does the same
  at the start for the keys approved before. The watcher behind the stream keeps the fingerprints it has
  announced and compares them with the pending keys at every tick.

  The lemmas: approving admits and nothing else does; the boot admits exactly the live identities with an
  approved key; what a stream announces, and the key it never does.
\<close>

section \<open>Admission\<close>

definition admitApprovedIdentity :: "secs \<Rightarrow> agents_db \<Rightarrow> string \<Rightarrow> web_db \<Rightarrow> bool \<times> web_db" where
  "admitApprovedIdentity t m identity d =
     (case sql_get (\<lambda>a. ag_identity a = identity \<and> ag_deleted_at a = None) (db_agents m) of
        None \<Rightarrow> (False, d)
      | Some row \<Rightarrow> (True, admitRegistryAgent t d identity (ag_description row) (ag_type row)))"

definition approved_identities :: "agents_db \<Rightarrow> string list" where
  "approved_identities m =
     sort (remdups (map k_identity (sql_where (\<lambda>k. k_status k = Approved) (db_keys m))))"

fun admit_each :: "secs \<Rightarrow> agents_db \<Rightarrow> string list \<Rightarrow> web_db \<Rightarrow> string list \<times> web_db" where
  "admit_each t m [] d = ([], d)"
| "admit_each t m (i # rest) d =
     (if isRegistryAgentApproved d i then admit_each t m rest d
      else case admitApprovedIdentity t m i d of
             (admitted, d1) \<Rightarrow>
               (case admit_each t m rest d1 of (names, d2) \<Rightarrow> (if admitted then i # names else names, d2)))"

definition admitApprovedIdentities :: "secs \<Rightarrow> agents_db \<Rightarrow> web_db \<Rightarrow> string list \<times> web_db" where
  "admitApprovedIdentities t m d = admit_each t m (approved_identities m) d"

definition admitApprovedIdentitiesOnBoot :: "web_env \<Rightarrow> web \<Rightarrow> web" where
  "admitApprovedIdentitiesOnBoot env w =
     w\<lparr>w_db := snd (admitApprovedIdentities (web_secs env) (w_agents w) (w_db w))\<rparr>"

section \<open>Decisions\<close>

datatype key_decision = KeyApprove | KeyDeny | KeyRevoke

definition decided_json :: "key_row \<Rightarrow> json" where
  "decided_json k =
     JObj [(''ok'', JBool True), (''fingerprint'', JStr (k_fingerprint k)), (''identity'', JStr (k_identity k)),
           (''status'', JStr (key_status_text (k_status k))), (''decided_by'', nullable (k_decided_by k)),
           (''decided_at'', opt_secs (k_decided_at k))]"

fun transition_answer :: "key_error \<Rightarrow> web_answer" where
  "transition_answer (KeyNotFound fp) = c_fail 404 (''no key with fingerprint '' @ fp)"
| "transition_answer (KeyWrongState fp st expected) =
     c_fail 409 (''key '' @ fp @ '' is '' @ key_status_text st @ '', expected '' @
                 join_with '' or '' (map key_status_text expected))"
| "transition_answer (KeyOwnershipError fp) = c_fail 500 fp"

text \<open>The row that a decision answers with is the one it has just written, so it is there.\<close>

definition decided :: "web \<Rightarrow> key_error + (key_row option \<times> agents_db) \<Rightarrow> (web_answer + key_row) \<times> web" where
  "decided w r =
     (case r of
        Inl e \<Rightarrow> (Inl (transition_answer e), w)
      | Inr (None, m) \<Rightarrow> (Inl (c_fail 500 ''null is not an object''), w\<lparr>w_agents := m\<rparr>)
      | Inr (Some row, m) \<Rightarrow> (Inr row, w\<lparr>w_agents := m\<rparr>))"

definition decide_key :: "web_env \<Rightarrow> key_decision \<Rightarrow> string \<Rightarrow> string \<Rightarrow> string option \<Rightarrow> web \<Rightarrow> web_answer \<times> web" where
  "decide_key env decision fingerprint actor reason w =
     (let t = web_secs env; m = w_agents w
      in case decision of
           KeyApprove \<Rightarrow>
             (case decided w (approveKey t (we_uuid env) m fingerprint actor) of
                (Inl a, w1) \<Rightarrow> (a, w1)
              | (Inr row, w1) \<Rightarrow>
                  (c_json 200 (decided_json row),
                   w1\<lparr>w_db := snd (admitApprovedIdentity t (w_agents w1) (k_identity row) (w_db w1))\<rparr>))
         | KeyDeny \<Rightarrow>
             (case decided w (denyKey t (we_uuid env) m fingerprint actor reason) of
                (Inl a, w1) \<Rightarrow> (a, w1) | (Inr row, w1) \<Rightarrow> (c_json 200 (decided_json row), w1))
         | KeyRevoke \<Rightarrow>
             (case reason of
                None \<Rightarrow> (c_fail 400 ''revocation requires a reason (e.g. rotation, compromise)'', w)
              | Some [] \<Rightarrow> (c_fail 400 ''revocation requires a reason (e.g. rotation, compromise)'', w)
              | Some why \<Rightarrow>
                  (case decided w (revokeKey t (we_uuid env) m fingerprint actor why) of
                     (Inl a, w1) \<Rightarrow> (a, w1) | (Inr row, w1) \<Rightarrow> (c_json 200 (decided_json row), w1))))"

text \<open>\<open>body.fingerprint\<close> of a null throws.\<close>

definition post_key_decision :: "key_decision \<Rightarrow> route" where
  "post_key_decision decision env w q =
     (case requireCapability env w q KEY_APPROVE (we_wide env) of
        Inl a \<Rightarrow> (a, w)
      | Inr actor \<Rightarrow>
          (case json_parse (wq_text q) of
             None \<Rightarrow> (c_error 400 ''Invalid JSON body'', w)
           | Some body \<Rightarrow>
               if body = JNull then (answerUnhandled, w)
               else (case given_string (jget body ''fingerprint'') of
                       None \<Rightarrow>
                         (c_error 400 (''Missing or invalid '' @ CHR 0x22 # ''fingerprint'' @ CHR 0x22 # '' field''), w)
                     | Some fingerprint \<Rightarrow>
                         decide_key env decision fingerprint actor (as_string (jget body ''reason'')) w)))"

section \<open>Reading\<close>

definition listed_key :: "key_row \<Rightarrow> json" where
  "listed_key k =
     JObj [(''fingerprint'', JStr (k_fingerprint k)), (''identity'', JStr (k_identity k)),
           (''public_key'', JStr (k_public_key k)), (''proposed_at'', JStr (sql_time (k_proposed_at k)))]"

definition get_keys_pending :: route where
  "get_keys_pending env w q =
     (case requireCapabilityAnyScope env w q KEY_APPROVE of
        Inl a \<Rightarrow> (a, w)
      | Inr actor \<Rightarrow>
          (let rows = listPendingKeys (w_agents w); mine = ownedBy (w_agents w) actor DEFAULT_TENANT;
               shown = (if has_cap (we_wide env) (w_agents w) actor (we_cap env KEY_APPROVE) (we_wide env) DEFAULT_TENANT
                        then rows else filter (\<lambda>k. k_identity k \<in> set mine) rows)
           in (c_json 200 (JObj [(''ok'', JBool True), (''keys'', JArr (map listed_key shown))]), w)))"

definition key_row_json :: "key_row \<Rightarrow> json" where
  "key_row_json k =
     JObj [(''fingerprint'', JStr (k_fingerprint k)), (''identity'', JStr (k_identity k)),
           (''public_key'', JStr (k_public_key k)), (''status'', JStr (key_status_text (k_status k))),
           (''proposed_at'', JStr (sql_time (k_proposed_at k))), (''decided_at'', opt_secs (k_decided_at k)),
           (''decided_by'', nullable (k_decided_by k))]"

definition key_event_row_json :: "key_event_row \<Rightarrow> json" where
  "key_event_row_json e =
     JObj [(''id'', JStr (ke_id e)), (''identity'', JStr (ke_identity e)), (''fingerprint'', JStr (ke_fingerprint e)),
           (''action'', JStr (key_action_text (ke_action e))), (''reason'', nullable (ke_reason e)),
           (''actor'', nullable (ke_actor e)), (''occurred_at'', JStr (sql_time (ke_occurred_at e)))]"

definition keyHistory :: "agents_db \<Rightarrow> string \<Rightarrow> json" where
  "keyHistory m identity =
     JObj [(''ok'', JBool True), (''identity'', JStr identity),
           (''key_status'', key_status_json (noKeyReason m identity)),
           (''keys'', JArr (map key_row_json (listKeys m identity))),
           (''events'', JArr (map key_event_row_json (listKeyEvents m identity)))]"

definition get_key_history :: route where
  "get_key_history env w q =
     (case requireCapability env w q KEY_APPROVE (we_wide env) of
        Inl a \<Rightarrow> (a, w)
      | Inr actor \<Rightarrow> (c_json 200 (keyHistory (w_agents w) (wq_param q ''identity'')), w))"

section \<open>The stream of proposals\<close>

record proposal =
  pp_identity :: string
  pp_fingerprint :: string
  pp_type :: "string option"
  pp_proposed_at :: secs

definition pendingSince :: "agents_db \<Rightarrow> proposal list" where
  "pendingSince m =
     map (\<lambda>k. \<lparr>pp_identity = k_identity k, pp_fingerprint = k_fingerprint k,
               pp_type = (case sql_get (\<lambda>a. ag_identity a = k_identity k) (db_agents m) of
                            None \<Rightarrow> None | Some a \<Rightarrow> ag_type a),
               pp_proposed_at = k_proposed_at k\<rparr>)
       (order_asc k_proposed_at (order_asc k_fingerprint (sql_where (\<lambda>k. k_status k = Pending) (db_keys m))))"

definition watch_start :: "agents_db \<Rightarrow> string list" where
  "watch_start m = remdups (map pp_fingerprint (pendingSince m))"

fun announce :: "proposal list \<Rightarrow> string list \<Rightarrow> proposal list \<times> string list" where
  "announce [] reported = ([], reported)"
| "announce (p # ps) reported =
     (if pp_fingerprint p \<in> set reported then announce ps reported
      else case announce ps (pp_fingerprint p # reported) of (sent, r) \<Rightarrow> (p # sent, r))"

definition watch_tick :: "agents_db \<Rightarrow> string list \<Rightarrow> proposal list \<times> string list" where
  "watch_tick m reported = announce (pendingSince m) reported"

text \<open>The announcements of a stream, over the databases that its ticks read.\<close>

fun watch_run :: "agents_db list \<Rightarrow> string list \<Rightarrow> proposal list" where
  "watch_run [] reported = []"
| "watch_run (m # ms) reported =
     (case watch_tick m reported of (sent, r) \<Rightarrow> sent @ watch_run ms r)"

section \<open>What a decision changes\<close>

lemma keyByFingerprint_event [simp]: "keyByFingerprint (appendEvent t u m i fp' a r actor) fp = keyByFingerprint m fp"
  by (simp add: keyByFingerprint_def appendEvent_def)

lemma requireKey_found: "requireKey m fp ex = Inr row \<Longrightarrow> keyByFingerprint m fp = Some row"
  by (auto simp: requireKey_def split: option.splits if_splits)

lemma approveKey_row:
  assumes "approveKey t u m fp actor = Inr (Some row, m')"
  shows "keyByFingerprint m' fp = Some row \<and> k_status row = Approved \<and> k_decided_by row = Some actor"
proof -
  from assms obtain m1 i n where "m' = appendEvent t (u n) (decideKey t m1 fp Approved actor) i fp AApproved None actor"
    and "Some row = keyByFingerprint m' fp"
    by (auto simp: approveKey_def Let_def split: sum.splits option.splits)
  then show ?thesis
    by (cases "keyByFingerprint m1 fp") (auto simp: keyByFingerprint_decide keyByFingerprint_fp)
qed

lemma decided_row_exists:
  "approveKey t u m fp actor \<noteq> Inr (None, m')"
  "denyKey t u m fp actor r \<noteq> Inr (None, m')"
  "revokeKey t u m fp actor why \<noteq> Inr (None, m')"
  by (auto simp: approveKey_def denyKey_def revokeKey_def Let_def keyByFingerprint_decide
      dest!: requireKey_found split: sum.splits option.splits)

lemma admitRegistryAgent_approves: "isRegistryAgentApproved (admitRegistryAgent t d i ds ty) i"
  by (simp add: isRegistryAgentApproved_def getRegistryAgent_def admitRegistryAgent_def approve_row_def sql_get_upsert
      split: option.split)

lemma admitRegistryAgent_others:
  "i' \<noteq> i \<Longrightarrow> isRegistryAgentApproved (admitRegistryAgent t d i ds ty) i' = isRegistryAgentApproved d i'"
  by (simp add: isRegistryAgentApproved_def getRegistryAgent_def admitRegistryAgent_def approve_row_def sql_get_upsert)

definition live_agent :: "agents_db \<Rightarrow> string \<Rightarrow> bool" where
  "live_agent m i \<longleftrightarrow> (\<exists>a\<in>set (db_agents m). ag_identity a = i \<and> ag_deleted_at a = None)"

lemma admitApprovedIdentity_iff: "fst (admitApprovedIdentity t m i d) \<longleftrightarrow> live_agent m i"
  by (auto simp: admitApprovedIdentity_def live_agent_def sql_get_None_iff dest: sql_get_SomeD split: option.split)

lemma admitApprovedIdentity_registry:
  "isRegistryAgentApproved (snd (admitApprovedIdentity t m i d)) i' \<longleftrightarrow>
     isRegistryAgentApproved d i' \<or> i' = i \<and> live_agent m i"
proof (cases "live_agent m i")
  case True
  then obtain row where "sql_get (\<lambda>a. ag_identity a = i \<and> ag_deleted_at a = None) (db_agents m) = Some row"
    using admitApprovedIdentity_iff [of t m i d] by (auto simp: admitApprovedIdentity_def split: option.splits)
  with True show ?thesis
    by (cases "i' = i") (simp_all add: admitApprovedIdentity_def admitRegistryAgent_approves admitRegistryAgent_others)
next
  case False
  then have "sql_get (\<lambda>a. ag_identity a = i \<and> ag_deleted_at a = None) (db_agents m) = None"
    by (auto simp: sql_get_None_iff live_agent_def)
  with False show ?thesis by (simp add: admitApprovedIdentity_def)
qed

section \<open>Theorems\<close>

lemma admit_each_exact:
  "distinct is \<Longrightarrow> fst (admit_each t m is d) = filter (\<lambda>i. live_agent m i \<and> \<not> isRegistryAgentApproved d i) is \<and>
     (\<forall>i. isRegistryAgentApproved (snd (admit_each t m is d)) i \<longleftrightarrow>
        isRegistryAgentApproved d i \<or> i \<in> set is \<and> live_agent m i)"
proof (induction "is" arbitrary: d)
  case Nil
  then show ?case by simp
next
  case (Cons i rest)
  show ?case
  proof (cases "isRegistryAgentApproved d i")
    case True
    with Cons show ?thesis by auto
  next
    case False
    let ?d1 = "snd (admitApprovedIdentity t m i d)"
    have same: "filter (\<lambda>j. live_agent m j \<and> \<not> isRegistryAgentApproved ?d1 j) rest =
        filter (\<lambda>j. live_agent m j \<and> \<not> isRegistryAgentApproved d j) rest"
      by (rule filter_cong) (use Cons.prems in \<open>auto simp: admitApprovedIdentity_registry\<close>)
    have "admitApprovedIdentity t m i d = (live_agent m i, ?d1)"
      using admitApprovedIdentity_iff [of t m i d] by (simp add: prod_eq_iff)
    then have step: "admit_each t m (i # rest) d =
        (if live_agent m i then i # fst (admit_each t m rest ?d1) else fst (admit_each t m rest ?d1),
         snd (admit_each t m rest ?d1))"
      using False by (cases "admitApprovedIdentity t m i d"; cases "admit_each t m rest ?d1") simp
    from Cons.prems have "distinct rest" by simp
    note IH = Cons.IH [OF this, of ?d1]
    have names: "fst (admit_each t m rest ?d1) = filter (\<lambda>j. live_agent m j \<and> \<not> isRegistryAgentApproved d j) rest"
      using IH same by simp
    have "isRegistryAgentApproved (snd (admit_each t m rest ?d1)) j \<longleftrightarrow>
        isRegistryAgentApproved d j \<or> j \<in> set (i # rest) \<and> live_agent m j" for j
      using IH admitApprovedIdentity_registry [of t m i d j] by (cases "j = i") auto
    then show ?thesis using False names unfolding step by simp
  qed
qed

lemma set_approved_identities:
  "i \<in> set (approved_identities m) \<longleftrightarrow> (\<exists>k\<in>set (db_keys m). k_identity k = i \<and> k_status k = Approved)"
  by (auto simp: approved_identities_def sql_simps)

text \<open>
  at its start the server admits to its registry exactly the identities that are not approved there yet,
  are not torn down and have an approved key, in the order of their names; nothing else in the registry
  becomes approved and nothing loses its approval.
\<close>

theorem boot_admits_exactly_the_approved_keys:
  "fst (admitApprovedIdentities t m d) =
     filter (\<lambda>i. live_agent m i \<and> \<not> isRegistryAgentApproved d i) (approved_identities m) \<and>
   (\<forall>i. isRegistryAgentApproved (snd (admitApprovedIdentities t m d)) i \<longleftrightarrow>
      isRegistryAgentApproved d i \<or>
      live_agent m i \<and> (\<exists>k\<in>set (db_keys m). k_identity k = i \<and> k_status k = Approved))"
proof -
  have "distinct (approved_identities m)" by (simp add: approved_identities_def)
  from admit_each_exact [OF this, of t m d] show ?thesis
    unfolding admitApprovedIdentities_def set_approved_identities by blast
qed


text \<open>The announcements of a tick are the pending keys that were not announced.\<close>

lemma announce_exact:
  "set (map pp_fingerprint (fst (announce ps reported))) = pp_fingerprint ` set ps - set reported \<and>
   distinct (map pp_fingerprint (fst (announce ps reported))) \<and>
   set (snd (announce ps reported)) = set reported \<union> pp_fingerprint ` set ps"
proof (induction ps arbitrary: reported)
  case Nil
  then show ?case by simp
next
  case (Cons p ps)
  show ?case
  proof (cases "pp_fingerprint p \<in> set reported")
    case True
    with Cons.IH [of reported] show ?thesis by auto
  next
    case False
    obtain sent r where a: "announce ps (pp_fingerprint p # reported) = (sent, r)" by fastforce
    with Cons.IH [of "pp_fingerprint p # reported"]
    have "set (map pp_fingerprint sent) = pp_fingerprint ` set ps - insert (pp_fingerprint p) (set reported)"
      "distinct (map pp_fingerprint sent)" "set r = insert (pp_fingerprint p) (set reported) \<union> pp_fingerprint ` set ps"
      by simp_all
    with a False show ?thesis by auto
  qed
qed

lemma watch_run_exact:
  "set (map pp_fingerprint (watch_run ms reported)) = (\<Union>m\<in>set ms. pp_fingerprint ` set (pendingSince m)) - set reported \<and>
   distinct (map pp_fingerprint (watch_run ms reported))"
proof (induction ms arbitrary: reported)
  case Nil
  then show ?case by simp
next
  case (Cons m ms)
  obtain sent r where t: "watch_tick m reported = (sent, r)" by fastforce
  with announce_exact [of "pendingSince m" reported]
  have s: "set (map pp_fingerprint sent) = pp_fingerprint ` set (pendingSince m) - set reported"
    "distinct (map pp_fingerprint sent)" "set r = set reported \<union> pp_fingerprint ` set (pendingSince m)"
    by (simp_all add: watch_tick_def)
  have "watch_run (m # ms) reported = sent @ watch_run ms r" using t by simp
  then show ?case using Cons.IH [of r] s by auto
qed

lemma pending_fingerprints:
  "pp_fingerprint ` set (pendingSince m) = {k_fingerprint k |k. k \<in> set (db_keys m) \<and> k_status k = Pending}"
  by (auto simp: pendingSince_def sql_simps image_image)

text \<open>
  the stream of key proposals announces every fingerprint at most once, and announces exactly those that
  were pending at one of its ticks and not when it was opened. A key that is withdrawn by a newer proposal and
  then proposed again while the stream is open is therefore not announced again.
\<close>

theorem stream_announces_each_key_once:
  "distinct (map pp_fingerprint (watch_run ms (watch_start m0))) \<and>
   set (map pp_fingerprint (watch_run ms (watch_start m0))) =
     (\<Union>m\<in>set ms. {k_fingerprint k |k. k \<in> set (db_keys m) \<and> k_status k = Pending}) -
     {k_fingerprint k |k. k \<in> set (db_keys m0) \<and> k_status k = Pending}"
  using watch_run_exact [of ms "watch_start m0"]
  by (simp add: watch_start_def pending_fingerprints [symmetric])

end
