(* ===== verification/Web_Mesh.thy ===== *)
theory Web_Mesh
  imports Web_Keys
begin

text \<open>
  The console's routes over the identity store, of \<open>packages/http/src/main.ts\<close>: pairing codes, ownership,
  \<open>can_proxy\<close>, groups and egress, agent types, teardown, and the reads of observed sources and of the
  mailboxes' depth. The store operations are those of the package \<open>store\<close>.

  A pairing code's time to live may be a fraction of a second; it counts as its whole part. The mode in which
  the hub observes addresses is what the hub answers and a parameter.

  Its properties are in \<open>Web_Console_Facts\<close>: who may use each of these routes.
\<close>

section \<open>Pairing codes and ownership\<close>

definition PAIRING_TTL_MAX_SECONDS :: int where
  "PAIRING_TTL_MAX_SECONDS = 3600"

definition ttl_of :: "json \<Rightarrow> (json \<times> int) option" where
  "ttl_of v =
     (case js_Number v of
        Some (JInt i) \<Rightarrow> if 0 < i \<and> i \<le> PAIRING_TTL_MAX_SECONDS then Some (JInt i, i) else None
      | Some (JReal s) \<Rightarrow>
          if starts_with ''-'' s then None
          else (case whole_part s of
                  None \<Rightarrow> None
                | Some n \<Rightarrow> if n < PAIRING_TTL_MAX_SECONDS then Some (JReal s, n) else None)
      | _ \<Rightarrow> None)"

definition post_pairing_codes :: route where
  "post_pairing_codes env w q =
     (case requireCapability env w q AGENT_PROVISION (we_wide env) of
        Inl a \<Rightarrow> (a, w)
      | Inr actor \<Rightarrow>
          (case json_parse (wq_text q) of
             None \<Rightarrow> (c_fail 400 ''invalid JSON body'', w)
           | Some body \<Rightarrow>
               (case as_string (jget body ''identity'') of
                  None \<Rightarrow> (c_fail 400 (''identity is required and must match the '' @ utf8 0xA7 @ '' 10.1 pattern''), w)
                | Some identity \<Rightarrow>
                    if \<not> we_identity env identity then
                      (c_fail 400 (''identity is required and must match the '' @ utf8 0xA7 @ '' 10.1 pattern''), w)
                    else (case ttl_of (or_else (jget body ''ttl_seconds'') (we_pairing_ttl env)) of
                            None \<Rightarrow> (c_fail 400 (''ttl_seconds must be 1..'' @ int_text PAIRING_TTL_MAX_SECONDS), w)
                          | Some (ttl, secs) \<Rightarrow>
                              (case issueCode (web_secs env) (we_draws env) (w_agents w) None identity actor secs of
                                 Inl _ \<Rightarrow> (answerUnhandled, w)
                               | Inr (None, m) \<Rightarrow> (answerUnhandled, w\<lparr>w_agents := m\<rparr>)
                               | Inr (Some code, m) \<Rightarrow>
                                   (c_json 201 (JObj [(''ok'', JBool True), (''code'', JStr (pc_code code)),
                                      (''identity'', JStr identity), (''expires_at'', JStr (sql_time (pc_expires_at code))),
                                      (''ttl_seconds'', ttl)]), w\<lparr>w_agents := m\<rparr>))))))"

definition observed_address :: "web_request \<Rightarrow> string option" where
  "observed_address q =
     (let hop = (case wq_forwarded_for q of None \<Rightarrow> [] | Some h \<Rightarrow> trim (last (split_on (CHR '','') h)))
      in if hop \<noteq> [] then Some hop
         else case wq_real_ip q of Some (c # cs) \<Rightarrow> Some (c # cs) | _ \<Rightarrow> None)"

fun redeem_text :: "redeem_refusal \<Rightarrow> string" where
  "redeem_text RdUnknown = ''unknown''"
| "redeem_text RdExpired = ''expired''"
| "redeem_text RdAlreadyRedeemed = ''already-redeemed''"

definition post_redeem :: route where
  "post_redeem env w q =
     (case json_parse (wq_text q) of
        None \<Rightarrow> (c_fail 400 ''invalid JSON body'', w)
      | Some body \<Rightarrow>
          (case (as_string (jget body ''code''), as_string (jget body ''owner'')) of
             (Some code, Some claimant) \<Rightarrow>
               (case redeem (web_secs env) (w_agents w) code claimant (observed_address q) of
                  (RedeemRefused r, m) \<Rightarrow>
                    (c_json (if r = RdUnknown then 404 else 409)
                       (JObj [(''ok'', JBool False), (''reason'', JStr (redeem_text r)),
                              (''error'', JStr (''pairing code '' @ redeem_text r))]), w\<lparr>w_agents := m\<rparr>)
                | (Redeemed identity claimant', m) \<Rightarrow>
                    (c_json 200 (JObj [(''ok'', JBool True), (''identity'', JStr identity), (''owner'', JStr claimant')]),
                     w\<lparr>w_agents := m\<rparr>))
           | _ \<Rightarrow> (c_fail 400 ''code and owner are required'', w)))"

definition get_owned :: route where
  "get_owned env w q =
     (case requireCapabilityAnyScope env w q KEY_APPROVE of
        Inl a \<Rightarrow> (a, w)
      | Inr actor \<Rightarrow>
          (c_json 200 (JObj [(''ok'', JBool True), (''owner'', JStr actor),
             (''identities'', JArr (map JStr (ownedBy (w_agents w) actor DEFAULT_TENANT)))]), w))"

definition badIdentity :: web_answer where
  "badIdentity = c_fail 400 ''invalid identity format (must match ^[A-Za-z0-9][A-Za-z0-9-]*$)''"

definition set_can_proxy :: "bool \<Rightarrow> string \<Rightarrow> agents_db \<Rightarrow> agents_db" where
  "set_can_proxy b identity m =
     m\<lparr>db_agents := sql_update (\<lambda>a. ag_identity a = identity) (\<lambda>a. a\<lparr>ag_can_proxy := (if b then 1 else 0)\<rparr>) (db_agents m)\<rparr>"

definition post_can_proxy :: route where
  "post_can_proxy env w q =
     (let identity = wq_param q ''identity''
      in case requireCapability env w q AGENT_PROVISION identity of
           Inl a \<Rightarrow> (a, w)
         | Inr actor \<Rightarrow>
             if \<not> we_identity env identity then (badIdentity, w)
             else (case json_parse (wq_text q) of
                     None \<Rightarrow> (c_fail 400 ''invalid JSON body'', w)
                   | Some body \<Rightarrow>
                       (case jget body ''can_proxy'' of
                          Some (JBool b) \<Rightarrow>
                            if \<not> sql_exists (\<lambda>a. ag_identity a = identity \<and> ag_deleted_at a = None) (db_agents (w_agents w))
                            then (c_fail 404 (''identity '' @ quoted identity @ '' is not registered''), w)
                            else (c_json 200 (JObj [(''ok'', JBool True), (''identity'', JStr identity), (''can_proxy'', JBool b)]),
                                  w\<lparr>w_agents := set_can_proxy b identity (w_agents w)\<rparr>)
                        | _ \<Rightarrow> (c_fail 400 ''can_proxy must be a boolean'', w))))"

definition owner_json :: "owner_row \<Rightarrow> json" where
  "owner_json r =
     JObj [(''tenant'', JStr (ow_tenant r)), (''identity'', JStr (ow_identity r)), (''owner'', JStr (ow_owner r)),
           (''granted_at'', JStr (sql_time (ow_granted_at r))), (''granted_by'', JStr (ow_granted_by r))]"

definition get_owners :: route where
  "get_owners env w q =
     (case requireCapability env w q AGENT_PROVISION (we_wide env) of
        Inl a \<Rightarrow> (a, w)
      | Inr actor \<Rightarrow>
          (let identity = wq_param q ''identity''
           in if \<not> we_identity env identity then (c_fail 400 ''invalid identity format'', w)
              else (c_json 200 (JObj [(''ok'', JBool True), (''identity'', JStr identity),
                      (''owners'', JArr (map owner_json (owners (w_agents w) identity DEFAULT_TENANT)))]), w)))"

section \<open>Groups and egress\<close>

definition group_json :: "agents_db \<Rightarrow> string \<Rightarrow> group_row \<Rightarrow> json" where
  "group_json m tenant g =
     JObj [(''tenant'', JStr (gr_tenant g)), (''group_id'', JStr (gr_group_id g)),
           (''description'', nullable (gr_description g)), (''created_at'', JStr (sql_time (gr_created_at g))),
           (''created_by'', JStr (gr_created_by g)), (''members'', JArr (map JStr (membersOf m (gr_group_id g) tenant)))]"

definition egress_json :: "string \<Rightarrow> egress_row \<Rightarrow> json" where
  "egress_json tenant e =
     JObj [(''tenant'', JStr tenant), (''from_group'', JStr (eg_from_group e)), (''to_group'', JStr (eg_to_group e)),
           (''granted_by'', JStr (eg_granted_by e)), (''granted_at'', JStr (sql_time (eg_granted_at e)))]"

definition get_groups :: route where
  "get_groups env w q =
     (case requireCapability env w q GROUP_MANAGE (we_wide env) of
        Inl a \<Rightarrow> (a, w)
      | Inr actor \<Rightarrow>
          (let m = w_agents w;
               tenants = (if actor \<in> set (administratorLogins (w_db w)) then map te_id (listTenants m True)
                          else [tenantOfSession (w_db w) actor])
           in (c_json 200 (JObj [(''ok'', JBool True), (''tenant'', JStr (tenantOfSession (w_db w) actor)),
                 (''groups'', JArr (concat (map (\<lambda>tn. map (group_json m tn) (listGroups m tn)) tenants))),
                 (''egress'', JArr (concat (map (\<lambda>tn. map (egress_json tn) (listEgress m tn)) tenants)))]), w)))"

definition GROUP_CREATE_FIELDS :: "string list" where
  "GROUP_CREATE_FIELDS = [''group_id'', ''description'', ''tenant'']"

definition unsupported_fields :: "json \<Rightarrow> string list" where
  "unsupported_fields body =
     filter (\<lambda>k. k \<notin> set GROUP_CREATE_FIELDS) (map fst (entries_of body))"

definition unsupported_answer :: "string list \<Rightarrow> web_answer" where
  "unsupported_answer ks =
     c_fail 400 (''unsupported field(s): '' @ join_with '', '' ks @
       ''. This route accepts group_id, description and tenant.'' @
       (if ''members'' \<in> set ks
        then '' Membership is singular: POST /api/v1/admin/groups/{group_id}/members, one identity per call.'' else []))"

definition post_groups :: route where
  "post_groups env w q =
     (case requireCapability env w q GROUP_MANAGE (we_wide env) of
        Inl a \<Rightarrow> (a, w)
      | Inr actor \<Rightarrow>
          (case json_parse (wq_text q) of
             None \<Rightarrow> (c_fail 400 ''invalid JSON body'', w)
           | Some body \<Rightarrow>
               (case as_string (jget body ''group_id'') of
                  None \<Rightarrow> (name_rule ''group_id'', w)
                | Some groupId \<Rightarrow>
                    if \<not> we_identity env groupId then (name_rule ''group_id'', w)
                    else if unsupported_fields body \<noteq> [] then (unsupported_answer (unsupported_fields body), w)
                    else (case tenantForWrite w actor (jget body ''tenant'') of
                            Inl a \<Rightarrow> (a, w)
                          | Inr tenant \<Rightarrow>
                              (case createGroup (web_secs env) (w_agents w) (Some tenant) groupId
                                      (as_string (jget body ''description'')) actor of
                                 (created, m) \<Rightarrow>
                                   (c_json (if created then 201 else 200)
                                      (JObj [(''ok'', JBool True), (''group_id'', JStr groupId), (''tenant'', JStr tenant),
                                             (''created'', JBool created)]), w\<lparr>w_agents := m\<rparr>))))))"

definition post_group_members :: route where
  "post_group_members env w q =
     (case requireCapability env w q GROUP_MANAGE (we_wide env) of
        Inl a \<Rightarrow> (a, w)
      | Inr actor \<Rightarrow>
          (let groupId = wq_param q ''group_id''
           in case json_parse (wq_text q) of
                None \<Rightarrow> (c_fail 400 ''invalid JSON body'', w)
              | Some body \<Rightarrow>
                  (case as_string (jget body ''identity'') of
                     None \<Rightarrow> (c_fail 400 ''identity is required'', w)
                   | Some identity \<Rightarrow>
                       if \<not> we_identity env identity then (c_fail 400 ''identity is required'', w)
                       else (case tenantForWrite w actor (jget body ''tenant'') of
                               Inl a \<Rightarrow> (a, w)
                             | Inr tenant \<Rightarrow>
                                 if \<not> list_ex (\<lambda>g. gr_group_id g = groupId) (listGroups (w_agents w) tenant) then
                                   (c_fail 404 (''no group '' @ quoted groupId @ '' in tenant '' @ quoted tenant), w)
                                 else (c_json 200 (JObj [(''ok'', JBool True), (''identity'', JStr identity),
                                         (''tenant'', JStr tenant),
                                         (''from_group'', JStr (groupOf (w_agents w) identity tenant)),
                                         (''to_group'', JStr groupId)]),
                                       w\<lparr>w_agents := moveTo (web_secs env) (w_agents w) (Some tenant) identity groupId actor\<rparr>)))))"

definition post_group_egress :: route where
  "post_group_egress env w q =
     (case requireCapability env w q GROUP_MANAGE (we_wide env) of
        Inl a \<Rightarrow> (a, w)
      | Inr actor \<Rightarrow>
          (case json_parse (wq_text q) of
             None \<Rightarrow> (c_fail 400 ''invalid JSON body'', w)
           | Some body \<Rightarrow>
               (case as_string (jget body ''to_group'') of
                  None \<Rightarrow> (c_fail 400 ''to_group is required'', w)
                | Some toGroup \<Rightarrow>
                    if \<not> we_identity env toGroup then (c_fail 400 ''to_group is required'', w)
                    else (case tenantForWrite w actor (jget body ''tenant'') of
                            Inl a \<Rightarrow> (a, w)
                          | Inr tenant \<Rightarrow>
                              (c_json 201 (JObj [(''ok'', JBool True), (''tenant'', JStr tenant),
                                 (''from_group'', JStr (wq_param q ''group_id'')), (''to_group'', JStr toGroup)]),
                               w\<lparr>w_agents := allowEgress (web_secs env) (w_agents w) (Some tenant)
                                   (wq_param q ''group_id'') toGroup actor\<rparr>)))))"

definition deleted_answer :: "bool \<Rightarrow> web_answer" where
  "deleted_answer removed =
     c_json 200 (JObj [(''ok'', JBool True), (''action'', JStr (if removed then ''deleted'' else ''not-found''))])"

definition delete_group_egress :: route where
  "delete_group_egress env w q =
     (case requireCapability env w q GROUP_MANAGE (we_wide env) of
        Inl a \<Rightarrow> (a, w)
      | Inr actor \<Rightarrow>
          (case tenantForWrite w actor (map_option JStr (wq_query q ''tenant'')) of
             Inl a \<Rightarrow> (a, w)
           | Inr tenant \<Rightarrow>
               (case revokeEgress (w_agents w) (Some tenant) (wq_param q ''group_id'') (wq_param q ''to_group'') of
                  (removed, m) \<Rightarrow> (deleted_answer removed, w\<lparr>w_agents := m\<rparr>))))"

section \<open>Agent types\<close>

definition type_json :: "agent_type_row \<Rightarrow> json" where
  "type_json t =
     JObj [(''type'', JStr (ty_type t)), (''description'', nullable (ty_description t)),
           (''requires_key'', JInt (ty_requires_key t)), (''created_at'', JStr (sql_time (ty_created_at t)))]"

definition get_agent_types :: route where
  "get_agent_types env w q =
     (case requireCapability env w q AGENT_PROVISION (we_wide env) of
        Inl a \<Rightarrow> (a, w)
      | Inr actor \<Rightarrow>
          (c_json 200 (JObj [(''ok'', JBool True), (''types'', JArr (map type_json (listTypes (w_agents w))))]), w))"

text \<open>\<open>body.type\<close> of a null throws.\<close>

definition post_agent_types :: route where
  "post_agent_types env w q =
     (case requireCapability env w q AGENT_PROVISION (we_wide env) of
        Inl a \<Rightarrow> (a, w)
      | Inr actor \<Rightarrow>
          (case json_parse (wq_text q) of
             None \<Rightarrow> (c_fail 400 ''Invalid JSON body'', w)
           | Some body \<Rightarrow>
               if body = JNull then (answerUnhandled, w)
               else (case as_string (jget body ''type'') of
                       None \<Rightarrow> (name_rule ''type'', w)
                     | Some ty \<Rightarrow>
                         if \<not> we_identity env ty then (name_rule ''type'', w)
                         else (let rk = jget body ''requires_key'';
                                   requiresKey = (if rk = Some (JInt 0) \<or> rk = Some (JBool False) then 0 else 1)
                               in case addType (web_secs env) (w_agents w) ty (as_string (jget body ''description'')) requiresKey of
                                    (None, m) \<Rightarrow>
                                      (c_coded 409 (''type '' @ quoted ty @ '' already exists'') ''TYPE_EXISTS'' [], w\<lparr>w_agents := m\<rparr>)
                                  | (Some row, m) \<Rightarrow>
                                      (c_json 201 (JObj [(''ok'', JBool True), (''type'', type_json row)]), w\<lparr>w_agents := m\<rparr>)))))"

definition delete_agent_type :: route where
  "delete_agent_type env w q =
     (case requireCapability env w q AGENT_PROVISION (we_wide env) of
        Inl a \<Rightarrow> (a, w)
      | Inr actor \<Rightarrow>
          (let ty = wq_param q ''type''
           in case removeType (w_agents w) ty of
                ((removed, inUseBy), m) \<Rightarrow>
                  (if \<not> removed \<and> inUseBy \<noteq> [] then
                     c_coded 409 (''type '' @ quoted ty @ '' is carried by '' @ int_text (int (length inUseBy)) @
                         '' identity/identities'') ''TYPE_IN_USE'' [(''identities'', JArr (map JStr (take 20 inUseBy)))]
                   else c_json 200 (JObj [(''ok'', JBool True), (''type'', JStr ty),
                          (''action'', JStr (if removed then ''deleted'' else ''not-found''))]),
                   w\<lparr>w_agents := m\<rparr>)))"

section \<open>Teardown\<close>

fun teardown_text :: "teardown_action \<Rightarrow> string" where
  "teardown_text SoftDeleted = ''soft-deleted''"
| "teardown_text AlreadyDeleted = ''already-deleted''"
| "teardown_text TdNotFound = ''not-found''"

definition teardownAs :: "web_env \<Rightarrow> web \<Rightarrow> string \<Rightarrow> string \<Rightarrow> web_answer \<times> web" where
  "teardownAs env w actor identity =
     (case teardownIdentity (web_secs env) (we_uuid env) (w_agents w) identity actor of
        (result, m) \<Rightarrow>
          (c_json 200 (JObj ([(''ok'', JBool True), (''identity'', JStr (td_identity result)),
             (''action'', JStr (teardown_text (td_action result)))] @
             (case td_deletedAt result of None \<Rightarrow> [] | Some t \<Rightarrow> [(''deleted_at'', JStr (sql_time t))]))),
           w\<lparr>w_agents := m\<rparr>))"

text \<open>The two ways past a missing capability: ownership, and managing the group of the identity.\<close>

definition owns_for_teardown :: "web_env \<Rightarrow> agents_db \<Rightarrow> string \<Rightarrow> string \<Rightarrow> bool" where
  "owns_for_teardown env m subject identity \<longleftrightarrow>
     hasAny m subject (we_cap env AGENT_TEARDOWN) DEFAULT_TENANT \<and> isOwner m subject identity DEFAULT_TENANT"

definition manages_group_of :: "web_env \<Rightarrow> agents_db \<Rightarrow> string \<Rightarrow> string \<Rightarrow> bool" where
  "manages_group_of env m subject identity \<longleftrightarrow>
     has_cap (we_wide env) m subject (we_cap env GROUP_MANAGE) (groupOf m identity DEFAULT_TENANT) DEFAULT_TENANT \<and>
     \<not> has_cap (we_wide env) m subject (we_cap env GROUP_MANAGE) (we_wide env) DEFAULT_TENANT"

definition delete_agent :: route where
  "delete_agent env w q =
     (let identity = wq_param q ''identity''
      in case requireCapability env w q AGENT_TEARDOWN identity of
           Inr actor \<Rightarrow> if \<not> we_identity env identity then (badIdentity, w) else teardownAs env w actor identity
         | Inl a \<Rightarrow>
             (case extractJwt env w q of
                None \<Rightarrow> (a, w)
              | Some payload \<Rightarrow>
                  (let subject = jp_github_login payload
                   in if subject = [] \<or> \<not> (owns_for_teardown env (w_agents w) subject identity \<or>
                                          manages_group_of env (w_agents w) subject identity) then (a, w)
                      else if \<not> we_identity env identity then (badIdentity, w)
                      else teardownAs env w subject identity)))"

section \<open>Reading sources and mailboxes\<close>

definition source_json :: "source_row \<Rightarrow> json" where
  "source_json s =
     JObj [(''identity'', JStr (so_identity s)), (''observed'', JStr (so_observed s)),
           (''first_seen'', JStr (sql_time (so_first_seen s))), (''last_seen'', JStr (sql_time (so_last_seen s))),
           (''requests'', JInt (so_requests s))]"

definition evidence_note :: "json \<Rightarrow> string" where
  "evidence_note mode =
     (if mode = JStr ''forwarded'' then
        ''Addresses come from X-Forwarded-For via a trusted proxy. They are evidence only while the hub is '' @
        ''unreachable except through that proxy, which the hub cannot verify.''
      else if mode = JStr ''socket'' then ''Addresses are the kernel-observed peer of each connection.''
      else ''The hub did not answer; the mode is unknown.'')"

text \<open>An empty \<open>identity\<close> fails the pattern. \<open>mode\<close> is what the hub answered, or null.\<close>

definition get_agent_sources :: "json \<Rightarrow> route" where
  "get_agent_sources mode env w q =
     (case requireCapability env w q SOURCE_READ (we_wide env) of
        Inl a \<Rightarrow> (a, w)
      | Inr actor \<Rightarrow>
          (let all_rows = db_sources (w_agents w); identity = wq_query q ''identity''
           in if identity \<noteq> None \<and> \<not> we_identity env (the identity) then (c_fail 400 ''invalid identity format'', w)
              else (let given = (identity \<noteq> None \<and> the identity \<noteq> []);
                        rows = (if given
                                then order_desc so_last_seen (sql_where (\<lambda>s. so_identity s = the identity) all_rows)
                                else take 500 (order_desc so_last_seen all_rows))
                    in (c_json 200 (JObj [(''ok'', JBool True), (''observed_source'', mode),
                          (''evidence_note'', JStr (evidence_note mode)), (''sources'', JArr (map source_json rows)),
                          (''sources_total'', JInt (int (length (if given then rows else all_rows)))),
                          (''sources_shown'', JInt (int (length rows)))]), w))))"

definition leased_now :: "secs \<Rightarrow> message_row \<Rightarrow> bool" where
  "leased_now t m = (case ms_leased_until m of None \<Rightarrow> False | Some u \<Rightarrow> t \<le> u)"

definition pending_messages :: "hub_db \<Rightarrow> message_row list" where
  "pending_messages h = sql_where (\<lambda>m. ms_status m = MPending) (hb_messages h)"

definition mailbox_depth :: "secs \<Rightarrow> hub_db \<Rightarrow> string \<Rightarrow> json" where
  "mailbox_depth t h identity =
     (let ms = filter (\<lambda>m. ms_to_agent m = identity) (pending_messages h)
      in JObj [(''identity'', JStr identity), (''pending'', JInt (int (length ms))),
               (''leased'', JInt (int (length (filter (leased_now t) ms)))),
               (''oldest'', JStr (sql_time (Min (ms_ts ` set ms))))])"

definition depth_of :: "hub_db \<Rightarrow> string \<Rightarrow> nat" where
  "depth_of h identity = length (filter (\<lambda>m. ms_to_agent m = identity) (pending_messages h))"

definition get_mailbox :: route where
  "get_mailbox env w q =
     (case requireCapability env w q MAILBOX_READ_DEPTH (we_wide env) of
        Inl a \<Rightarrow> (a, w)
      | Inr actor \<Rightarrow>
          (let h = w_hub w; ids = remdups (map ms_to_agent (pending_messages h))
           in (c_json 200 (JObj [(''ok'', JBool True),
                 (''mailboxes'', JArr (map (mailbox_depth (web_secs env) h) (order_desc (depth_of h) ids))),
                 (''total_queued'', JInt (int (length (pending_messages h))))]), w)))"

text \<open>\<open>Math.min(Math.max(Number(limit ?? d) || d, lo), hi)\<close> for the texts of integers; anything else that is a
  number and no integer would not bind as a limit.\<close>

definition clamped :: "int \<Rightarrow> int \<Rightarrow> int \<Rightarrow> string option \<Rightarrow> int" where
  "clamped d lo hi text =
     (let n = (case js_Number (case text of None \<Rightarrow> JInt d | Some s \<Rightarrow> JStr s) of
                 Some (JInt i) \<Rightarrow> if i = 0 then d else i
               | _ \<Rightarrow> d)
      in min (max n lo) hi)"

definition get_mailbox_of :: route where
  "get_mailbox_of env w q =
     (case requireCapability env w q MAILBOX_READ_DEPTH (we_wide env) of
        Inl a \<Rightarrow> (a, w)
      | Inr actor \<Rightarrow>
          (let identity = wq_param q ''identity'';
               ms = take (nat (clamped 100 1 500 (wq_query q ''limit'')))
                      (order_asc ms_ts (filter (\<lambda>m. ms_to_agent m = identity) (pending_messages (w_hub w))))
           in if \<not> we_identity env identity then (c_fail 400 ''invalid identity format'', w)
              else (c_json 200 (JObj [(''ok'', JBool True), (''identity'', JStr identity),
                      (''messages'', JArr (map (\<lambda>m. JObj [(''id'', JStr (ms_id m)), (''from'', JStr (ms_from_agent m)),
                         (''ts'', JStr (sql_time (ms_ts m))), (''size'', JInt (int (sql_length (ms_content m)))),
                         (''leased'', JBool (leased_now (web_secs env) m))]) ms))]), w)))"

end
