(* ===== verification/Web_Grants.thy ===== *)
theory Web_Grants
  imports Web_Mesh
begin

text \<open>
  The console's routes over tenants and capabilities, of \<open>packages/http/src/main.ts\<close>: the directory of tenants
  and its three writes, the grants, and \<open>revokeStrandsTheTenant\<close>, the rule that keeps somebody able to grant.

  Its properties are in \<open>Web_Console_Grants\<close>: a revocation that is carried out leaves somebody who can grant.
\<close>

section \<open>Tenants\<close>

definition tenant_json :: "tenant_row \<Rightarrow> json" where
  "tenant_json r =
     JObj [(''id'', JStr (te_id r)), (''name'', JStr (te_name r)), (''created_at'', JStr (sql_time (te_created_at r))),
           (''deleted_at'', opt_secs (te_deleted_at r))]"

definition opt_tenant :: "tenant_row option \<Rightarrow> json" where
  "opt_tenant x = (case x of None \<Rightarrow> JNull | Some r \<Rightarrow> tenant_json r)"

definition get_tenant_directory :: route where
  "get_tenant_directory env w q =
     (case extractJwt env w q of
        None \<Rightarrow> (c_error 401 ''Unauthorized'', w)
      | Some payload \<Rightarrow>
          (let actor = jp_github_login payload
           in if \<not> isUserApproved (w_db w) actor (jp_role payload) then
                (c_json 403 (JObj [(''ok'', JBool False), (''error'', JStr ''Your access is pending approval''),
                   (''approved'', JBool False)]), w)
              else (let isPlatformAdmin = actor \<in> set (administratorLogins (w_db w));
                        mine = tenantOfSession (w_db w) actor;
                        all_rows = listTenants (w_agents w) isPlatformAdmin;
                        visible = (if isPlatformAdmin then all_rows else filter (\<lambda>t. te_id t = mine) all_rows)
                    in (c_json 200 (JObj [(''ok'', JBool True), (''tenant'', JStr mine),
                          (''tenants'', JArr (map tenant_json visible))]), w))))"

definition named_name :: "json \<Rightarrow> string option" where
  "named_name body =
     (case as_string (jget body ''name'') of None \<Rightarrow> None | Some n \<Rightarrow> if trim n = [] then None else Some (trim n))"

definition post_tenants :: route where
  "post_tenants env w q =
     (case requirePlatformAdmin env w q of
        Inl a \<Rightarrow> (a, w)
      | Inr actor \<Rightarrow>
          (case json_parse (wq_text q) of
             None \<Rightarrow> (c_fail 400 ''invalid JSON body'', w)
           | Some body \<Rightarrow>
               (case as_string (jget body ''id'') of
                  None \<Rightarrow> (name_rule ''id'', w)
                | Some i \<Rightarrow>
                    if \<not> we_identity env i then (name_rule ''id'', w)
                    else (case named_name body of
                            None \<Rightarrow> (c_fail 400 ''name is required'', w)
                          | Some name \<Rightarrow>
                              (case createTenant (web_secs env) (w_agents w) i name of
                                 (False, m) \<Rightarrow>
                                   (case getTenant m i of
                                      None \<Rightarrow> (answerUnhandled, w\<lparr>w_agents := m\<rparr>)
                                    | Some existing \<Rightarrow>
                                        (c_coded 409
                                           (if te_deleted_at existing \<noteq> None
                                            then ''tenant '' @ quoted i @ '' was deleted; its id stays taken because other rows still name it''
                                            else ''tenant '' @ quoted i @ '' already exists'') ''TENANT_EXISTS'' [],
                                         w\<lparr>w_agents := m\<rparr>))
                               | (True, m) \<Rightarrow>
                                   (c_json 201 (JObj [(''ok'', JBool True), (''tenant'', opt_tenant (getTenant m i))]),
                                    w\<lparr>w_agents := m\<rparr>))))))"

definition patch_tenant :: route where
  "patch_tenant env w q =
     (case requirePlatformAdmin env w q of
        Inl a \<Rightarrow> (a, w)
      | Inr actor \<Rightarrow>
          (let i = wq_param q ''id''
           in case json_parse (wq_text q) of
                None \<Rightarrow> (c_fail 400 ''invalid JSON body'', w)
              | Some body \<Rightarrow>
                  (case named_name body of
                     None \<Rightarrow> (c_fail 400 ''name is required'', w)
                   | Some name \<Rightarrow>
                       (case renameTenant (w_agents w) i name of
                          (False, m) \<Rightarrow> (c_fail 404 (''no such tenant: '' @ i), w\<lparr>w_agents := m\<rparr>)
                        | (True, m) \<Rightarrow>
                            (c_json 200 (JObj [(''ok'', JBool True), (''tenant'', opt_tenant (getTenant m i))]),
                             w\<lparr>w_agents := m\<rparr>)))))"

definition delete_tenant :: route where
  "delete_tenant env w q =
     (case requirePlatformAdmin env w q of
        Inl a \<Rightarrow> (a, w)
      | Inr actor \<Rightarrow>
          (let i = wq_param q ''id''
           in if i = DEFAULT_TENANT then
                (c_coded 409 ''the default tenant cannot be deleted: every row whose tenant nobody stated is in it''
                   ''DEFAULT_TENANT'' [], w)
              else (case getTenant (w_agents w) i of
                      None \<Rightarrow>
                        (c_json 200 (JObj [(''ok'', JBool True), (''action'', JStr ''not-found''), (''tenant'', JNull)]), w)
                    | Some row \<Rightarrow>
                        if te_deleted_at row \<noteq> None then
                          (c_json 200 (JObj [(''ok'', JBool True), (''action'', JStr ''already-deleted''),
                             (''tenant'', tenant_json row)]), w)
                        else (let m = snd (deleteTenant (web_secs env) (w_agents w) i)
                              in (c_json 200 (JObj [(''ok'', JBool True), (''action'', JStr ''deleted''),
                                    (''tenant'', opt_tenant (getTenant m i))]), w\<lparr>w_agents := m\<rparr>)))))"

section \<open>Grants\<close>

definition revokeStrandsTheTenant :: "string \<Rightarrow> (string \<times> string) list \<Rightarrow> string \<Rightarrow> json \<Rightarrow> bool" where
  "revokeStrandsTheTenant wide holders subject scope \<longleftrightarrow>
     \<not> list_ex (\<lambda>(s, sc). sc = wide) (filter (\<lambda>(s, sc). \<not> (s = subject \<and> JStr sc = scope)) holders)"

definition grant_json :: "grant_row \<Rightarrow> json" where
  "grant_json g =
     JObj [(''tenant'', JStr (rg_tenant g)), (''subject'', JStr (rg_subject g)), (''capability'', JStr (rg_capability g)),
           (''scope'', JStr (rg_scope g)), (''granted_by'', JStr (rg_granted_by g)),
           (''granted_at'', JStr (sql_time (rg_granted_at g)))]"

definition unknown_capability :: "web_env \<Rightarrow> json option \<Rightarrow> web_answer" where
  "unknown_capability env cap =
     c_json 400 (JObj [(''ok'', JBool False),
       (''error'', JStr (''unknown capability: '' @ (case cap of None \<Rightarrow> ''undefined'' | Some c \<Rightarrow> js_String c))),
       (''capabilities'', JArr (map JStr (we_caps env)))])"

definition immutable_reason :: "web_env \<Rightarrow> web \<Rightarrow> string \<Rightarrow> string \<times> string \<Rightarrow> string option" where
  "immutable_reason env w cap row =
     (if fst row \<in> set (protectedSubjects (w_db w)) then Some ''protected_account''
      else if cap = we_cap env ROLE_GRANT \<and>
              revokeStrandsTheTenant (we_wide env) (subjectsWith (w_agents w) (we_cap env ROLE_GRANT) DEFAULT_TENANT)
                (fst row) (JStr (snd row))
      then Some ''last_grantor'' else None)"

definition grant_cell :: "web_env \<Rightarrow> web \<Rightarrow> string \<Rightarrow> string \<times> string \<Rightarrow> json" where
  "grant_cell env w cap row =
     JObj ([(''capability'', JStr cap), (''subject'', JStr (fst row)), (''scope'', JStr (snd row))] @
       (case immutable_reason env w cap row of
          None \<Rightarrow> [(''revocable'', JBool True)]
        | Some r \<Rightarrow> [(''revocable'', JBool False), (''immutable_reason'', JStr r)]))"

definition get_grants :: route where
  "get_grants env w q =
     (case requireCapability env w q ROLE_GRANT (we_wide env) of
        Inl a \<Rightarrow> (a, w)
      | Inr actor \<Rightarrow>
          (case (wq_query q ''subject'', wq_query q ''capability'') of
             (Some (c # cs), _) \<Rightarrow>
               (c_json 200 (JObj [(''ok'', JBool True),
                  (''grants'', JArr (map grant_json (listFor (w_agents w) (c # cs) DEFAULT_TENANT)))]), w)
           | (_, Some (c # cs)) \<Rightarrow>
               if (c # cs) \<notin> set (we_caps env) then (unknown_capability env (Some (JStr (c # cs))), w)
               else (c_json 200 (JObj [(''ok'', JBool True), (''capability'', JStr (c # cs)),
                       (''subjects'', JArr (map (\<lambda>(s, sc). JObj [(''subject'', JStr s), (''scope'', JStr sc)])
                          (subjectsWith (w_agents w) (c # cs) DEFAULT_TENANT)))]), w)
           | _ \<Rightarrow>
               (c_json 200 (JObj [(''ok'', JBool True), (''capabilities'', JArr (map JStr (we_caps env))),
                  (''immutable_subjects'', JArr (map JStr (protectedSubjects (w_db w)))),
                  (''grants'', JArr (concat (map (\<lambda>cap. map (grant_cell env w cap)
                     (subjectsWith (w_agents w) cap DEFAULT_TENANT)) (we_caps env))))]), w)))"

text \<open>A scope that is no text, number, boolean or null cannot be bound and throws.\<close>

definition post_grants :: route where
  "post_grants env w q =
     (case requireCapability env w q ROLE_GRANT (we_wide env) of
        Inl a \<Rightarrow> (a, w)
      | Inr actor \<Rightarrow>
          (case json_parse (wq_text q) of
             None \<Rightarrow> (c_fail 400 ''invalid JSON body'', w)
           | Some body \<Rightarrow>
               (let scope = jget body ''scope'' in
                case (given_string (jget body ''subject''), jget body ''capability'') of
                  (None, _) \<Rightarrow> (c_fail 400 ''subject is required'', w)
                | (Some subject, Some (JStr cap)) \<Rightarrow>
                    if cap \<notin> set (we_caps env) then (unknown_capability env (Some (JStr cap)), w)
                    else (case sql_bind scope of
                            None \<Rightarrow> (answerUnhandled, w)
                          | Some sc \<Rightarrow>
                              (case grant_cap (we_caps env) (we_wide env) (web_secs env) (w_agents w) None subject cap sc actor of
                                 Inl _ \<Rightarrow> (answerUnhandled, w)
                               | Inr m \<Rightarrow>
                                   (c_json 201 (JObj [(''ok'', JBool True), (''subject'', JStr subject), (''capability'', JStr cap),
                                      (''scope'', or_else scope (JStr (we_wide env)))]), w\<lparr>w_agents := m\<rparr>)))
                | (Some subject, cap) \<Rightarrow> (unknown_capability env cap, w))))"

definition protected_answer :: "string \<Rightarrow> string \<Rightarrow> web_answer" where
  "protected_answer subject cap =
     c_coded 409 (subject @ '' is a protected account; its capabilities are restored at startup and cannot be revoked here'')
       ''PROTECTED_ACCOUNT'' [(''capability'', JStr cap)]"

definition last_grantor_answer :: "web_env \<Rightarrow> string \<Rightarrow> web_answer" where
  "last_grantor_answer env subject =
     c_coded 409 (subject @ '' is the only tenant-wide holder of '' @ we_cap env ROLE_GRANT @ ''; grant it to somebody else first'')
       ''LAST_GRANTOR'' [(''capability'', JStr (we_cap env ROLE_GRANT))]"

definition delete_grants :: route where
  "delete_grants env w q =
     (case requireCapability env w q ROLE_GRANT (we_wide env) of
        Inl a \<Rightarrow> (a, w)
      | Inr actor \<Rightarrow>
          (case json_parse (wq_text q) of
             None \<Rightarrow> (c_fail 400 ''invalid JSON body'', w)
           | Some body \<Rightarrow>
               (let scope = jget body ''scope'' in
                case (as_string (jget body ''subject''), as_string (jget body ''capability'')) of
                  (Some subject, Some cap) \<Rightarrow>
                    if subject \<in> set (protectedSubjects (w_db w)) then (protected_answer subject cap, w)
                    else if cap = we_cap env ROLE_GRANT \<and>
                            revokeStrandsTheTenant (we_wide env) (subjectsWith (w_agents w) (we_cap env ROLE_GRANT) DEFAULT_TENANT)
                              subject (or_else scope (JStr (we_wide env)))
                    then (last_grantor_answer env subject, w)
                    else (case sql_bind scope of
                            None \<Rightarrow> (answerUnhandled, w)
                          | Some sc \<Rightarrow>
                              (case revoke_cap (we_wide env) (w_agents w) None subject cap sc of
                                 (removed, m) \<Rightarrow> (deleted_answer removed, w\<lparr>w_agents := m\<rparr>)))
                | _ \<Rightarrow> (c_fail 400 ''subject and capability are required'', w))))"

end
