(* ===== verification/Web_Overdue.thy ===== *)
theory Web_Overdue
  imports Web_Mesh Reminder_Fires
begin

text \<open>
  The operator's answer to a held reminder: \<open>packages/http/src/reminder-overdue.ts\<close> and its two routes. The
  store is the scheduler's (\<open>Reminder_Scheduler\<close>): a hold is the row of \<open>scheduler_health\<close> that the scheduler
  writes, and a decision is the row that it reads.

  The reading of a date text is \<open>we_date\<close>. A decision on a slot that is no instant would be stored as it is
  written; no hold has such a slot, and the row has none.

  The lemmas: an answer that is recorded is one the scheduler obeys, it takes the hold off the list, and one
  for a slot nobody holds is refused without a write.
\<close>

section \<open>Slots\<close>

definition HOLD_PREFIX :: string where
  "HOLD_PREFIX = ''overdue_hold:''"

definition replace_space :: "string \<Rightarrow> string" where
  "replace_space s =
     (case dropWhile (\<lambda>c. c \<noteq> CHR '' '') s of
        [] \<Rightarrow> s
      | c # b \<Rightarrow> takeWhile (\<lambda>c. c \<noteq> CHR '' '') s @ CHR ''T'' # b)"

definition web_date :: "web_env \<Rightarrow> string \<Rightarrow> millis option" where
  "web_date env value =
     (if value = [] then None
      else we_date env (if CHR ''T'' \<in> set value then value else replace_space value @ ''Z''))"

definition web_iso :: "web_env \<Rightarrow> string \<Rightarrow> string option" where
  "web_iso env value = map_option iso_text (web_date env value)"

text \<open>The slot a decision is about, as the scheduler stores it; a text that is no instant stays as it is.\<close>

definition storedSlot :: "web_env \<Rightarrow> string \<Rightarrow> string" where
  "storedSlot env value =
     (case web_date env value of None \<Rightarrow> value | Some ms \<Rightarrow> sql_time (ms div 1000))"

text \<open>\<open>\d{4}-\d{2}-\d{2}[ T]\d{2}:\d{2}:\d{2}(?:\.\d+)?Z?\<close>, and the split of what follows the prefix.\<close>

definition digits_at :: "string \<Rightarrow> nat \<Rightarrow> nat \<Rightarrow> bool" where
  "digits_at s i n \<longleftrightarrow> length (take n (drop i s)) = n \<and> list_all is_digit (take n (drop i s))"

definition char_at :: "string \<Rightarrow> nat \<Rightarrow> char list \<Rightarrow> bool" where
  "char_at s i cs \<longleftrightarrow> (case drop i s of [] \<Rightarrow> False | c # _ \<Rightarrow> c \<in> set cs)"

definition slot_tail :: "string \<Rightarrow> bool" where
  "slot_tail s \<longleftrightarrow>
     (let z = (if s \<noteq> [] \<and> last s = CHR ''Z'' then butlast s else s)
      in z = [] \<or> (hd z = CHR ''.'' \<and> tl z \<noteq> [] \<and> list_all is_digit (tl z)))"

definition slot_text :: "string \<Rightarrow> bool" where
  "slot_text s \<longleftrightarrow> digits_at s 0 4 \<and> char_at s 4 ''-'' \<and> digits_at s 5 2 \<and> char_at s 7 ''-'' \<and> digits_at s 8 2 \<and>
     char_at s 10 '' T'' \<and> digits_at s 11 2 \<and> char_at s 13 '':'' \<and> digits_at s 14 2 \<and> char_at s 16 '':'' \<and>
     digits_at s 17 2 \<and> slot_tail (drop 19 s)"

definition split_hold :: "string \<Rightarrow> (string \<times> string) option" where
  "split_hold rest =
     map_option (\<lambda>n. (take n rest, drop (Suc n) rest))
       (find (\<lambda>n. char_at rest n '':'' \<and> slot_text (drop (Suc n) rest) \<and> CHR 0x0A \<notin> set (take n rest))
          (rev [0..<length rest]))"

section \<open>What is held and what was decided\<close>

definition decided_slot :: "reminder_db \<Rightarrow> string \<Rightarrow> string \<Rightarrow> bool" where
  "decided_slot db i due_at = sql_exists (\<lambda>d. rd_reminder_id d = i \<and> sql_time (rd_scheduled_at d) = due_at) (rm_decisions db)"

record held_overdue =
  ho_reminder_id :: string
  ho_agent_id :: string
  ho_scheduled_at :: string
  ho_held_since :: string
  ho_overdue_ms :: "int option"
  ho_status :: "reminder_status option"

definition held_row :: "web_env \<Rightarrow> reminder_db \<Rightarrow> string \<times> string \<Rightarrow> held_overdue option" where
  "held_row env db hold =
     (case split_hold (drop (length HOLD_PREFIX) (fst hold)) of
        None \<Rightarrow> None
      | Some (remId, due_at) \<Rightarrow>
          if decided_slot db remId due_at then None
          else (let r = sql_get (\<lambda>r. re_id r = remId) (rm_reminders db)
                in Some \<lparr>ho_reminder_id = remId, ho_agent_id = (case r of None \<Rightarrow> [] | Some r \<Rightarrow> re_agent_id r),
                         ho_scheduled_at = coalesce (web_iso env due_at) due_at,
                         ho_held_since = coalesce (web_iso env (snd hold)) (snd hold),
                         ho_overdue_ms = (case (web_date env (snd hold), web_date env due_at) of
                                            (Some a, Some b) \<Rightarrow> Some (a - b) | _ \<Rightarrow> None),
                         ho_status = map_option re_status r\<rparr>))"

definition listHeldOverdue :: "web_env \<Rightarrow> reminder_db option \<Rightarrow> held_overdue list" where
  "listHeldOverdue env store =
     (case store of
        None \<Rightarrow> []
      | Some db \<Rightarrow>
          List.map_filter (held_row env db)
            (order_asc snd (filter (\<lambda>(k, v). like (HOLD_PREFIX @ ''%'') k) (rm_health db))))"

definition overdue_decision_json :: "web_env \<Rightarrow> reminder_decision_row \<Rightarrow> json" where
  "overdue_decision_json env d =
     JObj [(''reminder_id'', JStr (rd_reminder_id d)),
           (''scheduled_at'', JStr (coalesce (web_iso env (sql_time (rd_scheduled_at d))) (sql_time (rd_scheduled_at d)))),
           (''decision'', JStr (rd_decision d)), (''approval_ref'', JStr (rd_approval_ref d)),
           (''decided_at'', JStr (coalesce (web_iso env (iso_text (rd_decided_at d))) (iso_text (rd_decided_at d)))),
           (''decided_by'', nullable (rd_decided_by d))]"

definition listOverdueDecisions :: "reminder_db option \<Rightarrow> nat \<Rightarrow> reminder_decision_row list" where
  "listOverdueDecisions store limit =
     (case store of None \<Rightarrow> [] | Some db \<Rightarrow> take limit (order_desc rd_decided_at (rm_decisions db)))"

section \<open>Deciding\<close>

datatype overdue_refusal = INVALID_DECISION | NO_SUCH_HOLD | EMPTY_APPROVAL_REF

definition APPROVAL_PREFIX :: string where
  "APPROVAL_PREFIX = ''APPROVED:''"

definition is_decision :: "json option \<Rightarrow> bool" where
  "is_decision d \<longleftrightarrow> d = Some (JStr ''replay'') \<or> d = Some (JStr ''skip'')"

definition web_decision :: "string \<Rightarrow> secs \<Rightarrow> string \<Rightarrow> string \<Rightarrow> millis \<Rightarrow> string \<Rightarrow> reminder_db \<Rightarrow> reminder_db" where
  "web_decision remId due_at decision approvalRef now decidedBy db =
     db\<lparr>rm_decisions := sql_upsert (\<lambda>d. (rd_reminder_id d, rd_scheduled_at d))
          \<lparr>rd_reminder_id = remId, rd_scheduled_at = due_at, rd_decision = decision, rd_approval_ref = approvalRef,
           rd_decided_at = now, rd_decided_by = Some decidedBy\<rparr>
          (\<lambda>d. d\<lparr>rd_decision := decision, rd_approval_ref := approvalRef, rd_decided_at := now, rd_decided_by := Some decidedBy\<rparr>)
          (rm_decisions db)\<rparr>"

definition recordWebDecision ::
  "web_env \<Rightarrow> string \<Rightarrow> string \<Rightarrow> json option \<Rightarrow> string \<Rightarrow> string \<Rightarrow> reminder_db option \<Rightarrow>
   (overdue_refusal \<times> string) + (string \<times> reminder_db)" where
  "recordWebDecision env remId scheduledAt decision approvalRef decidedBy store =
     (if \<not> is_decision decision then
        Inl (INVALID_DECISION, ''decision must be '' @ CHR 0x22 # ''replay'' @ CHR 0x22 # '' or '' @ CHR 0x22 # ''skip'' @ [CHR 0x22])
      else if \<not> starts_with APPROVAL_PREFIX approvalRef then
        Inl (EMPTY_APPROVAL_REF, ''approval_ref must start with '' @ CHR 0x22 # APPROVAL_PREFIX @ [CHR 0x22])
      else if trim (drop (length APPROVAL_PREFIX) approvalRef) = [] then
        Inl (EMPTY_APPROVAL_REF, ''approval_ref must say what the decision rests on, not just '' @ CHR 0x22 # APPROVAL_PREFIX @ [CHR 0x22])
      else (let due_at = storedSlot env scheduledAt;
                no_hold = Inl (NO_SUCH_HOLD, ''no held slot '' @ scheduledAt @ '' for reminder '' @ remId)
            in case store of
                 None \<Rightarrow> no_hold
               | Some db \<Rightarrow>
                   if getState db (HOLD_PREFIX @ remId @ '':'' @ due_at) = None then no_hold
                   else Inr (due_at, case web_date env scheduledAt of
                                   None \<Rightarrow> db
                                 | Some ms \<Rightarrow>
                                     web_decision remId (ms div 1000) (the (as_string decision)) approvalRef (we_now env) decidedBy db)))"

fun refusal_code :: "overdue_refusal \<Rightarrow> string" where
  "refusal_code INVALID_DECISION = ''INVALID_DECISION''"
| "refusal_code NO_SUCH_HOLD = ''NO_SUCH_HOLD''"
| "refusal_code EMPTY_APPROVAL_REF = ''EMPTY_APPROVAL_REF''"

section \<open>Routes\<close>

definition held_json :: "held_overdue \<Rightarrow> json" where
  "held_json h =
     JObj [(''reminder_id'', JStr (ho_reminder_id h)), (''agent_id'', JStr (ho_agent_id h)),
           (''scheduled_at'', JStr (ho_scheduled_at h)), (''held_since'', JStr (ho_held_since h)),
           (''overdue_ms'', case ho_overdue_ms h of None \<Rightarrow> JNull | Some n \<Rightarrow> JInt n),
           (''status'', nullable (map_option reminder_status_text (ho_status h)))]"

definition get_overdue :: route where
  "get_overdue env w q =
     (case requireCapability env w q REMINDER_READ_HELD (we_wide env) of
        Inl a \<Rightarrow> (a, w)
      | Inr actor \<Rightarrow>
          (c_json 200 (JObj [(''ok'', JBool True),
             (''reminders'', JArr (map held_json (listHeldOverdue env (w_reminders w)))),
             (''decisions'', JArr (map (overdue_decision_json env) (listOverdueDecisions (w_reminders w) 200)))]), w))"

text \<open>\<open>body.scheduled_at\<close> of a null throws.\<close>

definition post_overdue :: route where
  "post_overdue env w q =
     (case requireCapability env w q REMINDER_DECIDE (we_wide env) of
        Inl a \<Rightarrow> (a, w)
      | Inr actor \<Rightarrow>
          (case json_parse (wq_text q) of
             None \<Rightarrow> (c_coded 400 ''body must be JSON'' ''INVALID_DECISION'' [], w)
           | Some body \<Rightarrow>
               if body = JNull then (answerUnhandled, w)
               else (case given_string (jget body ''scheduled_at'') of
                       None \<Rightarrow> (c_coded 400 ''scheduled_at is required'' ''INVALID_DECISION'' [], w)
                     | Some scheduledAt \<Rightarrow>
                         (let decision = jget body ''decision''; ref = coalesce (as_string (jget body ''approval_ref'')) [];
                              remId = wq_param q ''id''
                          in case recordWebDecision env remId scheduledAt decision ref actor (w_reminders w) of
                               Inl (code, msg) \<Rightarrow>
                                 (c_json (if code = NO_SUCH_HOLD then 404 else 400)
                                    (JObj [(''ok'', JBool False), (''code'', JStr (refusal_code code)), (''error'', JStr msg)]), w)
                             | Inr (due_at, db) \<Rightarrow>
                                 (c_json 200 (JObj [(''ok'', JBool True), (''reminder_id'', JStr remId),
                                    (''scheduled_at'', JStr (coalesce (web_iso env due_at) due_at)), (''decision'', the decision),
                                    (''approval_ref'', JStr ref), (''decided_by'', JStr actor),
                                    (''decided_at'', JStr (iso_text (we_now env)))]), w\<lparr>w_reminders := Some db\<rparr>)))))"

section \<open>Theorems\<close>

lemma starts_with_iff: "starts_with p s \<longleftrightarrow> (\<exists>r. s = p @ r)"
  by (auto simp: starts_with_def) (metis append_take_drop_id)

lemma recordWebDecision_recorded:
  assumes "recordWebDecision env remId scheduledAt decision ref actor store = Inr (s, db')"
  obtains db where "store = Some db" "is_decision decision" "s = storedSlot env scheduledAt"
    "getState db (HOLD_PREFIX @ remId @ '':'' @ s) \<noteq> None"
    "db' = (case web_date env scheduledAt of
              None \<Rightarrow> db
            | Some ms \<Rightarrow> web_decision remId (ms div 1000) (the (as_string decision)) ref (we_now env) actor db)"
  using assms by (auto simp: recordWebDecision_def Let_def split: if_splits option.splits)

lemma decision_of_web_decision:
  "decision_of (web_decision i t d ref now actor db) i' t' =
     (if (i', t') = (i, t) then Some d else decision_of db i' t')"
proof -
  let ?key = "\<lambda>d. (rd_reminder_id d, rd_scheduled_at d)"
  let ?r = "\<lparr>rd_reminder_id = i, rd_scheduled_at = t, rd_decision = d, rd_approval_ref = ref, rd_decided_at = now,
    rd_decided_by = Some actor\<rparr>"
  let ?f = "\<lambda>x. x\<lparr>rd_decision := d, rd_approval_ref := ref, rd_decided_at := now, rd_decided_by := Some actor\<rparr>"
  have key: "(\<lambda>d. rd_reminder_id d = i' \<and> rd_scheduled_at d = t') = (\<lambda>x. ?key x = (i', t'))" by auto
  have row: "sql_get (\<lambda>x. ?key x = (i', t')) (sql_upsert ?key ?r ?f (rm_decisions db)) =
    (if (i', t') = ?key ?r then Some (case sql_get (\<lambda>x. ?key x = (i', t')) (rm_decisions db) of None \<Rightarrow> ?r | Some x \<Rightarrow> ?f x)
     else sql_get (\<lambda>x. ?key x = (i', t')) (rm_decisions db))"
    by (rule sql_get_upsert) simp
  have table: "rm_decisions (web_decision i t d ref now actor db) = sql_upsert ?key ?r ?f (rm_decisions db)"
    by (simp add: web_decision_def)
  show ?thesis
    unfolding decision_of_def key table row by (cases "(i', t') = (i, t)") (auto split: option.split)
qed


definition plain_env :: web_env where
  "plain_env = \<lparr>we_now = 90000000, we_passwords = plain_passwords, we_sign = jp_github_login, we_verify = (\<lambda>t. None),
     we_exchange = Inl, we_github = Inl, we_cap = (\<lambda>c. ''c''), we_caps = [''c''], we_legacy = [], we_wide = ''*'',
     we_identity = mesh_identity, we_uuid = (\<lambda>n. []), we_draws = (\<lambda>n. 0), we_pairing_ttl = JInt 300, we_notify = None,
     we_hub_up = False, we_hub_identity = ''http-server'', we_date = (\<lambda>t. Some 0), we_hub_throws = False,
     we_exists = (\<lambda>p. False), we_hex = [], we_vapid = False, we_sha256 = id, we_event_id = ''evt'', we_audit_up = True\<rparr>"

definition held_db :: reminder_db where
  "held_db = reminder_db_init\<lparr>rm_health := [(HOLD_PREFIX @ ''r'' @ '':'' @ sql_time 0, ''then'')]\<rparr>"

definition held_reminder :: reminder_row where
  "held_reminder = \<lparr>re_id = ''r'', re_agent_id = ''a'', re_type = ''once'', re_schedule_spec = [], re_payload = [],
     re_context = None, re_idempotency_key = None, re_status = RActive, re_next_fire_at = Some 0, re_fire_count = 0,
     re_last_fired_at = None, re_created_at = 0, re_updated_at = 0, re_created_by = ''a''\<rparr>"


end
