(* ===== verification/Web_Chat.thy ===== *)
theory Web_Chat
  imports Web_Grants Web_Overdue
begin

text \<open>
  Messaging in the web server: of \<open>packages/http/src/main.ts\<close> the routes under \<open>/api/v1/messages\<close>, the list of
  agents, the push subscriptions, the link to the hub with its frames, and the streams that consoles hold open;
  \<open>packages/http/src/send-failure.ts\<close> and \<open>packages/http/src/push.ts\<close>.

  A message that a person sends is stored, handed to the hub, and answered when the hub does or after five
  seconds: \<open>post_messages\<close> is the route up to the wait, \<open>message_sent\<close> what follows it, and the waiting
  messages are part of the state. A frame of the hub is a text. What a stream is written is an effect; a stream
  whose client is gone is taken off by \<open>stream_closed\<close>. The preview on a push notice and the service behind it
  are not modelled, and neither is a frame that names no message or no time.

  Letters are compared without their case as ASCII letters are.

  Its properties are in \<open>Web_Delivery\<close>.
\<close>

section \<open>Streams\<close>

definition sseKey :: "string \<Rightarrow> string \<Rightarrow> string" where
  "sseKey agentId userLogin = agentId @ '':'' @ userLogin"

definition addSSEClient :: "string \<Rightarrow> string \<Rightarrow> nat \<Rightarrow> web \<Rightarrow> web" where
  "addSSEClient agentId userLogin stream w =
     w\<lparr>w_streams := (if (sseKey agentId userLogin, stream) \<in> set (w_streams w) then w_streams w
                     else w_streams w @ [(sseKey agentId userLogin, stream)])\<rparr>"

definition removeSSEClient :: "string \<Rightarrow> string \<Rightarrow> nat \<Rightarrow> web \<Rightarrow> web" where
  "removeSSEClient agentId userLogin stream w =
     w\<lparr>w_streams := filter (\<lambda>x. x \<noteq> (sseKey agentId userLogin, stream)) (w_streams w)\<rparr>"

definition pushToSSE :: "string \<Rightarrow> string \<Rightarrow> string \<Rightarrow> json \<Rightarrow> web \<Rightarrow> web" where
  "pushToSSE agentId userLogin event data w =
     w\<lparr>w_out := w_out w @ map (\<lambda>(k, stream). StreamFrame stream event data)
                            (filter (\<lambda>(k, stream). k = sseKey agentId userLogin) (w_streams w))\<rparr>"

definition ends_with :: "string \<Rightarrow> string \<Rightarrow> bool" where
  "ends_with p s \<longleftrightarrow> starts_with (rev p) (rev s)"

definition hasActiveSSE :: "string \<Rightarrow> web \<Rightarrow> bool" where
  "hasActiveSSE toUser w \<longleftrightarrow> list_ex (\<lambda>(k, stream). ends_with ('':'' @ toUser) k) (w_streams w)"

text \<open>The event stream of one agent, opened and closed; its keepalive is not modelled.\<close>

definition get_events :: "nat \<Rightarrow> route" where
  "get_events stream env w q =
     (case extractJwt env w q of
        None \<Rightarrow> (c_error 401 ''Unauthorized'', w)
      | Some payload \<Rightarrow>
          if \<not> isUserApproved (w_db w) (jp_github_login payload) (jp_role payload) then (c_error 403 ''Forbidden'', w)
          else (let agent = wq_param q ''agentId''; login = jp_github_login payload
                in (c_json 200 JNull,
                    addSSEClient agent login stream
                      (w\<lparr>w_out := w_out w @ [StreamFrame stream ''connected'' (JObj [(''agent'', JStr agent)])]\<rparr>))))"

section \<open>The stream of the audit\<close>

definition RECENT_SENT_MAX :: nat where
  "RECENT_SENT_MAX = 200"

record audit_message =
  am_id :: string
  am_from :: string
  am_to :: string
  am_content :: string
  am_reply_to :: "string option"
  am_status :: "string option"
  am_ts :: string

definition blank :: "string option \<Rightarrow> bool" where
  "blank x \<longleftrightarrow> x = None \<or> x = Some []"

definition auditMatchesFilters :: "audit_message \<Rightarrow> audit_watcher \<Rightarrow> bool" where
  "auditMatchesFilters m f \<longleftrightarrow>
     (blank (aw_from f) \<or> aw_from f = Some (am_from m)) \<and> (blank (aw_to f) \<or> aw_to f = Some (am_to m)) \<and>
     (blank (aw_search f) \<or> has_text (map fold_char (the (aw_search f))) (map fold_char (am_content m)))"

definition audit_message_json :: "audit_message \<Rightarrow> json" where
  "audit_message_json m =
     JObj [(''id'', JStr (am_id m)), (''from_agent'', JStr (am_from m)), (''to_agent'', JStr (am_to m)),
           (''content'', JStr (am_content m)), (''reply_to'', nullable (am_reply_to m)),
           (''status'', nullable (am_status m)), (''ts'', JStr (am_ts m))]"

text \<open>The ids that were sent last, oldest first.\<close>

definition remember_sent :: "string \<Rightarrow> string list \<Rightarrow> string list" where
  "remember_sent i ids =
     (let ids' = ids @ [i] in if length ids' > RECENT_SENT_MAX then tl ids' else ids')"

definition broadcastAuditMessage :: "audit_message \<Rightarrow> web \<Rightarrow> web" where
  "broadcastAuditMessage m w =
     (if am_id m \<in> set (w_recent w) then w
      else w\<lparr>w_recent := remember_sent (am_id m) (w_recent w),
             w_out := w_out w @ map (\<lambda>f. AuditFrame (aw_stream f) (audit_message_json m))
                                  (filter (auditMatchesFilters m) (w_watchers w))\<rparr>)"

section \<open>Push notices\<close>

definition sendPushForMessage :: "web_env \<Rightarrow> string \<Rightarrow> string \<Rightarrow> string \<Rightarrow> web \<Rightarrow> web" where
  "sendPushForMessage env toUser fromAgent content w =
     (if \<not> we_vapid env \<or> hasActiveSSE toUser w then w
      else w\<lparr>w_out := w_out w @ map (\<lambda>s. PushNotice (ps_endpoint s) fromAgent content)
                                  (getPushSubscriptions (w_db w) toUser)\<rparr>)"

text \<open>What a refusal of the push service means: two statuses end a subscription.\<close>

definition readPushFailure :: "int option \<Rightarrow> bool" where
  "readPushFailure status \<longleftrightarrow> status = Some 404 \<or> status = Some 410"

definition push_failed :: "string \<Rightarrow> int option \<Rightarrow> web \<Rightarrow> web" where
  "push_failed endpoint status w =
     (if readPushFailure status then w\<lparr>w_db := deletePushSubscription (w_db w) endpoint\<rparr> else w)"

definition signed_in_and_approved :: "web_env \<Rightarrow> web \<Rightarrow> web_request \<Rightarrow> string \<Rightarrow> web_answer + jwt_payload" where
  "signed_in_and_approved env w q refusal =
     (case extractJwt env w q of
        None \<Rightarrow> Inl (c_error 401 ''Unauthorized'')
      | Some payload \<Rightarrow>
          if isUserApproved (w_db w) (jp_github_login payload) (jp_role payload) then Inr payload
          else Inl (c_error 403 refusal))"

definition ok_answer :: web_answer where
  "ok_answer = c_json 200 (JObj [(''ok'', JBool True)])"

definition endpoint_missing :: web_answer where
  "endpoint_missing = c_error 400 ''Missing subscription data (endpoint, keys.p256dh, keys.auth)''"

definition subscription_fields :: "json \<Rightarrow> json option \<times> json option \<times> json option" where
  "subscription_fields body =
     (let s = jget body ''subscription''; field = (\<lambda>x k. Option.bind x (\<lambda>o'. jget o' k)); ks = field s ''keys''
      in (field s ''endpoint'', field ks ''p256dh'', field ks ''auth''))"

definition post_subscribe :: route where
  "post_subscribe env w q =
     (case signed_in_and_approved env w q ''Forbidden'' of
        Inl a \<Rightarrow> (a, w)
      | Inr payload \<Rightarrow>
          (case json_parse (wq_text q) of
             None \<Rightarrow> (c_error 400 ''Invalid JSON body'', w)
           | Some body \<Rightarrow>
               if body = JNull then (answerUnhandled, w)
               else (case subscription_fields body of
                       (endpoint, p256dh, auth) \<Rightarrow>
                         if \<not> truthy endpoint \<or> \<not> truthy p256dh \<or> \<not> truthy auth then (endpoint_missing, w)
                         else (case (sql_bind endpoint, sql_bind p256dh, sql_bind auth) of
                                 (Some (Some e), Some (Some p), Some (Some a)) \<Rightarrow>
                                   (ok_answer,
                                    w\<lparr>w_db := savePushSubscription (w_db w) (jp_github_login payload) e p a\<rparr>)
                               | _ \<Rightarrow> (answerUnhandled, w)))))"

definition post_unsubscribe :: route where
  "post_unsubscribe env w q =
     (case signed_in_and_approved env w q ''Forbidden'' of
        Inl a \<Rightarrow> (a, w)
      | Inr payload \<Rightarrow>
          (case json_parse (wq_text q) of
             None \<Rightarrow> (c_error 400 ''Invalid JSON body'', w)
           | Some body \<Rightarrow>
               if body = JNull then (answerUnhandled, w)
               else if \<not> truthy (jget body ''endpoint'') then (c_error 400 ''Missing endpoint'', w)
               else (case sql_bind (jget body ''endpoint'') of
                       Some (Some e) \<Rightarrow> (ok_answer, w\<lparr>w_db := deletePushSubscription (w_db w) e\<rparr>)
                     | _ \<Rightarrow> (answerUnhandled, w))))"

section \<open>Sending\<close>

definition attachment_ok :: "json \<Rightarrow> bool" where
  "attachment_ok a \<longleftrightarrow> as_string (jget a ''id'') \<noteq> None \<and> as_string (jget a ''download_url'') \<noteq> None"

definition attachments_of :: "json \<Rightarrow> json list" where
  "attachments_of body = filter attachment_ok (coalesce (as_array (jget body ''attachments'')) [])"

definition when_truthy :: "json option \<Rightarrow> json option" where
  "when_truthy x = (if truthy x then x else None)"

text \<open>The body up to the message: an answer, or the message and what goes over the wire.\<close>

definition message_request :: "web_env \<Rightarrow> web \<Rightarrow> jwt_payload \<Rightarrow> json \<Rightarrow> web_answer + chat_message \<times> string" where
  "message_request env w payload body =
     (let sender = jp_github_login payload; filePath = jget body ''file_path''
      in case (given_string (jget body ''to''), given_string (jget body ''text'')) of
           (None, _) \<Rightarrow> Inl (c_error 400 (''Missing or invalid '' @ CHR 0x22 # ''to'' @ CHR 0x22 # '' field''))
         | (_, None) \<Rightarrow> Inl (c_error 400 (''Missing or invalid '' @ CHR 0x22 # ''text'' @ CHR 0x22 # '' field''))
         | (Some recipient, Some txt) \<Rightarrow>
             if filePath \<noteq> None \<and> as_string filePath = None then
               Inl (c_error 400 (''Invalid '' @ CHR 0x22 # ''file_path'' @ CHR 0x22 # '' field '' @ utf8 0x2014 @ '' must be a string''))
             else if filePath \<noteq> None \<and> \<not> we_exists env (the (as_string filePath)) then
               Inl (c_error 400 (''File not found: '' @ the (as_string filePath)))
             else if \<not> isAllowedToMessage (w_db w) sender (jp_role payload) recipient then
               Inl (c_error 403 (''You are not authorized to message agent '' @ CHR 0x22 # recipient @ [CHR 0x22]))
             else if getRegistryAgent (w_db w) recipient = None then
               Inl (c_json 404 (JObj [(''error'', JStr (''Agent '' @ CHR 0x22 # recipient @ CHR 0x22 # '' not found in registry'')),
                      (''known_agents'', JArr (map JStr (listRegistryAgentIds (w_db w))))]))
             else Inr (\<lparr>cm_id = ''msg_'' @ int_text (we_now env) @ ''_'' @ we_hex env, cm_from = sender, cm_to = recipient,
                        cm_ts = iso_text (we_now env), cm_content = txt, cm_reply_to = when_truthy (jget body ''reply_to''),
                        cm_file_path = given_string filePath\<rparr>,
                       if attachments_of body = [] then txt
                       else json_text (JObj [(''text'', JStr txt), (''attachments'', JArr (attachments_of body))])))"

definition store_message :: "chat_message \<Rightarrow> string \<Rightarrow> web_db \<Rightarrow> web_db option" where
  "store_message m status db =
     (case sql_bind (cm_reply_to m) of
        None \<Rightarrow> None
      | Some reply \<Rightarrow>
          insertMessage db (cm_id m) (cm_from m) (cm_to m) (Some (cm_content m)) reply (cm_file_path m) status (cm_ts m))"

definition markSendFailed :: "string \<Rightarrow> web_db \<Rightarrow> web_db" where
  "markSendFailed i db = snd (updateMessageStatus db i ''failed'')"

definition sent_frame :: "chat_message \<Rightarrow> string \<Rightarrow> json" where
  "sent_frame m status =
     JObj [(''id'', JStr (cm_id m)), (''from'', JStr (cm_from m)), (''to'', JStr (cm_to m)), (''ts'', JStr (cm_ts m)),
           (''content'', JStr (cm_content m)), (''reply_to'', coalesce (cm_reply_to m) JNull),
           (''file_path'', nullable (cm_file_path m)), (''status'', JStr status)]"

definition sent_answer :: "chat_message \<Rightarrow> string \<Rightarrow> web_answer" where
  "sent_answer m status =
     c_json 201 (JObj [(''ok'', JBool True),
       (''message'', JObj ([(''id'', JStr (cm_id m)), (''from'', JStr (cm_from m)), (''to'', JStr (cm_to m)),
                           (''ts'', JStr (cm_ts m)), (''status'', JStr status)] @
                          (case cm_file_path m of None \<Rightarrow> [] | Some f \<Rightarrow> [(''file_path'', JStr f)])))])"

text \<open>What follows the wait; the flag says that the hub answered with an id.\<close>

definition message_sent :: "web_env \<Rightarrow> chat_message \<Rightarrow> bool \<Rightarrow> web \<Rightarrow> web_answer \<times> web" where
  "message_sent env m accepted w =
     (let status = (if accepted then ''pending'' else ''failed'');
          w1 = (if accepted then w else w\<lparr>w_db := markSendFailed (cm_id m) (w_db w)\<rparr>);
          w2 = pushToSSE (cm_to m) (cm_from m) ''message'' (sent_frame m status) w1;
          w3 = pushToSSE (cm_from m) (cm_to m) ''message'' (sent_frame m status) w2
      in (sent_answer m status, sendPushForMessage env (cm_to m) (cm_from m) (cm_content m) w3))"

definition hand_over :: "web_env \<Rightarrow> chat_message \<Rightarrow> string \<Rightarrow> web \<Rightarrow> web" where
  "hand_over env m carried w =
     w\<lparr>w_sends := w_sends w @ [\<lparr>sd_link = w_link w, sd_req = we_now env, sd_handle = w_issued w, sd_msg = m\<rparr>],
       w_issued := Suc (w_issued w),
       w_out := w_out w @ [HubMessage (cm_to m) carried (cm_from m) (cm_reply_to m) (we_now env)]\<rparr>"

text \<open>\<open>None\<close> is the wait for the hub.\<close>

definition post_messages :: "web_env \<Rightarrow> web \<Rightarrow> web_request \<Rightarrow> web_answer option \<times> web" where
  "post_messages env w q =
     (case extractJwt env w q of
        None \<Rightarrow> (Some (c_error 401 (''Unauthorized '' @ utf8 0x2014 @ '' provide Authorization: Bearer <jwt>'')), w)
      | Some payload \<Rightarrow>
          if \<not> isUserApproved (w_db w) (jp_github_login payload) (jp_role payload) then
            (Some (c_error 403 ''Account pending approval''), w)
          else (case json_parse (wq_text q) of
                  None \<Rightarrow> (Some (c_error 400 ''Invalid JSON body''), w)
                | Some body \<Rightarrow>
                    if body = JNull then (Some answerUnhandled, w)
                    else (case message_request env w payload body of
                            Inl a \<Rightarrow> (Some a, w)
                          | Inr (m, carried) \<Rightarrow>
                              (case store_message m ''pending'' (w_db w) of
                                 None \<Rightarrow> (Some answerUnhandled, w)
                               | Some db \<Rightarrow>
                                   if we_hub_up env \<and> \<not> we_hub_throws env then (None, hand_over env m carried (w\<lparr>w_db := db\<rparr>))
                                   else (case message_sent env m False (w\<lparr>w_db := db\<rparr>) of (a, w1) \<Rightarrow> (Some a, w1))))))"

definition settle_send :: "web_env \<Rightarrow> bool \<Rightarrow> pending_send \<Rightarrow> web \<Rightarrow> web" where
  "settle_send env accepted p w =
     (case message_sent env (sd_msg p) accepted w of (a, w1) \<Rightarrow> w1\<lparr>w_out := w_out w1 @ [Reply (sd_handle p) a]\<rparr>)"

definition send_timed_out :: "web_env \<Rightarrow> nat \<Rightarrow> web \<Rightarrow> web" where
  "send_timed_out env h w =
     (case sql_get (\<lambda>p. sd_handle p = h) (w_sends w) of
        None \<Rightarrow> w
      | Some p \<Rightarrow> settle_send env False p (w\<lparr>w_sends := sql_delete (\<lambda>p. sd_handle p = h) (w_sends w)\<rparr>))"

section \<open>Frames of the hub\<close>

text \<open>Every handler of the link whose request id is the frame's is answered.\<close>

definition answered_by :: "nat \<Rightarrow> json \<Rightarrow> pending_send \<Rightarrow> bool" where
  "answered_by link data p \<longleftrightarrow> sd_link p = link \<and> jget data ''id'' = Some (JInt (sd_req p))"

definition result_id :: "json \<Rightarrow> json option" where
  "result_id data = (case jget data ''result'' of None \<Rightarrow> None | Some r \<Rightarrow> jget r ''id'')"

definition on_answer :: "web_env \<Rightarrow> json \<Rightarrow> web \<Rightarrow> web" where
  "on_answer env data w =
     (let ps = filter (answered_by (w_link w) data) (w_sends w)
      in foldl (\<lambda>x p. settle_send env (truthy (result_id data)) p x)
           (w\<lparr>w_sends := sql_delete (answered_by (w_link w) data) (w_sends w)\<rparr>) ps)"

definition on_mesh_message :: "web_env \<Rightarrow> json \<Rightarrow> web \<Rightarrow> web" where
  "on_mesh_message env params w =
     (case (sql_bind (jget params ''id''), sql_bind (jget params ''from''), sql_bind (jget params ''to''),
            sql_bind (jget params ''content''), sql_bind (jget params ''reply_to''), sql_bind (jget params ''ts'')) of
        (Some (Some i), Some (Some sender), Some (Some recipient), Some content, Some reply, Some (Some ts)) \<Rightarrow>
          (case insertMessage (w_db w) i sender recipient content reply None ''delivered'' ts of
             None \<Rightarrow> w
           | Some db \<Rightarrow>
               (let data = JObj [(''id'', JStr i), (''from'', JStr sender), (''to'', JStr recipient), (''ts'', JStr ts),
                                 (''content'', JStr (the content)), (''reply_to'', nullable reply), (''status'', JStr ''delivered'')];
                    w1 = pushToSSE sender recipient ''message'' data (w\<lparr>w_db := db\<rparr>);
                    w2 = pushToSSE recipient sender ''message'' data w1;
                    w3 = broadcastAuditMessage \<lparr>am_id = i, am_from = sender, am_to = recipient, am_content = the content,
                           am_reply_to = reply, am_status = Some ''delivered'', am_ts = ts\<rparr> w2
                in sendPushForMessage env recipient sender (the content) w3))
      | _ \<Rightarrow> w)"

definition on_mesh_delivered :: "json \<Rightarrow> web \<Rightarrow> web" where
  "on_mesh_delivered d w =
     pushToSSE (js_String (coalesce (jget d ''to'') (JStr ''undefined'')))
       (js_String (coalesce (jget d ''from'') (JStr ''undefined''))) ''delivered''
       (JObj [(''id'', coalesce (jget d ''id'') JNull), (''to'', coalesce (jget d ''to'') JNull),
              (''ts'', coalesce (jget d ''ts'') JNull)]) w"

definition hub_frame :: "web_env \<Rightarrow> string \<Rightarrow> web \<Rightarrow> web" where
  "hub_frame env raw w =
     (case json_parse raw of
        None \<Rightarrow> w
      | Some data \<Rightarrow>
          (let m = jget data ''method''; params = jget data ''params'';
               w1 = (if m = Some (JStr ''mesh.message'') \<and> truthy params then on_mesh_message env (the params) w else w);
               w2 = (if m = Some (JStr ''mesh.delivered'') \<and> truthy params then on_mesh_delivered (the params) w1 else w1)
           in on_answer env data w2))"

text \<open>The link is opened: the people of the console are declared to the hub. Its predecessor's handlers stay.\<close>

definition hub_opened :: "web_env \<Rightarrow> web \<Rightarrow> web" where
  "hub_opened env w =
     (let w1 = (w\<lparr>w_link := Suc (w_link w), w_out := w_out w @ [HubProvision (we_hub_identity env) ''service'' ''Agent Mesh Web UI'']\<rparr>);
          webUsers = listApprovedWebUserIds (w_db w1); w2 = provisionAllHumans webUsers w1
      in w2\<lparr>w_out := w_out w2 @ [HubConnect (we_hub_identity env) webUsers]\<rparr>)"

section \<open>Reading\<close>

definition web_message_json :: "web_message \<Rightarrow> json" where
  "web_message_json m =
     JObj [(''id'', JStr (wm_id m)), (''from'', JStr (wm_from m)), (''to'', JStr (wm_to m)), (''content'', JStr (wm_content m)),
           (''reply_to'', nullable (wm_reply_to m)), (''file_path'', nullable (wm_file_path m)), (''status'', JStr (wm_status m)),
           (''ts'', JStr (wm_ts m))]"

text \<open>\<open>Math.min(Math.max(parseInt(limit ?? d) || d, 1), hi)\<close>.\<close>

definition page_size :: "int \<Rightarrow> int \<Rightarrow> string option \<Rightarrow> int" where
  "page_size d hi text =
     (let n = (case text of None \<Rightarrow> d | Some s \<Rightarrow> (case parseInt s of None \<Rightarrow> d | Some i \<Rightarrow> if i = 0 then d else i))
      in min (max n 1) hi)"

definition get_search :: route where
  "get_search env w q =
     (case signed_in_and_approved env w q ''Account pending approval'' of
        Inl a \<Rightarrow> (a, w)
      | Inr payload \<Rightarrow>
          (let query = trim (coalesce (wq_query q ''q'') [])
           in if query = [] then (c_error 400 (''Missing or empty '' @ CHR 0x22 # ''q'' @ CHR 0x22 # '' query parameter''), w)
              else (let results = searchMessages (w_db w) query (jp_github_login payload) (page_size 50 200 (wq_query q ''limit''))
                    in (c_json 200 (JObj [(''query'', JStr query), (''count'', JInt (int (length results))),
                          (''messages'', JArr (map web_message_json results))]), w))))"

definition get_history :: route where
  "get_history env w q =
     (case signed_in_and_approved env w q ''Account pending approval'' of
        Inl a \<Rightarrow> (a, w)
      | Inr payload \<Rightarrow>
          (let agent = wq_param q ''agent'';
               messages = getMessageHistory (w_db w) agent (page_size 20 100 (wq_query q ''limit''))
           in (c_json 200 (JObj [(''agent'', JStr agent), (''count'', JInt (int (length messages))),
                 (''messages'', JArr (map web_message_json messages))]), w)))"

subsection \<open>The list of agents\<close>

definition iso_secs :: "secs option \<Rightarrow> json" where
  "iso_secs x = (case x of None \<Rightarrow> JNull | Some s \<Rightarrow> JStr (date_text s @ ''T'' @ time_text s @ ''Z''))"

definition mesh_row :: "agents_db \<Rightarrow> string \<Rightarrow> agent_row option" where
  "mesh_row m i = sql_get (\<lambda>a. ag_identity a = i) (db_agents m)"

definition tenantOfIdentity :: "agents_db \<Rightarrow> string \<Rightarrow> string" where
  "tenantOfIdentity m i =
     (case mesh_row m i of None \<Rightarrow> DEFAULT_TENANT
      | Some a \<Rightarrow> if ag_deleted_at a = None then ag_tenant a else DEFAULT_TENANT)"

definition sees_everything :: "web \<Rightarrow> jwt_payload \<Rightarrow> bool" where
  "sees_everything w payload \<longleftrightarrow>
     (case getLocalUser (w_db w) (jp_github_login payload) of
        Some u \<Rightarrow> Some (lu_role u)
      | None \<Rightarrow> map_option wu_role (getUser (w_db w) (jp_github_id payload))) = Some ''admin''"

text \<open>The person, what the person owns and the members of the person's group.\<close>

definition near :: "agents_db \<Rightarrow> string \<Rightarrow> string list" where
  "near m actor =
     remdups (actor # ownedBy m actor DEFAULT_TENANT @
              (let g = groupOf m actor DEFAULT_TENANT in if g = [] then [] else placedIn m g DEFAULT_TENANT))"

definition talked_with :: "web_db \<Rightarrow> string list \<Rightarrow> string list" where
  "talked_with db mine =
     concat (map (\<lambda>x. [wm_from x, wm_to x])
       (sql_where (\<lambda>x. wm_from x \<in> set mine \<or> wm_to x \<in> set mine) (wb_messages db)))"

definition visible_to :: "web \<Rightarrow> string \<Rightarrow> string list" where
  "visible_to w actor = (let mine = near (w_agents w) actor in mine @ talked_with (w_db w) mine)"

definition approved_fingerprint :: "agents_db \<Rightarrow> string \<Rightarrow> string option" where
  "approved_fingerprint m i =
     map_option k_fingerprint (sql_get (\<lambda>k. k_identity k = i \<and> k_status k = Approved) (rev (db_keys m)))"

definition agent_json :: "agents_db \<Rightarrow> registry_agent \<Rightarrow> json" where
  "agent_json m e =
     (let row = mesh_row m (rr_id e)
      in JObj [(''id'', JStr (rr_id e)), (''name'', JStr (rr_name e)), (''description'', nullable (rr_description e)),
               (''channel'', JStr (rr_channel e)), (''type'', JStr (rr_type e)), (''created_at'', iso_secs (Some (rr_created_at e))),
               (''last_seen_at'', iso_secs (case row of Some a \<Rightarrow> if ag_deleted_at a = None then ag_last_seen a else None | None \<Rightarrow> None)),
               (''deleted_at'', iso_secs (Option.bind row ag_deleted_at)),
               (''fingerprint'', nullable (approved_fingerprint m (rr_id e))), (''tenant'', JStr (tenantOfIdentity m (rr_id e)))])"

definition get_agents :: route where
  "get_agents env w q =
     (case signed_in_and_approved env w q ''Account pending approval'' of
        Inl a \<Rightarrow> (a, w)
      | Inr payload \<Rightarrow>
          (let m = w_agents w; everything = sees_everything w payload; visible = visible_to w (jp_github_login payload);
               shown = filter (\<lambda>e. (everything \<or> rr_id e \<in> set visible) \<and>
                                   (wq_query q ''tenant'' = None \<or> wq_query q ''tenant'' = Some (tenantOfIdentity m (rr_id e))))
                         (listRegistryAgents (w_db w))
           in (c_json 200 (JObj [(''agents'', JArr (map (agent_json m) shown))]), w)))"

end
