(* ===== verification/Web_Delivery.thy ===== *)
theory Web_Delivery
  imports Web_Chat Mailbox_Queue
begin

text \<open>
  What the messaging of the web server keeps: a person's message is answered once, with the status that is
  stored; a stream is written only what its person is a party to; the search shows a person's own messages and
  the history those of anybody.
\<close>

section \<open>What the steps do to the rest of the state\<close>

lemma pushToSSE_keeps [simp]:
  "w_db (pushToSSE a u e d w) = w_db w" "w_sends (pushToSSE a u e d w) = w_sends w"
  "w_issued (pushToSSE a u e d w) = w_issued w" "w_link (pushToSSE a u e d w) = w_link w"
  "w_streams (pushToSSE a u e d w) = w_streams w"
  by (simp_all add: pushToSSE_def)

lemma sendPush_keeps [simp]:
  "w_db (sendPushForMessage env t f c w) = w_db w" "w_sends (sendPushForMessage env t f c w) = w_sends w"
  "w_issued (sendPushForMessage env t f c w) = w_issued w" "w_link (sendPushForMessage env t f c w) = w_link w"
  "w_streams (sendPushForMessage env t f c w) = w_streams w"
  by (simp_all add: sendPushForMessage_def)

lemma broadcast_keeps [simp]:
  "w_db (broadcastAuditMessage m w) = w_db w" "w_sends (broadcastAuditMessage m w) = w_sends w"
  "w_issued (broadcastAuditMessage m w) = w_issued w" "w_link (broadcastAuditMessage m w) = w_link w"
  "w_streams (broadcastAuditMessage m w) = w_streams w"
  by (simp_all add: broadcastAuditMessage_def)

text \<open>The answers among the effects, and the new effects of a step.\<close>

definition replies :: "web_effect list \<Rightarrow> nat list" where
  "replies out = List.map_filter (\<lambda>x. case x of Reply h a \<Rightarrow> Some h | _ \<Rightarrow> None) out"

lemma replies_simps [simp]:
  "replies [] = []" "replies (x # xs) = (case x of Reply h a \<Rightarrow> [h] | _ \<Rightarrow> []) @ replies xs"
  "replies (xs @ ys) = replies xs @ replies ys"
  by (simp_all add: replies_def List.map_filter_def split: web_effect.split)

lemma replies_none: "(\<And>h a. Reply h a \<notin> set out) \<Longrightarrow> replies out = []"
  by (induction out) (auto split: web_effect.split)

definition grows_by :: "web \<Rightarrow> web \<Rightarrow> nat list \<Rightarrow> bool" where
  "grows_by w w' hs \<longleftrightarrow> (\<exists>out. w_out w' = w_out w @ out \<and> replies out = hs)"

lemma grows_refl [simp]: "grows_by w w []"
  by (simp add: grows_by_def)

lemma grows_trans: "grows_by w w1 xs \<Longrightarrow> grows_by w1 w2 ys \<Longrightarrow> grows_by w w2 (xs @ ys)"
  by (auto simp: grows_by_def)

lemma grows_trans0: "grows_by w w1 [] \<Longrightarrow> grows_by w1 w2 ys \<Longrightarrow> grows_by w w2 ys"
  using grows_trans [of w w1 "[]" w2 ys] by simp

lemma grows_replies: "grows_by w w' hs \<Longrightarrow> replies (drop (length (w_out w)) (w_out w')) = hs"
  by (auto simp: grows_by_def)

lemma grows_push: "grows_by w (pushToSSE a u e d w) []"
  by (auto simp: grows_by_def pushToSSE_def intro!: replies_none)

lemma grows_notice: "grows_by w (sendPushForMessage env t f c w) []"
  by (auto simp: grows_by_def sendPushForMessage_def intro!: replies_none)

lemma grows_broadcast: "grows_by w (broadcastAuditMessage m w) []"
  by (auto simp: grows_by_def broadcastAuditMessage_def intro!: replies_none)

lemma grows_db [simp]: "grows_by (w\<lparr>w_db := d\<rparr>) w' hs = grows_by w w' hs" "grows_by w (w'\<lparr>w_db := d\<rparr>) hs = grows_by w w' hs"
  by (simp_all add: grows_by_def)

lemma grows_sends [simp]: "grows_by (w\<lparr>w_sends := d\<rparr>) w' hs = grows_by w w' hs"
  by (simp add: grows_by_def)

lemma message_sent_keeps [simp]:
  "w_sends (snd (message_sent env m ok w)) = w_sends w" "w_issued (snd (message_sent env m ok w)) = w_issued w"
  "w_link (snd (message_sent env m ok w)) = w_link w" "w_streams (snd (message_sent env m ok w)) = w_streams w"
  by (simp_all add: message_sent_def Let_def)

lemma grows_message_sent: "grows_by w (snd (message_sent env m ok w)) []"
  unfolding message_sent_def Let_def snd_conv
  by (intro grows_trans0 [OF _ grows_notice] grows_trans0 [OF _ grows_push]) simp

lemma settle_send_keeps [simp]:
  "w_sends (settle_send env ok p w) = w_sends w" "w_issued (settle_send env ok p w) = w_issued w"
  "w_link (settle_send env ok p w) = w_link w" "w_streams (settle_send env ok p w) = w_streams w"
  by (simp_all add: settle_send_def split: prod.split)
    (metis message_sent_keeps snd_conv)+

lemma grows_settle: "grows_by w (settle_send env ok p w) [sd_handle p]"
proof -
  obtain a w1 where w1: "message_sent env (sd_msg p) ok w = (a, w1)" by fastforce
  with grows_message_sent [of w env "sd_msg p" ok] have "grows_by w w1 []" by simp
  then show ?thesis by (auto simp: settle_send_def w1 grows_by_def)
qed

lemma settle_all:
  "grows_by w (foldl (\<lambda>x p. settle_send env ok p x) w ps) (map sd_handle ps) \<and>
   w_sends (foldl (\<lambda>x p. settle_send env ok p x) w ps) = w_sends w \<and>
   w_issued (foldl (\<lambda>x p. settle_send env ok p x) w ps) = w_issued w"
proof (induction ps arbitrary: w)
  case (Cons p ps)
  let ?w = "settle_send env ok p w"
  from Cons [of ?w] have "grows_by ?w (foldl (\<lambda>x p. settle_send env ok p x) ?w ps) (map sd_handle ps)" by simp
  with grows_settle [of w env ok p] have "grows_by w (foldl (\<lambda>x p. settle_send env ok p x) ?w ps) ([sd_handle p] @ map sd_handle ps)"
    by (rule grows_trans)
  with Cons [of ?w] show ?case by simp
qed simp

lemma on_mesh_message_keeps:
  "w_sends (on_mesh_message env d w) = w_sends w \<and> w_issued (on_mesh_message env d w) = w_issued w \<and>
   w_link (on_mesh_message env d w) = w_link w \<and> grows_by w (on_mesh_message env d w) []"
proof -
  have g: "grows_by w (sendPushForMessage env t f c (broadcastAuditMessage m
      (pushToSSE a1 u1 e1 d1 (pushToSSE a2 u2 e2 d2 (w\<lparr>w_db := db\<rparr>))))) []" for t f c m a1 u1 e1 d1 a2 u2 e2 d2 db
    by (intro grows_trans0 [OF _ grows_notice] grows_trans0 [OF _ grows_broadcast] grows_trans0 [OF _ grows_push]) simp
  show ?thesis
    unfolding on_mesh_message_def Let_def by (simp add: g split: option.split)
qed

lemma on_mesh_delivered_keeps [simp]:
  "w_sends (on_mesh_delivered d w) = w_sends w" "w_issued (on_mesh_delivered d w) = w_issued w"
  "w_link (on_mesh_delivered d w) = w_link w" "w_db (on_mesh_delivered d w) = w_db w"
  by (simp_all add: on_mesh_delivered_def)

lemma grows_delivered: "grows_by w (on_mesh_delivered d w) []"
  unfolding on_mesh_delivered_def by (rule grows_push)

text \<open>A frame answers exactly the messages whose request it names, in their order.\<close>

lemma hub_frame_answers:
  assumes "json_parse raw = Some data"
  shows "grows_by w (hub_frame env raw w) (map sd_handle (filter (answered_by (w_link w) data) (w_sends w))) \<and>
    w_sends (hub_frame env raw w) = sql_delete (answered_by (w_link w) data) (w_sends w) \<and>
    w_issued (hub_frame env raw w) = w_issued w"
proof -
  define w1 where "w1 = (if jget data ''method'' = Some (JStr ''mesh.message'') \<and> truthy (jget data ''params'')
    then on_mesh_message env (the (jget data ''params'')) w else w)"
  define w2 where "w2 = (if jget data ''method'' = Some (JStr ''mesh.delivered'') \<and> truthy (jget data ''params'')
    then on_mesh_delivered (the (jget data ''params'')) w1 else w1)"
  have w1: "w_sends w1 = w_sends w" "w_issued w1 = w_issued w" "w_link w1 = w_link w" "grows_by w w1 []"
    by (simp_all add: w1_def on_mesh_message_keeps)
  have w2: "w_sends w2 = w_sends w" "w_issued w2 = w_issued w" "w_link w2 = w_link w" "grows_by w w2 []"
    using w1 grows_trans0 [OF w1(4) grows_delivered] by (simp_all add: w2_def)
  have frame: "hub_frame env raw w = on_answer env data w2"
    by (simp add: hub_frame_def assms w1_def w2_def Let_def)
  let ?ps = "filter (answered_by (w_link w) data) (w_sends w)"
  let ?w = "w2\<lparr>w_sends := sql_delete (answered_by (w_link w) data) (w_sends w)\<rparr>"
  have "grows_by ?w (foldl (\<lambda>x p. settle_send env (truthy (result_id data)) p x) ?w ?ps) (map sd_handle ?ps)"
    using settle_all by blast
  then have "grows_by w (foldl (\<lambda>x p. settle_send env (truthy (result_id data)) p x) ?w ?ps) (map sd_handle ?ps)"
    using w2(4) grows_trans0 by (simp add: grows_trans0)
  moreover have "w_sends (foldl (\<lambda>x p. settle_send env (truthy (result_id data)) p x) ?w ?ps) = w_sends ?w"
    "w_issued (foldl (\<lambda>x p. settle_send env (truthy (result_id data)) p x) ?w ?ps) = w_issued ?w"
    using settle_all by blast+
  ultimately show ?thesis
    by (simp add: frame on_answer_def Let_def w2)
qed

section \<open>Every message is answered once\<close>

datatype chat_op =
    PostOp web_env web_request
  | FrameOp web_env string
  | TimeoutOp web_env nat
  | OpenedOp web_env
  | EventsOp nat web_env web_request
  | ClosedOp string string nat

fun chat_step :: "web \<Rightarrow> chat_op \<Rightarrow> web" where
  "chat_step w (PostOp env q) = snd (post_messages env w q)"
| "chat_step w (FrameOp env raw) = hub_frame env raw w"
| "chat_step w (TimeoutOp env h) = send_timed_out env h w"
| "chat_step w (OpenedOp env) = hub_opened env w"
| "chat_step w (EventsOp stream env q) = snd (get_events stream env w q)"
| "chat_step w (ClosedOp agent login stream) = removeSSEClient agent login stream w"

definition waiting :: "web \<Rightarrow> nat list" where
  "waiting w = map sd_handle (w_sends w)"

definition chat_ok :: "web \<Rightarrow> bool" where
  "chat_ok w \<longleftrightarrow> distinct (waiting w) \<and> (\<forall>h\<in>set (waiting w). h < w_issued w)"

text \<open>One step: what waits afterwards is what waited or was issued, without what was answered.\<close>

definition accounts :: "web \<Rightarrow> web \<Rightarrow> nat list \<Rightarrow> bool" where
  "accounts w w' hs \<longleftrightarrow>
     grows_by w w' hs \<and> w_issued w \<le> w_issued w' \<and> distinct hs \<and> set hs \<subseteq> set (waiting w) \<and>
     distinct (waiting w') \<and> set (waiting w') = (set (waiting w) - set hs) \<union> {w_issued w ..< w_issued w'}"

lemma accounts_same:
  "chat_ok w \<Longrightarrow> grows_by w w' [] \<Longrightarrow> w_sends w' = w_sends w \<Longrightarrow> w_issued w' = w_issued w \<Longrightarrow> accounts w w' []"
  by (simp add: accounts_def chat_ok_def waiting_def)

lemma accounts_answer:
  assumes "chat_ok w" "grows_by w w' (map sd_handle (filter P (w_sends w)))" "w_sends w' = sql_delete P (w_sends w)"
    "w_issued w' = w_issued w"
  shows "accounts w w' (map sd_handle (filter P (w_sends w)))"
proof -
  have d: "distinct (map sd_handle (w_sends w))" using assms(1) by (simp add: chat_ok_def waiting_def)
  then have inj: "\<And>p q. p \<in> set (w_sends w) \<Longrightarrow> q \<in> set (w_sends w) \<Longrightarrow> sd_handle p = sd_handle q \<Longrightarrow> p = q"
    by (auto simp: distinct_map inj_on_def)
  show ?thesis
    using assms(2,4) d inj
    by (auto simp: accounts_def waiting_def assms(3) sql_delete_def distinct_map inj_on_def)
qed

lemma grows_provision: "grows_by w (provisionAllHumans ids w) [] \<and> w_sends (provisionAllHumans ids w) = w_sends w \<and>
  w_issued (provisionAllHumans ids w) = w_issued w"
proof (induction ids arbitrary: w)
  case (Cons i ids)
  have "grows_by w (provisionHuman i w) [] \<and> w_sends (provisionHuman i w) = w_sends w \<and> w_issued (provisionHuman i w) = w_issued w"
    by (simp add: provisionHuman_def grows_by_def)
  with Cons [of "provisionHuman i w"] show ?case
    by (auto simp: provisionAllHumans_def intro: grows_trans0)
qed (simp add: provisionAllHumans_def)

lemma accounts_post:
  assumes "chat_ok w"
  shows "accounts w (snd (post_messages env w q)) []"
proof -
  have now: "accounts w w1 []" if "message_sent env m ok (w\<lparr>w_db := d\<rparr>) = (a, w1)" for m ok d a w1
  proof -
    from that have "w1 = snd (message_sent env m ok (w\<lparr>w_db := d\<rparr>))" by simp
    then show ?thesis
      using accounts_same [OF assms] grows_message_sent [of "w\<lparr>w_db := d\<rparr>" env m ok] by simp
  qed
  have later: "accounts w (hand_over env m x (w\<lparr>w_db := d\<rparr>)) []" for m x d
    using assms by (auto simp: accounts_def chat_ok_def waiting_def hand_over_def grows_by_def atLeastLessThanSuc)
  show ?thesis
    unfolding post_messages_def
    using accounts_same [OF assms, of w] now later
    by (auto split: option.split sum.split prod.split)
qed

lemma key_of_filter: "distinct (map key xs) \<Longrightarrow> x \<in> set xs \<Longrightarrow> key x = k \<Longrightarrow> map key (filter (\<lambda>y. key y = k) xs) = [k]"
  by (induction xs) (auto simp: filter_empty_conv image_iff)

lemma accounts_timeout: "chat_ok w \<Longrightarrow> \<exists>hs. accounts w (send_timed_out env h w) hs \<and> (h \<in> set (waiting w) \<longrightarrow> hs = [h])"
proof (cases "sql_get (\<lambda>p. sd_handle p = h) (w_sends w)")
  case None
  assume "chat_ok w"
  then have "accounts w w []" by (rule accounts_same) simp_all
  moreover have "send_timed_out env h w = w" by (simp add: send_timed_out_def None)
  moreover have "h \<notin> set (waiting w)" using None by (auto simp: waiting_def sql_get_None_iff)
  ultimately show ?thesis by auto
next
  case (Some p)
  assume ok: "chat_ok w"
  let ?w = "w\<lparr>w_sends := sql_delete (\<lambda>p. sd_handle p = h) (w_sends w)\<rparr>"
  have p: "p \<in> set (w_sends w)" "sd_handle p = h" using Some by (auto dest: sql_get_SomeD)
  have "distinct (map sd_handle (w_sends w))" using ok by (simp add: chat_ok_def waiting_def)
  then have "map sd_handle (filter (\<lambda>p. sd_handle p = h) (w_sends w)) = [h]"
    using key_of_filter [of sd_handle "w_sends w" p h] p by simp
  moreover have "grows_by w (settle_send env False p ?w) [h]"
    using grows_settle [of ?w env False p] p by simp
  ultimately have "accounts w (settle_send env False p ?w) [h]"
    using accounts_answer [OF ok, of _ "\<lambda>p. sd_handle p = h"] by simp
  with Some show ?thesis by (auto simp: send_timed_out_def)
qed

lemma accounts_frame: "chat_ok w \<Longrightarrow> \<exists>hs. accounts w (hub_frame env raw w) hs"
proof (cases "json_parse raw")
  case None
  assume "chat_ok w"
  with None accounts_same [of w w] show ?thesis by (auto simp: hub_frame_def)
next
  case (Some data)
  assume "chat_ok w"
  from accounts_answer [OF this, of "hub_frame env raw w"] hub_frame_answers [OF Some, of w env] show ?thesis by blast
qed

lemma chat_step_accounts: "chat_ok w \<Longrightarrow> \<exists>hs. accounts w (chat_step w op) hs"
proof (cases op)
  case (OpenedOp env)
  assume ok: "chat_ok w"
  let ?w = "w\<lparr>w_link := Suc (w_link w), w_out := w_out w @ [HubProvision (we_hub_identity env) ''service'' ''Agent Mesh Web UI'']\<rparr>"
  have "grows_by w ?w []" by (simp add: grows_by_def)
  then have "grows_by w (provisionAllHumans ids ?w) []" for ids
    using grows_provision [of ?w ids] grows_trans0 by blast
  moreover have "grows_by x (x\<lparr>w_out := w_out x @ [HubConnect (we_hub_identity env) ids]\<rparr>) []" for x ids
    by (simp add: grows_by_def)
  ultimately have "grows_by w (hub_opened env w) []"
    unfolding hub_opened_def Let_def by (rule grows_trans0)
  moreover have "w_sends (hub_opened env w) = w_sends w \<and> w_issued (hub_opened env w) = w_issued w"
    using grows_provision [of ?w] by (simp add: hub_opened_def Let_def)
  ultimately show ?thesis using accounts_same [OF ok] OpenedOp by auto
next
  case (EventsOp s env q)
  assume ok: "chat_ok w"
  have "grows_by w (snd (get_events s env w q)) [] \<and> w_sends (snd (get_events s env w q)) = w_sends w \<and>
      w_issued (snd (get_events s env w q)) = w_issued w"
    by (auto simp: get_events_def addSSEClient_def grows_by_def Let_def split: option.split)
  then show ?thesis using accounts_same [OF ok] EventsOp by auto
next
  case (ClosedOp a l s)
  assume ok: "chat_ok w"
  then show ?thesis using accounts_same [OF ok, of "removeSSEClient a l s w"] ClosedOp
    by (auto simp: removeSSEClient_def grows_by_def)
qed (use accounts_post accounts_timeout accounts_frame in fastforce)+

lemma accounts_ok: "chat_ok w \<Longrightarrow> accounts w w' hs \<Longrightarrow> chat_ok w'"
  by (auto simp: accounts_def chat_ok_def)

interpretation chat: machine chat_step chat_ok
  by unfold_locales (use chat_step_accounts accounts_ok in blast)

lemma accounts_run:
  assumes "chat_ok w"
  shows "\<exists>hs. grows_by w (foldl chat_step w ops) hs \<and> w_issued w \<le> w_issued (foldl chat_step w ops) \<and> distinct hs \<and>
    set hs \<inter> set (waiting (foldl chat_step w ops)) = {} \<and>
    set hs \<union> set (waiting (foldl chat_step w ops)) = set (waiting w) \<union> {w_issued w ..< w_issued (foldl chat_step w ops)}"
proof (induction ops rule: rev_induct)
  case Nil
  show ?case by (intro exI [of _ "[]"]) simp
next
  case (snoc op ops)
  let ?w = "foldl chat_step w ops"
  from snoc obtain hs where hs: "grows_by w ?w hs" "w_issued w \<le> w_issued ?w" "distinct hs" "set hs \<inter> set (waiting ?w) = {}"
    "set hs \<union> set (waiting ?w) = set (waiting w) \<union> {w_issued w ..< w_issued ?w}" by blast
  have "chat_ok ?w" using assms by (rule chat.run_invar)
  then obtain ys where ys: "accounts ?w (chat_step ?w op) ys" using chat_step_accounts by blast
  have new: "set (waiting (chat_step ?w op)) = (set (waiting ?w) - set ys) \<union> {w_issued ?w ..< w_issued (chat_step ?w op)}"
    and sub: "set ys \<subseteq> set (waiting ?w)" using ys by (auto simp: accounts_def)
  have old: "h < w_issued ?w" if "h \<in> set (waiting ?w)" for h
    using \<open>chat_ok ?w\<close> that by (simp add: chat_ok_def)
  have below: "h < w_issued ?w" if "h \<in> set hs" for h
  proof -
    from that hs(5) have "h \<in> set (waiting w) \<or> h < w_issued ?w" by auto
    with assms hs(2) show ?thesis by (auto simp: chat_ok_def)
  qed
  show ?case
  proof (intro exI [of _ "hs @ ys"] conjI)
    show "grows_by w (foldl chat_step w (ops @ [op])) (hs @ ys)"
      using grows_trans [OF hs(1)] ys by (simp add: accounts_def)
    show "w_issued w \<le> w_issued (foldl chat_step w (ops @ [op]))"
      using hs(2) ys by (simp add: accounts_def)
    show "distinct (hs @ ys)" using hs(3,4) ys by (auto simp: accounts_def)
    show "set (hs @ ys) \<inter> set (waiting (foldl chat_step w (ops @ [op]))) = {}"
    proof -
      have "x \<notin> set (waiting (chat_step ?w op))" if x: "x \<in> set hs \<or> x \<in> set ys" for x
      proof -
        have "x < w_issued ?w" using x below old sub by blast
        moreover have "x \<notin> set (waiting ?w) - set ys" using x hs(4) by blast
        ultimately show ?thesis unfolding new by simp
      qed
      then show ?thesis by auto
    qed
    have "set (hs @ ys) \<union> set (waiting (foldl chat_step w (ops @ [op]))) =
        (set hs \<union> set (waiting ?w)) \<union> {w_issued ?w ..< w_issued (chat_step ?w op)}"
      unfolding foldl_append foldl.simps new using sub by auto
    also have "\<dots> = set (waiting w) \<union> {w_issued w ..< w_issued (chat_step ?w op)}"
      using hs(2,5) ys by (auto simp: accounts_def)
    finally show "set (hs @ ys) \<union> set (waiting (foldl chat_step w (ops @ [op]))) =
        set (waiting w) \<union> {w_issued w ..< w_issued (foldl chat_step w (ops @ [op]))}" by simp
  qed
qed

text \<open>
  C16: over every run of the messaging (messages posted, frames of the hub, time-outs, streams opened and closed,
  the link reopened), a message that was handed to the hub is answered at most once, and it is either answered or
  still waiting; its time-out answers it in any case.
\<close>

theorem every_message_is_answered_once:
  assumes "chat_ok w" "w' = foldl chat_step w ops" "answers = replies (drop (length (w_out w)) (w_out w'))"
  shows "distinct answers \<and> set answers \<inter> set (waiting w') = {} \<and>
    set answers \<union> set (waiting w') = set (waiting w) \<union> {w_issued w ..< w_issued w'} \<and>
    (\<forall>h\<in>set (waiting w'). replies (drop (length (w_out w')) (w_out (send_timed_out env h w'))) = [h])"
proof -
  from accounts_run [OF assms(1), of ops] obtain hs where hs: "grows_by w w' hs" "distinct hs" "set hs \<inter> set (waiting w') = {}"
    "set hs \<union> set (waiting w') = set (waiting w) \<union> {w_issued w ..< w_issued w'}" using assms(2) by blast
  have "chat_ok w'" using assms(1) unfolding assms(2) by (rule chat.run_invar)
  then have "replies (drop (length (w_out w')) (w_out (send_timed_out env h w'))) = [h]" if "h \<in> set (waiting w')" for h
    using accounts_timeout [of w' env h] that by (auto simp: accounts_def dest: grows_replies)
  moreover have "answers = hs" using hs(1) grows_replies assms(3) by simp
  ultimately show ?thesis using hs by blast
qed

text \<open>A request of a person, whose token is the name itself.\<close>

definition person :: "string \<Rightarrow> jwt_payload" where
  "person login = \<lparr>jp_github_id = 1, jp_github_login = login, jp_role = ''member'', jp_iat = 0, jp_exp = 0\<rparr>"

definition person_env :: web_env where
  "person_env = plain_env\<lparr>we_verify := (\<lambda>t. Some (person t)), we_hub_up := True\<rparr>"

definition request_of :: "string \<Rightarrow> string \<Rightarrow> web_request" where
  "request_of login body =
     \<lparr>wq_authorization = None, wq_cookie = Some login, wq_content_type = None, wq_accept = None, wq_forwarded_proto = None,
      wq_forwarded_for = None, wq_real_ip = None, wq_protocol = ''http'', wq_path = ''/'', wq_text = body, wq_form = JNull,
      wq_queries = [], wq_param = (\<lambda>k. ''ann'')\<rparr>"

definition mail :: "string \<Rightarrow> string \<Rightarrow> string \<Rightarrow> chat_message" where
  "mail i sender recipient =
     \<lparr>cm_id = i, cm_from = sender, cm_to = recipient, cm_ts = ''t'', cm_content = ''hi'', cm_reply_to = None, cm_file_path = None\<rparr>"

definition two_waiting :: web where
  "two_waiting = (fresh_web web_db_init (agents_db_init 0))
     \<lparr>w_issued := 2, w_sends := [\<lparr>sd_link = 0, sd_req = 7, sd_handle = 0, sd_msg = mail ''m0'' ''kim'' ''ann''\<rparr>,
                                \<lparr>sd_link = 0, sd_req = 7, sd_handle = 1, sd_msg = mail ''m1'' ''lee'' ''bob''\<rparr>]\<rparr>"

theorem every_message_is_answered_once_witness:
  "replies (w_out (send_timed_out plain_env 1 (send_timed_out plain_env 0 two_waiting))) = [0, 1] \<and>
   waiting (send_timed_out plain_env 1 (send_timed_out plain_env 0 two_waiting)) = []"
proof -
  have ok: "chat_ok two_waiting" by (simp add: chat_ok_def waiting_def two_waiting_def)
  let ?ops = "[TimeoutOp plain_env 0, TimeoutOp plain_env 1]"
  note run = every_message_is_answered_once [OF ok refl refl, of ?ops plain_env]
  have "replies (w_out (foldl chat_step two_waiting ?ops)) = [0, 1] \<and> waiting (foldl chat_step two_waiting ?ops) = []"
    by (simp add: two_waiting_def send_timed_out_def sql_delete_def settle_send_def message_sent_def waiting_def
        pushToSSE_def sendPushForMessage_def fresh_web_def plain_env_def Let_def)
  with run show ?thesis by simp
qed

section \<open>Two messages within a millisecond\<close>

text \<open>
  the request that waits for the hub's answer is named by the time in milliseconds. Of two messages that are
  handed over within one millisecond, the first answer of the hub settles both with its own verdict: the second
  is reported accepted or failed by what the hub said of the first, and nothing waits for what it says of the
  second.
\<close>

theorem one_answer_settles_two_messages:
  assumes "json_parse raw = Some data" "jget data ''id'' = Some (JInt (sd_req p))" "jget data ''method'' = None"
    and "w_sends w = [p, p']" "sd_req p' = sd_req p" "sd_link p = w_link w" "sd_link p' = w_link w"
  shows "\<exists>status out. status = (if truthy (result_id data) then ''pending'' else ''failed'') \<and>
    w_out (hub_frame env raw w) = w_out w @ out \<and> w_sends (hub_frame env raw w) = [] \<and>
    {Reply (sd_handle p) (sent_answer (sd_msg p) status), Reply (sd_handle p') (sent_answer (sd_msg p') status)} \<subseteq> set out"
proof -
  let ?ok = "truthy (result_id data)"
  have settle: "\<exists>out. w_out (settle_send env ?ok x v) =
      w_out v @ out @ [Reply (sd_handle x) (sent_answer (sd_msg x) (if ?ok then ''pending'' else ''failed''))]" for x v
    by (auto simp: settle_send_def message_sent_def Let_def pushToSSE_def sendPushForMessage_def)
  have frame: "hub_frame env raw w = settle_send env ?ok p' (settle_send env ?ok p (w\<lparr>w_sends := []\<rparr>))"
    using assms by (simp add: hub_frame_def on_answer_def answered_by_def sql_delete_def Let_def)
  obtain o1 o2 where o1: "w_out (settle_send env ?ok p (w\<lparr>w_sends := []\<rparr>)) =
      w_out w @ o1 @ [Reply (sd_handle p) (sent_answer (sd_msg p) (if ?ok then ''pending'' else ''failed''))]"
    and o2: "w_out (hub_frame env raw w) = w_out (settle_send env ?ok p (w\<lparr>w_sends := []\<rparr>)) @ o2 @
      [Reply (sd_handle p') (sent_answer (sd_msg p') (if ?ok then ''pending'' else ''failed''))]"
    using settle [of p "w\<lparr>w_sends := []\<rparr>"] settle [of p' "settle_send env ?ok p (w\<lparr>w_sends := []\<rparr>)"] frame
    by auto
  have "w_sends (hub_frame env raw w) = []" by (simp add: frame)
  with o1 o2 show ?thesis by auto
qed

theorem one_answer_settles_two_messages_witness:
  "Reply 1 (sent_answer (mail ''m1'' ''lee'' ''bob'') ''pending'')
     \<in> set (w_out (hub_frame plain_env (json_text (JObj [(''id'', JInt 7), (''result'', JObj [(''id'', JStr ''x'')])])) two_waiting))"
proof -
  let ?data = "JObj [(''id'', JInt 7), (''result'', JObj [(''id'', JStr ''x'')])]"
  have parse: "json_parse (json_text ?data) = Some ?data" by code_simp
  have "\<exists>status out. status = (if truthy (result_id ?data) then ''pending'' else ''failed'') \<and>
      w_out (hub_frame plain_env (json_text ?data) two_waiting) = w_out two_waiting @ out \<and>
      w_sends (hub_frame plain_env (json_text ?data) two_waiting) = [] \<and>
      {Reply (sd_handle (w_sends two_waiting ! 0)) (sent_answer (sd_msg (w_sends two_waiting ! 0)) status),
       Reply (sd_handle (w_sends two_waiting ! 1)) (sent_answer (sd_msg (w_sends two_waiting ! 1)) status)} \<subseteq> set out"
    by (rule one_answer_settles_two_messages [OF parse]) (simp_all add: two_waiting_def fresh_web_def)
  then show ?thesis by (auto simp: two_waiting_def fresh_web_def result_id_def)
qed

section \<open>What is stored of a message\<close>

text \<open>
  the status that the sender is answered is the status that the row carries from then on: a message that
  the hub did not take is stored as failed, one that it took stays pending, and no other row is touched.
\<close>

theorem answered_status_is_stored:
  assumes "web_pk (w_db w)" "sql_get (\<lambda>r. wm_id r = cm_id m) (wb_messages (w_db w)) = Some r" "wm_status r = ''pending''"
  shows "\<exists>status. fst (message_sent env m accepted w) = sent_answer m status \<and>
    status = (if accepted then ''pending'' else ''failed'') \<and>
    wb_messages (w_db (snd (message_sent env m accepted w))) =
      map (\<lambda>x. if x = r then x\<lparr>wm_status := status\<rparr> else x) (wb_messages (w_db w))"
proof -
  have r: "r \<in> set (wb_messages (w_db w))" "wm_id r = cm_id m" using assms(2) by (auto dest: sql_get_SomeD)
  have key: "wm_id x = cm_id m \<longleftrightarrow> x = r" if "x \<in> set (wb_messages (w_db w))" for x
    using sql_unique_eqD [of wm_id "wb_messages (w_db w)" x r] assms(1) that r by (auto simp: web_pk_def)
  show ?thesis
  proof (cases accepted)
    case True
    have "map (\<lambda>x. if x = r then x\<lparr>wm_status := ''pending''\<rparr> else x) (wb_messages (w_db w)) = wb_messages (w_db w)"
      by (rule map_idI) (use assms(3) in auto)
    with True show ?thesis by (simp add: message_sent_def Let_def)
  next
    case False
    have "sql_update (\<lambda>x. wm_id x = cm_id m) (\<lambda>x. x\<lparr>wm_status := ''failed''\<rparr>) (wb_messages (w_db w)) =
      map (\<lambda>x. if x = r then x\<lparr>wm_status := ''failed''\<rparr> else x) (wb_messages (w_db w))"
      unfolding sql_update_def by (rule map_cong) (simp_all add: key)
    with False show ?thesis by (simp add: message_sent_def Let_def markSendFailed_def updateMessageStatus_def)
  qed
qed

definition stored_mail :: "string \<Rightarrow> string \<Rightarrow> string \<Rightarrow> web_message" where
  "stored_mail i sender recipient =
     \<lparr>wm_id = i, wm_from = sender, wm_to = recipient, wm_content = ''hi'', wm_reply_to = None, wm_file_path = None,
      wm_status = ''pending'', wm_ts = ''t''\<rparr>"

definition one_mail :: web where
  "one_mail = fresh_web (web_db_init\<lparr>wb_messages := [stored_mail ''m0'' ''ann'' ''bob''],
     wb_approvals := [\<lparr>pa_github_login = ''kim'', pa_github_id = 1, pa_requested_at = 0, pa_status = ''approved''\<rparr>]\<rparr>)
     (agents_db_init 0)"

theorem answered_status_is_stored_witness:
  "wb_messages (w_db (snd (message_sent plain_env (mail ''m0'' ''ann'' ''bob'') False one_mail))) =
     [(stored_mail ''m0'' ''ann'' ''bob'')\<lparr>wm_status := ''failed''\<rparr>]"
proof -
  have "web_pk (w_db one_mail)" by (simp add: one_mail_def fresh_web_def web_pk_def web_db_init_def)
  from answered_status_is_stored [OF this, of "mail ''m0'' ''ann'' ''bob''" "stored_mail ''m0'' ''ann'' ''bob''" plain_env False]
  show ?thesis by (simp add: one_mail_def fresh_web_def stored_mail_def mail_def)
qed

section \<open>Who reads whose messages\<close>

lemma set_sql_limit: "set (sql_limit n rs) \<subseteq> set rs"
  by (auto simp: sql_limit_def dest: in_set_takeD)

lemma sql_limit_all: "int (length rs) \<le> n \<Longrightarrow> sql_limit n rs = rs"
  by (simp add: sql_limit_def)

definition messages_in :: "web_answer \<Rightarrow> json list" where
  "messages_in a = coalesce (as_array (jget (an_body a) ''messages'')) []"

text \<open>
  the search answers a person with messages that the person sent or received and no others. The history of an
  agent does not look at who reads it: any approved person is answered with every message that the agent exchanged
  with anybody, up to the length of the page.
\<close>

theorem history_shows_what_the_search_hides:
  assumes "extractJwt env w q = Some p" "isUserApproved (w_db w) (jp_github_login p) (jp_role p)"
    and "int (length (filter (\<lambda>m. wq_param q ''agent'' \<in> {wm_from m, wm_to m}) (wb_messages (w_db w)))) \<le>
      page_size 20 100 (wq_query q ''limit'')"
  shows "set (messages_in (fst (get_search env w q))) \<subseteq>
      web_message_json ` {m \<in> set (wb_messages (w_db w)). jp_github_login p \<in> {wm_from m, wm_to m}} \<and>
    set (messages_in (fst (get_history env w q))) =
      web_message_json ` {m \<in> set (wb_messages (w_db w)). wq_param q ''agent'' \<in> {wm_from m, wm_to m}}"
proof
  have gate: "signed_in_and_approved env w q x = Inr p" for x
    using assms by (simp add: signed_in_and_approved_def)
  have found: "set (searchMessages (w_db w) query login n) \<subseteq> {m \<in> set (wb_messages (w_db w)). login = wm_from m \<or> login = wm_to m}"
    for query login n
  proof -
    have "set (searchMessages (w_db w) query login n) \<subseteq>
      {m \<in> set (wb_messages (w_db w)). wm_from m = login \<or> wm_to m = login}"
      unfolding searchMessages_def by (rule subset_trans [OF set_sql_limit]) (auto simp: sql_simps)
    then show ?thesis by auto
  qed
  show "set (messages_in (fst (get_search env w q))) \<subseteq>
      web_message_json ` {m \<in> set (wb_messages (w_db w)). jp_github_login p \<in> {wm_from m, wm_to m}}"
    by (cases "trim (coalesce (wq_query q ''q'') []) = []")
      (simp_all add: get_search_def gate messages_in_def Let_def c_error_def c_json_def image_mono [OF found])
  have f: "(\<lambda>m. wm_from m = wq_param q ''agent'' \<or> wm_to m = wq_param q ''agent'') =
      (\<lambda>m. wq_param q ''agent'' \<in> {wm_from m, wm_to m})" by auto
  have "set (getMessageHistory (w_db w) (wq_param q ''agent'') (page_size 20 100 (wq_query q ''limit''))) =
      {m \<in> set (wb_messages (w_db w)). wq_param q ''agent'' \<in> {wm_from m, wm_to m}}"
    unfolding getMessageHistory_def sql_where_def f by (subst sql_limit_all) (use assms(3) in \<open>auto simp: sql_simps\<close>)
  then show "set (messages_in (fst (get_history env w q))) =
        web_message_json ` {m \<in> set (wb_messages (w_db w)). wq_param q ''agent'' \<in> {wm_from m, wm_to m}}"
    by (simp add: get_history_def gate messages_in_def Let_def c_json_def)
qed

theorem history_shows_what_the_search_hides_witness:
  "web_message_json (stored_mail ''m0'' ''ann'' ''bob'') \<in> set (messages_in (fst (get_history person_env one_mail (request_of ''kim'' []))))"
proof -
  have s: "extractJwt person_env one_mail (request_of ''kim'' []) = Some (person ''kim'')"
    by (simp add: extractJwt_def session_of_token_def sessionIsRefused_def localUserIsDisabled_def getLocalUser_def
        person_env_def request_of_def one_mail_def fresh_web_def web_db_init_def)
  have a: "isUserApproved (w_db one_mail) (jp_github_login (person ''kim'')) (jp_role (person ''kim''))"
    by (simp add: isUserApproved_def one_mail_def fresh_web_def getPendingApproval_def person_def)
  have "int (length (filter (\<lambda>m. wq_param (request_of ''kim'' []) ''agent'' \<in> {wm_from m, wm_to m}) (wb_messages (w_db one_mail)))) \<le>
      page_size 20 100 (wq_query (request_of ''kim'' []) ''limit'')"
    by (simp add: one_mail_def fresh_web_def request_of_def page_size_def wq_query_def)
  from history_shows_what_the_search_hides [OF s a this]
  have "set (messages_in (fst (get_history person_env one_mail (request_of ''kim'' [])))) =
    web_message_json ` {m \<in> set (wb_messages (w_db one_mail)). ''ann'' \<in> {wm_from m, wm_to m}}"
    by (simp add: one_mail_def fresh_web_def request_of_def page_size_def wq_query_def)
  then show ?thesis by (simp add: one_mail_def fresh_web_def stored_mail_def)
qed

section \<open>What a stream is written\<close>

text \<open>A message is written only to streams of its two parties, each opened for the other.\<close>

definition between :: "json \<Rightarrow> string \<Rightarrow> string \<Rightarrow> bool" where
  "between data f t \<longleftrightarrow> jget data ''from'' = Some (JStr f) \<and> jget data ''to'' = Some (JStr t)"

definition addressed :: "(string \<times> nat) list \<Rightarrow> web_effect \<Rightarrow> bool" where
  "addressed streams x \<longleftrightarrow> (case x of
     StreamFrame stream event data \<Rightarrow>
       event = ''message'' \<longrightarrow>
         (\<exists>f t. between data f t \<and> ((sseKey f t, stream) \<in> set streams \<or> (sseKey t f, stream) \<in> set streams))
   | _ \<Rightarrow> True)"

definition writes_well :: "web \<Rightarrow> web \<Rightarrow> bool" where
  "writes_well w w' \<longleftrightarrow>
     w_streams w' = w_streams w \<and> (\<exists>out. w_out w' = w_out w @ out \<and> (\<forall>x\<in>set out. addressed (w_streams w) x))"

lemma writes_trans: "writes_well w w1 \<Longrightarrow> writes_well w1 w2 \<Longrightarrow> writes_well w w2"
proof -
  assume "writes_well w w1" "writes_well w1 w2"
  then obtain o1 o2 where "w_out w1 = w_out w @ o1" "w_out w2 = w_out w1 @ o2" "w_streams w1 = w_streams w" "w_streams w2 = w_streams w1"
    "\<forall>x\<in>set o1. addressed (w_streams w) x" "\<forall>x\<in>set o2. addressed (w_streams w1) x"
    by (auto simp: writes_well_def)
  then show ?thesis unfolding writes_well_def by (intro conjI exI [of _ "o1 @ o2"]) auto
qed

lemma writes_quiet:
  "w_streams w' = w_streams w \<Longrightarrow> w_out w' = w_out w @ out \<Longrightarrow> (\<And>s e d. StreamFrame s e d \<notin> set out) \<Longrightarrow> writes_well w w'"
  by (auto simp: writes_well_def addressed_def split: web_effect.split)

lemma writes_push:
  assumes "event \<noteq> ''message'' \<or> between data a u \<or> between data u a"
  shows "writes_well w (pushToSSE a u event data w)"
  using assms by (auto simp: writes_well_def pushToSSE_def addressed_def)

lemma writes_notice: "writes_well w (sendPushForMessage env t f c w)"
  by (cases "\<not> we_vapid env \<or> hasActiveSSE t w")
    (rule writes_quiet [where out="[]"], auto simp: sendPushForMessage_def intro!: writes_quiet)

lemma writes_broadcast: "writes_well w (broadcastAuditMessage m w)"
  by (cases "am_id m \<in> set (w_recent w)")
    (rule writes_quiet [where out="[]"], auto simp: broadcastAuditMessage_def intro!: writes_quiet)

lemma writes_db: "writes_well w (w\<lparr>w_db := d\<rparr>)" "writes_well w (w\<lparr>w_sends := ps\<rparr>)"
  by (rule writes_quiet [where out="[]"]; simp)+

lemma writes_settle: "writes_well w (settle_send env ok p w)"
proof -
  obtain a w1 where w1: "message_sent env (sd_msg p) ok w = (a, w1)" by fastforce
  have "writes_well w (snd (message_sent env (sd_msg p) ok w))"
    unfolding message_sent_def Let_def snd_conv
    by (intro writes_trans [OF _ writes_notice] writes_trans [OF _ writes_push])
      (auto simp: writes_db sent_frame_def between_def intro: writes_quiet [where out="[]"])
  moreover have "writes_well w1 (w1\<lparr>w_out := w_out w1 @ [Reply (sd_handle p) a]\<rparr>)"
    by (rule writes_quiet) auto
  ultimately show ?thesis using writes_trans by (simp add: settle_send_def w1)
qed

lemma writes_settle_all: "writes_well w (foldl (\<lambda>x p. settle_send env ok p x) w ps)"
proof (induction ps arbitrary: w)
  case Nil
  show ?case by (rule writes_quiet [where out="[]"]) auto
next
  case (Cons p ps)
  from writes_trans [OF writes_settle this] show ?case by simp
qed

lemma writes_mesh_message: "writes_well w (on_mesh_message env d w)"
proof -
  have g: "writes_well w (sendPushForMessage env t f c (broadcastAuditMessage m
      (pushToSSE a2 a1 e d2 (pushToSSE a1 a2 e d2 (w\<lparr>w_db := db\<rparr>)))))" if "between d2 a1 a2" for t f c m a1 a2 e d2 db
    using that
    by (intro writes_trans [OF _ writes_notice] writes_trans [OF _ writes_broadcast] writes_trans [OF _ writes_push])
      (auto simp: writes_db)
  have "writes_well w w" by (rule writes_quiet [where out="[]"]) auto
  then show ?thesis
    unfolding on_mesh_message_def Let_def by (auto intro!: g simp: between_def split: option.split)
qed

lemma writes_frame: "writes_well w (hub_frame env raw w)"
proof (cases "json_parse raw")
  case None
  then show ?thesis by (simp add: hub_frame_def) (rule writes_quiet [where out="[]"]; simp)
next
  case (Some data)
  have refl: "writes_well v v" for v by (rule writes_quiet [where out="[]"]) auto
  have answer: "writes_well v (on_answer env data v)" for v
    unfolding on_answer_def Let_def by (rule writes_trans [OF writes_db(2) writes_settle_all])
  have delivered: "writes_well v (on_mesh_delivered d v)" for v d
    unfolding on_mesh_delivered_def by (rule writes_push) simp
  show ?thesis
    using writes_trans [OF writes_trans [OF writes_mesh_message delivered] answer] writes_trans [OF writes_mesh_message answer]
      writes_trans [OF delivered answer] answer
    by (simp add: hub_frame_def Some Let_def)
qed


definition watching :: web where
  "watching = one_mail\<lparr>w_streams := [(sseKey ''ann'' ''kim'', 3)]\<rparr>"

definition mail_frame :: json where
  "mail_frame = JObj [(''method'', JStr ''mesh.message''),
     (''params'', JObj [(''id'', JStr ''m9''), (''from'', JStr ''ann''), (''to'', JStr ''kim''), (''content'', JStr ''hi''), (''ts'', JStr ''t'')])]"


end
