(* ===== verification/Web_Audit.thy ===== *)
theory Web_Audit
  imports Web_Chat
begin

text \<open>
  Reading the audit in the web server: \<open>packages/http/src/audit-query.ts\<close> (the events, paged), \<open>audit-access-log.ts\<close>
  (the record of a content read), \<open>chat-audits.ts\<close> and \<open>audit-agents.ts\<close> (the conversations, paged), and of
  \<open>main.ts\<close> their routes, the stream of the conversations with its catch-up, and the poller that feeds it.

  SQLite compares the texts of \<open>stored_at\<close>, so an event's place is its text and its id. A store that cannot be
  read is not modelled; one that cannot be written is \<open>we_audit_up\<close>. A page size that is a fraction would not
  bind; it counts as the default here. The query of a request is given as the list of its parameters.

  Its properties are in \<open>Web_Audit_Facts\<close>.
\<close>

section \<open>What is withheld\<close>

definition REDACTED_KEYS :: "string list" where
  "REDACTED_KEYS = [''authorization'', ''private_key'', ''privatekey'', ''secret'', ''token'', ''access_token'',
     ''refresh_token'', ''api_key'', ''apikey'', ''password'', ''reasoning'', ''reasoning_stream'']"

definition is_redacted :: "string \<Rightarrow> bool" where
  "is_redacted k \<longleftrightarrow> map fold_char k \<in> set REDACTED_KEYS"

fun redact :: "json \<Rightarrow> json" where
  "redact (JArr xs) = JArr (map redact xs)"
| "redact (JObj ms) = JObj (map (\<lambda>(k, v). (k, if is_redacted k then JStr ''[redacted]'' else redact v)) ms)"
| "redact v = v"

definition WITHHELD :: json where
  "WITHHELD = JStr (''[content withheld '' @ utf8 0x2014 @ '' requires audit.read.content]'')"

text \<open>The members in order: an assignment to a name that is there keeps its place.\<close>

definition content_member :: "json \<Rightarrow> (string \<times> json) list \<Rightarrow> (string \<times> json) list" where
  "content_member v out =
     (let out1 = AList.update ''content'' WITHHELD out
      in case v of JStr s \<Rightarrow> AList.update ''content_length'' (JInt (int (js_length s))) out1 | _ \<Rightarrow> out1)"

fun stripContent :: "json \<Rightarrow> json" where
  "stripContent (JArr xs) = JArr (map stripContent xs)"
| "stripContent (JObj ms) =
     JObj (foldl (\<lambda>out (k, k', v, v'). if k = ''content'' then content_member v out else AList.update k v' out) []
             (map (\<lambda>(k, v). (k, k, v, stripContent v)) ms))"
| "stripContent v = v"

definition event_payload :: "bool \<Rightarrow> string \<Rightarrow> json" where
  "event_payload withContent text =
     (case json_parse text of
        None \<Rightarrow> JNull
      | Some p \<Rightarrow> if withContent then redact p else stripContent (redact p))"

section \<open>Events\<close>

definition stored_text :: "audit_event_row \<Rightarrow> string" where
  "stored_text r = iso_text (ae_stored_at r)"

definition blob_json :: "audit_blob_row \<Rightarrow> json" where
  "blob_json b =
     JObj [(''blob_key'', JStr (ab_blob_key b)), (''sha256'', JStr (ab_sha256 b)), (''size'', JInt (ab_size b)),
           (''name'', nullable (ab_name b))]"

definition attachmentsOf :: "audit_db \<Rightarrow> string \<Rightarrow> json list" where
  "attachmentsOf db eventId = map blob_json (sql_where (\<lambda>b. ab_event_id b = eventId) (au_blobs db))"

text \<open>An attestation that is no JSON throws.\<close>

definition attestation_json :: "string option \<Rightarrow> json option" where
  "attestation_json a = (case a of None \<Rightarrow> Some JNull | Some [] \<Rightarrow> Some JNull | Some t \<Rightarrow> json_parse t)"

definition shape :: "web_env \<Rightarrow> audit_event_row \<Rightarrow> json list \<Rightarrow> bool \<Rightarrow> json option" where
  "shape env r blobs withContent =
     map_option (\<lambda>attestation.
       JObj [(''event_id'', JStr (ae_event_id r)), (''schema_version'', JInt (ae_schema_version r)),
             (''event_type'', JStr (ae_event_type r)), (''occurred_at'', JStr (ae_occurred_at r)),
             (''correlation_id'', nullable (ae_correlation_id r)), (''causation_event_id'', nullable (ae_causation_event_id r)),
             (''producer_id'', nullable (ae_producer_id r)), (''identity'', JStr (ae_identity r)),
             (''recorded_by'', JObj [(''kind'', JStr (ae_recorded_by_kind r)), (''identity'', nullable (ae_recorded_by_id r))]),
             (''payload'', event_payload withContent (ae_payload r)), (''payload_digest'', JStr (ae_payload_digest r)),
             (''integrity'', JObj [(''digest_matches'', JBool (we_sha256 env (ae_payload r) = ae_payload_digest r))]),
             (''attestation'', attestation), (''stored_at'', JStr (stored_text r)), (''attachments'', JArr blobs)])
       (attestation_json (ae_attestation r))"

definition getEvent :: "web_env \<Rightarrow> audit_db \<Rightarrow> string \<Rightarrow> bool \<Rightarrow> web_answer" where
  "getEvent env db eventId withContent =
     (case stmtSelectAuditEvent db eventId of
        None \<Rightarrow> c_fail 404 (''no event '' @ quoted eventId)
      | Some row \<Rightarrow>
          (case shape env row (attachmentsOf db eventId) withContent of
             None \<Rightarrow> answerUnhandled
           | Some e \<Rightarrow> c_json 200 (JObj [(''ok'', JBool True), (''event'', e)])))"

definition parseCursor :: "string \<Rightarrow> (string \<times> string) option" where
  "parseCursor cursor =
     (let before = takeWhile (\<lambda>c. c \<noteq> CHR ''|'') cursor; rest = dropWhile (\<lambda>c. c \<noteq> CHR ''|'') cursor
      in if before = [] \<or> rest = [] then None else Some (before, tl rest))"

definition event_after :: "string \<times> string \<Rightarrow> audit_event_row \<Rightarrow> bool" where
  "event_after c r \<longleftrightarrow> fst c < stored_text r \<or> fst c = stored_text r \<and> snd c < ae_event_id r"

text \<open>A parameter that is absent or empty filters nothing.\<close>

definition given :: "string option \<Rightarrow> (string \<Rightarrow> bool) \<Rightarrow> bool" where
  "given x P \<longleftrightarrow> blank x \<or> P (the x)"

definition event_selected :: "(string \<Rightarrow> string option) \<Rightarrow> audit_event_row \<Rightarrow> bool" where
  "event_selected qs r \<longleftrightarrow>
     given (qs ''identity'') (\<lambda>v. ae_identity r = v) \<and> given (qs ''event_type'') (\<lambda>v. ae_event_type r = v) \<and>
     given (qs ''recorded_by_kind'') (\<lambda>v. ae_recorded_by_kind r = v) \<and>
     given (qs ''recorded_by_identity'') (\<lambda>v. ae_recorded_by_id r = Some v) \<and>
     given (qs ''correlation_id'') (\<lambda>v. ae_correlation_id r = Some v) \<and>
     given (qs ''from'') (\<lambda>v. v \<le> stored_text r) \<and> given (qs ''to'') (\<lambda>v. stored_text r \<le> v)"

definition in_event_order :: "audit_event_row list \<Rightarrow> audit_event_row list" where
  "in_event_order rows = order_asc stored_text (order_asc ae_event_id rows)"

text \<open>A page and the cursor of the next, or a malformed cursor.\<close>

definition event_page ::
  "audit_db \<Rightarrow> (audit_event_row \<Rightarrow> bool) \<Rightarrow> nat \<Rightarrow> (string \<times> string) option \<Rightarrow> audit_event_row list \<times> (string \<times> string) option" where
  "event_page db P limit cursor =
     (let rows = take (Suc limit) (in_event_order (sql_where
                   (\<lambda>r. P r \<and> (case cursor of None \<Rightarrow> True | Some c \<Rightarrow> event_after c r)) (au_events db)));
          page = take limit rows
      in (page, if length rows > limit \<and> page \<noteq> [] then Some (stored_text (last page), ae_event_id (last page)) else None))"

definition cursor_text :: "string \<times> string \<Rightarrow> string" where
  "cursor_text c = fst c @ CHR ''|'' # snd c"

fun shape_all :: "web_env \<Rightarrow> audit_db \<Rightarrow> bool \<Rightarrow> audit_event_row list \<Rightarrow> json list option" where
  "shape_all env db withContent [] = Some []"
| "shape_all env db withContent (r # rs) =
     (case shape env r (attachmentsOf db (ae_event_id r)) withContent of
        None \<Rightarrow> None
      | Some e \<Rightarrow> map_option (Cons e) (shape_all env db withContent rs))"

definition listEvents :: "web_env \<Rightarrow> audit_db \<Rightarrow> (string \<Rightarrow> string option) \<Rightarrow> bool \<Rightarrow> web_answer" where
  "listEvents env db qs withContent =
     (let limit = nat (clamped 50 1 200 (qs ''limit''));
          answer = (\<lambda>cursor. case event_page db (event_selected qs) limit cursor of
            (page, next_cursor) \<Rightarrow>
              (case shape_all env db withContent page of
                 None \<Rightarrow> answerUnhandled
               | Some es \<Rightarrow> c_json 200 (JObj [(''ok'', JBool True), (''events'', JArr es),
                              (''next_cursor'', nullable (map_option cursor_text next_cursor))])))
      in if blank (qs ''cursor'') then answer None
         else case parseCursor (the (qs ''cursor'')) of
                None \<Rightarrow> c_fail 400 ''malformed cursor''
              | Some c \<Rightarrow> answer (Some c))"

section \<open>The record of a content read\<close>

definition access_event :: "web_env \<Rightarrow> string \<Rightarrow> string \<Rightarrow> json \<Rightarrow> audit_event_row" where
  "access_event env actor target query =
     (let i = ''evt_'' @ we_event_id env; now = iso_text (we_now env);
          payload = json_text (JObj [(''schema_version'', JInt 1), (''event_id'', JStr i),
            (''event_type'', JStr ''mesh.identity.audit_read''), (''occurred_at'', JStr now), (''correlation_id'', JStr actor),
            (''identity'', JStr actor), (''actor'', JStr actor),
            (''change'', JObj [(''read'', JStr target), (''query'', query)])])
      in \<lparr>ae_event_id = i, ae_schema_version = 1, ae_event_type = ''mesh.identity.audit_read'', ae_occurred_at = now,
          ae_correlation_id = Some actor, ae_causation_event_id = None, ae_producer_id = None, ae_identity = actor,
          ae_recorded_by_kind = ''http'', ae_recorded_by_id = Some ''agent-mesh-http'', ae_payload = payload,
          ae_payload_digest = we_sha256 env payload, ae_attestation = None, ae_stored_at = we_now env\<rparr>)"

definition recordContentRead :: "web_env \<Rightarrow> string \<Rightarrow> string \<Rightarrow> json \<Rightarrow> audit_db \<Rightarrow> audit_db option" where
  "recordContentRead env actor target query db =
     (if \<not> we_audit_up env then None else stmtInsertAuditEvent db (access_event env actor target query))"

definition unrecordable :: web_answer where
  "unrecordable =
     c_json 503 (JObj [(''ok'', JBool False), (''error'', JStr ''content reads are recorded, and the record could not be written''),
       (''code'', JStr ''AUDIT_READ_UNRECORDABLE'')])"

text \<open>The refusal, or the state with the record in it.\<close>

definition logContentRead :: "web_env \<Rightarrow> web \<Rightarrow> string \<Rightarrow> bool \<Rightarrow> string \<Rightarrow> json \<Rightarrow> web_answer + web" where
  "logContentRead env w actor withContent target query =
     (if \<not> withContent then Inr w
      else case recordContentRead env actor target query (w_audit w) of
             None \<Rightarrow> Inl unrecordable
           | Some db \<Rightarrow> Inr (w\<lparr>w_audit := db\<rparr>))"

definition query_json :: "web_request \<Rightarrow> json" where
  "query_json q = JObj (map (\<lambda>(k, v). (k, JStr v)) (wq_queries q))"

definition reads_content :: "web_env \<Rightarrow> web \<Rightarrow> string \<Rightarrow> bool" where
  "reads_content env w actor =
     has_cap (we_wide env) (w_agents w) actor (we_cap env AUDIT_READ_CONTENT) (we_wide env) DEFAULT_TENANT"

definition get_audit_events :: route where
  "get_audit_events env w q =
     (case requireCapability env w q AUDIT_READ_METADATA (we_wide env) of
        Inl a \<Rightarrow> (a, w)
      | Inr actor \<Rightarrow>
          (let withContent = reads_content env w actor
           in case logContentRead env w actor withContent ''list'' (query_json q) of
                Inl a \<Rightarrow> (a, w)
              | Inr w1 \<Rightarrow> (listEvents env (w_audit w1) (wq_query q) withContent, w1)))"

definition get_audit_event :: route where
  "get_audit_event env w q =
     (case requireCapability env w q AUDIT_READ_METADATA (we_wide env) of
        Inl a \<Rightarrow> (a, w)
      | Inr actor \<Rightarrow>
          (let withContent = reads_content env w actor; i = wq_param q ''event_id''
           in case logContentRead env w actor withContent i (JObj []) of
                Inl a \<Rightarrow> (a, w)
              | Inr w1 \<Rightarrow> (getEvent env (w_audit w1) i withContent, w1)))"

section \<open>Conversations\<close>

text \<open>\<open>LIKE\<close> without an escape character.\<close>

fun like_plain :: "string \<Rightarrow> string \<Rightarrow> bool" where
  "like_plain [] t = (t = [])"
| "like_plain (p # ps) t =
     (if p = CHR ''%'' then like_plain ps t \<or> (case t of [] \<Rightarrow> False | c # cs \<Rightarrow> like_plain (p # ps) cs)
      else case t of
             [] \<Rightarrow> False
           | c # cs \<Rightarrow> (p = CHR ''_'' \<or> fold_char p = fold_char c) \<and> like_plain ps cs)"

definition likeContains :: "string \<Rightarrow> string" where
  "likeContains v = ''%'' @ concat (map (\<lambda>c. if c \<in> {ESC, CHR ''%'', CHR ''_''} then [ESC, c] else [c]) v) @ ''%''"

definition pageLimit :: "string option \<Rightarrow> nat" where
  "pageLimit raw =
     (case (case raw of None \<Rightarrow> Some 100 | Some s \<Rightarrow> parseInt s) of
        None \<Rightarrow> 100
      | Some n \<Rightarrow> if n \<le> 0 then 100 else nat (min n 200))"

definition chat_selected :: "(string \<Rightarrow> string option) \<Rightarrow> message_row \<Rightarrow> bool" where
  "chat_selected qs m \<longleftrightarrow>
     given (qs ''from_agent'') (\<lambda>v. ms_from_agent m = v) \<and> given (qs ''to_agent'') (\<lambda>v. ms_to_agent m = v) \<and>
     given (qs ''search'') (\<lambda>v. like (likeContains v) (ms_content m))"

definition older :: "secs \<times> string \<Rightarrow> message_row \<Rightarrow> bool" where
  "older c m \<longleftrightarrow> ms_ts m < fst c \<or> ms_ts m = fst c \<and> ms_id m < snd c"

text \<open>The place of the message that the page ends before; one that nobody knows is no place.\<close>

definition chat_cursor :: "hub_db \<Rightarrow> string option \<Rightarrow> (secs \<times> string) option" where
  "chat_cursor h beforeId =
     (if blank beforeId then None
      else map_option (\<lambda>m. (ms_ts m, the beforeId)) (sql_get (\<lambda>m. ms_id m = the beforeId) (hb_messages h)))"

definition newest_first :: "message_row list \<Rightarrow> message_row list" where
  "newest_first rows = rev (order_asc ms_ts (order_asc ms_id rows))"

definition chat_page ::
  "hub_db \<Rightarrow> (message_row \<Rightarrow> bool) \<Rightarrow> nat \<Rightarrow> (secs \<times> string) option \<Rightarrow> message_row list \<times> bool \<times> string option" where
  "chat_page h P limit cursor =
     (let rows = take (Suc limit) (newest_first (sql_where
                   (\<lambda>m. (case cursor of None \<Rightarrow> True | Some c \<Rightarrow> older c m) \<and> P m) (hb_messages h)));
          hasMore = limit < length rows; page = (if hasMore then take limit rows else rows)
      in (page, hasMore, if page = [] then None else Some (ms_id (last page))))"

definition audit_view :: "message_row \<Rightarrow> audit_message" where
  "audit_view m =
     \<lparr>am_id = ms_id m, am_from = ms_from_agent m, am_to = ms_to_agent m, am_content = ms_content m,
      am_reply_to = ms_reply_to m, am_status = Some (status_text (ms_status m)), am_ts = sql_time (ms_ts m)\<rparr>"

definition listChatAudits :: "hub_db \<Rightarrow> (string \<Rightarrow> string option) \<Rightarrow> web_answer" where
  "listChatAudits h qs =
     (case chat_page h (chat_selected qs) (pageLimit (qs ''limit'')) (chat_cursor h (qs ''before_id'')) of
        (page, hasMore, oldestId) \<Rightarrow>
          c_json 200 (JObj [(''messages'', JArr (map (audit_message_json \<circ> audit_view) page)), (''has_more'', JBool hasMore),
            (''oldest_id'', nullable oldestId)]))"

definition get_chat_audits :: route where
  "get_chat_audits env w q =
     (case requireCapability env w q AUDIT_READ_CONTENT (we_wide env) of
        Inl a \<Rightarrow> (a, w)
      | Inr actor \<Rightarrow>
          (case logContentRead env w actor True ''chat-audits:list'' (query_json q) of
             Inl a \<Rightarrow> (a, w)
           | Inr w1 \<Rightarrow> (listChatAudits (w_hub w1) (wq_query q), w1)))"

text \<open>Who appears in the conversations: \<open>COLLATE NOCASE\<close> sorts by the folded name.\<close>

definition auditAgents :: "hub_db \<Rightarrow> string list" where
  "auditAgents h =
     filter (\<lambda>a. a \<noteq> []) (order_asc (map fold_char)
       (remdups (map ms_from_agent (hb_messages h) @ map ms_to_agent (hb_messages h))))"

definition get_audit_agents :: route where
  "get_audit_agents env w q =
     (case requireCapability env w q AUDIT_READ_METADATA (we_wide env) of
        Inl a \<Rightarrow> (a, w)
      | Inr actor \<Rightarrow> (c_json 200 (JObj [(''agents'', JArr (map JStr (auditAgents (w_hub w))))]), w))"

section \<open>The stream of the conversations\<close>

definition newer :: "secs \<times> string \<Rightarrow> message_row \<Rightarrow> bool" where
  "newer c m \<longleftrightarrow> fst c < ms_ts m \<or> fst c = ms_ts m \<and> snd c < ms_id m"

definition oldest_first :: "message_row list \<Rightarrow> message_row list" where
  "oldest_first rows = order_asc ms_ts (order_asc ms_id rows)"

definition gap_selected :: "audit_watcher \<Rightarrow> message_row \<Rightarrow> bool" where
  "gap_selected f m \<longleftrightarrow>
     given (aw_from f) (\<lambda>v. ms_from_agent m = v) \<and> given (aw_to f) (\<lambda>v. ms_to_agent m = v) \<and>
     given (aw_search f) (\<lambda>v. like_plain (''%'' @ v @ ''%'') (ms_content m))"

definition recovered_json :: "audit_message \<Rightarrow> json" where
  "recovered_json m =
     (case audit_message_json m of JObj ms \<Rightarrow> JObj (ms @ [(''recovered'', JBool True)]) | j \<Rightarrow> j)"

text \<open>What a console that comes back with the id it saw last is sent at once.\<close>

definition gap_frames :: "hub_db \<Rightarrow> audit_watcher \<Rightarrow> string option \<Rightarrow> json list" where
  "gap_frames h f lastEventId =
     (if blank lastEventId then []
      else case sql_get (\<lambda>m. ms_id m = the lastEventId) (hb_messages h) of
             None \<Rightarrow> []
           | Some anchor \<Rightarrow>
               (let rows = sql_where (\<lambda>m. newer (ms_ts anchor, the lastEventId) m \<and> gap_selected f m) (hb_messages h)
                in if length rows > 100 then
                     [JObj [(''count'', JInt (int (length rows))), (''truncated'', JBool True),
                            (''last_event_id'', JStr (the lastEventId))]]
                   else map (recovered_json \<circ> audit_view) (oldest_first rows)))"

definition get_chat_audits_stream :: "nat \<Rightarrow> string option \<Rightarrow> route" where
  "get_chat_audits_stream stream lastEventIdHeader env w q =
     (case requireCapability env w q AUDIT_READ_CONTENT (we_wide env) of
        Inl a \<Rightarrow> (a, w)
      | Inr actor \<Rightarrow>
          (case logContentRead env w actor True ''chat-audits:stream'' (query_json q) of
             Inl a \<Rightarrow> (a, w)
           | Inr w1 \<Rightarrow>
               (let set_of = (\<lambda>k. if blank (wq_query q k) then None else wq_query q k);
                    f = \<lparr>aw_stream = stream, aw_from = set_of ''from_agent'', aw_to = set_of ''to_agent'',
                         aw_search = set_of ''search''\<rparr>;
                    lastId = (case lastEventIdHeader of None \<Rightarrow> set_of ''last_event_id'' | Some i \<Rightarrow> Some i)
                in (c_json 200 JNull,
                    w1\<lparr>w_watchers := w_watchers w1 @ [f],
                       w_out := w_out w1 @ map (AuditFrame stream) (gap_frames (w_hub w1) f lastId)\<rparr>))))"

section \<open>The poller\<close>

definition auditPollerStartingPoint :: "web \<Rightarrow> web" where
  "auditPollerStartingPoint w =
     w\<lparr>w_seen := Some (case newest_first (hb_messages (w_hub w)) of [] \<Rightarrow> (0, []) | m # _ \<Rightarrow> (ms_ts m, ms_id m))\<rparr>"

definition poll_one :: "web \<Rightarrow> message_row \<Rightarrow> web" where
  "poll_one w m = (broadcastAuditMessage (audit_view m) w)\<lparr>w_seen := Some (ms_ts m, ms_id m)\<rparr>"

text \<open>A comparison with an anchor that was never set selects nothing.\<close>

definition polled :: "hub_db \<Rightarrow> (secs \<times> string) option \<Rightarrow> message_row list" where
  "polled h seen =
     (case seen of None \<Rightarrow> [] | Some c \<Rightarrow> take 200 (oldest_first (sql_where (newer c) (hb_messages h))))"

definition auditPollerPass :: "web \<Rightarrow> web" where
  "auditPollerPass w = foldl poll_one w (polled (w_hub w) (w_seen w))"

end
