(* ===== verification/Web_Files.thy ===== *)
theory Web_Files
  imports Web_Audit Hub_Signed
begin

text \<open>
  Files in the web server: \<open>packages/http/src/file-access.ts\<close>, \<open>attachment-access.ts\<close> and \<open>audit-blobs.ts\<close>, and of
  \<open>main.ts\<close> the routes that serve a file, take an upload, and serve an attachment.

  The file system is a map of absolute paths. \<open>resolve\<close> and \<open>join\<close> of \<open>node:path\<close> work on the segments of a path.
  The parsing and the preimages of the signed headers, the patterns of a blob key and the limits come from
  contracts. Types, display names and other headers of a served file are not modelled; its bytes are the body of
  the answer. The bytes of a signed upload arrive in pieces, or the stream breaks with a message.

  Its properties are in \<open>Web_Files_Facts\<close>.
\<close>

section \<open>Paths\<close>

datatype disk_file = RegularFile string | DirectoryFile

type_synonym files = "string \<rightharpoonup> disk_file"

text \<open>The segments of a path without empty ones and dots; two dots take the last one off.\<close>

fun walk :: "string list \<Rightarrow> string list \<Rightarrow> string list" where
  "walk seen [] = rev seen"
| "walk seen (p # ps) =
     (if p = [] \<or> p = ''.'' then walk seen ps
      else if p = ''..'' then walk (tl seen) ps
      else walk (p # seen) ps)"

definition path_of :: "string list \<Rightarrow> string" where
  "path_of ps = CHR ''/'' # join_with ''/'' ps"

definition resolve :: "string \<Rightarrow> string \<Rightarrow> string" where
  "resolve cwd p =
     path_of (walk [] ((if starts_with ''/'' p then [] else split_on (CHR ''/'') cwd) @ split_on (CHR ''/'') p))"

definition isPathAllowed :: "string \<Rightarrow> string \<Rightarrow> string list \<Rightarrow> bool" where
  "isPathAllowed cwd filePath prefixes =
     (let resolved = resolve cwd filePath
      in if resolved \<noteq> filePath \<and> has_text ''..'' filePath then False
         else list_ex (\<lambda>prefix. resolved = prefix \<or>
                starts_with (if ends_with ''/'' prefix then prefix else prefix @ ''/'') resolved) prefixes)"

record file_env =
  fe_web :: web_env
  fe_contracts :: rest_contracts
  fe_verify :: verify_params
  fe_freshness :: int
  fe_cwd :: string
  fe_state_dir :: string
  fe_prefixes :: "string list"
  fe_public_url :: string
  fe_upload_max :: int
  fe_envelope_slack :: int
  fe_blob_key :: "string \<Rightarrow> bool"
  fe_parseUpload :: "string \<Rightarrow> (string \<times> string \<times> string) option"
  fe_uploadPreimage :: "string \<Rightarrow> string \<Rightarrow> string \<Rightarrow> int \<Rightarrow> string"
  fe_max_blob_bytes :: int

definition MAX_FILE_SIZE :: nat where
  "MAX_FILE_SIZE = 10 * 1024 * 1024"

definition served :: "string \<Rightarrow> web_answer" where
  "served bytes = c_json 200 (JStr bytes)"

text \<open>The size in the refusal is printed by \<open>toFixed\<close> and left out.\<close>

definition get_files :: "file_env \<Rightarrow> files \<Rightarrow> web \<Rightarrow> web_request \<Rightarrow> web_answer" where
  "get_files fe fs w q =
     (case signed_in_and_approved (fe_web fe) w q ''Account pending approval'' of
        Inl a \<Rightarrow> a
      | Inr payload \<Rightarrow>
          (case wq_query q ''path'' of
             None \<Rightarrow> c_error 400 (''Missing '' @ CHR 0x22 # ''path'' @ CHR 0x22 # '' query parameter'')
           | Some filePath \<Rightarrow>
               if filePath = [] then c_error 400 (''Missing '' @ CHR 0x22 # ''path'' @ CHR 0x22 # '' query parameter'')
               else if \<not> isPathAllowed (fe_cwd fe) filePath (fe_state_dir fe # fe_prefixes fe) then
                 c_error 403 (''Access denied '' @ utf8 0x2014 @ '' file path not in allowed directories'')
               else (case fs (resolve (fe_cwd fe) filePath) of
                       None \<Rightarrow> c_error 404 ''File not found''
                     | Some DirectoryFile \<Rightarrow> c_error 400 ''Path is not a file''
                     | Some (RegularFile bytes) \<Rightarrow>
                         if MAX_FILE_SIZE < length bytes then c_error 413 ''File too large'' else served bytes)))"

definition UPLOAD_DIR :: "file_env \<Rightarrow> string" where
  "UPLOAD_DIR fe = fe_state_dir fe @ ''/uploads''"

text \<open>\<open>join(UPLOAD_DIR, id)\<close> for an id without a separator.\<close>

definition upload_path :: "file_env \<Rightarrow> string \<Rightarrow> string" where
  "upload_path fe i = UPLOAD_DIR fe @ ''/'' @ i"

section \<open>Uploads of people\<close>

text \<open>\<open>/(\.[a-zA-Z0-9]{1,16})$/\<close> in lower case, or nothing.\<close>

definition extension :: "string \<Rightarrow> string" where
  "extension name =
     (let t = takeWhile alnum (rev name); r = drop (length t) (rev name)
      in if t \<noteq> [] \<and> length t \<le> 16 \<and> r \<noteq> [] \<and> hd r = CHR ''.'' then CHR ''.'' # map fold_char (rev t) else [])"

record upload =
  ul_length :: "json option"
  ul_file :: "(string \<times> string) option"

text \<open>\<open>Number(header)\<close> that is an integer and not negative.\<close>

definition declared_length :: "json \<Rightarrow> int option" where
  "declared_length h = (case js_Number h of Some (JInt i) \<Rightarrow> if 0 \<le> i then Some i else None | _ \<Rightarrow> None)"

definition upload_answer :: "file_env \<Rightarrow> string \<Rightarrow> string \<Rightarrow> string \<Rightarrow> string \<Rightarrow> web_answer" where
  "upload_answer fe i name bytes sha256 =
     c_json 200 (JObj [(''ok'', JBool True), (''id'', JStr i), (''name'', JStr name), (''size'', JInt (int (length bytes))),
       (''sha256'', JStr sha256), (''download_url'', JStr (fe_public_url fe @ ''/api/v1/attachments/'' @ i)),
       (''uploaded_at'', JStr (iso_text (we_now (fe_web fe)))), (''file_path'', JStr (upload_path fe i)),
       (''filename'', JStr name)])"

definition too_large :: "file_env \<Rightarrow> web_answer" where
  "too_large fe = c_error 413 (''File too large (max '' @ int_text (fe_upload_max fe) @ '' bytes)'')"

definition post_upload :: "file_env \<Rightarrow> upload \<Rightarrow> files \<Rightarrow> web \<Rightarrow> web_request \<Rightarrow> web_answer \<times> files" where
  "post_upload fe u fs w q =
     (case signed_in_and_approved (fe_web fe) w q ''Account pending approval'' of
        Inl a \<Rightarrow> (a, fs)
      | Inr payload \<Rightarrow>
          (case ul_length u of
             None \<Rightarrow> (c_error 411 ''Content-Length is required'', fs)
           | Some h \<Rightarrow>
               (case declared_length h of
                  None \<Rightarrow> (c_error 400 ''Content-Length must be a non-negative integer'', fs)
                | Some declared \<Rightarrow>
                    if declared > fe_upload_max fe + fe_envelope_slack fe then (too_large fe, fs)
                    else (case ul_file u of
                            None \<Rightarrow> (c_error 400 ''No file provided'', fs)
                          | Some (name, bytes) \<Rightarrow>
                              if int (length bytes) > fe_upload_max fe then (too_large fe, fs)
                              else (let sha256 = we_sha256 (fe_web fe) bytes; i = sha256 @ extension name;
                                        path = upload_path fe i
                                    in (upload_answer fe i name bytes sha256,
                                        if fs path \<noteq> None then fs else fs(path \<mapsto> RegularFile bytes)))))))"

section \<open>Attachments\<close>

definition carries :: "string \<Rightarrow> message_row \<Rightarrow> bool" where
  "carries attachmentId m \<longleftrightarrow> like_plain (''%'' @ CHR 0x22 # attachmentId @ CHR 0x22 # ''%'') (ms_content m)"

definition mayDownload :: "hub_db \<Rightarrow> string \<Rightarrow> string \<Rightarrow> bool" where
  "mayDownload h identity attachmentId =
     sql_exists (\<lambda>m. (ms_from_agent m = identity \<or> ms_to_agent m = identity) \<and> carries attachmentId m) (hb_messages h)"

definition participants :: "hub_db \<Rightarrow> string \<Rightarrow> string list" where
  "participants h attachmentId =
     sort (remdups (concat (map (\<lambda>m. [ms_from_agent m, ms_to_agent m]) (sql_where (carries attachmentId) (hb_messages h)))))"

definition is_hex :: "char \<Rightarrow> bool" where
  "is_hex c \<longleftrightarrow> is_digit c \<or> c \<in> set ''abcdef''"

definition name_char :: "char \<Rightarrow> bool" where
  "name_char c \<longleftrightarrow> alnum c \<or> c \<in> set ''._-''"

text \<open>\<open>/^[0-9a-f]{64}(?:\.[a-zA-Z0-9]{1,16})?$/\<close> and \<open>/^[0-9]+-[a-zA-Z0-9._-]+$/\<close>.\<close>

definition sha256_id :: "string \<Rightarrow> bool" where
  "sha256_id s \<longleftrightarrow> length (take 64 s) = 64 \<and> list_all is_hex (take 64 s) \<and>
     (case drop 64 s of [] \<Rightarrow> True
      | c # e \<Rightarrow> c = CHR ''.'' \<and> e \<noteq> [] \<and> length e \<le> 16 \<and> list_all alnum e)"

definition legacy_id :: "string \<Rightarrow> bool" where
  "legacy_id s \<longleftrightarrow>
     (case dropWhile is_digit s of
        c # r \<Rightarrow> takeWhile is_digit s \<noteq> [] \<and> c = CHR ''-'' \<and> r \<noteq> [] \<and> list_all name_char r
      | [] \<Rightarrow> False)"

datatype caller = CallerIs string | CallerRefused int

text \<open>The identity behind the request: a session, or a signature over the method and the path with an empty body.\<close>

definition attachmentCaller :: "file_env \<Rightarrow> web \<Rightarrow> web_request \<Rightarrow> caller" where
  "attachmentCaller fe w q =
     (case extractJwt (fe_web fe) w q of
        Some session \<Rightarrow>
          if isUserApproved (w_db w) (jp_github_login session) (jp_role session) then CallerIs (jp_github_login session)
          else CallerRefused 403
      | None \<Rightarrow>
          (case given_string (map_option JStr (wq_authorization q)) of
             None \<Rightarrow> CallerRefused 401
           | Some header \<Rightarrow>
               (case rc_parseAuth (fe_contracts fe) header of
                  None \<Rightarrow> CallerRefused 401
                | Some (kid, nonce, iat, signature) \<Rightarrow>
                    if \<bar>web_secs (fe_web fe) - iat\<bar> > fe_freshness fe then CallerRefused 401
                    else (case given_string (map_option JStr (identityForFingerprint (w_agents w) kid)) of
                            None \<Rightarrow> CallerRefused 401
                          | Some identity \<Rightarrow>
                              (case verifyForIdentity (fe_verify fe) (w_agents w) identity kid
                                      (rc_restPreimage (fe_contracts fe) ''GET'' (wq_path q) kid nonce iat []) signature of
                                 VerifyOk _ \<Rightarrow> CallerIs identity
                               | _ \<Rightarrow> CallerRefused 401)))))"

definition get_attachment :: "file_env \<Rightarrow> files \<Rightarrow> web \<Rightarrow> web_request \<Rightarrow> web_answer" where
  "get_attachment fe fs w q =
     (let i = wq_param q ''id''
      in if i = [] \<or> CHR ''/'' \<in> set i \<or> ESC \<in> set i \<or> has_text ''..'' i then c_error 400 ''Invalid attachment id''
         else if \<not> sha256_id i \<and> \<not> legacy_id i then c_error 400 ''Invalid attachment id format''
         else (case attachmentCaller fe w q of
                 CallerRefused status \<Rightarrow>
                   c_error status (if status = 403 then ''Account pending approval''
                     else ''Unauthorized '' @ utf8 0x2014 @ '' sign in, or sign the request (SPEC '' @ utf8 0xA7 @ '' 9.2.1)'')
               | CallerIs identity \<Rightarrow>
                   if \<not> mayDownload (w_hub w) identity i then c_error 404 ''Not found''
                   else (case fs (upload_path fe i) of
                           None \<Rightarrow> c_error 404 ''Not found''
                         | Some DirectoryFile \<Rightarrow> c_error 400 ''Not a file''
                         | Some (RegularFile bytes) \<Rightarrow> served bytes)))"

section \<open>Signed uploads\<close>

datatype body_piece = Piece string | Broken string

definition blob_refused :: "int \<Rightarrow> string \<Rightarrow> int \<times> json" where
  "blob_refused status message = (status, JObj [(''ok'', JBool False), (''error'', JStr message)])"

text \<open>The loop over the body: what was received, or the message of what ended it.\<close>

fun receive_body :: "int \<Rightarrow> string \<Rightarrow> body_piece list \<Rightarrow> string + string" where
  "receive_body sz got [] = Inr got"
| "receive_body sz got (Broken m # ps) = Inl m"
| "receive_body sz got (Piece b # ps) =
     (if int (length (got @ b)) > sz then Inl (''body exceeds the '' @ int_text sz @ '' bytes authorised'')
      else receive_body sz (got @ b) ps)"

definition body_failure :: "string \<Rightarrow> int \<times> json" where
  "body_failure m =
     (if has_text ''timed out'' m then blob_refused 408 ''upload timed out''
      else if has_text ''exceeds'' m then blob_refused 413 m
      else blob_refused 400 (''upload failed: '' @ m))"

definition has_size :: "files \<Rightarrow> string \<Rightarrow> int \<Rightarrow> bool" where
  "has_size fs path sz \<longleftrightarrow> (case fs path of Some (RegularFile b) \<Rightarrow> int (length b) = sz | _ \<Rightarrow> False)"

definition store_blob ::
  "file_env \<Rightarrow> files \<Rightarrow> string \<Rightarrow> upload_nonce_row \<Rightarrow> body_piece list option \<Rightarrow> (int \<times> json) \<times> files" where
  "store_blob fe fs blobKey g body =
     (let path = upload_path fe blobKey
      in if has_size fs path (un_size g) then
           ((200, JObj [(''ok'', JBool True), (''blob_key'', JStr blobKey), (''deduplicated'', JBool True)]), fs)
         else case body of
                None \<Rightarrow> (blob_refused 400 ''request has no body'', fs)
              | Some pieces \<Rightarrow>
                  (case receive_body (un_size g) [] pieces of
                     Inl m \<Rightarrow> (body_failure m, fs)
                   | Inr bytes \<Rightarrow>
                       if int (length bytes) \<noteq> un_size g then
                         (blob_refused 400 (''received '' @ int_text (int (length bytes)) @ '' bytes, expected '' @ int_text (un_size g)), fs)
                       else if we_sha256 (fe_web fe) bytes \<noteq> un_sha256 g then
                         (blob_refused 422 (''digest mismatch: received '' @ we_sha256 (fe_web fe) bytes @ '', authorised '' @ un_sha256 g), fs)
                       else ((201, JObj [(''ok'', JBool True), (''blob_key'', JStr blobKey),
                                (''size'', JInt (int (length bytes))), (''sha256'', JStr (un_sha256 g))]),
                             fs(path \<mapsto> RegularFile bytes))))"

definition putBlob ::
  "file_env \<Rightarrow> agents_db \<Rightarrow> files \<Rightarrow> string \<Rightarrow> string option \<Rightarrow> json option \<Rightarrow> body_piece list option \<Rightarrow> (int \<times> json) \<times> files" where
  "putBlob fe m fs blobKey authorization declared body =
     (if \<not> fe_blob_key fe blobKey then (blob_refused 400 ''invalid blob key'', fs)
      else case given_string (map_option JStr authorization) of
             None \<Rightarrow> (blob_refused 401 ''missing AgentMeshSig authorization'', fs)
           | Some header \<Rightarrow>
               (case fe_parseUpload fe header of
                  None \<Rightarrow> (blob_refused 401 ''authorization must use the AgentMeshSig scheme'', fs)
                | Some (nonce, kid, signature) \<Rightarrow>
                    (case declared of
                       None \<Rightarrow> (blob_refused 411 ''Content-Length is required'', fs)
                     | Some h \<Rightarrow>
                         (case declared_length h of
                            None \<Rightarrow> (blob_refused 400 ''Content-Length must be a non-negative integer'', fs)
                          | Some sz \<Rightarrow>
                              if sz > fe_max_blob_bytes fe then
                                (blob_refused 413 (''body is '' @ int_text sz @ '' bytes, over the '' @
                                   int_text (fe_max_blob_bytes fe) @ '' byte limit''), fs)
                              else (case sql_get (\<lambda>r. un_nonce r = nonce) (db_upload_nonces m) of
                                      None \<Rightarrow> (blob_refused 403 ''unknown or expired upload grant'', fs)
                                    | Some row \<Rightarrow>
                                        (case checkGrant (web_secs (fe_web fe)) m nonce (un_identity row) blobKey sz of
                                           GrantRefused _ \<Rightarrow> (blob_refused 403 ''upload grant does not authorise this upload'', fs)
                                         | GrantOk g \<Rightarrow>
                                             (case verifyForIdentity (fe_verify fe) m (un_identity g) kid
                                                     (fe_uploadPreimage fe nonce blobKey (un_sha256 g) (un_size g)) signature of
                                                VerifyOk _ \<Rightarrow> store_blob fe fs blobKey g body
                                              | outcome \<Rightarrow>
                                                  (blob_refused 403 (''signature does not verify ('' @ outcome_reason outcome @ '')''), fs))))))))"

end
