(* ===== verification/Web_Audit_Facts.thy ===== *)
theory Web_Audit_Facts
  imports Web_Audit Web_Delivery
begin

text \<open>
  What the audit promises its readers: following the cursors reads every event, and every conversation, exactly
  once; what is withheld is withheld at every depth; content is read on the record; and the messages that the
  poller never sees.

  \<open>keyset\<close> is the interface of a page that ends with a row and begins after it: an arrangement of the rows by a
  strict order.
\<close>

section \<open>Pages\<close>

locale keyset =
  fixes arrange :: "'r list \<Rightarrow> 'r list"
    and before :: "'r \<Rightarrow> 'r \<Rightarrow> bool"
    and ok :: "'r list \<Rightarrow> bool"
  assumes arrange_filter: "arrange (filter P rs) = filter P (arrange rs)"
    and arranged: "ok rs \<Longrightarrow> sorted_wrt before (arrange rs)"
    and asym: "before a b \<Longrightarrow> \<not> before b a"
begin

lemma after_row:
  assumes "ok rs" "i < length (arrange rs)"
  shows "filter (before (arrange rs ! i)) (arrange rs) = drop (Suc i) (arrange rs)"
proof -
  let ?L = "arrange rs"
  have L: "?L = take i ?L @ ?L ! i # drop (Suc i) ?L" using assms(2) by (rule id_take_nth_drop)
  have s: "sorted_wrt before (take i ?L @ ?L ! i # drop (Suc i) ?L)" using arranged [OF assms(1)] L by simp
  then have "\<forall>x\<in>set (take i ?L). before x (?L ! i)" "\<forall>x\<in>set (drop (Suc i) ?L). before (?L ! i) x"
    by (simp_all add: sorted_wrt_append)
  moreover have "\<not> before (?L ! i) (?L ! i)" using asym by blast
  ultimately have "filter (before (?L ! i)) (take i ?L @ ?L ! i # drop (Suc i) ?L) = drop (Suc i) ?L"
    using asym by (auto simp: filter_empty_conv filter_id_conv)
  with L show ?thesis by simp
qed

definition rest :: "'r list \<Rightarrow> 'r option \<Rightarrow> 'r list" where
  "rest rs cur = filter (\<lambda>r. case cur of None \<Rightarrow> True | Some c \<Rightarrow> before c r) (arrange rs)"

text \<open>The loop of a reader: a page, and after a full one that is not the last the page after its last row.\<close>

fun read_all :: "nat \<Rightarrow> 'r list \<Rightarrow> nat \<Rightarrow> 'r option \<Rightarrow> 'r list" where
  "read_all 0 rs n cur = []"
| "read_all (Suc k) rs n cur =
     (let xs = rest rs cur
      in if n < length xs then take n xs @ read_all k rs n (Some (last (take n xs))) else xs)"

lemma read_all_from:
  assumes "ok rs" "0 < n" "rest rs cur = drop i (arrange rs)" "length (arrange rs) - i < k"
  shows "read_all k rs n cur = drop i (arrange rs)"
  using assms(3,4)
proof (induction k arbitrary: cur i)
  case (Suc k)
  let ?L = "arrange rs"
  show ?case
  proof (cases "n < length (drop i ?L)")
    case True
    have "last (take n (drop i ?L)) = ?L ! (i + n - 1)"
      using True assms(2) by (simp add: last_conv_nth)
    then have "rest rs (Some (last (take n (drop i ?L)))) = drop (i + n) ?L"
      using after_row [OF assms(1), of "i + n - 1"] True assms(2) by (simp add: rest_def)
    from Suc.IH [OF this] True assms(2) Suc.prems(2)
    have "read_all k rs n (Some (last (take n (drop i ?L)))) = drop (i + n) ?L" by simp
    moreover have "take n (drop i ?L) @ drop (i + n) ?L = drop i ?L"
      by (metis add.commute append_take_drop_id drop_drop)
    ultimately show ?thesis using True Suc.prems(1) by simp
  next
    case False
    then show ?thesis using Suc.prems(1) by simp
  qed
qed simp

lemma read_all_is_all: "ok rs \<Longrightarrow> 0 < n \<Longrightarrow> length (arrange rs) < k \<Longrightarrow> read_all k rs n None = arrange rs"
  using read_all_from [of rs n None 0 k] by (simp add: rest_def)

end

lemma filter_order_asc: "order_asc key (filter P rs) = filter P (order_asc key rs)"
  by (simp add: order_asc_def filter_sort)

text \<open>Two stable sorts arrange rows by the pair of keys; with a unique second key the order is strict.\<close>

definition by_both :: "('r \<Rightarrow> 'a::linorder) \<Rightarrow> ('r \<Rightarrow> 'b::linorder) \<Rightarrow> 'r \<Rightarrow> 'r \<Rightarrow> bool" where
  "by_both k1 k2 a b \<longleftrightarrow> k1 a < k1 b \<or> k1 a = k1 b \<and> k2 a < k2 b"

lemma insort_by_both:
  "sorted_wrt (by_both k1 k2) ys \<Longrightarrow> \<forall>y\<in>set ys. k2 x < k2 y \<Longrightarrow> sorted_wrt (by_both k1 k2) (insort_key k1 x ys)"
  by (induction ys) (fastforce simp: by_both_def set_insort_key)+

lemma sort_by_both: "sorted_wrt (\<lambda>a b. k2 a < k2 b) xs \<Longrightarrow> sorted_wrt (by_both k1 k2) (sort_key k1 xs)"
  by (induction xs) (auto intro: insort_by_both)

lemma sorted_twice:
  assumes "sql_unique k2 rs"
  shows "sorted_wrt (by_both k1 k2) (order_asc k1 (order_asc k2 rs))"
proof -
  have "distinct (map k2 (order_asc k2 rs))"
    using assms by (auto simp: sql_unique_def distinct_map set_order)
  then have "sorted_wrt (<) (map k2 (order_asc k2 rs))"
    by (simp add: strict_sorted_iff sorted_order_asc)
  then show ?thesis
    unfolding order_asc_def [of k1] by (intro sort_by_both) (simp add: sorted_wrt_map)
qed

text \<open>The events in their order, and the conversations newest first.\<close>

definition event_before :: "audit_event_row \<Rightarrow> audit_event_row \<Rightarrow> bool" where
  "event_before a b = event_after (stored_text a, ae_event_id a) b"

interpretation events: keyset in_event_order event_before "sql_unique ae_event_id"
proof
  show "sorted_wrt event_before (in_event_order rs)" if "sql_unique ae_event_id rs" for rs
  proof -
    have "event_before = by_both stored_text ae_event_id"
      by (intro ext) (simp add: event_before_def event_after_def by_both_def)
    with sorted_twice [OF that, of stored_text] show ?thesis by (simp add: in_event_order_def)
  qed
qed (auto simp: in_event_order_def filter_order_asc event_before_def event_after_def)

definition message_after :: "message_row \<Rightarrow> message_row \<Rightarrow> bool" where
  "message_after a b = older (ms_ts a, ms_id a) b"

interpretation conversations: keyset newest_first message_after "sql_unique ms_id"
proof
  show "sorted_wrt message_after (newest_first rs)" if "sql_unique ms_id rs" for rs
  proof -
    have "(\<lambda>a b. message_after b a) = by_both ms_ts ms_id"
      by (intro ext) (simp add: message_after_def older_def by_both_def)
    with sorted_twice [OF that, of ms_ts] show ?thesis by (simp add: newest_first_def sorted_wrt_rev)
  qed
qed (auto simp: newest_first_def filter_order_asc rev_filter message_after_def older_def)

subsection \<open>Reading the events\<close>

lemma digit_text: "0 \<le> i \<Longrightarrow> c \<in> set (digits_text i) \<Longrightarrow> c \<noteq> CHR ''|''"
proof (induction i rule: digits_text.induct)
  case (1 i)
  have digit: "char_of (48 + j) \<noteq> CHR ''|''" if "0 \<le> j" "j < 10" for j :: int
  proof -
    from that have "j = 0 \<or> j = 1 \<or> j = 2 \<or> j = 3 \<or> j = 4 \<or> j = 5 \<or> j = 6 \<or> j = 7 \<or> j = 8 \<or> j = 9" by presburger
    then show ?thesis by (elim disjE) (simp_all add: char_of_def bit_iff_odd)
  qed
  show ?case
  proof (cases "i < 10")
    case True
    with 1(3) have "c = char_of (48 + i)" by (simp add: digits_text.simps)
    with digit [of i] 1(2) True show ?thesis by simp
  next
    case False
    with 1(3) have "c \<in> set (digits_text (i div 10)) \<or> c = char_of (48 + i mod 10)" by (auto simp: digits_text.simps [of i])
    moreover have "0 \<le> i div 10" using 1(2) by (simp add: pos_imp_zdiv_nonneg_iff)
    ultimately show ?thesis using 1(1) [OF False] digit [of "i mod 10"] by auto
  qed
qed

lemma int_text_no_bar: "CHR ''|'' \<notin> set (int_text i)"
  using digit_text [of i "CHR ''|''"] digit_text [of "- i" "CHR ''|''"] by (auto simp: int_text_def)

lemma iso_text_no_bar: "CHR ''|'' \<notin> set (iso_text ms)"
  using int_text_no_bar
  by (auto simp: iso_text_def date_text_def time_text_def pad_def Let_def split: prod.split)

lemma cursor_read_back: "parseCursor (cursor_text (iso_text ms, i)) = Some (iso_text ms, i)"
proof -
  have "c \<noteq> CHR ''|''" if "c \<in> set (iso_text ms)" for c
    using iso_text_no_bar [of ms] that by auto
  then have "takeWhile (\<lambda>c. c \<noteq> CHR ''|'') (iso_text ms @ CHR ''|'' # i) = iso_text ms"
    "dropWhile (\<lambda>c. c \<noteq> CHR ''|'') (iso_text ms @ CHR ''|'' # i) = CHR ''|'' # i"
    by (simp_all add: takeWhile_append2 dropWhile_append2)
  then show ?thesis by (simp add: parseCursor_def cursor_text_def iso_text_def)
qed

text \<open>A reader that follows the cursors it is given.\<close>

fun follow_events :: "nat \<Rightarrow> audit_db \<Rightarrow> (audit_event_row \<Rightarrow> bool) \<Rightarrow> nat \<Rightarrow> string option \<Rightarrow> audit_event_row list" where
  "follow_events 0 db P limit cursor = []"
| "follow_events (Suc k) db P limit cursor =
     (case event_page db P limit (Option.bind cursor parseCursor) of
        (page, None) \<Rightarrow> page
      | (page, Some c) \<Rightarrow> page @ follow_events k db P limit (Some (cursor_text c)))"

lemma event_page_rest:
  assumes "0 < limit"
  shows "event_page db P limit (map_option (\<lambda>r. (stored_text r, ae_event_id r)) cur) =
    (let xs = events.rest (sql_where P (au_events db)) cur
     in (take limit xs, if limit < length xs then Some (stored_text (last (take limit xs)), ae_event_id (last (take limit xs))) else None))"
proof -
  let ?Q = "\<lambda>r. case cur of None \<Rightarrow> True | Some c \<Rightarrow> event_before c r"
  have "sql_where (\<lambda>r. P r \<and> (case map_option (\<lambda>r. (stored_text r, ae_event_id r)) cur of None \<Rightarrow> True | Some c \<Rightarrow> event_after c r)) (au_events db) =
      filter ?Q (sql_where P (au_events db))"
    by (cases cur) (simp_all add: sql_where_def event_before_def conj_commute)
  then have "in_event_order (sql_where (\<lambda>r. P r \<and>
      (case map_option (\<lambda>r. (stored_text r, ae_event_id r)) cur of None \<Rightarrow> True | Some c \<Rightarrow> event_after c r)) (au_events db)) =
      events.rest (sql_where P (au_events db)) cur"
    by (simp add: events.arrange_filter events.rest_def)
  then show ?thesis
    using assms by (auto simp: event_page_def Let_def min_def not_less)
qed

lemma follow_events_read_all:
  "0 < limit \<Longrightarrow> follow_events k db P limit (map_option (\<lambda>r. cursor_text (stored_text r, ae_event_id r)) cur) =
     events.read_all k (sql_where P (au_events db)) limit cur"
proof (induction k arbitrary: cur)
  case (Suc k)
  have c: "Option.bind (map_option (\<lambda>r. cursor_text (stored_text r, ae_event_id r)) cur) parseCursor =
      map_option (\<lambda>r. (stored_text r, ae_event_id r)) cur"
    by (cases cur) (simp_all add: stored_text_def cursor_read_back)
  show ?case
    unfolding follow_events.simps c event_page_rest [OF Suc.prems] events.read_all.simps
    using Suc.IH [OF Suc.prems, of "Some (last (take limit (events.rest (sql_where P (au_events db)) cur)))"]
    by (simp add: Let_def)
qed simp


definition small_audit :: audit_db where
  "small_audit = audit_db_init\<lparr>au_events := map (\<lambda>(i, t).
     \<lparr>ae_event_id = i, ae_schema_version = 1, ae_event_type = ''x'', ae_occurred_at = [], ae_correlation_id = None,
      ae_causation_event_id = None, ae_producer_id = None, ae_identity = ''a'', ae_recorded_by_kind = ''hub'',
      ae_recorded_by_id = None, ae_payload = ''{}'', ae_payload_digest = [], ae_attestation = None, ae_stored_at = t\<rparr>)
     [(''b'', 5), (''a'', 5), (''c'', 1)]\<rparr>"


subsection \<open>Reading the conversations\<close>

text \<open>A console asks for what is older than the last id it was given, as long as there is more.\<close>

fun follow_chats :: "nat \<Rightarrow> hub_db \<Rightarrow> (message_row \<Rightarrow> bool) \<Rightarrow> nat \<Rightarrow> string option \<Rightarrow> message_row list" where
  "follow_chats 0 h P limit beforeId = []"
| "follow_chats (Suc k) h P limit beforeId =
     (case chat_page h P limit (chat_cursor h beforeId) of
        (page, hasMore, oldestId) \<Rightarrow> if hasMore then page @ follow_chats k h P limit oldestId else page)"

lemma chat_page_rest:
  assumes "0 < limit"
  shows "chat_page h P limit (map_option (\<lambda>r. (ms_ts r, ms_id r)) cur) =
    (let xs = conversations.rest (sql_where P (hb_messages h)) cur
     in (if limit < length xs then take limit xs else xs, limit < length xs,
         if xs = [] then None else Some (ms_id (last (if limit < length xs then take limit xs else xs)))))"
proof -
  let ?Q = "\<lambda>r. case cur of None \<Rightarrow> True | Some c \<Rightarrow> message_after c r"
  have "sql_where (\<lambda>r. (case map_option (\<lambda>r. (ms_ts r, ms_id r)) cur of None \<Rightarrow> True | Some c \<Rightarrow> older c r) \<and> P r) (hb_messages h) =
      filter ?Q (sql_where P (hb_messages h))"
    by (cases cur) (auto simp: sql_where_def message_after_def intro!: filter_cong)
  then have "newest_first (sql_where (\<lambda>r. (case map_option (\<lambda>r. (ms_ts r, ms_id r)) cur of None \<Rightarrow> True | Some c \<Rightarrow> older c r) \<and> P r)
      (hb_messages h)) = conversations.rest (sql_where P (hb_messages h)) cur"
    by (simp add: conversations.arrange_filter conversations.rest_def)
  then show ?thesis
    using assms by (auto simp: chat_page_def Let_def min_def not_less)
qed

lemma follow_chats_read_all:
  assumes "sql_unique ms_id (hb_messages h)" "\<And>r. r \<in> set (hb_messages h) \<Longrightarrow> ms_id r \<noteq> []" "0 < limit"
  shows "(\<And>c. cur = Some c \<Longrightarrow> c \<in> set (hb_messages h)) \<Longrightarrow>
    follow_chats k h P limit (map_option ms_id cur) = conversations.read_all k (sql_where P (hb_messages h)) limit cur"
proof (induction k arbitrary: cur)
  case (Suc k)
  let ?xs = "conversations.rest (sql_where P (hb_messages h)) cur"
  have c: "chat_cursor h (map_option ms_id cur) = map_option (\<lambda>r. (ms_ts r, ms_id r)) cur"
    using sql_get_key [OF assms(1)] assms(2) Suc.prems by (cases cur) (auto simp: chat_cursor_def blank_def)
  have sub: "set ?xs \<subseteq> set (hb_messages h)"
    by (auto simp: conversations.rest_def newest_first_def sql_simps)
  have last: "last (take limit ?xs) \<in> set (hb_messages h)" if "limit < length ?xs"
  proof -
    have "take limit ?xs \<noteq> []" using that assms(3) by auto
    then have "last (take limit ?xs) \<in> set ?xs" by (meson in_set_takeD last_in_set)
    with sub show ?thesis by blast
  qed
  have more: "?xs \<noteq> []" if "limit < length ?xs" using that by auto
  show ?case
    unfolding follow_chats.simps c chat_page_rest [OF assms(3)] conversations.read_all.simps
    using Suc.IH [of "Some (last (take limit ?xs))"] last more by (auto simp: Let_def)
qed simp

theorem following_the_pages_reads_every_message_once:
  assumes "hub_pk h" "\<And>r. r \<in> set (hb_messages h) \<Longrightarrow> ms_id r \<noteq> []" "0 < limit" "length (filter P (hb_messages h)) < fuel"
  shows "follow_chats fuel h P limit None = newest_first (filter P (hb_messages h)) \<and>
    distinct (follow_chats fuel h P limit None) \<and>
    set (follow_chats fuel h P limit None) = {m \<in> set (hb_messages h). P m}"
proof -
  let ?rs = "sql_where P (hb_messages h)"
  have u: "sql_unique ms_id (hb_messages h)" using assms(1) by (simp add: hub_pk_def)
  then have u': "sql_unique ms_id ?rs" by (auto simp: sql_unique_def sql_where_def distinct_map inj_on_def)
  have "follow_chats fuel h P limit None = newest_first ?rs"
    using follow_chats_read_all [OF u assms(2,3), of None fuel P] conversations.read_all_is_all [OF u' assms(3), of fuel] assms(4)
    by (simp add: newest_first_def sql_where_def)
  moreover have "distinct (newest_first ?rs)" using sql_unique_distinct [OF u'] by (simp add: newest_first_def)
  ultimately show ?thesis by (auto simp: newest_first_def sql_simps) (simp_all add: sql_where_def)
qed

section \<open>What is withheld\<close>

text \<open>The members of a value, at every depth.\<close>

fun members :: "json \<Rightarrow> (string \<times> json) list" where
  "members (JArr xs) = concat (map members xs)"
| "members (JObj ms) = ms @ concat (map (\<lambda>m. members (snd m)) ms)"
| "members v = []"

lemma redact_members:
  "(k, v) \<in> set (members (redact j)) \<Longrightarrow> is_redacted k \<Longrightarrow> v = JStr ''[redacted]''"
proof (induction j rule: redact.induct)
  case (2 ms)
  then show ?case by (fastforce split: if_splits prod.splits)
qed auto

lemma set_AList_update: "(k, v) \<in> set (AList.update a b xs) \<Longrightarrow> (k, v) = (a, b) \<or> (k, v) \<in> set xs"
  by (induction xs) (auto split: if_splits)

text \<open>A member of the stripped value is the note, the length, or the stripped value of a member that was there.\<close>

definition strip_member :: "(string \<times> json) list \<Rightarrow> string \<times> json \<Rightarrow> bool" where
  "strip_member ms m \<longleftrightarrow> m = (''content'', WITHHELD) \<or> (\<exists>n. m = (''content_length'', JInt n)) \<or>
     fst m \<noteq> ''content'' \<and> (\<exists>v\<in>snd ` {x \<in> set ms. fst x = fst m}. snd m = stripContent v)"

definition strip_one :: "(string \<times> json) list \<Rightarrow> string \<times> string \<times> json \<times> json \<Rightarrow> (string \<times> json) list" where
  "strip_one out e = (case e of (k, k', v, v') \<Rightarrow> if k = ''content'' then content_member v out else AList.update k v' out)"

lemma stripContent_obj:
  "stripContent (JObj ms) = JObj (foldl strip_one [] (map (\<lambda>(k, v). (k, k, v, stripContent v)) ms))"
proof -
  have "strip_one = (\<lambda>out (k, k', v, v'). if k = ''content'' then content_member v out else AList.update k v' out)"
    by (intro ext) (simp add: strip_one_def)
  then show ?thesis by simp
qed

lemma strip_one_members:
  assumes "(k, v) \<in> set xs" "\<forall>m\<in>set out. strip_member xs m"
  shows "\<forall>m\<in>set (strip_one out (k, k, v, stripContent v)). strip_member xs m"
proof (intro ballI)
  fix m assume m: "m \<in> set (strip_one out (k, k, v, stripContent v))"
  obtain a b where ab: "m = (a, b)" by fastforce
  show "strip_member xs m"
  proof (cases "k = ''content''")
    case True
    with m ab have "(a, b) = (''content'', WITHHELD) \<or> (\<exists>n. (a, b) = (''content_length'', JInt n)) \<or> (a, b) \<in> set out"
      by (auto simp: strip_one_def content_member_def Let_def dest!: set_AList_update split: json.splits)
    with assms(2) ab show ?thesis by (auto simp: strip_member_def)
  next
    case False
    with m ab have "(a, b) = (k, stripContent v) \<or> (a, b) \<in> set out"
      by (auto simp: strip_one_def dest!: set_AList_update)
    with assms(1,2) ab False show ?thesis by (auto simp: strip_member_def intro!: rev_image_eqI)
  qed
qed

lemma strip_members:
  assumes "stripContent (JObj ms) = JObj out"
  shows "\<forall>m\<in>set out. strip_member ms m"
proof -
  have "\<forall>m\<in>set (foldl strip_one acc (map (\<lambda>(k, v). (k, k, v, stripContent v)) xs)). strip_member ms m"
    if "set xs \<subseteq> set ms" "\<forall>m\<in>set acc. strip_member ms m" for xs acc
    using that
  proof (induction xs arbitrary: acc)
    case (Cons x xs)
    obtain k v where x: "x = (k, v)" by fastforce
    have "\<forall>m\<in>set (strip_one acc (k, k, v, stripContent v)). strip_member ms m"
      using Cons.prems x by (intro strip_one_members) auto
    with Cons.IH [of "strip_one acc (k, k, v, stripContent v)"] Cons.prems(1) show ?case by (simp add: x)
  qed simp
  from this [of ms "[]"] show ?thesis using assms unfolding stripContent_obj by simp
qed

lemma stripContent_members:
  "(k, v) \<in> set (members (stripContent j)) \<Longrightarrow>
     (k, v) = (''content'', WITHHELD) \<or> (\<exists>n. (k, v) = (''content_length'', JInt n)) \<or>
     k \<noteq> ''content'' \<and> (\<exists>v0. (k, v0) \<in> set (members j) \<and> v = stripContent v0)"
proof (induction j rule: stripContent.induct)
  case obj: (2 ms)
  obtain out where out: "stripContent (JObj ms) = JObj out" using stripContent_obj by blast
  note m = strip_members [OF out]
  from obj(2) consider (top) "(k, v) \<in> set out" | (deep) x where "x \<in> set out" "(k, v) \<in> set (members (snd x))"
    unfolding out by auto
  then show ?case
  proof cases
    case top
    with m have "strip_member ms (k, v)" by blast
    then show ?thesis by (auto simp: strip_member_def)
  next
    case deep
    from deep(1) m have "strip_member ms x" by blast
    with deep(2) obtain v0 where v0: "(fst x, v0) \<in> set ms" "snd x = stripContent v0"
      by (auto simp: strip_member_def WITHHELD_def)
    have "(k, v) \<in> set (members (stripContent v0))" using deep(2) v0(2) by simp
    from obj(1) [OF v0(1) refl this] v0(1) show ?thesis by force
  qed
qed auto

text \<open>
  whatever payload is stored, no reader of the audit is shown a value under one of the redacted names, at any
  depth of it; and one without the capability for content is shown no value under the name \<open>content\<close>.
\<close>

theorem withheld_values_never_leave:
  assumes "(k, v) \<in> set (members (event_payload withContent text))"
  shows "(is_redacted k \<longrightarrow> v = JStr ''[redacted]'') \<and> (\<not> withContent \<and> k = ''content'' \<longrightarrow> v = WITHHELD)"
proof (cases "json_parse text")
  case None
  with assms show ?thesis by (simp add: event_payload_def)
next
  case (Some p)
  have names: "\<not> is_redacted ''content''" "\<not> is_redacted ''content_length''" by code_simp+
  show ?thesis
  proof (cases withContent)
    case True
    with assms Some redact_members [of k v p] show ?thesis by (simp add: event_payload_def)
  next
    case False
    with assms Some have "(k, v) \<in> set (members (stripContent (redact p)))" by (simp add: event_payload_def)
    moreover have "is_redacted k \<Longrightarrow> stripContent v0 = JStr ''[redacted]''" if "(k, v0) \<in> set (members (redact p))" for v0
      using redact_members [OF that] by simp
    ultimately show ?thesis using stripContent_members [of k v "redact p"] names False by auto
  qed
qed

theorem withheld_values_never_leave_witness:
  "\<exists>v. (''token'', v) \<in> set (members (event_payload False (json_text (JArr [JObj [(''token'', JInt 7), (''content'', JObj [])]])))) \<and>
     v = JStr ''[redacted]''"
proof -
  let ?t = "json_text (JArr [JObj [(''token'', JInt 7), (''content'', JObj [])]])"
  have parse: "json_parse ?t = Some (JArr [JObj [(''token'', JInt 7), (''content'', JObj [])]])" by code_simp
  have "is_redacted ''token''" "\<not> is_redacted ''content''" by code_simp+
  then have v: "(''token'', JStr ''[redacted]'') \<in> set (members (event_payload False ?t))"
    unfolding event_payload_def parse by (simp add: content_member_def)
  from withheld_values_never_leave [OF v] v show ?thesis by blast
qed

section \<open>Content is read on the record\<close>

lemma recorded:
  "logContentRead env w actor True target query = Inr w1 \<Longrightarrow>
     w_audit w1 = (w_audit w)\<lparr>au_events := au_events (w_audit w) @ [access_event env actor target query]\<rparr> \<and>
     w1 = w\<lparr>w_audit := w_audit w1\<rparr> \<and> we_audit_up env"
  by (auto simp: logContentRead_def recordContentRead_def stmtInsertAuditEvent_def split: option.splits if_splits)

text \<open>The three reads of content, each of which names what it reads.\<close>

datatype content_read = ReadConversations | ReadEvents | ReadEvent

fun content_route :: "content_read \<Rightarrow> route" where
  "content_route ReadConversations = get_chat_audits"
| "content_route ReadEvents = get_audit_events"
| "content_route ReadEvent = get_audit_event"

fun read_target :: "content_read \<Rightarrow> web_request \<Rightarrow> string" where
  "read_target ReadConversations q = ''chat-audits:list''"
| "read_target ReadEvents q = ''list''"
| "read_target ReadEvent q = wq_param q ''event_id''"

fun read_query :: "content_read \<Rightarrow> web_request \<Rightarrow> json" where
  "read_query ReadEvent q = JObj []"
| "read_query _ q = query_json q"

definition access_free :: "web_env \<Rightarrow> audit_db \<Rightarrow> bool" where
  "access_free env db \<longleftrightarrow> we_audit_up env \<and> stmtSelectAuditEvent db (''evt_'' @ we_event_id env) = None"

lemma log_read:
  "logContentRead env w actor True target query =
    (if access_free env (w_audit w)
     then Inr (w\<lparr>w_audit := (w_audit w)\<lparr>au_events := au_events (w_audit w) @ [access_event env actor target query]\<rparr>\<rparr>)
     else Inl unrecordable)"
  by (auto simp: logContentRead_def recordContentRead_def stmtInsertAuditEvent_def stmtSelectAuditEvent_def access_event_def
      access_free_def Let_def sql_simps)

lemma read_statuses:
  "an_status (listEvents env d qs b) \<in> {200, 400, 404, 500}"
  "an_status (getEvent env d i b) \<in> {200, 400, 404, 500}"
  "an_status (listChatAudits h qs) \<in> {200, 400, 404, 500}"
  "an_status unrecordable = 503"
  by (auto simp: listEvents_def getEvent_def listChatAudits_def unrecordable_def Let_def c_json_def c_fail_def answerUnhandled_def
      c_error_def split: option.split prod.split)

lemma read_not_refused [simp]:
  "an_status (listEvents env d qs b) \<noteq> 403" "an_status (getEvent env d i b) \<noteq> 403" "an_status (listChatAudits h qs) \<noteq> 403"
  using read_statuses(1) [of env d qs b] read_statuses(2) [of env d i b] read_statuses(3) [of h qs] by auto

lemma capability_answer:
  assumes "extractJwt env w q = Some p"
  obtains "requireCapability env w q cap scope = Inr (jp_github_login p)"
  | a where "requireCapability env w q cap scope = Inl a" "an_status a = 403"
proof (cases "has_cap (we_wide env) (w_agents w) (jp_github_login p) (we_cap env cap) scope DEFAULT_TENANT")
  case True
  then show ?thesis using that(1) assms by (simp add: requireCapability_def)
next
  case False
  then show ?thesis using that(2) assms by (simp add: requireCapability_def c_json_def)
qed

text \<open>
  C19: what is answered to a person who may read content - the conversations, the events or one event - is answered
  only after an event that names the person, what was read and the query was added to the audit. Where that event
  cannot be written the answer is a refusal without content and the state is unchanged.
\<close>

theorem content_is_read_on_the_record:
  assumes "extractJwt env w q = Some p" "reads_content env w (jp_github_login p)" "content_route r env w q = (a, w')"
  shows "if an_status a = 403 then w' = w
    else if access_free env (w_audit w) then an_status a \<in> {200, 400, 404, 500} \<and>
      au_events (w_audit w') = au_events (w_audit w) @ [access_event env (jp_github_login p) (read_target r q) (read_query r q)]
    else an_status a = 503 \<and> w' = w"
proof (cases r)
  case ReadConversations
  show ?thesis
  proof (rule capability_answer [OF assms(1), of AUDIT_READ_CONTENT "we_wide env"])
    assume "requireCapability env w q AUDIT_READ_CONTENT (we_wide env) = Inr (jp_github_login p)"
    with assms(3) read_statuses(3,4) ReadConversations show ?thesis
      by (cases "access_free env (w_audit w)") (auto simp: get_chat_audits_def log_read)
  qed (use assms(3) ReadConversations in \<open>auto simp: get_chat_audits_def\<close>)
next
  case ReadEvents
  show ?thesis
  proof (rule capability_answer [OF assms(1), of AUDIT_READ_METADATA "we_wide env"])
    assume "requireCapability env w q AUDIT_READ_METADATA (we_wide env) = Inr (jp_github_login p)"
    with assms(2,3) read_statuses(1,4) ReadEvents show ?thesis
      by (cases "access_free env (w_audit w)") (auto simp: get_audit_events_def log_read Let_def)
  qed (use assms(3) ReadEvents in \<open>auto simp: get_audit_events_def\<close>)
next
  case ReadEvent
  show ?thesis
  proof (rule capability_answer [OF assms(1), of AUDIT_READ_METADATA "we_wide env"])
    assume "requireCapability env w q AUDIT_READ_METADATA (we_wide env) = Inr (jp_github_login p)"
    with assms(2,3) read_statuses(2,4) ReadEvent show ?thesis
      by (cases "access_free env (w_audit w)") (auto simp: get_audit_event_def log_read Let_def)
  qed (use assms(3) ReadEvent in \<open>auto simp: get_audit_event_def\<close>)
qed

definition with_grant :: "string \<Rightarrow> agents_db" where
  "with_grant who = (agents_db_init 0)\<lparr>db_grants :=
     [\<lparr>rg_tenant = DEFAULT_TENANT, rg_subject = who, rg_capability = ''c'', rg_scope = ''*'', rg_granted_by = ''x'', rg_granted_at = 0\<rparr>]\<rparr>"

lemma session_of_person:
  "localUserIsDisabled (w_db w) login = False \<Longrightarrow> login \<noteq> [] \<Longrightarrow>
     extractJwt person_env w (request_of login body) = Some (person login)"
  by (simp add: extractJwt_def session_of_token_def sessionIsRefused_def person_env_def request_of_def person_def)

theorem content_is_read_on_the_record_witness:
  "au_events (w_audit (snd (get_chat_audits person_env (fresh_web web_db_init (with_grant ''kim'')) (request_of ''kim'' [])))) =
     [access_event person_env ''kim'' ''chat-audits:list'' (JObj [])]"
proof -
  let ?w = "fresh_web web_db_init (with_grant ''kim'')" and ?q = "request_of ''kim'' []"
  obtain a w' where r: "content_route ReadConversations person_env ?w ?q = (a, w')" by fastforce
  have s: "extractJwt person_env ?w ?q = Some (person ''kim'')"
    by (rule session_of_person) (simp_all add: fresh_web_def localUserIsDisabled_def getLocalUser_def web_db_init_def)
  have cap: "has_cap (we_wide person_env) (w_agents ?w) ''kim'' (we_cap person_env c) (we_wide person_env) DEFAULT_TENANT" for c
    by (simp add: has_cap_def sql_simps fresh_web_def with_grant_def person_env_def plain_env_def)
  have "reads_content person_env ?w (jp_github_login (person ''kim''))"
    using cap by (simp add: reads_content_def person_def)
  note read = content_is_read_on_the_record [OF s this r]
  have login: "jp_github_login (person ''kim'') = ''kim''" by (simp add: person_def)
  have gate: "requireCapability person_env ?w ?q AUDIT_READ_CONTENT (we_wide person_env) = Inr ''kim''"
    by (simp add: requireCapability_def s cap login)
  have free: "access_free person_env (w_audit ?w)"
    by (simp add: access_free_def stmtSelectAuditEvent_def fresh_web_def audit_db_init_def person_env_def plain_env_def)
  have "an_status (listChatAudits h qs) = 200" for h qs
    by (simp add: listChatAudits_def c_json_def split: prod.split)
  then have "an_status a = 200"
    using r by (auto simp: get_chat_audits_def gate log_read free)
  with read free have "au_events (w_audit w') = au_events (w_audit ?w) @
      [access_event person_env ''kim'' ''chat-audits:list'' (query_json ?q)]"
    by (simp add: person_def)
  with r show ?thesis by (simp add: fresh_web_def audit_db_init_def query_json_def request_of_def)
qed

section \<open>Messages that the poller never sees\<close>

definition seen_by :: "(secs \<times> string) option \<Rightarrow> message_row \<Rightarrow> bool" where
  "seen_by seen m \<longleftrightarrow> (\<exists>c. seen = Some c \<and> \<not> newer c m)"

lemma poll_one_seen: "w_seen (poll_one w m) = Some (ms_ts m, ms_id m)" "w_hub (poll_one w m) = w_hub w"
  by (simp_all add: poll_one_def broadcastAuditMessage_def)

lemma poll_all_seen: "w_seen (foldl poll_one w ms) = (if ms = [] then w_seen w else Some (ms_ts (last ms), ms_id (last ms)))"
  by (induction ms rule: rev_induct) (simp_all add: poll_one_seen)

lemma pass_keeps_seen:
  assumes "seen_by (w_seen w) m"
  shows "seen_by (w_seen (auditPollerPass w)) m"
proof (cases "polled (w_hub w) (w_seen w) = []")
  case True
  with assms show ?thesis by (simp add: auditPollerPass_def)
next
  case False
  obtain c where c: "w_seen w = Some c" "\<not> newer c m" using assms by (auto simp: seen_by_def)
  let ?l = "last (polled (w_hub w) (w_seen w))"
  have "?l \<in> set (polled (w_hub w) (w_seen w))" using False by simp
  then have "newer c ?l" unfolding polled_def c(1) by (auto simp: oldest_first_def sql_simps dest!: in_set_takeD)
  then have "\<not> newer (ms_ts ?l, ms_id ?l) m" using c(2) by (auto simp: newer_def)
  then show ?thesis by (simp add: auditPollerPass_def poll_all_seen False seen_by_def)
qed

text \<open>The passes of the poller over the hub's table as it grows.\<close>

fun poll_run :: "web \<Rightarrow> hub_db list \<Rightarrow> web" where
  "poll_run w [] = w"
| "poll_run w (h # hs) = poll_run (auditPollerPass (w\<lparr>w_hub := h\<rparr>)) hs"

text \<open>
  the place of a message in the poller's order is its second and its id, and ids are not in the order of
  time. A message that is stored in the second the poller has reached, under a smaller id, is behind the poller:
  no later pass broadcasts it, whatever the table becomes.
\<close>

theorem poller_never_sees_a_late_id:
  assumes "w_seen w = Some (ms_ts m, i)" "ms_id m < i"
  shows "m \<notin> set (polled h (w_seen (poll_run w hs)))"
proof -
  have "seen_by (w_seen w) m" using assms by (auto simp: seen_by_def newer_def)
  then have "seen_by (w_seen (poll_run w hs)) m"
  proof (induction hs arbitrary: w)
    case (Cons h hs)
    have "seen_by (w_seen (auditPollerPass (w\<lparr>w_hub := h\<rparr>))) m" by (rule pass_keeps_seen) (use Cons.prems in simp)
    with Cons.IH show ?case by simp
  qed simp
  then show ?thesis by (auto simp: seen_by_def polled_def oldest_first_def sql_simps dest!: in_set_takeD)
qed

definition hub_mail :: "string \<Rightarrow> secs \<Rightarrow> message_row" where
  "hub_mail i t = \<lparr>ms_id = i, ms_from_agent = ''ann'', ms_to_agent = ''bob'', ms_sent_by = None, ms_content = ''hi'',
     ms_reply_to = None, ms_status = MPending, ms_ts = t, ms_leased_until = None, ms_via = None\<rparr>"

theorem poller_never_sees_a_late_id_witness:
  "let h1 = hub_db_init\<lparr>hb_messages := [hub_mail ''m5'' 7]\<rparr>;
       h2 = hub_db_init\<lparr>hb_messages := [hub_mail ''m5'' 7, hub_mail ''m2'' 7]\<rparr>;
       w = auditPollerStartingPoint ((fresh_web web_db_init (agents_db_init 0))\<lparr>w_hub := h1\<rparr>)
   in hub_mail ''m2'' 7 \<in> set (hb_messages h2) \<and> hub_mail ''m2'' 7 \<notin> set (polled h2 (w_seen (poll_run w [h2, h2])))"
proof -
  let ?h1 = "hub_db_init\<lparr>hb_messages := [hub_mail ''m5'' 7]\<rparr>"
  let ?w = "auditPollerStartingPoint ((fresh_web web_db_init (agents_db_init 0))\<lparr>w_hub := ?h1\<rparr>)"
  have "w_seen ?w = Some (ms_ts (hub_mail ''m2'' 7), ''m5'')"
    by (simp add: auditPollerStartingPoint_def newest_first_def order_asc_def hub_mail_def)
  moreover have "ms_id (hub_mail ''m2'' 7) < ''m5''" by (simp add: hub_mail_def)
  ultimately have "hub_mail ''m2'' 7 \<notin> set (polled h (w_seen (poll_run ?w hs)))" for h hs
    by (rule poller_never_sees_a_late_id)
  then show ?thesis by (simp add: Let_def del: poll_run.simps)
qed

end
