(* ===== verification/Web_Files_Facts.thy ===== *)
theory Web_Files_Facts
  imports Web_Files Web_Audit_Facts
begin

text \<open>
  What the file routes keep. A path that is served lies beneath one of the directories it is allowed in, whatever
  was written; and the directory of the stores is one of them. A blob that is stored is the one that its grant
  names. An attachment is opened by a message of the caller that quotes its id, whether it carried the file or not.
\<close>

section \<open>Segments\<close>

definition segment :: "string \<Rightarrow> bool" where
  "segment p \<longleftrightarrow> p \<noteq> [] \<and> p \<noteq> ''.'' \<and> p \<noteq> ''..'' \<and> CHR ''/'' \<notin> set p"

abbreviation segments :: "string list \<Rightarrow> bool" where
  "segments ps \<equiv> list_all segment ps"

lemma split_on_free: "p \<in> set (split_on c s) \<Longrightarrow> c \<notin> set p"
proof (induction s arbitrary: p)
  case (Cons x s)
  obtain a b where split: "split_on c s = a # b" by (cases "split_on c s") auto
  show ?case
  proof (cases "x = c")
    case True
    then show ?thesis using Cons split by auto
  next
    case False
    then have "p = x # a \<or> p \<in> set b" using Cons.prems split by simp
    then show ?thesis using Cons.IH [of a] Cons.IH [of p] False split by auto
  qed
qed simp

lemma split_on_whole: "c \<notin> set s \<Longrightarrow> split_on c s = [s]"
  by (induction s) auto

lemma segment_free: "segment p \<Longrightarrow> CHR ''/'' \<notin> set p"
  by (simp add: segment_def)

lemma split_join: "segments ps \<Longrightarrow> ps \<noteq> [] \<Longrightarrow> split_on (CHR ''/'') (join_with ''/'' ps) = ps"
proof (induction ps)
  case (Cons p ps)
  then have p: "split_on (CHR ''/'') p = [p]" by (auto intro!: split_on_whole dest: segment_free)
  show ?case
  proof (cases ps)
    case (Cons p' ps')
    then show ?thesis using Cons.IH Cons.prems p split_on_append [of "CHR ''/''" p "join_with ''/'' ps"] by simp
  qed (simp add: p)
qed simp

lemma split_path: "segments ps \<Longrightarrow> ps \<noteq> [] \<Longrightarrow> split_on (CHR ''/'') (path_of ps) = [] # ps"
  by (simp add: path_of_def split_join)

lemma join_with_append: "ps \<noteq> [] \<Longrightarrow> qs \<noteq> [] \<Longrightarrow> join_with s (ps @ qs) = join_with s ps @ s @ join_with s qs"
  by (induction s ps rule: join_with.induct) (auto simp: neq_Nil_conv)

lemma walk_segments: "segments seen \<Longrightarrow> list_all (\<lambda>p. CHR ''/'' \<notin> set p) ps \<Longrightarrow> segments (walk seen ps)"
proof (induction seen ps rule: walk.induct)
  case (2 seen p ps)
  then show ?case by (cases seen) (auto simp: segment_def)
qed simp

lemma walk_plain: "segments ps \<Longrightarrow> walk seen ps = rev seen @ ps"
  by (induction ps arbitrary: seen) (auto simp: segment_def)

lemma resolve_is_path:
  obtains ps where "resolve cwd p = path_of ps" "segments ps"
proof
  let ?ps = "(if starts_with ''/'' p then [] else split_on (CHR ''/'') cwd) @ split_on (CHR ''/'') p"
  show "resolve cwd p = path_of (walk [] ?ps)" by (simp add: resolve_def)
  show "segments (walk [] ?ps)"
    by (rule walk_segments) (auto simp: list_all_iff split: if_splits dest: split_on_free)
qed

lemma resolve_path: "segments ps \<Longrightarrow> ps \<noteq> [] \<Longrightarrow> resolve cwd (path_of ps) = path_of ps"
  using walk_plain [of ps "[]"] by (simp add: resolve_def split_path) (simp add: path_of_def starts_with_def)

text \<open>A directory that is a prefix of a path, up to a separator, is a prefix of its segments.\<close>

lemma beneath:
  assumes "segments ds" "ds \<noteq> []" "segments qs" "starts_with (path_of ds @ ''/'') (path_of qs)"
  obtains rest where "qs = ds @ rest" "rest \<noteq> []"
proof -
  obtain r where r: "path_of qs = path_of ds @ CHR ''/'' # r" using assms(4) by (auto simp: starts_with_iff)
  have "qs \<noteq> []"
  proof
    assume "qs = []"
    then have "length (path_of qs) = 1" by (simp add: path_of_def)
    moreover have "length (path_of ds @ CHR ''/'' # r) \<ge> 2" by (simp add: path_of_def)
    ultimately show False using r by simp
  qed
  with r assms have "[] # qs = ([] # ds) @ split_on (CHR ''/'') r"
    by (metis split_on_append split_path)
  then show thesis using that [of "split_on (CHR ''/'') r"] by simp
qed

section \<open>What is served\<close>

text \<open>A directory as it is configured, with or without a separator at its end.\<close>

definition names_directory :: "string \<Rightarrow> string list \<Rightarrow> bool" where
  "names_directory p ds \<longleftrightarrow> segments ds \<and> ds \<noteq> [] \<and> (p = path_of ds \<or> p = path_of ds @ ''/'')"

lemma path_end: "segments ds \<Longrightarrow> ds \<noteq> [] \<Longrightarrow> \<not> ends_with ''/'' (path_of ds)"
proof
  assume a: "segments ds" "ds \<noteq> []" and "ends_with ''/'' (path_of ds)"
  then obtain r where "rev (path_of ds) = CHR ''/'' # r"
    by (auto simp: ends_with_def starts_with_iff)
  then have "path_of ds = rev r @ CHR ''/'' # []" by (metis rev_rev_ident rev.simps(2))
  then have "[] # ds = split_on (CHR ''/'') (rev r) @ [[]]"
    using split_path [OF a] split_on_append [of "CHR ''/''" "rev r" "[]"] by simp
  then have "last ([] # ds) = []" by simp
  then have "[] \<in> set ds" using a(2) last_in_set [of ds] by simp
  then show False using a(1) by (auto simp: list_all_iff segment_def)
qed

lemma unless_refused: "(if b then False else P) \<Longrightarrow> P"
  by (simp split: if_splits)

lemma allowed_is_beneath:
  assumes "isPathAllowed cwd p prefixes" "list_all (\<lambda>x. \<exists>ds. names_directory x ds) prefixes"
  obtains x ds rest where "x \<in> set prefixes" "names_directory x ds" "segments rest" "resolve cwd p = path_of (ds @ rest)"
proof -
  obtain qs where qs: "resolve cwd p = path_of qs" "segments qs" by (rule resolve_is_path)
  have "list_ex (\<lambda>x. resolve cwd p = x \<or> starts_with (if ends_with ''/'' x then x else x @ ''/'') (resolve cwd p)) prefixes"
    using assms(1) unfolding isPathAllowed_def Let_def
    by (rule unless_refused)
  then obtain x where x: "x \<in> set prefixes"
      "path_of qs = x \<or> starts_with (if ends_with ''/'' x then x else x @ ''/'') (path_of qs)"
    using qs(1) by (auto simp: list_ex_iff)
  obtain ds where ds: "names_directory x ds" using assms(2) x(1) by (auto simp: list_all_iff)
  then have seg: "segments ds" "ds \<noteq> []" by (simp_all add: names_directory_def)
  have dir: "(if ends_with ''/'' x then x else x @ ''/'') = path_of ds @ ''/''"
    using ds path_end [OF seg] by (auto simp: names_directory_def ends_with_def starts_with_def)
  show thesis
  proof (cases "starts_with (path_of ds @ ''/'') (path_of qs)")
    case True
    then obtain rest where "qs = ds @ rest" using beneath [OF seg qs(2)] by blast
    then show thesis using that [OF x(1) ds, of rest] qs by simp
  next
    case False
    then have eq: "path_of qs = x" using x(2) dir by simp
    then have "path_of qs = path_of ds" using ds False by (auto simp: names_directory_def starts_with_def)
    then show thesis using that [OF x(1) ds, of "[]"] qs(1) by simp
  qed
qed

lemma error_not_served [simp]: "c_error s m \<noteq> served b" "served b \<noteq> c_error s m"
  by (auto simp: c_error_def served_def c_json_def)

lemma served_inj [simp]: "served a = served b \<longleftrightarrow> a = b"
  by (simp add: served_def c_json_def)

lemma session_answer_not_served: "signed_in_and_approved env w q m = Inl a \<Longrightarrow> a \<noteq> served b"
  by (auto simp: signed_in_and_approved_def split: option.splits if_splits)

lemma signed_in_iff:
  "signed_in_and_approved env w q m = Inr p \<longleftrightarrow>
     extractJwt env w q = Some p \<and> isUserApproved (w_db w) (jp_github_login p) (jp_role p)"
  by (auto simp: signed_in_and_approved_def split: option.splits)

text \<open>
  C23: A file is served only to a session of an approved person, and what is served is the regular file at the resolved
  path, which lies segment by segment beneath a configured directory: no spelling of the path, relative, doubled or
  with dots, leads out of it.
\<close>

theorem files_are_served_beneath_the_prefixes:
  assumes "list_all (\<lambda>x. \<exists>ds. names_directory x ds) (fe_state_dir fe # fe_prefixes fe)"
    and "get_files fe fs w q = served bytes"
  shows "\<exists>who filePath x ds rest.
    extractJwt (fe_web fe) w q = Some who \<and> isUserApproved (w_db w) (jp_github_login who) (jp_role who) \<and>
    wq_query q ''path'' = Some filePath \<and> resolve (fe_cwd fe) filePath = path_of (ds @ rest) \<and>
    x \<in> set (fe_state_dir fe # fe_prefixes fe) \<and> names_directory x ds \<and> segments rest \<and>
    fs (path_of (ds @ rest)) = Some (RegularFile bytes) \<and> length bytes \<le> MAX_FILE_SIZE"
proof -
  obtain p where p: "signed_in_and_approved (fe_web fe) w q ''Account pending approval'' = Inr p"
    using assms(2) by (cases "signed_in_and_approved (fe_web fe) w q ''Account pending approval''")
      (auto simp: get_files_def dest: session_answer_not_served)
  obtain filePath where f: "wq_query q ''path'' = Some filePath"
      "isPathAllowed (fe_cwd fe) filePath (fe_state_dir fe # fe_prefixes fe)"
      "fs (resolve (fe_cwd fe) filePath) = Some (RegularFile bytes)" "length bytes \<le> MAX_FILE_SIZE"
    using assms(2) by (auto simp: get_files_def p split: option.splits if_splits disk_file.splits)
  from allowed_is_beneath [OF f(2) assms(1)] obtain x ds rest
    where x: "x \<in> set (fe_state_dir fe # fe_prefixes fe)" "names_directory x ds" "segments rest"
      "resolve (fe_cwd fe) filePath = path_of (ds @ rest)" by blast
  with p f show ?thesis unfolding signed_in_iff by metis
qed

lemma state_directory_is_served:
  assumes "extractJwt (fe_web fe) w q = Some who" "isUserApproved (w_db w) (jp_github_login who) (jp_role who)"
    and "fe_state_dir fe = path_of ds" "segments ds" "ds \<noteq> []" "segments names" "names \<noteq> []"
    and "wq_query q ''path'' = Some (path_of (ds @ names))" "fs (path_of (ds @ names)) = Some (RegularFile bytes)"
    and "length bytes \<le> MAX_FILE_SIZE"
  shows "get_files fe fs w q = served bytes"
proof -
  let ?p = "path_of (ds @ names)"
  have seg: "segments (ds @ names)" "ds @ names \<noteq> []" using assms by simp_all
  have res: "resolve (fe_cwd fe) ?p = ?p" by (rule resolve_path [OF seg])
  have "ends_with ''/'' (fe_state_dir fe) = False" using path_end assms(3-5) by simp
  moreover have "starts_with (path_of ds @ ''/'') ?p"
    using assms(5,7) by (simp add: path_of_def starts_with_iff join_with_append)
  ultimately have "isPathAllowed (fe_cwd fe) ?p (fe_state_dir fe # fe_prefixes fe)"
    unfolding isPathAllowed_def Let_def res by (simp add: assms(3))
  moreover have "?p \<noteq> []" by (simp add: path_of_def)
  ultimately show ?thesis
    using assms res by (simp add: get_files_def signed_in_and_approved_def)
qed

text \<open>
  The directory of the stores is among the allowed ones, so an approved person is served any regular file in it:
  the databases with the password digests, the messages and the keys, and every upload, without being a party to a
  message that carries it.
\<close>

theorem any_approved_person_reads_the_state_directory:
  assumes "extractJwt (fe_web fe) w q = Some who" "isUserApproved (w_db w) (jp_github_login who) (jp_role who)"
    and "fe_state_dir fe = path_of ds" "segments ds" "ds \<noteq> []" "segments names" "names \<noteq> []"
    and "wq_query q ''path'' = Some (path_of (ds @ names))" "fs (path_of (ds @ names)) = Some (RegularFile bytes)"
    and "length bytes \<le> MAX_FILE_SIZE"
  shows "get_files fe fs w q = served bytes"
  using assms by (rule state_directory_is_served)

section \<open>Attachments\<close>

lemma like_plain_any [simp]: "like_plain ''%'' t"
  by (induction t) auto

lemma like_plain_prefix: "like_plain (s @ ''%'') (s @ v)"
proof (induction s)
  case Nil
  show ?case by (simp only: append_Nil like_plain_any)
qed auto

lemma like_plain_contains: "like_plain (CHR ''%'' # s @ ''%'') (u @ s @ v)"
proof (induction u)
  case Nil
  show ?case using like_plain_prefix [of s v] by (cases "s @ v") auto
qed simp

text \<open>Of one request: what the route answers a session for a file that is there.\<close>

definition asks_for :: "file_env \<Rightarrow> web \<Rightarrow> web_request \<Rightarrow> string \<Rightarrow> string \<Rightarrow> bool" where
  "asks_for fe w q who i \<longleftrightarrow>
     (case extractJwt (fe_web fe) w q of
        None \<Rightarrow> False
      | Some p \<Rightarrow> jp_github_login p = who \<and> isUserApproved (w_db w) (jp_github_login p) (jp_role p)) \<and>
     wq_param q ''id'' = i \<and> i \<noteq> [] \<and> CHR ''/'' \<notin> set i \<and> ESC \<notin> set i \<and> \<not> has_text ''..'' i \<and> (sha256_id i \<or> legacy_id i)"

lemma session_hub [simp]: "extractJwt env (w\<lparr>w_hub := h\<rparr>) q = extractJwt env w q"
proof -
  have "session_of_token env (w\<lparr>w_hub := h\<rparr>) = session_of_token env w"
    by (rule ext) (simp add: session_of_token_def sessionIsRefused_def split: option.split)
  then show ?thesis by (simp add: extractJwt_def split: option.split)
qed

lemma get_attachment_session:
  assumes "asks_for fe w q who i" "fs (upload_path fe i) = Some (RegularFile bytes)"
  shows "get_attachment fe fs w q = (if mayDownload (w_hub w) who i then served bytes else c_error 404 ''Not found'')"
  using assms by (auto simp: asks_for_def get_attachment_def attachmentCaller_def Let_def split: option.splits)

text \<open>
  C26: An attachment is served to a person exactly when a message that the person sent or received quotes its id. Nothing
  ties the message to the file: who has learned the id writes it in quotes to anybody, and is a party from then on.
\<close>

theorem naming_an_attachment_opens_it:
  assumes "asks_for fe w q who i" "fs (upload_path fe i) = Some (RegularFile bytes)"
  shows "(get_attachment fe fs w q = served bytes \<longleftrightarrow>
            list_ex (\<lambda>m. (ms_from_agent m = who \<or> ms_to_agent m = who) \<and> carries i m) (hb_messages (w_hub w))) \<and>
    (\<forall>m u v. ms_from_agent m = who \<and> ms_content m = u @ [CHR 0x22] @ i @ [CHR 0x22] @ v \<longrightarrow>
       get_attachment fe fs (w\<lparr>w_hub := (w_hub w)\<lparr>hb_messages := hb_messages (w_hub w) @ [m]\<rparr>\<rparr>) q = served bytes)"
proof -
  let ?w = "\<lambda>m. w\<lparr>w_hub := (w_hub w)\<lparr>hb_messages := hb_messages (w_hub w) @ [m]\<rparr>\<rparr>"
  have "get_attachment fe fs (?w m) q = served bytes"
    if m: "ms_from_agent m = who" "ms_content m = u @ [CHR 0x22] @ i @ [CHR 0x22] @ v" for m u v
  proof -
    have "asks_for fe (?w m) q who i" using assms(1) by (auto simp: asks_for_def split: option.splits)
    moreover have "carries i m"
      using like_plain_contains [of "CHR 0x22 # i @ [CHR 0x22]" u v] m(2) by (simp add: carries_def)
    then have "mayDownload (w_hub (?w m)) who i" using m(1) by (simp add: mayDownload_def sql_exists_def)
    ultimately show ?thesis using assms(2) by (simp add: get_attachment_session)
  qed
  moreover have "get_attachment fe fs w q = served bytes \<longleftrightarrow> mayDownload (w_hub w) who i"
    using get_attachment_session [where fs = fs, OF assms] by simp
  ultimately show ?thesis by (auto simp: mayDownload_def sql_exists_def list_ex_iff)
qed

section \<open>Blobs\<close>

lemma receive_body_bytes: "receive_body sz got pieces = Inr bytes \<Longrightarrow>
    \<exists>bs. pieces = map Piece bs \<and> bytes = got @ concat bs"
proof (induction sz got pieces rule: receive_body.induct)
  case (3 sz got b ps)
  then obtain bs where "ps = map Piece bs" "bytes = (got @ b) @ concat bs" by (auto split: if_splits)
  then show ?case by (intro exI [of _ "b # bs"]) simp
qed auto

lemma store_blob_cases:
  assumes "store_blob fe fs blobKey g body = (a, fs')"
  shows "fs' = fs \<and> (fst a = 200 \<longrightarrow> has_size fs (upload_path fe blobKey) (un_size g)) \<and> fst a \<noteq> 201 \<or>
    (\<exists>bs. body = Some (map Piece bs) \<and> fst a = 201 \<and> fs' = fs(upload_path fe blobKey \<mapsto> RegularFile (concat bs)) \<and>
       int (length (concat bs)) = un_size g \<and> we_sha256 (fe_web fe) (concat bs) = un_sha256 g)"
  using assms
  by (auto simp: store_blob_def Let_def blob_refused_def body_failure_def dest!: receive_body_bytes
      split: if_splits option.splits sum.splits)

text \<open>
  C22: Whatever arrives at the upload route, a file changes only when the answer is 201: then the one that changes is the
  blob that was asked for, under a grant that has not lapsed and a signature of the grant's identity over its nonce,
  key, digest and size; its bytes are those that arrived, whole, of the size and the digest that were granted.
  And an answer that accepts the upload means that a file of the granted size is there.
\<close>

theorem blob_is_what_was_granted:
  assumes "putBlob fe m fs blobKey authorization declared body = (a, fs')"
  shows "(fs' = fs \<and> fst a \<noteq> 201 \<or>
     (\<exists>header nonce kid signature g k bs. authorization = Some header \<and> fe_parseUpload fe header = Some (nonce, kid, signature) \<and>
        checkGrant (web_secs (fe_web fe)) m nonce (un_identity g) blobKey (un_size g) = GrantOk g \<and>
        verifyForIdentity (fe_verify fe) m (un_identity g) kid
          (fe_uploadPreimage fe nonce blobKey (un_sha256 g) (un_size g)) signature = VerifyOk k \<and>
        body = Some (map Piece bs) \<and> fst a = 201 \<and> fs' = fs(upload_path fe blobKey \<mapsto> RegularFile (concat bs)) \<and>
        int (length (concat bs)) = un_size g \<and> we_sha256 (fe_web fe) (concat bs) = un_sha256 g)) \<and>
    (fst a \<in> {200, 201} \<longrightarrow> (\<exists>g. un_blob_key g = blobKey \<and> g \<in> set (db_upload_nonces m) \<and>
        has_size fs' (upload_path fe blobKey) (un_size g)))"
proof -
  show ?thesis
  proof (cases "\<exists>g. store_blob fe fs blobKey g body = (a, fs') \<and> (\<exists>header nonce kid signature k.
      authorization = Some header \<and> fe_parseUpload fe header = Some (nonce, kid, signature) \<and>
      checkGrant (web_secs (fe_web fe)) m nonce (un_identity g) blobKey (un_size g) = GrantOk g \<and>
      verifyForIdentity (fe_verify fe) m (un_identity g) kid
        (fe_uploadPreimage fe nonce blobKey (un_sha256 g) (un_size g)) signature = VerifyOk k)")
    case True
    then obtain g header nonce kid signature k where g: "store_blob fe fs blobKey g body = (a, fs')"
      "authorization = Some header" "fe_parseUpload fe header = Some (nonce, kid, signature)"
      "checkGrant (web_secs (fe_web fe)) m nonce (un_identity g) blobKey (un_size g) = GrantOk g"
      "verifyForIdentity (fe_verify fe) m (un_identity g) kid
        (fe_uploadPreimage fe nonce blobKey (un_sha256 g) (un_size g)) signature = VerifyOk k" by blast
    have row: "un_blob_key g = blobKey" "g \<in> set (db_upload_nonces m)"
      using g(4) by (auto simp: checkGrant_def split: option.splits if_splits dest: sql_get_SomeD)
    from store_blob_cases [OF g(1)] show ?thesis
    proof
      assume "fs' = fs \<and> (fst a = 200 \<longrightarrow> has_size fs (upload_path fe blobKey) (un_size g)) \<and> fst a \<noteq> 201"
      then show ?thesis using row by auto
    next
      assume "\<exists>bs. body = Some (map Piece bs) \<and> fst a = 201 \<and> fs' = fs(upload_path fe blobKey \<mapsto> RegularFile (concat bs)) \<and>
         int (length (concat bs)) = un_size g \<and> we_sha256 (fe_web fe) (concat bs) = un_sha256 g"
      then obtain bs where bs: "body = Some (map Piece bs)" "fst a = 201"
        "fs' = fs(upload_path fe blobKey \<mapsto> RegularFile (concat bs))"
        "int (length (concat bs)) = un_size g" "we_sha256 (fe_web fe) (concat bs) = un_sha256 g" by blast
      then have "has_size fs' (upload_path fe blobKey) (un_size g)" by (simp add: has_size_def)
      with bs g row show ?thesis by blast
    qed
  next
    case False
    have "fs' = fs \<and> fst a \<notin> {200, 201}"
      using assms False
      by (auto simp: putBlob_def blob_refused_def checkGrant_def
          split: if_splits option.splits grant_check.splits verify_outcome.splits)
    then show ?thesis by simp
  qed
qed

section \<open>A concrete server\<close>

definition lab :: file_env where
  "lab = \<lparr>fe_web = person_env, fe_contracts = plain_rest_contracts,
     fe_verify = \<lparr>vp_parsePublicKey = Some, vp_ed25519 = (\<lambda>k m s. Some True)\<rparr>, fe_freshness = 60, fe_cwd = ''/'',
     fe_state_dir = ''/s'', fe_prefixes = [''/w/''], fe_public_url = [], fe_upload_max = 10, fe_envelope_slack = 0,
     fe_blob_key = (\<lambda>k. True), fe_parseUpload = (\<lambda>h. Some (''n'', h, replicate 86 CHR ''A'')), fe_uploadPreimage = (\<lambda>n b h z. h),
     fe_max_blob_bytes = 10\<rparr>"

definition lab_files :: files where
  "lab_files = [''/s/uploads/1-a'' \<mapsto> RegularFile ''abc'']"

definition lab_request :: web_request where
  "lab_request = (request_of ''kim'' [])\<lparr>wq_queries := [(''path'', ''/s/uploads/1-a'')], wq_param := (\<lambda>k. ''1-a'')\<rparr>"

lemma lab_session: "extractJwt (fe_web lab) one_mail lab_request = Some (person ''kim'')"
proof -
  have "extractJwt person_env one_mail (request_of ''kim'' []) = Some (person ''kim'')"
    by (rule session_of_person) (simp_all add: one_mail_def fresh_web_def localUserIsDisabled_def getLocalUser_def web_db_init_def)
  then show ?thesis by (simp add: lab_def lab_request_def extractJwt_def request_of_def)
qed

lemma lab_approved: "isUserApproved (w_db one_mail) (jp_github_login (person ''kim'')) (jp_role (person ''kim''))"
  by (simp add: isUserApproved_def one_mail_def fresh_web_def getPendingApproval_def person_def)

lemma lab_asks: "asks_for lab one_mail lab_request ''kim'' ''1-a''"
proof -
  have "\<not> has_text ''..'' ''1-a''" "CHR ''/'' \<notin> set ''1-a''" "ESC \<notin> set ''1-a''" "legacy_id ''1-a''" by code_simp+
  moreover have "wq_param lab_request ''id'' = ''1-a''" by (simp add: lab_request_def)
  moreover have "jp_github_login (person ''kim'') = ''kim''" by (simp add: person_def)
  ultimately show ?thesis using lab_approved by (simp add: asks_for_def lab_session)
qed

lemma lab_upload: "lab_files (upload_path lab ''1-a'') = Some (RegularFile ''abc'')"
  by (simp add: lab_files_def upload_path_def UPLOAD_DIR_def lab_def)

text \<open>The same person and file: refused as an attachment, served as a file.\<close>

lemma lab_reading:
  "fe_state_dir lab = path_of [''s'']" "segments [''s'']" "[''s''] \<noteq> []" "segments [''uploads'', ''1-a'']" "[''uploads'', ''1-a''] \<noteq> []"
  "wq_query lab_request ''path'' = Some (path_of ([''s''] @ [''uploads'', ''1-a'']))"
  "lab_files (path_of ([''s''] @ [''uploads'', ''1-a''])) = Some (RegularFile ''abc'')" "length ''abc'' \<le> MAX_FILE_SIZE"
  by (simp_all add: lab_def lab_files_def lab_request_def path_of_def segment_def wq_query_def MAX_FILE_SIZE_def)

theorem any_approved_person_reads_the_state_directory_witness:
  "get_attachment lab lab_files one_mail lab_request = c_error 404 ''Not found'' \<and>
   get_files lab lab_files one_mail lab_request = served ''abc''"
proof
  have "\<not> mayDownload (w_hub one_mail) ''kim'' ''1-a''"
    by (simp add: mayDownload_def sql_exists_def one_mail_def fresh_web_def hub_db_init_def)
  then show "get_attachment lab lab_files one_mail lab_request = c_error 404 ''Not found''"
    by (simp add: get_attachment_session [where fs = lab_files, OF lab_asks lab_upload])
  show "get_files lab lab_files one_mail lab_request = served ''abc''"
    by (rule any_approved_person_reads_the_state_directory [where fs = lab_files, OF lab_session lab_approved lab_reading])
qed

lemma lab_directories: "list_all (\<lambda>x. \<exists>ds. names_directory x ds) (fe_state_dir lab # fe_prefixes lab)"
proof -
  have "names_directory ''/s'' [''s'']" "names_directory ''/w/'' [''w'']"
    by (simp_all add: names_directory_def segment_def path_of_def)
  then show ?thesis unfolding lab_def by (auto simp del: not_None_eq)
qed

theorem files_are_served_beneath_the_prefixes_witness:
  "\<exists>ds rest. segments rest \<and> lab_files (path_of (ds @ rest)) = Some (RegularFile ''abc'')"
  using files_are_served_beneath_the_prefixes
    [OF lab_directories state_directory_is_served [where fs = lab_files, OF lab_session lab_approved lab_reading]] by blast

theorem naming_an_attachment_opens_it_witness:
  "get_attachment lab lab_files
     (one_mail\<lparr>w_hub := (w_hub one_mail)\<lparr>hb_messages := hb_messages (w_hub one_mail) @
        [(hub_mail ''m'' 1)\<lparr>ms_from_agent := ''kim'', ms_content := [CHR 0x22] @ ''1-a'' @ [CHR 0x22] @ []\<rparr>]\<rparr>\<rparr>)
     lab_request = served ''abc''"
  by (rule naming_an_attachment_opens_it [where fs = lab_files, OF lab_asks lab_upload, THEN conjunct2, rule_format, where u = "[]" and v = "[]"]) simp

definition lab_grant :: agents_db where
  "lab_grant = (agents_db_init 0)\<lparr>db_upload_nonces := [\<lparr>un_nonce = ''n'', un_identity = ''ann'', un_blob_key = ''b'', un_size = 3,
     un_sha256 = we_sha256 person_env ''abc'', un_issued_at = 0, un_expires_at = 10 ^ 12\<rparr>],
     db_keys := [\<lparr>k_fingerprint = ''fp'', k_identity = ''ann'', k_public_key = ''k'', k_status = Approved,
       k_proposed_at = 0, k_decided_at = None, k_decided_by = None\<rparr>]\<rparr>"

definition lab_put :: "(int \<times> json) \<times> files" where
  "lab_put = putBlob lab lab_grant (\<lambda>p. None) ''b'' (Some ''fp'') (Some (JInt 3)) (Some [Piece ''ab'', Piece ''c''])"

lemma lab_signature: "length (base64url_decode (replicate 86 CHR ''A'')) = 64"
  by code_simp

lemma lab_put_stored: "fst (fst lab_put) = 201"
  by (simp add: lab_put_def putBlob_def lab_def lab_grant_def declared_length_def checkGrant_def lab_signature
      verifyForIdentity_def approvedKey_def keyByStatus_def verifySignature_def store_blob_def has_size_def
      Let_def person_env_def plain_env_def sql_now_def)

theorem blob_is_what_was_granted_witness:
  "\<exists>g. g \<in> set (db_upload_nonces lab_grant) \<and> has_size (snd lab_put) (upload_path lab ''b'') (un_size g)"
  using blob_is_what_was_granted [of lab lab_grant "\<lambda>p. None" "''b''" "Some ''fp''" "Some (JInt 3)"
      "Some [Piece ''ab'', Piece ''c'']" "fst lab_put" "snd lab_put"] lab_put_stored
  unfolding lab_put_def by (metis insert_iff prod.collapse)

end
