(* ===== verification/Web_Console.thy ===== *)
theory Web_Console
  imports Web_Delivery Web_Audit Web_Rename
begin

text \<open>
  The web server as one process: the table of its routes, the gate that the later ones are registered behind, what
  happens at its start (\<open>startup\<close> and \<open>renameSeededAdmin\<close> of \<open>packages/http/src/main.ts\<close>), and every event that can
  change its state as one step.

  A request is of a route when its path is the route's with the parameters filled in. The routes are told apart by
  their methods and by the order of their registration, which the constructor stands for. The routes that serve
  files are in \<open>Web_Files\<close>: they change no store.

  Its properties are in \<open>Web_Console_Facts\<close>.
\<close>

section \<open>Routes\<close>

datatype console_route =
    SignIn | GitHubCallback | SignOut | ChangePassword | Me
  | Agents | Search | History | Events nat | Subscribe | Unsubscribe
  | AdmissionQueue | Admit | Refuse | Users | CreateUser | Deactivate | Reactivate | Reissue
  | PendingKeys | DecideKey key_decision | KeyRecord
  | PairingCode | RedeemCode | OwnedAgents | SetProxy | Owners
  | Groups | CreateGroup | MoveMember | AllowSending | ForbidSending
  | AgentTypes | CreateType | DeleteType | Teardown | Sources json | Mailboxes | MailboxDepth
  | Directory | CreateTenant | RenameTenant | DeleteTenant | Grants | GrantCapability | RevokeCapability
  | HeldReminders | DecideHeld
  | AuditEvents | AuditEvent | Conversations | ConversationStream nat "string option" | AuditAgents

fun decision_name :: "key_decision \<Rightarrow> string" where
  "decision_name KeyApprove = ''approve''"
| "decision_name KeyDeny = ''deny''"
| "decision_name KeyRevoke = ''revoke''"

fun route_path :: "console_route \<Rightarrow> (string \<Rightarrow> string) \<Rightarrow> string" where
  "route_path SignIn p = ''/auth/local''"
| "route_path GitHubCallback p = ''/auth/github/callback''"
| "route_path SignOut p = ''/auth/logout''"
| "route_path ChangePassword p = ''/auth/local/password''"
| "route_path Me p = ''/auth/me''"
| "route_path Agents p = ''/api/v1/agents''"
| "route_path Search p = ''/api/v1/messages/search''"
| "route_path History p = ''/api/v1/messages/'' @ p ''agent''"
| "route_path (Events n) p = ''/api/v1/events/'' @ p ''agentId''"
| "route_path Subscribe p = ''/api/v1/push/subscribe''"
| "route_path Unsubscribe p = ''/api/v1/push/unsubscribe''"
| "route_path AdmissionQueue p = ''/api/v1/admin/pending''"
| "route_path Admit p = ''/api/v1/admin/approve''"
| "route_path Refuse p = ''/api/v1/admin/deny''"
| "route_path Users p = ''/api/v1/admin/users''"
| "route_path CreateUser p = ''/api/v1/admin/users''"
| "route_path Deactivate p = ''/api/v1/admin/users/'' @ p ''username'' @ ''/deactivate''"
| "route_path Reactivate p = ''/api/v1/admin/users/'' @ p ''username'' @ ''/reactivate''"
| "route_path Reissue p = ''/api/v1/admin/users/'' @ p ''username'' @ ''/password''"
| "route_path PendingKeys p = ''/api/v1/admin/keys/pending''"
| "route_path (DecideKey d) p = ''/api/v1/admin/keys/'' @ decision_name d"
| "route_path KeyRecord p = ''/api/v1/admin/keys/'' @ p ''identity''"
| "route_path PairingCode p = ''/api/v1/admin/pairing-codes''"
| "route_path RedeemCode p = ''/api/v1/pairing-codes/redeem''"
| "route_path OwnedAgents p = ''/api/v1/admin/agents/owned''"
| "route_path SetProxy p = ''/api/v1/admin/agents/'' @ p ''identity'' @ ''/can-proxy''"
| "route_path Owners p = ''/api/v1/admin/agents/'' @ p ''identity'' @ ''/owners''"
| "route_path Groups p = ''/api/v1/admin/groups''"
| "route_path CreateGroup p = ''/api/v1/admin/groups''"
| "route_path MoveMember p = ''/api/v1/admin/groups/'' @ p ''group_id'' @ ''/members''"
| "route_path AllowSending p = ''/api/v1/admin/groups/'' @ p ''group_id'' @ ''/egress''"
| "route_path ForbidSending p = ''/api/v1/admin/groups/'' @ p ''group_id'' @ ''/egress/'' @ p ''to_group''"
| "route_path AgentTypes p = ''/api/v1/admin/agent-types''"
| "route_path CreateType p = ''/api/v1/admin/agent-types''"
| "route_path DeleteType p = ''/api/v1/admin/agent-types/'' @ p ''type''"
| "route_path Teardown p = ''/api/v1/admin/agents/'' @ p ''identity''"
| "route_path (Sources m) p = ''/api/v1/admin/agent-sources''"
| "route_path Mailboxes p = ''/api/v1/admin/mailbox''"
| "route_path MailboxDepth p = ''/api/v1/admin/mailbox/'' @ p ''identity''"
| "route_path Directory p = ''/api/v1/admin/tenants/directory''"
| "route_path CreateTenant p = ''/api/v1/admin/tenants''"
| "route_path RenameTenant p = ''/api/v1/admin/tenants/'' @ p ''id''"
| "route_path DeleteTenant p = ''/api/v1/admin/tenants/'' @ p ''id''"
| "route_path Grants p = ''/api/v1/admin/grants''"
| "route_path GrantCapability p = ''/api/v1/admin/grants''"
| "route_path RevokeCapability p = ''/api/v1/admin/grants''"
| "route_path HeldReminders p = ''/api/v1/admin/reminders/overdue''"
| "route_path DecideHeld p = ''/api/v1/admin/reminders/overdue/'' @ p ''id'' @ ''/decision''"
| "route_path AuditEvents p = ''/api/v1/audit/events''"
| "route_path AuditEvent p = ''/api/v1/audit/events/'' @ p ''event_id''"
| "route_path Conversations p = ''/api/v1/admin/chat-audits''"
| "route_path (ConversationStream n h) p = ''/api/v1/admin/chat-audits/stream''"
| "route_path AuditAgents p = ''/api/v1/admin/chat-audits/agents''"

definition of_route :: "console_route \<Rightarrow> web_request \<Rightarrow> bool" where
  "of_route r q \<longleftrightarrow> wq_path q = route_path r (wq_param q)"

fun handler :: "console_route \<Rightarrow> route" where
  "handler SignIn = post_auth_local"
| "handler GitHubCallback = get_github_callback"
| "handler SignOut = post_logout"
| "handler ChangePassword = post_password"
| "handler Me = get_me"
| "handler Agents = get_agents"
| "handler Search = get_search"
| "handler History = get_history"
| "handler (Events n) = get_events n"
| "handler Subscribe = post_subscribe"
| "handler Unsubscribe = post_unsubscribe"
| "handler AdmissionQueue = get_pending"
| "handler Admit = post_approve"
| "handler Refuse = post_deny"
| "handler Users = get_users"
| "handler CreateUser = post_users"
| "handler Deactivate = setDeactivated True"
| "handler Reactivate = setDeactivated False"
| "handler Reissue = post_reissue"
| "handler PendingKeys = get_keys_pending"
| "handler (DecideKey d) = post_key_decision d"
| "handler KeyRecord = get_key_history"
| "handler PairingCode = post_pairing_codes"
| "handler RedeemCode = post_redeem"
| "handler OwnedAgents = get_owned"
| "handler SetProxy = post_can_proxy"
| "handler Owners = get_owners"
| "handler Groups = get_groups"
| "handler CreateGroup = post_groups"
| "handler MoveMember = post_group_members"
| "handler AllowSending = post_group_egress"
| "handler ForbidSending = delete_group_egress"
| "handler AgentTypes = get_agent_types"
| "handler CreateType = post_agent_types"
| "handler DeleteType = delete_agent_type"
| "handler Teardown = delete_agent"
| "handler (Sources m) = get_agent_sources m"
| "handler Mailboxes = get_mailbox"
| "handler MailboxDepth = get_mailbox_of"
| "handler Directory = get_tenant_directory"
| "handler CreateTenant = post_tenants"
| "handler RenameTenant = patch_tenant"
| "handler DeleteTenant = delete_tenant"
| "handler Grants = get_grants"
| "handler GrantCapability = post_grants"
| "handler RevokeCapability = delete_grants"
| "handler HeldReminders = get_overdue"
| "handler DecideHeld = post_overdue"
| "handler AuditEvents = get_audit_events"
| "handler AuditEvent = get_audit_event"
| "handler Conversations = get_chat_audits"
| "handler (ConversationStream n h) = get_chat_audits_stream n h"
| "handler AuditAgents = get_audit_agents"

text \<open>Three routes are registered before the gate.\<close>

fun before_gate :: "console_route \<Rightarrow> bool" where
  "before_gate SignIn = True"
| "before_gate GitHubCallback = True"
| "before_gate SignOut = True"
| "before_gate _ = False"

definition console :: "console_route \<Rightarrow> route" where
  "console r env w q =
     (case if before_gate r then None else flagged_refusal env w q of
        Some a \<Rightarrow> (a, w)
      | None \<Rightarrow> handler r env w q)"

definition messages_route :: "web_env \<Rightarrow> web \<Rightarrow> web_request \<Rightarrow> web_answer option \<times> web" where
  "messages_route env w q =
     (case flagged_refusal env w q of Some a \<Rightarrow> (Some a, w) | None \<Rightarrow> post_messages env w q)"

section \<open>The start of the process\<close>

text \<open>The old name of the seeded account; a rename that is refused or fails leaves what it wrote.\<close>

definition renameSeededAdmin :: "web \<Rightarrow> web" where
  "renameSeededAdmin w =
     (case getLocalUser (w_db w) LEGACY_SEED_ADMIN_USERNAME of
        None \<Rightarrow> w
      | Some legacy \<Rightarrow>
          if lu_role legacy \<noteq> ''admin'' then w
          else (case renameLocalAccount LEGACY_SEED_ADMIN_USERNAME SEED_ADMIN_USERNAME (w_db w) (w_agents w) of
                  (outcome, d, m) \<Rightarrow> w\<lparr>w_db := d, w_agents := m\<rparr>))"

definition startup :: "web_env \<Rightarrow> web \<Rightarrow> web" where
  "startup env w =
     (let w1 = renameSeededAdmin w;
          w2 = w1\<lparr>w_db := seedLocalUsers (we_passwords env) (web_secs env) (w_db w1)\<rparr>;
          w3 = seedLegacyAdminGrants env w2;
          w4 = admitApprovedIdentitiesOnBoot env w3;
          w5 = redeclareProxies env w4
      in auditPollerStartingPoint w5)"

section \<open>The process\<close>

datatype web_event =
    Boot web_env
  | Request console_route web_env web_request
  | Message web_env web_request
  | HubFrame web_env string
  | HubSilent web_env nat
  | LinkOpened web_env
  | StreamClosed string string nat
  | WatcherClosed nat
  | PollerTick
  | PushRefused string "int option"

definition removeAuditSseClient :: "nat \<Rightarrow> web \<Rightarrow> web" where
  "removeAuditSseClient stream w = w\<lparr>w_watchers := filter (\<lambda>f. aw_stream f \<noteq> stream) (w_watchers w)\<rparr>"

fun web_step :: "web \<Rightarrow> web_event \<Rightarrow> web" where
  "web_step w (Boot env) = startup env w"
| "web_step w (Request r env q) = (if of_route r q then snd (console r env w q) else w)"
| "web_step w (Message env q) = (if wq_path q = ''/api/v1/messages'' then snd (messages_route env w q) else w)"
| "web_step w (HubFrame env raw) = hub_frame env raw w"
| "web_step w (HubSilent env h) = send_timed_out env h w"
| "web_step w (LinkOpened env) = hub_opened env w"
| "web_step w (StreamClosed agent login stream) = removeSSEClient agent login stream w"
| "web_step w (WatcherClosed stream) = removeAuditSseClient stream w"
| "web_step w PollerTick = auditPollerPass w"
| "web_step w (PushRefused endpoint status) = push_failed endpoint status w"

end
