(* ===== verification/Web_Console_Facts.thy ===== *)
theory Web_Console_Facts
  imports Web_Console Web_Audit_Facts
begin

text \<open>
  What each route of the web server may change, and on whose authority: the frames of the handlers over the stores,
  the guard that each route asks for, and the accounts of the web database. \<open>Web_Console_Runs\<close> and
  \<open>Web_Console_Grants\<close> rest on it.
\<close>

section \<open>Who may change a store\<close>

text \<open>The databases behind the server.\<close>

definition stores :: "web \<Rightarrow> web_db \<times> agents_db \<times> hub_db \<times> audit_db \<times> reminder_db option" where
  "stores w = (w_db w, w_agents w, w_hub w, w_audit w, w_reminders w)"

definition holds :: "web_env \<Rightarrow> web \<Rightarrow> web_request \<Rightarrow> capability \<Rightarrow> string \<Rightarrow> bool" where
  "holds env w q cap scope \<longleftrightarrow>
     (case extractJwt env w q of None \<Rightarrow> False
      | Some p \<Rightarrow> has_cap (we_wide env) (w_agents w) (jp_github_login p) (we_cap env cap) scope DEFAULT_TENANT)"

definition platform_admin :: "web_env \<Rightarrow> web \<Rightarrow> web_request \<Rightarrow> bool" where
  "platform_admin env w q \<longleftrightarrow>
     (case extractJwt env w q of None \<Rightarrow> False | Some p \<Rightarrow> jp_github_login p \<in> set (administratorLogins (w_db w)))"

definition approved_person :: "web_env \<Rightarrow> web \<Rightarrow> web_request \<Rightarrow> bool" where
  "approved_person env w q \<longleftrightarrow>
     (case extractJwt env w q of None \<Rightarrow> False
      | Some p \<Rightarrow> isUserApproved (w_db w) (jp_github_login p) (jp_role p))"

text \<open>The right password of an account that is not deactivated.\<close>

definition right_password :: "web_env \<Rightarrow> web \<Rightarrow> web_request \<Rightarrow> bool" where
  "right_password env w q \<longleftrightarrow>
     (\<exists>name pw u. sql_bind (jget (sign_in_body q) ''username'') = Some (Some name) \<and>
        jget (sign_in_body q) ''password'' = Some (JStr pw) \<and>
        verifyLocalUser (we_passwords env) (w_db w) name pw = Some u \<and> \<not> localUserIsDisabled (w_db w) name)"

definition current_password :: "web_env \<Rightarrow> web \<Rightarrow> web_request \<Rightarrow> bool" where
  "current_password env w q \<longleftrightarrow>
     (\<exists>p body current. extractJwt env w q = Some p \<and> json_parse (wq_text q) = Some body \<and>
        as_string (jget body ''current'') = Some current \<and>
        verifyLocalUser (we_passwords env) (w_db w) (jp_github_login p) current \<noteq> None)"

definition spendable_code :: "web_env \<Rightarrow> web \<Rightarrow> web_request \<Rightarrow> bool" where
  "spendable_code env w q \<longleftrightarrow>
     (\<exists>body code. json_parse (wq_text q) = Some body \<and> as_string (jget body ''code'') = Some code \<and>
        sql_exists (spendable (web_secs env) code) (db_pairing (w_agents w)))"

definition may_tear_down :: "web_env \<Rightarrow> web \<Rightarrow> web_request \<Rightarrow> bool" where
  "may_tear_down env w q \<longleftrightarrow>
     holds env w q AGENT_TEARDOWN (wq_param q ''identity'') \<or>
     (case extractJwt env w q of None \<Rightarrow> False
      | Some p \<Rightarrow> jp_github_login p \<noteq> [] \<and>
          (owns_for_teardown env (w_agents w) (jp_github_login p) (wq_param q ''identity'') \<or>
           manages_group_of env (w_agents w) (jp_github_login p) (wq_param q ''identity'')))"

text \<open>What it takes for a route to change a store; the routes that are not named never do.\<close>

fun authorised :: "console_route \<Rightarrow> web_env \<Rightarrow> web \<Rightarrow> web_request \<Rightarrow> bool" where
  "authorised SignIn env w q = right_password env w q"
| "authorised GitHubCallback env w q =
     (\<exists>code token u. wq_query q ''code'' = Some code \<and> we_exchange env code = Inr token \<and> we_github env token = Inr u)"
| "authorised ChangePassword env w q = current_password env w q"
| "authorised Subscribe env w q = approved_person env w q"
| "authorised Unsubscribe env w q = approved_person env w q"
| "authorised Admit env w q = holds env w q USER_ADMIT (we_wide env)"
| "authorised Refuse env w q = holds env w q USER_ADMIT (we_wide env)"
| "authorised CreateUser env w q = holds env w q USER_ADMIT (we_wide env)"
| "authorised Deactivate env w q = holds env w q USER_ADMIT (we_wide env)"
| "authorised Reactivate env w q = holds env w q USER_ADMIT (we_wide env)"
| "authorised Reissue env w q = holds env w q USER_ADMIT (we_wide env)"
| "authorised (DecideKey d) env w q = holds env w q KEY_APPROVE (we_wide env)"
| "authorised PairingCode env w q = holds env w q AGENT_PROVISION (we_wide env)"
| "authorised RedeemCode env w q = spendable_code env w q"
| "authorised SetProxy env w q = holds env w q AGENT_PROVISION (wq_param q ''identity'')"
| "authorised CreateGroup env w q = holds env w q GROUP_MANAGE (we_wide env)"
| "authorised MoveMember env w q = holds env w q GROUP_MANAGE (we_wide env)"
| "authorised AllowSending env w q = holds env w q GROUP_MANAGE (we_wide env)"
| "authorised ForbidSending env w q = holds env w q GROUP_MANAGE (we_wide env)"
| "authorised CreateType env w q = holds env w q AGENT_PROVISION (we_wide env)"
| "authorised DeleteType env w q = holds env w q AGENT_PROVISION (we_wide env)"
| "authorised Teardown env w q = may_tear_down env w q"
| "authorised CreateTenant env w q = platform_admin env w q"
| "authorised RenameTenant env w q = platform_admin env w q"
| "authorised DeleteTenant env w q = platform_admin env w q"
| "authorised GrantCapability env w q = holds env w q ROLE_GRANT (we_wide env)"
| "authorised RevokeCapability env w q = holds env w q ROLE_GRANT (we_wide env)"
| "authorised DecideHeld env w q = holds env w q REMINDER_DECIDE (we_wide env)"
| "authorised AuditEvents env w q = holds env w q AUDIT_READ_METADATA (we_wide env)"
| "authorised AuditEvent env w q = holds env w q AUDIT_READ_METADATA (we_wide env)"
| "authorised Conversations env w q = holds env w q AUDIT_READ_CONTENT (we_wide env)"
| "authorised (ConversationStream n h) env w q = holds env w q AUDIT_READ_CONTENT (we_wide env)"
| "authorised _ env w q = False"

lemma capability_held: "requireCapability env w q cap scope = Inr actor \<Longrightarrow> holds env w q cap scope"
  by (auto simp: requireCapability_def holds_def split: option.splits if_splits)

lemma guard:
  assumes "stores (snd (case requireCapability env w q cap scope of Inl a \<Rightarrow> (a, w) | Inr actor \<Rightarrow> f actor)) \<noteq> stores w"
  shows "holds env w q cap scope"
  using assms by (cases "requireCapability env w q cap scope") (auto dest: capability_held)

lemma admin_guard:
  assumes "stores (snd (case requirePlatformAdmin env w q of Inl a \<Rightarrow> (a, w) | Inr actor \<Rightarrow> f actor)) \<noteq> stores w"
  shows "platform_admin env w q"
  using assms by (auto simp: requirePlatformAdmin_def platform_admin_def split: option.splits if_splits)

lemma person_guard:
  assumes "stores (snd (case signed_in_and_approved env w q m of Inl a \<Rightarrow> (a, w) | Inr p \<Rightarrow> f p)) \<noteq> stores w"
  shows "approved_person env w q"
  using assms by (auto simp: signed_in_and_approved_def approved_person_def split: option.splits if_splits)

text \<open>Routes that only read.\<close>

lemma readers:
  "snd (get_me env w q) = w" "snd (post_logout env w q) = w" "snd (get_agents env w q) = w" "snd (get_search env w q) = w"
  "snd (get_history env w q) = w" "snd (get_pending env w q) = w" "snd (get_users env w q) = w"
  "snd (get_keys_pending env w q) = w" "snd (get_key_history env w q) = w" "snd (get_owned env w q) = w"
  "snd (get_owners env w q) = w" "snd (get_groups env w q) = w" "snd (get_agent_types env w q) = w"
  "snd (get_agent_sources m env w q) = w" "snd (get_mailbox env w q) = w" "snd (get_mailbox_of env w q) = w"
  "snd (get_tenant_directory env w q) = w" "snd (get_grants env w q) = w" "snd (get_overdue env w q) = w"
  "snd (get_audit_agents env w q) = w"
  by (simp_all add: get_me_def post_logout_def get_agents_def get_search_def get_history_def get_pending_def get_users_def
      get_keys_pending_def get_key_history_def get_owned_def get_owners_def get_groups_def get_agent_types_def
      get_agent_sources_def get_mailbox_def get_mailbox_of_def get_tenant_directory_def get_grants_def get_overdue_def
      get_audit_agents_def Let_def split: option.split sum.split list.split)

lemma events_stores: "stores (snd (get_events n env w q)) = stores w"
  by (simp add: get_events_def stores_def addSSEClient_def Let_def split: option.split)

lemma sign_in_guard:
  assumes "stores (snd (post_auth_local env w q)) \<noteq> stores w"
  shows "right_password env w q"
  using assms by (auto simp: post_auth_local_def right_password_def Let_def split: option.splits if_splits json.splits)

lemma callback_guard:
  assumes "stores (snd (get_github_callback env w q)) \<noteq> stores w"
  shows "authorised GitHubCallback env w q"
  using assms by (auto simp: get_github_callback_def split: option.splits list.splits sum.splits)

lemma password_guard:
  assumes "stores (snd (post_password env w q)) \<noteq> stores w"
  shows "current_password env w q"
  using assms
  by (auto simp: post_password_def current_password_def setLocalPassword_def check_current_def verifyLocalUser_def stores_def
      split: option.splits if_splits password_change.splits)

lemma redeem_guard:
  assumes "stores (snd (post_redeem env w q)) \<noteq> stores w"
  shows "spendable_code env w q"
proof -
  from assms obtain body code claimant where b: "json_parse (wq_text q) = Some body"
      "as_string (jget body ''code'') = Some code" "as_string (jget body ''owner'') = Some claimant"
      and "snd (redeem (web_secs env) (w_agents w) code claimant (observed_address q)) \<noteq> w_agents w"
    by (auto simp: post_redeem_def stores_def split: option.splits prod.splits redeem_outcome.splits)
  then have "sql_exists (spendable (web_secs env) code) (db_pairing (w_agents w))"
    by (auto simp: redeem_def Let_def sql_simps sql_changes_def sql_exists_def list_ex_iff filter_empty_conv
        sql_update_def map_idI split: if_splits option.splits)
  with b show ?thesis by (auto simp: spendable_code_def)
qed

lemma teardown_guard:
  assumes "stores (snd (delete_agent env w q)) \<noteq> stores w"
  shows "may_tear_down env w q"
  using assms
  by (auto simp: delete_agent_def may_tear_down_def Let_def dest: capability_held split: sum.splits option.splits if_splits)

lemma capability_guards:
  "stores (snd (post_approve env w q)) \<noteq> stores w \<Longrightarrow> holds env w q USER_ADMIT (we_wide env)"
  "stores (snd (post_deny env w q)) \<noteq> stores w \<Longrightarrow> holds env w q USER_ADMIT (we_wide env)"
  "stores (snd (post_users env w q)) \<noteq> stores w \<Longrightarrow> holds env w q USER_ADMIT (we_wide env)"
  "stores (snd (setDeactivated b env w q)) \<noteq> stores w \<Longrightarrow> holds env w q USER_ADMIT (we_wide env)"
  "stores (snd (post_reissue env w q)) \<noteq> stores w \<Longrightarrow> holds env w q USER_ADMIT (we_wide env)"
  "stores (snd (post_key_decision d env w q)) \<noteq> stores w \<Longrightarrow> holds env w q KEY_APPROVE (we_wide env)"
  "stores (snd (post_pairing_codes env w q)) \<noteq> stores w \<Longrightarrow> holds env w q AGENT_PROVISION (we_wide env)"
  "stores (snd (post_can_proxy env w q)) \<noteq> stores w \<Longrightarrow> holds env w q AGENT_PROVISION (wq_param q ''identity'')"
  "stores (snd (post_groups env w q)) \<noteq> stores w \<Longrightarrow> holds env w q GROUP_MANAGE (we_wide env)"
  "stores (snd (post_group_members env w q)) \<noteq> stores w \<Longrightarrow> holds env w q GROUP_MANAGE (we_wide env)"
  "stores (snd (post_group_egress env w q)) \<noteq> stores w \<Longrightarrow> holds env w q GROUP_MANAGE (we_wide env)"
  "stores (snd (delete_group_egress env w q)) \<noteq> stores w \<Longrightarrow> holds env w q GROUP_MANAGE (we_wide env)"
  "stores (snd (post_agent_types env w q)) \<noteq> stores w \<Longrightarrow> holds env w q AGENT_PROVISION (we_wide env)"
  "stores (snd (delete_agent_type env w q)) \<noteq> stores w \<Longrightarrow> holds env w q AGENT_PROVISION (we_wide env)"
  "stores (snd (post_grants env w q)) \<noteq> stores w \<Longrightarrow> holds env w q ROLE_GRANT (we_wide env)"
  "stores (snd (delete_grants env w q)) \<noteq> stores w \<Longrightarrow> holds env w q ROLE_GRANT (we_wide env)"
  "stores (snd (post_overdue env w q)) \<noteq> stores w \<Longrightarrow> holds env w q REMINDER_DECIDE (we_wide env)"
  "stores (snd (get_audit_events env w q)) \<noteq> stores w \<Longrightarrow> holds env w q AUDIT_READ_METADATA (we_wide env)"
  "stores (snd (get_audit_event env w q)) \<noteq> stores w \<Longrightarrow> holds env w q AUDIT_READ_METADATA (we_wide env)"
  "stores (snd (get_chat_audits env w q)) \<noteq> stores w \<Longrightarrow> holds env w q AUDIT_READ_CONTENT (we_wide env)"
  "stores (snd (get_chat_audits_stream n h env w q)) \<noteq> stores w \<Longrightarrow> holds env w q AUDIT_READ_CONTENT (we_wide env)"
  by (unfold post_approve_def post_deny_def post_users_def setDeactivated_def post_reissue_def post_key_decision_def
      post_pairing_codes_def post_can_proxy_def post_groups_def post_group_members_def post_group_egress_def
      delete_group_egress_def post_agent_types_def delete_agent_type_def post_grants_def delete_grants_def post_overdue_def
      get_audit_events_def get_audit_event_def get_chat_audits_def get_chat_audits_stream_def Let_def)
    (erule guard)+

lemma other_guards:
  "stores (snd (post_tenants env w q)) \<noteq> stores w \<Longrightarrow> platform_admin env w q"
  "stores (snd (patch_tenant env w q)) \<noteq> stores w \<Longrightarrow> platform_admin env w q"
  "stores (snd (delete_tenant env w q)) \<noteq> stores w \<Longrightarrow> platform_admin env w q"
  "stores (snd (post_subscribe env w q)) \<noteq> stores w \<Longrightarrow> approved_person env w q"
  "stores (snd (post_unsubscribe env w q)) \<noteq> stores w \<Longrightarrow> approved_person env w q"
  by (unfold post_tenants_def patch_tenant_def delete_tenant_def post_subscribe_def post_unsubscribe_def)
    (erule admin_guard person_guard)+

lemmas route_guards = capability_guards other_guards sign_in_guard callback_guard password_guard redeem_guard teardown_guard

lemma handler_guard:
  assumes "stores (snd (handler r env w q)) \<noteq> stores w"
  shows "authorised r env w q"
  using assms by (cases r) (auto simp: readers events_stores dest: route_guards)

text \<open>Behind the gate every path but two is one that the gate does not let pass.\<close>

lemma starts_Nil: "starts_with [] s"
  by (simp add: starts_with_def)

lemma starts_Cons: "starts_with (a # p) (b # s) \<longleftrightarrow> a = b \<and> starts_with p s"
  by (auto simp: starts_with_def)

lemma api_path:
  "\<not> before_gate r \<Longrightarrow> r \<noteq> ChangePassword \<Longrightarrow> r \<noteq> Me \<Longrightarrow> starts_with ''/api/v1/'' (route_path r p)"
  by (cases r; simp only: route_path.simps append.simps starts_Nil starts_Cons simp_thms before_gate.simps)

lemma gated_paths:
  "of_route r q \<Longrightarrow> \<not> before_gate r \<Longrightarrow> r \<noteq> ChangePassword \<Longrightarrow> r \<noteq> Me \<Longrightarrow> starts_with ''/api/v1/'' (wq_path q)"
  unfolding of_route_def using api_path by simp

lemma gate_closed:
  assumes "starts_with ''/api/v1/'' (wq_path q)" "extractJwt env w q = Some p" "mustChangePassword (w_db w) (jp_github_login p)"
  shows "flagged_refusal env w q \<noteq> None"
proof -
  obtain t where "wq_path q = ''/api/v1/'' @ t" using assms(1) unfolding starts_with_iff by blast
  then have "wq_path q \<notin> set OPEN_WHILE_FLAGGED" "\<not> starts_with ''/auth/local'' (wq_path q)" "wq_path q \<noteq> ''/login''"
    by (simp_all add: OPEN_WHILE_FLAGGED_def starts_with_def)
  then show ?thesis using assms(2,3) by (simp add: flagged_refusal_def)
qed

lemma session_not_disabled: "extractJwt env w q = Some p \<Longrightarrow> \<not> localUserIsDisabled (w_db w) (jp_github_login p)"
  by (auto simp: extractJwt_def session_of_token_def sessionIsRefused_def split: option.splits if_splits)


text \<open>Kim may admit people; the platform administrator has never signed in.\<close>

definition boss :: local_user where
  "boss = \<lparr>lu_id = 1, lu_username = ''platform-admin'', lu_password_hash = ''old'', lu_display_name = None, lu_role = ''admin'',
     lu_created_at = 0, lu_must_change_password = False, lu_tenant = ''default'', lu_disabled_at = None\<rparr>"

definition boss_env :: web_env where
  "boss_env = person_env\<lparr>we_passwords := \<lparr>pw_hash = (\<lambda>s. s), pw_verify = (\<lambda>s h. s = h), pw_random = ''tmp'', pw_initial = None\<rparr>\<rparr>"

definition boss_web :: web where
  "boss_web = fresh_web (web_db_init\<lparr>wb_local := [boss]\<rparr>) (with_grant ''kim'')"

definition reissue_boss :: web_request where
  "reissue_boss = (request_of ''kim'' [])\<lparr>wq_param := (\<lambda>k. ''platform-admin''),
     wq_path := ''/api/v1/admin/users/platform-admin/password''\<rparr>"

lemma reissue_session: "extractJwt boss_env boss_web reissue_boss = Some (person ''kim'')"
  by (simp add: extractJwt_def session_of_token_def sessionIsRefused_def boss_env_def person_env_def request_of_def person_def
      boss_web_def fresh_web_def localUserIsDisabled_def getLocalUser_def boss_def reissue_boss_def)

lemma reissue_gate: "flagged_refusal boss_env boss_web reissue_boss = None"
  using reissue_session
  by (simp add: flagged_refusal_def mustChangePassword_def getLocalUser_def boss_web_def fresh_web_def boss_def person_def)

lemma reissue_cap:
  "has_cap (we_wide boss_env) (w_agents boss_web) (jp_github_login (person ''kim'')) (we_cap boss_env USER_ADMIT)
     (we_wide boss_env) DEFAULT_TENANT"
  by (simp add: has_cap_def sql_simps boss_web_def fresh_web_def with_grant_def boss_env_def person_env_def plain_env_def person_def)


section \<open>What the routes do to the web database\<close>

text \<open>A write that leaves the accounts and keeps the keys of the tables.\<close>

definition side_write :: "web_db \<Rightarrow> web_db \<Rightarrow> bool" where
  "side_write d d' \<longleftrightarrow> wb_local d' = wb_local d \<and> (web_pk d \<longrightarrow> web_pk d')"

lemma side_refl [simp]: "side_write d d"
  by (simp add: side_write_def)

lemma side_trans [trans]: "side_write d d1 \<Longrightarrow> side_write d1 d2 \<Longrightarrow> side_write d d2"
  by (simp add: side_write_def)

lemma wildcard_pk: "web_pk d \<Longrightarrow> web_pk (wildcard_policy l d)"
  by (simp add: web_pk_def web_defs sql_insert_ignore_unique)

lemma put_user_pk: "web_pk d \<Longrightarrow> (\<And>u. wu_github_id (f u) = wu_github_id u) \<Longrightarrow> web_pk (put_user t i l r f d)"
  by (simp add: web_pk_def web_defs sql_upsert_unique)

lemma side_policy: "side_write d (wildcard_policy l d)"
  by (simp add: side_write_def wildcard_pk) (simp add: web_defs)

lemma side_registry: "side_write d (upsertApprovedWebUser t d l)" "side_write d (admitRegistryAgent t d i ds ty)"
  by (simp_all add: side_write_def upsert_web_user_pk admit_registry_pk) (simp_all add: web_defs)

lemma side_user: "side_write d (snd (upsertUser t d gid l))"
  by (simp add: side_write_def upsertUser_pk) (simp add: upsertUser_def put_user_def wildcard_policy_def Let_def)

lemma side_approval: "side_write d (snd (createPendingApproval t d l gid))" "side_write d (snd (decide_approval st d l))"
  by (simp_all add: side_write_def approval_pk) (simp_all add: createPendingApproval_def decide_approval_def Let_def)

lemma side_push: "side_write d (savePushSubscription d l e p a)" "side_write d (deletePushSubscription d e)"
  by (simp_all add: side_write_def push_pk) (simp_all add: savePushSubscription_def deletePushSubscription_def)

lemma side_status: "side_write d (snd (updateMessageStatus d i st))"
  by (simp add: side_write_def message_pk) (simp add: updateMessageStatus_def)

lemma side_message: "insertMessage d i s r c rt fp st ts = Some d' \<Longrightarrow> side_write d d'"
  by (auto simp: side_write_def message_pk(1)) (auto simp: insertMessage_def split: option.splits)

lemma side_sign_in: "side_write d (signed_in_user t u d)"
  unfolding signed_in_user_def
  by (rule side_trans [OF _ side_policy]) (simp add: side_write_def put_user_pk, simp add: put_user_def)

lemmas side_ops = side_policy side_registry side_user side_approval side_push side_status side_sign_in

lemma provision_stores [simp]: "stores (provisionHuman i w) = stores w" "stores (provisionAllHumans ids w) = stores w"
proof -
  show one: "stores (provisionHuman i w) = stores w" for i w
    by (simp add: provisionHuman_def stores_def)
  show "stores (provisionAllHumans ids w) = stores w"
    unfolding provisionAllHumans_def by (induction ids arbitrary: w) (simp_all add: one)
qed

lemma redeclare_stores [simp]: "stores (redeclareProxies env w) = stores w"
proof -
  have "stores (x\<lparr>w_out := out\<rparr>) = stores x" for x out by (simp add: stores_def)
  then show ?thesis by (simp add: redeclareProxies_def Let_def)
qed

lemma same_stores: "stores w' = stores w \<Longrightarrow> w_db w' = w_db w \<and> w_agents w' = w_agents w"
  by (simp add: stores_def)

lemma side_same: "w_db w' = w_db w \<Longrightarrow> side_write (w_db w) (w_db w')"
  by simp

lemma sign_in_side: "side_write (w_db w) (w_db (snd (post_auth_local env w q)))"
  by (auto simp: post_auth_local_def Let_def side_sign_in split: option.split json.split)

lemma ask_side: "side_write (w_db w) (w_db (ask_for_approval env u w))"
  by (simp add: ask_for_approval_def notifyApprovalRequest_def Let_def side_approval split: option.split)

lemma callback_side: "side_write (w_db w) (w_db (snd (get_github_callback env w q)))"
proof -
  have a: "side_write (w_db w) (w_db (ask_for_approval env u (w\<lparr>w_db := d'\<rparr>)))"
    if "upsertUser t (w_db w) i l = (x, d')" for u t i l x d'
    using side_user [of "w_db w" t i l] ask_side [of "w\<lparr>w_db := d'\<rparr>" env u] that
    by (auto intro: side_trans)
  have b: "side_write (w_db w) d'" if "upsertUser t (w_db w) i l = (x, d')" for t i l x d'
    using side_user [of "w_db w" t i l] that by simp
  show ?thesis
    by (auto simp: get_github_callback_def split: option.split list.split sum.split prod.split intro: a b)
qed

lemma approve_side: "side_write (w_db w) (w_db (snd (post_approve env w q)))"
proof -
  have a: "side_write (w_db w) (w_db (snd (decision_json l st,
      (redeclareProxies env (provisionHuman l (w\<lparr>w_db := upsertApprovedWebUser t d l\<rparr>)))\<lparr>w_db :=
        wildcard_policy l (w_db (redeclareProxies env (provisionHuman l (w\<lparr>w_db := upsertApprovedWebUser t d l\<rparr>))))\<rparr>)))"
    if "approveUser (w_db w) l = (b, d)" for l st t d b
  proof -
    let ?w = "redeclareProxies env (provisionHuman l (w\<lparr>w_db := upsertApprovedWebUser t d l\<rparr>))"
    have "stores ?w = stores (w\<lparr>w_db := upsertApprovedWebUser t d l\<rparr>)" by simp
    then have "w_db ?w = upsertApprovedWebUser t d l" by (simp add: stores_def)
    moreover have "side_write (w_db w) d" using side_approval(2) [of "w_db w" _ l] that unfolding approveUser_def by (metis snd_conv)
    ultimately show ?thesis
      using side_registry(1) [of d t l] side_policy [of "upsertApprovedWebUser t d l" l] by (auto intro: side_trans)
  qed
  have d: "side_write (w_db w) d" if "approveUser (w_db w) l = (b, d)" for l b d
    using side_approval(2) [of "w_db w" _ l] that unfolding approveUser_def by (metis snd_conv)
  show ?thesis
    unfolding post_approve_def Let_def
    by (auto split: sum.split option.split login_field.split prod.split bool.split intro: a [simplified] d)
qed

lemma deny_side: "side_write (w_db w) (w_db (snd (post_deny env w q)))"
proof -
  have d: "side_write (w_db w) d" if "denyUser (w_db w) l = (b, d)" for l b d
    using side_approval(2) [of "w_db w" _ l] that unfolding denyUser_def by (metis snd_conv)
  show ?thesis
    unfolding post_deny_def
    by (auto split: sum.split option.split login_field.split prod.split bool.split intro: d)
qed

lemma push_side:
  "side_write (w_db w) (w_db (snd (post_subscribe env w q)))" "side_write (w_db w) (w_db (snd (post_unsubscribe env w q)))"
  by (auto simp: post_subscribe_def post_unsubscribe_def side_push split: sum.split option.split prod.split)

lemma admit_identity_side: "side_write d (snd (admitApprovedIdentity t m i d))"
  by (simp add: admitApprovedIdentity_def side_registry split: option.split)

lemma decided_db: "w_db (snd (decided w x)) = w_db w"
  by (auto simp: decided_def split: sum.split option.split)

lemma key_side: "side_write (w_db w) (w_db (snd (post_key_decision d env w q)))"
proof -
  have "side_write (w_db w) (w_db (snd (decide_key env d fp actor reason w)))" for fp actor reason
    using decided_db [of w] admit_identity_side
    by (auto simp: decide_key_def Let_def split: key_decision.split prod.split sum.split option.split list.split)
      (metis snd_conv side_refl admit_identity_side)+
  then show ?thesis by (auto simp: post_key_decision_def split: sum.split option.split)
qed

text \<open>The routes over the other stores.\<close>

lemma events_db: "w_db (snd (get_events n env w q)) = w_db w"
  using same_stores [OF events_stores] by simp

lemma mesh_routes_db:
  "w_db (snd (post_pairing_codes env w q)) = w_db w" "w_db (snd (post_redeem env w q)) = w_db w"
  "w_db (snd (post_can_proxy env w q)) = w_db w" "w_db (snd (post_groups env w q)) = w_db w"
  "w_db (snd (post_group_members env w q)) = w_db w" "w_db (snd (post_group_egress env w q)) = w_db w"
  "w_db (snd (delete_group_egress env w q)) = w_db w" "w_db (snd (post_agent_types env w q)) = w_db w"
  "w_db (snd (delete_agent_type env w q)) = w_db w" "w_db (snd (post_grants env w q)) = w_db w"
  "w_db (snd (delete_grants env w q)) = w_db w" "w_db (snd (post_overdue env w q)) = w_db w"
  by (auto simp: post_pairing_codes_def post_redeem_def post_can_proxy_def post_groups_def post_group_members_def
      post_group_egress_def delete_group_egress_def post_agent_types_def delete_agent_type_def post_grants_def
      delete_grants_def post_overdue_def Let_def
      split: sum.split option.split prod.split redeem_outcome.split json.split)

lemma tenant_routes_db:
  "w_db (snd (post_tenants env w q)) = w_db w" "w_db (snd (patch_tenant env w q)) = w_db w"
  "w_db (snd (delete_tenant env w q)) = w_db w"
  by (auto simp: post_tenants_def patch_tenant_def delete_tenant_def Let_def
      split: sum.split option.split prod.split bool.split)

lemma teardown_db: "w_db (snd (delete_agent env w q)) = w_db w"
  by (auto simp: delete_agent_def teardownAs_def Let_def split: sum.split option.split prod.split)

lemma log_keeps: "logContentRead env w actor b target qs = Inr w1 \<Longrightarrow> w_db w1 = w_db w \<and> w_agents w1 = w_agents w"
  by (auto simp: logContentRead_def split: if_splits option.splits)

lemma audit_routes_db:
  "w_db (snd (get_audit_events env w q)) = w_db w" "w_db (snd (get_audit_event env w q)) = w_db w"
  "w_db (snd (get_chat_audits env w q)) = w_db w" "w_db (snd (get_chat_audits_stream n h env w q)) = w_db w"
  by (auto simp: get_audit_events_def get_audit_event_def get_chat_audits_def get_chat_audits_stream_def Let_def
      dest: log_keeps split: sum.split option.split)

lemmas unchanged_db = mesh_routes_db tenant_routes_db teardown_db audit_routes_db events_db

definition account_route :: "console_route \<Rightarrow> bool" where
  "account_route r \<longleftrightarrow> r \<in> {ChangePassword, CreateUser, Deactivate, Reactivate, Reissue}"

lemma handler_side: "\<not> account_route r \<Longrightarrow> side_write (w_db w) (w_db (snd (handler r env w q)))"
  by (cases r) (simp_all add: account_route_def readers unchanged_db sign_in_side callback_side approve_side deny_side
      push_side key_side)

section \<open>The accounts\<close>

lemma get_update_local:
  assumes "\<And>x. lu_username (f x) = lu_username x"
  shows "getLocalUser (update_local n f d) u = (if n = u then map_option f (getLocalUser d u) else getLocalUser d u)"
proof -
  have "sql_get (\<lambda>x. lu_username x = u) (sql_update (\<lambda>x. lu_username x = n) f t) =
      (if n = u then map_option f (sql_get (\<lambda>x. lu_username x = u) t) else sql_get (\<lambda>x. lu_username x = u) t)" for t
    by (induction t) (auto simp: sql_update_def assms)
  then show ?thesis by (simp add: getLocalUser_def update_local_def)
qed

lemma password_write: "web_pk d \<Longrightarrow> web_pk (write_password h b u d)"
  unfolding write_password_def by (rule update_local_pk) simp_all

lemma set_password_pk: "web_pk d \<Longrightarrow> web_pk (snd (setLocalPassword pw d u c n))"
  by (simp add: setLocalPassword_def password_write split: password_change.split)

lemma account_routes_pk:
  assumes "web_pk (w_db w)"
  shows "web_pk (w_db (snd (post_password env w q)))" "web_pk (w_db (snd (post_users env w q)))"
    "web_pk (w_db (snd (setDeactivated b env w q)))" "web_pk (w_db (snd (post_reissue env w q)))"
proof -
  have "web_pk d" if "setLocalPassword pw (w_db w) u c n = (x, d)" for pw u c n x d
    using set_password_pk [OF assms, of pw u c n] that by simp
  then show "web_pk (w_db (snd (post_password env w q)))"
    using assms by (auto simp: post_password_def split: option.split prod.split password_change.split)
  show "web_pk (w_db (snd (post_users env w q)))"
    using assms admit_local_user_pk by (fastforce simp: post_users_def split: option.split sum.split prod.split)
  have "web_pk d" if "setLocalUserDisabled t (w_db w) u b = (x, d)" for t u x d
    using set_disabled_pk [OF assms, of t u b] that by simp
  then show "web_pk (w_db (snd (setDeactivated b env w q)))"
    using assms by (auto simp: setDeactivated_def Let_def split: sum.split prod.split bool.split)
  show "web_pk (w_db (snd (post_reissue env w q)))"
    using assms by (auto simp: post_reissue_def issueTemporaryPassword_def Let_def password_write
        split: sum.split prod.split option.split)
qed

lemma handler_pk: "web_pk (w_db w) \<Longrightarrow> web_pk (w_db (snd (handler r env w q)))"
proof (cases "account_route r")
  case True
  moreover assume "web_pk (w_db w)"
  ultimately show ?thesis using account_routes_pk by (auto simp: account_route_def)
next
  case False
  moreover assume "web_pk (w_db w)"
  ultimately show ?thesis using handler_side [of r w env q] by (simp add: side_write_def)
qed

end
