(* ===== verification/Web_Console_Runs.thy ===== *)
theory Web_Console_Runs
  imports Web_Console_Facts
begin

text \<open>
  The web server over every run of its events: the start, the requests, the frames and the silence of the hub, the
  streams and the poller. The tables keep their keys, and an account that is deactivated stays out until somebody
  who may admit people reactivates it.
\<close>

section \<open>What the other events do to the web database\<close>

lemma push_sse_db [simp]: "w_db (broadcastAuditMessage m w) = w_db w"
  by (rule broadcast_keeps)

lemma failed_side: "side_write d (markSendFailed i d)"
  by (simp add: markSendFailed_def side_status)

lemma message_sent_side: "side_write (w_db w) (w_db (snd (message_sent env m ok w)))"
  by (simp add: message_sent_def Let_def failed_side)

lemma store_side: "store_message m st d = Some d' \<Longrightarrow> side_write d d'"
  by (auto simp: store_message_def dest: side_message split: option.splits)

lemma hand_over_db [simp]: "w_db (hand_over env m c w) = w_db w"
  by (simp add: hand_over_def)

lemma post_messages_side: "side_write (w_db w) (w_db (snd (post_messages env w q)))"
proof -
  have "side_write (w_db w) (w_db w1)"
    if "store_message m st (w_db w) = Some d" "message_sent env m ok (w\<lparr>w_db := d\<rparr>) = (a, w1)" for m st d ok a w1
    using store_side [OF that(1)] message_sent_side [of "w\<lparr>w_db := d\<rparr>" env m ok] that(2) by (auto intro: side_trans)
  then show ?thesis
    by (auto simp: post_messages_def dest: store_side split: option.split sum.split prod.split)
qed

lemma settle_side: "side_write (w_db w) (w_db (settle_send env ok p w))"
  using message_sent_side [of w env "sd_msg p" ok] by (simp add: settle_send_def split: prod.split) (metis snd_conv)

lemma settle_all_side: "side_write (w_db w) (w_db (foldl (\<lambda>x p. settle_send env ok p x) w ps))"
proof (induction ps arbitrary: w)
  case (Cons p ps)
  then show ?case using side_trans [OF settle_side Cons [of "settle_send env ok p w"]] by simp
qed simp

lemma timed_out_side: "side_write (w_db w) (w_db (send_timed_out env h w))"
proof (cases "sql_get (\<lambda>p. sd_handle p = h) (w_sends w)")
  case (Some p)
  then show ?thesis
    using settle_side [of "w\<lparr>w_sends := sql_delete (\<lambda>p. sd_handle p = h) (w_sends w)\<rparr>" env False p]
    by (simp add: send_timed_out_def)
qed (simp add: send_timed_out_def)

lemma mesh_message_side: "side_write (w_db w) (w_db (on_mesh_message env d w))"
  by (auto simp: on_mesh_message_def Let_def dest: side_message split: option.split)

lemma hub_frame_side: "side_write (w_db w) (w_db (hub_frame env raw w))"
proof (cases "json_parse raw")
  case (Some data)
  define w1 where "w1 = (if jget data ''method'' = Some (JStr ''mesh.message'') \<and> truthy (jget data ''params'')
    then on_mesh_message env (the (jget data ''params'')) w else w)"
  define w2 where "w2 = (if jget data ''method'' = Some (JStr ''mesh.delivered'') \<and> truthy (jget data ''params'')
    then on_mesh_delivered (the (jget data ''params'')) w1 else w1)"
  have "side_write (w_db w) (w_db w1)" by (simp add: w1_def mesh_message_side)
  also have "w_db w1 = w_db w2" by (simp add: w2_def)
  also have "side_write (w_db w2) (w_db (on_answer env data w2))"
    using settle_all_side [of "w2\<lparr>w_sends := sql_delete (answered_by (w_link w2) data) (w_sends w2)\<rparr>"]
    by (simp add: on_answer_def Let_def)
  also have "on_answer env data w2 = hub_frame env raw w"
    by (simp add: hub_frame_def Some w1_def w2_def Let_def)
  finally show ?thesis .
qed (simp add: hub_frame_def)

lemma opened_db [simp]: "w_db (hub_opened env w) = w_db w"
proof -
  have "w_db (provisionAllHumans ids x) = w_db x" for ids x using same_stores [OF provision_stores(2)] by simp
  then show ?thesis by (simp add: hub_opened_def Let_def)
qed

lemma poller_db [simp]: "w_db (auditPollerPass w) = w_db w"
proof -
  have "w_db (foldl poll_one w ms) = w_db w" for ms
    by (induction ms arbitrary: w) (simp_all add: poll_one_def)
  then show ?thesis by (simp add: auditPollerPass_def)
qed

lemma streams_db [simp]: "w_db (removeSSEClient a l s w) = w_db w" "w_db (removeAuditSseClient s w) = w_db w"
  by (simp_all add: removeSSEClient_def removeAuditSseClient_def)

lemma push_failed_side: "side_write (w_db w) (w_db (push_failed e st w))"
  by (simp add: push_failed_def side_push)

section \<open>The start\<close>

lemma admit_each_side: "side_write d (snd (admit_each t m ids d))"
proof (induction ids arbitrary: d)
  case (Cons i ids)
  have "side_write d (snd (admit_each t m ids d1))" if "admitApprovedIdentity t m i d = (b, d1)" for b d1
    using admit_identity_side [of d t m i] that Cons [of d1] by (auto intro: side_trans)
  then show ?case using Cons [of d] by (auto split: prod.split)
qed simp

lemma seed_grants_db [simp]: "w_db (seedLegacyAdminGrants env w) = w_db w"
  by (simp add: seedLegacyAdminGrants_def)

lemma admit_boot_side: "side_write (w_db w) (w_db (admitApprovedIdentitiesOnBoot env w))"
  by (simp add: admitApprovedIdentitiesOnBoot_def admitApprovedIdentities_def admit_each_side)

lemma redeclare_db [simp]: "w_db (redeclareProxies env w) = w_db w"
  using same_stores [OF redeclare_stores] by simp

lemma poller_start_db [simp]: "w_db (auditPollerStartingPoint w) = w_db w"
  by (simp add: auditPollerStartingPoint_def)

lemma startup_side:
  "side_write (seedLocalUsers (we_passwords env) (web_secs env) (w_db (renameSeededAdmin w))) (w_db (startup env w))"
proof -
  let ?d = "seedLocalUsers (we_passwords env) (web_secs env) (w_db (renameSeededAdmin w))"
  have "side_write ?d (w_db (admitApprovedIdentitiesOnBoot env (seedLegacyAdminGrants env ((renameSeededAdmin w)\<lparr>w_db := ?d\<rparr>))))"
    using admit_boot_side [of "seedLegacyAdminGrants env ((renameSeededAdmin w)\<lparr>w_db := ?d\<rparr>)" env] by simp
  then show ?thesis by (simp add: startup_def Let_def)
qed

text \<open>The local half of a rename.\<close>

lemma move_local_pk: "web_pk d \<Longrightarrow> move_local old new done r d = Some d' \<Longrightarrow> web_pk d'"
  by (auto simp: move_local_def Let_def split: if_splits)

lemma move_all_local_pk: "web_pk d \<Longrightarrow> move_all_local old new done rs d = Some d' \<Longrightarrow> web_pk d'"
  by (induction rs arbitrary: d) (auto split: option.splits dest: move_local_pk)

lemma rename_cases:
  assumes "renameLocalAccount old new d m = (x, d', m')"
  shows "d' = d \<or> (\<exists>done. move_all_local old new done LOCAL_REFERENCES d = Some d')"
  using assms by (auto simp: renameLocalAccount_def Let_def split: if_splits option.splits)

lemma rename_seeded_db:
  "w_db (renameSeededAdmin w) = w_db w \<or>
   (\<exists>done. move_all_local LEGACY_SEED_ADMIN_USERNAME SEED_ADMIN_USERNAME done LOCAL_REFERENCES (w_db w) = Some (w_db (renameSeededAdmin w)))"
  by (auto simp: renameSeededAdmin_def dest: rename_cases split: option.split prod.split)

lemma startup_pk: "web_pk (w_db w) \<Longrightarrow> web_pk (w_db (startup env w))"
proof -
  assume pk: "web_pk (w_db w)"
  then have "web_pk (w_db (renameSeededAdmin w))" using rename_seeded_db [of w] move_all_local_pk by auto
  then show ?thesis using startup_side [of env w] by (simp add: side_write_def seed_local_users_pk)
qed

section \<open>The tables keep their keys\<close>

lemma console_db: "w_db (snd (console r env w q)) = w_db w \<or> w_db (snd (console r env w q)) = w_db (snd (handler r env w q))"
  by (simp add: console_def split: option.split)

lemma send_db: "w_db (snd (messages_route env w q)) = w_db w \<or> w_db (snd (messages_route env w q)) = w_db (snd (post_messages env w q))"
  by (simp add: messages_route_def split: option.split)

lemma side_pk: "side_write d d' \<Longrightarrow> web_pk d \<Longrightarrow> web_pk d'"
  by (simp add: side_write_def)

lemma web_step_pk: "web_pk (w_db w) \<Longrightarrow> web_pk (w_db (web_step w e))"
proof (cases e)
  case (Request r env q)
  moreover assume "web_pk (w_db w)"
  ultimately show ?thesis using console_db [of r env w q] handler_pk [of w r env q] by auto
next
  case (Message env q)
  moreover assume "web_pk (w_db w)"
  ultimately show ?thesis using send_db [of env w q] side_pk [OF post_messages_side] by auto
qed (simp_all add: startup_pk side_pk [OF hub_frame_side] side_pk [OF timed_out_side] side_pk [OF push_failed_side])

interpretation console: machine web_step "\<lambda>w. web_pk (w_db w)"
  by unfold_locales (rule web_step_pk)


section \<open>Deactivated accounts\<close>

lemma disabled_side: "side_write d d' \<Longrightarrow> localUserIsDisabled d' u = localUserIsDisabled d u"
  by (simp add: side_write_def localUserIsDisabled_def getLocalUser_def)

lemma lockout_survives_password: "localUserIsDisabled (write_password h b n d) u = localUserIsDisabled d u"
  by (simp add: write_password_def localUserIsDisabled_def get_update_local split: option.split)

lemma disabled_kept_insert:
  "insert_local_user t d n h ds r tn fl = Some d' \<Longrightarrow> localUserIsDisabled d u \<Longrightarrow> localUserIsDisabled d' u"
  by (auto simp: insert_local_user_def localUserIsDisabled_def getLocalUser_def sql_get_append split: if_splits option.splits)

lemma disabled_kept_admit:
  "admitLocalUser pw t d n ds tn r = Some (a, p, d') \<Longrightarrow> localUserIsDisabled d u \<Longrightarrow> localUserIsDisabled d' u"
  by (auto simp: admitLocalUser_def Let_def disabled_side [OF side_registry(1)] dest: disabled_kept_insert split: option.splits)

lemma disabled_set:
  "setLocalUserDisabled t d n b = (x, d') \<Longrightarrow> localUserIsDisabled d u \<Longrightarrow> b \<or> n \<noteq> u \<Longrightarrow> localUserIsDisabled d' u"
proof -
  assume a: "setLocalUserDisabled t d n b = (x, d')" "localUserIsDisabled d u" "b \<or> n \<noteq> u"
  have "getLocalUser (y\<lparr>wb_registry := rs\<rparr>) u = getLocalUser y u" for y rs by (simp add: getLocalUser_def)
  then show ?thesis
    using a by (auto simp: setLocalUserDisabled_def localUserIsDisabled_def get_update_local split: if_splits option.splits)
qed

lemma handler_disabled:
  assumes "localUserIsDisabled (w_db w) u" "\<not> (r = Reactivate \<and> wq_param q ''username'' = u)"
  shows "localUserIsDisabled (w_db (snd (handler r env w q))) u"
proof (cases "account_route r")
  case False
  then show ?thesis using assms(1) disabled_side [OF handler_side] by simp
next
  case True
  have pw: "localUserIsDisabled (w_db (snd (post_password env w q))) u"
    using assms(1)
    by (auto simp: post_password_def setLocalPassword_def lockout_survives_password
        split: option.split prod.split password_change.splits)
  have us: "localUserIsDisabled (w_db (snd (post_users env w q))) u"
    using assms(1) by (auto simp: post_users_def dest: disabled_kept_admit split: option.split sum.split prod.split)
  have de: "localUserIsDisabled (w_db (snd (setDeactivated b env w q))) u" if "b \<or> wq_param q ''username'' \<noteq> u" for b
    using assms(1) that
    by (auto simp: setDeactivated_def Let_def dest: disabled_set split: sum.split prod.split bool.split)
  have re: "localUserIsDisabled (w_db (snd (post_reissue env w q))) u"
    using assms(1) by (auto simp: post_reissue_def issueTemporaryPassword_def Let_def lockout_survives_password
        split: sum.split prod.split option.split)
  from True have "r = ChangePassword \<or> r = CreateUser \<or> r = Deactivate \<or> r = Reactivate \<or> r = Reissue"
    by (simp add: account_route_def)
  then show ?thesis using pw us re de [of True] de [of False] assms(2) by (elim disjE) simp_all
qed

lemma local_update_get:
  assumes "u \<noteq> old" "u \<noteq> new"
  shows "getLocalUser (local_update old new r d) u = getLocalUser d u"
proof -
  have "sql_get (\<lambda>x. lu_username x = u) (sql_update (\<lambda>x. lu_username x = old) (\<lambda>x. x\<lparr>lu_username := new\<rparr>) t) =
      sql_get (\<lambda>x. lu_username x = u) t" for t
    using assms by (induction t) (auto simp: sql_update_def)
  then show ?thesis by (cases r) (simp_all add: getLocalUser_def)
qed

lemma move_all_local_get:
  "u \<noteq> old \<Longrightarrow> u \<noteq> new \<Longrightarrow> move_all_local old new done rs d = Some d' \<Longrightarrow> getLocalUser d' u = getLocalUser d u"
proof (induction rs arbitrary: d)
  case (Cons r rs)
  then obtain d1 where d1: "move_local old new done r d = Some d1" "move_all_local old new done rs d1 = Some d'"
    by (auto split: option.splits)
  have "getLocalUser d1 u = getLocalUser d u"
    using d1(1) Cons.prems(1,2) by (auto simp: move_local_def Let_def local_update_get split: if_splits)
  with Cons d1 show ?case by simp
qed simp

lemma startup_disabled:
  assumes "localUserIsDisabled (w_db w) u" "u \<noteq> LEGACY_SEED_ADMIN_USERNAME" "u \<noteq> SEED_ADMIN_USERNAME"
  shows "localUserIsDisabled (w_db (startup env w)) u"
proof -
  let ?d = "w_db (renameSeededAdmin w)"
  have d: "localUserIsDisabled ?d u"
    using rename_seeded_db [of w] move_all_local_get [OF assms(2,3)] assms(1) by (auto simp: localUserIsDisabled_def)
  then have "wb_local ?d \<noteq> []" by (auto simp: localUserIsDisabled_def getLocalUser_def)
  then have seeded: "localUserIsDisabled (seed_account pw t ?d) u" for pw t
    using d by (auto simp: seed_account_def Let_def flag_account_def localUserIsDisabled_def get_update_local split: option.splits)
  have people: "side_write x (foldl (upsertApprovedWebUser t) x us)" for x t us
  proof (induction us arbitrary: x)
    case (Cons i us)
    then show ?case using side_trans [OF side_registry(1) Cons [of "upsertApprovedWebUser t x i"]] by simp
  qed simp
  then have "localUserIsDisabled (seedLocalUsers pw t ?d) u" for pw t
    using seeded by (simp add: seedLocalUsers_def Let_def disabled_side [OF people])
  then show ?thesis using disabled_side [OF startup_side [of env w]] by simp
qed

text \<open>The event that lifts a deactivation: a request to the route that reactivates the account.\<close>

definition reactivates :: "string \<Rightarrow> web_event \<Rightarrow> bool" where
  "reactivates u e \<longleftrightarrow> (case e of Request r env q \<Rightarrow> r = Reactivate \<and> wq_param q ''username'' = u | _ \<Rightarrow> False)"

lemma web_step_disabled:
  assumes "localUserIsDisabled (w_db w) u" "u \<noteq> LEGACY_SEED_ADMIN_USERNAME" "u \<noteq> SEED_ADMIN_USERNAME" "\<not> reactivates u e"
  shows "localUserIsDisabled (w_db (web_step w e)) u"
proof (cases e)
  case (Request r env q)
  then have "localUserIsDisabled (w_db (snd (handler r env w q))) u"
    using assms(1,4) handler_disabled [of w u r q env] by (simp add: reactivates_def)
  then show ?thesis using Request console_db [of r env w q] assms(1) by auto
next
  case (Message env q)
  then show ?thesis using send_db [of env w q] disabled_side [OF post_messages_side] assms(1) by auto
qed (use assms startup_disabled disabled_side [OF hub_frame_side] disabled_side [OF timed_out_side]
    disabled_side [OF push_failed_side] in simp_all)

lemma disabled_sign_in:
  assumes "localUserIsDisabled (w_db w) u" "sql_bind (jget (sign_in_body q) ''username'') = Some (Some u)"
  shows "an_cookie (fst (post_auth_local env w q)) = None \<and> snd (post_auth_local env w q) = w"
  using assms
  by (auto simp: post_auth_local_def Let_def sign_in_failure_def c_fail_def c_json_def c_redirect_def answerUnhandled_def
      c_error_def split: option.split json.split)

text \<open>
  C4: an account that is deactivated stays locked out. As long as nobody sends the request that reactivates it, which takes
  the capability to admit people, no event of the process lifts the deactivation, a restart included; every request
  that carries a token of the account is one without a session, however long the token still runs; and signing in is
  refused, the right password included. The two seeded names cannot be deactivated and are apart.
\<close>

theorem deactivated_account_is_locked_out:
  assumes "localUserIsDisabled (w_db w) u" "u \<noteq> LEGACY_SEED_ADMIN_USERNAME" "u \<noteq> SEED_ADMIN_USERNAME"
    and "\<forall>e\<in>set events. \<not> reactivates u e" "w' = foldl web_step w events"
  shows "localUserIsDisabled (w_db w') u \<and>
    (\<forall>env q p. extractJwt env w' q = Some p \<longrightarrow> jp_github_login p \<noteq> u) \<and>
    (\<forall>env q. sql_bind (jget (sign_in_body q) ''username'') = Some (Some u) \<longrightarrow>
       an_cookie (fst (post_auth_local env w' q)) = None \<and> snd (post_auth_local env w' q) = w')"
proof -
  have "localUserIsDisabled (w_db (foldl web_step w es)) u" if "set es \<subseteq> set events" for es
    using that
  proof (induction es rule: rev_induct)
    case (snoc e es)
    then show ?case using web_step_disabled [of "foldl web_step w es" u e] assms(2-4) by auto
  qed (simp add: assms(1))
  then have "localUserIsDisabled (w_db w') u" using assms(5) by simp
  then show ?thesis using session_not_disabled disabled_sign_in by blast
qed

text \<open>A server with one account, deactivated.\<close>

definition shut_account :: local_user where
  "shut_account = \<lparr>lu_id = 1, lu_username = ''kim'', lu_password_hash = ''h'', lu_display_name = None, lu_role = ''member'',
     lu_created_at = 0, lu_must_change_password = False, lu_tenant = ''default'', lu_disabled_at = Some 1\<rparr>"

definition shut_web :: web where
  "shut_web = fresh_web (web_db_init\<lparr>wb_local := [shut_account]\<rparr>) (agents_db_init 0)"

theorem deactivated_account_is_locked_out_witness:
  "extractJwt person_env (foldl web_step shut_web [Boot person_env, Request Users person_env (request_of ''kim'' [])])
     (request_of ''kim'' []) = None"
proof -
  let ?es = "[Boot person_env, Request Users person_env (request_of ''kim'' [])]"
  have d: "localUserIsDisabled (w_db shut_web) ''kim''"
    by (simp add: localUserIsDisabled_def getLocalUser_def shut_web_def fresh_web_def shut_account_def)
  have n: "''kim'' \<noteq> LEGACY_SEED_ADMIN_USERNAME" "''kim'' \<noteq> SEED_ADMIN_USERNAME"
    by (simp_all add: LEGACY_SEED_ADMIN_USERNAME_def SEED_ADMIN_USERNAME_def)
  have e: "\<forall>e\<in>set ?es. \<not> reactivates ''kim'' e" by (simp add: reactivates_def)
  let ?x = "extractJwt person_env (foldl web_step shut_web ?es) (request_of ''kim'' [])"
  have own: "jp_github_login p = ''kim''" if "extractJwt person_env w (request_of ''kim'' []) = Some p" for w p
    using that by (auto simp: extractJwt_def session_of_token_def person_env_def request_of_def person_def
        split: if_splits)
  have out: "jp_github_login p \<noteq> ''kim''" if "?x = Some p" for p
    using deactivated_account_is_locked_out [OF d n e refl] that by blast
  show ?thesis
  proof (cases "?x")
    case (Some p)
    from own [OF Some] out [OF Some] show ?thesis by blast
  qed
qed

end
