(* ===== verification/Web_Console_Grants.thy ===== *)
theory Web_Console_Grants
  imports Web_Console_Facts
begin

text \<open>
  Who can grant: which requests touch the grants, that a revocation never takes the last one who can grant, and two
  ways past the capabilities: a temporary password for an administrator's account, and a GitHub account whose login is
  the name of a local administrator.
\<close>

section \<open>Who can grant\<close>

lemma key_grants [simp]: "db_grants (appendEvent t u m i fp a r actor) = db_grants m" "db_grants (decideKey t m fp st actor) = db_grants m"
  by (simp_all add: appendEvent_def decideKey_def)

lemma decision_grants:
  "approveKey t u m fp actor = Inr (x, m') \<Longrightarrow> db_grants m' = db_grants m"
  "denyKey t u m fp actor r = Inr (x, m') \<Longrightarrow> db_grants m' = db_grants m"
  "revokeKey t u m fp actor why = Inr (x, m') \<Longrightarrow> db_grants m' = db_grants m"
  by (auto simp: approveKey_def denyKey_def revokeKey_def Let_def split: sum.splits option.splits)

lemma decided_grants:
  "(\<And>x m'. y = Inr (x, m') \<Longrightarrow> db_grants m' = db_grants (w_agents w)) \<Longrightarrow>
     db_grants (w_agents (snd (decided w y))) = db_grants (w_agents w)"
  by (auto simp: decided_def split: sum.split option.split)

lemma key_route_grants: "db_grants (w_agents (snd (post_key_decision d env w q))) = db_grants (w_agents w)"
proof -
  have "db_grants (w_agents (snd (decide_key env d fp actor reason w))) = db_grants (w_agents w)" for fp actor reason
    using decided_grants [of "approveKey (web_secs env) (we_uuid env) (w_agents w) fp actor" w]
      decided_grants [of "denyKey (web_secs env) (we_uuid env) (w_agents w) fp actor reason" w]
      decided_grants [of "revokeKey (web_secs env) (we_uuid env) (w_agents w) fp actor (the reason)" w] decision_grants
    by (auto simp: decide_key_def Let_def split: key_decision.split prod.split sum.split option.split list.split)
  then show ?thesis by (auto simp: post_key_decision_def split: sum.split option.split)
qed

lemma teardown_grants: "teardownIdentity t u m i a = (r, m') \<Longrightarrow> db_grants m' = db_grants m"
  by (auto simp: teardownIdentity_def Let_def split: option.splits if_splits)

lemma teardown_route_grants: "db_grants (w_agents (snd (delete_agent env w q))) = db_grants (w_agents w)"
  by (auto simp: delete_agent_def teardownAs_def Let_def dest: teardown_grants split: sum.split option.split prod.split)

lemma redeem_grants: "redeem t m c cl ob = (r, m') \<Longrightarrow> db_grants m' = db_grants m"
  by (auto simp: redeem_def Let_def split: if_splits option.splits)

lemma redeem_route_grants: "db_grants (w_agents (snd (post_redeem env w q))) = db_grants (w_agents w)"
  by (auto simp: post_redeem_def dest: redeem_grants split: option.split prod.split redeem_outcome.split)

lemma issue_grants: "issueCode t dr m tn i b ttl = Inr (x, m') \<Longrightarrow> db_grants m' = db_grants m"
  by (auto simp: issueCode_def Let_def split: if_splits)

lemma pairing_grants: "db_grants (w_agents (snd (post_pairing_codes env w q))) = db_grants (w_agents w)"
  by (auto simp: post_pairing_codes_def dest: issue_grants split: sum.split option.split prod.split)

lemma proxy_grants: "db_grants (w_agents (snd (post_can_proxy env w q))) = db_grants (w_agents w)"
  by (auto simp: post_can_proxy_def set_can_proxy_def Let_def split: sum.split option.split json.split)

lemma group_grants:
  "db_grants (w_agents (snd (post_groups env w q))) = db_grants (w_agents w)"
  "db_grants (w_agents (snd (post_group_members env w q))) = db_grants (w_agents w)"
  "db_grants (w_agents (snd (post_group_egress env w q))) = db_grants (w_agents w)"
  "db_grants (w_agents (snd (delete_group_egress env w q))) = db_grants (w_agents w)"
  by (auto simp: post_groups_def post_group_members_def post_group_egress_def delete_group_egress_def createGroup_def
      moveTo_def allowEgress_def revokeEgress_def Let_def split: sum.split option.split)

lemma type_store_grants: "addType t m ty ds k = (x, m') \<Longrightarrow> db_grants m' = db_grants m" "removeType m ty = (y, m') \<Longrightarrow> db_grants m' = db_grants m"
  by (auto simp: addType_def removeType_def Let_def split: if_splits)

lemma type_grants:
  "db_grants (w_agents (snd (post_agent_types env w q))) = db_grants (w_agents w)"
  "db_grants (w_agents (snd (delete_agent_type env w q))) = db_grants (w_agents w)"
  by (auto simp: post_agent_types_def delete_agent_type_def Let_def dest: type_store_grants
      split: sum.split option.split prod.split)

lemma tenant_store_grants:
  "createTenant t m i n = (b, m') \<Longrightarrow> db_grants m' = db_grants m" "renameTenant m i n = (b, m') \<Longrightarrow> db_grants m' = db_grants m"
  "db_grants (snd (deleteTenant t m i)) = db_grants m"
  by (auto simp: createTenant_def renameTenant_def deleteTenant_def Let_def)

lemma tenant_grants:
  "db_grants (w_agents (snd (post_tenants env w q))) = db_grants (w_agents w)"
  "db_grants (w_agents (snd (patch_tenant env w q))) = db_grants (w_agents w)"
  "db_grants (w_agents (snd (delete_tenant env w q))) = db_grants (w_agents w)"
  by (auto simp: post_tenants_def patch_tenant_def delete_tenant_def Let_def tenant_store_grants(3) dest: tenant_store_grants(1,2)
      split: sum.split option.split prod.split bool.split)

lemma account_agents:
  "w_agents (snd (post_auth_local env w q)) = w_agents w" "w_agents (snd (get_github_callback env w q)) = w_agents w"
  "w_agents (snd (post_password env w q)) = w_agents w" "w_agents (snd (post_deny env w q)) = w_agents w"
  "w_agents (snd (post_users env w q)) = w_agents w" "w_agents (snd (setDeactivated b env w q)) = w_agents w"
  "w_agents (snd (post_reissue env w q)) = w_agents w" "w_agents (snd (post_subscribe env w q)) = w_agents w"
  "w_agents (snd (post_unsubscribe env w q)) = w_agents w" "w_agents (snd (post_overdue env w q)) = w_agents w"
  by (auto simp: post_auth_local_def get_github_callback_def ask_for_approval_def notifyApprovalRequest_def post_password_def
      post_deny_def post_users_def setDeactivated_def post_reissue_def post_subscribe_def post_unsubscribe_def post_overdue_def
      Let_def split: sum.split option.split prod.split list.split json.split login_field.split bool.split password_change.split)

lemma approve_agents: "w_agents (snd (post_approve env w q)) = w_agents w"
proof -
  have "w_agents (redeclareProxies env (provisionHuman l x)) = w_agents x" for l x
    using same_stores [of "redeclareProxies env (provisionHuman l x)" x] by simp
  then show ?thesis
    by (auto simp: post_approve_def Let_def split: sum.split option.split prod.split login_field.split bool.split)
qed

lemma audit_agents:
  "w_agents (snd (get_audit_events env w q)) = w_agents w" "w_agents (snd (get_audit_event env w q)) = w_agents w"
  "w_agents (snd (get_chat_audits env w q)) = w_agents w" "w_agents (snd (get_chat_audits_stream n h env w q)) = w_agents w"
  "w_agents (snd (get_events n env w q)) = w_agents w"
  using same_stores [OF events_stores]
  by (auto simp: get_audit_events_def get_audit_event_def get_chat_audits_def get_chat_audits_stream_def Let_def
      dest: log_keeps split: sum.split option.split)

lemmas same_grants = key_route_grants teardown_route_grants redeem_route_grants pairing_grants proxy_grants group_grants type_grants
  tenant_grants

lemma handler_grants:
  "r \<noteq> GrantCapability \<Longrightarrow> r \<noteq> RevokeCapability \<Longrightarrow> db_grants (w_agents (snd (handler r env w q))) = db_grants (w_agents w)"
  by (cases r) (simp_all add: readers same_grants account_agents approve_agents audit_agents)

definition somebody_can_grant :: "string \<Rightarrow> string \<Rightarrow> agents_db \<Rightarrow> bool" where
  "somebody_can_grant wide rg m \<longleftrightarrow> (\<exists>s. (DEFAULT_TENANT, s, rg, wide) \<in> grants_rel m)"

lemma grants_rel_cong: "db_grants m' = db_grants m \<Longrightarrow> grants_rel m' = grants_rel m"
  by (simp add: grants_rel_def)

lemma subjectsWith_rel: "(s, sc) \<in> set (subjectsWith m c tn) \<longleftrightarrow> (tn, s, c, sc) \<in> grants_rel m"
  by (auto simp: subjectsWith_def grants_rel_def order_asc_def sql_simps intro!: rev_image_eqI)

lemma int_text_star: "int_text i \<noteq> ''*''"
proof
  assume "int_text i = ''*''"
  then have "parseInt ''*'' = Some i" using parseInt_text [of i] by simp
  then show False by (simp add: parseInt_def js_space_def parse_digits_def is_digit_def digit_of_def)
qed

text \<open>The scope of a revocation, as the rule reads it and as it is bound: a number is not written as a star.\<close>

definition plain_scope :: "web_request \<Rightarrow> bool" where
  "plain_scope q \<longleftrightarrow> (\<forall>body. json_parse (wq_text q) = Some body \<longrightarrow> jget body ''scope'' \<noteq> Some (JReal ''*''))"

lemma wide_scope:
  assumes "sql_bind x = Some sc" "coalesce sc ''*'' = ''*''" "x \<noteq> Some (JReal ''*'')"
  shows "or_else x (JStr ''*'') = JStr ''*''"
  using assms int_text_star by (cases x) (auto simp: or_else_def split: if_splits elim!: sql_bind.elims)

lemma grant_route_grants: "grants_rel (w_agents w) \<subseteq> grants_rel (w_agents (snd (post_grants env w q)))"
  by (auto simp: post_grants_def Let_def dest!: grants_rel_grant split: sum.split option.split json.split)

text \<open>A revocation that is carried out.\<close>

definition revocable :: "web_env \<Rightarrow> web \<Rightarrow> json \<Rightarrow> string \<Rightarrow> string \<Rightarrow> bool" where
  "revocable env w body subject cap \<longleftrightarrow>
     subject \<notin> set (protectedSubjects (w_db w)) \<and>
     (cap = we_cap env ROLE_GRANT \<longrightarrow>
        \<not> revokeStrandsTheTenant (we_wide env) (subjectsWith (w_agents w) cap DEFAULT_TENANT) subject
            (or_else (jget body ''scope'') (JStr (we_wide env))))"

lemma revoke_route_cases:
  obtains (same) "w_agents (snd (delete_grants env w q)) = w_agents w"
  | (revoked) body subject cap sc where "json_parse (wq_text q) = Some body" "revocable env w body subject cap"
      "sql_bind (jget body ''scope'') = Some sc"
      "w_agents (snd (delete_grants env w q)) = snd (revoke_cap (we_wide env) (w_agents w) None subject cap sc)"
proof (cases "requireCapability env w q ROLE_GRANT (we_wide env)")
  case (Inl a)
  then show thesis using same by (simp add: delete_grants_def)
next
  case cap: (Inr actor)
  show thesis
  proof (cases "json_parse (wq_text q)")
    case None
    then show thesis using same cap by (simp add: delete_grants_def)
  next
    case body: (Some body)
    show thesis
    proof (cases "as_string (jget body ''subject'') = None \<or> as_string (jget body ''capability'') = None")
      case True
      then show thesis using same cap body by (auto simp: delete_grants_def Let_def split: option.splits)
    next
      case False
      then obtain s c where sc: "as_string (jget body ''subject'') = Some s" "as_string (jget body ''capability'') = Some c"
        by auto
      note route = delete_grants_def cap body sc Let_def
      show thesis
      proof (cases "revocable env w body s c \<and> sql_bind (jget body ''scope'') \<noteq> None")
        case True
        then obtain x where x: "sql_bind (jget body ''scope'') = Some x" by auto
        have "w_agents (snd (delete_grants env w q)) = snd (revoke_cap (we_wide env) (w_agents w) None s c x)"
          using True x by (auto simp: route revocable_def split: prod.split)
        then show thesis using revoked body True x by blast
      next
        case False
        then have "w_agents (snd (delete_grants env w q)) = w_agents w"
          by (auto simp: route revocable_def split: option.split)
        then show thesis by (rule same)
      qed
    qed
  qed
qed

lemma revoke_keeps_a_grantor:
  assumes wide: "we_wide env = ''*''" and plain: "plain_scope q"
    and grantor: "somebody_can_grant ''*'' (we_cap env ROLE_GRANT) (w_agents w)"
  shows "somebody_can_grant ''*'' (we_cap env ROLE_GRANT) (w_agents (snd (delete_grants env w q)))"
proof (cases rule: revoke_route_cases [of env w q])
  case same
  then show ?thesis using grantor by simp
next
  case (revoked body subject cap sc)
  let ?rg = "we_cap env ROLE_GRANT"
  have rel: "grants_rel (w_agents (snd (delete_grants env w q))) =
      grants_rel (w_agents w) - {(DEFAULT_TENANT, subject, cap, coalesce sc ''*'')}"
    using revoked(4) wide grants_rel_revoke [of "''*''" "w_agents w" None subject cap sc] by simp
  show ?thesis
  proof (cases "cap = ?rg")
    case True
    then have "\<not> revokeStrandsTheTenant ''*'' (subjectsWith (w_agents w) ?rg DEFAULT_TENANT) subject
            (or_else (jget body ''scope'') (JStr ''*''))"
      using revoked(2) wide by (simp add: revocable_def)
    then obtain s where s: "(s, ''*'') \<in> set (subjectsWith (w_agents w) ?rg DEFAULT_TENANT)"
        "\<not> (s = subject \<and> JStr ''*'' = or_else (jget body ''scope'') (JStr ''*''))"
      by (auto simp: revokeStrandsTheTenant_def list_ex_iff)
    have "jget body ''scope'' \<noteq> Some (JReal ''*'')" using plain revoked(1) by (simp add: plain_scope_def)
    then have "\<not> (s = subject \<and> coalesce sc ''*'' = ''*'')"
      using s(2) wide_scope [OF revoked(3)] by metis
    then have "(DEFAULT_TENANT, s, ?rg, ''*'') \<in> grants_rel (w_agents (snd (delete_grants env w q)))"
      using s(1) unfolding rel subjectsWith_rel by auto
    then show ?thesis unfolding somebody_can_grant_def by blast
  next
    case False
    then show ?thesis using grantor unfolding somebody_can_grant_def rel by blast
  qed
qed

lemma revoke_keeps_protected:
  assumes "s \<in> set (protectedSubjects (w_db w))" "(tn, s, c, sc) \<in> grants_rel (w_agents w)"
  shows "(tn, s, c, sc) \<in> grants_rel (w_agents (snd (delete_grants env w q)))"
proof (cases rule: revoke_route_cases [of env w q])
  case (revoked body subject cap x)
  then have "subject \<noteq> s" using assms(1) by (auto simp: revocable_def)
  then show ?thesis using assms(2) by (simp add: revoked(4) grants_rel_revoke)
qed (simp add: assms(2))

lemma console_agents:
  "w_agents (snd (console r env w q)) = w_agents w \<or> w_agents (snd (console r env w q)) = w_agents (snd (handler r env w q))"
  by (simp add: console_def split: option.split)

lemma handler_keeps_a_grantor:
  assumes "we_wide env = ''*''" "plain_scope q" "somebody_can_grant ''*'' (we_cap env ROLE_GRANT) (w_agents w)"
  shows "somebody_can_grant ''*'' (we_cap env ROLE_GRANT) (w_agents (snd (handler r env w q)))"
proof -
  consider "r = GrantCapability" | "r = RevokeCapability" | "r \<noteq> GrantCapability" "r \<noteq> RevokeCapability" by blast
  then show ?thesis
  proof cases
    case 1
    then show ?thesis using assms(3) grant_route_grants [of w env q] unfolding somebody_can_grant_def handler.simps 1 by blast
  next
    case 2
    then show ?thesis using revoke_keeps_a_grantor [OF assms] by simp
  next
    case 3
    then show ?thesis using grants_rel_cong [OF handler_grants] assms(3) unfolding somebody_can_grant_def by simp
  qed
qed

lemma handler_keeps_protected:
  assumes "s \<in> set (protectedSubjects (w_db w))" "(tn, s, c, sc) \<in> grants_rel (w_agents w)"
  shows "(tn, s, c, sc) \<in> grants_rel (w_agents (snd (handler r env w q)))"
proof -
  consider "r = GrantCapability" | "r = RevokeCapability" | "r \<noteq> GrantCapability" "r \<noteq> RevokeCapability" by blast
  then show ?thesis
  proof cases
    case 1
    then show ?thesis using assms(2) grant_route_grants [of w env q] unfolding handler.simps 1 by blast
  next
    case 2
    then show ?thesis using revoke_keeps_protected [OF assms] by simp
  next
    case 3
    then show ?thesis using grants_rel_cong [OF handler_grants] assms(2) by simp
  qed
qed

text \<open>A sequence of requests, each with its environment.\<close>

definition serve_all :: "web \<Rightarrow> (console_route \<times> web_env \<times> web_request) list \<Rightarrow> web" where
  "serve_all w reqs = foldl (\<lambda>x (r, env, q). snd (console r env x q)) w reqs"


text \<open>A server with one account, which may do everything that \<open>c\<close> names.\<close>

definition two_requests :: "(console_route \<times> web_env \<times> web_request) list" where
  "two_requests = [(RevokeCapability, person_env, request_of ''kim'' ''{}''), (Teardown, person_env, request_of ''kim'' [])]"


section \<open>Two ways past the capabilities\<close>

lemma sign_in_right:
  assumes "sign_in_body q = JObj [(''username'', JStr u), (''password'', JStr secret)]" "u \<noteq> []" "secret \<noteq> []"
    and "verifyLocalUser (we_passwords env) (w_db w) u secret = Some acc" "\<not> localUserIsDisabled (w_db w) u"
  shows "an_cookie (fst (post_auth_local env w q)) =
      Some (sessionCookie q (signJwt env (- lu_id acc) (lu_username acc) (lu_role acc)) THIRTY_DAYS) \<and>
    w_db (snd (post_auth_local env w q)) = signed_in_user (web_secs env) acc (w_db w)"
proof -
  have "jget (sign_in_body q) ''username'' = Some (JStr u)" "jget (sign_in_body q) ''password'' = Some (JStr secret)"
    by (simp_all add: assms(1))
  moreover have "getLocalUser (w_db w) u \<noteq> None" using assms(4) by (auto simp: verifyLocalUser_def split: option.splits)
  ultimately show ?thesis
    using assms(2-5) by (auto simp: post_auth_local_def Let_def holdSessionCookie_def)
qed

lemma local_admin: "u \<in> set (wb_local d) \<Longrightarrow> lu_role u = ''admin'' \<Longrightarrow> lu_username u \<in> set (administratorLogins d)"
  by (force simp: administratorLogins_def sql_where_def)

text \<open>
  C24: the capability to admit people is every account. Whoever holds it asks for a temporary password for any account that
  is not deactivated, the platform administrator's included, reads it in the answer and signs in as that account with
  its role. The rule that protects the seeded administrator from being deactivated is not asked.
\<close>

theorem whoever_admits_people_signs_in_as_anybody:
  assumes "extractJwt env w q = Some p" "flagged_refusal env w q = None"
    and "has_cap (we_wide env) (w_agents w) (jp_github_login p) (we_cap env USER_ADMIT) (we_wide env) DEFAULT_TENANT"
    and "wq_param q ''username'' = lu_username acc" "getLocalUser (w_db w) (lu_username acc) = Some acc"
    and "lu_disabled_at acc = None" "lu_username acc \<noteq> []"
    and "secret = pw_random (we_passwords env)" "secret \<noteq> []" "pw_verify (we_passwords env) secret (pw_hash (we_passwords env) secret)"
    and "sign_in_body q' = JObj [(''username'', JStr (lu_username acc)), (''password'', JStr secret)]"
    and "w1 = snd (console Reissue env w q)"
  shows "jget (an_body (fst (console Reissue env w q))) ''temporary_password'' = Some (JStr secret) \<and>
    an_cookie (fst (console SignIn env w1 q')) =
      Some (sessionCookie q' (signJwt env (- lu_id acc) (lu_username acc) (lu_role acc)) THIRTY_DAYS) \<and>
    (lu_role acc = ''admin'' \<longrightarrow> lu_username acc \<in> set (administratorLogins (w_db (snd (console SignIn env w1 q')))))"
proof -
  let ?u = "lu_username acc" and ?pw = "we_passwords env"
  let ?d = "write_password (pw_hash ?pw secret) True ?u (w_db w)"
  let ?acc = "acc\<lparr>lu_password_hash := pw_hash ?pw secret, lu_must_change_password := True\<rparr>"
  have cap: "requireCapability env w q USER_ADMIT (we_wide env) = Inr (jp_github_login p)"
    using assms(1,3) by (simp add: requireCapability_def)
  have issued: "issueTemporaryPassword ?pw (w_db w) ?u = (Some secret, ?d)"
    using assms(5,8) by (simp add: issueTemporaryPassword_def)
  have reissue: "console Reissue env w q = (c_json 200 (JObj [(''ok'', JBool True), (''username'', JStr ?u),
      (''temporary_password'', JStr secret), (''must_change_password'', JBool True)]), w\<lparr>w_db := ?d\<rparr>)"
    using assms(2,4) cap issued by (simp add: console_def post_reissue_def Let_def)
  have acc: "getLocalUser ?d ?u = Some ?acc"
    using assms(5) by (simp add: write_password_def get_update_local)
  have w1: "w1 = w\<lparr>w_db := ?d\<rparr>" by (simp add: assms(12) reissue)
  have ver: "verifyLocalUser ?pw (w_db w1) ?u secret = Some ?acc"
    using acc assms(10) by (simp add: verifyLocalUser_def w1)
  have up: "\<not> localUserIsDisabled (w_db w1) ?u" using acc assms(6) by (simp add: localUserIsDisabled_def w1)
  have sign: "console SignIn env w1 q' = post_auth_local env w1 q'" by (simp add: console_def)
  from sign_in_right [OF assms(11,7,9) ver up]
  have cookie: "an_cookie (fst (console SignIn env w1 q')) = Some (sessionCookie q' (signJwt env (- lu_id acc) ?u (lu_role acc)) THIRTY_DAYS)"
    and db: "w_db (snd (console SignIn env w1 q')) = signed_in_user (web_secs env) ?acc (w_db w1)"
    by (simp_all add: sign)
  have "wb_local (signed_in_user (web_secs env) ?acc (w_db w1)) = wb_local (w_db w1)"
    using side_sign_in by (simp add: side_write_def)
  moreover have "?acc \<in> set (wb_local (w_db w1))" using acc unfolding getLocalUser_def w1 by (auto dest: sql_get_SomeD)
  ultimately have "lu_role acc = ''admin'' \<longrightarrow> ?u \<in> set (administratorLogins (w_db (snd (console SignIn env w1 q'))))"
    using local_admin [of ?acc "signed_in_user (web_secs env) ?acc (w_db w1)"] by (simp add: db)
  then show ?thesis using cookie by (simp add: reissue c_json_def)
qed

definition take_over :: web_request where
  "take_over = (request_of ''kim'' [])\<lparr>wq_form := JObj [(''username'', JStr ''platform-admin''), (''password'', JStr ''tmp'')]\<rparr>"

theorem whoever_admits_people_signs_in_as_anybody_witness:
  "''platform-admin'' \<in> set (administratorLogins (w_db (snd (console SignIn boss_env
     (snd (console Reissue boss_env boss_web reissue_boss)) take_over))))"
proof -
  have acc: "wq_param reissue_boss ''username'' = lu_username boss" "getLocalUser (w_db boss_web) (lu_username boss) = Some boss"
      "lu_disabled_at boss = None" "lu_username boss \<noteq> []"
    by (simp_all add: boss_def boss_web_def fresh_web_def getLocalUser_def reissue_boss_def)
  have pw: "''tmp'' = pw_random (we_passwords boss_env)" "''tmp'' \<noteq> []"
      "pw_verify (we_passwords boss_env) ''tmp'' (pw_hash (we_passwords boss_env) ''tmp'')"
    by (simp_all add: boss_env_def)
  have body: "sign_in_body take_over = JObj [(''username'', JStr (lu_username boss)), (''password'', JStr ''tmp'')]"
    by (simp add: sign_in_body_def take_over_def request_of_def is_json_def has_text_def starts_with_def boss_def)
  from whoever_admits_people_signs_in_as_anybody [OF reissue_session reissue_gate reissue_cap acc pw body refl] show ?thesis
    by (simp add: boss_def)
qed

lemma session_of_cookie:
  assumes "wq_authorization q = None" "wq_cookie q = Some token" "token \<noteq> []" "we_verify env token = Some p"
    and "\<not> localUserIsDisabled (w_db w) (jp_github_login p)"
  shows "extractJwt env w q = Some p"
  using assms by (simp add: extractJwt_def session_of_token_def sessionIsRefused_def)

lemma upserted:
  "\<exists>user d'. upsertUser t d gid name = (Some user, d') \<and> wu_github_id user = gid \<and> wu_github_login user = name"
proof -
  have row: "\<exists>u. sql_get (\<lambda>x. wu_github_id x = gid) (sql_upsert wu_github_id
      \<lparr>wu_github_id = gid, wu_github_login = name, wu_role = r, wu_created_at = t\<rparr> (\<lambda>u. u\<lparr>wu_github_login := name\<rparr>) us) = Some u \<and>
      wu_github_id u = gid \<and> wu_github_login u = name" for r us
    by (auto simp: sql_get_upsert dest: sql_get_SomeD split: option.split)
  show ?thesis
    using row [of "''admin''" "wb_users d"] row [of "''member''" "wb_users d"]
    by (cases "wb_users d = []") (simp_all add: upsertUser_def Let_def put_user_def getUser_def wildcard_policy_def)
qed


definition stranger_env :: web_env where
  "stranger_env = boss_env\<lparr>we_exchange := (\<lambda>c. Inr c), we_github := (\<lambda>t. Inr (7, ''platform-admin'')),
     we_sign := (\<lambda>p. ''s''), we_verify := (\<lambda>t. Some (person ''platform-admin''))\<rparr>"

definition stranger :: web_request where
  "stranger = (request_of ''s'' [])\<lparr>wq_queries := [(''code'', ''x'')]\<rparr>"


end
