(* ===== verification/Tools_Orphans.thy ===== *)
theory Tools_Orphans
  imports Web_Files_Facts
begin

text \<open>
  The two maintenance commands that delete from the stores: \<open>scripts/collect-orphan-blobs.ts\<close>, which a timer runs
  over the directory of uploads and which sweeps the upload grants that have lapsed, and \<open>scripts/orphan-grants.ts\<close>,
  which removes grants whose subject is the name of nothing.

  The directory is the map of files of \<open>Web_Files\<close>; its listing, the times of the files and which of them cannot be
  unlinked are parameters. What a command prints is its report. A number on the command line is a decimal one.

  The lemmas: exactly what each command removes; that a second run finds nothing; and what the collector takes away
  from the other users of the same directory.
\<close>

section \<open>Collecting blobs\<close>

record collector_args =
  ca_dryRun :: bool
  ca_graceHours :: rat

definition decimal :: "string \<times> string \<times> int \<Rightarrow> rat" where
  "decimal p =
     (case p of (ip, fp, e) \<Rightarrow>
        (let m = of_int (digits_value 0 (ip @ fp)); k = e - int (length fp)
         in if 0 \<le> k then m * 10 ^ nat k else m / 10 ^ nat (- k)))"

text \<open>\<open>Number(s)\<close> where it is finite and not negative.\<close>

definition grace_hours :: "string \<Rightarrow> rat option" where
  "grace_hours s =
     (case string_Number s of
        Some (JInt i) \<Rightarrow> if i < 0 then None else Some (of_int i)
      | Some (JReal r) \<Rightarrow> if take 1 r = ''-'' then None else map_option decimal (numeral_parts r)
      | _ \<Rightarrow> None)"

fun parse_args :: "collector_args \<Rightarrow> string list \<Rightarrow> string + collector_args" where
  "parse_args a [] = Inr a"
| "parse_args a (x # xs) =
     (if x = ''--dry-run'' then parse_args (a\<lparr>ca_dryRun := True\<rparr>) xs
      else if x = ''--grace-hours'' then
        (case xs of
           [] \<Rightarrow> Inl ''--grace-hours must be a non-negative number''
         | v # rest \<Rightarrow>
             (case grace_hours v of
                None \<Rightarrow> Inl ''--grace-hours must be a non-negative number''
              | Some h \<Rightarrow> parse_args (a\<lparr>ca_graceHours := h\<rparr>) rest))
      else Inl (''unknown argument: '' @ x))"

definition default_args :: collector_args where
  "default_args = \<lparr>ca_dryRun = False, ca_graceHours = 12\<rparr>"

text \<open>What a run reads of the world.\<close>

record collector =
  co_now :: millis
  co_uploads :: string
  co_listing :: "string list option"
  co_mtime :: "string \<Rightarrow> rat"
  co_locked :: "string \<Rightarrow> bool"

record collect_report =
  rp_scanned :: nat
  rp_kept :: nat
  rp_tooYoung :: nat
  rp_removed :: nat
  rp_bytes :: nat

definition cutoff :: "collector \<Rightarrow> collector_args \<Rightarrow> rat" where
  "cutoff co a = of_int (co_now co) - ca_graceHours a * 3600000"

definition referenced :: "audit_db \<Rightarrow> string \<Rightarrow> bool" where
  "referenced db name \<longleftrightarrow> sql_exists (\<lambda>b. ab_blob_key b = name) (au_blobs db)"

definition upload_at :: "collector \<Rightarrow> string \<Rightarrow> string" where
  "upload_at co name = co_uploads co @ ''/'' @ name"

definition collect_one ::
  "collector \<Rightarrow> collector_args \<Rightarrow> audit_db \<Rightarrow> string \<Rightarrow> collect_report \<times> files \<Rightarrow> collect_report \<times> files" where
  "collect_one co a db name s =
     (case s of (rp, fs) \<Rightarrow>
        (let path = upload_at co name
         in case fs path of
              Some (RegularFile bytes) \<Rightarrow>
                (let rp1 = rp\<lparr>rp_scanned := rp_scanned rp + 1\<rparr>
                 in if referenced db name then (rp1\<lparr>rp_kept := rp_kept rp1 + 1\<rparr>, fs)
                    else if cutoff co a \<le> co_mtime co path then (rp1\<lparr>rp_tooYoung := rp_tooYoung rp1 + 1\<rparr>, fs)
                    else if \<not> ca_dryRun a \<and> co_locked co path then (rp1, fs)
                    else (rp1\<lparr>rp_removed := rp_removed rp1 + 1, rp_bytes := rp_bytes rp1 + length bytes\<rparr>,
                          if ca_dryRun a then fs else fs(path := None)))
            | _ \<Rightarrow> s))"

definition empty_report :: collect_report where
  "empty_report = \<lparr>rp_scanned = 0, rp_kept = 0, rp_tooYoung = 0, rp_removed = 0, rp_bytes = 0\<rparr>"

text \<open>The sweep of the grants comes first; \<open>None\<close> is the exit where the directory cannot be read.\<close>

definition collect_orphans ::
  "collector \<Rightarrow> collector_args \<Rightarrow> audit_db \<Rightarrow> agents_db \<Rightarrow> files \<Rightarrow> collect_report option \<times> agents_db \<times> files" where
  "collect_orphans co a db m fs =
     (let m1 = (if ca_dryRun a then m else snd (sweepExpired (sql_now (co_now co)) m))
      in case co_listing co of
           None \<Rightarrow> (None, m1, fs)
         | Some names \<Rightarrow>
             (case fold (collect_one co a db) names (empty_report, fs) of (rp, fs') \<Rightarrow> (Some rp, m1, fs')))"

section \<open>Grants of nobody\<close>

definition answering_names :: "web_db \<Rightarrow> agents_db \<Rightarrow> string list" where
  "answering_names d m =
     map lu_username (wb_local d) @ map wu_github_login (wb_users d) @ map rr_id (wb_registry d) @
     map ag_identity (db_agents m)"

definition orphan_grants :: "web_db \<Rightarrow> agents_db \<Rightarrow> grant_row list" where
  "orphan_grants d m =
     filter (\<lambda>g. rg_subject g \<notin> set (answering_names d m))
       (order_asc rg_subject (order_asc rg_capability (db_grants m)))"

definition remove_grant :: "grant_row \<Rightarrow> nat \<times> grant_row list \<Rightarrow> nat \<times> grant_row list" where
  "remove_grant r s =
     (case s of (n, gs) \<Rightarrow>
        (let same = (\<lambda>g. rg_tenant g = rg_tenant r \<and> rg_subject g = rg_subject r \<and>
                         rg_capability g = rg_capability r \<and> rg_scope g = rg_scope r)
         in (n + sql_changes same gs, sql_delete same gs)))"

text \<open>The exit code, the number of rows removed, and the store.\<close>

definition orphan_grants_command :: "bool \<Rightarrow> web_db \<Rightarrow> agents_db \<Rightarrow> int \<times> nat \<times> agents_db" where
  "orphan_grants_command repair d m =
     (let orphans = orphan_grants d m
      in if orphans = [] then (0, 0, m)
         else if \<not> repair then (1, 0, m)
         else (case fold remove_grant orphans (0, db_grants m) of
                 (removed, gs) \<Rightarrow> (0, removed, m\<lparr>db_grants := gs\<rparr>)))"

section \<open>What the collector removes\<close>

text \<open>A name that is removed when the loop comes to it.\<close>

definition collectable :: "collector \<Rightarrow> collector_args \<Rightarrow> audit_db \<Rightarrow> files \<Rightarrow> string \<Rightarrow> bool" where
  "collectable co a db fs name \<longleftrightarrow>
     (\<exists>bytes. fs (upload_at co name) = Some (RegularFile bytes)) \<and> \<not> referenced db name \<and>
     co_mtime co (upload_at co name) < cutoff co a \<and> \<not> co_locked co (upload_at co name)"

lemma upload_at_inj [simp]: "upload_at co n = upload_at co n' \<longleftrightarrow> n = n'"
  by (simp add: upload_at_def)

lemma collect_one_files:
  "snd (collect_one co a db name (rp, fs)) =
     (if \<not> ca_dryRun a \<and> collectable co a db fs name then fs(upload_at co name := None) else fs)"
  by (auto simp: collect_one_def collectable_def Let_def split: option.split disk_file.split)

lemma collect_one_idle:
  assumes "\<not> ca_dryRun a" "\<not> collectable co a db fs name"
  shows "\<exists>rp'. collect_one co a db name (rp, fs) = (rp', fs) \<and> rp_removed rp' = rp_removed rp"
  using assms by (auto simp: collect_one_def collectable_def Let_def split: option.split disk_file.split)

lemma collected_files:
  "snd (fold (collect_one co a db) names (rp, fs)) =
     (\<lambda>p. if \<not> ca_dryRun a \<and> (\<exists>n\<in>set names. p = upload_at co n \<and> collectable co a db fs n) then None else fs p)"
proof (induction names arbitrary: rp fs)
  case Nil
  show ?case by simp
next
  case (Cons name names)
  obtain rp1 fs1 where one: "collect_one co a db name (rp, fs) = (rp1, fs1)" by fastforce
  then have fs1: "fs1 = (if \<not> ca_dryRun a \<and> collectable co a db fs name then fs(upload_at co name := None) else fs)"
    using collect_one_files [of co a db name rp fs] by simp
  show ?case
  proof (cases "\<not> ca_dryRun a \<and> collectable co a db fs name")
    case True
    then have eq: "fs1 = fs(upload_at co name := None)" by (simp add: fs1)
    have left: "collectable co a db fs1 n \<longleftrightarrow> n \<noteq> name \<and> collectable co a db fs n" for n
      by (auto simp: eq collectable_def)
    show ?thesis
    proof (rule ext)
      fix p
      have "fs1 p = (if p = upload_at co name then None else fs p)" by (simp add: eq)
      moreover have "p \<noteq> upload_at co name \<Longrightarrow>
          (\<exists>n\<in>set names. p = upload_at co n \<and> collectable co a db fs1 n) =
          (\<exists>n\<in>set (name # names). p = upload_at co n \<and> collectable co a db fs n)"
        unfolding left list.set by blast
      moreover have "p = upload_at co name \<Longrightarrow> \<exists>n\<in>set (name # names). p = upload_at co n \<and> collectable co a db fs n"
        using True by auto
      ultimately show "snd (fold (collect_one co a db) (name # names) (rp, fs)) p =
          (if \<not> ca_dryRun a \<and> (\<exists>n\<in>set (name # names). p = upload_at co n \<and> collectable co a db fs n) then None else fs p)"
        using True by (cases "p = upload_at co name") (simp_all only: fold_simps one Cons.IH if_True if_False simp_thms if_cancel)
    qed
  next
    case False
    then have "fs1 = fs" unfolding fs1 by (rule if_not_P)
    with False show ?thesis by (intro ext) (auto simp: one Cons.IH)
  qed
qed

lemma collected_idle:
  assumes "\<not> ca_dryRun a" "\<forall>n\<in>set names. \<not> collectable co a db fs n"
  shows "\<exists>rp'. fold (collect_one co a db) names (rp, fs) = (rp', fs) \<and> rp_removed rp' = rp_removed rp"
  using assms(2)
proof (induction names arbitrary: rp)
  case (Cons name names)
  with collect_one_idle [OF assms(1), of co db fs name rp] show ?case by fastforce
qed simp

lemma collect_orphans_result:
  assumes "collect_orphans co a db m fs = (Some rp, m', fs')"
  obtains names where "co_listing co = Some names"
    "fold (collect_one co a db) names (empty_report, fs) = (rp, fs')"
    "m' = (if ca_dryRun a then m else snd (sweepExpired (sql_now (co_now co)) m))"
  using assms by (auto simp: collect_orphans_def Let_def split: option.splits prod.splits)

text \<open>
  C28: The collector removes exactly the regular files of its listing that no event references, that are older than the
  grace period and that can be unlinked, and of the grants exactly those that have lapsed; a dry run changes nothing.
  Run again at the same time, it removes nothing.
\<close>

theorem collector_removes_exactly_the_orphans:
  assumes "collect_orphans co a db m fs = (Some rp, m', fs')"
  shows "(\<forall>p. fs' p =
      (if \<not> ca_dryRun a \<and> (\<exists>name\<in>set (the (co_listing co)). p = upload_at co name \<and> collectable co a db fs name)
       then None else fs p)) \<and>
    m' = (if ca_dryRun a then m
          else m\<lparr>db_upload_nonces := filter (\<lambda>r. co_now co div 1000 \<le> un_expires_at r) (db_upload_nonces m)\<rparr>) \<and>
    (\<not> ca_dryRun a \<longrightarrow> (\<exists>rp'. collect_orphans co a db m' fs' = (Some rp', m', fs') \<and> rp_removed rp' = 0))"
proof -
  obtain names where n: "co_listing co = Some names"
      "fold (collect_one co a db) names (empty_report, fs) = (rp, fs')"
      "m' = (if ca_dryRun a then m else snd (sweepExpired (sql_now (co_now co)) m))"
    using assms by (rule collect_orphans_result)
  have files: "fs' p = (if \<not> ca_dryRun a \<and> (\<exists>n\<in>set names. p = upload_at co n \<and> collectable co a db fs n) then None else fs p)"
    for p using collected_files [of co a db names empty_report fs] n(2) by simp
  have m': "m' = (if ca_dryRun a then m
      else m\<lparr>db_upload_nonces := filter (\<lambda>r. co_now co div 1000 \<le> un_expires_at r) (db_upload_nonces m)\<rparr>)"
    using n(3) by (simp add: sweepExpired_def sql_now_def sql_delete_def not_less)
  have "\<exists>rp'. collect_orphans co a db m' fs' = (Some rp', m', fs') \<and> rp_removed rp' = 0" if dry: "\<not> ca_dryRun a"
  proof -
    have "\<not> collectable co a db fs' k" if "k \<in> set names" for k
      using that dry files [of "upload_at co k"] by (auto simp: collectable_def)
    with collected_idle [OF dry, of names co db fs' empty_report] obtain rp'
      where "fold (collect_one co a db) names (empty_report, fs') = (rp', fs')" "rp_removed rp' = 0"
      by (auto simp: empty_report_def)
    moreover have "snd (sweepExpired (sql_now (co_now co)) m') = m'"
      using dry by (simp add: m' sweepExpired_def sql_now_def sql_delete_def not_less)
    ultimately show ?thesis using dry n(1) by (simp add: collect_orphans_def)
  qed
  with files m' n(1) show ?thesis by simp
qed

section \<open>What the collector takes away\<close>

lemma collected_is_gone:
  assumes "fs (upload_path fe key) = Some (RegularFile bytes)"
    and "co_uploads co = UPLOAD_DIR fe" "co_listing co = Some names" "key \<in> set names"
    and "co_mtime co (upload_path fe key) < cutoff co a" "\<not> co_locked co (upload_path fe key)" "\<not> ca_dryRun a"
    and "key \<notin> ab_blob_key ` set (au_blobs db)" "collect_orphans co a db agents fs = (rp, agents', fs')"
  shows "fs' (upload_path fe key) = None"
proof -
  have path: "upload_at co key = upload_path fe key" using assms(2) by (simp add: upload_at_def upload_path_def)
  have "\<not> referenced db key" using assms(8) by (auto simp: referenced_def sql_exists_iff)
  then have "collectable co a db fs key" using assms(1,5,6) by (simp add: collectable_def path)
  moreover have "fs' = snd (fold (collect_one co a db) names (empty_report, fs))"
    using assms(3,9) by (auto simp: collect_orphans_def split: prod.splits)
  ultimately show ?thesis using assms(4,7) path by (auto simp: collected_files)
qed

lemma recording_references_nothing: "au_blobs (recordMeshEvent env ty f db) = au_blobs db"
  by (auto simp: recordMeshEvent_def audit_write_def stmtInsertAuditEvent_def split: option.split sum.split)

text \<open>
  C30: The chat's uploads are in the directory that the collector sweeps, and nothing the mesh records about a message
  is a reference: the attachment of a message that both parties could download until then is gone after the first run
  that finds it older than the grace period, whatever messages carry it.
\<close>

theorem collector_takes_the_attachments_of_messages:
  assumes "asks_for fe w q who i" "fs (upload_path fe i) = Some (RegularFile bytes)"
    and "m \<in> set (hb_messages (w_hub w))" "ms_from_agent m = who \<or> ms_to_agent m = who" "carries i m"
    and "co_uploads co = UPLOAD_DIR fe" "co_listing co = Some names" "i \<in> set names"
    and "co_mtime co (upload_path fe i) < cutoff co a" "\<not> co_locked co (upload_path fe i)" "\<not> ca_dryRun a"
    and "i \<notin> ab_blob_key ` set (au_blobs db)"
    and "collect_orphans co a (recordMeshEvent env ty ev db) agents fs = (rp, agents', fs')"
  shows "get_attachment fe fs w q = served bytes \<and> get_attachment fe fs' w q = c_error 404 ''Not found''"
proof -
  have "i \<notin> ab_blob_key ` set (au_blobs (recordMeshEvent env ty ev db))"
    using assms(12) by (simp add: recording_references_nothing)
  with assms(13) have gone: "fs' (upload_path fe i) = None"
    by (intro collected_is_gone [where fs = fs, OF assms(2,6-11)])
  have "mayDownload (w_hub w) who i" using assms(3-5) by (auto simp: mayDownload_def sql_exists_iff)
  then have "get_attachment fe fs w q = served bytes"
    using get_attachment_session [where fs = fs, OF assms(1,2)] by simp
  moreover have "get_attachment fe fs' w q = c_error 404 ''Not found''"
    using assms(1) gone
    by (auto simp: asks_for_def get_attachment_def attachmentCaller_def Let_def split: option.splits)
  ultimately show ?thesis by simp
qed

text \<open>The hub reads the sizes of the same files.\<close>

definition sees :: "file_env \<Rightarrow> files \<Rightarrow> env \<Rightarrow> bool" where
  "sees fe fs env \<longleftrightarrow>
     (\<forall>k. en_blob env k =
        (case fs (upload_path fe k) of Some (RegularFile x) \<Rightarrow> Some (int (length x)) | _ \<Rightarrow> None))"

text \<open>
  A blob that is there without a reference is reported to a client as present, and uploading it again is answered as
  done without a write, so it does not become younger: where it is older than the grace period, a run in between takes
  it, and the attachment of the event that the client then appends is missing.
\<close>

theorem collector_takes_a_blob_that_was_promised:
  assumes "sees fe fs env" "sees fe fs' env'" "en_contracts env' = en_contracts env"
    and "ct_deriveBlobKey (en_contracts env) (bq_sha256 b) (bq_name b) = key" "bq_size b = int (length bytes)"
    and "fs (upload_path fe key) = Some (RegularFile bytes)" "un_size g = bq_size b"
    and "co_uploads co = UPLOAD_DIR fe" "co_listing co = Some names" "key \<in> set names"
    and "co_mtime co (upload_path fe key) < cutoff co a" "\<not> co_locked co (upload_path fe key)" "\<not> ca_dryRun a"
    and "key \<notin> ab_blob_key ` set (au_blobs db)" "collect_orphans co a db agents fs = (rp, agents', fs')"
  shows "prepare_one env identity agents b =
      Some (JObj [(''sha256'', JStr (bq_sha256 b)), (''blob_key'', JStr key), (''status'', JStr ''present'')], agents) \<and>
    fst (fst (store_blob fe fs key g body)) = 200 \<and> snd (store_blob fe fs key g body) = fs \<and>
    check_attachments env' [JObj [(''sha256'', JStr (bq_sha256 b)), (''size'', JInt (bq_size b)), (''name'', JStr (bq_name b))]] =
      Inr ([], [bq_sha256 b])"
proof -
  have gone: "fs' (upload_path fe key) = None" by (rule collected_is_gone [where fs = fs and fs' = fs', OF assms(6,8-15)])
  have "blob_present env key (bq_size b)" "\<not> blob_present env' key (bq_size b)"
    using assms(1,2,5,6) gone by (simp_all add: sees_def blob_present_def)
  moreover have "has_size fs (upload_path fe key) (un_size g)" using assms(5-7) by (simp add: has_size_def)
  ultimately show ?thesis
    using assms(3,4) by (simp add: prepare_one_def Let_def store_blob_def)
qed

section \<open>What the repair removes\<close>

lemma removed_grants:
  "snd (fold remove_grant rs (n, gs)) =
     filter (\<lambda>g. \<forall>r\<in>set rs. \<not> (rg_tenant g = rg_tenant r \<and> rg_subject g = rg_subject r \<and>
        rg_capability g = rg_capability r \<and> rg_scope g = rg_scope r)) gs"
  by (induction rs arbitrary: n gs) (simp_all add: remove_grant_def Let_def sql_delete_def)

lemma removed_count: "fst (fold remove_grant rs (n, gs)) + length (snd (fold remove_grant rs (n, gs))) = n + length gs"
proof (induction rs arbitrary: n gs)
  case (Cons r rs)
  then show ?case
    using sum_length_filter_compl [of "\<lambda>g. rg_tenant g = rg_tenant r \<and> rg_subject g = rg_subject r \<and>
        rg_capability g = rg_capability r \<and> rg_scope g = rg_scope r" gs]
    by (simp add: remove_grant_def Let_def sql_delete_def sql_changes_def)
qed simp

lemma orphan_iff: "g \<in> set (orphan_grants d m) \<longleftrightarrow> g \<in> set (db_grants m) \<and> rg_subject g \<notin> set (answering_names d m)"
  by (simp add: orphan_grants_def order_asc_def)

lemma repaired_grants:
  "snd (fold remove_grant (orphan_grants d m) (n, db_grants m)) =
     filter (\<lambda>g. rg_subject g \<in> set (answering_names d m)) (db_grants m)"
  unfolding removed_grants by (rule filter_cong [OF refl]) (metis orphan_iff)

text \<open>
  The repair removes exactly the grants of subjects that no account, person, identity or registry entry answers to,
  and counts them; every name that something answers to keeps what it held, every other holds nothing, so an account
  that is admitted under it later inherits nothing; a second run finds no orphan. Without the flag nothing changes.
\<close>

theorem repair_removes_exactly_the_grants_of_nobody:
  "(case orphan_grants_command True d m of (code, n, m') \<Rightarrow>
      code = 0 \<and> n + length (db_grants m') = length (db_grants m) \<and>
      m' = m\<lparr>db_grants := filter (\<lambda>g. rg_subject g \<in> set (answering_names d m)) (db_grants m)\<rparr> \<and>
      (\<forall>wide s c sc t. has_cap wide m' s c sc t = (s \<in> set (answering_names d m) \<and> has_cap wide m s c sc t)) \<and>
      orphan_grants_command True d m' = (0, 0, m')) \<and>
   snd (orphan_grants_command False d m) = (0, m)"
proof -
  let ?kept = "filter (\<lambda>g. rg_subject g \<in> set (answering_names d m)) (db_grants m)"
  let ?m = "m\<lparr>db_grants := ?kept\<rparr>"
  obtain n gs where f: "fold remove_grant (orphan_grants d m) (0, db_grants m) = (n, gs)" by fastforce
  then have gs: "gs = ?kept" using repaired_grants [of d m 0] by simp
  have n: "n + length gs = length (db_grants m)" using removed_count [of "orphan_grants d m" 0 "db_grants m"] f by simp
  have none: "?kept = db_grants m" if "orphan_grants d m = []"
    using that orphan_iff [of _ d m] by (auto simp: filter_id_conv)
  have run: "orphan_grants_command True d m = (0, n, ?m)"
  proof (cases "orphan_grants d m = []")
    case True
    with n gs none [OF True] show ?thesis by (simp add: orphan_grants_command_def)
  next
    case False
    with f gs show ?thesis by (simp add: orphan_grants_command_def)
  qed
  have "answering_names d ?m = answering_names d m" by (simp add: answering_names_def)
  then have "orphan_grants d ?m = []" by (simp add: orphan_grants_def order_asc_def filter_empty_conv)
  then have "orphan_grants_command True d ?m = (0, 0, ?m)" by (simp add: orphan_grants_command_def)
  moreover have "has_cap wide ?m s c sc t = (s \<in> set (answering_names d m) \<and> has_cap wide m s c sc t)" for wide s c sc t
    by (auto simp: has_cap_def sql_exists_iff)
  moreover have "snd (orphan_grants_command False d m) = (0, m)" by (simp add: orphan_grants_command_def Let_def)
  ultimately show ?thesis unfolding run prod.case using n unfolding gs by simp
qed

section \<open>A concrete directory\<close>

definition lab_collector :: collector where
  "lab_collector =
     \<lparr>co_now = 10 ^ 8, co_uploads = ''/s/uploads'', co_listing = Some [''1-a''], co_mtime = (\<lambda>p. 0), co_locked = (\<lambda>p. False)\<rparr>"

definition no_audit :: audit_db where
  "no_audit = \<lparr>au_events = [], au_blobs = []\<rparr>"

lemma lab_collects:
  "co_uploads lab_collector = UPLOAD_DIR lab" "co_listing lab_collector = Some [''1-a'']" "''1-a'' \<in> set [''1-a'']"
  "co_mtime lab_collector (upload_path lab ''1-a'') < cutoff lab_collector default_args"
  "\<not> co_locked lab_collector (upload_path lab ''1-a'')" "\<not> ca_dryRun default_args"
  "''1-a'' \<notin> ab_blob_key ` set (au_blobs no_audit)"
  by (simp_all add: lab_collector_def default_args_def cutoff_def UPLOAD_DIR_def lab_def no_audit_def)

lemma collect_orphans_Some: "co_listing co = Some names \<Longrightarrow> \<exists>rp m' fs'. collect_orphans co a db m fs = (Some rp, m', fs')"
  by (simp add: collect_orphans_def split: prod.split)

theorem collector_removes_exactly_the_orphans_witness:
  "\<exists>fs'. snd (snd (collect_orphans lab_collector default_args no_audit (agents_db_init 0) lab_files)) = fs' \<and>
     fs' (upload_path lab ''1-a'') = None"
proof -
  obtain rp m' fs' where run: "collect_orphans lab_collector default_args no_audit (agents_db_init 0) lab_files = (Some rp, m', fs')"
    using collect_orphans_Some [OF lab_collects(2)] by blast
  have "upload_at lab_collector ''1-a'' = upload_path lab ''1-a''"
    using lab_collects(1) by (simp add: upload_at_def upload_path_def)
  moreover have "collectable lab_collector default_args no_audit lab_files ''1-a''"
    using lab_collects lab_upload calculation by (simp add: collectable_def referenced_def no_audit_def sql_exists_def)
  ultimately have "fs' (upload_path lab ''1-a'') = None"
    using collector_removes_exactly_the_orphans [OF run] lab_collects(2,6) by auto
  with run show ?thesis by simp
qed

definition lab_message :: web where
  "lab_message = one_mail\<lparr>w_hub := (w_hub one_mail)\<lparr>hb_messages := hb_messages (w_hub one_mail) @
     [(hub_mail ''m'' 1)\<lparr>ms_from_agent := ''kim'', ms_content := [CHR 0x22] @ ''1-a'' @ [CHR 0x22] @ []\<rparr>]\<rparr>\<rparr>"

theorem collector_takes_the_attachments_of_messages_witness:
  "\<exists>fs'. get_attachment lab lab_files lab_message lab_request = served ''abc'' \<and>
     get_attachment lab fs' lab_message lab_request = c_error 404 ''Not found''"
proof -
  let ?m = "(hub_mail ''m'' 1)\<lparr>ms_from_agent := ''kim'', ms_content := [CHR 0x22] @ ''1-a'' @ [CHR 0x22] @ []\<rparr>"
  let ?db = "recordMeshEvent Hub_State.plain_env EvSent undefined no_audit"
  obtain rp m' fs' where run: "collect_orphans lab_collector default_args ?db (agents_db_init 0) lab_files = (Some rp, m', fs')"
    using collect_orphans_Some [OF lab_collects(2)] by blast
  have "asks_for lab lab_message lab_request ''kim'' ''1-a''"
    using lab_asks by (auto simp: asks_for_def lab_message_def lab_def split: option.splits)
  moreover have "?m \<in> set (hb_messages (w_hub lab_message))" by (simp add: lab_message_def)
  moreover have "carries ''1-a'' ?m"
    using like_plain_contains [of "[CHR 0x22] @ ''1-a'' @ [CHR 0x22]" "[]" "[]"] by (simp add: carries_def)
  ultimately show ?thesis
    using collector_takes_the_attachments_of_messages
      [where fs = lab_files and m = ?m and fs' = fs' and env = Hub_State.plain_env and ev = undefined and ty = EvSent, OF _ lab_upload _ _ _ lab_collects run]
    by auto
qed

definition lab_blob :: blob_request where
  "lab_blob = \<lparr>bq_sha256 = ''1'', bq_size = 3, bq_name = ''a''\<rparr>"

definition hub_over :: "files \<Rightarrow> env" where
  "hub_over fs = Hub_State.plain_env
     \<lparr>en_contracts := plain_contracts\<lparr>ct_deriveBlobKey := (\<lambda>h n. h @ ''-'' @ n)\<rparr>,
      en_blob := (\<lambda>k. case fs (upload_path lab k) of Some (RegularFile x) \<Rightarrow> Some (int (length x)) | _ \<Rightarrow> None)\<rparr>"

theorem collector_takes_a_blob_that_was_promised_witness:
  "\<exists>fs'. prepare_one (hub_over lab_files) ''ann'' lab_grant lab_blob =
      Some (JObj [(''sha256'', JStr ''1''), (''blob_key'', JStr ''1-a''), (''status'', JStr ''present'')], lab_grant) \<and>
     check_attachments (hub_over fs') [JObj [(''sha256'', JStr ''1''), (''size'', JInt 3), (''name'', JStr ''a'')]] =
       Inr ([], [''1''])"
proof -
  obtain rp m' fs' where run: "collect_orphans lab_collector default_args no_audit lab_grant lab_files = (Some rp, m', fs')"
    using collect_orphans_Some [OF lab_collects(2)] by blast
  have "sees lab fs (hub_over fs)" for fs by (simp add: sees_def hub_over_def)
  then show ?thesis
    using collector_takes_a_blob_that_was_promised
      [where fe = lab and fs = lab_files and fs' = fs' and env = "hub_over lab_files" and env' = "hub_over fs'" and b = lab_blob and
        g = "\<lparr>un_nonce = [], un_identity = [], un_blob_key = [], un_size = 3, un_sha256 = [], un_issued_at = 0, un_expires_at = 0\<rparr>",
       OF _ _ _ _ _ lab_upload _ lab_collects run]
    by (auto simp: lab_blob_def hub_over_def)
qed

end
