(* ===== verification/Spec2Isabelle.thy ===== *)
theory Spec2Isabelle
  imports Store_Tenants Store_Groups Store_Grants Store_Ownership Hub_Run Reminder_Outage Web_Rename Web_Grants Web_Overdue Web_Delivery Web_Files_Facts Web_Console_Runs Web_Console_Grants Tools_Orphans
begin

text \<open>
  A verification library of the agent mesh platform, the TypeScript services under \<open>packages/\<close>: a hub that routes
  messages between identities, a web server with the console of the people who run it, and a scheduler of reminders,
  over SQLite stores that they share.

  \<^bold>\<open>The program and how its parts interact.\<close>
  \<open>agents.db\<close> (identities, types, keys, grants, groups, owners) is written by the hub and the web server; \<open>hub.db\<close>
  (messages) by the hub and read by the web server; \<open>audit.db\<close> by the hub and the web server's record of reads;
  \<open>self-reminder.db\<close> by the hub (requests), the scheduler (fires) and the web server (operators' answers);
  \<open>agent-mesh.db\<close> by the web server alone. The hub serves sockets (JSON-RPC), a signed REST surface and provisioning.
  The web server holds one socket to the hub, on which it sends as a proxy of its people. The reminder service holds
  another. The uploads are one directory, which the web server writes, the hub looks into and a timed command sweeps.

  \<^bold>\<open>How code becomes definitions.\<close>
  A table is the list of its rows, a statement one of the \<open>sql_*\<close> functions of \<open>Mesh_Prelude\<close>, and a database the
  record of its tables. A handler is a function from its environment, its state and the request to the answer and the
  state after it, with every branch of the code; what it throws is a value. A process is a step function over its events,
  and its runs are \<open>foldl\<close> of it; the locale \<open>machine\<close> lifts an invariant from a step to the runs and is interpreted on
  every process. The environment holds what the code asks of the world: the clock, random draws, hashes and signature
  primitives, the functions of the package \<open>@agent-mesh/contracts\<close> (whose source is not here), and which writes fail.
  Log lines are not state.

  \<^bold>\<open>Theories.\<close>
  \<^item> \<open>Mesh_Prelude\<close>, \<open>Js_Text\<close>, \<open>Json_Rpc\<close>, \<open>Mesh_Time\<close>: tables, strings, JSON with \<open>packages/hub/src/jsonrpc.ts\<close>, dates.
  \<^item> \<open>Store_Schema\<close>, \<open>Store_Tenants\<close>, \<open>Store_Agents\<close>, \<open>Store_Groups\<close>, \<open>Store_Grants\<close>, \<open>Store_Keys\<close>, \<open>Store_Ownership\<close>,
    \<open>Store_Nonces\<close>, \<open>Store_Verify\<close>, \<open>Key_Lifecycle\<close>: the files of \<open>packages/store/src\<close> of those names, \<open>teardown.ts\<close> and
    \<open>entitlement.ts\<close>; \<open>Hub_Db\<close> and \<open>Mailbox_Queue\<close>: \<open>schema/hub.ts\<close>, \<open>outbox.ts\<close>, the hub's \<open>db.ts\<close> and \<open>packages/mailbox\<close>.
  \<^item> \<open>Hub_Limits\<close>, \<open>Hub_Observed\<close>, \<open>Hub_Presence\<close>, \<open>Hub_RawParams\<close>, \<open>Hub_Signature\<close>, \<open>Hub_State\<close>, \<open>Hub_Audit\<close>, \<open>Hub_Send\<close>,
    \<open>Hub_Connect\<close>, \<open>Hub_Reminders\<close>, \<open>Hub_Dispatch\<close>, \<open>Hub_Signed\<close>, \<open>Hub_Provision\<close>, \<open>Hub_Mailbox\<close>, \<open>Hub_Serve\<close>: the files of
    \<open>packages/hub/src\<close>, up to \<open>server_step\<close>, the process of \<open>main.ts\<close>; \<open>Hub_Run\<close>: its runs.
  \<^item> \<open>Reminder_Lifecycle\<close> (\<open>lifecycle.ts\<close>), \<open>Reminder_Scheduler\<close> (\<open>scheduler.ts\<close>, \<open>main.ts\<close>), \<open>Reminder_Fires\<close>,
    \<open>Reminder_Outage\<close>: \<open>packages/self-reminder/src\<close>.
  \<^item> \<open>Web_Store\<close> (\<open>db.ts\<close>), \<open>Web_Session\<close>, \<open>Web_Accounts\<close>, \<open>Web_Keys\<close>, \<open>Web_Mesh\<close>, \<open>Web_Grants\<close>, \<open>Web_Overdue\<close>,
    \<open>Web_Chat\<close>, \<open>Web_Audit\<close>, \<open>Web_Files\<close>, \<open>Web_Rename\<close>: \<open>packages/http/src\<close>, by the routes of \<open>main.ts\<close> with the modules they
    call; \<open>Web_Console\<close>: the table of the routes, the gate, the start, and \<open>web_step\<close>, the process. Their properties are in
    \<open>Web_Delivery\<close>, \<open>Web_Audit_Facts\<close>, \<open>Web_Files_Facts\<close>, \<open>Web_Console_Facts\<close>, \<open>Web_Console_Runs\<close>, \<open>Web_Console_Grants\<close>.
  \<^item> \<open>Tools_Orphans\<close>: the commands \<open>scripts/collect-orphan-blobs.ts\<close> and \<open>scripts/orphan-grants.ts\<close>.

  \<^bold>\<open>What the lemmas show.\<close>
  \<^item> Authority: no store of the hub changes without a verified request or the right that the route asks for
    (\<open>Hub_Dispatch\<close>, \<open>Hub_Run\<close>), and none of the web server's without the authority of its route (\<open>Web_Console_Facts\<close>); a
    deactivated account stays out over every run, a restart included; somebody can always grant.
  \<^item> Signatures: the gates exactly, single use of a nonce, and what the signed text covers.
  \<^item> Messages: a run of the hub refines a board on which a message is posted once and then settled or withdrawn;
    leases exclude each other; mail that is not acknowledged is kept; in the console a message is answered once and a
    stream is written only to its parties.
  \<^item> Keys: the life cycle, and the event log whose replay is the key table.
  \<^item> Reminders: one fire at a time, a request settled once, a tick that ends, holds and operators' answers.
  \<^item> Audit: cursors that read every event once, what is withheld, and reads that are recorded before they are answered.
  \<^item> Files: what a path can reach, blobs that are what was granted, and exactly what the collector removes.
  \<^item> What goes wrong is a theorem too where the code does what it should not; the prose before the theorem says so.

  \<^bold>\<open>Interfaces.\<close>
  \<open>machine\<close> (steps that keep an invariant), \<open>once_only\<close> (what settles at most once), \<open>send_policy\<close> (the egress
  rules as their callers rely on them), \<open>replay_guard\<close> (a window of nonces) and \<open>keyset\<close> (a page that ends with a row and
  begins after it) are locales, each interpreted on the model's own operations.

  \<^bold>\<open>Bounds and fuel.\<close>
  The JSON parser has as fuel the length of its text plus one, and every call consumes a character. A reader who
  follows cursors (\<open>follow_events\<close>) has fuel for one page more than there are rows, and every page but the last has a row.
  All other recursion is structural or has its measure. Times, counters and ids are unbounded integers, as they are far
  from the doubles' limits; token buckets are exact rationals in place of doubles; a character is below 256.

  \<^bold>\<open>Not modelled.\<close>
  The structured log, usage figures and telemetry, and the statistics of tenants, which only report; the pages that the
  server renders and the web client; the opening, migration and checkpointing of database files; media types and
  headers; the scripts that test and check the repository; and the \<open>contracts\<close> package, hono, GitHub, cron-parser, web-push
  and the cryptographic primitives, which are parameters.
\<close>

end
